(* ===== verification/Edm_Prelude.thy ===== *)
theory Edm_Prelude
  imports Main "HOL-Library.Word"
begin

text \<open>
  What every component of the development shares: the outcome of a fallible
  Rust operation, arithmetic on machine words with Rust's overflow rules, texts
  as UTF-8 byte sequences with the string operations of the Rust standard
  library the code uses, first-match search and update of vectors, and the
  result of writing a repository file.
\<close>

named_theorems outcome_simps \<open>evaluation of outcomes and of the question-mark operator\<close>
named_theorems word_nat \<open>machine arithmetic read as natural numbers\<close>

type_synonym u8 = "8 word"
type_synonym u16 = "16 word"
type_synonym u32 = "32 word"
type_synonym u64 = "64 word"

text \<open>Identifiers (\<open>uuid::Uuid\<close>) are their 128 bits; instants are nanoseconds.\<close>

type_synonym uuid = "128 word"
type_synonym instant = int

section \<open>Outcomes\<close>

text \<open>
  \<open>Ok\<close> and \<open>Err\<close> are the constructors of Rust's \<open>Result\<close>; \<open>Panic\<close> is an
  \<open>unwrap\<close>, \<open>expect\<close>, index or checked-arithmetic panic, so that the absence
  of panics is a statement of the model and not an assumption.
\<close>

datatype ('e, 'a) outcome = Ok 'a | Err 'e | Panic

fun and_then :: "('e, 'a) outcome \<Rightarrow> ('a \<Rightarrow> ('e, 'b) outcome) \<Rightarrow> ('e, 'b) outcome" where
  "and_then (Ok x) f = f x"
| "and_then (Err e) f = Err e"
| "and_then Panic f = Panic"

fun map_err :: "('e \<Rightarrow> 'f) \<Rightarrow> ('e, 'a) outcome \<Rightarrow> ('f, 'a) outcome" where
  "map_err g (Ok x) = Ok x"
| "map_err g (Err e) = Err (g e)"
| "map_err g Panic = Panic"

fun map_ok :: "('a \<Rightarrow> 'b) \<Rightarrow> ('e, 'a) outcome \<Rightarrow> ('e, 'b) outcome" where
  "map_ok g (Ok x) = Ok (g x)"
| "map_ok g (Err e) = Err e"
| "map_ok g Panic = Panic"

fun ok_or :: "'a option \<Rightarrow> 'e \<Rightarrow> ('e, 'a) outcome" where
  "ok_or (Some x) e = Ok x"
| "ok_or None e = Err e"

definition ensure :: "bool \<Rightarrow> 'e \<Rightarrow> ('e, unit) outcome" where
  "ensure b e = (if b then Ok () else Err e)"

fun is_ok :: "('e, 'a) outcome \<Rightarrow> bool" where
  "is_ok (Ok x) = True"
| "is_ok (Err e) = False"
| "is_ok Panic = False"

lemma and_then_Ok_iff [outcome_simps]:
  "and_then m f = Ok y \<longleftrightarrow> (\<exists>x. m = Ok x \<and> f x = Ok y)"
  by (cases m) auto

lemma and_then_Err_iff [outcome_simps]:
  "and_then m f = Err e \<longleftrightarrow> m = Err e \<or> (\<exists>x. m = Ok x \<and> f x = Err e)"
  by (cases m) auto

lemma and_then_Panic_iff [outcome_simps]:
  "and_then m f = Panic \<longleftrightarrow> m = Panic \<or> (\<exists>x. m = Ok x \<and> f x = Panic)"
  by (cases m) auto

lemma map_err_iffs [outcome_simps]:
  "map_err g m = Ok x \<longleftrightarrow> m = Ok x"
  "map_err g m = Err b \<longleftrightarrow> (\<exists>e. m = Err e \<and> b = g e)"
  "map_err g m = Panic \<longleftrightarrow> m = Panic"
  by (cases m; auto)+

lemma map_ok_iffs [outcome_simps]:
  "map_ok h m = Ok y \<longleftrightarrow> (\<exists>x. m = Ok x \<and> y = h x)"
  "map_ok h m = Err e \<longleftrightarrow> m = Err e"
  "map_ok h m = Panic \<longleftrightarrow> m = Panic"
  by (cases m; auto)+

lemma ok_or_iffs [outcome_simps]:
  "ok_or v e = Ok x \<longleftrightarrow> v = Some x"
  "ok_or v e = Err b \<longleftrightarrow> v = None \<and> b = e"
  "ok_or v e \<noteq> Panic"
  by (cases v; auto)+

lemma ensure_iffs [outcome_simps]:
  "ensure b e = Ok u \<longleftrightarrow> b"
  "ensure b e = Err e' \<longleftrightarrow> \<not> b \<and> e' = e"
  "ensure b e \<noteq> Panic"
  by (auto simp: ensure_def)

text \<open>A fallible call on a state, and the question mark after it.\<close>

fun then_do ::
  "('e, 'a) outcome \<times> 's \<Rightarrow> ('a \<Rightarrow> 's \<Rightarrow> ('e, 'b) outcome \<times> 's) \<Rightarrow> ('e, 'b) outcome \<times> 's" where
  "then_do (Ok x, s) k = k x s"
| "then_do (Err e, s) k = (Err e, s)"
| "then_do (Panic, s) k = (Panic, s)"

lemma then_do_Ok:
  "then_do m k = (Ok y, s') \<longleftrightarrow> (\<exists>x s. m = (Ok x, s) \<and> k x s = (Ok y, s'))"
  by (cases m; cases "fst m") auto

lemma is_ok_iff: "is_ok m \<longleftrightarrow> (\<exists>x. m = Ok x)"
  by (cases m) auto

lemma is_ok_map_ok [simp]: "is_ok (map_ok h m) = is_ok m"
  by (cases m) simp_all

lemma map_ok_no_panic [simp]: "map_ok f m = Panic \<longleftrightarrow> m = Panic"
  by (cases m) simp_all

section \<open>Machine arithmetic\<close>

text \<open>Rust's explicit overflow operations on unsigned words of any width.\<close>

definition saturating_add :: "'n::len word \<Rightarrow> 'n word \<Rightarrow> 'n word" where
  "saturating_add a b = (if unat a + unat b < 2 ^ LENGTH('n) then a + b else - 1)"

definition saturating_sub :: "'n::len word \<Rightarrow> 'n word \<Rightarrow> 'n word" where
  "saturating_sub a b = (if b \<le> a then a - b else 0)"

definition saturating_mul :: "'n::len word \<Rightarrow> 'n word \<Rightarrow> 'n word" where
  "saturating_mul a b = (if unat a * unat b < 2 ^ LENGTH('n) then a * b else - 1)"

definition checked_add :: "'n::len word \<Rightarrow> 'n word \<Rightarrow> 'n word option" where
  "checked_add a b = (if unat a + unat b < 2 ^ LENGTH('n) then Some (a + b) else None)"

definition checked_sub :: "'n::len word \<Rightarrow> 'n word \<Rightarrow> 'n word option" where
  "checked_sub a b = (if b \<le> a then Some (a - b) else None)"

definition checked_mul :: "'n::len word \<Rightarrow> 'n word \<Rightarrow> 'n word option" where
  "checked_mul a b = (if unat a * unat b < 2 ^ LENGTH('n) then Some (a * b) else None)"

definition abs_diff :: "'n::len word \<Rightarrow> 'n word \<Rightarrow> 'n word" where
  "abs_diff a b = (if a \<le> b then b - a else a - b)"

definition div_ceil :: "'n::len word \<Rightarrow> 'n word \<Rightarrow> 'n word" where
  "div_ceil a b = (if a mod b = 0 then a div b else a div b + 1)"

lemma unat_max_word: "unat (- 1 :: 'n::len word) = 2 ^ LENGTH('n) - 1"
  by (simp add: unsigned_minus_1_eq_mask mask_eq_exp_minus_1)

lemma unat_saturating_add [word_nat]:
  "unat (saturating_add a b) = min (unat a + unat b) (2 ^ LENGTH('n) - 1)"
  for a b :: "'n::len word"
  by (auto simp: saturating_add_def unat_max_word unat_word_ariths)

lemma unat_saturating_mul [word_nat]:
  "unat (saturating_mul a b) = min (unat a * unat b) (2 ^ LENGTH('n) - 1)"
  for a b :: "'n::len word"
  by (auto simp: saturating_mul_def unat_max_word unat_word_ariths)

lemma unat_saturating_sub [word_nat]: "unat (saturating_sub a b) = unat a - unat b"
  by (auto simp: saturating_sub_def unat_sub word_le_nat_alt)

lemma unat_abs_diff [word_nat]:
  "unat (abs_diff a b) = (if unat a \<le> unat b then unat b - unat a else unat a - unat b)"
  by (auto simp: abs_diff_def unat_sub word_le_nat_alt)

lemma checked_add_Some_iff [word_nat]:
  "checked_add a b = Some c \<longleftrightarrow> unat c = unat a + unat b"
  for a b c :: "'n::len word"
proof
  assume "checked_add a b = Some c"
  then show "unat c = unat a + unat b"
    by (auto simp: checked_add_def unat_word_ariths split: if_splits)
next
  assume *: "unat c = unat a + unat b"
  then have "unat a + unat b < 2 ^ LENGTH('n)"
    by (metis unsigned_less)
  moreover from this * have "unat c = unat (a + b)" by (simp add: unat_word_ariths)
  then have "c = a + b" by (rule unsigned_word_eqI)
  ultimately show "checked_add a b = Some c"
    by (simp add: checked_add_def)
qed

lemma checked_add_None_iff [word_nat]:
  "checked_add a b = None \<longleftrightarrow> 2 ^ LENGTH('n) \<le> unat a + unat b"
  for a b :: "'n::len word"
  by (simp add: checked_add_def not_less)

lemma checked_mul_Some [word_nat]:
  "checked_mul a b = Some c \<Longrightarrow> unat c = unat a * unat b"
  by (auto simp: checked_mul_def unat_word_ariths split: if_splits)

lemma unat_div_ceil [word_nat]:
  assumes "b \<noteq> 0"
  shows "unat (div_ceil a b) = (unat a + unat b - 1) div unat b"
proof -
  let ?a = "unat a" and ?b = "unat b"
  have b: "0 < ?b" using assms by (simp add: unat_gt_0)
  have m: "(a mod b = 0) = (?a mod ?b = 0)"
    by (metis unat_eq_zero unat_mod)
  show ?thesis
  proof (cases "?a mod ?b = 0")
    case True
    then obtain q where q: "?a = ?b * q" by (metis mod_0_imp_dvd dvd_def)
    then have "?a + ?b - 1 = (?b - 1) + ?b * q" using b by simp
    moreover have "((?b - 1) + ?b * q) div ?b = q"
      using b by (subst div_mult_self2) simp_all
    ultimately have "(?a + ?b - 1) div ?b = q" by simp
    moreover have "?a div ?b = q" using q b by simp
    ultimately show ?thesis using True m by (simp add: div_ceil_def unat_div)
  next
    case False
    obtain q r where q: "?a div ?b = q" and r: "?a mod ?b = r" by blast
    have a: "?a = ?b * q + r" using q r by (metis mult_div_mod_eq)
    have "r < ?b" using b r by (metis mod_less_divisor)
    with False r have "?a + ?b - 1 = (r - 1) + ?b * (q + 1)" and "r - 1 < ?b"
      by (auto simp: a)
    moreover from this have "((r - 1) + ?b * (q + 1)) div ?b = q + 1"
      using b by (subst div_mult_self2) simp_all
    ultimately have s: "(?a + ?b - 1) div ?b = ?a div ?b + 1"
      using q by simp
    have "?b \<noteq> 1" using False by auto
    with b have "?a div ?b + 1 \<le> ?a"
      using False by (metis One_nat_def Suc_lessI add.commute div_less_dividend less_eq_Suc_le mod_0
          not_gr_zero plus_1_eq_Suc)
    then have "?a div ?b + 1 < 2 ^ LENGTH('a)"
      using unsigned_less [of a] by (meson le_less_trans)
    then have "unat (a div b + 1) = ?a div ?b + 1"
      by (simp add: unat_word_ariths unat_div)
    with False m s show ?thesis by (simp add: div_ceil_def)
  qed
qed

section \<open>Text\<close>

text \<open>
  A Rust \<open>String\<close> is a sequence of bytes in UTF-8, so a HOL \<open>string\<close> stands
  for it with one \<open>char\<close> per byte: \<open>len()\<close> is the length of the list, and the
  ASCII predicates of the code hold of a character exactly when they hold of
  its single byte (every byte of a longer encoding is at least 128).
\<close>

definition byte :: "char \<Rightarrow> nat" where
  "byte c = of_char c"

definition is_digit :: "char \<Rightarrow> bool" where
  "is_digit c = (48 \<le> byte c \<and> byte c \<le> 57)"

definition is_upper :: "char \<Rightarrow> bool" where
  "is_upper c = (65 \<le> byte c \<and> byte c \<le> 90)"

definition is_lower :: "char \<Rightarrow> bool" where
  "is_lower c = (97 \<le> byte c \<and> byte c \<le> 122)"

definition is_alnum :: "char \<Rightarrow> bool" where
  "is_alnum c = (is_digit c \<or> is_upper c \<or> is_lower c)"

definition is_hex :: "char \<Rightarrow> bool" where
  "is_hex c = (is_digit c \<or> (65 \<le> byte c \<and> byte c \<le> 70) \<or> (97 \<le> byte c \<and> byte c \<le> 102))"

definition is_ascii :: "char \<Rightarrow> bool" where
  "is_ascii c = (byte c < 128)"

definition to_lower :: "char \<Rightarrow> char" where
  "to_lower c = (if is_upper c then char_of (byte c + 32) else c)"

definition to_upper :: "char \<Rightarrow> char" where
  "to_upper c = (if is_lower c then char_of (byte c - 32) else c)"

definition eq_ignore_case :: "string \<Rightarrow> string \<Rightarrow> bool" where
  "eq_ignore_case s t = (map to_lower s = map to_lower t)"

lemma eq_ignore_case_refl [simp]: "eq_ignore_case s s"
  by (simp add: eq_ignore_case_def)

lemma eq_ignore_case_sym: "eq_ignore_case s t \<Longrightarrow> eq_ignore_case t s"
  by (simp add: eq_ignore_case_def)

lemma eq_ignore_case_trans: "eq_ignore_case s t \<Longrightarrow> eq_ignore_case t u \<Longrightarrow> eq_ignore_case s u"
  by (simp add: eq_ignore_case_def)

lemma byte_char_of [simp]: "n < 256 \<Longrightarrow> byte (char_of n) = n"
  by (simp add: byte_def of_char_of)

lemma byte_less [simp]: "byte c < 256"
  by (simp add: byte_def)

lemma to_upper_idem [simp]: "to_upper (to_upper c) = to_upper c"
  by (auto simp: to_upper_def is_lower_def)

lemma is_hex_to_upper [simp]: "is_hex (to_upper c) = is_hex c"
  by (auto simp: to_upper_def is_lower_def is_hex_def is_digit_def)

text \<open>
  \<open>str::trim\<close> removes Unicode white space at both ends: the characters below,
  each as the bytes of its encoding.
\<close>

definition white_space :: "string list" where
  "white_space =
     map (\<lambda>n. [char_of n]) [9, 10, 11, 12, 13, 32 :: nat] @
     [[char_of (0xC2 :: nat), char_of (0x85 :: nat)],
      [char_of (0xC2 :: nat), char_of (0xA0 :: nat)],
      [char_of (0xE1 :: nat), char_of (0x9A :: nat), char_of (0x80 :: nat)]] @
     map (\<lambda>n. [char_of (0xE2 :: nat), char_of (0x80 :: nat), char_of n])
       [0x80, 0x81, 0x82, 0x83, 0x84, 0x85, 0x86, 0x87, 0x88, 0x89, 0x8A, 0xA8, 0xA9, 0xAF :: nat] @
     [[char_of (0xE2 :: nat), char_of (0x81 :: nat), char_of (0x9F :: nat)],
      [char_of (0xE3 :: nat), char_of (0x80 :: nat), char_of (0x80 :: nat)]]"

definition starts_with :: "string \<Rightarrow> string \<Rightarrow> bool" where
  "starts_with p s = (take (length p) s = p)"

definition strip_prefix :: "string \<Rightarrow> string \<Rightarrow> string option" where
  "strip_prefix p s = (if starts_with p s then Some (drop (length p) s) else None)"

lemma starts_with_iff: "starts_with p s \<longleftrightarrow> (\<exists>t. s = p @ t)"
  by (metis starts_with_def append_take_drop_id append_eq_conv_conj)

lemma strip_prefix_Some [simp]: "strip_prefix p s = Some b \<longleftrightarrow> s = p @ b"
  by (auto simp: strip_prefix_def starts_with_iff)

definition leading :: "string list \<Rightarrow> string \<Rightarrow> string option" where
  "leading ws s = find (\<lambda>w. w \<noteq> [] \<and> starts_with w s) ws"

lemma leading_Some:
  assumes "leading ws s = Some w"
  shows "w \<in> set ws \<and> w \<noteq> [] \<and> (\<exists>t. s = w @ t)"
proof -
  from assms have "w \<in> set ws" "w \<noteq> []" "take (length w) s = w"
    by (auto simp: leading_def starts_with_def find_Some_iff)
  then show ?thesis by (metis append_take_drop_id)
qed

function strip_leading :: "string list \<Rightarrow> string \<Rightarrow> string" where
  "strip_leading ws s =
     (case leading ws s of None \<Rightarrow> s | Some w \<Rightarrow> strip_leading ws (drop (length w) s))"
  by pat_completeness auto

termination
  by (relation "measure (\<lambda>(ws, s). length s)") (auto dest: leading_Some)

declare strip_leading.simps [simp del]

definition trim_start :: "string \<Rightarrow> string" where
  "trim_start s = strip_leading white_space s"

definition trim_end :: "string \<Rightarrow> string" where
  "trim_end s = rev (strip_leading (map rev white_space) (rev s))"

definition trim :: "string \<Rightarrow> string" where
  "trim s = trim_end (trim_start s)"

lemma strip_leading_None [simp]: "leading ws s = None \<Longrightarrow> strip_leading ws s = s"
  by (simp add: strip_leading.simps)

lemma leading_strip_leading [simp]: "leading ws (strip_leading ws s) = None"
  by (induction ws s rule: strip_leading.induct)
    (subst strip_leading.simps, auto split: option.splits)

lemma strip_leading_suffix: "\<exists>p. s = p @ strip_leading ws s"
proof (induction ws s rule: strip_leading.induct)
  case (1 ws s)
  show ?case
  proof (cases "leading ws s")
    case None
    then show ?thesis by simp
  next
    case (Some w)
    with 1 obtain p where p: "drop (length w) s = p @ strip_leading ws (drop (length w) s)"
      by blast
    from Some obtain t where "s = w @ t" using leading_Some by blast
    with p Some have "s = (w @ p) @ strip_leading ws s"
      by (subst strip_leading.simps) simp
    then show ?thesis by blast
  qed
qed

lemma leading_prefix_None:
  assumes "leading ws (s @ t) = None"
  shows "leading ws s = None"
proof -
  have "starts_with w (s @ t)" if "starts_with w s" for w
    using that by (metis append.assoc append_eq_conv_conj append_take_drop_id starts_with_def)
  with assms show ?thesis by (auto simp: leading_def find_None_iff)
qed

lemma trim_end_prefix: "\<exists>q. s = trim_end s @ q"
proof -
  obtain p where "rev s = p @ strip_leading (map rev white_space) (rev s)"
    using strip_leading_suffix by blast
  then have "s = rev (strip_leading (map rev white_space) (rev s)) @ rev p"
    by (metis rev_append rev_rev_ident)
  then show ?thesis by (auto simp: trim_end_def)
qed

lemma trim_idem [simp]: "trim (trim s) = trim s"
proof -
  obtain q where "trim_start s = trim s @ q"
    unfolding trim_def using trim_end_prefix by blast
  moreover have "leading white_space (trim_start s) = None"
    by (simp add: trim_start_def)
  ultimately have "leading white_space (trim s) = None"
    using leading_prefix_None by metis
  then have "trim_start (trim s) = trim s" by (simp add: trim_start_def)
  moreover have "trim_end (trim s) = trim s" by (simp add: trim_def trim_end_def)
  ultimately show ?thesis by (simp add: trim_def [of "trim s"])
qed

definition visible :: "char \<Rightarrow> bool" where
  "visible c = (32 < byte c \<and> byte c < 128)"

lemma leading_visible:
  assumes "s \<noteq> []" "visible (hd s)" "list_all (\<lambda>w. w \<noteq> [] \<and> \<not> visible (hd w)) ws"
  shows "leading ws s = None"
proof -
  have "\<not> starts_with w s" if "w \<in> set ws" for w
  proof
    assume "starts_with w s"
    then obtain t where "s = w @ t" using starts_with_iff by blast
    moreover have "w \<noteq> []" "\<not> visible (hd w)" using that assms(3) by (auto simp: list_all_iff)
    ultimately show False using assms(2) by simp
  qed
  then show ?thesis by (auto simp: leading_def find_None_iff)
qed

lemma white_space_invisible:
  "list_all (\<lambda>w. w \<noteq> [] \<and> \<not> visible (hd w)) white_space"
  "list_all (\<lambda>w. w \<noteq> [] \<and> \<not> visible (hd w)) (map rev white_space)"
  by (simp_all add: white_space_def visible_def)

text \<open>A text that starts and ends with a printing ASCII character is its own trimming.\<close>

lemma trim_visible:
  assumes "s \<noteq> []" "visible (hd s)" "visible (last s)"
  shows "trim s = s"
proof -
  have "leading white_space s = None"
    using assms white_space_invisible(1) by (intro leading_visible) simp_all
  moreover have "leading (map rev white_space) (rev s) = None"
    using assms white_space_invisible(2) by (intro leading_visible) (simp_all add: hd_rev)
  ultimately show ?thesis by (simp add: trim_def trim_start_def trim_end_def)
qed

lemma trim_infix: "\<exists>p q. s = p @ trim s @ q"
proof -
  obtain p where "s = p @ trim_start s"
    using strip_leading_suffix trim_start_def by metis
  moreover obtain q where "trim_start s = trim s @ q"
    unfolding trim_def using trim_end_prefix by blast
  ultimately show ?thesis by (metis append_assoc)
qed

lemma length_trim_le: "length (trim s) \<le> length s"
  by (metis trim_infix length_append le_add1 le_add2 le_trans)

lemma trim_Nil [simp]: "trim [] = []"
  using length_trim_le [of "[]"] by simp

lemma set_trim_subset: "set (trim s) \<subseteq> set s"
proof -
  obtain p q where "s = p @ trim s @ q" using trim_infix by blast
  then have "set s = set p \<union> set (trim s) \<union> set q" by (metis set_append Un_assoc)
  then show ?thesis by blast
qed

text \<open>Characters of a text: a byte that does not continue an encoding starts one.\<close>

definition continues :: "char \<Rightarrow> bool" where
  "continues c = (128 \<le> byte c \<and> byte c < 192)"

fun take_chars :: "nat \<Rightarrow> string \<Rightarrow> string" where
  "take_chars n [] = []"
| "take_chars n (c # s) =
     (if continues c then c # take_chars n s
      else case n of 0 \<Rightarrow> [] | Suc m \<Rightarrow> c # take_chars m s)"

definition char_count :: "string \<Rightarrow> nat" where
  "char_count s = length (filter (\<lambda>c. \<not> continues c) s)"

lemma char_count_take_chars: "char_count (take_chars n s) \<le> n"
  by (induction n s rule: take_chars.induct) (auto simp: char_count_def split: nat.splits)

lemma char_count_le_length: "char_count s \<le> length s"
  by (simp add: char_count_def)

text \<open>\<open>trim\<close>, \<open>chars().take(n)\<close> and \<open>filter(is non-empty)\<close> in the order the code chains them.\<close>

definition non_empty :: "string \<Rightarrow> string option" where
  "non_empty s = (if s = [] then None else Some s)"

text \<open>\<open>str::split\<close> at the bytes that satisfy a predicate, and \<open>split_ascii_whitespace\<close>.\<close>

fun split_on :: "(char \<Rightarrow> bool) \<Rightarrow> string \<Rightarrow> string list" where
  "split_on P [] = [[]]"
| "split_on P (c # s) =
     (if P c then [] # split_on P s
      else case split_on P s of [] \<Rightarrow> [[c]] | w # ws \<Rightarrow> (c # w) # ws)"

definition is_ascii_space :: "char \<Rightarrow> bool" where
  "is_ascii_space c = (byte c \<in> {9, 10, 12, 13, 32})"

definition ascii_words :: "string \<Rightarrow> string list" where
  "ascii_words s = filter (\<lambda>w. w \<noteq> []) (split_on is_ascii_space s)"

text \<open>\<open>str::contains\<close>.\<close>

fun contains_text :: "string \<Rightarrow> string \<Rightarrow> bool" where
  "contains_text p [] = (p = [])"
| "contains_text p (c # s) = (starts_with p (c # s) \<or> contains_text p s)"

lemma split_on_not_Nil [simp]: "split_on P s \<noteq> []"
  by (cases s) (auto split: list.splits)

lemma split_on_no_separator: "w \<in> set (split_on P s) \<Longrightarrow> \<not> list_ex P w"
  by (induction s arbitrary: w) (auto split: if_splits list.splits)

lemma split_on_bytes: "w \<in> set (split_on P s) \<Longrightarrow> c \<in> set w \<Longrightarrow> c \<in> set s"
  by (induction s arbitrary: w) (fastforce split: if_splits list.splits)+

text \<open>
  The loop over a bounded collection that refuses an invalid element or one whose
  key a set of the keys seen already holds, naming its index.
\<close>

fun check_each ::
  "('a \<Rightarrow> bool) \<Rightarrow> ('a \<Rightarrow> 'k) \<Rightarrow> (nat \<Rightarrow> 'e) \<Rightarrow> (nat \<Rightarrow> 'e) \<Rightarrow> nat \<Rightarrow> 'k list \<Rightarrow> 'a list \<Rightarrow>
   ('e, unit) outcome" where
  "check_each valid key bad dup i seen [] = Ok ()"
| "check_each valid key bad dup i seen (x # xs) =
     (if \<not> valid x then Err (bad i)
      else if key x \<in> set seen then Err (dup i)
      else check_each valid key bad dup (Suc i) (key x # seen) xs)"

lemma check_each_no_panic [simp]: "check_each valid key bad dup i seen xs \<noteq> Panic"
  by (induction xs arbitrary: i seen) auto

lemma check_each_Ok_seen:
  "check_each valid key bad dup i seen xs = Ok u \<longleftrightarrow>
     list_all valid xs \<and> distinct (map key xs) \<and> set (map key xs) \<inter> set seen = {}"
  by (induction xs arbitrary: i seen) auto

lemma check_each_Ok [simp]:
  "check_each valid key bad dup i [] xs = Ok u \<longleftrightarrow> list_all valid xs \<and> distinct (map key xs)"
  by (simp add: check_each_Ok_seen)

section \<open>Vectors searched and updated at their first match\<close>

text \<open>\<open>iter().find(p)\<close> is \<open>find\<close>; an assignment through \<open>iter_mut().find(p)\<close> is below.\<close>

fun update_first :: "('a \<Rightarrow> bool) \<Rightarrow> ('a \<Rightarrow> 'a) \<Rightarrow> 'a list \<Rightarrow> 'a list" where
  "update_first P f [] = []"
| "update_first P f (x # xs) = (if P x then f x # xs else x # update_first P f xs)"

lemma length_update_first [simp]: "length (update_first P f xs) = length xs"
  by (induction xs) auto

lemma find_Some_in: "find P xs = Some x \<Longrightarrow> x \<in> set xs \<and> P x"
  by (induction xs) (auto split: if_splits)

lemma find_None_all: "find P xs = None \<longleftrightarrow> (\<forall>x \<in> set xs. \<not> P x)"
  by (auto simp: find_None_iff)

lemma map_update_first:
  "(\<And>x. find P xs = Some x \<Longrightarrow> g (f x) = g x) \<Longrightarrow> map g (update_first P f xs) = map g xs"
  by (induction xs) auto

lemma set_update_first:
  "y \<in> set (update_first P f xs) \<Longrightarrow> y \<in> set xs \<or> (\<exists>x. find P xs = Some x \<and> y = f x)"
  by (induction xs) (auto split: if_splits)

lemma update_first_None: "find P xs = None \<Longrightarrow> update_first P f xs = xs"
  by (induction xs) (auto split: if_splits)

lemma find_update_first_same:
  "find P xs = Some x \<Longrightarrow> P (f x) \<Longrightarrow> find P (update_first P f xs) = Some (f x)"
  by (induction xs) (auto split: if_splits)

lemma find_update_first_other:
  "(\<And>x. P x \<Longrightarrow> Q x = Q (f x) \<and> \<not> Q x) \<Longrightarrow> find Q (update_first P f xs) = find Q xs"
  by (induction xs) auto

lemma update_first_split:
  "find P xs = Some x \<Longrightarrow>
     \<exists>us vs. xs = us @ x # vs \<and> update_first P f xs = us @ f x # vs \<and> (\<forall>u \<in> set us. \<not> P u)"
proof (induction xs)
  case (Cons a xs)
  show ?case
  proof (cases "P a")
    case True
    with Cons.prems show ?thesis by (intro exI [of _ "[]"] exI [of _ xs]) auto
  next
    case False
    with Cons obtain us vs where
      "xs = us @ x # vs" "update_first P f xs = us @ f x # vs" "\<forall>u \<in> set us. \<not> P u"
      by auto
    with False show ?thesis by (intro exI [of _ "a # us"] exI [of _ vs]) auto
  qed
qed simp

lemma find_replace:
  "\<not> Q x \<Longrightarrow> \<not> Q x' \<Longrightarrow> find Q (us @ x' # vs) = find Q (us @ x # vs)"
  by (induction us) auto

lemma find_hit: "\<forall>u \<in> set us. \<not> Q u \<Longrightarrow> Q x \<Longrightarrow> find Q (us @ x # vs) = Some x"
  by (induction us) auto

lemma find_append_Some: "find Q xs = Some x \<Longrightarrow> find Q (xs @ ys) = Some x"
  by (induction xs) (auto split: if_splits)

lemma find_filter_same: "(\<And>x. Q x \<Longrightarrow> P x) \<Longrightarrow> find Q (filter P xs) = find Q xs"
  by (induction xs) auto

lemma distinct_key_find:
  "distinct (map k xs) \<Longrightarrow> x \<in> set xs \<Longrightarrow> find (\<lambda>y. k y = k x) xs = Some x"
  by (induction xs) (auto simp: image_iff)

section \<open>Writing a repository file\<close>

text \<open>
  What a repository's file holds, the bytes \<open>serde_json\<close> renders a document to or
  any other bytes, and the result of writing a document to it: success, or an
  I/O error with whatever the file holds then.
\<close>

datatype 'a stored = Absent | Stored 'a | Other "u8 list"

datatype 'a write_result = Written | Write_Failed "'a stored"

fun file_after :: "'a write_result \<Rightarrow> 'a \<Rightarrow> 'a stored" where
  "file_after Written d = Stored d"
| "file_after (Write_Failed c) d = c"

text \<open>
  \<open>to_vec_pretty\<close> and \<open>from_slice\<close> of \<open>serde_json\<close> for the document are a
  parameter: \<open>faithful_on\<close> states that what was rendered parses to itself.
\<close>

record 'a codec =
  cd_render :: "'a \<Rightarrow> u8 list"
  cd_parse :: "u8 list \<Rightarrow> 'a option"

fun file_bytes :: "'a codec \<Rightarrow> 'a stored \<Rightarrow> u8 list option" where
  "file_bytes c Absent = None"
| "file_bytes c (Stored d) = Some (cd_render c d)"
| "file_bytes c (Other b) = Some b"

fun faithful_on :: "'a codec \<Rightarrow> 'a stored \<Rightarrow> bool" where
  "faithful_on c (Stored d) = (cd_parse c (cd_render c d) = Some d)"
| "faithful_on c Absent = True"
| "faithful_on c (Other b) = True"

text \<open>
  How the operating system answers when a repository is opened: whether
  \<open>create_dir_all\<close> succeeds, whether \<open>exists\<close> finds a file that is there, and
  whether \<open>read\<close> succeeds on it.
\<close>

record file_access =
  fa_directory :: bool
  fa_found :: bool
  fa_readable :: bool

definition load_document ::
  "'a codec \<Rightarrow> file_access \<Rightarrow> 'a stored \<Rightarrow> 'e \<Rightarrow> 'e \<Rightarrow> ('e, 'a option) outcome" where
  "load_document c io file unreadable invalid =
     (case file_bytes c file of
        None \<Rightarrow> Ok None
      | Some b \<Rightarrow>
          if \<not> fa_found io then Ok None
          else if \<not> fa_readable io then Err unreadable
          else map_ok Some (ok_or (cd_parse c b) invalid))"

lemma load_stored:
  "faithful_on c (Stored d) \<Longrightarrow> load_document c io (Stored d) unreadable invalid =
     (if \<not> fa_found io then Ok None else if \<not> fa_readable io then Err unreadable else Ok (Some d))"
  by (simp add: load_document_def)

end
