(* ===== verification/Core_Models.thy ===== *)
theory Core_Models
  imports Edm_Prelude
begin

text \<open>
  The data the components exchange (\<open>crates/core/src/models.rs\<close>): hardware
  inventories, registered devices, PXE configuration and clients, activity
  events and image artifacts, one \<open>datatype\<close> per Rust enum and one \<open>record\<close>
  per struct.  Field names carry the struct's name as a prefix, because
  selectors of Isabelle records are global.  \<open>serde_json\<close> values inside an
  activity event stay abstract (a type parameter).
\<close>

section \<open>Hardware inventory\<close>

datatype architecture = X86_64 | Aarch64 | Arch_Unknown

datatype boot_mode = Uefi | Legacy_Bios | Boot_Unknown

record disk =
  disk_id :: string
  disk_model :: string
  disk_serial :: "string option"
  disk_size_bytes :: u64
  disk_is_system :: bool

record memory_module =
  mem_manufacturer :: "string option"
  mem_part_number :: "string option"
  mem_capacity_bytes :: u64
  mem_speed_mhz :: "u32 option"

record hardware_component =
  hw_name :: string
  hw_manufacturer :: "string option"
  hw_memory_bytes :: "u64 option"

record network_adapter =
  nic_name :: string
  nic_manufacturer :: "string option"
  nic_mac_address :: "string option"
  nic_speed_bps :: "u64 option"

record system_details =
  sys_os_name :: "string option"
  sys_os_version :: "string option"
  sys_uptime_seconds :: "u64 option"
  sys_motherboard :: "string option"
  sys_memory_modules :: "memory_module list"
  sys_gpus :: "hardware_component list"
  sys_displays :: "hardware_component list"
  sys_audio_devices :: "hardware_component list"
  sys_network_adapters :: "network_adapter list"

record device =
  dev_id :: uuid
  dev_hostname :: "string option"
  dev_mac_address :: string
  dev_ip_address :: string
  dev_model :: "string option"
  dev_serial :: "string option"
  dev_cpu_model :: "string option"
  dev_physical_core_count :: "u32 option"
  dev_logical_processor_count :: u32
  dev_memory_bytes :: u64
  dev_system_details :: system_details
  dev_architecture :: architecture
  dev_boot_mode :: boot_mode
  dev_disks :: "disk list"
  dev_last_seen_at :: instant

record agent_inventory =
  inv_hostname :: "string option"
  inv_mac_address :: string
  inv_model :: "string option"
  inv_serial :: "string option"
  inv_cpu_model :: "string option"
  inv_physical_core_count :: "u32 option"
  inv_logical_processor_count :: u32
  inv_memory_bytes :: u64
  inv_system_details :: system_details
  inv_architecture :: architecture
  inv_boot_mode :: boot_mode
  inv_disks :: "disk list"
  inv_agent_version :: string

record registered_device =
  rd_device :: device
  rd_agent_version :: string
  rd_first_seen_at :: instant
  rd_online :: bool

record agent_registration =
  reg_device_id :: uuid
  reg_device_token :: string
  reg_heartbeat_interval_seconds :: u64

record agent_heartbeat_ack =
  ack_accepted_at :: instant
  ack_next_heartbeat_seconds :: u64

section \<open>PXE\<close>

datatype pxe_mode = Standalone_Dhcp | Proxy_Dhcp

record pxe_config =
  pxe_mode :: pxe_mode
  pxe_bind_address :: string
  pxe_subnet_mask :: string
  pxe_pool_start :: string
  pxe_pool_end :: string
  pxe_lease_seconds :: u32
  pxe_gateway :: "string option"
  pxe_dns_servers :: "string list"
  pxe_tftp_root :: string
  pxe_bios_boot_file :: string
  pxe_uefi_x64_boot_file :: string

datatype pxe_client_stage = Discovered | Downloading | Waiting_For_Agent

record pxe_discovered_client =
  pc_mac_address :: string
  pc_ip_address :: "string option"
  pc_architecture :: architecture
  pc_stage :: pxe_client_stage
  pc_first_seen_at :: instant
  pc_last_seen_at :: instant

record pxe_event =
  pe_level :: string
  pe_event :: string
  pe_message :: string
  pe_mac_address :: "string option"
  pe_at :: instant

section \<open>Activity log\<close>

datatype activity_source = Src_Service | Src_Device | Src_Deployment

datatype activity_severity = Sev_Info | Sev_Success | Sev_Warning | Sev_Error

record activity_subject =
  subj_id :: string
  subj_name :: string

record 'json activity_event =
  ev_id :: uuid
  ev_occurred_at :: instant
  ev_source :: activity_source
  ev_kind :: string
  ev_severity :: activity_severity
  ev_subject :: "activity_subject option"
  ev_details :: "(string \<times> 'json) list"
  ev_raw_message :: "string option"

section \<open>Images\<close>

datatype image_format = Gho | Wim | Esd | Swm | Iso

definition ubuntu_autoinstall_profile_version :: u32 where
  "ubuntu_autoinstall_profile_version = 1"

definition ubuntu_minimum_disk_bytes :: u64 where
  "ubuntu_minimum_disk_bytes = 25 * 1024 * 1024 * 1024"

definition ubuntu_minimum_memory_bytes :: u64 where
  "ubuntu_minimum_memory_bytes = 2 * 1024 * 1024 * 1024"

datatype installer_distribution = Ubuntu

datatype installer_profile = Ubuntu_Autoinstall

record installer_boot_asset =
  asset_path :: string
  asset_size_bytes :: u64
  asset_sha256 :: string

record installer_capability =
  cap_deployable :: bool
  cap_distribution :: installer_distribution
  cap_release :: string
  cap_architecture :: architecture
  cap_profile :: installer_profile
  cap_profile_version :: u32
  cap_kernel :: installer_boot_asset
  cap_initrd :: installer_boot_asset
  cap_minimum_memory_bytes :: u64
  cap_minimum_disk_bytes :: u64
  cap_blocked_reason :: "string option"

text \<open>Sixty-four hexadecimal characters: the form of every SHA-256 the code accepts.\<close>

definition sha256_hex :: "string \<Rightarrow> bool" where
  "sha256_hex s = (length s = 64 \<and> list_all is_hex s)"

definition installer_asset_metadata_is_valid :: "installer_boot_asset \<Rightarrow> bool" where
  "installer_asset_metadata_is_valid asset =
     (trim (asset_path asset) \<noteq> [] \<and> asset_size_bytes asset > 0 \<and>
      length (asset_sha256 asset) = 64 \<and> list_all is_hex (asset_sha256 asset))"

definition is_supported_ubuntu_server_v1 :: "installer_capability \<Rightarrow> bool" where
  "is_supported_ubuntu_server_v1 c =
     (cap_deployable c \<and>
      cap_blocked_reason c = None \<and>
      cap_distribution c = Ubuntu \<and>
      cap_release c = ''24.04'' \<and>
      cap_architecture c = X86_64 \<and>
      cap_profile c = Ubuntu_Autoinstall \<and>
      cap_profile_version c = ubuntu_autoinstall_profile_version \<and>
      cap_minimum_memory_bytes c \<ge> ubuntu_minimum_memory_bytes \<and>
      cap_minimum_disk_bytes c \<ge> ubuntu_minimum_disk_bytes \<and>
      installer_asset_metadata_is_valid (cap_kernel c) \<and>
      installer_asset_metadata_is_valid (cap_initrd c))"

record gho_partition_capability =
  gpc_source_partition :: u32
  gpc_file_system :: string
  gpc_expanded_size_bytes :: u64
  gpc_expanded_sha256 :: string

record gho_image_capability =
  gic_deployable :: bool
  gic_compression :: "string option"
  gic_expanded_size_bytes :: "u64 option"
  gic_expanded_sha256 :: "string option"
  gic_partition_count :: "u32 option"
  gic_source_partition :: "u32 option"
  gic_partitions :: "gho_partition_capability list"
  gic_parser_version :: u32
  gic_blocked_reason :: "string option"

record image_artifact =
  img_id :: uuid
  img_name :: string
  img_format :: image_format
  img_source_path :: string
  img_size_bytes :: u64
  img_sha256 :: "string option"
  img_spans :: "string list"
  img_verified :: bool
  img_gho_capability :: "gho_image_capability option"
  img_installer_capability :: "installer_capability option"
  img_created_at :: instant

datatype operation = Deploy_Gho | Capture_Gho | Deploy_Wim | Install_Linux

record runtime_status =
  rs_service_state :: string
  rs_version :: string
  rs_platform :: string
  rs_active_interface :: "string option"
  rs_connected_devices :: u32
  rs_queued_jobs :: u32

section \<open>Order of client stages\<close>

text \<open>
  A PXE client is discovered, downloads, and then waits for its agent; the
  library's order on \<open>pxe_client_stage\<close> is the order of that life.
\<close>

fun stage_rank :: "pxe_client_stage \<Rightarrow> nat" where
  "stage_rank Discovered = 0"
| "stage_rank Downloading = 1"
| "stage_rank Waiting_For_Agent = 2"

instantiation pxe_client_stage :: linorder
begin

definition less_eq_pxe_client_stage :: "pxe_client_stage \<Rightarrow> pxe_client_stage \<Rightarrow> bool" where
  "less_eq_pxe_client_stage a b = (stage_rank a \<le> stage_rank b)"

definition less_pxe_client_stage :: "pxe_client_stage \<Rightarrow> pxe_client_stage \<Rightarrow> bool" where
  "less_pxe_client_stage a b = (stage_rank a < stage_rank b)"

instance
proof
  fix a b :: pxe_client_stage
  show "a \<le> b \<Longrightarrow> b \<le> a \<Longrightarrow> a = b"
    by (cases a; cases b) (simp_all add: less_eq_pxe_client_stage_def)
qed (auto simp: less_eq_pxe_client_stage_def less_pxe_client_stage_def)

end

end
