(* ===== verification/Image_Data.thy ===== *)
theory Image_Data
  imports Core_Models
begin

text \<open>
  What the image library hands to the services that deliver its files: the
  media of a Linux installation and the files of a Ghost image
  (\<open>PreparedLinuxIso\<close> and \<open>PreparedGhoDeployment\<close> of
  \<open>crates/service/src/image_library.rs\<close>).  Paths are canonical and given as
  their text.
\<close>

record prepared_asset =
  pa_canonical_path :: string
  pa_size_bytes :: u64
  pa_sha256 :: string

record prepared_linux_iso =
  pli_artifact_id :: uuid
  pli_iso :: prepared_asset
  pli_kernel :: prepared_asset
  pli_initrd :: prepared_asset
  pli_capability :: installer_capability

record prepared_gho_image_file =
  pgf_basename :: string
  pgf_canonical_path :: string
  pgf_size_bytes :: u64
  pgf_sha256 :: string

record prepared_gho_image_set =
  pgs_artifact_id :: uuid
  pgs_primary :: prepared_gho_image_file
  pgs_spans :: "prepared_gho_image_file list"
  pgs_total_size_bytes :: u64
  pgs_image_set_sha256 :: string

record prepared_gho_deployment =
  pgd_image :: prepared_gho_image_set
  pgd_capability :: gho_image_capability
  pgd_download_size_bytes :: u64
  pgd_download_sha256 :: string

end
