(* ===== verification/Durable_Store.thy ===== *)
theory Durable_Store
  imports Edm_Prelude
begin

text \<open>
  The contract the repositories of the service share: an operation works on a
  copy of the state in memory, writes the copy to the repository's file, and
  replaces the memory only when the write succeeded.  The locale states it over
  an arbitrary step function; each repository interprets it on its own model.
\<close>

fun run_ops :: "('op \<Rightarrow> 's \<Rightarrow> ('e, 'a) outcome \<times> 's) \<Rightarrow> 'op list \<Rightarrow> 's \<Rightarrow> 's" where
  "run_ops step [] s = s"
| "run_ops step (q # qs) s = run_ops step qs (snd (step q s))"

text \<open>The operations of a run that were answered without an error.\<close>

fun accepted :: "('op \<Rightarrow> 's \<Rightarrow> ('e, 'a) outcome \<times> 's) \<Rightarrow> 'op list \<Rightarrow> 's \<Rightarrow> 'op list" where
  "accepted step [] s = []"
| "accepted step (q # qs) s =
     (if is_ok (fst (step q s)) then q # accepted step qs (snd (step q s))
      else accepted step qs (snd (step q s)))"

fun all_admissible ::
  "('op \<Rightarrow> 's \<Rightarrow> ('e, 'a) outcome \<times> 's) \<Rightarrow> ('op \<Rightarrow> 's \<Rightarrow> bool) \<Rightarrow> 'op list \<Rightarrow> 's \<Rightarrow> bool" where
  "all_admissible step adm [] s = True"
| "all_admissible step adm (q # qs) s = (adm q s \<and> all_admissible step adm qs (snd (step q s)))"

locale durable_store =
  fixes step :: "'op \<Rightarrow> 's \<Rightarrow> ('e, 'a) outcome \<times> 's"
    and memory :: "'s \<Rightarrow> 'm"
    and stored_in :: "'s \<Rightarrow> 'm stored"
    and inv :: "'m \<Rightarrow> bool"
    and adm :: "'op \<Rightarrow> 's \<Rightarrow> bool"
  assumes step_memory:
      "memory s = memory t \<Longrightarrow> fst (step q s) = fst (step q t)"
    and step_memory_after:
      "memory s = memory t \<Longrightarrow> memory (snd (step q s)) = memory (snd (step q t))"
    and failure_keeps_memory:
      "\<not> is_ok (fst (step q s)) \<Longrightarrow> memory (snd (step q s)) = memory s"
    and success_is_durable:
      "is_ok (fst (step q s)) \<Longrightarrow>
         snd (step q s) = s \<or> stored_in (snd (step q s)) = Stored (memory (snd (step q s)))"
    and step_inv: "inv (memory s) \<Longrightarrow> adm q s \<Longrightarrow> inv (memory (snd (step q s)))"
    and step_total: "inv (memory s) \<Longrightarrow> fst (step q s) \<noteq> Panic"
begin

lemma run_inv:
  "inv (memory s) \<Longrightarrow> all_admissible step adm qs s \<Longrightarrow> inv (memory (run_ops step qs s))"
  by (induction qs arbitrary: s) (auto intro: step_inv)

lemma run_total:
  "inv (memory s) \<Longrightarrow> all_admissible step adm qs s \<Longrightarrow>
     fst (step q (run_ops step qs s)) \<noteq> Panic"
  by (rule step_total) (rule run_inv)

lemma run_memory_alike:
  "memory s = memory t \<Longrightarrow> memory (run_ops step qs s) = memory (run_ops step qs t)"
proof (induction qs arbitrary: s t)
  case (Cons q qs)
  from Cons.prems have "memory (snd (step q s)) = memory (snd (step q t))"
    by (rule step_memory_after)
  then show ?case by (simp add: Cons.IH [of "snd (step q s)" "snd (step q t)"])
qed simp

text \<open>Refused operations leave no trace in memory: a run behaves as its accepted part.\<close>

lemma run_accepted: "memory (run_ops step (accepted step qs s) s) = memory (run_ops step qs s)"
proof (induction qs arbitrary: s)
  case (Cons q qs)
  show ?case
  proof (cases "is_ok (fst (step q s))")
    case False
    then have "memory (snd (step q s)) = memory s" by (rule failure_keeps_memory)
    then have "memory (run_ops step (accepted step qs (snd (step q s))) (snd (step q s))) =
        memory (run_ops step (accepted step qs (snd (step q s))) s)"
      by (rule run_memory_alike)
    with False Cons.IH [of "snd (step q s)"] show ?thesis by simp
  qed (simp add: Cons.IH)
qed simp

text \<open>As long as every write succeeds, the file holds the memory.\<close>

lemma run_durable:
  "stored_in s = Stored (memory s) \<Longrightarrow> accepted step qs s = qs \<Longrightarrow>
     stored_in (run_ops step qs s) = Stored (memory (run_ops step qs s))"
proof (induction qs arbitrary: s)
  case (Cons q qs)
  have len: "length (accepted step qs t) \<le> length qs" for qs t
    by (induction qs arbitrary: t) (auto intro: le_SucI)
  have ok: "is_ok (fst (step q s))"
    using Cons.prems(2) len [of qs "snd (step q s)"]
    by (cases "is_ok (fst (step q s))") auto
  with Cons.prems(2) have rest: "accepted step qs (snd (step q s)) = qs" by simp
  have "stored_in (snd (step q s)) = Stored (memory (snd (step q s)))"
    using success_is_durable [OF ok] Cons.prems(1) by auto
  with rest Cons.IH show ?case by simp
qed simp

end

section \<open>Operations that keep the frame\<close>

text \<open>
  The three laws of the contract that do not depend on the invariant, for a
  single operation, with the ways the code composes operations.
\<close>

definition frames ::
  "('s \<Rightarrow> 'm) \<Rightarrow> ('s \<Rightarrow> 'm stored) \<Rightarrow> ('s \<Rightarrow> ('e, 'a) outcome \<times> 's) \<Rightarrow> bool" where
  "frames mem sto f =
     ((\<forall>s t. mem s = mem t \<longrightarrow>
         fst (f s) = fst (f t) \<and> mem (snd (f s)) = mem (snd (f t))) \<and>
      (\<forall>s. is_ok (fst (f s)) \<and> (snd (f s) = s \<or> sto (snd (f s)) = Stored (mem (snd (f s)))) \<or>
           \<not> is_ok (fst (f s)) \<and> mem (snd (f s)) = mem s))"

lemma framesI:
  assumes "\<And>s t. mem s = mem t \<Longrightarrow> fst (f s) = fst (f t)"
    and "\<And>s t. mem s = mem t \<Longrightarrow> mem (snd (f s)) = mem (snd (f t))"
    and "\<And>s. is_ok (fst (f s)) \<Longrightarrow> snd (f s) = s \<or> sto (snd (f s)) = Stored (mem (snd (f s)))"
    and "\<And>s. \<not> is_ok (fst (f s)) \<Longrightarrow> mem (snd (f s)) = mem s"
  shows "frames mem sto f"
  unfolding frames_def using assms by blast

lemma framesD:
  assumes "frames mem sto f"
  shows "mem s = mem t \<Longrightarrow> fst (f s) = fst (f t)"
    and "mem s = mem t \<Longrightarrow> mem (snd (f s)) = mem (snd (f t))"
    and "is_ok (fst (f s)) \<Longrightarrow> snd (f s) = s \<or> sto (snd (f s)) = Stored (mem (snd (f s)))"
    and "\<not> is_ok (fst (f s)) \<Longrightarrow> mem (snd (f s)) = mem s"
  using assms unfolding frames_def by blast+

text \<open>A commit: the memory and the file follow when the write succeeded, else the memory stays.\<close>

definition commits ::
  "('s \<Rightarrow> 'm) \<Rightarrow> ('s \<Rightarrow> 'm stored) \<Rightarrow> ('s \<Rightarrow> 'm \<Rightarrow> 'a \<Rightarrow> ('e, 'a) outcome \<times> 's) \<Rightarrow> bool" where
  "commits mem sto c =
     ((\<forall>s n v. fst (c s n v) = Ok v \<and> mem (snd (c s n v)) = n \<and> sto (snd (c s n v)) = Stored n) \<or>
      (\<exists>e. \<forall>s n v. fst (c s n v) = Err e \<and> mem (snd (c s n v)) = mem s))"

lemma frames_commit:
  assumes "commits mem sto c"
  shows "frames mem sto (\<lambda>s. case g (mem s) of Inl r \<Rightarrow> (r, s) | Inr (n, v) \<Rightarrow> c s n v)"
  using assms unfolding commits_def
proof
  assume "\<forall>s n v. fst (c s n v) = Ok v \<and> mem (snd (c s n v)) = n \<and> sto (snd (c s n v)) = Stored n"
  then show ?thesis by (intro framesI) (simp_all split: sum.splits prod.splits)
next
  assume "\<exists>e. \<forall>s n v. fst (c s n v) = Err e \<and> mem (snd (c s n v)) = mem s"
  then obtain e where "\<And>s n v. fst (c s n v) = Err e \<and> mem (snd (c s n v)) = mem s" by blast
  then show ?thesis by (intro framesI) (auto split: sum.splits)
qed

definition reply_with :: "('a \<Rightarrow> 'b) \<Rightarrow> ('e, 'a) outcome \<times> 's \<Rightarrow> ('e, 'b) outcome \<times> 's" where
  "reply_with f r = (map_ok f (fst r), snd r)"

lemma reply_with_parts [simp]:
  "fst (reply_with h r) = map_ok h (fst r)" "snd (reply_with h r) = snd r"
  by (simp_all add: reply_with_def)

lemma frames_reply:
  assumes "frames mem sto f"
  shows "frames mem sto (\<lambda>s. reply_with h (f s))"
proof (rule framesI, unfold reply_with_parts is_ok_map_ok)
  fix s t
  assume e: "mem s = mem t"
  show "map_ok h (fst (f s)) = map_ok h (fst (f t))"
    by (simp only: framesD(1) [OF assms e])
  show "mem (snd (f s)) = mem (snd (f t))"
    by (rule framesD(2) [OF assms e])
qed (rule framesD [OF assms], assumption)+

lemma frames_const: "frames mem sto (\<lambda>s. (r, s))"
  by (simp add: frames_def)

lemma frames_if: "frames mem sto f \<Longrightarrow> frames mem sto g \<Longrightarrow> frames mem sto (\<lambda>s. if b then f s else g s)"
  by (cases b) simp_all

lemmas frames_intros = frames_reply frames_const frames_if

end
