(* ===== verification/Device_Registry.thy ===== *)
theory Device_Registry
  imports Durable_Store Core_Models
begin

text \<open>
  The registry of devices (\<open>crates/service/src/device_registry.rs\<close>): inventories
  are normalised, a registration issues a bearer token of which only the digest
  is stored, and heartbeats and authentication check a token against it.  The
  SHA-256 digest in hexadecimal is the parameter \<open>digest\<close> of the operations;
  the identifiers of \<open>Uuid::new_v4\<close>, the clock and the result of the write are
  arguments.  An IP address is its printed form.
\<close>

datatype device_registry_error =
    Invalid_Mac_Address string
  | Missing_Agent_Version
  | Device_Not_Found uuid
  | Unauthorized
  | Device_Lock_Poisoned
  | Device_Read_Error
  | Device_Write_Error
  | Invalid_Device_Manifest

record device_record =
  rec_device :: device
  rec_agent_version :: string
  rec_first_seen_at :: instant
  rec_token_digest :: string

record device_manifest =
  dm_schema_version :: u32
  dm_devices :: "device_record list"

record device_registry =
  dr_manifest :: "device_manifest stored"
  dr_devices :: "device_record list"

text \<open>Durations in nanoseconds; \<open>default_heartbeat_interval\<close> in seconds.\<close>

definition default_heartbeat_interval :: u64 where "default_heartbeat_interval = 10"
definition device_online_window :: int where "device_online_window = 35 * 1000000000"
definition device_verification_window :: int where "device_verification_window = 12 * 1000000000"

section \<open>Normalisation\<close>

definition normalized_text :: "string \<Rightarrow> string" where
  "normalized_text v = take_chars 255 (trim v)"

definition normalize_optional_text :: "string option \<Rightarrow> string option" where
  "normalize_optional_text v =
     (case v of None \<Rightarrow> None | Some s \<Rightarrow> non_empty (normalized_text s))"

text \<open>\<open>chunks(2)\<close> joined with colons.\<close>

fun colon_pairs :: "string \<Rightarrow> string" where
  "colon_pairs (a # b # c # s) = a # b # CHR '':'' # colon_pairs (c # s)"
| "colon_pairs s = s"

definition normalize_mac_address :: "string \<Rightarrow> (device_registry_error, string) outcome" where
  "normalize_mac_address v =
     (let hexadecimal = map to_upper (filter is_hex v) in
      if length hexadecimal \<noteq> 12 then Err (Invalid_Mac_Address v)
      else Ok (colon_pairs hexadecimal))"

definition normalize_module :: "memory_module \<Rightarrow> memory_module" where
  "normalize_module m = m\<lparr> mem_manufacturer := normalize_optional_text (mem_manufacturer m),
     mem_part_number := normalize_optional_text (mem_part_number m) \<rparr>"

definition normalize_components :: "hardware_component list \<Rightarrow> hardware_component list" where
  "normalize_components cs =
     filter (\<lambda>c. hw_name c \<noteq> [])
       (map (\<lambda>c. c\<lparr> hw_name := normalized_text (hw_name c),
                     hw_manufacturer := normalize_optional_text (hw_manufacturer c) \<rparr>) (take 32 cs))"

definition normalize_adapters :: "network_adapter list \<Rightarrow> network_adapter list" where
  "normalize_adapters ns =
     filter (\<lambda>n. nic_name n \<noteq> [])
       (map (\<lambda>n. n\<lparr> nic_name := normalized_text (nic_name n),
                     nic_manufacturer := normalize_optional_text (nic_manufacturer n),
                     nic_mac_address := normalize_optional_text (nic_mac_address n) \<rparr>) (take 64 ns))"

definition normalize_details :: "system_details \<Rightarrow> system_details" where
  "normalize_details d =
     d\<lparr> sys_os_name := normalize_optional_text (sys_os_name d),
        sys_os_version := normalize_optional_text (sys_os_version d),
        sys_motherboard := normalize_optional_text (sys_motherboard d),
        sys_memory_modules := map normalize_module (take 64 (sys_memory_modules d)),
        sys_gpus := normalize_components (sys_gpus d),
        sys_displays := normalize_components (sys_displays d),
        sys_audio_devices := normalize_components (sys_audio_devices d),
        sys_network_adapters := normalize_adapters (sys_network_adapters d) \<rparr>"

definition validate_inventory :: "agent_inventory \<Rightarrow> (device_registry_error, agent_inventory) outcome" where
  "validate_inventory invy =
     and_then (normalize_mac_address (inv_mac_address invy)) (\<lambda>mac.
       let version = take_chars 64 (trim (inv_agent_version invy)) in
       if version = [] then Err Missing_Agent_Version
       else Ok (invy\<lparr> inv_mac_address := mac,
          inv_hostname := normalize_optional_text (inv_hostname invy),
          inv_model := normalize_optional_text (inv_model invy),
          inv_serial := normalize_optional_text (inv_serial invy),
          inv_cpu_model := normalize_optional_text (inv_cpu_model invy),
          inv_system_details := normalize_details (inv_system_details invy),
          inv_agent_version := version \<rparr>))"

section \<open>Secrets\<close>

definition hex_digit :: "nat \<Rightarrow> char" where
  "hex_digit n = char_of (if n < 10 then 48 + n else 87 + n)"

text \<open>\<open>Uuid::simple\<close>: 32 lower-case hexadecimal digits, most significant first.\<close>

definition uuid_simple :: "uuid \<Rightarrow> string" where
  "uuid_simple u = map (\<lambda>i. hex_digit (unat u div 16 ^ (31 - i) mod 16)) [0..<32]"

definition generate_secret :: "string \<Rightarrow> uuid \<Rightarrow> uuid \<Rightarrow> string" where
  "generate_secret prefix a b = prefix @ ''_'' @ uuid_simple a @ uuid_simple b"

text \<open>The comparison in constant time compares the digests.\<close>

definition secret_matches :: "(string \<Rightarrow> string) \<Rightarrow> string \<Rightarrow> string \<Rightarrow> bool" where
  "secret_matches digest expected candidate =
     (length expected = length (digest candidate) \<and> expected = digest candidate)"

section \<open>Queries\<close>

definition open_devices ::
  "device_manifest codec \<Rightarrow> file_access \<Rightarrow> device_manifest stored \<Rightarrow>
   (device_registry_error, device_registry) outcome" where
  "open_devices c io file =
     and_then (ensure (fa_directory io) Device_Write_Error) (\<lambda>_.
     and_then (load_document c io file Device_Read_Error Invalid_Device_Manifest) (\<lambda>manifest.
       Ok \<lparr> dr_manifest = file,
            dr_devices = (case manifest of None \<Rightarrow> [] | Some m \<Rightarrow> dm_devices m) \<rparr>))"

text \<open>An age that would be negative is \<open>unwrap_or_default\<close>, zero.\<close>

definition presence_of :: "device_record \<Rightarrow> instant \<Rightarrow> int \<Rightarrow> registered_device" where
  "presence_of r now window =
     \<lparr> rd_device = rec_device r, rd_agent_version = rec_agent_version r,
       rd_first_seen_at = rec_first_seen_at r,
       rd_online = (max 0 (now - dev_last_seen_at (rec_device r)) \<le> window) \<rparr>"

definition list_with_online_window :: "device_registry \<Rightarrow> int \<Rightarrow> instant \<Rightarrow> registered_device list" where
  "list_with_online_window reg window now =
     sort_key (\<lambda>e. - dev_last_seen_at (rd_device e))
       (map (\<lambda>r. presence_of r now window) (dr_devices reg))"

definition list_devices :: "device_registry \<Rightarrow> instant \<Rightarrow> registered_device list" where
  "list_devices reg = list_with_online_window reg device_online_window"

definition connected_count :: "device_registry \<Rightarrow> instant \<Rightarrow> u32" where
  "connected_count reg now =
     (let n = length (filter rd_online (list_devices reg now)) in
      if n < 2 ^ 32 then of_nat n else - 1)"

definition record_of :: "uuid \<Rightarrow> device_record \<Rightarrow> bool" where
  "record_of i r = (dev_id (rec_device r) = i)"

definition with_current ::
  "device_registry \<Rightarrow> uuid \<Rightarrow> (device \<Rightarrow> 'a) \<Rightarrow> (device_registry_error, 'a) outcome" where
  "with_current reg i inspect =
     and_then (ok_or (find (record_of i) (dr_devices reg)) (Device_Not_Found i))
       (\<lambda>r. Ok (inspect (rec_device r)))"

definition find_by_mac ::
  "device_registry \<Rightarrow> string \<Rightarrow> (device_registry_error, device option) outcome" where
  "find_by_mac reg mac =
     and_then (normalize_mac_address mac) (\<lambda>m.
       Ok (map_option rec_device (find (\<lambda>r. dev_mac_address (rec_device r) = m) (dr_devices reg))))"

definition authenticate ::
  "(string \<Rightarrow> string) \<Rightarrow> device_registry \<Rightarrow> uuid \<Rightarrow> string \<Rightarrow> (device_registry_error, unit) outcome" where
  "authenticate digest reg i token =
     and_then (ok_or (find (record_of i) (dr_devices reg)) (Device_Not_Found i))
       (\<lambda>r. if \<not> secret_matches digest (rec_token_digest r) token then Err Unauthorized else Ok ())"

section \<open>Operations\<close>

definition device_manifest_of :: "device_record list \<Rightarrow> device_manifest" where
  "device_manifest_of ds = \<lparr> dm_schema_version = 1, dm_devices = ds \<rparr>"

definition commit_devices ::
  "device_manifest write_result \<Rightarrow> device_registry \<Rightarrow> device_record list \<Rightarrow> 'a \<Rightarrow>
   (device_registry_error, 'a) outcome \<times> device_registry" where
  "commit_devices w reg next v =
     (let file = file_after w (device_manifest_of next) in
      case w of
        Written \<Rightarrow> (Ok v, reg\<lparr> dr_manifest := file, dr_devices := next \<rparr>)
      | Write_Failed _ \<Rightarrow> (Err Device_Write_Error, reg\<lparr> dr_manifest := file \<rparr>))"

record device_env =
  de_now :: instant
  de_id :: uuid
  de_secret_a :: uuid
  de_secret_b :: uuid
  de_write :: "device_manifest write_result"

definition device_from :: "agent_inventory \<Rightarrow> uuid \<Rightarrow> string \<Rightarrow> instant \<Rightarrow> device" where
  "device_from invy i ip now =
     \<lparr> dev_id = i, dev_hostname = inv_hostname invy, dev_mac_address = inv_mac_address invy,
       dev_ip_address = ip, dev_model = inv_model invy, dev_serial = inv_serial invy,
       dev_cpu_model = inv_cpu_model invy,
       dev_physical_core_count = inv_physical_core_count invy,
       dev_logical_processor_count = inv_logical_processor_count invy,
       dev_memory_bytes = inv_memory_bytes invy, dev_system_details = inv_system_details invy,
       dev_architecture = inv_architecture invy, dev_boot_mode = inv_boot_mode invy,
       dev_disks = inv_disks invy, dev_last_seen_at = now \<rparr>"

definition register_agent ::
  "(string \<Rightarrow> string) \<Rightarrow> agent_inventory \<Rightarrow> string \<Rightarrow> device_env \<Rightarrow> device_registry \<Rightarrow>
   (device_registry_error, registered_device \<times> agent_registration) outcome \<times> device_registry" where
  "register_agent digest raw ip e reg =
     (case validate_inventory raw of
        Err x \<Rightarrow> (Err x, reg)
      | Panic \<Rightarrow> (Panic, reg)
      | Ok invy \<Rightarrow>
          let now = de_now e;
              token = generate_secret ''easydeploymesh_device'' (de_secret_a e) (de_secret_b e);
              (i, first_seen) =
                (case find (\<lambda>r. dev_mac_address (rec_device r) = inv_mac_address invy) (dr_devices reg) of
                   None \<Rightarrow> (de_id e, now)
                 | Some r \<Rightarrow> (dev_id (rec_device r), rec_first_seen_at r));
              r = \<lparr> rec_device = device_from invy i ip now, rec_agent_version = inv_agent_version invy,
                    rec_first_seen_at = first_seen, rec_token_digest = digest token \<rparr>;
              next = filter (\<lambda>x. \<not> record_of i x) (dr_devices reg) @ [r]
          in commit_devices (de_write e) reg next
               (presence_of r now device_online_window,
                \<lparr> reg_device_id = i, reg_device_token = token,
                  reg_heartbeat_interval_seconds = default_heartbeat_interval \<rparr>))"

definition heartbeat ::
  "(string \<Rightarrow> string) \<Rightarrow> uuid \<Rightarrow> string \<Rightarrow> agent_inventory \<Rightarrow> string \<Rightarrow> device_env \<Rightarrow> device_registry \<Rightarrow>
   (device_registry_error, agent_heartbeat_ack) outcome \<times> device_registry" where
  "heartbeat digest i token raw ip e reg =
     (case validate_inventory raw of
        Err x \<Rightarrow> (Err x, reg)
      | Panic \<Rightarrow> (Panic, reg)
      | Ok invy \<Rightarrow>
          let now = de_now e in
          case find (record_of i) (dr_devices reg) of
            None \<Rightarrow> (Err (Device_Not_Found i), reg)
          | Some r \<Rightarrow>
              if \<not> secret_matches digest (rec_token_digest r) token then (Err Unauthorized, reg)
              else
                let r' = r\<lparr> rec_device := device_from invy (dev_id (rec_device r)) ip now,
                            rec_agent_version := inv_agent_version invy \<rparr> in
                commit_devices (de_write e) reg (update_first (record_of i) (\<lambda>_. r') (dr_devices reg))
                  \<lparr> ack_accepted_at = now, ack_next_heartbeat_seconds = default_heartbeat_interval \<rparr>)"

definition remove_device ::
  "uuid \<Rightarrow> device_env \<Rightarrow> device_registry \<Rightarrow> (device_registry_error, bool) outcome \<times> device_registry" where
  "remove_device i e reg =
     (let next = filter (\<lambda>r. \<not> record_of i r) (dr_devices reg) in
      if length next = length (dr_devices reg) then (Ok False, reg)
      else commit_devices (de_write e) reg next True)"

datatype device_call =
    Register agent_inventory string
  | Heartbeat uuid string agent_inventory string
  | Remove_Device uuid

datatype device_reply =
    Registered registered_device agent_registration
  | Acknowledged agent_heartbeat_ack
  | Device_Removed bool

fun run_device_call :: "(string \<Rightarrow> string) \<Rightarrow> device_call \<times> device_env \<Rightarrow> device_registry \<Rightarrow>
    (device_registry_error, device_reply) outcome \<times> device_registry" where
  "run_device_call digest (Register invy ip, e) =
     (\<lambda>reg. reply_with (\<lambda>(d, r). Registered d r) (register_agent digest invy ip e reg))"
| "run_device_call digest (Heartbeat i token invy ip, e) =
     (\<lambda>reg. reply_with Acknowledged (heartbeat digest i token invy ip e reg))"
| "run_device_call digest (Remove_Device i, e) =
     (\<lambda>reg. reply_with Device_Removed (remove_device i e reg))"

section \<open>Canonical MAC addresses\<close>

definition upper_hex :: "char \<Rightarrow> bool" where
  "upper_hex c = (is_hex c \<and> to_upper c = c)"

text \<open>Six pairs of upper-case hexadecimal digits between colons.\<close>

definition canonical_mac :: "string \<Rightarrow> bool" where
  "canonical_mac m =
     (let ps = split_on (\<lambda>c. c = CHR '':'') m in
      length ps = 6 \<and> list_all (\<lambda>p. length p = 2 \<and> list_all upper_hex p) ps)"

lemma colon_not_hex [simp]: "\<not> is_hex (CHR '':'')"
  by (simp add: is_hex_def is_digit_def byte_def)

lemma filter_hex_colon_pairs: "list_all is_hex h \<Longrightarrow> filter is_hex (colon_pairs h) = h"
  by (induction h rule: colon_pairs.induct) auto

lemma list_12:
  assumes "length h = 12"
  obtains a b c d e f g i j k l m where "h = [a, b, c, d, e, f, g, i, j, k, l, m]"
  using assms by (auto simp: length_Suc_conv numeral_eq_Suc)

lemma colon_pairs_canonical:
  assumes "length h = 12" "list_all upper_hex h"
  shows "canonical_mac (colon_pairs h)"
proof -
  have "c \<noteq> CHR '':''" if "upper_hex c" for c using that by (auto simp: upper_hex_def)
  with assms show ?thesis by (elim list_12) (simp add: canonical_mac_def)
qed

lemma normalize_mac_Ok:
  "normalize_mac_address v = Ok m \<longleftrightarrow>
     length (filter is_hex v) = 12 \<and> m = colon_pairs (map to_upper (filter is_hex v))"
  by (auto simp: normalize_mac_address_def Let_def)

lemma normalize_mac_no_panic [simp]: "normalize_mac_address v \<noteq> Panic"
  by (simp add: normalize_mac_address_def Let_def)

lemma upper_hex_digits: "list_all upper_hex (map to_upper (filter is_hex v))"
  by (auto simp: list_all_iff upper_hex_def)

lemma normalize_mac_canonical: "normalize_mac_address v = Ok m \<Longrightarrow> canonical_mac m"
  by (auto simp: normalize_mac_Ok intro: colon_pairs_canonical upper_hex_digits)

lemma hex_digits_of_mac:
  "normalize_mac_address v = Ok m \<Longrightarrow> filter is_hex m = map to_upper (filter is_hex v)"
  using upper_hex_digits [of v]
  by (auto simp: normalize_mac_Ok list_all_iff upper_hex_def intro!: filter_hex_colon_pairs)

text \<open>
  Two spellings name one device: a MAC address is accepted exactly when it
  has twelve hexadecimal digits, its normal form is six colon-separated pairs
  of upper-case digits and its own normal form, and two spellings normalise
  alike exactly when their digits agree up to case.
\<close>

theorem mac_normal_form:
  "case normalize_mac_address v of
     Ok m \<Rightarrow> length (filter is_hex v) = 12 \<and> canonical_mac m \<and> normalize_mac_address m = Ok m \<and>
       (normalize_mac_address u = Ok m \<longleftrightarrow>
        map to_upper (filter is_hex u) = map to_upper (filter is_hex v))
   | Err x \<Rightarrow> length (filter is_hex v) \<noteq> 12 \<and> x = Invalid_Mac_Address v
   | Panic \<Rightarrow> False"
proof (cases "normalize_mac_address v")
  case (Ok m)
  note digits = hex_digits_of_mac [OF Ok]
  have m: "length (filter is_hex v) = 12" "m = colon_pairs (map to_upper (filter is_hex v))"
    using Ok by (simp_all add: normalize_mac_Ok)
  have "map to_upper (map to_upper (filter is_hex v)) = map to_upper (filter is_hex v)" by simp
  with digits m have "normalize_mac_address m = Ok m"
    by (simp add: normalize_mac_Ok comp_def)
  moreover have "map to_upper (filter is_hex u) = map to_upper (filter is_hex v)"
    if "normalize_mac_address u = Ok m"
    using hex_digits_of_mac [OF that] digits by simp
  moreover have "normalize_mac_address u = Ok m"
    if "map to_upper (filter is_hex u) = map to_upper (filter is_hex v)"
    using that m by (metis normalize_mac_Ok length_map)
  ultimately show ?thesis using Ok m(1) normalize_mac_canonical [OF Ok] by auto
qed (auto simp: normalize_mac_address_def Let_def split: if_splits)

section \<open>The registry as a durable store\<close>

fun stored_devices :: "device_registry \<Rightarrow> device_record list stored" where
  "stored_devices reg =
     (case dr_manifest reg of Absent \<Rightarrow> Absent | Other b \<Rightarrow> Other b | Stored m \<Rightarrow> Stored (dm_devices m))"

lemma commits_devices: "commits dr_devices stored_devices (commit_devices w)"
  by (cases w) (auto simp: commits_def commit_devices_def device_manifest_of_def)

text \<open>The record that a registration stores, and the vector it commits.\<close>

definition registered_record ::
  "(string \<Rightarrow> string) \<Rightarrow> agent_inventory \<Rightarrow> string \<Rightarrow> device_env \<Rightarrow> device_record list \<Rightarrow> device_record" where
  "registered_record digest invy ip e ds =
     (let (i, first_seen) =
        (case find (\<lambda>r. dev_mac_address (rec_device r) = inv_mac_address invy) ds of
           None \<Rightarrow> (de_id e, de_now e)
         | Some r \<Rightarrow> (dev_id (rec_device r), rec_first_seen_at r)) in
      \<lparr> rec_device = device_from invy i ip (de_now e), rec_agent_version = inv_agent_version invy,
        rec_first_seen_at = first_seen,
        rec_token_digest =
          digest (generate_secret ''easydeploymesh_device'' (de_secret_a e) (de_secret_b e)) \<rparr>)"

definition record_id :: "device_record \<Rightarrow> uuid" where
  "record_id r = dev_id (rec_device r)"

lemma register_agent_Ok_form:
  assumes "validate_inventory raw = Ok invy"
  shows "register_agent digest raw ip e reg =
    (let r = registered_record digest invy ip e (dr_devices reg) in
     commit_devices (de_write e) reg
      (filter (\<lambda>x. \<not> record_of (record_id r) x) (dr_devices reg) @ [r])
      (presence_of r (de_now e) device_online_window,
       \<lparr> reg_device_id = record_id r,
         reg_device_token = generate_secret ''easydeploymesh_device'' (de_secret_a e) (de_secret_b e),
         reg_heartbeat_interval_seconds = default_heartbeat_interval \<rparr>))"
  using assms
  by (cases "find (\<lambda>r. dev_mac_address (rec_device r) = inv_mac_address invy) (dr_devices reg)")
    (simp_all add: register_agent_def registered_record_def record_id_def device_from_def Let_def)

lemma frames_register: "frames dr_devices stored_devices (register_agent digest raw ip e)"
proof (cases "validate_inventory raw")
  case (Ok invy)
  let ?r = "registered_record digest invy ip e"
  let ?g = "\<lambda>ds. Inr (filter (\<lambda>x. \<not> record_of (record_id (?r ds)) x) ds @ [?r ds],
      (presence_of (?r ds) (de_now e) device_online_window,
       \<lparr> reg_device_id = record_id (?r ds),
         reg_device_token = generate_secret ''easydeploymesh_device'' (de_secret_a e) (de_secret_b e),
         reg_heartbeat_interval_seconds = default_heartbeat_interval \<rparr>))"
  have "register_agent digest raw ip e = (\<lambda>reg. case ?g (dr_devices reg) of
      Inl x \<Rightarrow> (x, reg) | Inr (n, v) \<Rightarrow> commit_devices (de_write e) reg n v)"
    by (rule ext) (simp add: register_agent_Ok_form [OF Ok] Let_def)
  then show ?thesis using frames_commit [OF commits_devices, of "de_write e" ?g] by (simp only:)
qed (simp_all add: register_agent_def [abs_def] frames_const)

lemma frames_heartbeat: "frames dr_devices stored_devices (heartbeat digest i token raw ip e)"
proof (cases "validate_inventory raw")
  case (Ok invy)
  let ?g = "\<lambda>ds. case find (record_of i) ds of
      None \<Rightarrow> Inl (Err (Device_Not_Found i))
    | Some r \<Rightarrow> if \<not> secret_matches digest (rec_token_digest r) token then Inl (Err Unauthorized)
        else Inr (update_first (record_of i)
            (\<lambda>_. r\<lparr> rec_device := device_from invy (dev_id (rec_device r)) ip (de_now e),
                    rec_agent_version := inv_agent_version invy \<rparr>) ds,
          \<lparr> ack_accepted_at = de_now e, ack_next_heartbeat_seconds = default_heartbeat_interval \<rparr>)"
  have "heartbeat digest i token raw ip e = (\<lambda>reg. case ?g (dr_devices reg) of
      Inl x \<Rightarrow> (x, reg) | Inr (n, v) \<Rightarrow> commit_devices (de_write e) reg n v)"
    by (rule ext) (simp add: heartbeat_def Ok Let_def split: option.splits)
  then show ?thesis using frames_commit [OF commits_devices, of "de_write e" ?g] by (simp only:)
qed (simp_all add: heartbeat_def [abs_def] frames_const)

lemma frames_remove_device: "frames dr_devices stored_devices (remove_device i e)"
proof -
  let ?g = "\<lambda>ds. if length (filter (\<lambda>r. \<not> record_of i r) ds) = length ds then Inl (Ok False)
    else Inr (filter (\<lambda>r. \<not> record_of i r) ds, True)"
  have "remove_device i e = (\<lambda>reg. case ?g (dr_devices reg) of
      Inl x \<Rightarrow> (x, reg) | Inr (n, v) \<Rightarrow> commit_devices (de_write e) reg n v)"
    by (rule ext) (simp add: remove_device_def Let_def)
  then show ?thesis using frames_commit [OF commits_devices, of "de_write e" ?g] by (simp only:)
qed

lemma run_device_call_frames: "frames dr_devices stored_devices (run_device_call digest q)"
  by (cases "(digest, q)" rule: run_device_call.cases)
    (auto simp only: run_device_call.simps
      intro!: frames_intros frames_register frames_heartbeat frames_remove_device)

section \<open>Invariant of the registry\<close>

definition bounded_text :: "nat \<Rightarrow> string option \<Rightarrow> bool" where
  "bounded_text n v = (case v of None \<Rightarrow> True | Some s \<Rightarrow> s \<noteq> [] \<and> char_count s \<le> n)"

definition details_bounded :: "system_details \<Rightarrow> bool" where
  "details_bounded d =
     (length (sys_memory_modules d) \<le> 64 \<and> length (sys_gpus d) \<le> 32 \<and>
      length (sys_displays d) \<le> 32 \<and> length (sys_audio_devices d) \<le> 32 \<and>
      length (sys_network_adapters d) \<le> 64 \<and>
      list_all (\<lambda>c. hw_name c \<noteq> [] \<and> char_count (hw_name c) \<le> 255)
        (sys_gpus d @ sys_displays d @ sys_audio_devices d) \<and>
      list_all (\<lambda>n. nic_name n \<noteq> [] \<and> char_count (nic_name n) \<le> 255) (sys_network_adapters d))"

definition record_ok :: "device_record \<Rightarrow> bool" where
  "record_ok r =
     (let d = rec_device r in
      canonical_mac (dev_mac_address d) \<and>
      rec_agent_version r \<noteq> [] \<and> char_count (rec_agent_version r) \<le> 64 \<and>
      list_all (bounded_text 255) [dev_hostname d, dev_model d, dev_serial d, dev_cpu_model d] \<and>
      details_bounded (dev_system_details d))"

definition devices_inv :: "device_record list \<Rightarrow> bool" where
  "devices_inv ds = (distinct (map record_id ds) \<and> list_all record_ok ds)"

lemma bounded_normalize [simp]: "bounded_text 255 (normalize_optional_text v)"
  by (auto simp: bounded_text_def normalize_optional_text_def non_empty_def normalized_text_def
      char_count_take_chars split: option.splits)

lemma details_normalized: "details_bounded (normalize_details d)"
  by (auto simp: details_bounded_def normalize_details_def normalize_components_def
      normalize_adapters_def list_all_iff normalized_text_def char_count_take_chars
      intro!: le_trans [OF length_filter_le])

lemma validate_inventory_ok:
  assumes "validate_inventory raw = Ok invy"
    and r: "rec_device r = device_from invy i ip now" "rec_agent_version r = inv_agent_version invy"
  shows "record_ok r"
proof -
  from assms(1) obtain mac where "normalize_mac_address (inv_mac_address raw) = Ok mac"
    by (auto simp: validate_inventory_def outcome_simps)
  with assms(1) normalize_mac_canonical [OF this] show ?thesis
    by (auto simp: validate_inventory_def outcome_simps record_ok_def Let_def device_from_def r
        details_normalized char_count_take_chars split: if_splits)
qed

lemma validate_inventory_no_panic [simp]: "validate_inventory raw \<noteq> Panic"
  by (simp add: validate_inventory_def outcome_simps Let_def)

lemma registered_record_ok:
  "validate_inventory raw = Ok invy \<Longrightarrow> record_ok (registered_record digest invy ip e ds)"
  by (rule validate_inventory_ok [of raw invy _ "record_id (registered_record digest invy ip e ds)"])
    (auto simp: registered_record_def Let_def record_id_def device_from_def split: option.splits)

lemma devices_inv_replace:
  assumes "devices_inv ds" "record_ok r"
  shows "devices_inv (filter (\<lambda>x. \<not> record_of (record_id r) x) ds @ [r])"
  using assms
  by (auto simp: devices_inv_def record_id_def record_of_def list_all_iff
      intro: distinct_map_filter)

lemma commit_devices_after:
  "dr_devices (snd (commit_devices w reg next v)) = (if w = Written then next else dr_devices reg)"
  "fst (commit_devices w reg next v) = (if w = Written then Ok v else Err Device_Write_Error)"
  by (cases w; simp add: commit_devices_def)+

lemma register_agent_inv:
  "devices_inv (dr_devices reg) \<Longrightarrow> devices_inv (dr_devices (snd (register_agent digest raw ip e reg)))"
proof (cases "validate_inventory raw")
  case (Ok invy)
  assume "devices_inv (dr_devices reg)"
  then show ?thesis
    using devices_inv_replace [OF _ registered_record_ok [OF Ok]]
    by (simp add: register_agent_Ok_form [OF Ok] Let_def commit_devices_after)
qed (simp_all add: register_agent_def)

lemma heartbeat_inv:
  assumes "devices_inv (dr_devices reg)"
  shows "devices_inv (dr_devices (snd (heartbeat digest i token raw ip e reg)))"
proof (cases "validate_inventory raw")
  case (Ok invy)
  have "devices_inv (update_first (record_of i) (\<lambda>_. r') (dr_devices reg))"
    if r: "find (record_of i) (dr_devices reg) = Some r" and r': "record_id r' = record_id r" "record_ok r'"
    for r r'
  proof -
    have "map record_id (update_first (record_of i) (\<lambda>_. r') (dr_devices reg)) =
        map record_id (dr_devices reg)"
      using r r'(1) by (intro map_update_first) simp
    moreover have "list_all record_ok (update_first (record_of i) (\<lambda>_. r') (dr_devices reg))"
      using assms r'(2) by (auto simp: devices_inv_def list_all_iff dest: set_update_first)
    ultimately show ?thesis using assms by (simp add: devices_inv_def)
  qed
  then show ?thesis
    using assms validate_inventory_ok [OF Ok]
    by (auto simp: heartbeat_def Ok Let_def commit_devices_after record_id_def device_from_def
        split: option.splits)
qed (simp_all add: heartbeat_def assms)

lemma remove_device_inv:
  "devices_inv (dr_devices reg) \<Longrightarrow> devices_inv (dr_devices (snd (remove_device i e reg)))"
  by (auto simp: remove_device_def Let_def commit_devices_after devices_inv_def list_all_iff
      intro: distinct_map_filter)

lemma run_device_call_total: "fst (run_device_call digest q reg) \<noteq> Panic"
  by (cases "(digest, q)" rule: run_device_call.cases)
    (auto simp: register_agent_def heartbeat_def remove_device_def commit_devices_after Let_def
      simp del: map_ok.simps split: outcome.splits option.splits)

interpretation devices: durable_store "run_device_call digest" dr_devices stored_devices
    devices_inv "\<lambda>_ _. True"
  for digest
proof unfold_locales
  fix q s t
  show "dr_devices s = dr_devices t \<Longrightarrow>
      fst (run_device_call digest q s) = fst (run_device_call digest q t)"
    "dr_devices s = dr_devices t \<Longrightarrow>
      dr_devices (snd (run_device_call digest q s)) = dr_devices (snd (run_device_call digest q t))"
    "\<not> is_ok (fst (run_device_call digest q s)) \<Longrightarrow>
      dr_devices (snd (run_device_call digest q s)) = dr_devices s"
    "is_ok (fst (run_device_call digest q s)) \<Longrightarrow> snd (run_device_call digest q s) = s \<or>
      stored_devices (snd (run_device_call digest q s)) =
        Stored (dr_devices (snd (run_device_call digest q s)))"
    by (rule framesD [OF run_device_call_frames], assumption)+
  show "devices_inv (dr_devices s) \<Longrightarrow> devices_inv (dr_devices (snd (run_device_call digest q s)))"
    by (cases "(digest, q)" rule: run_device_call.cases)
      (simp_all add: register_agent_inv heartbeat_inv remove_device_inv)
  show "fst (run_device_call digest q s) \<noteq> Panic" by (rule run_device_call_total)
qed

definition empty_registry :: device_registry where
  "empty_registry = \<lparr> dr_manifest = Absent, dr_devices = [] \<rparr>"

lemma all_admissible_True: "all_admissible step (\<lambda>_ _. True) qs s"
  by (induction qs arbitrary: s) simp_all

text \<open>
  C32.  In every history of the registry, with writes failing at any point, the
  stored devices have distinct identifiers, canonical MAC addresses, a version
  of 1 to 64 characters and texts and component lists within their bounds; no
  call panics, and refused calls leave no trace in memory.
\<close>

theorem device_histories_keep_invariant:
  "devices_inv (dr_devices (run_ops (run_device_call digest) qs empty_registry)) \<and>
   fst (run_device_call digest q (run_ops (run_device_call digest) qs empty_registry)) \<noteq> Panic \<and>
   dr_devices (run_ops (run_device_call digest) (accepted (run_device_call digest) qs empty_registry)
     empty_registry) = dr_devices (run_ops (run_device_call digest) qs empty_registry)"
proof -
  have e: "devices_inv (dr_devices empty_registry)"
    by (simp add: empty_registry_def devices_inv_def)
  show ?thesis
    using devices.run_inv [OF e all_admissible_True] devices.run_accepted run_device_call_total
    by blast
qed

lemma find_last: "\<not> list_ex P xs \<Longrightarrow> P x \<Longrightarrow> find P (xs @ [x]) = Some x"
  by (induction xs) auto

lemma register_agent_OkD:
  assumes "register_agent digest raw ip e reg = (Ok (d, r), reg')"
  obtains invy where "validate_inventory raw = Ok invy"
    "dr_devices reg' = filter (\<lambda>x. \<not> record_of (reg_device_id r) x) (dr_devices reg) @
       [registered_record digest invy ip e (dr_devices reg)]"
    "reg_device_id r = record_id (registered_record digest invy ip e (dr_devices reg))"
    "rec_token_digest (registered_record digest invy ip e (dr_devices reg)) = digest (reg_device_token r)"
    "rd_device d = rec_device (registered_record digest invy ip e (dr_devices reg))"
    "rd_first_seen_at d = rec_first_seen_at (registered_record digest invy ip e (dr_devices reg))"
proof -
  from assms obtain invy where v: "validate_inventory raw = Ok invy"
    by (auto simp: register_agent_def split: outcome.splits)
  have w: "de_write e = Written"
    using assms commit_devices_after(2) [of "de_write e"]
    by (cases "de_write e") (auto simp: register_agent_Ok_form [OF v] Let_def commit_devices_def)
  have t: "rec_token_digest (registered_record digest invy ip e ds) =
      digest (generate_secret ''easydeploymesh_device'' (de_secret_a e) (de_secret_b e))" for ds
    by (auto simp: registered_record_def Let_def split: option.splits)
  show thesis
    using assms w by (intro that [OF v])
      (auto simp: register_agent_Ok_form [OF v] Let_def commit_devices_def presence_of_def t)
qed

text \<open>
  A registration issues a working credential and revokes the old one: the
  token it returns authenticates the device, a token with another digest does
  not, a device known by its MAC address keeps its identifier and the time it
  was first seen, and the records of other identifiers stay as they were.
\<close>

theorem registration_issues_credential:
  assumes "register_agent digest raw ip e reg = (Ok (d, r), reg')"
    and "normalize_mac_address (inv_mac_address raw) = Ok m"
  shows "authenticate digest reg' (reg_device_id r) (reg_device_token r) = Ok () \<and>
    (digest t \<noteq> digest (reg_device_token r) \<longrightarrow>
       authenticate digest reg' (reg_device_id r) t = Err Unauthorized) \<and>
    (case find (\<lambda>x. dev_mac_address (rec_device x) = m) (dr_devices reg) of
       None \<Rightarrow> reg_device_id r = de_id e \<and> rd_first_seen_at d = de_now e
     | Some old \<Rightarrow> reg_device_id r = record_id old \<and> rd_first_seen_at d = rec_first_seen_at old) \<and>
    filter (\<lambda>x. record_id x \<noteq> reg_device_id r) (dr_devices reg') =
      filter (\<lambda>x. record_id x \<noteq> reg_device_id r) (dr_devices reg)"
proof -
  from assms(1) obtain invy where v: "validate_inventory raw = Ok invy"
    and n: "dr_devices reg' = filter (\<lambda>x. \<not> record_of (reg_device_id r) x) (dr_devices reg) @
       [registered_record digest invy ip e (dr_devices reg)]"
    and r: "reg_device_id r = record_id (registered_record digest invy ip e (dr_devices reg))"
      "rec_token_digest (registered_record digest invy ip e (dr_devices reg)) = digest (reg_device_token r)"
      "rd_first_seen_at d = rec_first_seen_at (registered_record digest invy ip e (dr_devices reg))"
    by (rule register_agent_OkD)
  let ?r = "registered_record digest invy ip e (dr_devices reg)"
  have "record_of (reg_device_id r) ?r" by (simp add: record_of_def r(1) record_id_def)
  then have f: "find (record_of (reg_device_id r)) (dr_devices reg') = Some ?r"
    unfolding n by (intro find_last) (auto simp: list_ex_iff)
  have "inv_mac_address invy = m"
    using v assms(2) by (auto simp: validate_inventory_def outcome_simps Let_def split: if_splits)
  then have "case find (\<lambda>x. dev_mac_address (rec_device x) = m) (dr_devices reg) of
       None \<Rightarrow> record_id ?r = de_id e \<and> rec_first_seen_at ?r = de_now e
     | Some old \<Rightarrow> record_id ?r = record_id old \<and> rec_first_seen_at ?r = rec_first_seen_at old"
    by (auto simp: registered_record_def record_id_def device_from_def split: option.splits)
  moreover have "filter (\<lambda>x. record_id x \<noteq> reg_device_id r) (dr_devices reg') =
      filter (\<lambda>x. record_id x \<noteq> reg_device_id r) (dr_devices reg)"
    by (simp add: n r(1) record_of_def record_id_def)
  ultimately show ?thesis
    using f r by (auto simp: authenticate_def secret_matches_def split: option.splits)
qed

text \<open>
  A heartbeat needs the device's token and cannot take an identity: when
  one is accepted, its token has the stored digest, and no record's identifier,
  first sighting or token digest changes.
\<close>

theorem heartbeat_needs_token:
  assumes "heartbeat digest i t raw ip e reg = (Ok a, reg')"
  shows "(\<exists>r. find (record_of i) (dr_devices reg) = Some r \<and> rec_token_digest r = digest t) \<and>
    map (\<lambda>r. (record_id r, rec_first_seen_at r, rec_token_digest r)) (dr_devices reg') =
    map (\<lambda>r. (record_id r, rec_first_seen_at r, rec_token_digest r)) (dr_devices reg)"
proof -
  from assms obtain invy r where v: "validate_inventory raw = Ok invy"
    and r: "find (record_of i) (dr_devices reg) = Some r" "secret_matches digest (rec_token_digest r) t"
    by (auto simp: heartbeat_def Let_def split: outcome.splits option.splits if_splits)
  let ?r' = "r\<lparr> rec_device := device_from invy (dev_id (rec_device r)) ip (de_now e),
      rec_agent_version := inv_agent_version invy \<rparr>"
  have "dr_devices reg' = update_first (record_of i) (\<lambda>_. ?r') (dr_devices reg)"
    using assms r by (cases "de_write e") (auto simp: heartbeat_def v Let_def commit_devices_def)
  then have "map (\<lambda>r. (record_id r, rec_first_seen_at r, rec_token_digest r)) (dr_devices reg') =
      map (\<lambda>r. (record_id r, rec_first_seen_at r, rec_token_digest r)) (dr_devices reg)"
    by (simp only:)
      (rule map_update_first, use r(1) in \<open>simp add: record_id_def device_from_def\<close>)
  with r show ?thesis by (auto simp: secret_matches_def)
qed

section \<open>Concrete runs\<close>

definition sample_inventory :: agent_inventory where
  "sample_inventory = \<lparr> inv_hostname = None, inv_mac_address = ''00-1a-2B-3c-4D-5e'',
     inv_model = None, inv_serial = None, inv_cpu_model = None, inv_physical_core_count = None,
     inv_logical_processor_count = 4, inv_memory_bytes = 0,
     inv_system_details = \<lparr> sys_os_name = None, sys_os_version = None, sys_uptime_seconds = None,
       sys_motherboard = None, sys_memory_modules = [], sys_gpus = [], sys_displays = [],
       sys_audio_devices = [], sys_network_adapters = [] \<rparr>,
     inv_architecture = X86_64, inv_boot_mode = Uefi, inv_disks = [], inv_agent_version = ''1.0'' \<rparr>"

definition sample_device_env :: device_env where
  "sample_device_env = \<lparr> de_now = 5, de_id = 42, de_secret_a = 1, de_secret_b = 2,
     de_write = Written \<rparr>"

lemma sample_mac: "normalize_mac_address ''00-1a-2B-3c-4D-5e'' = Ok ''00:1A:2B:3C:4D:5E''"
  by code_simp

lemma sample_inventory_valid: "is_ok (validate_inventory sample_inventory)"
  by (simp add: validate_inventory_def sample_inventory_def sample_mac trim_visible visible_def
      byte_def continues_def)

theorem registration_issues_credential_witness:
  "\<exists>d r reg'. register_agent id sample_inventory ''10.0.0.9'' sample_device_env empty_registry =
      (Ok (d, r), reg') \<and> authenticate id reg' (reg_device_id r) (reg_device_token r) = Ok () \<and>
    reg_device_id r = 42"
proof -
  obtain invy where "validate_inventory sample_inventory = Ok invy"
    using sample_inventory_valid by (auto simp: is_ok_iff)
  then obtain d r reg' where reg:
    "register_agent id sample_inventory ''10.0.0.9'' sample_device_env empty_registry =
      (Ok (d, r), reg')"
    by (simp add: register_agent_Ok_form Let_def commit_devices_def sample_device_env_def)
  have "normalize_mac_address (inv_mac_address sample_inventory) = Ok ''00:1A:2B:3C:4D:5E''"
    by (simp add: sample_inventory_def sample_mac)
  note issued = registration_issues_credential [OF reg this]
  then have "authenticate id reg' (reg_device_id r) (reg_device_token r) = Ok ()" by blast
  moreover from issued have "reg_device_id r = 42"
    by (simp add: empty_registry_def sample_device_env_def)
  ultimately show ?thesis using reg by blast
qed

theorem heartbeat_needs_token_witness:
  "\<exists>reg. dr_devices reg \<noteq> [] \<and> (\<exists>a reg'.
     heartbeat id 42 ''t'' sample_inventory ''10.0.0.9'' sample_device_env reg = (Ok a, reg') \<and>
     map record_id (dr_devices reg') = [42])"
proof -
  obtain invy where v: "validate_inventory sample_inventory = Ok invy"
    using sample_inventory_valid by (auto simp: is_ok_iff)
  let ?r = "\<lparr> rec_device = device_from invy 42 ''10.0.0.9'' 0, rec_agent_version = ''1.0'',
    rec_first_seen_at = 0, rec_token_digest = ''t'' \<rparr>"
  let ?reg = "\<lparr> dr_manifest = Absent, dr_devices = [?r] \<rparr>"
  obtain a reg' where h: "heartbeat id 42 ''t'' sample_inventory ''10.0.0.9'' sample_device_env ?reg =
      (Ok a, reg')"
    by (simp add: heartbeat_def v Let_def record_of_def device_from_def secret_matches_def
        commit_devices_def sample_device_env_def)
  from heartbeat_needs_token [OF h] have "map record_id (dr_devices reg') = [42]"
    by (auto simp: record_id_def device_from_def)
  with h show ?thesis by (intro exI [of _ ?reg]) auto
qed

end
