(* ===== verification/Linux_Install.thy ===== *)
theory Linux_Install
  imports Core_Models
begin

text \<open>
  The inputs of an unattended Linux installation (\<open>crates/core/src/job.rs\<close>):
  the options of the operator and the disk inventory the installer's guard
  sends, each with its validation.
\<close>

section \<open>Installation options\<close>

record linux_install_options =
  lin_hostname :: string
  lin_username :: string
  lin_ssh_authorized_keys :: "string list"

datatype linux_install_options_error =
    Invalid_Hostname
  | Invalid_Username
  | Invalid_Ssh_Key_Count
  | Invalid_Ssh_Key nat
  | Duplicate_Ssh_Key nat

definition host_byte_ok :: "char \<Rightarrow> bool" where
  "host_byte_ok c = (is_lower c \<or> is_digit c \<or> c = CHR ''-'')"

definition valid_linux_hostname :: "string \<Rightarrow> bool" where
  "valid_linux_hostname h =
     (1 \<le> length h \<and> length h \<le> 63 \<and>
      (h \<noteq> [] \<and> is_alnum (hd h)) \<and> (h \<noteq> [] \<and> is_alnum (last h)) \<and>
      list_all host_byte_ok h)"

definition user_byte_ok :: "char \<Rightarrow> bool" where
  "user_byte_ok c = (is_lower c \<or> is_digit c \<or> c = CHR ''_'' \<or> c = CHR ''-'')"

definition valid_linux_username :: "string \<Rightarrow> bool" where
  "valid_linux_username u =
     (1 \<le> length u \<and> length u \<le> 32 \<and> u \<noteq> ''root'' \<and>
      (u \<noteq> [] \<and> is_lower (hd u)) \<and> list_all user_byte_ok u)"

definition line_break_or_nul :: "char \<Rightarrow> bool" where
  "line_break_or_nul c = (byte c \<in> {13, 10, 0})"

definition ssh_algorithms :: "string list" where
  "ssh_algorithms =
     [''ssh-ed25519'', ''ssh-rsa'', ''ecdsa-sha2-nistp256'', ''ecdsa-sha2-nistp384'',
      ''ecdsa-sha2-nistp521'', ''sk-ssh-ed25519@openssh.com'',
      ''sk-ecdsa-sha2-nistp256@openssh.com'']"

definition base64_byte_ok :: "char \<Rightarrow> bool" where
  "base64_byte_ok c = (is_alnum c \<or> c \<in> {CHR ''+'', CHR ''/'', CHR ''=''})"

definition valid_ssh_public_key :: "string \<Rightarrow> bool" where
  "valid_ssh_public_key key =
     (if key = [] \<or> length key > 16 * 1024 \<or> \<not> list_all is_ascii key \<or> list_ex line_break_or_nul key
      then False
      else case ascii_words key of
          [] \<Rightarrow> False
        | [_] \<Rightarrow> False
        | algorithm # encoded # _ \<Rightarrow>
            algorithm \<in> set ssh_algorithms \<and> length encoded \<ge> 16 \<and> list_all base64_byte_ok encoded)"

definition validate_linux_options ::
  "linux_install_options \<Rightarrow> (linux_install_options_error, unit) outcome" where
  "validate_linux_options opts =
     (let keys = lin_ssh_authorized_keys opts in
      if \<not> valid_linux_hostname (lin_hostname opts) then Err Invalid_Hostname
      else if \<not> valid_linux_username (lin_username opts) then Err Invalid_Username
      else if keys = [] \<or> length keys > 16 then Err Invalid_Ssh_Key_Count
      else check_each valid_ssh_public_key id Invalid_Ssh_Key Duplicate_Ssh_Key 0 [] keys)"

section \<open>The guard's inventory\<close>

record linux_installer_observed_disk =
  obs_path :: string
  obs_model :: string
  obs_serial :: "string option"
  obs_size_bytes :: u64

record linux_installer_guard_request =
  gr_image_sha256 :: string
  gr_disks :: "linux_installer_observed_disk list"

datatype linux_installer_guard_error =
    Invalid_Image_Checksum
  | Invalid_Disk_Count
  | Invalid_Disk nat
  | Duplicate_Disk_Path nat

definition valid_disk_text :: "string \<Rightarrow> nat \<Rightarrow> bool" where
  "valid_disk_text s m = (trim s \<noteq> [] \<and> length s \<le> m \<and> \<not> list_ex line_break_or_nul s)"

definition device_byte_ok :: "char \<Rightarrow> bool" where
  "device_byte_ok c = (is_alnum c \<or> c \<in> {CHR ''.'', CHR ''_'', CHR ''-''})"

definition valid_device_path :: "string \<Rightarrow> bool" where
  "valid_device_path path =
     (case strip_prefix ''/dev/'' path of
        None \<Rightarrow> False
      | Some b \<Rightarrow> 1 \<le> length b \<and> length b \<le> 128 \<and> b \<notin> {''.'', ''..''} \<and> list_all device_byte_ok b)"

definition valid_observed_disk :: "linux_installer_observed_disk \<Rightarrow> bool" where
  "valid_observed_disk d =
     (valid_device_path (obs_path d) \<and>
      valid_disk_text (obs_path d) 256 \<and>
      valid_disk_text (obs_model d) 256 \<and>
      (case obs_serial d of None \<Rightarrow> True | Some s \<Rightarrow> valid_disk_text s 256) \<and>
      obs_size_bytes d > 0)"

definition validate_guard_request ::
  "linux_installer_guard_request \<Rightarrow> (linux_installer_guard_error, unit) outcome" where
  "validate_guard_request r =
     (if length (gr_image_sha256 r) \<noteq> 64 \<or> \<not> list_all is_hex (gr_image_sha256 r)
      then Err Invalid_Image_Checksum
      else if gr_disks r = [] \<or> length (gr_disks r) > 128 then Err Invalid_Disk_Count
      else check_each valid_observed_disk obs_path Invalid_Disk Duplicate_Disk_Path 0 [] (gr_disks r))"

lemma validate_linux_options_no_panic [simp]: "validate_linux_options opts \<noteq> Panic"
  by (simp add: validate_linux_options_def Let_def)

lemma validate_guard_request_no_panic [simp]: "validate_guard_request r \<noteq> Panic"
  by (simp add: validate_guard_request_def)

lemma validate_linux_options_Ok:
  "validate_linux_options opts = Ok u \<longleftrightarrow>
     valid_linux_hostname (lin_hostname opts) \<and> valid_linux_username (lin_username opts) \<and>
     1 \<le> length (lin_ssh_authorized_keys opts) \<and> length (lin_ssh_authorized_keys opts) \<le> 16 \<and>
     list_all valid_ssh_public_key (lin_ssh_authorized_keys opts) \<and>
     distinct (lin_ssh_authorized_keys opts)"
proof -
  have "1 \<le> length ks \<longleftrightarrow> ks \<noteq> []" for ks :: "string list" by (cases ks) simp_all
  then show ?thesis by (auto simp: validate_linux_options_def Let_def)
qed

lemma validate_guard_request_Ok:
  "validate_guard_request r = Ok u \<longleftrightarrow>
     sha256_hex (gr_image_sha256 r) \<and> gr_disks r \<noteq> [] \<and> length (gr_disks r) \<le> 128 \<and>
     list_all valid_observed_disk (gr_disks r) \<and> distinct (map obs_path (gr_disks r))"
  by (auto simp: validate_guard_request_def sha256_hex_def)

text \<open>
  The options of an unattended installation are accepted exactly when the
  host name is a lower-case RFC 1123 label of 1 to 63 bytes, the user name is
  a non-root account name of 1 to 32 bytes that starts with a letter, and there
  are 1 to 16 distinct valid SSH keys.
\<close>

theorem linux_options_exact:
  "is_ok (validate_linux_options opts) \<longleftrightarrow>
     (let h = lin_hostname opts; u = lin_username opts; ks = lin_ssh_authorized_keys opts in
      (length h \<in> {1..63} \<and> list_all host_byte_ok h \<and> hd h \<noteq> CHR ''-'' \<and> last h \<noteq> CHR ''-'') \<and>
      (length u \<in> {1..32} \<and> list_all user_byte_ok u \<and> is_lower (hd u) \<and> u \<noteq> ''root'') \<and>
      length ks \<in> {1..16} \<and> list_all valid_ssh_public_key ks \<and> distinct ks)"
proof -
  have dash: "is_alnum c \<longleftrightarrow> c \<noteq> CHR ''-''" if "host_byte_ok c \<or> c = CHR ''-''" for c
    using that
    by (auto simp: host_byte_ok_def is_alnum_def is_lower_def is_digit_def is_upper_def byte_def)
  have host: "valid_linux_hostname h \<longleftrightarrow>
      length h \<in> {1..63} \<and> list_all host_byte_ok h \<and> hd h \<noteq> CHR ''-'' \<and> last h \<noteq> CHR ''-''" for h
    using dash [of "hd h"] dash [of "last h"] dash [of "CHR ''-''"]
    by (cases "h = []") (auto simp: valid_linux_hostname_def list_all_iff)
  have user: "valid_linux_username u \<longleftrightarrow>
      length u \<in> {1..32} \<and> list_all user_byte_ok u \<and> is_lower (hd u) \<and> u \<noteq> ''root''" for u
    by (cases "u = []") (auto simp: valid_linux_username_def)
  show ?thesis
    by (auto simp: is_ok_iff validate_linux_options_Ok host user Let_def)
qed

lemma no_slash_in_device_name: "list_all device_byte_ok b \<Longrightarrow> CHR ''/'' \<notin> set b"
  by (auto simp: list_all_iff device_byte_ok_def is_alnum_def is_digit_def is_upper_def
      is_lower_def byte_def)

text \<open>
  An inventory the guard accepts names between 1 and 128 distinct device
  nodes directly below \<open>/dev\<close>, none of them a parent directory, each with a
  non-zero capacity: no path in it leads out of \<open>/dev\<close>.
\<close>

theorem guard_inventory_confined:
  assumes "validate_guard_request r = Ok ()"
  shows "length (gr_disks r) \<in> {1..128} \<and> distinct (map obs_path (gr_disks r)) \<and>
    list_all (\<lambda>d. \<exists>b. obs_path d = ''/dev/'' @ b \<and> b \<notin> {[], ''.'', ''..''} \<and> CHR ''/'' \<notin> set b \<and>
      0 < obs_size_bytes d) (gr_disks r)"
proof -
  from assms have v: "gr_disks r \<noteq> []" "length (gr_disks r) \<le> 128"
    "distinct (map obs_path (gr_disks r))" "list_all valid_observed_disk (gr_disks r)"
    by (auto simp: validate_guard_request_Ok)
  have "\<exists>b. obs_path d = ''/dev/'' @ b \<and> b \<notin> {[], ''.'', ''..''} \<and> CHR ''/'' \<notin> set b \<and>
      0 < obs_size_bytes d" if "valid_observed_disk d" for d
    using that no_slash_in_device_name
    by (auto simp: valid_observed_disk_def valid_device_path_def split: option.splits)
  moreover have "1 \<le> length (gr_disks r)" using v(1) by (cases "gr_disks r") auto
  ultimately show ?thesis using v by (auto simp: list_all_iff)
qed

theorem guard_inventory_confined_witness:
  "\<exists>b. ''/dev/sda'' = ''/dev/'' @ b \<and> b \<notin> {[], ''.'', ''..''} \<and> CHR ''/'' \<notin> set b"
proof -
  let ?d = "\<lparr> obs_path = ''/dev/sda'', obs_model = ''M'', obs_serial = Some ''S1'',
    obs_size_bytes = 32 \<rparr>"
  let ?r = "\<lparr> gr_image_sha256 = replicate 64 (CHR ''a''), gr_disks = [?d] \<rparr>"
  have t: "trim ''/dev/sda'' = ''/dev/sda''" "trim ''M'' = ''M''" "trim ''S1'' = ''S1''"
    by (simp_all add: trim_visible visible_def byte_def)
  have p: "valid_device_path ''/dev/sda''"
    by (simp add: valid_device_path_def strip_prefix_def starts_with_def device_byte_ok_def
        is_alnum_def is_upper_def is_lower_def is_digit_def byte_def)
  have "validate_guard_request ?r = Ok ()"
    by (simp add: validate_guard_request_Ok sha256_hex_def is_hex_def is_digit_def byte_def
        valid_observed_disk_def p valid_disk_text_def t line_break_or_nul_def list_all_iff)
  from guard_inventory_confined [OF this] show ?thesis by simp
qed

end
