(* ===== verification/Text_Lines.thy ===== *)
theory Text_Lines
  imports Edm_Prelude
begin

text \<open>
  Text as the program writes it line by line (shell scripts, YAML and DiskPart
  scripts) and as \<open>str::lines\<close> reads it.  A plain string has no line break.
\<close>

section \<open>Lines of text\<close>

definition newline :: char where "newline = CHR 0x0A"
definition return :: char where "return = CHR 0x0D"
definition apostrophe :: string where "apostrophe = [CHR 0x27]"
definition backslash :: string where "backslash = [CHR 0x5C]"

definition unlines :: "string list \<Rightarrow> string" where
  "unlines ls = concat (map (\<lambda>l. l @ [newline]) ls)"

text \<open>\<open>str::lines\<close>: a terminated line loses a carriage return before its line break.\<close>

definition strip_return :: "string \<Rightarrow> string" where
  "strip_return l = (if l \<noteq> [] \<and> last l = return then butlast l else l)"

definition text_lines :: "string \<Rightarrow> string list" where
  "text_lines s =
     (let ps = split_on (\<lambda>c. c = newline) s in
      map strip_return (butlast ps) @ (if last ps = [] then [] else [last ps]))"

definition indent_lines :: "string \<Rightarrow> nat \<Rightarrow> string" where
  "indent_lines v spaces = unlines (map (\<lambda>l. replicate spaces (CHR '' '') @ l) (text_lines v))"

section \<open>Plain lines\<close>

definition plain_char :: "char \<Rightarrow> bool" where
  "plain_char c = (c \<noteq> newline \<and> c \<noteq> return)"

definition plain :: "string \<Rightarrow> bool" where
  "plain s = list_all plain_char s"

lemma plain_simps [simp]:
  "plain []" "plain (c # s) \<longleftrightarrow> plain_char c \<and> plain s" "plain (s @ t) \<longleftrightarrow> plain s \<and> plain t"
  by (simp_all add: plain_def)

lemma split_on_plain:
  "plain l \<Longrightarrow> split_on (\<lambda>c. c = newline) (l @ newline # s) = l # split_on (\<lambda>c. c = newline) s"
  by (induction l) (simp_all add: plain_char_def)

lemma strip_plain [simp]: "plain l \<Longrightarrow> strip_return l = l"
  by (cases l rule: rev_cases) (simp_all add: strip_return_def plain_char_def)

lemma text_lines_line: "plain l \<Longrightarrow> text_lines (l @ newline # s) = l # text_lines s"
  by (simp add: text_lines_def Let_def split_on_plain)

text \<open>Plain lines are read back one by one, whatever follows them.\<close>

lemma text_lines_unlines: "list_all plain ls \<Longrightarrow> text_lines (unlines ls @ s) = ls @ text_lines s"
  by (induction ls) (simp_all add: unlines_def text_lines_line)

end
