(* ===== verification/Installer_Rendering.thy ===== *)
theory Installer_Rendering
  imports Device_Registry Linux_Install Text_Lines
begin

text \<open>
  The texts the service renders for a Linux installation
  (\<open>crates/service/src/installer_deployment.rs\<close>): the boot script, the cloud
  configuration of the guard and the final autoinstall configuration.  The JSON
  printer of \<open>serde_json\<close> is the parameter \<open>scalar\<close>; what it promises is that a
  printed string has no raw line break.
\<close>

section \<open>Replacement and identifiers\<close>

text \<open>\<open>str::replace\<close>, for a pattern that is not empty.\<close>

function replace_all :: "string \<Rightarrow> string \<Rightarrow> string \<Rightarrow> string" where
  "replace_all p w s =
     (case s of
        [] \<Rightarrow> []
      | c # t \<Rightarrow>
          if p \<noteq> [] \<and> starts_with p s then w @ replace_all p w (drop (length p) s)
          else c # replace_all p w t)"
  by pat_completeness auto
termination
  by (relation "measure (\<lambda>(p, w, s). length s)") auto

declare replace_all.simps [simp del]

text \<open>\<open>Uuid\<close> as text: groups of 8, 4, 4, 4 and 12 digits.\<close>

definition uuid_text :: "uuid \<Rightarrow> string" where
  "uuid_text u =
     (let s = uuid_simple u in
      take 8 s @ ''-'' @ take 4 (drop 8 s) @ ''-'' @ take 4 (drop 12 s) @ ''-'' @
      take 4 (drop 16 s) @ ''-'' @ drop 20 s)"

section \<open>Templates\<close>

definition installer_guard_script :: string where \<open>
  installer_guard_script = unlines
    [''umask 077'',
     ''cat > /run/easydeploymesh-installer-guard.py <<'' @ apostrophe @ ''EDM_GUARD'' @ apostrophe,
     ''import glob'',
     ''import hashlib'',
     ''import json'',
     ''import os'',
     ''import pathlib'',
     ''import subprocess'',
     ''import time'',
     ''import urllib.error'',
     ''import urllib.request'',
     [],
     ''GUARD_URL = "__GUARD_URL__"'',
     ''SESSION_TOKEN = "__SESSION_TOKEN__"'',
     ''MAX_RESPONSE_BYTES = 1024 * 1024'',
     [],
     ''def find_iso():'',
     ''    try:'',
     ''        for line in pathlib.Path("/proc/self/mounts").read_text().splitlines():'',
     ''            fields = line.split()'',
     ''            if len(fields) >= 2 and fields[1] == "/cdrom" and fields[0].startswith("/dev/loop"):'',
     ''                loop_name = pathlib.Path(fields[0]).name'',
     ''                backing = pathlib.Path("/sys/class/block") / loop_name / "loop/backing_file"'',
     ''                candidate = pathlib.Path("/") / backing.read_text().strip().lstrip("/")'',
     ''                if candidate.is_file():'',
     ''                    return candidate'',
     ''    except (OSError, ValueError):'',
     ''        pass'',
     ''    for pattern in ("/run/casper/*.iso", "/isodevice/*.iso"):'',
     ''        for value in glob.glob(pattern):'',
     ''            candidate = pathlib.Path(value)'',
     ''            if candidate.is_file():'',
     ''                return candidate'',
     ''    raise RuntimeError("installer ISO backing file is unavailable")'',
     [],
     ''def sha256(path):'',
     ''    digest = hashlib.sha256()'',
     ''    with path.open("rb") as source:'',
     ''        while True:'',
     ''            chunk = source.read(4 * 1024 * 1024)'',
     ''            if not chunk:'',
     ''                break'',
     ''            digest.update(chunk)'',
     ''    return digest.hexdigest()'',
     [],
     ''def inventory():'',
     ''    raw = subprocess.check_output(['',
     ''        "lsblk", "--json", "--bytes", "--nodeps",'',
     ''        "--output", "PATH,MODEL,SERIAL,SIZE,TYPE",'',
     ''    ], timeout=30)'',
     ''    devices = json.loads(raw).get("blockdevices", [])'',
     ''    return ['',
     ''        {'',
     ''            "path": str(device.get("path") or ""),'',
     ''            "model": str(device.get("model") or "").strip(),'',
     ''            "serial": (str(device["serial"]).strip() if device.get("serial") else None),'',
     ''            "sizeBytes": int(device.get("size") or 0),'',
     ''        }'',
     ''        for device in devices if device.get("type") == "disk"'',
     ''    ]'',
     [],
     ''payload = json.dumps({"imageSha256": sha256(find_iso()), "disks": inventory()}).encode()'',
     ''request = urllib.request.Request('',
     ''    GUARD_URL,'',
     ''    data=payload,'',
     ''    headers={'',
     ''        "Authorization": "Bearer " + SESSION_TOKEN,'',
     ''        "Content-Type": "application/json",'',
     ''    },'',
     ''    method="POST",'',
     '')'',
     ''last_error = None'',
     ''for attempt in range(120):'',
     ''    try:'',
     ''        with urllib.request.urlopen(request, timeout=30) as response:'',
     ''            configuration = response.read(MAX_RESPONSE_BYTES + 1)'',
     ''        if len(configuration) > MAX_RESPONSE_BYTES:'',
     ''            raise RuntimeError("installer configuration exceeds limit")'',
     ''        pathlib.Path("/autoinstall.yaml").write_bytes(configuration)'',
     ''        break'',
     ''    except urllib.error.HTTPError as error:'',
     ''        if error.code not in (409, 429, 503):'',
     ''            raise'',
     ''        last_error = error'',
     ''    except (OSError, urllib.error.URLError) as error:'',
     ''        last_error = error'',
     ''    time.sleep(10)'',
     ''else:'',
     ''    raise RuntimeError("target authorization did not complete") from last_error'',
     ''EDM_GUARD'',
     ''chmod 0700 /run/easydeploymesh-installer-guard.py'',
     ''python3 /run/easydeploymesh-installer-guard.py'',
     ''rm -f /run/easydeploymesh-installer-guard.py'']\<close>

definition first_boot_script :: string where \<open>
  first_boot_script = unlines
    [''#!/usr/bin/python3'',
     ''import json'',
     ''import os'',
     ''import pathlib'',
     ''import urllib.request'',
     [],
     ''token_path = pathlib.Path("/etc/easydeploymesh/installer-token")'',
     ''token = token_path.read_text().strip()'',
     ''request = urllib.request.Request('',
     ''    "__COMPLETION_URL__",'',
     ''    data=json.dumps({"attemptId": "__ATTEMPT_ID__"}).encode(),'',
     ''    headers={"Authorization": "Bearer " + token, "Content-Type": "application/json"},'',
     ''    method="POST",'',
     '')'',
     ''with urllib.request.urlopen(request, timeout=30) as response:'',
     ''    if response.status not in (200, 204):'',
     ''        raise RuntimeError("completion was not accepted")'',
     ''token_path.unlink(missing_ok=True)'',
     ''pathlib.Path("/etc/systemd/system/multi-user.target.wants/easydeploymesh-first-boot.service").unlink(missing_ok=True)'']\<close>

definition installer_event_script :: string where \<open>
  installer_event_script = unlines
    [''import json'',
     ''import urllib.request'',
     [],
     ''request = urllib.request.Request('',
     ''    "__EVENT_URL__",'',
     ''    data=json.dumps({"kind": "__EVENT_KIND__"}).encode(),'',
     ''    headers={'',
     ''        "Authorization": "Bearer __SESSION_TOKEN__",'',
     ''        "Content-Type": "application/json",'',
     ''    },'',
     ''    method="POST",'',
     '')'',
     ''with urllib.request.urlopen(request, timeout=30) as response:'',
     ''    if response.status not in (200, 204):'',
     ''        raise RuntimeError("installer event was not accepted")'']\<close>

definition first_boot_service :: string where \<open>
  first_boot_service = unlines
    [''[Unit]'',
     ''Description=EasyDeployMesh first-boot completion'',
     ''After=network-online.target'',
     ''Wants=network-online.target'',
     ''ConditionPathExists=/etc/easydeploymesh/installer-token'',
     [],
     ''[Service]'',
     ''Type=oneshot'',
     ''ExecStart=/usr/local/sbin/easydeploymesh-first-boot'',
     ''Restart=on-failure'',
     ''RestartSec=30'',
     [],
     ''[Install]'',
     ''WantedBy=multi-user.target'']\<close>

section \<open>Rendering\<close>

datatype installer_session_phase = Offered | Authorizing | Handed_Off | Awaiting_Confirmation | Completed

record session_binding =
  sb_session_id :: uuid
  sb_attempt_id :: uuid
  sb_device_id :: uuid
  sb_job_id :: uuid
  sb_image_id :: uuid
  sb_base_url :: string
  sb_phase :: installer_session_phase
  sb_lease_id :: "uuid option"

record boot_assignment =
  ba_session_id :: uuid
  ba_attempt_id :: uuid
  ba_token :: string
  ba_expires_at :: instant
  ba_base_url :: string

datatype boot_outcome = No_Assignment | Denied | Assigned boot_assignment

definition render_boot_script :: "boot_outcome \<Rightarrow> string" where \<open>
  render_boot_script outcome =
     (case outcome of
        No_Assignment \<Rightarrow> unlines
          [''#!ipxe'',
           ''# EasyDeployMesh no Linux assignment'',
           ''chain tftp://${next-server}/boot/easydeploymesh-winpe.ipxe || exit'']
      | Denied \<Rightarrow> unlines
          [''#!ipxe'',
           ''# EasyDeployMesh assignment denied; do not fall back to destructive media'',
           ''echo EasyDeployMesh refused this installer assignment'',
           ''exit'']
      | Assigned a \<Rightarrow> unlines
          [''#!ipxe'',
           ''# EasyDeployMesh Ubuntu autoinstall assignment v1'',
           ''set edm-session '' @ ba_base_url a @ ''/api/v1/install/sessions/'' @ uuid_text (ba_session_id a),
           ''set edm-attempt '' @ uuid_text (ba_attempt_id a),
           ''set edm-token '' @ ba_token a,
           ''kernel ${edm-session}/kernel?token=${edm-token} '' @
             ''initrd=easydeploymesh-initrd ip=dhcp boot=casper autoinstall '' @
             ''cloud-config-url=/dev/null '' @
             ''ds=nocloud-net'' @ backslash @ '';s=${edm-session}/seed/${edm-token}/ '' @
             ''iso-url=${edm-session}/iso?token=${edm-token} || exit'',
           ''initrd --name easydeploymesh-initrd '' @
             ''${edm-session}/initrd?token=${edm-token} || exit'',
           ''boot || exit''])\<close>

definition session_url :: "session_binding \<Rightarrow> string \<Rightarrow> string" where
  "session_url b leaf =
     sb_base_url b @ ''/api/v1/install/sessions/'' @ uuid_text (sb_session_id b) @ leaf"

definition render_initial_user_data :: "session_binding \<Rightarrow> string \<Rightarrow> string" where
  "render_initial_user_data b token =
     unlines [''#cloud-config'', ''autoinstall:'', ''  version: 1'', ''  refresh-installer:'',
       ''    update: false'', ''  early-commands:'', ''    - |''] @
     indent_lines
       (replace_all ''__SESSION_TOKEN__'' token
         (replace_all ''__GUARD_URL__'' (session_url b ''/guard'') installer_guard_script)) 8"

definition render_initial_meta_data :: "session_binding \<Rightarrow> string" where
  "render_initial_meta_data b =
     unlines [''instance-id: easydeploymesh-'' @ uuid_text (sb_attempt_id b),
       ''local-hostname: easydeploymesh-installer'']"

definition config_head :: "string \<Rightarrow> string \<Rightarrow> string list" where \<open>
  config_head hostname username =
    [''#cloud-config'',
     ''autoinstall:'',
     ''  version: 1'',
     ''  refresh-installer:'',
     ''    update: false'',
     ''  locale: en_US.UTF-8'',
     ''  keyboard:'',
     ''    layout: us'',
     ''  identity:'',
     ''    hostname: '' @ hostname,
     ''    username: '' @ username,
     ''    password: "!"'',
     ''  ssh:'',
     ''    install-server: true'',
     ''    allow-pw: false'',
     ''    authorized-keys:'']\<close>

definition key_line :: "string \<Rightarrow> string" where
  "key_line key = ''      - '' @ key"

definition config_storage :: "string \<Rightarrow> string \<Rightarrow> string list" where \<open>
  config_storage target token =
    [''  network:'',
     ''    version: 2'',
     ''    ethernets:'',
     ''      deployment-nic:'',
     ''        match:'',
     ''          name: "e*"'',
     ''        dhcp4: true'',
     ''  storage:'',
     ''    config:'',
     ''      - id: target-disk'',
     ''        type: disk'',
     ''        path: '' @ target,
     ''        ptable: gpt'',
     ''        wipe: superblock-recursive'',
     ''        preserve: false'',
     ''        grub_device: true'',
     ''      - id: efi-partition'',
     ''        type: partition'',
     ''        device: target-disk'',
     ''        size: 1G'',
     ''        flag: boot'',
     ''        grub_device: true'',
     ''      - id: efi-format'',
     ''        type: format'',
     ''        volume: efi-partition'',
     ''        fstype: fat32'',
     ''      - id: efi-mount'',
     ''        type: mount'',
     ''        device: efi-format'',
     ''        path: /boot/efi'',
     ''      - id: root-partition'',
     ''        type: partition'',
     ''        device: target-disk'',
     ''        size: -1'',
     ''      - id: root-format'',
     ''        type: format'',
     ''        volume: root-partition'',
     ''        fstype: ext4'',
     ''      - id: root-mount'',
     ''        type: mount'',
     ''        device: root-format'',
     ''        path: /'',
     ''  late-commands:'',
     ''    - |'',
     ''        install -d -m 0700 /target/etc/easydeploymesh'',
     ''        cat > /target/etc/easydeploymesh/installer-token <<'' @ apostrophe @ ''EDM_TOKEN'' @ apostrophe,
     ''        '' @ token,
     ''        EDM_TOKEN'',
     ''        chmod 0600 /target/etc/easydeploymesh/installer-token'',
     ''        install -d -m 0755 /target/etc/systemd/system/multi-user.target.wants'',
     ''        cat > /target/usr/local/sbin/easydeploymesh-first-boot <<'' @ apostrophe @ ''EDM_CALLBACK'' @ apostrophe]\<close>

definition config_service :: "string list" where \<open>
  config_service =
    [''        EDM_CALLBACK'',
     ''        chmod 0700 /target/usr/local/sbin/easydeploymesh-first-boot'',
     ''        cat > /target/etc/systemd/system/easydeploymesh-first-boot.service <<'' @ apostrophe @ ''EDM_SERVICE'' @ apostrophe]\<close>

definition config_awaiting :: "string list" where \<open>
  config_awaiting =
    [''        EDM_SERVICE'',
     ''        ln -sf ../easydeploymesh-first-boot.service /target/etc/systemd/system/multi-user.target.wants/easydeploymesh-first-boot.service'',
     ''        cat > /run/easydeploymesh-awaiting-first-boot.py <<'' @ apostrophe @ ''EDM_AWAITING'' @ apostrophe]\<close>

definition config_failed :: "string list" where \<open>
  config_failed =
    [''        EDM_AWAITING'',
     ''        python3 /run/easydeploymesh-awaiting-first-boot.py'',
     ''        rm -f /run/easydeploymesh-awaiting-first-boot.py'',
     ''  error-commands:'',
     ''    - |'',
     ''        cat > /run/easydeploymesh-install-failed.py <<'' @ apostrophe @ ''EDM_FAILED'' @ apostrophe]\<close>

definition config_tail :: "string list" where \<open>
  config_tail =
    [''        EDM_FAILED'',
     ''        python3 /run/easydeploymesh-install-failed.py || true'',
     ''        rm -f /run/easydeploymesh-install-failed.py'',
     ''  shutdown: reboot'']\<close>

datatype rendering_error = Configuration

definition renderable_path :: "string \<Rightarrow> bool" where
  "renderable_path path =
     (case strip_prefix ''/dev/'' path of
        None \<Rightarrow> False
      | Some d \<Rightarrow> d \<noteq> [] \<and> length d \<le> 128 \<and> CHR ''/'' \<notin> set d \<and>
          list_all (\<lambda>c. is_alnum c \<or> c \<in> {CHR ''_'', CHR ''-'', CHR ''.''}) d)"

definition event_script :: "session_binding \<Rightarrow> string \<Rightarrow> string \<Rightarrow> string" where
  "event_script b token kind =
     replace_all ''__EVENT_KIND__'' kind
       (replace_all ''__SESSION_TOKEN__'' token
         (replace_all ''__EVENT_URL__'' (session_url b ''/events'') installer_event_script))"

definition render_final_autoinstall ::
  "(string \<Rightarrow> string) \<Rightarrow> session_binding \<Rightarrow> string \<Rightarrow> linux_install_options \<Rightarrow> string \<Rightarrow>
   (rendering_error, string) outcome" where
  "render_final_autoinstall scalar b token opts path =
     (if \<not> renderable_path path then Err Configuration
      else
        let callback = replace_all ''__ATTEMPT_ID__'' (uuid_text (sb_attempt_id b))
              (replace_all ''__COMPLETION_URL__'' (session_url b ''/first-boot'') first_boot_script) in
        Ok (unlines (config_head (scalar (lin_hostname opts)) (scalar (lin_username opts))) @
            unlines (map (\<lambda>key. key_line (scalar key)) (lin_ssh_authorized_keys opts)) @
            unlines (config_storage (scalar path) token) @
            indent_lines callback 8 @
            unlines config_service @
            indent_lines first_boot_service 8 @
            unlines config_awaiting @
            indent_lines (event_script b token ''awaiting_first_boot'') 8 @
            unlines config_failed @
            indent_lines (event_script b token ''failed'') 8 @
            unlines config_tail))"

section \<open>What operator input can change\<close>

lemma config_plain:
  "plain hostname \<Longrightarrow> plain username \<Longrightarrow> list_all plain (config_head hostname username)"
  "plain target \<Longrightarrow> plain token \<Longrightarrow> list_all plain (config_storage target token)"
  "plain key \<Longrightarrow> plain (key_line key)"
  by (simp_all add: config_head_def config_storage_def key_line_def plain_char_def newline_def
      return_def apostrophe_def)

lemma rendered_lines:
  assumes "\<And>s. plain (scalar s)" "plain token"
  shows "text_lines (unlines (config_head (scalar host) (scalar user)) @
      unlines (map (\<lambda>key. key_line (scalar key)) keys) @ unlines (config_storage (scalar path) token) @ rest) =
    config_head (scalar host) (scalar user) @ map (\<lambda>key. key_line (scalar key)) keys @
    config_storage (scalar path) token @ text_lines rest"
proof -
  have "list_all plain (map (\<lambda>key. key_line (scalar key)) keys)"
    using assms(1) by (simp add: list_all_iff config_plain(3))
  then show ?thesis using assms by (simp add: text_lines_unlines config_plain)
qed

text \<open>
  C17.  The operator's input changes only its own lines of the autoinstall
  configuration.  For one session there is one list of lines \<open>rest\<close> such that,
  whatever the host name, the user name, the keys and the disk are, the rendered
  text reads back as the fixed head with the two printed names, one line per
  key, the fixed storage section that wipes and partitions exactly the
  authorised disk, and then \<open>rest\<close>: the late and the error commands are the same
  for every input.  A disk whose path is not that of a device is refused.
\<close>

theorem autoinstall_structure_fixed:
  assumes "plain token"
  shows "\<exists>rest. \<forall>scalar opts path. (\<forall>s. plain (scalar s)) \<longrightarrow>
    (case render_final_autoinstall scalar b token opts path of
       Ok out \<Rightarrow> renderable_path path \<and> text_lines out =
         config_head (scalar (lin_hostname opts)) (scalar (lin_username opts)) @
         map (\<lambda>key. key_line (scalar key)) (lin_ssh_authorized_keys opts) @
         config_storage (scalar path) token @ rest
     | Err e \<Rightarrow> \<not> renderable_path path
     | Panic \<Rightarrow> False)"
proof -
  let ?callback = "replace_all ''__ATTEMPT_ID__'' (uuid_text (sb_attempt_id b))
    (replace_all ''__COMPLETION_URL__'' (session_url b ''/first-boot'') first_boot_script)"
  let ?rest = "indent_lines ?callback 8 @ unlines config_service @ indent_lines first_boot_service 8 @
    unlines config_awaiting @ indent_lines (event_script b token ''awaiting_first_boot'') 8 @
    unlines config_failed @ indent_lines (event_script b token ''failed'') 8 @ unlines config_tail"
  show ?thesis
  proof (intro exI [of _ "text_lines ?rest"] allI impI)
    fix scalar :: "string \<Rightarrow> string" and opts :: linux_install_options and path
    assume "\<forall>s. plain (scalar s)"
    then have p: "\<And>s. plain (scalar s)" by blast
    show "case render_final_autoinstall scalar b token opts path of
       Ok out \<Rightarrow> renderable_path path \<and> text_lines out =
         config_head (scalar (lin_hostname opts)) (scalar (lin_username opts)) @
         map (\<lambda>key. key_line (scalar key)) (lin_ssh_authorized_keys opts) @
         config_storage (scalar path) token @ text_lines ?rest
     | Err e \<Rightarrow> \<not> renderable_path path
     | Panic \<Rightarrow> False"
      by (simp add: render_final_autoinstall_def Let_def rendered_lines [of scalar, OF p assms])
  qed
qed

text \<open>A disk the guard's validation accepted can always be rendered.\<close>

lemma valid_path_renders: "valid_device_path path \<Longrightarrow> renderable_path path"
  using no_slash_in_device_name
  by (auto simp: valid_device_path_def renderable_path_def list_all_iff device_byte_ok_def Suc_le_eq
      split: option.splits)

lemma render_Ok_iff: "is_ok (render_final_autoinstall scalar b token opts path) \<longleftrightarrow> renderable_path path"
  by (simp add: render_final_autoinstall_def Let_def)

section \<open>A sample rendering\<close>

definition sample_scalar :: "string \<Rightarrow> string" where \<open>
  sample_scalar s = ''"'' @ filter plain_char s @ ''"''\<close>

definition sample_binding :: session_binding where
  "sample_binding = \<lparr> sb_session_id = 1, sb_attempt_id = 2, sb_device_id = 3, sb_job_id = 4,
     sb_image_id = 5, sb_base_url = ''http://10.0.0.1'', sb_phase = Authorizing, sb_lease_id = None \<rparr>"

definition sample_install :: linux_install_options where
  "sample_install = \<lparr> lin_hostname = ''lab'', lin_username = ''ops'', lin_ssh_authorized_keys = [''key''] \<rparr>"

lemma sample_scalar_plain: "plain (sample_scalar s)"
  by (simp add: sample_scalar_def plain_def list_all_iff) (simp add: plain_char_def newline_def return_def)

theorem autoinstall_structure_fixed_witness:
  "\<exists>rest. \<forall>host \<in> {''lab'', ''late-commands: x''}. \<exists>out.
     render_final_autoinstall sample_scalar sample_binding ''t''
       (sample_install \<lparr> lin_hostname := host \<rparr>) ''/dev/sda'' = Ok out \<and>
     text_lines out = config_head (sample_scalar host) (sample_scalar ''ops'') @
       [key_line (sample_scalar ''key'')] @ config_storage (sample_scalar ''/dev/sda'') ''t'' @ rest"
proof -
  have r: "renderable_path ''/dev/sda''"
    by (simp add: renderable_path_def strip_prefix_def starts_with_def is_alnum_def is_digit_def
        is_upper_def is_lower_def byte_def)
  have "plain ''t''" by (simp add: plain_char_def newline_def return_def)
  from autoinstall_structure_fixed [OF this, of sample_binding] obtain rest where rest:
    "(\<forall>s. plain (scalar s)) \<longrightarrow>
     (case render_final_autoinstall scalar sample_binding ''t'' opts path of
       Ok out \<Rightarrow> renderable_path path \<and> text_lines out =
         config_head (scalar (lin_hostname opts)) (scalar (lin_username opts)) @
         map (\<lambda>key. key_line (scalar key)) (lin_ssh_authorized_keys opts) @
         config_storage (scalar path) ''t'' @ rest
     | Err e \<Rightarrow> \<not> renderable_path path
     | Panic \<Rightarrow> False)" for scalar opts path by blast
  have "\<exists>out. render_final_autoinstall sample_scalar sample_binding ''t''
       (sample_install \<lparr> lin_hostname := host \<rparr>) ''/dev/sda'' = Ok out \<and>
     text_lines out = config_head (sample_scalar host) (sample_scalar ''ops'') @
       [key_line (sample_scalar ''key'')] @ config_storage (sample_scalar ''/dev/sda'') ''t'' @ rest" for host
    using rest [where scalar = sample_scalar and path = "''/dev/sda''" and
        opts = "sample_install \<lparr> lin_hostname := host \<rparr>"] r
    by (cases "render_final_autoinstall sample_scalar sample_binding ''t''
        (sample_install \<lparr> lin_hostname := host \<rparr>) ''/dev/sda''")
      (simp_all add: sample_scalar_plain sample_install_def)
  then show ?thesis by blast
qed

end
