(* ===== verification/Job_Lifecycle.thy ===== *)
theory Job_Lifecycle
  imports Core_Models
begin

text \<open>
  The life of a deployment job (\<open>JobState\<close> in \<open>crates/core/src/job.rs\<close>): the
  guarded transition, the terminal states, and an interface for machines whose
  transition function accepts or refuses a requested next state, on which the
  repository of jobs relies.
\<close>

section \<open>Job states\<close>

datatype job_state = Draft | Waiting | Running | Paused | Succeeded | Failed | Cancelled

record job_transition_error =
  jte_from :: job_state
  jte_to :: job_state

definition allowed_transitions :: "(job_state \<times> job_state) list" where
  "allowed_transitions =
     [(Draft, Waiting), (Draft, Cancelled),
      (Waiting, Running), (Waiting, Cancelled),
      (Running, Paused), (Running, Succeeded), (Running, Failed), (Running, Cancelled),
      (Paused, Running), (Paused, Succeeded), (Paused, Failed), (Paused, Cancelled),
      (Failed, Waiting)]"

definition transition :: "job_state \<Rightarrow> job_state \<Rightarrow> (job_transition_error, job_state) outcome" where
  "transition s t =
     ok_or (if (s, t) \<in> set allowed_transitions then Some t else None)
       \<lparr> jte_from = s, jte_to = t \<rparr>"

fun is_terminal :: "job_state \<Rightarrow> bool" where
  "is_terminal Succeeded = True"
| "is_terminal Cancelled = True"
| "is_terminal Draft = False"
| "is_terminal Waiting = False"
| "is_terminal Running = False"
| "is_terminal Paused = False"
| "is_terminal Failed = False"

text \<open>Decision procedures over the seven states go through the library's enumeration class.\<close>

instantiation job_state :: enum
begin

definition enum_job_state :: "job_state list" where
  "enum_job_state = [Draft, Waiting, Running, Paused, Succeeded, Failed, Cancelled]"

definition enum_all_job_state :: "(job_state \<Rightarrow> bool) \<Rightarrow> bool" where
  "enum_all_job_state P = list_all P [Draft, Waiting, Running, Paused, Succeeded, Failed, Cancelled]"

definition enum_ex_job_state :: "(job_state \<Rightarrow> bool) \<Rightarrow> bool" where
  "enum_ex_job_state P = list_ex P [Draft, Waiting, Running, Paused, Succeeded, Failed, Cancelled]"

instance
proof
  show "(UNIV :: job_state set) = set enum_class.enum"
    by (auto simp: enum_job_state_def intro: job_state.exhaust)
  show "distinct (enum_class.enum :: job_state list)"
    by (simp add: enum_job_state_def)
  show "enum_class.enum_all P = Ball UNIV P" for P :: "job_state \<Rightarrow> bool"
    by (auto simp: enum_all_job_state_def) (metis job_state.exhaust)
  show "enum_class.enum_ex P = Bex UNIV P" for P :: "job_state \<Rightarrow> bool"
    by (auto simp: enum_ex_job_state_def) (metis job_state.exhaust)
qed

end

section \<open>Machines with a guarded transition\<close>

text \<open>A run asks for the states of a list one after the other and stops at the first refusal.\<close>

fun run_requests :: "('s \<Rightarrow> 's \<Rightarrow> ('e, 's) outcome) \<Rightarrow> 's \<Rightarrow> 's list \<Rightarrow> ('e, 's) outcome" where
  "run_requests step s [] = Ok s"
| "run_requests step s (t # ts) = and_then (step s t) (\<lambda>u. run_requests step u ts)"

locale guarded_machine =
  fixes step :: "'s \<Rightarrow> 's \<Rightarrow> ('e, 's) outcome"
    and terminal :: "'s \<Rightarrow> bool"
  assumes step_target: "step s t = Ok u \<Longrightarrow> u = t"
    and step_total: "step s t \<noteq> Panic"
    and terminal_refuses: "terminal s \<Longrightarrow> step s t \<noteq> Ok u"
begin

lemma run_target: "run_requests step s ts = Ok u \<Longrightarrow> u = last (s # ts)"
proof (induction ts arbitrary: s)
  case (Cons t ts)
  then show ?case by (auto simp: outcome_simps dest: step_target)
qed simp

lemma run_total: "run_requests step s ts \<noteq> Panic"
  by (induction ts arbitrary: s) (auto simp: outcome_simps step_total)

lemma run_leaves_no_terminal:
  "run_requests step s ts = Ok u \<Longrightarrow> x \<in> set (butlast (s # ts)) \<Longrightarrow> \<not> terminal x"
proof (induction ts arbitrary: s)
  case (Cons t ts)
  from Cons.prems(1) obtain v where v: "step s t = Ok v" "run_requests step v ts = Ok u"
    by (auto simp: outcome_simps)
  then have vt: "v = t" by (simp add: step_target)
  from Cons.prems(2) have "x = s \<or> x \<in> set (butlast (t # ts))" by auto
  then show ?case
  proof
    assume "x = s"
    with v(1) show ?thesis using terminal_refuses by blast
  next
    assume "x \<in> set (butlast (t # ts))"
    with v vt show ?thesis using Cons.IH by blast
  qed
qed simp

lemma run_from_terminal: "terminal s \<Longrightarrow> run_requests step s ts = Ok u \<Longrightarrow> ts = []"
  using terminal_refuses by (cases ts) (auto simp: outcome_simps)

lemma run_steps_accepted:
  "run_requests step s ts = Ok u \<Longrightarrow> i < length ts \<Longrightarrow>
     step ((s # ts) ! i) (ts ! i) = Ok (ts ! i)"
proof (induction ts arbitrary: s i)
  case (Cons t ts)
  from Cons.prems(1) obtain v where v: "step s t = Ok v" "run_requests step v ts = Ok u"
    by (auto simp: outcome_simps)
  then have vt: "v = t" by (simp add: step_target)
  show ?case
  proof (cases i)
    case 0
    with v vt show ?thesis by simp
  next
    case (Suc j)
    with Cons.prems(2) Cons.IH [OF v(2)] vt show ?thesis by simp
  qed
qed simp

end

lemma transition_Ok_iff [simp]:
  "transition s t = Ok u \<longleftrightarrow> (s, t) \<in> set allowed_transitions \<and> u = t"
  by (auto simp: transition_def)

lemma transition_no_panic [simp]: "transition s t \<noteq> Panic"
  by (simp add: transition_def)

lemma allowed_from_terminal: "is_terminal s \<Longrightarrow> (s, t) \<notin> set allowed_transitions"
  by (cases s) (simp_all add: allowed_transitions_def)

interpretation job: guarded_machine transition is_terminal
  by unfold_locales (auto simp: allowed_from_terminal)

lemma allowed_cases:
  "(s, t) \<in> set allowed_transitions \<longleftrightarrow>
     (s = Draft \<and> t \<in> {Waiting, Cancelled}) \<or>
     (s = Waiting \<and> t \<in> {Running, Cancelled}) \<or>
     (s = Running \<and> t \<in> {Paused, Succeeded, Failed, Cancelled}) \<or>
     (s = Paused \<and> t \<in> {Running, Succeeded, Failed, Cancelled}) \<or>
     (s = Failed \<and> t = Waiting)"
  by (auto simp: allowed_transitions_def)

text \<open>
  A run of accepted transitions ends in the last state asked for, never
  continues after \<open>Succeeded\<close> or \<open>Cancelled\<close>, and each state it visits is
  reached by a transition of the table: in particular nothing is asked of a
  job once it has succeeded or been cancelled.
\<close>

theorem job_run_sound:
  assumes "run_requests transition s ts = Ok u"
  shows "u = last (s # ts) \<and> list_all (\<lambda>x. \<not> is_terminal x) (butlast (s # ts)) \<and>
    list_all (\<lambda>i. ((s # ts) ! i, ts ! i) \<in> set allowed_transitions) [0..<length ts]"
  using assms job.run_target job.run_leaves_no_terminal job.run_steps_accepted
  by (fastforce simp: list_all_iff)

theorem job_run_sound_witness:
  "run_requests transition Waiting [Running, Paused, Running, Failed, Waiting, Cancelled] = Ok Cancelled
   \<and> list_all (\<lambda>x. \<not> is_terminal x) (butlast [Waiting, Running, Paused, Running, Failed, Waiting, Cancelled])"
proof -
  have run: "run_requests transition Waiting [Running, Paused, Running, Failed, Waiting, Cancelled]
      = Ok Cancelled"
    by (simp add: transition_def allowed_transitions_def)
  from job_run_sound [OF run] run show ?thesis by blast
qed

text \<open>
  A job reaches \<open>Succeeded\<close> only from \<open>Running\<close> or \<open>Paused\<close>, and a run
  that takes a queued job to \<open>Succeeded\<close> has the job \<open>Running\<close> on the way.
\<close>

lemma run_reaches_running:
  "run_requests transition s ts = Ok Succeeded \<Longrightarrow> s \<in> {Draft, Waiting, Failed} \<Longrightarrow> Running \<in> set ts"
proof (induction ts arbitrary: s)
  case (Cons t ts)
  have "run_requests transition Cancelled ts \<noteq> Ok Succeeded"
    using job.run_target job.run_from_terminal by force
  with Cons show ?case by (auto simp: outcome_simps allowed_cases)
qed auto

theorem succeeded_only_through_running:
  assumes "run_requests transition Waiting ts = Ok Succeeded"
  shows "Running \<in> set ts"
  using run_reaches_running [OF assms] by simp

theorem succeeded_only_through_running_witness:
  "Running \<in> set [Running, Paused, Succeeded]"
  by (rule succeeded_only_through_running) (simp add: transition_def allowed_transitions_def)

end
