(* ===== verification/Partition_Plan.thy ===== *)
theory Partition_Plan
  imports Core_Models
begin

text \<open>
  Partition plans (\<open>PartitionPlan\<close> in \<open>crates/core/src/job.rs\<close>): the plans the
  service recommends, the validation every plan passes before a job is created
  and again on the client before a disk is erased, and the capacity checks in
  saturating 64-bit arithmetic.  A Rust \<open>char\<close> (the drive letter) is its code
  point.
\<close>

type_synonym code_point = nat

definition mib_bytes :: u64 where "mib_bytes = 1024 * 1024"
definition minimum_windows_mib :: u64 where "minimum_windows_mib = 20 * 1024"
definition minimum_data_mib :: u64 where "minimum_data_mib = 1024"
definition image_cache_headroom_mib :: u64 where "image_cache_headroom_mib = 512"
definition partition_alignment_headroom_mib :: u64 where "partition_alignment_headroom_mib = 32"

datatype partition_table = Gpt | Mbr

datatype partition_role = Efi | Msr | System | Windows | Recovery | Data

datatype partition_file_system = Fat32 | Ntfs

record partition_spec =
  part_role :: partition_role
  part_size_mib :: "u64 option"
  part_file_system :: "partition_file_system option"
  part_label :: string
  part_drive_letter :: "code_point option"

record partition_plan =
  plan_table :: partition_table
  plan_partitions :: "partition_spec list"

definition uefi_gpt :: partition_plan where
  "uefi_gpt = \<lparr> plan_table = Gpt, plan_partitions =
    [\<lparr> part_role = Efi, part_size_mib = Some 300, part_file_system = Some Fat32,
       part_label = ''System'', part_drive_letter = None \<rparr>,
     \<lparr> part_role = Msr, part_size_mib = Some 16, part_file_system = None,
       part_label = [], part_drive_letter = None \<rparr>,
     \<lparr> part_role = Windows, part_size_mib = None, part_file_system = Some Ntfs,
       part_label = ''Windows'', part_drive_letter = None \<rparr>] \<rparr>"

definition legacy_bios_mbr :: partition_plan where
  "legacy_bios_mbr = \<lparr> plan_table = Mbr, plan_partitions =
    [\<lparr> part_role = System, part_size_mib = Some 550, part_file_system = Some Ntfs,
       part_label = ''System Reserved'', part_drive_letter = None \<rparr>,
     \<lparr> part_role = Windows, part_size_mib = None, part_file_system = Some Ntfs,
       part_label = ''Windows'', part_drive_letter = None \<rparr>] \<rparr>"

fun recommended :: "boot_mode \<Rightarrow> partition_plan option" where
  "recommended Uefi = Some uefi_gpt"
| "recommended Legacy_Bios = Some legacy_bios_mbr"
| "recommended Boot_Unknown = None"

section \<open>Validation\<close>

datatype partition_plan_error =
    Plan_Empty
  | Windows_Partition_Count nat
  | Invalid_Remaining_Partition
  | Zero_Size partition_role
  | Invalid_Label string
  | Invalid_Drive_Letter code_point
  | Duplicate_Drive_Letter
  | Required_Role_Count partition_role nat
  | Invalid_File_System partition_role
  | Role_Does_Not_Match_Table partition_role partition_table

definition upper_letter :: "code_point \<Rightarrow> code_point" where
  "upper_letter c = (if 97 \<le> c \<and> c \<le> 122 then c - 32 else c)"

text \<open>The letters D to Q, S to V and X to Z, by code point.\<close>

definition assignable_letter :: "code_point \<Rightarrow> bool" where
  "assignable_letter c =
     ((68 \<le> c \<and> c \<le> 81) \<or> (83 \<le> c \<and> c \<le> 86) \<or> (88 \<le> c \<and> c \<le> 90))"

definition label_char_ok :: "char \<Rightarrow> bool" where
  "label_char_ok c = (is_alnum c \<or> c \<in> set '' _-'')"

definition validate_spec :: "partition_spec \<Rightarrow> (partition_plan_error, unit) outcome" where
  "validate_spec p =
     (if part_size_mib p = Some 0 then Err (Zero_Size (part_role p))
      else if part_role p = Data \<and> part_file_system p \<noteq> Some Ntfs then Err (Invalid_File_System Data)
      else if length (part_label p) > 32 \<or> list_ex (\<lambda>c. \<not> label_char_ok c) (part_label p)
        then Err (Invalid_Label (part_label p))
      else case part_drive_letter p of
          None \<Rightarrow> Ok ()
        | Some l \<Rightarrow> let u = upper_letter l in
            if part_role p \<noteq> Data \<or> \<not> assignable_letter u then Err (Invalid_Drive_Letter u)
            else Ok ())"

fun validate_specs :: "partition_spec list \<Rightarrow> (partition_plan_error, unit) outcome" where
  "validate_specs [] = Ok ()"
| "validate_specs (p # ps) = and_then (validate_spec p) (\<lambda>_. validate_specs ps)"

text \<open>\<open>windows(2).any(|l| l[0] == l[1])\<close>\<close>

fun adjacent_equal :: "'a list \<Rightarrow> bool" where
  "adjacent_equal (x # y # zs) = (x = y \<or> adjacent_equal (y # zs))"
| "adjacent_equal _ = False"

definition plan_letters :: "partition_spec list \<Rightarrow> code_point list" where
  "plan_letters ps = map upper_letter (List.map_filter part_drive_letter ps)"

definition of_role :: "partition_role \<Rightarrow> partition_spec list \<Rightarrow> partition_spec list" where
  "of_role r ps = filter (\<lambda>p. part_role p = r) ps"

definition require_partition ::
  "partition_spec list \<Rightarrow> partition_role \<Rightarrow> partition_file_system option \<Rightarrow>
   (partition_plan_error, unit) outcome" where
  "require_partition ps r fs =
     (let ms = of_role r ps in
      if length ms \<noteq> 1 then Err (Required_Role_Count r (length ms))
      else if part_file_system (hd ms) \<noteq> fs then Err (Invalid_File_System r)
      else Ok ())"

definition validate_table :: "partition_plan \<Rightarrow> (partition_plan_error, unit) outcome" where
  "validate_table plan =
     (let ps = plan_partitions plan in
      case plan_table plan of
        Gpt \<Rightarrow> and_then (require_partition ps Efi (Some Fat32)) (\<lambda>_.
               and_then (require_partition ps Msr None) (\<lambda>_.
               if list_ex (\<lambda>p. part_role p = System) ps
               then Err (Role_Does_Not_Match_Table System Gpt) else Ok ()))
      | Mbr \<Rightarrow> and_then (require_partition ps System (Some Ntfs)) (\<lambda>_.
               if list_ex (\<lambda>p. part_role p \<in> {Efi, Msr}) ps
               then Err (Role_Does_Not_Match_Table Efi Mbr) else Ok ()))"

definition validate :: "partition_plan \<Rightarrow> (partition_plan_error, unit) outcome" where
  "validate plan =
     (let ps = plan_partitions plan;
          windows = length (of_role Windows ps);
          remaining = filter (\<lambda>p. part_size_mib p = None) ps in
      if ps = [] then Err Plan_Empty
      else if windows \<noteq> 1 then Err (Windows_Partition_Count windows)
      else if length remaining \<noteq> 1 \<or> part_role (hd remaining) \<notin> {Windows, Data}
        then Err Invalid_Remaining_Partition
      else and_then (validate_specs ps) (\<lambda>_.
        if adjacent_equal (sort (plan_letters ps)) then Err Duplicate_Drive_Letter
        else validate_table plan))"

section \<open>Capacity\<close>

record partition_capacity_error =
  pce_required_mib :: u64
  pce_available_mib :: u64
  pce_fixed_mib :: u64
  pce_cache_mib :: u64
  pce_remaining_minimum_mib :: u64
  pce_alignment_headroom_mib :: u64

record windows_payload_capacity_error =
  wpe_required_bytes :: u64
  wpe_available_bytes :: u64

definition fixed_sizes_mib :: "partition_spec list \<Rightarrow> u64" where
  "fixed_sizes_mib ps = foldl saturating_add 0 (List.map_filter part_size_mib ps)"

definition cache_size_mib :: "u64 \<Rightarrow> u64" where
  "cache_size_mib image_size = saturating_add (div_ceil image_size mib_bytes) image_cache_headroom_mib"

definition remaining_minimum_mib :: "partition_spec list \<Rightarrow> u64" where
  "remaining_minimum_mib ps =
     (case find (\<lambda>p. part_size_mib p = None) ps of
        None \<Rightarrow> minimum_windows_mib
      | Some p \<Rightarrow> if part_role p = Data then minimum_data_mib else minimum_windows_mib)"

definition validate_capacity ::
  "partition_plan \<Rightarrow> u64 \<Rightarrow> u64 \<Rightarrow> (partition_capacity_error, unit) outcome" where
  "validate_capacity plan disk_bytes image_bytes =
     (let available = disk_bytes div mib_bytes;
          fixed = fixed_sizes_mib (plan_partitions plan);
          cache = cache_size_mib image_bytes;
          minimum = remaining_minimum_mib (plan_partitions plan);
          required = saturating_add (saturating_add (saturating_add fixed cache) minimum)
            partition_alignment_headroom_mib in
      if available < required
      then Err \<lparr> pce_required_mib = required, pce_available_mib = available,
             pce_fixed_mib = fixed, pce_cache_mib = cache,
             pce_remaining_minimum_mib = minimum,
             pce_alignment_headroom_mib = partition_alignment_headroom_mib \<rparr>
      else Ok ())"

definition validate_windows_payload_capacity ::
  "partition_plan \<Rightarrow> u64 \<Rightarrow> u64 \<Rightarrow> u64 \<Rightarrow> (windows_payload_capacity_error, unit) outcome" where
  "validate_windows_payload_capacity plan disk_bytes image_bytes payload_bytes =
     (let ps = plan_partitions plan in
      and_then
        (ok_or (find (\<lambda>p. part_role p = Windows) ps)
           \<lparr> wpe_required_bytes = payload_bytes, wpe_available_bytes = 0 \<rparr>)
        (\<lambda>windows.
           let available = (case part_size_mib windows of
                 Some size_mib \<Rightarrow> saturating_mul size_mib mib_bytes
               | None \<Rightarrow> saturating_mul
                   (saturating_sub (saturating_sub (saturating_sub (disk_bytes div mib_bytes)
                      (fixed_sizes_mib ps)) (cache_size_mib image_bytes))
                      partition_alignment_headroom_mib) mib_bytes) in
           if available < payload_bytes
           then Err \<lparr> wpe_required_bytes = payload_bytes, wpe_available_bytes = available \<rparr>
           else Ok ()))"

section \<open>What validation promises\<close>

text \<open>The declarative reading of a plan: no order of checks, no sorting.\<close>

definition spec_ok :: "partition_spec \<Rightarrow> bool" where
  "spec_ok p =
     (part_size_mib p \<noteq> Some 0 \<and>
      (part_role p = Data \<longrightarrow> part_file_system p = Some Ntfs) \<and>
      length (part_label p) \<le> 32 \<and> list_all label_char_ok (part_label p) \<and>
      (case part_drive_letter p of None \<Rightarrow> True
       | Some l \<Rightarrow> part_role p = Data \<and> assignable_letter (upper_letter l)))"

definition sole_with_file_system ::
  "partition_spec list \<Rightarrow> partition_role \<Rightarrow> partition_file_system option \<Rightarrow> bool" where
  "sole_with_file_system ps r fs =
     (length (of_role r ps) = 1 \<and> list_all (\<lambda>p. part_file_system p = fs) (of_role r ps))"

definition well_formed_plan :: "partition_plan \<Rightarrow> bool" where
  "well_formed_plan plan =
     (let ps = plan_partitions plan; rest = filter (\<lambda>p. part_size_mib p = None) ps in
      length (of_role Windows ps) = 1 \<and>
      length rest = 1 \<and> list_all (\<lambda>p. part_role p \<in> {Windows, Data}) rest \<and>
      list_all spec_ok ps \<and> distinct (plan_letters ps) \<and>
      (case plan_table plan of
         Gpt \<Rightarrow> sole_with_file_system ps Efi (Some Fat32) \<and> sole_with_file_system ps Msr None \<and>
                of_role System ps = []
       | Mbr \<Rightarrow> sole_with_file_system ps System (Some Ntfs) \<and>
                of_role Efi ps = [] \<and> of_role Msr ps = []))"

lemma validate_spec_Ok [simp]: "validate_spec p = Ok u \<longleftrightarrow> spec_ok p"
  by (auto simp: validate_spec_def spec_ok_def list_ex_iff list_all_iff Let_def
      split: option.splits)

lemma validate_spec_no_panic [simp]: "validate_spec p \<noteq> Panic"
  by (simp add: validate_spec_def Let_def split: option.splits)

lemma validate_specs_Ok [simp]: "validate_specs ps = Ok u \<longleftrightarrow> list_all spec_ok ps"
  by (induction ps) (auto simp: outcome_simps)

lemma validate_specs_no_panic [simp]: "validate_specs ps \<noteq> Panic"
  by (induction ps) (auto simp: outcome_simps)

lemma adjacent_equal_sorted: "sorted xs \<Longrightarrow> adjacent_equal xs \<longleftrightarrow> \<not> distinct xs"
  for xs :: "'a::linorder list"
  by (induction xs rule: adjacent_equal.induct) auto

lemma adjacent_equal_sort [simp]: "adjacent_equal (sort xs) \<longleftrightarrow> \<not> distinct xs"
  for xs :: "'a::linorder list"
  by (simp add: adjacent_equal_sorted)

lemma length_1_hd: "length xs = 1 \<Longrightarrow> P (hd xs) \<longleftrightarrow> list_all P xs"
  by (cases xs) auto

lemma require_partition_Ok [simp]:
  "require_partition ps r fs = Ok u \<longleftrightarrow> sole_with_file_system ps r fs"
  by (cases "of_role r ps") (auto simp: require_partition_def sole_with_file_system_def Let_def)

lemma require_partition_no_panic [simp]: "require_partition ps r fs \<noteq> Panic"
  by (simp add: require_partition_def Let_def)

lemma of_role_empty: "of_role r ps = [] \<longleftrightarrow> \<not> list_ex (\<lambda>p. part_role p = r) ps"
  by (induction ps) (auto simp: of_role_def)

lemma validate_table_Ok:
  "validate_table plan = Ok u \<longleftrightarrow>
     (let ps = plan_partitions plan in case plan_table plan of
         Gpt \<Rightarrow> sole_with_file_system ps Efi (Some Fat32) \<and> sole_with_file_system ps Msr None \<and>
                of_role System ps = []
       | Mbr \<Rightarrow> sole_with_file_system ps System (Some Ntfs) \<and>
                of_role Efi ps = [] \<and> of_role Msr ps = [])"
  by (auto simp: validate_table_def outcome_simps Let_def of_role_empty list_ex_iff
      split: partition_table.splits)

lemma validate_table_no_panic [simp]: "validate_table plan \<noteq> Panic"
  by (auto simp: validate_table_def outcome_simps Let_def split: partition_table.splits if_splits)

lemma validate_no_panic [simp]: "validate plan \<noteq> Panic"
  by (auto simp: validate_def outcome_simps Let_def split: if_splits)

lemma validate_Ok_iff: "validate plan = Ok u \<longleftrightarrow> well_formed_plan plan"
proof -
  let ?ps = "plan_partitions plan"
  let ?rest = "filter (\<lambda>p. part_size_mib p = None) ?ps"
  have rest: "(length ?rest = 1 \<and> part_role (hd ?rest) \<in> {Windows, Data}) =
      (length ?rest = 1 \<and> list_all (\<lambda>p. part_role p \<in> {Windows, Data}) ?rest)"
    using length_1_hd [of ?rest "\<lambda>p. part_role p \<in> {Windows, Data}"] by blast
  have ne: "length (of_role Windows ?ps) = 1 \<Longrightarrow> ?ps \<noteq> []" by (auto simp: of_role_def)
  have "validate plan = Ok u \<longleftrightarrow>
      ?ps \<noteq> [] \<and> length (of_role Windows ?ps) = 1 \<and>
      (length ?rest = 1 \<and> part_role (hd ?rest) \<in> {Windows, Data}) \<and>
      list_all spec_ok ?ps \<and> distinct (plan_letters ?ps) \<and> validate_table plan = Ok u"
    by (auto simp: validate_def Let_def outcome_simps)
  then show ?thesis
    unfolding rest using ne
    by (auto simp: well_formed_plan_def validate_table_Ok Let_def)
qed

text \<open>What each reported error says of the plan.\<close>

fun plan_fault :: "partition_plan \<Rightarrow> partition_plan_error \<Rightarrow> bool" where
  "plan_fault plan Plan_Empty = (plan_partitions plan = [])"
| "plan_fault plan (Windows_Partition_Count n) =
     (n = length (of_role Windows (plan_partitions plan)) \<and> n \<noteq> 1)"
| "plan_fault plan Invalid_Remaining_Partition =
     (let rest = filter (\<lambda>p. part_size_mib p = None) (plan_partitions plan) in
      length rest \<noteq> 1 \<or> list_ex (\<lambda>p. part_role p \<notin> {Windows, Data}) rest)"
| "plan_fault plan (Zero_Size r) =
     list_ex (\<lambda>p. part_role p = r \<and> part_size_mib p = Some 0) (plan_partitions plan)"
| "plan_fault plan (Invalid_Label l) =
     (list_ex (\<lambda>p. part_label p = l) (plan_partitions plan) \<and>
      (length l > 32 \<or> list_ex (\<lambda>c. \<not> label_char_ok c) l))"
| "plan_fault plan (Invalid_Drive_Letter u) =
     list_ex (\<lambda>p. map_option upper_letter (part_drive_letter p) = Some u \<and>
       (part_role p \<noteq> Data \<or> \<not> assignable_letter u)) (plan_partitions plan)"
| "plan_fault plan Duplicate_Drive_Letter = (\<not> distinct (plan_letters (plan_partitions plan)))"
| "plan_fault plan (Required_Role_Count r n) =
     (n = length (of_role r (plan_partitions plan)) \<and> n \<noteq> 1 \<and>
      (plan_table plan, r) \<in> {(Gpt, Efi), (Gpt, Msr), (Mbr, System)})"
| "plan_fault plan (Invalid_File_System r) =
     list_ex (\<lambda>p. part_role p = r \<and>
       part_file_system p \<noteq>
         (case r of Efi \<Rightarrow> Some Fat32 | Msr \<Rightarrow> None | _ \<Rightarrow> Some Ntfs)) (plan_partitions plan)"
| "plan_fault plan (Role_Does_Not_Match_Table r t) =
     (plan_table plan = t \<and>
      (case t of Gpt \<Rightarrow> r = System \<and> of_role System (plan_partitions plan) \<noteq> []
       | Mbr \<Rightarrow> r = Efi \<and> of_role Efi (plan_partitions plan) @ of_role Msr (plan_partitions plan) \<noteq> []))"

lemma validate_specs_Err:
  "validate_specs ps = Err e \<Longrightarrow> \<exists>p \<in> set ps. validate_spec p = Err e"
  by (induction ps) (auto simp: outcome_simps)

lemma validate_spec_fault:
  "validate_spec p = Err e \<Longrightarrow> p \<in> set (plan_partitions plan) \<Longrightarrow> plan_fault plan e"
  by (auto simp: validate_spec_def list_ex_iff Let_def split: if_splits option.splits
      intro!: bexI [of _ p])

lemma require_partition_fault:
  assumes "require_partition (plan_partitions plan) r fs = Err e"
    and "(plan_table plan, r, fs) \<in> {(Gpt, Efi, Some Fat32), (Gpt, Msr, None), (Mbr, System, Some Ntfs)}"
  shows "plan_fault plan e"
proof (cases "length (of_role r (plan_partitions plan)) = 1")
  case True
  then obtain p where p: "of_role r (plan_partitions plan) = [p]"
    by (cases "of_role r (plan_partitions plan)") auto
  then have "p \<in> set (plan_partitions plan)" "part_role p = r"
    by (auto simp: of_role_def filter_eq_Cons_iff)
  moreover from p assms(1) have "part_file_system p \<noteq> fs" "e = Invalid_File_System r"
    by (auto simp: require_partition_def split: if_splits)
  ultimately show ?thesis using assms(2) by (auto simp: list_ex_iff)
next
  case False
  with assms show ?thesis by (auto simp: require_partition_def Let_def)
qed

lemma validate_table_fault: "validate_table plan = Err e \<Longrightarrow> plan_fault plan e"
  by (cases "plan_table plan")
    (auto simp: validate_table_def outcome_simps Let_def of_role_empty list_ex_iff
      dest: require_partition_fault split: if_splits)

lemma hd_filter_fault:
  "length (filter P xs) = Suc 0 \<Longrightarrow> \<not> Q (hd (filter P xs)) \<Longrightarrow> \<exists>x \<in> set xs. P x \<and> \<not> Q x"
  by (metis (mono_tags, lifting) filter_is_subset hd_in_set length_0_conv mem_Collect_eq
      nat.distinct(1) set_filter subsetD)

lemma validate_fault: "validate plan = Err e \<Longrightarrow> plan_fault plan e"
  using hd_filter_fault [of "\<lambda>p. part_size_mib p = None" "plan_partitions plan"
      "\<lambda>p. part_role p = Windows \<or> part_role p = Data"]
  by (auto simp: validate_def outcome_simps Let_def list_ex_iff split: if_splits
      dest: validate_table_fault dest!: validate_specs_Err intro: validate_spec_fault)

text \<open>
  C29.  Validation of a partition plan is total and decides well-formedness: it
  accepts exactly the well-formed plans, and the error it reports for another
  plan is true of that plan.
\<close>

theorem validate_decides_well_formed:
  "case validate plan of
     Ok _ \<Rightarrow> well_formed_plan plan
   | Err e \<Rightarrow> \<not> well_formed_plan plan \<and> plan_fault plan e
   | Panic \<Rightarrow> False"
proof (cases "validate plan")
  case (Ok u)
  then show ?thesis using validate_Ok_iff [of plan u] by simp
next
  case (Err e)
  moreover have "\<not> well_formed_plan plan"
    using Err validate_Ok_iff [of plan "()"] by auto
  ultimately show ?thesis by (simp add: validate_fault)
qed simp

section \<open>What the capacity checks promise\<close>

lemma unat_mib_bytes [simp]: "unat mib_bytes = 1048576"
  by (simp add: mib_bytes_def)

lemma mib_bytes_nonzero [simp]: "mib_bytes \<noteq> 0"
  by (simp add: mib_bytes_def)

lemma unat_headrooms [simp]:
  "unat image_cache_headroom_mib = 512" "unat partition_alignment_headroom_mib = 32"
  "unat minimum_windows_mib = 20480" "unat minimum_data_mib = 1024"
  by (simp_all add: image_cache_headroom_mib_def partition_alignment_headroom_mib_def
      minimum_windows_mib_def minimum_data_mib_def)

lemma unat_u64_le: "unat x \<le> 18446744073709551615" for x :: u64
  using unsigned_less [of x, where 'a = nat] by simp

lemma unat_foldl_saturating_add:
  "unat (foldl saturating_add a xs) = min (unat a + sum_list (map unat xs)) 18446744073709551615"
  for a :: u64
proof (induction xs arbitrary: a)
  case Nil
  then show ?case using unat_u64_le [of a] by simp
next
  case (Cons x xs)
  then show ?case by (simp add: word_nat min_def)
qed

text \<open>The fixed sizes of a plan and the cache of an image, in MiB, as numbers.\<close>

definition fixed_total :: "partition_spec list \<Rightarrow> nat" where
  "fixed_total ps = sum_list (map unat (List.map_filter part_size_mib ps))"

definition cache_total :: "u64 \<Rightarrow> nat" where
  "cache_total img = (unat img + 1048575) div 1048576 + 512"

lemma unat_fixed_sizes [word_nat]:
  "unat (fixed_sizes_mib ps) = min (fixed_total ps) 18446744073709551615"
  by (simp add: fixed_sizes_mib_def fixed_total_def unat_foldl_saturating_add)

lemma cache_total_bound: "cache_total img \<le> 17592186044928"
  using unat_u64_le [of img] by (simp add: cache_total_def div_le_mono)

lemma unat_cache_size [word_nat]: "unat (cache_size_mib img) = cache_total img"
  using cache_total_bound [of img]
  by (simp add: cache_size_mib_def word_nat cache_total_def)

lemma unat_remaining_minimum:
  "unat (remaining_minimum_mib ps) \<in> {1024, 20480}"
  by (simp add: remaining_minimum_mib_def split: option.splits)

lemma unat_disk_mib: "unat (d div mib_bytes) = unat d div 1048576"
  by (simp add: unat_div)

lemma disk_mib_bound: "unat d div 1048576 \<le> 17592186044415" for d :: u64
  using div_le_mono [OF unat_u64_le [of d], of 1048576] by simp

lemma validate_capacity_Ok:
  "validate_capacity plan d img = Ok u \<longleftrightarrow>
     fixed_total (plan_partitions plan) + cache_total img +
       unat (remaining_minimum_mib (plan_partitions plan)) + 32 \<le> unat d div 1048576"
proof -
  let ?ps = "plan_partitions plan"
  let ?f = "fixed_total ?ps" and ?c = "cache_total img"
    and ?m = "unat (remaining_minimum_mib ?ps)" and ?d = "unat d div 1048576"
  let ?required = "saturating_add (saturating_add (saturating_add (fixed_sizes_mib ?ps)
      (cache_size_mib img)) (remaining_minimum_mib ?ps)) partition_alignment_headroom_mib"
  have "unat ?required = min (?f + ?c + ?m + 32) 18446744073709551615"
    by (simp add: word_nat min_def)
  then have "\<not> d div mib_bytes < ?required \<longleftrightarrow> ?f + ?c + ?m + 32 \<le> ?d"
    using disk_mib_bound [of d] by (simp add: word_less_nat_alt unat_disk_mib not_less min_def)
  then show ?thesis
    by (auto simp: validate_capacity_def Let_def)
qed

text \<open>
  No saturation of the 64-bit sums changes the capacity check: for every
  plan, disk and image it accepts exactly when the fixed sizes, the image cache
  (rounded up, with 512 MiB of headroom), the minimum of the open partition and
  the 32 MiB alignment reserve, added as numbers, fit into the disk's MiB.
\<close>

theorem capacity_check_exact:
  "is_ok (validate_capacity plan d img) \<longleftrightarrow>
     fixed_total (plan_partitions plan) + ((unat img + 1048575) div 1048576 + 512) +
       unat (remaining_minimum_mib (plan_partitions plan)) + 32 \<le> unat d div 1048576"
  using validate_capacity_Ok [of plan d img] by (simp add: is_ok_iff cache_total_def)

lemma payload_mib_fits: "p \<le> n * 1048576 \<longleftrightarrow> p \<le> min (n * 1048576) 18446744073709551615"
  if "p \<le> 18446744073709551615" for p n :: nat
  using that by simp

text \<open>
  The raw payload check accepts exactly the payloads that fit into the
  Windows volume: its own size when the plan fixes one, else what the disk
  leaves after the fixed partitions, the image cache and the alignment reserve.
  A plan without a Windows partition accepts no payload.
\<close>

theorem payload_check_exact:
  "is_ok (validate_windows_payload_capacity plan d img payload) \<longleftrightarrow>
     (case find (\<lambda>p. part_role p = Windows) (plan_partitions plan) of
        None \<Rightarrow> False
      | Some w \<Rightarrow> unat payload \<le> 1048576 *
          (case part_size_mib w of
             Some size_mib \<Rightarrow> unat size_mib
           | None \<Rightarrow> unat d div 1048576 - fixed_total (plan_partitions plan)
                     - cache_total img - 32))"
proof (cases "find (\<lambda>p. part_role p = Windows) (plan_partitions plan)")
  case None
  then show ?thesis by (simp add: validate_windows_payload_capacity_def)
next
  case (Some w)
  have fixed: "unat d div 1048576 - min (fixed_total ps) 18446744073709551615 =
      unat d div 1048576 - fixed_total ps" for ps
    using disk_mib_bound [of d] by (simp add: min_def)
  show ?thesis
    using Some unat_u64_le [of payload]
    by (auto simp: validate_windows_payload_capacity_def Let_def is_ok_iff word_nat fixed
        word_less_nat_alt unat_disk_mib mult.commute split: option.splits)
qed

section \<open>The recommended plans\<close>

lemma uefi_gpt_valid: "validate uefi_gpt = Ok ()"
  by (simp add: validate_Ok_iff well_formed_plan_def uefi_gpt_def sole_with_file_system_def
      of_role_def spec_ok_def plan_letters_def label_char_ok_def is_alnum_def is_digit_def
      is_upper_def is_lower_def byte_def List.map_filter_def)

lemma legacy_bios_mbr_valid: "validate legacy_bios_mbr = Ok ()"
  by (simp add: validate_Ok_iff well_formed_plan_def legacy_bios_mbr_def sole_with_file_system_def
      of_role_def spec_ok_def plan_letters_def label_char_ok_def is_alnum_def is_digit_def
      is_upper_def is_lower_def byte_def List.map_filter_def)

lemma recommended_valid: "recommended m = Some plan \<Longrightarrow> validate plan = Ok ()"
  by (cases m) (auto simp: uefi_gpt_valid legacy_bios_mbr_valid)

end
