(* ===== verification/Deployment_Job.thy ===== *)
theory Deployment_Job
  imports Job_Lifecycle Partition_Plan Linux_Install
begin

text \<open>
  Deployment jobs as the service stores them and the clients see them
  (\<open>crates/core/src/job.rs\<close>): targets with the fingerprint of the selected
  disk, options, stages, jobs, and the lease, progress and completion messages
  of an agent.
\<close>

record deployment_target =
  tgt_device_id :: uuid
  tgt_disk_id :: string
  tgt_disk_model :: string
  tgt_disk_serial :: "string option"
  tgt_disk_size_bytes :: u64

definition capacity_tolerance_bytes :: u64 where
  "capacity_tolerance_bytes = 1024 * 1024"

definition matches_disk :: "deployment_target \<Rightarrow> disk \<Rightarrow> bool" where
  "matches_disk t d =
     (eq_ignore_case (disk_id d) (trim (tgt_disk_id t)) \<and>
      eq_ignore_case (trim (disk_model d)) (trim (tgt_disk_model t)) \<and>
      abs_diff (disk_size_bytes d) (tgt_disk_size_bytes t) \<le> capacity_tolerance_bytes \<and>
      (case tgt_disk_serial t of
         None \<Rightarrow> True
       | Some expected \<Rightarrow>
           (case disk_serial d of
              None \<Rightarrow> False
            | Some actual \<Rightarrow> eq_ignore_case (trim actual) (trim expected))))"

record deployment_options =
  opt_image_index :: u32
  opt_partition_plan :: partition_plan
  opt_linux_install :: "linux_install_options option"

definition default_options :: deployment_options where
  "default_options = \<lparr> opt_image_index = 1, opt_partition_plan = legacy_bios_mbr,
     opt_linux_install = None \<rparr>"

datatype deployment_stage =
    Preflight
  | Booting_Installer
  | Validating_Target
  | Partitioning
  | Downloading_Image
  | Applying_Image
  | Installing_System
  | Configuring_Boot
  | Finalizing
  | Awaiting_First_Boot
  | Rebooting

record deployment_job =
  job_id :: uuid
  job_name :: string
  job_operation :: operation
  job_image_id :: uuid
  job_targets :: "deployment_target list"
  job_options :: deployment_options
  job_state :: job_state
  job_stage :: "deployment_stage option"
  job_progress_percent :: u8
  job_status_message :: "string option"
  job_error_message :: "string option"
  job_lease_id :: "uuid option"
  job_lease_expires_at :: "instant option"
  job_created_at :: instant
  job_updated_at :: instant

record create_deployment_job =
  req_name :: string
  req_operation :: operation
  req_image_id :: uuid
  req_targets :: "deployment_target list"
  req_options :: deployment_options

record agent_deployment_image =
  adi_id :: uuid
  adi_name :: string
  adi_format :: image_format
  adi_size_bytes :: u64
  adi_sha256 :: string
  adi_download_url :: string
  adi_index :: u32

record agent_gho_deployment =
  agd_source_partition :: u32
  agd_expanded_size_bytes :: u64
  agd_expanded_sha256 :: string
  agd_parser_version :: u32

record agent_job_lease =
  ajl_job_id :: uuid
  ajl_lease_id :: uuid
  ajl_expires_at :: instant
  ajl_operation :: operation
  ajl_image :: agent_deployment_image
  ajl_target :: deployment_target
  ajl_partition_plan :: partition_plan
  ajl_gho :: "agent_gho_deployment option"

record agent_job_progress =
  ajp_lease_id :: uuid
  ajp_stage :: deployment_stage
  ajp_progress_percent :: u8
  ajp_message :: "string option"

record agent_job_completion =
  ajc_lease_id :: uuid
  ajc_succeeded :: bool
  ajc_error_message :: "string option"

lemma matches_disk_size:
  "matches_disk t d \<Longrightarrow>
     unat (disk_size_bytes d) \<le> unat (tgt_disk_size_bytes t) + 1048576 \<and>
     unat (tgt_disk_size_bytes t) \<le> unat (disk_size_bytes d) + 1048576"
  by (auto simp: matches_disk_def capacity_tolerance_bytes_def word_le_nat_alt word_nat
      split: if_splits)

lemma matches_disk_serial:
  "matches_disk t d \<Longrightarrow> tgt_disk_serial t = Some e \<Longrightarrow>
     \<exists>a. disk_serial d = Some a \<and> eq_ignore_case (trim a) (trim e)"
  by (auto simp: matches_disk_def split: option.splits)

end
