(* ===== verification/Job_Repository.thy ===== *)
theory Job_Repository
  imports Durable_Store Deployment_Job
begin

text \<open>
  The repository of deployment jobs (\<open>crates/service/src/job_repository.rs\<close>).
  Its state is the vector of jobs behind the lock and the manifest file.  An
  operation takes the readings of the clock it makes as \<open>clk 0\<close>, \<open>clk 1\<close>, \<dots> in
  the order of the calls, the identifier \<open>Uuid::new_v4\<close> gives it, and the
  result of writing the manifest; it returns its outcome and the next state.
  Every operation holds the lock throughout, so a history of the repository is
  a sequence of operations; no operation panics (proved below), so the lock is
  never poisoned.
\<close>

datatype job_repository_error =
    Missing_Name
  | Missing_Targets
  | Requires_Single_Target
  | Target_Already_Has_Job uuid
  | Invalid_Image_Index
  | Incomplete_Disk_Fingerprint string
  | Invalid_Partition_Plan partition_plan_error
  | Job_Not_Found uuid
  | Not_Terminal
  | Invalid_Lease
  | Wrong_Device uuid
  | Invalid_Progress
  | Wrong_Execution_Protocol
  | Missing_Linux_Install_Options
  | Unexpected_Linux_Install_Options
  | Missing_Linux_Target_Serial
  | Invalid_Linux_Install_Options linux_install_options_error
  | Installer_Handoff_Unavailable
  | Installer_Control_Unavailable
  | Installer_Progress_Regression
  | Job_Lock_Poisoned
  | Invalid_Transition job_transition_error
  | Job_Read_Error
  | Job_Write_Error
  | Invalid_Job_Manifest

record job_manifest =
  jm_schema_version :: u32
  jm_jobs :: "deployment_job list"

record job_repository =
  jr_manifest :: "job_manifest stored"
  jr_jobs :: "deployment_job list"

definition job_manifest_of :: "deployment_job list \<Rightarrow> job_manifest" where
  "job_manifest_of jobs = \<lparr> jm_schema_version = 1, jm_jobs = jobs \<rparr>"

definition open_jobs ::
  "job_manifest codec \<Rightarrow> file_access \<Rightarrow> job_manifest stored \<Rightarrow>
   (job_repository_error, job_repository) outcome" where
  "open_jobs c io file =
     and_then (ensure (fa_directory io) Job_Write_Error) (\<lambda>_.
     and_then (load_document c io file Job_Read_Error Invalid_Job_Manifest) (\<lambda>manifest.
       Ok \<lparr> jr_manifest = file,
            jr_jobs = (case manifest of None \<Rightarrow> [] | Some m \<Rightarrow> jm_jobs m) \<rparr>))"

section \<open>Queries\<close>

definition list_jobs :: "job_repository \<Rightarrow> deployment_job list" where
  "list_jobs repo = sort_key (\<lambda>j. - job_created_at j) (jr_jobs repo)"

definition queued_count :: "job_repository \<Rightarrow> u32" where
  "queued_count repo =
     (let n = length (filter (\<lambda>j. job_state j = Waiting) (jr_jobs repo)) in
      if n < 2 ^ 32 then of_nat n else - 1)"

definition references_image :: "job_repository \<Rightarrow> uuid \<Rightarrow> bool" where
  "references_image repo i = list_ex (\<lambda>j. job_image_id j = i) (jr_jobs repo)"

definition targets_device :: "deployment_job \<Rightarrow> uuid \<Rightarrow> bool" where
  "targets_device j d = list_ex (\<lambda>t. tgt_device_id t = d) (job_targets j)"

definition occupies :: "uuid \<Rightarrow> deployment_job \<Rightarrow> bool" where
  "occupies d j = (\<not> is_terminal (job_state j) \<and> targets_device j d)"

definition references_device :: "job_repository \<Rightarrow> uuid \<Rightarrow> bool" where
  "references_device repo d = list_ex (occupies d) (jr_jobs repo)"

section \<open>Persisting\<close>

text \<open>
  \<open>self.persist(&next_jobs)?; *jobs = next_jobs; Ok(v)\<close>: the memory follows only
  when the manifest was written.
\<close>

definition commit_jobs ::
  "job_manifest write_result \<Rightarrow> job_repository \<Rightarrow> deployment_job list \<Rightarrow> 'a \<Rightarrow>
   (job_repository_error, 'a) outcome \<times> job_repository" where
  "commit_jobs w repo next v =
     (let file = file_after w (job_manifest_of next) in
      case w of
        Written \<Rightarrow> (Ok v, repo\<lparr> jr_manifest := file, jr_jobs := next \<rparr>)
      | Write_Failed _ \<Rightarrow> (Err Job_Write_Error, repo\<lparr> jr_manifest := file \<rparr>))"

text \<open>
  The frame of every operation on one job: clone, find the job by identifier,
  let \<open>f\<close> guard and change it, persist, replace.
\<close>

definition modify_job ::
  "uuid \<Rightarrow> (deployment_job \<Rightarrow> (job_repository_error, deployment_job) outcome) \<Rightarrow>
   job_manifest write_result \<Rightarrow> job_repository \<Rightarrow>
   (job_repository_error, deployment_job) outcome \<times> job_repository" where
  "modify_job i f w repo =
     (case find (\<lambda>j. job_id j = i) (jr_jobs repo) of
        None \<Rightarrow> (Err (Job_Not_Found i), repo)
      | Some j \<Rightarrow>
          (case f j of
             Ok j' \<Rightarrow> commit_jobs w repo (update_first (\<lambda>j. job_id j = i) (\<lambda>_. j') (jr_jobs repo)) j'
           | Err e \<Rightarrow> (Err e, repo)
           | Panic \<Rightarrow> (Panic, repo)))"

section \<open>Creation and removal\<close>

definition fingerprint_incomplete :: "deployment_target \<Rightarrow> bool" where
  "fingerprint_incomplete t =
     (trim (tgt_disk_id t) = [] \<or> trim (tgt_disk_model t) = [] \<or> tgt_disk_size_bytes t = 0)"

definition serial_missing :: "deployment_target \<Rightarrow> bool" where
  "serial_missing t = (case tgt_disk_serial t of None \<Rightarrow> True | Some s \<Rightarrow> trim s = [])"

definition validate_request :: "create_deployment_job \<Rightarrow> (job_repository_error, unit) outcome" where
  "validate_request req =
     (if trim (req_name req) = [] then Err Missing_Name
      else if req_targets req = [] then Err Missing_Targets
      else
        and_then
          (if req_operation req = Install_Linux then
             and_then (ok_or (opt_linux_install (req_options req)) Missing_Linux_Install_Options)
               (\<lambda>opts. map_err Invalid_Linux_Install_Options (validate_linux_options opts))
           else if opt_linux_install (req_options req) \<noteq> None then Err Unexpected_Linux_Install_Options
           else if opt_image_index (req_options req) = 0 then Err Invalid_Image_Index
           else map_err Invalid_Partition_Plan (validate (opt_partition_plan (req_options req))))
          (\<lambda>_.
            case find fingerprint_incomplete (req_targets req) of
              Some t \<Rightarrow> Err (Incomplete_Disk_Fingerprint (tgt_disk_id t))
            | None \<Rightarrow>
                if req_operation req = Install_Linux \<and> list_ex serial_missing (req_targets req)
                then Err Missing_Linux_Target_Serial else Ok ()))"

definition new_job :: "create_deployment_job \<Rightarrow> job_state \<Rightarrow> uuid \<Rightarrow> instant \<Rightarrow> deployment_job" where
  "new_job req s fresh now =
     \<lparr> job_id = fresh, job_name = trim (req_name req), job_operation = req_operation req,
       job_image_id = req_image_id req, job_targets = req_targets req,
       job_options = req_options req, job_state = s, job_stage = None,
       job_progress_percent = 0, job_status_message = None, job_error_message = None,
       job_lease_id = None, job_lease_expires_at = None,
       job_created_at = now, job_updated_at = now \<rparr>"

definition insert_job ::
  "create_deployment_job \<Rightarrow> job_state \<Rightarrow> uuid \<Rightarrow> (nat \<Rightarrow> instant) \<Rightarrow> job_manifest write_result \<Rightarrow>
   job_repository \<Rightarrow> (job_repository_error, deployment_job) outcome \<times> job_repository" where
  "insert_job req s fresh clk w repo =
     (case validate_request req of
        Err e \<Rightarrow> (Err e, repo)
      | Panic \<Rightarrow> (Panic, repo)
      | Ok _ \<Rightarrow>
          if length (req_targets req) \<noteq> 1 then (Err Requires_Single_Target, repo)
          else
            let job = new_job req s fresh (clk 0);
                d = tgt_device_id (hd (job_targets job)) in
            if list_ex (occupies d) (jr_jobs repo) then (Err (Target_Already_Has_Job d), repo)
            else commit_jobs w repo (jr_jobs repo @ [job]) job)"

definition create_job where
  "create_job req = insert_job req Draft"

definition enqueue_job where
  "enqueue_job req = insert_job req Waiting"

definition remove_job ::
  "uuid \<Rightarrow> job_manifest write_result \<Rightarrow> job_repository \<Rightarrow>
   (job_repository_error, bool) outcome \<times> job_repository" where
  "remove_job i w repo =
     (case find (\<lambda>j. job_id j = i) (jr_jobs repo) of
        None \<Rightarrow> (Ok False, repo)
      | Some j \<Rightarrow>
          if job_state j \<notin> {Succeeded, Failed, Cancelled} then (Err Not_Terminal, repo)
          else commit_jobs w repo (filter (\<lambda>j. job_id j \<noteq> i) (jr_jobs repo)) True)"

section \<open>Host transitions\<close>

definition installer_controlled :: "deployment_job \<Rightarrow> job_state \<Rightarrow> bool" where
  "installer_controlled j next =
     (job_operation j = Install_Linux \<and>
      ((job_state j = Waiting \<and> next = Running) \<or>
       (job_state j \<in> {Running, Paused} \<and> next \<noteq> Failed)))"

definition apply_transition ::
  "job_state \<Rightarrow> instant \<Rightarrow> deployment_job \<Rightarrow> (job_repository_error, deployment_job) outcome" where
  "apply_transition next now j =
     (if installer_controlled j next then Err Installer_Control_Unavailable
      else and_then (map_err Invalid_Transition (transition (job_state j) next))
        (\<lambda>s. let j1 = j\<lparr> job_state := s, job_updated_at := now \<rparr> in
           Ok (if next = Succeeded
               then j1\<lparr> job_progress_percent := 100, job_status_message := None,
                        job_error_message := None \<rparr>
               else j1)))"

definition transition_job where
  "transition_job i next clk = modify_job i (apply_transition next (clk (0 :: nat)))"

section \<open>Agent leases\<close>

definition agent_eligible :: "uuid \<Rightarrow> instant \<Rightarrow> (deployment_job \<Rightarrow> bool) \<Rightarrow> deployment_job \<Rightarrow> bool" where
  "agent_eligible d now is_eligible j =
     (job_operation j \<noteq> Install_Linux \<and>
      (job_state j = Waiting \<or>
       (job_state j = Running \<and>
        (case job_lease_expires_at j of None \<Rightarrow> False | Some x \<Rightarrow> x < now))) \<and>
      length (job_targets j) = 1 \<and> tgt_device_id (hd (job_targets j)) = d \<and> is_eligible j)"

definition apply_agent_lease ::
  "instant \<Rightarrow> int \<Rightarrow> uuid \<Rightarrow> deployment_job \<Rightarrow> (job_repository_error, deployment_job) outcome" where
  "apply_agent_lease now duration fresh j =
     and_then
       (if job_state j = Waiting then map_err Invalid_Transition (transition (job_state j) Running)
        else Ok (job_state j))
       (\<lambda>s. Ok (j\<lparr> job_state := s, job_stage := Some Preflight, job_progress_percent := 0,
          job_status_message := Some ''Agent claimed deployment task'',
          job_error_message := None, job_lease_id := Some fresh,
          job_lease_expires_at := Some (now + duration), job_updated_at := now \<rparr>))"

definition lease_for_device_if ::
  "uuid \<Rightarrow> int \<Rightarrow> (deployment_job \<Rightarrow> bool) \<Rightarrow> uuid \<Rightarrow> (nat \<Rightarrow> instant) \<Rightarrow> job_manifest write_result \<Rightarrow>
   job_repository \<Rightarrow> (job_repository_error, deployment_job option) outcome \<times> job_repository" where
  "lease_for_device_if d duration is_eligible fresh clk w repo =
     (let now = clk 0; P = agent_eligible d now is_eligible in
      case find P (jr_jobs repo) of
        None \<Rightarrow> (Ok None, repo)
      | Some j \<Rightarrow>
          (case apply_agent_lease now duration fresh j of
             Ok j' \<Rightarrow> commit_jobs w repo (update_first P (\<lambda>_. j') (jr_jobs repo)) (Some j')
           | Err e \<Rightarrow> (Err e, repo)
           | Panic \<Rightarrow> (Panic, repo)))"

definition lease_for_device where
  "lease_for_device d duration = lease_for_device_if d duration (\<lambda>_. True)"

definition clean_message :: "nat \<Rightarrow> string option \<Rightarrow> string option" where
  "clean_message n m = (case m of None \<Rightarrow> None | Some v \<Rightarrow> non_empty (take_chars n (trim v)))"

definition or_else :: "'a option \<Rightarrow> 'a option \<Rightarrow> 'a option" where
  "or_else a b = (case a of None \<Rightarrow> b | Some x \<Rightarrow> Some x)"

definition extend_lease :: "instant option \<Rightarrow> instant \<Rightarrow> instant option" where
  "extend_lease current until = Some (case current of None \<Rightarrow> until | Some c \<Rightarrow> max c until)"

definition lease_expired :: "instant option \<Rightarrow> instant \<Rightarrow> bool" where
  "lease_expired x now = (case x of None \<Rightarrow> True | Some e \<Rightarrow> e < now)"

text \<open>The guards of \<open>update_leased_job\<close> and \<open>authorized_lease\<close>.\<close>

definition agent_guard ::
  "uuid \<Rightarrow> uuid \<Rightarrow> instant \<Rightarrow> deployment_job \<Rightarrow> (job_repository_error, unit) outcome" where
  "agent_guard d lease now j =
     (if job_operation j = Install_Linux then Err Wrong_Execution_Protocol
      else if \<not> targets_device j d then Err (Wrong_Device d)
      else if job_state j \<notin> {Running, Paused} \<or> job_lease_id j \<noteq> Some lease \<or>
              lease_expired (job_lease_expires_at j) now
        then Err Invalid_Lease
      else Ok ())"

definition update_leased_job ::
  "uuid \<Rightarrow> uuid \<Rightarrow> uuid \<Rightarrow>
   (deployment_job \<Rightarrow> (job_repository_error, deployment_job) outcome) \<Rightarrow> instant \<Rightarrow> instant \<Rightarrow>
   job_manifest write_result \<Rightarrow> job_repository \<Rightarrow>
   (job_repository_error, deployment_job) outcome \<times> job_repository" where
  "update_leased_job i d lease f now later =
     modify_job i (\<lambda>j. and_then (agent_guard d lease now j) (\<lambda>_.
       map_ok (\<lambda>j'. j'\<lparr> job_updated_at := later \<rparr>) (f j)))"

definition apply_progress ::
  "deployment_stage \<Rightarrow> u8 \<Rightarrow> string option \<Rightarrow> instant \<Rightarrow> deployment_job \<Rightarrow> deployment_job" where
  "apply_progress stage pct msg until j =
     j\<lparr> job_stage := Some stage, job_progress_percent := pct,
        job_status_message := clean_message 512 msg,
        job_lease_expires_at := extend_lease (job_lease_expires_at j) until \<rparr>"

definition report_progress ::
  "uuid \<Rightarrow> uuid \<Rightarrow> int \<Rightarrow> agent_job_progress \<Rightarrow> (nat \<Rightarrow> instant) \<Rightarrow> job_manifest write_result \<Rightarrow>
   job_repository \<Rightarrow> (job_repository_error, deployment_job) outcome \<times> job_repository" where
  "report_progress i d duration p clk w repo =
     (if ajp_progress_percent p > 100 then (Err Invalid_Progress, repo)
      else
        let until = clk 0 + duration in
        update_leased_job i d (ajp_lease_id p)
          (\<lambda>j. Ok (apply_progress (ajp_stage p) (ajp_progress_percent p) (ajp_message p) until j))
          (clk 1) (clk 2) w repo)"

definition authorized_lease ::
  "uuid \<Rightarrow> uuid \<Rightarrow> uuid \<Rightarrow> instant \<Rightarrow> job_repository \<Rightarrow> (job_repository_error, deployment_job) outcome" where
  "authorized_lease i d lease now repo =
     and_then (ok_or (find (\<lambda>j. job_id j = i) (jr_jobs repo)) (Job_Not_Found i))
       (\<lambda>j. and_then (agent_guard d lease now j) (\<lambda>_. Ok j))"

text \<open>The \<open>expect\<close> of \<open>complete\<close> makes a refused transition a panic.\<close>

fun expect_ok :: "('e, 'a) outcome \<Rightarrow> ('f, 'a) outcome" where
  "expect_ok (Ok x) = Ok x"
| "expect_ok (Err e) = Panic"
| "expect_ok Panic = Panic"

definition apply_completion ::
  "bool \<Rightarrow> string option \<Rightarrow> deployment_job \<Rightarrow> (job_repository_error, deployment_job) outcome" where
  "apply_completion succeeded msg j =
     and_then (expect_ok (transition (job_state j) (if succeeded then Succeeded else Failed)))
       (\<lambda>s. let j1 = j\<lparr> job_state := s \<rparr>;
                j2 = (if succeeded
                  then j1\<lparr> job_progress_percent := 100,
                      job_status_message := Some ''Deployment completed'', job_error_message := None \<rparr>
                  else j1\<lparr> job_status_message := None,
                      job_error_message := or_else (clean_message 2048 msg)
                        (Some ''Agent reported deployment failure'') \<rparr>) in
            Ok (j2\<lparr> job_lease_id := None, job_lease_expires_at := None \<rparr>))"

definition complete_job ::
  "uuid \<Rightarrow> uuid \<Rightarrow> uuid \<Rightarrow> bool \<Rightarrow> string option \<Rightarrow> (nat \<Rightarrow> instant) \<Rightarrow> job_manifest write_result \<Rightarrow>
   job_repository \<Rightarrow> (job_repository_error, deployment_job) outcome \<times> job_repository" where
  "complete_job i d lease succeeded msg clk =
     update_leased_job i d lease (apply_completion succeeded msg) (clk 0) (clk 1)"

definition renew_control_lease ::
  "uuid \<Rightarrow> uuid \<Rightarrow> uuid \<Rightarrow> int \<Rightarrow> (nat \<Rightarrow> instant) \<Rightarrow> job_manifest write_result \<Rightarrow>
   job_repository \<Rightarrow> (job_repository_error, job_state) outcome \<times> job_repository" where
  "renew_control_lease i d lease duration clk w repo =
     (case find (\<lambda>j. job_id j = i) (jr_jobs repo) of
        None \<Rightarrow> (Err (Job_Not_Found i), repo)
      | Some j \<Rightarrow>
          if job_operation j = Install_Linux then (Err Wrong_Execution_Protocol, repo)
          else if \<not> targets_device j d then (Err (Wrong_Device d), repo)
          else if job_state j \<notin> {Running, Paused} \<or> job_lease_id j \<noteq> Some lease
            then (Err Invalid_Lease, repo)
          else let now = clk 0 in
            if (case job_lease_expires_at j of None \<Rightarrow> False | Some x \<Rightarrow> x \<ge> now + duration div 2)
            then (Ok (job_state j), repo)
            else commit_jobs w repo
              (update_first (\<lambda>j. job_id j = i)
                 (\<lambda>j. j\<lparr> job_lease_expires_at := Some (now + duration) \<rparr>) (jr_jobs repo))
              (job_state j))"

section \<open>The Linux installer's protocol\<close>

definition handoff_guard ::
  "uuid \<Rightarrow> uuid \<Rightarrow> deployment_job \<Rightarrow> (job_repository_error, unit) outcome" where
  "handoff_guard d i j =
     (if job_operation j \<noteq> Install_Linux then Err Wrong_Execution_Protocol
      else if job_state j \<noteq> Waiting \<or> job_image_id j \<noteq> i \<or> length (job_targets j) \<noteq> 1 \<or>
              tgt_device_id (hd (job_targets j)) \<noteq> d
        then Err Installer_Handoff_Unavailable
      else Ok ())"

definition mark_installer_booting where
  "mark_installer_booting i d img clk =
     modify_job i (\<lambda>j. and_then (handoff_guard d img j) (\<lambda>_.
       Ok (j\<lparr> job_stage := Some Booting_Installer,
         job_status_message :=
           Some ''Linux installer is booting; destructive work is not authorized'',
         job_error_message := None, job_updated_at := clk (0 :: nat) \<rparr>)))"

definition apply_installer_lease ::
  "instant \<Rightarrow> int \<Rightarrow> uuid \<Rightarrow> deployment_job \<Rightarrow> (job_repository_error, deployment_job) outcome" where
  "apply_installer_lease now duration fresh j =
     and_then (map_err Invalid_Transition (transition (job_state j) Running))
       (\<lambda>s. Ok (j\<lparr> job_state := s, job_stage := Some Validating_Target, job_progress_percent := 1,
          job_status_message := Some ''Linux installer target guard authorized'',
          job_error_message := None, job_lease_id := Some fresh,
          job_lease_expires_at := Some (now + duration), job_updated_at := now \<rparr>))"

definition lease_installer_job where
  "lease_installer_job i d img duration fresh clk =
     modify_job i (\<lambda>j. and_then (handoff_guard d img j) (\<lambda>_.
       apply_installer_lease (clk (0 :: nat)) duration fresh j))"

fun installer_stage_rank :: "deployment_stage \<Rightarrow> nat" where
  "installer_stage_rank Preflight = 0"
| "installer_stage_rank Booting_Installer = 1"
| "installer_stage_rank Downloading_Image = 2"
| "installer_stage_rank Validating_Target = 3"
| "installer_stage_rank Partitioning = 4"
| "installer_stage_rank Applying_Image = 5"
| "installer_stage_rank Installing_System = 5"
| "installer_stage_rank Configuring_Boot = 6"
| "installer_stage_rank Finalizing = 7"
| "installer_stage_rank Rebooting = 8"
| "installer_stage_rank Awaiting_First_Boot = 9"

definition installer_guard ::
  "uuid \<Rightarrow> uuid \<Rightarrow> instant \<Rightarrow> deployment_job \<Rightarrow> (job_repository_error, unit) outcome" where
  "installer_guard d lease now j =
     (if job_operation j \<noteq> Install_Linux then Err Wrong_Execution_Protocol
      else if length (job_targets j) \<noteq> 1 \<or> tgt_device_id (hd (job_targets j)) \<noteq> d
        then Err (Wrong_Device d)
      else if job_state j \<noteq> Running \<or> job_lease_id j \<noteq> Some lease \<or>
              lease_expired (job_lease_expires_at j) now
        then Err Invalid_Lease
      else Ok ())"

definition update_installer_job ::
  "uuid \<Rightarrow> uuid \<Rightarrow> uuid \<Rightarrow>
   (deployment_job \<Rightarrow> (job_repository_error, deployment_job) outcome) \<Rightarrow> instant \<Rightarrow> instant \<Rightarrow>
   job_manifest write_result \<Rightarrow> job_repository \<Rightarrow>
   (job_repository_error, deployment_job) outcome \<times> job_repository" where
  "update_installer_job i d lease f now later =
     modify_job i (\<lambda>j. and_then (installer_guard d lease now j) (\<lambda>_.
       map_ok (\<lambda>j'. j'\<lparr> job_updated_at := later \<rparr>) (f j)))"

definition apply_installer_progress ::
  "deployment_stage \<Rightarrow> u8 \<Rightarrow> string option \<Rightarrow> instant \<Rightarrow> deployment_job \<Rightarrow>
   (job_repository_error, deployment_job) outcome" where
  "apply_installer_progress stage pct msg until j =
     (let rank = (case job_stage j of None \<Rightarrow> 0 | Some s \<Rightarrow> installer_stage_rank s) in
      if installer_stage_rank stage < rank \<or> pct < job_progress_percent j
      then Err Installer_Progress_Regression
      else Ok (apply_progress stage pct msg until j))"

definition report_installer_progress where
  "report_installer_progress i d lease duration stage pct msg clk w repo =
     (if pct > 99 then (Err Invalid_Progress, repo)
      else
        let until = clk (0 :: nat) + duration in
        update_installer_job i d lease (apply_installer_progress stage pct msg until)
          (clk 1) (clk 2) w repo)"

definition apply_installer_completion ::
  "bool \<Rightarrow> string option \<Rightarrow> deployment_job \<Rightarrow> (job_repository_error, deployment_job) outcome" where
  "apply_installer_completion succeeded msg j =
     and_then (map_err Invalid_Transition
         (transition (job_state j) (if succeeded then Succeeded else Failed)))
       (\<lambda>s. let j1 = j\<lparr> job_state := s \<rparr>;
                j2 = (if succeeded
                  then j1\<lparr> job_stage := Some Finalizing, job_progress_percent := 100,
                      job_status_message := Some ''Linux installation completed on first boot'',
                      job_error_message := None \<rparr>
                  else j1\<lparr> job_status_message := None,
                      job_error_message := or_else (clean_message 2048 msg)
                        (Some ''Linux installer reported a failure'') \<rparr>) in
            Ok (j2\<lparr> job_lease_id := None, job_lease_expires_at := None \<rparr>))"

definition complete_installer where
  "complete_installer i d lease succeeded msg clk =
     update_installer_job i d lease (apply_installer_completion succeeded msg)
       (clk (0 :: nat)) (clk 1)"

section \<open>Operations as labels\<close>

text \<open>
  One label per entry point, with its arguments; \<open>job_env\<close> is what the call
  observes of its environment.
\<close>

record job_env =
  env_clock :: "nat \<Rightarrow> instant"
  env_fresh :: uuid
  env_write :: "job_manifest write_result"

datatype job_call =
    Create create_deployment_job
  | Enqueue create_deployment_job
  | Transition uuid job_state
  | Remove uuid
  | Lease_Device uuid int "deployment_job \<Rightarrow> bool"
  | Report_Progress uuid uuid int agent_job_progress
  | Complete uuid uuid uuid bool "string option"
  | Renew_Control uuid uuid uuid int
  | Mark_Booting uuid uuid uuid
  | Lease_Installer uuid uuid uuid int
  | Report_Installer uuid uuid uuid int deployment_stage u8 "string option"
  | Complete_Installer uuid uuid uuid bool "string option"

datatype job_reply = Job_Reply deployment_job | No_Job | Removed bool | Control job_state

fun run_job_call :: "job_call \<times> job_env \<Rightarrow> job_repository \<Rightarrow>
    (job_repository_error, job_reply) outcome \<times> job_repository" where
  "run_job_call (Create req, e) = (\<lambda>repo. reply_with Job_Reply
     (create_job req (env_fresh e) (env_clock e) (env_write e) repo))"
| "run_job_call (Enqueue req, e) = (\<lambda>repo. reply_with Job_Reply
     (enqueue_job req (env_fresh e) (env_clock e) (env_write e) repo))"
| "run_job_call (Transition i s, e) = (\<lambda>repo. reply_with Job_Reply
     (transition_job i s (env_clock e) (env_write e) repo))"
| "run_job_call (Remove i, e) = (\<lambda>repo. reply_with Removed (remove_job i (env_write e) repo))"
| "run_job_call (Lease_Device d t P, e) = (\<lambda>repo. reply_with (case_option No_Job Job_Reply)
     (lease_for_device_if d t P (env_fresh e) (env_clock e) (env_write e) repo))"
| "run_job_call (Report_Progress i d t p, e) = (\<lambda>repo. reply_with Job_Reply
     (report_progress i d t p (env_clock e) (env_write e) repo))"
| "run_job_call (Complete i d l ok msg, e) = (\<lambda>repo. reply_with Job_Reply
     (complete_job i d l ok msg (env_clock e) (env_write e) repo))"
| "run_job_call (Renew_Control i d l t, e) = (\<lambda>repo. reply_with Control
     (renew_control_lease i d l t (env_clock e) (env_write e) repo))"
| "run_job_call (Mark_Booting i d img, e) = (\<lambda>repo. reply_with Job_Reply
     (mark_installer_booting i d img (env_clock e) (env_write e) repo))"
| "run_job_call (Lease_Installer i d img t, e) = (\<lambda>repo. reply_with Job_Reply
     (lease_installer_job i d img t (env_fresh e) (env_clock e) (env_write e) repo))"
| "run_job_call (Report_Installer i d l t st pct msg, e) = (\<lambda>repo. reply_with Job_Reply
     (report_installer_progress i d l t st pct msg (env_clock e) (env_write e) repo))"
| "run_job_call (Complete_Installer i d l ok msg, e) = (\<lambda>repo. reply_with Job_Reply
     (complete_installer i d l ok msg (env_clock e) (env_write e) repo))"

section \<open>Abstract steps\<close>

text \<open>What a stored job promises whatever its history.\<close>

definition job_ok :: "deployment_job \<Rightarrow> bool" where
  "job_ok j =
     (length (job_targets j) = 1 \<and>
      \<not> fingerprint_incomplete (hd (job_targets j)) \<and>
      unat (job_progress_percent j) \<le> 100 \<and>
      (if job_operation j = Install_Linux
       then job_state j \<noteq> Paused \<and>
         \<not> serial_missing (hd (job_targets j)) \<and>
         (case opt_linux_install (job_options j) of
            None \<Rightarrow> False | Some opts \<Rightarrow> is_ok (validate_linux_options opts)) \<and>
         (job_state j = Running \<longrightarrow> job_lease_id j \<noteq> None \<and> job_lease_expires_at j \<noteq> None)
       else is_ok (validate (opt_partition_plan (job_options j))) \<and>
         opt_linux_install (job_options j) = None \<and> opt_image_index (job_options j) \<noteq> 0))"

definition job_device :: "deployment_job \<Rightarrow> uuid" where
  "job_device j = tgt_device_id (hd (job_targets j))"

definition open_job :: "deployment_job \<Rightarrow> bool" where
  "open_job j = (\<not> is_terminal (job_state j))"

definition jobs_inv :: "deployment_job list \<Rightarrow> bool" where
  "jobs_inv js =
     (distinct (map job_id js) \<and> list_all job_ok js \<and>
      distinct (map job_device (filter open_job js)))"

text \<open>A job keeps its identity, request and creation time, and moves by the table.\<close>

definition evolves :: "deployment_job \<Rightarrow> deployment_job \<Rightarrow> bool" where
  "evolves j j' =
     (job_id j' = job_id j \<and> job_name j' = job_name j \<and> job_operation j' = job_operation j \<and>
      job_image_id j' = job_image_id j \<and> job_targets j' = job_targets j \<and>
      job_options j' = job_options j \<and> job_created_at j' = job_created_at j \<and>
      (job_state j' = job_state j \<or> (job_state j, job_state j') \<in> set allowed_transitions))"

inductive job_step :: "deployment_job list \<Rightarrow> deployment_job list \<Rightarrow> bool" where
  idle: "job_step js js"
| insert: "job_ok j \<Longrightarrow> job_state j \<in> {Draft, Waiting} \<Longrightarrow> job_id j \<notin> job_id ` set js \<Longrightarrow>
     \<forall>k \<in> set js. \<not> (open_job k \<and> job_device k = job_device j) \<Longrightarrow> job_step js (js @ [j])"
| remove: "j \<in> set js \<Longrightarrow> job_state j \<in> {Succeeded, Failed, Cancelled} \<Longrightarrow>
     job_step js (filter (\<lambda>k. job_id k \<noteq> job_id j) js)"
| change: "evolves j j' \<Longrightarrow> job_ok j' \<Longrightarrow> job_step (us @ j # vs) (us @ j' # vs)"

lemma evolves_open: "evolves j j' \<Longrightarrow> open_job j' \<Longrightarrow> open_job j"
  using allowed_from_terminal by (auto simp: evolves_def open_job_def)

lemma evolves_refl [simp]: "evolves j j"
  by (simp add: evolves_def)

lemma job_step_inv: "job_step js js' \<Longrightarrow> jobs_inv js \<Longrightarrow> jobs_inv js'"
proof (induction rule: job_step.induct)
  case (remove j js)
  let ?Q = "\<lambda>k. job_id k \<noteq> job_id j"
  have "distinct (map job_device (filter ?Q (filter open_job js)))"
    by (rule distinct_map_filter) (use remove.prems in \<open>simp add: jobs_inv_def\<close>)
  moreover have "filter ?Q (filter open_job js) = filter open_job (filter ?Q js)"
    by (simp add: conj_commute)
  ultimately show ?case
    using remove by (auto simp: jobs_inv_def list_all_iff intro: distinct_map_filter
        simp del: filter_filter)
next
  case (change j j' us vs)
  from change.hyps have "job_id j' = job_id j" "job_device j' = job_device j"
    by (auto simp: evolves_def job_device_def)
  with change evolves_open [OF change.hyps(1)] show ?case
    by (auto simp: jobs_inv_def split: if_splits)
next
  case (insert j js)
  then show ?case by (auto simp: jobs_inv_def)
qed simp

text \<open>An update of one job that keeps what every job promises.\<close>

definition good_update ::
  "(deployment_job \<Rightarrow> (job_repository_error, deployment_job) outcome) \<Rightarrow> bool" where
  "good_update f =
     (\<forall>j. job_ok j \<longrightarrow> f j \<noteq> Panic \<and> (\<forall>j'. f j = Ok j' \<longrightarrow> evolves j j' \<and> job_ok j'))"

lemma good_updateI:
  "(\<And>j. job_ok j \<Longrightarrow> f j \<noteq> Panic) \<Longrightarrow>
   (\<And>j j'. job_ok j \<Longrightarrow> f j = Ok j' \<Longrightarrow> evolves j j' \<and> job_ok j') \<Longrightarrow> good_update f"
  by (simp add: good_update_def)

lemma commit_jobs_snd:
  "jr_jobs (snd (commit_jobs w repo next v)) = (if w = Written then next else jr_jobs repo)"
  by (cases w) (simp_all add: commit_jobs_def)

lemma commit_jobs_no_panic [simp]: "fst (commit_jobs w repo next v) \<noteq> Panic"
  by (cases w) (simp_all add: commit_jobs_def)

lemma job_step_update_first:
  assumes "find P js = Some j" "evolves j j'" "job_ok j'"
  shows "job_step js (update_first P (\<lambda>_. j') js)"
  using update_first_split [OF assms(1), of "\<lambda>_. j'"] assms(2,3)
  by (auto intro: job_step.change)

lemma jobs_inv_find: "jobs_inv js \<Longrightarrow> find P js = Some j \<Longrightarrow> job_ok j"
  by (auto simp: jobs_inv_def list_all_iff dest: find_Some_in)

lemma modify_job_step:
  assumes "good_update f" "jobs_inv (jr_jobs repo)"
  shows "job_step (jr_jobs repo) (jr_jobs (snd (modify_job i f w repo)))"
    and "fst (modify_job i f w repo) \<noteq> Panic"
  using assms jobs_inv_find [OF assms(2)]
  by (auto simp: modify_job_def commit_jobs_snd good_update_def job_step.idle
      intro!: job_step_update_first split: option.splits outcome.splits)

section \<open>Every call is an abstract step\<close>

lemmas update_simps =
  job_ok_def evolves_def outcome_simps Let_def apply_transition_def installer_controlled_def
  agent_guard_def installer_guard_def handoff_guard_def apply_progress_def
  apply_completion_def apply_installer_lease_def apply_installer_progress_def
  apply_installer_completion_def

lemma expect_ok_iffs [outcome_simps]:
  "expect_ok m = Ok x \<longleftrightarrow> m = Ok x"
  "expect_ok m \<noteq> Err e"
  "expect_ok m = Panic \<longleftrightarrow> \<not> is_ok m"
  by (cases m; simp)+

text \<open>What an update must respect for its result to be a good job.\<close>

lemma update_ok:
  assumes "job_ok j" "job_id j' = job_id j" "job_name j' = job_name j"
    "job_operation j' = job_operation j" "job_image_id j' = job_image_id j"
    "job_targets j' = job_targets j" "job_options j' = job_options j"
    "job_created_at j' = job_created_at j"
    "job_state j' = job_state j \<or> (job_state j, job_state j') \<in> set allowed_transitions"
    "unat (job_progress_percent j') \<le> 100"
    "job_operation j = Install_Linux \<Longrightarrow> job_state j' \<noteq> Paused \<and>
       (job_state j' = Running \<longrightarrow> job_lease_id j' \<noteq> None \<and> job_lease_expires_at j' \<noteq> None)"
  shows "evolves j j' \<and> job_ok j'"
  using assms by (simp add: evolves_def job_ok_def)

lemma host_never_runs_linux:
  "(job_state j, next) \<in> set allowed_transitions \<Longrightarrow> \<not> installer_controlled j next \<Longrightarrow>
     job_operation j = Install_Linux \<Longrightarrow> job_ok j \<Longrightarrow> next \<noteq> Running \<and> next \<noteq> Paused"
  by (auto simp: installer_controlled_def allowed_cases job_ok_def)

lemma job_ok_progress: "job_ok j \<Longrightarrow> unat (job_progress_percent j) \<le> 100"
  by (simp add: job_ok_def)

lemma good_transition: "good_update (apply_transition next now)"
proof (rule good_updateI)
  fix j j'
  assume j: "job_ok j" "apply_transition next now j = Ok j'"
  then have t: "(job_state j, next) \<in> set allowed_transitions" "\<not> installer_controlled j next"
    by (auto simp: apply_transition_def outcome_simps split: if_splits)
  from j(2) have "job_state j' = next \<and> evolves j (j'\<lparr> job_state := job_state j \<rparr>) \<and>
      job_progress_percent j' \<in> {100, job_progress_percent j}"
    by (auto simp: apply_transition_def outcome_simps evolves_def Let_def split: if_splits)
  with t host_never_runs_linux [OF t] j(1) job_ok_progress [OF j(1)]
  show "evolves j j' \<and> job_ok j'"
    by (intro update_ok [OF j(1)]) (auto simp: evolves_def)
qed (simp add: apply_transition_def outcome_simps Let_def)

lemma agent_guard_Ok:
  "agent_guard d lease now j = Ok u \<longleftrightarrow>
     job_operation j \<noteq> Install_Linux \<and> targets_device j d \<and> job_state j \<in> {Running, Paused} \<and>
     job_lease_id j = Some lease \<and> \<not> lease_expired (job_lease_expires_at j) now"
  by (simp add: agent_guard_def)

lemma agent_guard_no_panic [simp]: "agent_guard d lease now j \<noteq> Panic"
  by (simp add: agent_guard_def)

lemma installer_guard_Ok:
  "installer_guard d lease now j = Ok u \<longleftrightarrow>
     job_operation j = Install_Linux \<and> length (job_targets j) = 1 \<and> job_device j = d \<and>
     job_state j = Running \<and> job_lease_id j = Some lease \<and>
     \<not> lease_expired (job_lease_expires_at j) now"
  by (auto simp: installer_guard_def job_device_def)

lemma installer_guard_no_panic [simp]: "installer_guard d lease now j \<noteq> Panic"
  by (simp add: installer_guard_def)

lemma handoff_guard_Ok:
  "handoff_guard d i j = Ok u \<longleftrightarrow>
     job_operation j = Install_Linux \<and> job_state j = Waiting \<and> job_image_id j = i \<and>
     length (job_targets j) = 1 \<and> job_device j = d"
  by (auto simp: handoff_guard_def job_device_def)

lemma handoff_guard_no_panic [simp]: "handoff_guard d i j \<noteq> Panic"
  by (simp add: handoff_guard_def)

lemma touch [simp]:
  "job_ok (j\<lparr> job_updated_at := t \<rparr>) = job_ok j"
  "evolves i (j\<lparr> job_updated_at := t \<rparr>) = evolves i j"
  by (simp_all add: job_ok_def evolves_def)

lemma guarded_good:
  assumes "\<And>j. g j \<noteq> Panic"
    and "\<And>j j'. job_ok j \<Longrightarrow> g j = Ok () \<Longrightarrow> f j = Ok j' \<Longrightarrow> evolves j j' \<and> job_ok j'"
    and "\<And>j. job_ok j \<Longrightarrow> g j = Ok () \<Longrightarrow> f j \<noteq> Panic"
  shows "good_update (\<lambda>j. and_then (g j) (\<lambda>_. f j))"
    and "good_update (\<lambda>j. and_then (g j) (\<lambda>_. map_ok (\<lambda>j'. j'\<lparr> job_updated_at := later \<rparr>) (f j)))"
  using assms by (auto simp: good_update_def outcome_simps)

lemma apply_progress_ok:
  "job_ok j \<Longrightarrow> \<not> 100 < pct \<Longrightarrow> job_operation j \<noteq> Install_Linux \<or> job_state j \<noteq> Paused \<and> job_lease_id j \<noteq> None \<Longrightarrow>
     evolves j (apply_progress stage pct msg until j) \<and> job_ok (apply_progress stage pct msg until j)"
  by (rule update_ok) (auto simp: apply_progress_def extend_lease_def word_less_nat_alt)

lemma good_agent_progress:
  "\<not> 100 < pct \<Longrightarrow> good_update (\<lambda>j. and_then (agent_guard d lease now j) (\<lambda>_.
     map_ok (\<lambda>j'. j'\<lparr> job_updated_at := later \<rparr>) (Ok (apply_progress stage pct msg until j))))"
  by (rule guarded_good(2)) (auto simp: agent_guard_Ok simp del: map_ok.simps dest: apply_progress_ok)

lemma apply_completion_Ok:
  "apply_completion succeeded msg j = Ok j' \<Longrightarrow> job_ok j \<Longrightarrow> evolves j j' \<and> job_ok j'"
  using job_ok_progress [of j]
  by (cases succeeded; intro update_ok; (auto simp: apply_completion_def outcome_simps Let_def))

lemma good_agent_completion:
  "good_update (\<lambda>j. and_then (agent_guard d lease now j) (\<lambda>_.
     map_ok (\<lambda>j'. j'\<lparr> job_updated_at := later \<rparr>) (apply_completion succeeded msg j)))"
proof (rule guarded_good(2))
  fix j
  assume "agent_guard d lease now j = Ok ()"
  then have "is_ok (transition (job_state j) (if succeeded then Succeeded else Failed))"
    by (auto simp: agent_guard_Ok is_ok_iff allowed_cases)
  then show "apply_completion succeeded msg j \<noteq> Panic"
    by (auto simp: outcome_simps apply_completion_def Let_def)
qed (auto dest: apply_completion_Ok)

lemma good_booting:
  "good_update (\<lambda>j. and_then (handoff_guard d img j) (\<lambda>_.
     Ok (j\<lparr> job_stage := stage, job_status_message := msg, job_error_message := err,
       job_updated_at := now \<rparr>)))"
  by (rule guarded_good(1)) (auto simp: handoff_guard_Ok evolves_def job_ok_def)

lemma apply_installer_lease_Ok:
  "apply_installer_lease now duration fresh j = Ok j' \<Longrightarrow> job_ok j \<Longrightarrow> evolves j j' \<and> job_ok j'"
  by (intro update_ok; (auto simp: apply_installer_lease_def outcome_simps))

lemma apply_installer_lease_no_panic: "apply_installer_lease now duration fresh j \<noteq> Panic"
  by (simp add: apply_installer_lease_def outcome_simps)

lemma good_installer_lease:
  "good_update (\<lambda>j. and_then (handoff_guard d img j) (\<lambda>_.
     apply_installer_lease now duration fresh j))"
  by (rule guarded_good(1))
    (auto dest: apply_installer_lease_Ok simp: apply_installer_lease_no_panic)

lemma good_installer_progress:
  "\<not> 99 < pct \<Longrightarrow> good_update (\<lambda>j. and_then (installer_guard d lease now j) (\<lambda>_.
     map_ok (\<lambda>j'. j'\<lparr> job_updated_at := later \<rparr>) (apply_installer_progress stage pct msg until j)))"
proof (rule guarded_good(2))
  fix j j'
  assume "\<not> 99 < pct" "job_ok j" "installer_guard d lease now j = Ok ()"
    "apply_installer_progress stage pct msg until j = Ok j'"
  then show "evolves j j' \<and> job_ok j'"
    using apply_progress_ok [of j pct stage msg until]
    by (auto simp: apply_installer_progress_def installer_guard_Ok Let_def word_less_nat_alt
        split: if_splits)
qed (auto simp: apply_installer_progress_def Let_def)

lemma apply_installer_completion_Ok:
  "apply_installer_completion succeeded msg j = Ok j' \<Longrightarrow> job_ok j \<Longrightarrow> evolves j j' \<and> job_ok j'"
  using job_ok_progress [of j]
  by (cases succeeded; intro update_ok; (auto simp: apply_installer_completion_def outcome_simps Let_def))

lemma apply_installer_completion_no_panic: "apply_installer_completion succeeded msg j \<noteq> Panic"
  by (simp add: apply_installer_completion_def outcome_simps Let_def)

lemma good_installer_completion:
  "good_update (\<lambda>j. and_then (installer_guard d lease now j) (\<lambda>_.
     map_ok (\<lambda>j'. j'\<lparr> job_updated_at := later \<rparr>) (apply_installer_completion succeeded msg j)))"
  by (rule guarded_good(2))
    (auto dest: apply_installer_completion_Ok simp: apply_installer_completion_no_panic)

lemma validate_request_no_panic [simp]: "validate_request req \<noteq> Panic"
  by (auto simp: validate_request_def outcome_simps split: option.splits if_splits)

lemma new_job_selectors [simp]:
  "job_id (new_job req s fresh now) = fresh"
  "job_operation (new_job req s fresh now) = req_operation req"
  "job_image_id (new_job req s fresh now) = req_image_id req"
  "job_targets (new_job req s fresh now) = req_targets req"
  "job_options (new_job req s fresh now) = req_options req"
  "job_state (new_job req s fresh now) = s"
  "job_lease_id (new_job req s fresh now) = None"
  by (simp_all add: new_job_def)

lemma new_job_ok:
  assumes "validate_request req = Ok u" "length (req_targets req) = 1" "s \<in> {Draft, Waiting}"
  shows "job_ok (new_job req s fresh now)"
proof -
  from assms(2) obtain t where t: "req_targets req = [t]" by (cases "req_targets req") auto
  with assms show ?thesis
    by (auto simp: new_job_def job_ok_def validate_request_def outcome_simps is_ok_iff
        split: if_splits option.splits)
qed

lemma insert_job_step:
  assumes "jobs_inv (jr_jobs repo)" "fresh \<notin> job_id ` set (jr_jobs repo)" "s \<in> {Draft, Waiting}"
  shows "job_step (jr_jobs repo) (jr_jobs (snd (insert_job req s fresh clk w repo)))"
proof (cases "validate_request req")
  case (Ok u)
  let ?j = "new_job req s fresh (clk 0)"
  show ?thesis
  proof (cases "length (req_targets req) = 1 \<and> \<not> list_ex (occupies (job_device ?j)) (jr_jobs repo)")
    case True
    have single: "job_device k = d" if "targets_device k d" "job_ok k" for k d
      using that by (cases "job_targets k") (auto simp: job_ok_def job_device_def targets_device_def)
    have held: "targets_device k (job_device k)" if "job_ok k" for k
      using that by (cases "job_targets k") (auto simp: job_ok_def job_device_def targets_device_def)
    have "\<forall>k \<in> set (jr_jobs repo). \<not> (open_job k \<and> job_device k = job_device ?j)"
      using True assms(1) held
      by (fastforce simp: list_ex_iff occupies_def open_job_def jobs_inv_def list_all_iff)
    then have "job_step (jr_jobs repo) (jr_jobs repo @ [?j])"
      using True Ok assms by (intro job_step.insert new_job_ok) (auto simp: new_job_def)
    then show ?thesis
      using True Ok by (auto simp: insert_job_def Let_def commit_jobs_snd job_step.idle)
  next
    case False
    then show ?thesis
      using Ok by (auto simp: insert_job_def Let_def job_step.idle job_device_def)
  qed
qed (simp_all add: insert_job_def job_step.idle)

lemma insert_job_no_panic: "fst (insert_job req s fresh clk w repo) \<noteq> Panic"
  by (auto simp: insert_job_def Let_def split: outcome.splits)

lemma remove_job_step:
  "job_step (jr_jobs repo) (jr_jobs (snd (remove_job i w repo)))"
  "fst (remove_job i w repo) \<noteq> Panic"
  by (auto simp: remove_job_def commit_jobs_snd job_step.idle
      dest!: find_Some_in intro!: job_step.remove split: option.splits)

lemma apply_agent_lease_good:
  "job_ok j \<Longrightarrow> agent_eligible d now P j \<Longrightarrow> apply_agent_lease now t fresh j = Ok j' \<Longrightarrow>
     evolves j j' \<and> job_ok j'"
  by (auto simp: apply_agent_lease_def agent_eligible_def outcome_simps job_ok_def evolves_def
      split: if_splits)

lemma lease_for_device_step:
  assumes "jobs_inv (jr_jobs repo)"
  shows "job_step (jr_jobs repo) (jr_jobs (snd (lease_for_device_if d t P fresh clk w repo)))"
    and "fst (lease_for_device_if d t P fresh clk w repo) \<noteq> Panic"
proof -
  show "job_step (jr_jobs repo) (jr_jobs (snd (lease_for_device_if d t P fresh clk w repo)))"
    using jobs_inv_find [OF assms] apply_agent_lease_good find_Some_in
    by (fastforce simp: lease_for_device_if_def Let_def commit_jobs_snd job_step.idle
        intro: job_step_update_first split: option.splits outcome.splits)
  show "fst (lease_for_device_if d t P fresh clk w repo) \<noteq> Panic"
    by (auto simp: lease_for_device_if_def Let_def apply_agent_lease_def outcome_simps
        split: option.splits outcome.splits)
qed

lemma renew_control_lease_step:
  assumes "jobs_inv (jr_jobs repo)"
  shows "job_step (jr_jobs repo) (jr_jobs (snd (renew_control_lease i d l t clk w repo)))"
    and "fst (renew_control_lease i d l t clk w repo) \<noteq> Panic"
proof -
  have upd: "job_step (jr_jobs repo) (update_first (\<lambda>j. job_id j = i)
      (\<lambda>j. j\<lparr> job_lease_expires_at := Some x \<rparr>) (jr_jobs repo))"
    if f: "find (\<lambda>j. job_id j = i) (jr_jobs repo) = Some j" for j x
  proof -
    let ?f = "\<lambda>j. j\<lparr> job_lease_expires_at := Some x \<rparr>"
    obtain us vs where s: "jr_jobs repo = us @ j # vs"
      "update_first (\<lambda>j. job_id j = i) ?f (jr_jobs repo) = us @ ?f j # vs"
      using update_first_split [OF f, of ?f] by auto
    have "job_ok (?f j)" using jobs_inv_find [OF assms f] by (simp add: job_ok_def)
    with s show ?thesis by (auto intro!: job_step.change simp: evolves_def)
  qed
  then show "job_step (jr_jobs repo) (jr_jobs (snd (renew_control_lease i d l t clk w repo)))"
    by (auto simp: renew_control_lease_def Let_def commit_jobs_snd job_step.idle
        split: option.splits)
  show "fst (renew_control_lease i d l t clk w repo) \<noteq> Panic"
    by (auto simp: renew_control_lease_def Let_def split: option.splits)
qed

section \<open>The repository as a durable store\<close>

text \<open>
  What the code relies on of \<open>Uuid::new_v4\<close>: an identifier that no job and no
  lease of the repository has.
\<close>

definition fresh_env :: "job_call \<times> job_env \<Rightarrow> job_repository \<Rightarrow> bool" where
  "fresh_env q repo =
     (env_fresh (snd q) \<notin> set (map job_id (jr_jobs repo)) \<and>
      Some (env_fresh (snd q)) \<notin> set (map job_lease_id (jr_jobs repo)))"

lemmas job_call_defs =
  create_job_def enqueue_job_def transition_job_def lease_for_device_def report_progress_def
  update_leased_job_def complete_job_def mark_installer_booting_def lease_installer_job_def
  report_installer_progress_def update_installer_job_def complete_installer_def reply_with_def

lemmas step_intros =
  insert_job_step remove_job_step(1) lease_for_device_step(1) renew_control_lease_step(1)
  modify_job_step(1) good_transition good_agent_progress good_agent_completion good_booting
  good_installer_lease good_installer_progress good_installer_completion

lemmas total_dests =
  lease_for_device_step(2) renew_control_lease_step(2)
  modify_job_step(2) [OF good_transition] modify_job_step(2) [OF good_agent_progress]
  modify_job_step(2) [OF good_agent_completion] modify_job_step(2) [OF good_booting]
  modify_job_step(2) [OF good_installer_lease] modify_job_step(2) [OF good_installer_progress]
  modify_job_step(2) [OF good_installer_completion]

lemma run_job_call_step:
  assumes "jobs_inv (jr_jobs repo)" "fresh_env q repo"
  shows "job_step (jr_jobs repo) (jr_jobs (snd (run_job_call q repo)))"
  using assms
  by (cases q rule: run_job_call.cases)
    (auto simp: job_call_defs Let_def fresh_env_def job_step.idle simp del: map_ok.simps
      intro!: step_intros)

lemma run_job_call_total: "jobs_inv (jr_jobs repo) \<Longrightarrow> fst (run_job_call q repo) \<noteq> Panic"
  by (cases q rule: run_job_call.cases)
    (auto simp: job_call_defs Let_def insert_job_no_panic remove_job_step(2)
      simp del: map_ok.simps dest: total_dests)

text \<open>The file as far as the contract is concerned: the jobs it holds.\<close>

fun stored_jobs :: "job_repository \<Rightarrow> deployment_job list stored" where
  "stored_jobs repo =
     (case jr_manifest repo of Absent \<Rightarrow> Absent | Other b \<Rightarrow> Other b | Stored m \<Rightarrow> Stored (jm_jobs m))"

abbreviation memory_only ::
  "(job_repository \<Rightarrow> ('e, 'a) outcome \<times> job_repository) \<Rightarrow> bool" where
  "memory_only \<equiv> frames jr_jobs stored_jobs"

lemma commits_jobs: "commits jr_jobs stored_jobs (commit_jobs w)"
  by (cases w) (auto simp: commits_def commit_jobs_def job_manifest_of_def)

text \<open>Every operation either answers at once or commits a new vector of jobs.\<close>

lemma memory_only_modify: "memory_only (modify_job i f w)"
proof -
  let ?g = "\<lambda>jobs :: deployment_job list. case find (\<lambda>j. job_id j = i) jobs of None \<Rightarrow> Inl (Err (Job_Not_Found i))
    | Some j \<Rightarrow> (case f j of Ok j' \<Rightarrow> Inr (update_first (\<lambda>j. job_id j = i) (\<lambda>_. j') jobs, j')
        | Err e \<Rightarrow> Inl (Err e) | Panic \<Rightarrow> Inl Panic)"
  have "modify_job i f w = (\<lambda>s. case ?g (jr_jobs s) of
      Inl r \<Rightarrow> (r, s) | Inr (next, v) \<Rightarrow> commit_jobs w s next v)"
    by (rule ext) (auto simp: modify_job_def split: option.splits outcome.splits)
  then show ?thesis using frames_commit [OF commits_jobs, of w ?g] by (simp only:)
qed

lemma memory_only_insert: "memory_only (insert_job req st fresh clk w)"
proof -
  let ?j = "new_job req st fresh (clk 0)"
  let ?g = "\<lambda>jobs :: deployment_job list. case validate_request req of Err e \<Rightarrow> Inl (Err e) | Panic \<Rightarrow> Inl Panic
    | Ok _ \<Rightarrow> if length (req_targets req) \<noteq> 1 then Inl (Err Requires_Single_Target)
        else if list_ex (occupies (tgt_device_id (hd (job_targets ?j)))) jobs
        then Inl (Err (Target_Already_Has_Job (tgt_device_id (hd (job_targets ?j)))))
        else Inr (jobs @ [?j], ?j)"
  have "insert_job req st fresh clk w = (\<lambda>s. case ?g (jr_jobs s) of
      Inl r \<Rightarrow> (r, s) | Inr (next, v) \<Rightarrow> commit_jobs w s next v)"
    by (rule ext) (auto simp: insert_job_def Let_def split: outcome.splits)
  then show ?thesis using frames_commit [OF commits_jobs, of w ?g] by (simp only:)
qed

lemma memory_only_remove: "memory_only (remove_job i w)"
proof -
  let ?g = "\<lambda>jobs :: deployment_job list. case find (\<lambda>j. job_id j = i) jobs of None \<Rightarrow> Inl (Ok False)
    | Some j \<Rightarrow> if job_state j \<notin> {Succeeded, Failed, Cancelled} then Inl (Err Not_Terminal)
        else Inr (filter (\<lambda>j. job_id j \<noteq> i) jobs, True)"
  have "remove_job i w = (\<lambda>s. case ?g (jr_jobs s) of
      Inl r \<Rightarrow> (r, s) | Inr (next, v) \<Rightarrow> commit_jobs w s next v)"
    by (rule ext) (auto simp: remove_job_def split: option.splits)
  then show ?thesis using frames_commit [OF commits_jobs, of w ?g] by (simp only:)
qed

lemma memory_only_lease: "memory_only (lease_for_device_if d t P fresh clk w)"
proof -
  let ?P = "agent_eligible d (clk 0) P"
  let ?g = "\<lambda>jobs :: deployment_job list. case find ?P jobs of None \<Rightarrow> Inl (Ok None)
    | Some j \<Rightarrow> (case apply_agent_lease (clk 0) t fresh j of
          Ok j' \<Rightarrow> Inr (update_first ?P (\<lambda>_. j') jobs, Some j')
        | Err e \<Rightarrow> Inl (Err e) | Panic \<Rightarrow> Inl Panic)"
  have "lease_for_device_if d t P fresh clk w = (\<lambda>s. case ?g (jr_jobs s) of
      Inl r \<Rightarrow> (r, s) | Inr (next, v) \<Rightarrow> commit_jobs w s next v)"
    by (rule ext) (auto simp: lease_for_device_if_def Let_def split: option.splits outcome.splits)
  then show ?thesis using frames_commit [OF commits_jobs, of w ?g] by (simp only:)
qed

lemma memory_only_renew: "memory_only (renew_control_lease i d l t clk w)"
proof -
  let ?g = "\<lambda>jobs :: deployment_job list. case find (\<lambda>j. job_id j = i) jobs of None \<Rightarrow> Inl (Err (Job_Not_Found i))
    | Some j \<Rightarrow>
        if job_operation j = Install_Linux then Inl (Err Wrong_Execution_Protocol)
        else if \<not> targets_device j d then Inl (Err (Wrong_Device d))
        else if job_state j \<notin> {Running, Paused} \<or> job_lease_id j \<noteq> Some l
          then Inl (Err Invalid_Lease)
        else if (case job_lease_expires_at j of None \<Rightarrow> False | Some x \<Rightarrow> x \<ge> clk 0 + t div 2)
          then Inl (Ok (job_state j))
        else Inr (update_first (\<lambda>j. job_id j = i)
          (\<lambda>j. j\<lparr> job_lease_expires_at := Some (clk 0 + t) \<rparr>) jobs, job_state j)"
  have "renew_control_lease i d l t clk w = (\<lambda>s. case ?g (jr_jobs s) of
      Inl r \<Rightarrow> (r, s) | Inr (next, v) \<Rightarrow> commit_jobs w s next v)"
    by (rule ext) (auto simp: renew_control_lease_def Let_def split: option.splits)
  then show ?thesis using frames_commit [OF commits_jobs, of w ?g] by (simp only:)
qed

lemmas memory_only_intros =
  frames_intros memory_only_modify memory_only_insert memory_only_remove
  memory_only_lease memory_only_renew

lemma run_job_call_memory_only: "memory_only (run_job_call q)"
  by (cases q rule: run_job_call.cases)
    (auto simp only: run_job_call.simps create_job_def enqueue_job_def transition_job_def
      report_progress_def update_leased_job_def complete_job_def mark_installer_booting_def
      lease_installer_job_def report_installer_progress_def update_installer_job_def
      complete_installer_def Let_def intro!: memory_only_intros)

interpretation jobs: durable_store run_job_call jr_jobs stored_jobs jobs_inv fresh_env
proof unfold_locales
  fix q s t
  show "jr_jobs s = jr_jobs t \<Longrightarrow> fst (run_job_call q s) = fst (run_job_call q t)"
    "jr_jobs s = jr_jobs t \<Longrightarrow> jr_jobs (snd (run_job_call q s)) = jr_jobs (snd (run_job_call q t))"
    "\<not> is_ok (fst (run_job_call q s)) \<Longrightarrow> jr_jobs (snd (run_job_call q s)) = jr_jobs s"
    "is_ok (fst (run_job_call q s)) \<Longrightarrow> snd (run_job_call q s) = s \<or>
       stored_jobs (snd (run_job_call q s)) = Stored (jr_jobs (snd (run_job_call q s)))"
    by (rule framesD [OF run_job_call_memory_only], assumption)+
  show "jobs_inv (jr_jobs s) \<Longrightarrow> fresh_env q s \<Longrightarrow> jobs_inv (jr_jobs (snd (run_job_call q s)))"
    using job_step_inv run_job_call_step by blast
  show "jobs_inv (jr_jobs s) \<Longrightarrow> fst (run_job_call q s) \<noteq> Panic"
    by (rule run_job_call_total)
qed

section \<open>Histories of the repository\<close>

definition job_at :: "job_repository \<Rightarrow> uuid \<Rightarrow> deployment_job option" where
  "job_at repo k = find (\<lambda>j. job_id j = k) (jr_jobs repo)"

definition empty_repository :: job_repository where
  "empty_repository = \<lparr> jr_manifest = Absent, jr_jobs = [] \<rparr>"

text \<open>
  Each entry point of the repository, whatever its arguments, its clock
  and the result of its write, refines one abstract step: it leaves the jobs
  alone, adds a valid job for a device without an open one, deletes a finished
  job, or moves one job along the transition table without touching its
  identity or request; and it does not panic.
\<close>

theorem job_calls_refine_steps:
  assumes "jobs_inv (jr_jobs repo)" "fresh_env q repo"
  shows "job_step (jr_jobs repo) (jr_jobs (snd (run_job_call q repo))) \<and>
    fst (run_job_call q repo) \<noteq> Panic"
  using run_job_call_step [OF assms] run_job_call_total [OF assms(1)] by blast

text \<open>
  C11.  In every history of the repository, with writes failing at any point,
  job identifiers stay distinct, every job is one the validation accepts with a
  progress of at most 100, no device has two open jobs, a Linux job is never
  paused and holds a lease while it runs, and no later call panics.
\<close>

theorem job_histories_keep_invariant:
  assumes "all_admissible run_job_call fresh_env qs empty_repository"
  shows "jobs_inv (jr_jobs (run_ops run_job_call qs empty_repository)) \<and>
    fst (run_job_call q (run_ops run_job_call qs empty_repository)) \<noteq> Panic"
proof -
  have e: "jobs_inv (jr_jobs empty_repository)" by (simp add: empty_repository_def jobs_inv_def)
  show ?thesis using jobs.run_inv [OF e assms] jobs.run_total [OF e assms] by blast
qed

text \<open>
  A refused call leaves no trace in memory: any history leaves the jobs
  that its accepted calls alone leave.
\<close>

theorem refused_job_calls_leave_no_trace:
  "jr_jobs (run_ops run_job_call (accepted run_job_call qs repo) repo) =
   jr_jobs (run_ops run_job_call qs repo)"
  by (rule jobs.run_accepted)

text \<open>
  C28.  After any history of the repository, with writes failing at any point,
  a call that is accepted and changes the repository leaves a manifest from
  which the repository is restored: opening it again, when the JSON that was
  written parses to the manifest it renders, gives the jobs in memory, unless
  the directory cannot be created or the manifest cannot be read, which are the
  errors of the opening and give no repository.  A manifest that \<open>exists\<close> does
  not find, as when its metadata cannot be read, opens as an empty repository.
\<close>

theorem reopen_restores_jobs:
  fixes qs repo q
  defines "before \<equiv> run_ops run_job_call qs repo"
  defines "after \<equiv> snd (run_job_call q before)"
  assumes "is_ok (fst (run_job_call q before))" "after \<noteq> before" "faithful_on c (jr_manifest after)"
  shows "open_jobs c io (jr_manifest after) =
    (if \<not> fa_directory io then Err Job_Write_Error
     else if \<not> fa_found io then Ok (after \<lparr> jr_jobs := [] \<rparr>)
     else if \<not> fa_readable io then Err Job_Read_Error
     else Ok after)"
proof -
  have "stored_jobs after = Stored (jr_jobs after)"
    using jobs.success_is_durable [OF assms(3)] assms(4) by (auto simp: after_def)
  then obtain m where m: "jr_manifest after = Stored m" "jm_jobs m = jr_jobs after"
    by (auto split: stored.splits)
  with assms(5) show ?thesis
    by (cases after) (simp add: open_jobs_def load_stored ensure_def)
qed

section \<open>What moves a Linux job\<close>

lemma modify_effect:
  assumes "good_update f" "jobs_inv (jr_jobs repo)" "job_at repo k = Some j"
    and "job_at (snd (modify_job i f w repo)) k = Some j'" "j' \<noteq> j"
  shows "i = k \<and> f j = Ok j'"
proof (cases "find (\<lambda>j. job_id j = i) (jr_jobs repo)")
  case None
  then show ?thesis using assms(3-5) by (simp add: modify_job_def job_at_def)
next
  case (Some x)
  show ?thesis
  proof (cases "\<exists>x'. f x = Ok x' \<and> w = Written")
    case False
    then have "jr_jobs (snd (modify_job i f w repo)) = jr_jobs repo"
      using Some by (auto simp: modify_job_def commit_jobs_snd split: outcome.splits)
    then show ?thesis using assms(3-5) by (simp add: job_at_def)
  next
    case True
    then obtain x' where x': "f x = Ok x'" "w = Written" by blast
    have x: "job_ok x" "job_id x = i"
      using jobs_inv_find [OF assms(2) Some] find_Some_in [OF Some] by auto
    have "evolves x x'" using assms(1) x(1) x'(1) unfolding good_update_def by blast
    with x(2) have id': "job_id x' = i" by (simp add: evolves_def)
    have at: "job_at (snd (modify_job i f w repo)) k =
        find (\<lambda>j. job_id j = k) (update_first (\<lambda>j. job_id j = i) (\<lambda>_. x') (jr_jobs repo))"
      using Some x' by (simp add: modify_job_def job_at_def commit_jobs_snd)
    show ?thesis
    proof (cases "i = k")
      case True
      with at Some id' have "j' = x'"
        using assms(4) by (simp add: find_update_first_same)
      with True Some assms(3) x'(1) show ?thesis by (simp add: job_at_def)
    next
      case False
      then have "find (\<lambda>j. job_id j = k)
          (update_first (\<lambda>j. job_id j = i) (\<lambda>_. x') (jr_jobs repo)) =
          find (\<lambda>j. job_id j = k) (jr_jobs repo)"
        using id' by (intro find_update_first_other) auto
      with at assms(3-5) show ?thesis by (simp add: job_at_def)
    qed
  qed
qed

lemma lease_effect:
  assumes "jobs_inv (jr_jobs repo)" "job_at repo k = Some j"
    and "job_at (snd (lease_for_device_if d t P fresh clk w repo)) k = Some j'" "j' \<noteq> j"
  shows "agent_eligible d (clk 0) P j \<and> apply_agent_lease (clk 0) t fresh j = Ok j'"
proof (cases "find (agent_eligible d (clk 0) P) (jr_jobs repo)")
  case None
  then show ?thesis using assms(2-4) by (simp add: lease_for_device_if_def job_at_def)
next
  case (Some x)
  show ?thesis
  proof (cases "\<exists>x'. apply_agent_lease (clk 0) t fresh x = Ok x' \<and> w = Written")
    case False
    then have "jr_jobs (snd (lease_for_device_if d t P fresh clk w repo)) = jr_jobs repo"
      using Some by (auto simp: lease_for_device_if_def Let_def commit_jobs_snd split: outcome.splits)
    then show ?thesis using assms(2-4) by (simp add: job_at_def)
  next
    case True
    then obtain x' where x': "apply_agent_lease (clk 0) t fresh x = Ok x'" "w = Written" by blast
    then have id': "job_id x' = job_id x"
      by (auto simp: apply_agent_lease_def outcome_simps)
    obtain us vs where s: "jr_jobs repo = us @ x # vs"
      "update_first (agent_eligible d (clk 0) P) (\<lambda>_. x') (jr_jobs repo) = us @ x' # vs"
      using update_first_split [OF Some, of "\<lambda>_. x'"] by auto
    have at: "job_at (snd (lease_for_device_if d t P fresh clk w repo)) k =
        find (\<lambda>j. job_id j = k) (us @ x' # vs)"
      using Some x' s(2) by (simp add: lease_for_device_if_def Let_def job_at_def commit_jobs_snd)
    show ?thesis
    proof (cases "job_id x = k")
      case True
      have "job_id x \<notin> job_id ` set us" using assms(1) by (simp add: jobs_inv_def s(1))
      then have "\<forall>u \<in> set us. job_id u \<noteq> k" using True by (metis image_eqI)
      then have "find (\<lambda>j. job_id j = k) (us @ x' # vs) = Some x'"
        "find (\<lambda>j. job_id j = k) (us @ x # vs) = Some x"
        using True id' by (auto intro: find_hit)
      with at assms(2,3) have "j' = x'" "j = x" by (simp_all add: job_at_def s(1))
      with x'(1) find_Some_in [OF Some] show ?thesis by simp
    next
      case False
      then have "find (\<lambda>j. job_id j = k) (us @ x' # vs) = find (\<lambda>j. job_id j = k) (us @ x # vs)"
        using id' by (intro find_replace) auto
      with at assms(2-4) show ?thesis by (simp add: job_at_def s(1))
    qed
  qed
qed

lemma insert_effect:
  "job_at repo k = Some j \<Longrightarrow> job_at (snd (insert_job req s fresh clk w repo)) k = Some j"
  by (auto simp: insert_job_def Let_def job_at_def commit_jobs_snd find_append_Some
      split: outcome.splits)

lemma remove_effect:
  assumes "job_at repo k = Some j" "job_at (snd (remove_job i w repo)) k = Some j'"
  shows "j' = j"
proof -
  have "jr_jobs (snd (remove_job i w repo)) \<in>
      {jr_jobs repo, filter (\<lambda>j. job_id j \<noteq> i) (jr_jobs repo)}"
    by (auto simp: remove_job_def commit_jobs_snd split: option.splits)
  moreover have "find (\<lambda>j. job_id j = k) (filter (\<lambda>j. job_id j \<noteq> i) (jr_jobs repo)) =
      (if k = i then None else job_at repo k)"
    by (auto simp: find_None_iff job_at_def intro: find_filter_same)
  ultimately show ?thesis using assms by (auto simp: job_at_def split: if_splits)
qed

lemma renew_effect:
  assumes "job_at repo k = Some j" "job_operation j = Install_Linux"
  shows "job_at (snd (renew_control_lease i d l t clk w repo)) k = Some j"
proof (cases "i = k")
  case True
  then show ?thesis using assms by (simp add: renew_control_lease_def job_at_def)
next
  case False
  then have "find (\<lambda>j. job_id j = k) (update_first (\<lambda>j. job_id j = i)
      (\<lambda>j. j\<lparr> job_lease_expires_at := x \<rparr>) (jr_jobs repo)) = Some j" for x
    using assms(1) by (subst find_update_first_other) (auto simp: job_at_def)
  then show ?thesis
    using assms(1) by (auto simp: renew_control_lease_def Let_def job_at_def commit_jobs_snd
        split: option.splits)
qed

text \<open>All that can change a Linux job: four calls of its own protocol and the host's transition.\<close>

definition linux_effect :: "job_call \<times> job_env \<Rightarrow> deployment_job \<Rightarrow> deployment_job \<Rightarrow> bool" where
  "linux_effect q j j' =
     (let clk = env_clock (snd q) in
      case fst q of
        Transition i s \<Rightarrow> i = job_id j \<and> apply_transition s (clk 0) j = Ok j'
      | Mark_Booting i d img \<Rightarrow> i = job_id j \<and> handoff_guard d img j = Ok () \<and>
          job_state j' = Waiting
      | Lease_Installer i d img t \<Rightarrow> i = job_id j \<and> handoff_guard d img j = Ok () \<and>
          apply_installer_lease (clk 0) t (env_fresh (snd q)) j = Ok j'
      | Report_Installer i d l t stage pct msg \<Rightarrow> i = job_id j \<and> installer_guard d l (clk 1) j = Ok () \<and>
          map_ok (\<lambda>j. j\<lparr> job_updated_at := clk 2 \<rparr>)
            (apply_installer_progress stage pct msg (clk 0 + t) j) = Ok j'
      | Complete_Installer i d l ok msg \<Rightarrow> i = job_id j \<and> installer_guard d l (clk 0) j = Ok () \<and>
          map_ok (\<lambda>j. j\<lparr> job_updated_at := clk 1 \<rparr>) (apply_installer_completion ok msg j) = Ok j'
      | _ \<Rightarrow> False)"

lemma job_at_id: "job_at repo k = Some j \<Longrightarrow> job_id j = k"
  by (auto simp: job_at_def dest: find_Some_in)

lemma linux_job_effect:
  assumes "jobs_inv (jr_jobs repo)" "job_at repo k = Some j" "job_operation j = Install_Linux"
    and "job_at (snd (run_job_call q repo)) k = Some j'" "j' \<noteq> j"
  shows "linux_effect q j j'"
proof (cases q rule: run_job_call.cases)
  case (3 i s e)
  with assms modify_effect [OF good_transition assms(1,2)] job_at_id [OF assms(2)]
  show ?thesis by (auto simp: transition_job_def linux_effect_def)
next
  case (6 i d t p e)
  with assms modify_effect [OF good_agent_progress assms(1,2)] show ?thesis
    by (fastforce simp: report_progress_def update_leased_job_def outcome_simps agent_guard_Ok Let_def
        simp del: map_ok.simps split: if_splits)
next
  case (7 i d l ok msg e)
  with assms modify_effect [OF good_agent_completion assms(1,2)] show ?thesis
    by (fastforce simp: complete_job_def update_leased_job_def outcome_simps agent_guard_Ok)
next
  case (9 i d img e)
  with assms modify_effect [OF good_booting assms(1,2)] job_at_id [OF assms(2)] show ?thesis
    by (fastforce simp: mark_installer_booting_def linux_effect_def outcome_simps handoff_guard_Ok)
next
  case (10 i d img t e)
  with assms modify_effect [OF good_installer_lease assms(1,2)] job_at_id [OF assms(2)] show ?thesis
    by (fastforce simp: lease_installer_job_def linux_effect_def outcome_simps)
next
  case (11 i d l t st pct msg e)
  with assms modify_effect [OF good_installer_progress assms(1,2)] job_at_id [OF assms(2)]
  show ?thesis
    by (fastforce simp: report_installer_progress_def update_installer_job_def linux_effect_def
        outcome_simps Let_def split: if_splits)
next
  case (12 i d l ok msg e)
  with assms modify_effect [OF good_installer_completion assms(1,2)] job_at_id [OF assms(2)]
  show ?thesis
    by (fastforce simp: complete_installer_def update_installer_job_def linux_effect_def
        outcome_simps)
next
  case (5 d t P e)
  with assms lease_effect [OF assms(1,2)] show ?thesis by (fastforce simp: agent_eligible_def)
qed (use assms insert_effect [OF assms(2)] remove_effect [OF assms(2)]
      renew_effect [OF assms(2,3)] in \<open>auto simp: create_job_def enqueue_job_def\<close>)

text \<open>What a change of a Linux job says of the call that made it.\<close>

lemma linux_effect_running:
  assumes "linux_effect q j j'" "job_operation j = Install_Linux" "job_id j = k"
    and "job_state j \<noteq> Running" "job_state j' = Running"
  shows "job_state j = Waiting \<and>
    (\<exists>t. fst q = Lease_Installer k (job_device j) (job_image_id j) t)"
  using assms
  by (auto simp: linux_effect_def Let_def handoff_guard_Ok installer_guard_Ok outcome_simps
      apply_transition_def installer_controlled_def allowed_cases split: job_call.splits if_splits)

lemma linux_effect_succeeded:
  assumes "linux_effect q j j'" "job_operation j = Install_Linux" "job_id j = k" "job_ok j"
    and "job_state j \<noteq> Succeeded" "job_state j' = Succeeded"
  shows "\<exists>l msg. fst q = Complete_Installer k (job_device j) l True msg \<and> job_state j = Running \<and>
    job_lease_id j = Some l \<and> \<not> lease_expired (job_lease_expires_at j) (env_clock (snd q) 0)"
  using assms
  by (cases "fst q")
    (auto simp: linux_effect_def Let_def handoff_guard_Ok installer_guard_Ok outcome_simps
      apply_transition_def installer_controlled_def allowed_cases apply_installer_lease_def
      apply_installer_progress_def apply_progress_def apply_installer_completion_def
      split: if_splits)

text \<open>
  A Linux job starts running only through the guarded handoff: when a call
  takes it to \<open>Running\<close>, the call is \<open>lease_installer_job\<close> for this job, its own
  device and its own image, and the job was waiting.  No host transition and no
  agent lease can start it.
\<close>

theorem linux_starts_only_by_handoff:
  assumes "jobs_inv (jr_jobs repo)" "job_at repo k = Some j" "job_operation j = Install_Linux"
    and "job_at (snd (run_job_call q repo)) k = Some j'"
    and "job_state j \<noteq> Running" "job_state j' = Running"
  shows "job_state j = Waiting \<and>
    (\<exists>t. fst q = Lease_Installer k (job_device j) (job_image_id j) t)"
proof -
  have "j' \<noteq> j" using assms(5,6) by auto
  then have "linux_effect q j j'" using linux_job_effect assms(1-4) by blast
  from linux_effect_running [OF this assms(3) job_at_id [OF assms(2)] assms(5,6)] show ?thesis .
qed

text \<open>
  A Linux job succeeds only through the first-boot confirmation: the call
  is \<open>complete_installer\<close> for this job and its device, with the lease the job
  holds, while that lease has not expired.
\<close>

theorem linux_succeeds_only_by_confirmation:
  assumes "jobs_inv (jr_jobs repo)" "job_at repo k = Some j" "job_operation j = Install_Linux"
    and "job_at (snd (run_job_call q repo)) k = Some j'"
    and "job_state j \<noteq> Succeeded" "job_state j' = Succeeded"
  shows "\<exists>l msg. fst q = Complete_Installer k (job_device j) l True msg \<and> job_state j = Running \<and>
    job_lease_id j = Some l \<and> \<not> lease_expired (job_lease_expires_at j) (env_clock (snd q) 0)"
proof -
  have "j' \<noteq> j" using assms(5,6) by auto
  then have eff: "linux_effect q j j'" using linux_job_effect assms(1-4) by blast
  have "job_ok j" using jobs_inv_find assms(1,2) by (auto simp: job_at_def)
  from linux_effect_succeeded [OF eff assms(3) job_at_id [OF assms(2)] this assms(5,6)] show ?thesis .
qed

text \<open>
  While a Linux attempt runs, its progress never falls back: a call that
  leaves the job running leaves its lease identifier alone, and neither the
  rank of its stage nor its percentage decreases.
\<close>

definition stage_of :: "deployment_job \<Rightarrow> nat" where
  "stage_of j = (case job_stage j of None \<Rightarrow> 0 | Some s \<Rightarrow> installer_stage_rank s)"

theorem linux_attempt_monotone:
  assumes "jobs_inv (jr_jobs repo)" "job_at repo k = Some j" "job_operation j = Install_Linux"
    and "job_at (snd (run_job_call q repo)) k = Some j'"
    and "job_state j = Running" "job_state j' = Running"
  shows "job_lease_id j' = job_lease_id j \<and> stage_of j \<le> stage_of j' \<and>
    job_progress_percent j \<le> job_progress_percent j'"
proof (cases "j' = j")
  case False
  then have "linux_effect q j j'" using linux_job_effect assms(1-4) by blast
  then show ?thesis
    using assms(3,5,6)
    by (cases "fst q")
      (auto simp: linux_effect_def Let_def handoff_guard_Ok outcome_simps stage_of_def
        apply_transition_def installer_controlled_def allowed_cases
        apply_installer_progress_def apply_progress_def apply_installer_completion_def
        split: if_splits option.splits)
qed simp

text \<open>A granted lease: the job it was granted on, before and after.\<close>

lemma lease_granted:
  assumes "jobs_inv (jr_jobs repo)"
    and "lease_for_device_if d t P fresh clk w repo = (Ok (Some j'), repo')"
  obtains j where "job_at repo (job_id j') = Some j" "agent_eligible d (clk 0) P j"
    "apply_agent_lease (clk 0) t fresh j = Ok j'" "job_at repo' (job_id j') = Some j'"
    "job_id j' = job_id j" "job_lease_id j' = Some fresh" "job_lease_expires_at j' = Some (clk 0 + t)"
    "job_operation j' = job_operation j" "job_targets j' = job_targets j"
    "job_options j' = job_options j" "job_image_id j' = job_image_id j" "job_state j' = Running"
proof -
  from assms(2) obtain j where j: "find (agent_eligible d (clk 0) P) (jr_jobs repo) = Some j"
    "apply_agent_lease (clk 0) t fresh j = Ok j'"
    and repo': "jr_jobs repo' = update_first (agent_eligible d (clk 0) P) (\<lambda>_. j') (jr_jobs repo)"
    by (cases w) (auto simp: lease_for_device_if_def Let_def commit_jobs_def
        split: option.splits outcome.splits)
  have el: "agent_eligible d (clk 0) P j" using find_Some_in [OF j(1)] by simp
  from j(2) have j': "job_id j' = job_id j" "job_lease_id j' = Some fresh"
    "job_lease_expires_at j' = Some (clk 0 + t)" "job_operation j' = job_operation j"
    "job_targets j' = job_targets j" "job_options j' = job_options j" "job_image_id j' = job_image_id j"
    by (auto simp: apply_agent_lease_def outcome_simps)
  have run: "job_state j' = Running"
    using j(2) el by (auto simp: apply_agent_lease_def outcome_simps agent_eligible_def allowed_cases split: if_splits)
  obtain us vs where s: "jr_jobs repo = us @ j # vs" "jr_jobs repo' = us @ j' # vs"
    using update_first_split [OF j(1), of "\<lambda>_. j'"] repo' by auto
  have "job_id j \<notin> job_id ` set us" using assms(1) by (simp add: jobs_inv_def s(1))
  then have us: "\<forall>u \<in> set us. job_id u \<noteq> job_id j'" using j'(1) by (metis image_eqI)
  have "job_at repo (job_id j') = Some j" "job_at repo' (job_id j') = Some j'"
    unfolding job_at_def s by (rule find_hit [OF us], simp add: j'(1))+
  with el j(2) j' run show thesis by (intro that) simp_all
qed

text \<open>
  C27.  An agent's lease is exclusive: the job it is granted on is not a Linux
  job and was waiting, or running under a lease that had expired; and from then
  on no other lease identifier is accepted for it, whatever the clock says.
\<close>

theorem agent_lease_exclusive:
  assumes "jobs_inv (jr_jobs repo)"
    and "lease_for_device_if d t P fresh clk w repo = (Ok (Some j'), repo')"
    and "l \<noteq> fresh"
  shows "(\<exists>j. job_at repo (job_id j') = Some j \<and> job_operation j \<noteq> Install_Linux \<and> job_device j = d \<and>
      (job_state j = Waiting \<or>
       job_state j = Running \<and> (\<exists>x. job_lease_expires_at j = Some x \<and> x < clk 0))) \<and>
    job_at repo' (job_id j') = Some j' \<and>
    authorized_lease (job_id j') d l now repo' = Err Invalid_Lease"
proof -
  from lease_granted [OF assms(1,2)] obtain j where j: "job_at repo (job_id j') = Some j"
    "agent_eligible d (clk 0) P j" "job_at repo' (job_id j') = Some j'" "job_lease_id j' = Some fresh"
    "job_operation j' = job_operation j" "job_targets j' = job_targets j" by blast
  have "targets_device j' d"
    using j(2,6) by (cases "job_targets j") (simp_all add: agent_eligible_def targets_device_def)
  then have "agent_guard d l now j' = Err Invalid_Lease"
    using j(2,4,5) assms(3) by (simp add: agent_guard_def agent_eligible_def)
  then have "authorized_lease (job_id j') d l now repo' = Err Invalid_Lease"
    using j(3) by (simp add: authorized_lease_def job_at_def)
  moreover have "job_operation j \<noteq> Install_Linux \<and> job_device j = d \<and> (job_state j = Waiting \<or>
      job_state j = Running \<and> (\<exists>x. job_lease_expires_at j = Some x \<and> x < clk 0))"
    using j(2) by (cases "job_lease_expires_at j") (simp_all add: agent_eligible_def job_device_def)
  ultimately show ?thesis using j(1,3) by blast
qed

section \<open>Concrete runs\<close>

definition sample_target :: deployment_target where
  "sample_target = \<lparr> tgt_device_id = 7, tgt_disk_id = ''0'', tgt_disk_model = ''M'',
     tgt_disk_serial = Some ''S1'', tgt_disk_size_bytes = 274877906944 \<rparr>"

definition sample_windows_request :: create_deployment_job where
  "sample_windows_request = \<lparr> req_name = ''Office'', req_operation = Deploy_Wim, req_image_id = 3,
     req_targets = [sample_target], req_options = default_options \<rparr>"

definition sample_linux_request :: create_deployment_job where
  "sample_linux_request = \<lparr> req_name = ''Lab'', req_operation = Install_Linux, req_image_id = 4,
     req_targets = [sample_target],
     req_options = default_options\<lparr> opt_linux_install := Some
       \<lparr> lin_hostname = ''node1'', lin_username = ''admin'',
         lin_ssh_authorized_keys = [''ssh-rsa AAAAB3NzaC1yc2EA''] \<rparr> \<rparr> \<rparr>"

definition sample_env :: "uuid \<Rightarrow> instant \<Rightarrow> job_env" where
  "sample_env i t = \<lparr> env_clock = (\<lambda>n. t + int n), env_fresh = i, env_write = Written \<rparr>"

text \<open>A repository with one waiting job, and with that job's attempt running.\<close>

definition waiting_repository :: "create_deployment_job \<Rightarrow> job_repository" where
  "waiting_repository req = snd (run_job_call (Enqueue req, sample_env 5 0) empty_repository)"

definition leased_linux_repository :: job_repository where
  "leased_linux_repository =
     snd (run_job_call (Lease_Installer 5 7 4 100, sample_env 9 10) (waiting_repository sample_linux_request))"

lemma sample_trims:
  "trim ''0'' = ''0''" "trim ''M'' = ''M''" "trim ''S1'' = ''S1''" "trim ''Office'' = ''Office''"
  "trim ''Lab'' = ''Lab''"
  by (simp_all add: trim_visible visible_def byte_def)

lemma sample_key_valid: "valid_ssh_public_key ''ssh-rsa AAAAB3NzaC1yc2EA''"
  by (simp add: valid_ssh_public_key_def is_ascii_def byte_def line_break_or_nul_def ascii_words_def
      is_ascii_space_def ssh_algorithms_def base64_byte_ok_def is_alnum_def is_digit_def
      is_upper_def is_lower_def)

lemma sample_options_valid:
  "validate_linux_options \<lparr> lin_hostname = ''node1'', lin_username = ''admin'',
     lin_ssh_authorized_keys = [''ssh-rsa AAAAB3NzaC1yc2EA''] \<rparr> = Ok ()"
  by (simp add: validate_linux_options_Ok valid_linux_hostname_def valid_linux_username_def
      sample_key_valid host_byte_ok_def user_byte_ok_def is_alnum_def is_digit_def
      is_upper_def is_lower_def byte_def)

lemma sample_requests_valid:
  "validate_request sample_windows_request = Ok ()" "validate_request sample_linux_request = Ok ()"
  by (simp_all add: validate_request_def sample_windows_request_def sample_linux_request_def
      sample_target_def default_options_def sample_trims sample_options_valid
      legacy_bios_mbr_valid fingerprint_incomplete_def serial_missing_def)

lemma waiting_jobs:
  "jr_jobs (waiting_repository sample_linux_request) = [new_job sample_linux_request Waiting 5 0]"
  "jr_jobs (waiting_repository sample_windows_request) = [new_job sample_windows_request Waiting 5 0]"
  by (simp_all add: waiting_repository_def enqueue_job_def insert_job_def sample_requests_valid
      Let_def empty_repository_def sample_env_def commit_jobs_def reply_with_def)
    (simp_all add: sample_linux_request_def sample_windows_request_def)

definition leased_linux_job :: deployment_job where
  "leased_linux_job = (new_job sample_linux_request Waiting 5 0)
     \<lparr> job_state := Running, job_stage := Some Validating_Target, job_progress_percent := 1,
        job_status_message := Some ''Linux installer target guard authorized'',
        job_error_message := None, job_lease_id := Some 9, job_lease_expires_at := Some 110, job_updated_at := 10 \<rparr>"

lemma sample_requests [simp]:
  "req_operation sample_linux_request = Install_Linux"
  "req_image_id sample_linux_request = 4"
  "req_targets sample_linux_request = [sample_target]"
  "req_operation sample_windows_request = Deploy_Wim"
  "req_targets sample_windows_request = [sample_target]"
  "tgt_device_id sample_target = 7"
  by (simp_all add: sample_linux_request_def sample_windows_request_def sample_target_def)

lemmas sample_job_simps = sample_env_def job_at_def job_device_def

lemma leased_jobs: "jr_jobs leased_linux_repository = [leased_linux_job]"
  by (simp add: leased_linux_repository_def lease_installer_job_def modify_job_def waiting_jobs
      handoff_guard_def apply_installer_lease_def allowed_transitions_def transition_def
      commit_jobs_def reply_with_def leased_linux_job_def sample_job_simps)

lemma sample_invariants:
  "jobs_inv (jr_jobs (waiting_repository sample_linux_request))"
  "jobs_inv (jr_jobs (waiting_repository sample_windows_request))"
  "jobs_inv (jr_jobs leased_linux_repository)"
proof -
  have ok: "job_ok (new_job sample_linux_request Waiting 5 0)"
    "job_ok (new_job sample_windows_request Waiting 5 0)"
    using new_job_ok [OF sample_requests_valid(1)] new_job_ok [OF sample_requests_valid(2)]
    by (simp_all add: sample_linux_request_def sample_windows_request_def)
  then show "jobs_inv (jr_jobs (waiting_repository sample_linux_request))"
    "jobs_inv (jr_jobs (waiting_repository sample_windows_request))"
    by (simp_all add: jobs_inv_def waiting_jobs)
  from ok(1) show "jobs_inv (jr_jobs leased_linux_repository)"
    by (auto simp: jobs_inv_def leased_jobs leased_linux_job_def job_ok_def)
qed

lemma sample_fresh:
  "fresh_env (q, sample_env 9 t) (waiting_repository sample_windows_request)"
  "fresh_env (q, sample_env 5 t) empty_repository"
  by (simp_all add: fresh_env_def waiting_jobs empty_repository_def sample_env_def new_job_def)

theorem job_calls_refine_steps_witness:
  "fst (run_job_call (Lease_Device 7 100 (\<lambda>_. True), sample_env 9 10)
     (waiting_repository sample_windows_request)) \<noteq> Panic"
  using job_calls_refine_steps [OF sample_invariants(2) sample_fresh(1)] by blast

theorem job_histories_keep_invariant_witness:
  "jobs_inv (jr_jobs (run_ops run_job_call
     [(Enqueue sample_windows_request, sample_env 5 0),
      (Lease_Device 7 100 (\<lambda>_. True), sample_env 9 10)] empty_repository))"
  using job_histories_keep_invariant [of "[(Enqueue sample_windows_request, sample_env 5 0),
      (Lease_Device 7 100 (\<lambda>_. True), sample_env 9 10)]"]
    sample_fresh waiting_repository_def
  by simp

theorem reopen_restores_jobs_witness:
  "open_jobs
     \<lparr> cd_render = (\<lambda>m. [123, 125]),
       cd_parse = (\<lambda>b. if b = [123, 125] then
         Some (job_manifest_of [new_job sample_linux_request Waiting 5 0]) else None) \<rparr>
     \<lparr> fa_directory = True, fa_found = True, fa_readable = True \<rparr>
     (jr_manifest (run_ops run_job_call
       [(Enqueue sample_linux_request, (sample_env 5 0) \<lparr> env_write := Write_Failed (Other [0]) \<rparr>),
        (Enqueue sample_linux_request, sample_env 5 0)] empty_repository)) =
   Ok \<lparr> jr_manifest = Stored (job_manifest_of [new_job sample_linux_request Waiting 5 0]),
        jr_jobs = [new_job sample_linux_request Waiting 5 0] \<rparr>"
proof -
  let ?c = "\<lparr> cd_render = (\<lambda>m. [123, 125]),
    cd_parse = (\<lambda>b. if b = [123, 125] then
      Some (job_manifest_of [new_job sample_linux_request Waiting 5 0]) else None) \<rparr>"
  let ?io = "\<lparr> fa_directory = True, fa_found = True, fa_readable = True \<rparr>"
  let ?bad = "(Enqueue sample_linux_request, (sample_env 5 0) \<lparr> env_write := Write_Failed (Other [0]) \<rparr>)"
  let ?q = "(Enqueue sample_linux_request, sample_env 5 0)"
  let ?failed = "\<lparr> jr_manifest = Other [0], jr_jobs = [] \<rparr>"
  have bad: "run_job_call ?bad empty_repository = (Err Job_Write_Error, ?failed)"
    by (simp add: enqueue_job_def insert_job_def sample_requests_valid Let_def sample_env_def
        empty_repository_def commit_jobs_def reply_with_def)
  have run: "run_job_call ?q ?failed =
      (Ok (Job_Reply (new_job sample_linux_request Waiting 5 0)),
       \<lparr> jr_manifest = Stored (job_manifest_of [new_job sample_linux_request Waiting 5 0]),
         jr_jobs = [new_job sample_linux_request Waiting 5 0] \<rparr>)"
    by (simp add: enqueue_job_def insert_job_def sample_requests_valid Let_def sample_env_def
        commit_jobs_def reply_with_def)
  have b: "run_ops run_job_call [?bad] empty_repository = ?failed"
    by (simp only: run_ops.simps bad snd_conv)
  have a: "run_ops run_job_call [?bad, ?q] empty_repository = snd (run_job_call ?q ?failed)"
    by (simp only: run_ops.simps bad snd_conv)
  from reopen_restores_jobs [where qs = "[?bad]" and repo = empty_repository and q = ?q and c = ?c and io = ?io]
  show ?thesis unfolding a b run by simp
qed

theorem linux_starts_only_by_handoff_witness:
  "\<exists>t. fst (Lease_Installer 5 7 4 100, sample_env 9 10) =
     Lease_Installer 5 (job_device leased_linux_job) (job_image_id leased_linux_job) t"
proof -
  have "job_at leased_linux_repository 5 = Some leased_linux_job"
    by (simp add: job_at_def leased_jobs leased_linux_job_def new_job_def)
  then have "job_at (snd (run_job_call (Lease_Installer 5 7 4 100, sample_env 9 10)
      (waiting_repository sample_linux_request))) 5 = Some leased_linux_job"
    by (simp only: leased_linux_repository_def)
  from linux_starts_only_by_handoff [OF sample_invariants(1) _ _ this,
      of "new_job sample_linux_request Waiting 5 0"]
  show ?thesis
    by (simp add: job_at_def waiting_jobs leased_linux_job_def sample_job_simps)
qed

lemma leased_at: "job_at leased_linux_repository 5 = Some leased_linux_job"
  by (simp add: job_at_def leased_jobs leased_linux_job_def new_job_def)

theorem linux_succeeds_only_by_confirmation_witness:
  "\<not> lease_expired (job_lease_expires_at leased_linux_job) 20"
proof -
  let ?q = "(Complete_Installer 5 7 9 True None, sample_env 3 20)"
  obtain j' where j': "job_at (snd (run_job_call ?q leased_linux_repository)) 5 = Some j'"
    "job_state j' = Succeeded"
    by (simp add: complete_installer_def update_installer_job_def modify_job_def leased_jobs
        installer_guard_def apply_installer_completion_def allowed_transitions_def transition_def
        commit_jobs_def leased_linux_job_def lease_expired_def sample_job_simps)
  from linux_succeeds_only_by_confirmation [OF sample_invariants(3) leased_at _ j'(1) _ j'(2)]
  show ?thesis by (simp add: leased_linux_job_def sample_job_simps)
qed

theorem linux_attempt_monotone_witness:
  "\<exists>j'. job_at (snd (run_job_call (Report_Installer 5 7 9 100 Partitioning 20 None, sample_env 3 20)
      leased_linux_repository)) 5 = Some j' \<and> 3 \<le> stage_of j' \<and> 1 \<le> job_progress_percent j'"
proof -
  let ?q = "(Report_Installer 5 7 9 100 Partitioning 20 None, sample_env 3 20)"
  obtain j' where j': "job_at (snd (run_job_call ?q leased_linux_repository)) 5 = Some j'"
    "job_state j' = Running"
    by (simp add: report_installer_progress_def update_installer_job_def modify_job_def leased_jobs
        installer_guard_def apply_installer_progress_def apply_progress_def
        commit_jobs_def leased_linux_job_def lease_expired_def Let_def sample_job_simps)
  from linux_attempt_monotone [OF sample_invariants(3) leased_at _ j'(1) _ j'(2)] j'(1)
  show ?thesis by (simp add: leased_linux_job_def sample_job_simps stage_of_def)
qed

theorem agent_lease_exclusive_witness:
  "\<exists>j' repo'. lease_for_device_if 7 100 (\<lambda>_. True) 9 (\<lambda>n. 10) Written
      (waiting_repository sample_windows_request) = (Ok (Some j'), repo') \<and>
     authorized_lease (job_id j') 7 8 50 repo' = Err Invalid_Lease"
proof -
  obtain j' repo' where r: "lease_for_device_if 7 100 (\<lambda>_. True) 9 (\<lambda>n. 10) Written
      (waiting_repository sample_windows_request) = (Ok (Some j'), repo')"
    by (simp add: lease_for_device_if_def Let_def waiting_jobs agent_eligible_def
        apply_agent_lease_def transition_def allowed_transitions_def commit_jobs_def
        sample_job_simps)
  from agent_lease_exclusive [OF sample_invariants(2) r, of 8 50] r show ?thesis by simp
qed

end
