(* ===== verification/Installer_Sessions.thy ===== *)
theory Installer_Sessions
  imports Image_Data Installer_Rendering Job_Repository "HOL-Library.AList"
begin

text \<open>
  The sessions of the Linux installer
  (\<open>crates/service/src/installer_deployment.rs\<close>): offers made at boot, the
  hand-off of a job to the installer that proves it sees the target disk, the
  installer's events and the confirmation of the first boot.  The state is the
  registry, the job repository and the sessions, an association list without
  duplicate keys.  Parameters: the digest of tokens, the printer \<open>scalar\<close> of
  JSON strings and \<open>prepare\<close>, which gives the validated media of an image.  A
  call takes the readings of the clock it makes as \<open>clk 0\<close>, \<open>clk 1\<close>, \<dots>
\<close>

section \<open>State\<close>

definition minutes :: "int \<Rightarrow> int" where "minutes n = n * 60 * 1000000000"
definition offer_ttl_minutes :: int where "offer_ttl_minutes = 120"
definition installer_lease_minutes :: int where "installer_lease_minutes = 240"
definition max_installer_sessions :: nat where "max_installer_sessions = 4096"
definition max_session_token_bytes :: nat where "max_session_token_bytes = 256"
definition disk_size_tolerance_bytes :: u64 where "disk_size_tolerance_bytes = 1024 * 1024"

record installer_session =
  is_token_digest :: string
  is_attempt_id :: uuid
  is_device_id :: uuid
  is_job_id :: uuid
  is_image_id :: uuid
  is_base_url :: string
  is_expires_at :: instant
  is_phase :: installer_session_phase
  is_lease_id :: "uuid option"

type_synonym sessions = "(uuid \<times> installer_session) list"

record installer_deployment =
  ind_registry :: device_registry
  ind_jobs :: job_repository
  ind_sessions :: sessions

datatype installer_media_kind = Kernel | Initrd | Iso_Media

record installer_media =
  med_canonical_path :: string
  med_size_bytes :: u64
  med_sha256 :: string
  med_content_type :: string
  med_file_name :: string

record guard_authorization =
  ga_autoinstall :: string
  ga_job :: deployment_job

datatype installer_event_kind =
    Event_Partitioning | Event_Installing_System | Event_Configuring_Boot | Event_Finalizing
  | Event_Awaiting_First_Boot | Event_Failed

record installer_event_request =
  ev_kind :: installer_event_kind
  ev_message :: "string option"

datatype installer_error =
    Invalid_Request
  | Session_Unauthorized
  | Session_Expired
  | Invalid_Session_State
  | Authorization_In_Progress
  | Media_Integrity
  | Target_Disk_Mismatch
  | Session_Capacity
  | Session_State
  | Registry_Unavailable device_registry_error
  | Jobs_Unavailable job_repository_error
  | Invalid_Configuration

record session_env =
  se_clock :: "nat \<Rightarrow> instant"
  se_session :: uuid
  se_attempt :: uuid
  se_secret_a :: uuid
  se_secret_b :: uuid
  se_jobs :: job_env

section \<open>Access to a session\<close>

definition with_session ::
  "uuid \<Rightarrow> (installer_session \<Rightarrow> (installer_error, installer_session) outcome) \<Rightarrow> installer_deployment \<Rightarrow>
   (installer_error, unit) outcome \<times> installer_deployment" where
  "with_session sid f st =
     (case map_of (ind_sessions st) sid of
        None \<Rightarrow> (Err Session_Unauthorized, st)
      | Some s \<Rightarrow>
          (case f s of
             Ok s' \<Rightarrow> (Ok (), st \<lparr> ind_sessions := AList.update sid s' (ind_sessions st) \<rparr>)
           | Err e \<Rightarrow> (Err e, st)
           | Panic \<Rightarrow> (Panic, st)))"

definition set_session_phase ::
  "uuid \<Rightarrow> installer_session_phase \<Rightarrow> installer_session_phase \<Rightarrow> installer_deployment \<Rightarrow>
   (installer_error, unit) outcome \<times> installer_deployment" where
  "set_session_phase sid expected next =
     with_session sid (\<lambda>s. if is_phase s \<noteq> expected then Err Invalid_Session_State
       else Ok (s \<lparr> is_phase := next \<rparr>))"

definition mark_session_completed ::
  "uuid \<Rightarrow> installer_deployment \<Rightarrow> (installer_error, unit) outcome \<times> installer_deployment" where
  "mark_session_completed sid = with_session sid (\<lambda>s. Ok (s \<lparr> is_phase := Completed \<rparr>))"

definition binding_of :: "uuid \<Rightarrow> installer_session \<Rightarrow> session_binding" where
  "binding_of sid s =
     \<lparr> sb_session_id = sid, sb_attempt_id = is_attempt_id s, sb_device_id = is_device_id s,
       sb_job_id = is_job_id s, sb_image_id = is_image_id s, sb_base_url = is_base_url s,
       sb_phase = is_phase s, sb_lease_id = is_lease_id s \<rparr>"

definition authenticate_session ::
  "(string \<Rightarrow> string) \<Rightarrow> sessions \<Rightarrow> uuid \<Rightarrow> string \<Rightarrow> instant \<Rightarrow>
   (installer_error, session_binding) outcome" where
  "authenticate_session digest ss sid token now =
     (if token = [] \<or> length token > max_session_token_bytes then Err Session_Unauthorized
      else and_then (ok_or (map_of ss sid) Session_Unauthorized) (\<lambda>s.
        if \<not> secret_matches digest (is_token_digest s) token then Err Session_Unauthorized
        else if is_expires_at s < now then Err Session_Expired
        else Ok (binding_of sid s)))"

definition require_bound_job ::
  "job_repository \<Rightarrow> session_binding \<Rightarrow> job_state \<Rightarrow> (installer_error, deployment_job) outcome" where
  "require_bound_job jobs b required =
     and_then (ok_or (find (\<lambda>j. job_id j = sb_job_id b) (list_jobs jobs)) Invalid_Session_State) (\<lambda>j.
       if job_operation j \<noteq> Install_Linux \<or> job_image_id j \<noteq> sb_image_id b \<or>
          job_state j \<noteq> required \<or> length (job_targets j) \<noteq> 1 \<or>
          tgt_device_id (hd (job_targets j)) \<noteq> sb_device_id b
       then Err Invalid_Session_State else Ok j)"

section \<open>The target disk\<close>

definition disk_matches_target :: "deployment_target \<Rightarrow> string \<Rightarrow> linux_installer_observed_disk \<Rightarrow> bool" where
  "disk_matches_target t expected d =
     (eq_ignore_case (trim (obs_model d)) (trim (tgt_disk_model t)) \<and>
      abs_diff (obs_size_bytes d) (tgt_disk_size_bytes t) \<le> disk_size_tolerance_bytes \<and>
      (case obs_serial d of None \<Rightarrow> False | Some s \<Rightarrow> eq_ignore_case (trim s) expected))"

definition uniquely_matching_disk ::
  "deployment_target \<Rightarrow> linux_installer_observed_disk list \<Rightarrow>
   (installer_error, linux_installer_observed_disk) outcome" where
  "uniquely_matching_disk t disks =
     and_then
       (case tgt_disk_serial t of
          None \<Rightarrow> Err Target_Disk_Mismatch
        | Some s \<Rightarrow> if trim s = [] then Err Target_Disk_Mismatch else Ok (trim s)) (\<lambda>expected.
       (case filter (disk_matches_target t expected) disks of
          [d] \<Rightarrow> Ok d
        | _ \<Rightarrow> Err Target_Disk_Mismatch))"

section \<open>Offers\<close>

definition is_x86_64_architecture :: "string \<Rightarrow> bool" where
  "is_x86_64_architecture v = (map to_lower (trim v) \<in> {''x86_64'', ''amd64'', ''x86-64''})"

definition is_uefi_platform :: "string \<Rightarrow> bool" where
  "is_uefi_platform v = (map to_lower (trim v) \<in> {''efi'', ''uefi''})"

definition assigned_to :: "uuid \<Rightarrow> deployment_job \<Rightarrow> bool" where
  "assigned_to d j =
     (job_operation j = Install_Linux \<and> \<not> is_terminal (job_state j) \<and>
      length (job_targets j) = 1 \<and> tgt_device_id (hd (job_targets j)) = d)"

definition boot_refused :: "string \<Rightarrow> string \<Rightarrow> device \<Rightarrow> deployment_job \<Rightarrow> bool" where
  "boot_refused arch platform d j =
     (\<not> is_x86_64_architecture arch \<or> \<not> is_uefi_platform platform \<or>
      dev_architecture d \<noteq> X86_64 \<or> dev_boot_mode d \<noteq> Uefi \<or>
      (case opt_linux_install (job_options j) of
         None \<Rightarrow> True
       | Some opts \<Rightarrow> \<not> is_ok (validate_linux_options opts)) \<or>
      serial_missing (hd (job_targets j)))"

definition media_refused :: "prepared_linux_iso option \<Rightarrow> device \<Rightarrow> deployment_job \<Rightarrow> bool" where
  "media_refused media d j =
     (case media of
        None \<Rightarrow> True
      | Some p \<Rightarrow>
          pli_artifact_id p \<noteq> job_image_id j \<or>
          cap_architecture (pli_capability p) \<noteq> X86_64 \<or>
          dev_memory_bytes d < cap_minimum_memory_bytes (pli_capability p) \<or>
          tgt_disk_size_bytes (hd (job_targets j)) < cap_minimum_disk_bytes (pli_capability p))"

text \<open>The new session replaces every session of the same job; expired ones go, too.\<close>

definition kept_sessions :: "instant \<Rightarrow> uuid \<Rightarrow> sessions \<Rightarrow> sessions" where
  "kept_sessions now i ss = filter (\<lambda>(k, s). is_job_id s \<noteq> i) (filter (\<lambda>(k, s). is_expires_at s \<ge> now) ss)"

definition offer_session ::
  "(string \<Rightarrow> string) \<Rightarrow> session_env \<Rightarrow> string \<Rightarrow> device \<Rightarrow> deployment_job \<Rightarrow> installer_deployment \<Rightarrow>
   (installer_error, boot_outcome) outcome \<times> installer_deployment" where
  "offer_session digest e base d j st =
     (let token = generate_secret ''easydeploymesh_installer'' (se_secret_a e) (se_secret_b e);
          expires = se_clock e 0 + minutes offer_ttl_minutes;
          kept = kept_sessions (se_clock e 1) (job_id j) (ind_sessions st);
          session = \<lparr> is_token_digest = digest token, is_attempt_id = se_attempt e,
            is_device_id = dev_id d, is_job_id = job_id j, is_image_id = job_image_id j,
            is_base_url = base, is_expires_at = expires, is_phase = Offered, is_lease_id = None \<rparr> in
      if length kept \<ge> max_installer_sessions
      then (Err Session_Capacity, st \<lparr> ind_sessions := kept \<rparr>)
      else (Ok (Assigned \<lparr> ba_session_id = se_session e, ba_attempt_id = se_attempt e, ba_token = token,
              ba_expires_at = expires, ba_base_url = base \<rparr>),
            st \<lparr> ind_sessions := AList.update (se_session e) session kept \<rparr>))"

definition discover_job ::
  "(string \<Rightarrow> string) \<Rightarrow> (uuid \<Rightarrow> prepared_linux_iso option) \<Rightarrow> string \<Rightarrow> string \<Rightarrow> string \<Rightarrow>
   session_env \<Rightarrow> device \<Rightarrow> deployment_job \<Rightarrow> installer_deployment \<Rightarrow>
   (installer_error, boot_outcome) outcome \<times> installer_deployment" where
  "discover_job digest prepare arch platform base e d j st =
     (if boot_refused arch platform d j \<or> media_refused (prepare (job_image_id j)) d j
      then (Ok Denied, st)
      else
        (case mark_installer_booting (job_id j) (dev_id d) (job_image_id j)
                (env_clock (se_jobs e)) (env_write (se_jobs e)) (ind_jobs st) of
           (Ok _, jobs) \<Rightarrow> offer_session digest e base d j (st \<lparr> ind_jobs := jobs \<rparr>)
         | (Err _, jobs) \<Rightarrow> (Ok Denied, st \<lparr> ind_jobs := jobs \<rparr>)
         | (Panic, jobs) \<Rightarrow> (Panic, st \<lparr> ind_jobs := jobs \<rparr>)))"

definition discover ::
  "(string \<Rightarrow> string) \<Rightarrow> (uuid \<Rightarrow> prepared_linux_iso option) \<Rightarrow> string \<Rightarrow> string \<Rightarrow> string \<Rightarrow> string \<Rightarrow>
   session_env \<Rightarrow> installer_deployment \<Rightarrow>
   (installer_error, boot_outcome) outcome \<times> installer_deployment" where
  "discover digest prepare mac arch platform base e st =
     (if length mac > 64 \<or> length arch > 32 \<or> length platform > 32 \<or> length base > 512
      then (Ok Denied, st)
      else
        (case find_by_mac (ind_registry st) mac of
           Err x \<Rightarrow> (Err (Registry_Unavailable x), st)
         | Panic \<Rightarrow> (Panic, st)
         | Ok None \<Rightarrow> (Ok Denied, st)
         | Ok (Some d) \<Rightarrow>
             (case filter (assigned_to (dev_id d)) (list_jobs (ind_jobs st)) of
                [] \<Rightarrow> (Ok No_Assignment, st)
              | [j] \<Rightarrow>
                  if job_state j \<noteq> Waiting then (Ok Denied, st)
                  else discover_job digest prepare arch platform base e d j st
              | _ \<Rightarrow> (Ok Denied, st))))"

section \<open>Seed and media\<close>

definition offered_binding ::
  "(string \<Rightarrow> string) \<Rightarrow> uuid \<Rightarrow> string \<Rightarrow> session_env \<Rightarrow> installer_deployment \<Rightarrow>
   (installer_error, session_binding) outcome" where
  "offered_binding digest sid token e st =
     and_then (authenticate_session digest (ind_sessions st) sid token (se_clock e 0)) (\<lambda>b.
       if sb_phase b \<noteq> Offered then Err Invalid_Session_State
       else map_ok (\<lambda>_. b) (require_bound_job (ind_jobs st) b Waiting))"

definition initial_user_data where
  "initial_user_data digest sid token e st =
     map_ok (\<lambda>b. render_initial_user_data b token) (offered_binding digest sid token e st)"

definition initial_meta_data where
  "initial_meta_data digest sid token e st =
     map_ok render_initial_meta_data (offered_binding digest sid token e st)"

definition media_from_prepared :: "prepared_asset \<Rightarrow> string \<Rightarrow> string \<Rightarrow> installer_media" where
  "media_from_prepared a content_type file_name =
     \<lparr> med_canonical_path = pa_canonical_path a, med_size_bytes = pa_size_bytes a,
       med_sha256 = pa_sha256 a, med_content_type = content_type, med_file_name = file_name \<rparr>"

fun media_of_kind :: "prepared_linux_iso \<Rightarrow> installer_media_kind \<Rightarrow> installer_media" where
  "media_of_kind p Kernel = media_from_prepared (pli_kernel p) ''application/octet-stream'' ''vmlinuz''"
| "media_of_kind p Initrd = media_from_prepared (pli_initrd p) ''application/octet-stream'' ''initrd''"
| "media_of_kind p Iso_Media = media_from_prepared (pli_iso p) ''application/x-iso9660-image'' ''ubuntu.iso''"

definition media_allowed :: "job_repository \<Rightarrow> session_binding \<Rightarrow> (installer_error, unit) outcome" where
  "media_allowed jobs b =
     (case sb_phase b of
        Offered \<Rightarrow> map_ok (\<lambda>_. ()) (require_bound_job jobs b Waiting)
      | Authorizing \<Rightarrow> Err Invalid_Session_State
      | Completed \<Rightarrow> Err Invalid_Session_State
      | _ \<Rightarrow> and_then (require_bound_job jobs b Running) (\<lambda>j.
          if job_lease_id j \<noteq> sb_lease_id b then Err Invalid_Session_State else Ok ()))"

definition media ::
  "(string \<Rightarrow> string) \<Rightarrow> (uuid \<Rightarrow> prepared_linux_iso option) \<Rightarrow> uuid \<Rightarrow> string \<Rightarrow>
   installer_media_kind \<Rightarrow> session_env \<Rightarrow> installer_deployment \<Rightarrow>
   (installer_error, installer_media) outcome" where
  "media digest prepare sid token kind e st =
     and_then (authenticate_session digest (ind_sessions st) sid token (se_clock e 0)) (\<lambda>b.
     and_then (media_allowed (ind_jobs st) b) (\<lambda>_.
     and_then (ok_or (prepare (sb_image_id b)) Media_Integrity) (\<lambda>p.
       if pli_artifact_id p \<noteq> sb_image_id b then Err Media_Integrity
       else Ok (media_of_kind p kind))))"

section \<open>The guard\<close>

definition prepared_for ::
  "(uuid \<Rightarrow> prepared_linux_iso option) \<Rightarrow> session_binding \<Rightarrow> linux_installer_guard_request \<Rightarrow>
   (installer_error, prepared_linux_iso) outcome" where
  "prepared_for prepare b req =
     and_then (ok_or (prepare (sb_image_id b)) Media_Integrity) (\<lambda>p.
       if \<not> eq_ignore_case (pa_sha256 (pli_iso p)) (gr_image_sha256 req) then Err Media_Integrity
       else Ok p)"

text \<open>What the first authorisation checks before it takes the lease: the configuration to hand out.\<close>

definition guard_checks ::
  "(string \<Rightarrow> string) \<Rightarrow> (uuid \<Rightarrow> prepared_linux_iso option) \<Rightarrow> session_binding \<Rightarrow> string \<Rightarrow>
   linux_installer_guard_request \<Rightarrow> job_repository \<Rightarrow> (installer_error, string) outcome" where
  "guard_checks scalar prepare b token req jobs =
     and_then (prepared_for prepare b req) (\<lambda>p.
     if pli_artifact_id p \<noteq> sb_image_id b then Err Media_Integrity
     else and_then (require_bound_job jobs b Waiting) (\<lambda>j.
     and_then (case job_targets j of [] \<Rightarrow> Err Invalid_Session_State | t # _ \<Rightarrow> Ok t) (\<lambda>t.
     and_then (uniquely_matching_disk t (gr_disks req)) (\<lambda>d.
     if obs_size_bytes d < cap_minimum_disk_bytes (pli_capability p) then Err Target_Disk_Mismatch
     else and_then (ok_or (opt_linux_install (job_options j)) Invalid_Configuration) (\<lambda>opts.
     and_then (map_err (\<lambda>_. Invalid_Configuration) (validate_linux_options opts)) (\<lambda>_.
     map_err (\<lambda>_. Invalid_Configuration)
       (render_final_autoinstall scalar b token opts (obs_path d))))))))"

definition hand_off :: "uuid \<Rightarrow> instant \<Rightarrow> installer_session \<Rightarrow> (installer_error, installer_session) outcome" where
  "hand_off lease expires s =
     (if is_phase s \<noteq> Authorizing then Err Invalid_Session_State
      else Ok (s \<lparr> is_phase := Handed_Off, is_lease_id := Some lease, is_expires_at := expires \<rparr>))"

definition perform_initial_guard_authorization ::
  "(string \<Rightarrow> string) \<Rightarrow> (uuid \<Rightarrow> prepared_linux_iso option) \<Rightarrow> session_binding \<Rightarrow> string \<Rightarrow>
   linux_installer_guard_request \<Rightarrow> session_env \<Rightarrow> installer_deployment \<Rightarrow>
   (installer_error, guard_authorization) outcome \<times> installer_deployment" where
  "perform_initial_guard_authorization scalar prepare b token req e st =
     (case guard_checks scalar prepare b token req (ind_jobs st) of
        Err x \<Rightarrow> (Err x, st)
      | Panic \<Rightarrow> (Panic, st)
      | Ok config \<Rightarrow>
          (case lease_installer_job (sb_job_id b) (sb_device_id b) (sb_image_id b)
                  (minutes installer_lease_minutes) (env_fresh (se_jobs e)) (env_clock (se_jobs e))
                  (env_write (se_jobs e)) (ind_jobs st) of
             (Err x, jobs) \<Rightarrow> (Err (Jobs_Unavailable x), st \<lparr> ind_jobs := jobs \<rparr>)
           | (Panic, jobs) \<Rightarrow> (Panic, st \<lparr> ind_jobs := jobs \<rparr>)
           | (Ok leased, jobs) \<Rightarrow>
               let st = st \<lparr> ind_jobs := jobs \<rparr> in
               (case (job_lease_id leased, job_lease_expires_at leased) of
                  (Some lease, Some expires) \<Rightarrow>
                    reply_with (\<lambda>_. \<lparr> ga_autoinstall = config, ga_job = leased \<rparr>)
                      (with_session (sb_session_id b) (hand_off lease expires) st)
                | _ \<Rightarrow> (Err Invalid_Session_State, st))))"

definition replay_guard_authorization ::
  "(string \<Rightarrow> string) \<Rightarrow> (uuid \<Rightarrow> prepared_linux_iso option) \<Rightarrow> session_binding \<Rightarrow> string \<Rightarrow>
   linux_installer_guard_request \<Rightarrow> job_repository \<Rightarrow> (installer_error, guard_authorization) outcome" where
  "replay_guard_authorization scalar prepare b token req jobs =
     and_then (prepared_for prepare b req) (\<lambda>p.
     and_then (require_bound_job jobs b Running) (\<lambda>j.
     if job_lease_id j \<noteq> sb_lease_id b then Err Invalid_Session_State
     else if job_targets j = [] then Panic
     else and_then (uniquely_matching_disk (hd (job_targets j)) (gr_disks req)) (\<lambda>d.
     and_then (ok_or (opt_linux_install (job_options j)) Invalid_Configuration) (\<lambda>opts.
     map_ok (\<lambda>config. \<lparr> ga_autoinstall = config, ga_job = j \<rparr>)
       (map_err (\<lambda>_. Invalid_Configuration)
         (render_final_autoinstall scalar b token opts (obs_path d)))))))"

definition authorize_guard ::
  "(string \<Rightarrow> string) \<Rightarrow> (string \<Rightarrow> string) \<Rightarrow> (uuid \<Rightarrow> prepared_linux_iso option) \<Rightarrow> uuid \<Rightarrow> string \<Rightarrow>
   linux_installer_guard_request \<Rightarrow> session_env \<Rightarrow> installer_deployment \<Rightarrow>
   (installer_error, guard_authorization) outcome \<times> installer_deployment" where
  "authorize_guard digest scalar prepare sid token req e st =
     (case and_then (map_err (\<lambda>_. Invalid_Request) (validate_guard_request req)) (\<lambda>_.
             authenticate_session digest (ind_sessions st) sid token (se_clock e 0)) of
        Err x \<Rightarrow> (Err x, st)
      | Panic \<Rightarrow> (Panic, st)
      | Ok b \<Rightarrow>
          (case sb_phase b of
             Authorizing \<Rightarrow> (Err Authorization_In_Progress, st)
           | Completed \<Rightarrow> (Err Invalid_Session_State, st)
           | Offered \<Rightarrow>
               (case set_session_phase sid Offered Authorizing st of
                  (Err x, st) \<Rightarrow> (Err x, st)
                | (Panic, st) \<Rightarrow> (Panic, st)
                | (Ok _, st) \<Rightarrow>
                    (case perform_initial_guard_authorization scalar prepare b token req e st of
                       (Err x, st) \<Rightarrow> (Err x, snd (set_session_phase sid Authorizing Offered st))
                     | r \<Rightarrow> r))
           | _ \<Rightarrow> (replay_guard_authorization scalar prepare b token req (ind_jobs st), st)))"

section \<open>Events and completion\<close>

fun installer_event_progress :: "installer_event_kind \<Rightarrow> deployment_stage \<times> u8" where
  "installer_event_progress Event_Partitioning = (Partitioning, 10)"
| "installer_event_progress Event_Installing_System = (Installing_System, 45)"
| "installer_event_progress Event_Configuring_Boot = (Configuring_Boot, 75)"
| "installer_event_progress Event_Finalizing = (Finalizing, 90)"
| "installer_event_progress Event_Awaiting_First_Boot = (Awaiting_First_Boot, 99)"
| "installer_event_progress Event_Failed = (Finalizing, 99)"

fun installer_event_message :: "installer_event_kind \<Rightarrow> string" where
  "installer_event_message Event_Partitioning = ''Linux installer is partitioning the authorized disk''"
| "installer_event_message Event_Installing_System = ''Linux installer is installing the system''"
| "installer_event_message Event_Configuring_Boot = ''Linux installer is configuring UEFI boot''"
| "installer_event_message Event_Finalizing = ''Linux installer is finalizing the installation''"
| "installer_event_message Event_Awaiting_First_Boot = ''Linux installer is awaiting first-boot confirmation''"
| "installer_event_message Event_Failed = ''Linux installer reported a failure''"

definition attempt_lease :: "session_binding \<Rightarrow> (installer_error, uuid) outcome" where
  "attempt_lease b =
     (if sb_phase b \<noteq> Handed_Off \<and> sb_phase b \<noteq> Awaiting_Confirmation then Err Invalid_Session_State
      else ok_or (sb_lease_id b) Invalid_Session_State)"

text \<open>End the job for the installer, then the session.\<close>

definition finish_attempt ::
  "session_binding \<Rightarrow> uuid \<Rightarrow> bool \<Rightarrow> session_env \<Rightarrow> installer_deployment \<Rightarrow>
   (installer_error, deployment_job) outcome \<times> installer_deployment" where
  "finish_attempt b lease succeeded e st =
     (case complete_installer (sb_job_id b) (sb_device_id b) lease succeeded None
             (env_clock (se_jobs e)) (env_write (se_jobs e)) (ind_jobs st) of
        (Err x, jobs) \<Rightarrow> (Err (Jobs_Unavailable x), st \<lparr> ind_jobs := jobs \<rparr>)
      | (Panic, jobs) \<Rightarrow> (Panic, st \<lparr> ind_jobs := jobs \<rparr>)
      | (Ok j, jobs) \<Rightarrow>
          reply_with (\<lambda>_. j) (mark_session_completed (sb_session_id b) (st \<lparr> ind_jobs := jobs \<rparr>)))"

definition message_refused :: "string option \<Rightarrow> bool" where
  "message_refused m = (case m of None \<Rightarrow> False | Some s \<Rightarrow> length s > 2048 \<or> CHR 0x00 \<in> set s)"

definition report_event ::
  "(string \<Rightarrow> string) \<Rightarrow> uuid \<Rightarrow> string \<Rightarrow> installer_event_request \<Rightarrow> session_env \<Rightarrow> installer_deployment \<Rightarrow>
   (installer_error, deployment_job) outcome \<times> installer_deployment" where
  "report_event digest sid token req e st =
     (if message_refused (ev_message req) then (Err Invalid_Request, st)
      else
        (case and_then (authenticate_session digest (ind_sessions st) sid token (se_clock e 0))
                (\<lambda>b. map_ok (\<lambda>l. (b, l)) (attempt_lease b)) of
           Err x \<Rightarrow> (Err x, st)
         | Panic \<Rightarrow> (Panic, st)
         | Ok (b, lease) \<Rightarrow>
             if ev_kind req = Event_Failed then finish_attempt b lease False e st
             else
               let (stage, progress) = installer_event_progress (ev_kind req) in
               (case report_installer_progress (sb_job_id b) (sb_device_id b) lease
                       (minutes installer_lease_minutes) stage progress
                       (Some (installer_event_message (ev_kind req)))
                       (env_clock (se_jobs e)) (env_write (se_jobs e)) (ind_jobs st) of
                  (Err x, jobs) \<Rightarrow> (Err (Jobs_Unavailable x), st \<lparr> ind_jobs := jobs \<rparr>)
                | (Panic, jobs) \<Rightarrow> (Panic, st \<lparr> ind_jobs := jobs \<rparr>)
                | (Ok j, jobs) \<Rightarrow>
                    let st = st \<lparr> ind_jobs := jobs \<rparr> in
                    if ev_kind req = Event_Awaiting_First_Boot \<and> sb_phase b = Handed_Off
                    then reply_with (\<lambda>_. j) (set_session_phase sid Handed_Off Awaiting_Confirmation st)
                    else (Ok j, st))))"

definition complete_first_boot ::
  "(string \<Rightarrow> string) \<Rightarrow> uuid \<Rightarrow> string \<Rightarrow> uuid \<Rightarrow> session_env \<Rightarrow> installer_deployment \<Rightarrow>
   (installer_error, deployment_job option) outcome \<times> installer_deployment" where
  "complete_first_boot digest sid token attempt e st =
     (case authenticate_session digest (ind_sessions st) sid token (se_clock e 0) of
        Err x \<Rightarrow> (Err x, st)
      | Panic \<Rightarrow> (Panic, st)
      | Ok b \<Rightarrow>
          if sb_attempt_id b \<noteq> attempt then (Err Invalid_Session_State, st)
          else if sb_phase b = Completed then (Ok None, st)
          else
            (case attempt_lease b of
               Err x \<Rightarrow> (Err x, st)
             | Panic \<Rightarrow> (Panic, st)
             | Ok lease \<Rightarrow> reply_with Some (finish_attempt b lease True e st)))"

end
