(* ===== verification/Installer_Safety.thy ===== *)
theory Installer_Safety
  imports Installer_Sessions
begin

text \<open>
  What the installer's protocol guarantees, over histories of calls of the
  service: the sessions' own invariant, the way a Linux job starts and ends, and
  the repetition of an authorisation.  The calls of the host and of the agents
  to the repository and the registry are part of a history, as any call but
  those only the installer's protocol makes.
\<close>

section \<open>Calls\<close>

datatype service_call =
    Boot string string string string
  | Guard uuid string linux_installer_guard_request
  | Event uuid string installer_event_request
  | First_Boot uuid string uuid
  | Host job_call
  | Agent device_call device_env

fun installer_only :: "job_call \<Rightarrow> bool" where
  "installer_only (Mark_Booting i d img) = True"
| "installer_only (Lease_Installer i d img t) = True"
| "installer_only (Report_Installer i d l t st pct msg) = True"
| "installer_only (Complete_Installer i d l ok msg) = True"
| "installer_only _ = False"

text \<open>The three parameters of the model together.\<close>

record service_world =
  sw_digest :: "string \<Rightarrow> string"
  sw_scalar :: "string \<Rightarrow> string"
  sw_prepare :: "uuid \<Rightarrow> prepared_linux_iso option"

fun service_step ::
  "service_world \<Rightarrow> service_call \<Rightarrow> session_env \<Rightarrow> installer_deployment \<Rightarrow> installer_deployment" where
  "service_step w (Boot mac arch platform base) e st =
     snd (discover (sw_digest w) (sw_prepare w) mac arch platform base e st)"
| "service_step w (Guard sid token req) e st =
     snd (authorize_guard (sw_digest w) (sw_scalar w) (sw_prepare w) sid token req e st)"
| "service_step w (Event sid token req) e st = snd (report_event (sw_digest w) sid token req e st)"
| "service_step w (First_Boot sid token attempt) e st =
     snd (complete_first_boot (sw_digest w) sid token attempt e st)"
| "service_step w (Host q) e st = st \<lparr> ind_jobs := snd (run_job_call (q, se_jobs e) (ind_jobs st)) \<rparr>"
| "service_step w (Agent q de) e st =
     st \<lparr> ind_registry := snd (run_device_call (sw_digest w) (q, de) (ind_registry st)) \<rparr>"

fun permitted :: "service_call \<Rightarrow> bool" where
  "permitted (Host q) = (\<not> installer_only q)"
| "permitted _ = True"

section \<open>Sessions\<close>

fun phase_lease_ok :: "installer_session_phase \<Rightarrow> uuid option \<Rightarrow> bool" where
  "phase_lease_ok Offered l = (l = None)"
| "phase_lease_ok Authorizing l = False"
| "phase_lease_ok Handed_Off l = (l \<noteq> None)"
| "phase_lease_ok Awaiting_Confirmation l = (l \<noteq> None)"
| "phase_lease_ok Completed l = (l \<noteq> None)"

definition session_ok :: "installer_session \<Rightarrow> bool" where
  "session_ok s = phase_lease_ok (is_phase s) (is_lease_id s)"

definition sessions_inv :: "sessions \<Rightarrow> bool" where
  "sessions_inv ss =
     (distinct (map fst ss) \<and> distinct (map (is_job_id \<circ> snd) ss) \<and>
      length ss \<le> max_installer_sessions \<and> list_all (session_ok \<circ> snd) ss)"

text \<open>Replacing a session by one of the same job.\<close>

lemma map_snd_update_same:
  assumes "distinct (map fst ss)" "map_of ss k = Some s" "g s' = g s"
  shows "map (g \<circ> snd) (AList.update k s' ss) = map (g \<circ> snd) ss"
  using assms
proof (induction ss)
  case (Cons p ss)
  then show ?case by (cases p) (auto split: if_splits)
qed simp

lemma map_fst_update_same: "map_of ss k = Some s \<Longrightarrow> map fst (AList.update k s' ss) = map fst ss"
  by (induction ss) (auto split: if_splits)

lemma set_update_sub: "p \<in> set (AList.update k s' ss) \<Longrightarrow> p = (k, s') \<or> p \<in> set ss"
  by (induction ss) (auto split: if_splits)

lemma sessions_inv_replace:
  assumes "sessions_inv ss" "map_of ss k = Some s" "is_job_id s' = is_job_id s" "session_ok s'"
  shows "sessions_inv (AList.update k s' ss)"
proof -
  have "length (AList.update k s' ss) = length ss"
    using map_fst_update_same [OF assms(2), of s'] by (metis length_map)
  moreover have "list_all (session_ok \<circ> snd) (AList.update k s' ss)"
    using assms(1,4) by (auto simp: sessions_inv_def list_all_iff dest!: set_update_sub)
  ultimately show ?thesis
    using assms(1) map_fst_update_same [OF assms(2)] map_snd_update_same [of ss k s is_job_id s'] assms(2,3)
    by (simp add: sessions_inv_def)
qed

lemma with_session_sessions:
  assumes "sessions_inv (ind_sessions st)"
    and "\<And>s s'. map_of (ind_sessions st) k = Some s \<Longrightarrow> f s = Ok s' \<Longrightarrow> is_job_id s' = is_job_id s \<and> session_ok s'"
  shows "sessions_inv (ind_sessions (snd (with_session k f st)))"
  using assms by (auto simp: with_session_def intro: sessions_inv_replace split: option.split outcome.split)

lemma with_session_jobs [simp]: "ind_jobs (snd (with_session k f st)) = ind_jobs st"
  "ind_registry (snd (with_session k f st)) = ind_registry st"
  by (simp_all add: with_session_def split: option.split outcome.split)

lemma phase_change_jobs [simp]:
  "ind_jobs (snd (set_session_phase k p q st)) = ind_jobs st"
  "ind_jobs (snd (mark_session_completed k st)) = ind_jobs st"
  by (simp_all add: set_session_phase_def mark_session_completed_def)

lemma kept_sessions_props:
  assumes "sessions_inv ss"
  shows "distinct (map fst (kept_sessions now i ss))"
    "distinct (map (is_job_id \<circ> snd) (kept_sessions now i ss))"
    "list_all (session_ok \<circ> snd) (kept_sessions now i ss)"
    "length (kept_sessions now i ss) \<le> length ss"
    "\<forall>(k, s) \<in> set (kept_sessions now i ss). is_job_id s \<noteq> i"
  using assms
  by (auto simp: sessions_inv_def kept_sessions_def list_all_iff distinct_map_filter
      intro: le_trans [OF length_filter_le])

lemma update_new_key: "k \<notin> fst ` set ss \<Longrightarrow> AList.update k s ss = ss @ [(k, s)]"
  by (induction ss) auto

lemma sessions_inv_insert:
  assumes "sessions_inv ss" "length (kept_sessions now i ss) < max_installer_sessions"
    and "is_job_id s = i" "session_ok s" "k \<notin> fst ` set ss"
  shows "sessions_inv (AList.update k s (kept_sessions now i ss))"
proof -
  note p = kept_sessions_props [OF assms(1), of now i]
  have "k \<notin> fst ` set (kept_sessions now i ss)"
    using assms(5) by (auto simp: kept_sessions_def)
  then have u: "AList.update k s (kept_sessions now i ss) = kept_sessions now i ss @ [(k, s)]"
    by (rule update_new_key)
  show ?thesis
    using p assms(2-4) \<open>k \<notin> fst ` set (kept_sessions now i ss)\<close>
    by (auto simp: u sessions_inv_def)
qed

section \<open>An authorisation, step by step\<close>

lemma authenticated:
  assumes "authenticate_session digest ss sid token now = Ok b"
  shows "\<exists>s. map_of ss sid = Some s \<and> b = binding_of sid s \<and>
    secret_matches digest (is_token_digest s) token \<and> now \<le> is_expires_at s"
  using assms by (auto simp: authenticate_session_def outcome_simps not_less split: if_splits)

lemma authenticate_no_panic: "authenticate_session digest ss sid token now \<noteq> Panic"
  by (auto simp: authenticate_session_def outcome_simps split: if_splits)

lemma map_of_update [simp]: "map_of (AList.update k v ss) k = Some v"
  by (induction ss) auto

lemma claim_session:
  assumes "map_of (ind_sessions st) sid = Some s" "is_phase s = p"
  shows "set_session_phase sid p q st =
    (Ok (), st \<lparr> ind_sessions := AList.update sid (s \<lparr> is_phase := q \<rparr>) (ind_sessions st) \<rparr>)"
  using assms by (simp add: set_session_phase_def with_session_def)

lemma deployment_update_order [simp]:
  "st \<lparr> ind_sessions := x, ind_jobs := y \<rparr> = st \<lparr> ind_jobs := y, ind_sessions := x \<rparr>"
  by (cases st) simp

text \<open>A claim that is given back leaves the sessions as they were.\<close>

lemma release_session:
  assumes "map_of (ind_sessions st) sid = Some s" "is_phase s = p"
  shows "snd (set_session_phase sid q p
      (st \<lparr> ind_jobs := jobs, ind_sessions := AList.update sid (s \<lparr> is_phase := q \<rparr>) (ind_sessions st) \<rparr>)) =
    st \<lparr> ind_jobs := jobs \<rparr>"
  using assms
  by (simp add: set_session_phase_def with_session_def AList.update_triv)

lemma lease_outcome:
  assumes "lease_installer_job i d img t fresh clk w repo = (Ok j', repo')"
  shows "\<exists>j. find (\<lambda>j. job_id j = i) (jr_jobs repo) = Some j \<and> handoff_guard d img j = Ok () \<and>
    apply_installer_lease (clk 0) t fresh j = Ok j' \<and>
    jr_jobs repo' = update_first (\<lambda>j. job_id j = i) (\<lambda>_. j') (jr_jobs repo)"
  using assms
  by (cases w)
    (auto simp: lease_installer_job_def modify_job_def commit_jobs_def Let_def outcome_simps
      split: option.splits outcome.splits)

lemma leased_selectors:
  assumes "apply_installer_lease now t fresh j = Ok j'"
  shows "job_lease_id j' = Some fresh" "job_lease_expires_at j' = Some (now + t)"
    "job_state j' = Running" "job_id j' = job_id j" "job_targets j' = job_targets j"
    "job_options j' = job_options j" "job_operation j' = job_operation j"
    "job_image_id j' = job_image_id j" "job_created_at j' = job_created_at j"
  using assms by (auto simp: apply_installer_lease_def outcome_simps transition_Ok_iff)

definition handed_off :: "installer_session \<Rightarrow> deployment_job \<Rightarrow> installer_session" where
  "handed_off s j = s \<lparr> is_phase := Handed_Off, is_lease_id := job_lease_id j,
     is_expires_at := the (job_lease_expires_at j) \<rparr>"

text \<open>The first authorisation of an offer, in one equation.\<close>

lemma authorize_offer:
  assumes v: "validate_guard_request req = Ok u"
    and a: "authenticate_session digest (ind_sessions st) sid token (se_clock e 0) = Ok b"
    and s: "map_of (ind_sessions st) sid = Some s" "is_phase s = Offered" "b = binding_of sid s"
  shows "authorize_guard digest scalar prepare sid token req e st =
    (case guard_checks scalar prepare b token req (ind_jobs st) of
       Err x \<Rightarrow> (Err x, st)
     | Panic \<Rightarrow> (Panic, snd (set_session_phase sid Offered Authorizing st))
     | Ok config \<Rightarrow>
         (case lease_installer_job (is_job_id s) (is_device_id s) (is_image_id s)
                 (minutes installer_lease_minutes) (env_fresh (se_jobs e)) (env_clock (se_jobs e))
                 (env_write (se_jobs e)) (ind_jobs st) of
            (Err x, jobs) \<Rightarrow> (Err (Jobs_Unavailable x), st \<lparr> ind_jobs := jobs \<rparr>)
          | (Panic, jobs) \<Rightarrow> (Panic, (snd (set_session_phase sid Offered Authorizing st)) \<lparr> ind_jobs := jobs \<rparr>)
          | (Ok j, jobs) \<Rightarrow>
              (Ok \<lparr> ga_autoinstall = config, ga_job = j \<rparr>,
               st \<lparr> ind_jobs := jobs,
                   ind_sessions := AList.update sid (handed_off s j) (ind_sessions st) \<rparr>)))"
proof -
  let ?c = "s \<lparr> is_phase := Authorizing \<rparr>"
  let ?st = "st \<lparr> ind_sessions := AList.update sid ?c (ind_sessions st) \<rparr>"
  note claim = claim_session [OF s(1,2), of Authorizing]
  have ph: "sb_phase b = Offered" "sb_session_id b = sid" "sb_job_id b = is_job_id s"
    "sb_device_id b = is_device_id s" "sb_image_id b = is_image_id s"
    using s by (simp_all add: binding_of_def)
  note restored = release_session [OF s(1,2), of Authorizing]
  have restored0: "snd (set_session_phase sid Authorizing Offered ?st) = st"
    using s by (simp add: set_session_phase_def with_session_def AList.update_triv)
  show ?thesis
  proof (cases "guard_checks scalar prepare b token req (ind_jobs st)")
    case g: (Ok config)
    show ?thesis
    proof (cases "lease_installer_job (is_job_id s) (is_device_id s) (is_image_id s)
        (minutes installer_lease_minutes) (env_fresh (se_jobs e)) (env_clock (se_jobs e))
        (env_write (se_jobs e)) (ind_jobs st)")
      case (Pair r jobs)
      show ?thesis
      proof (cases r)
        case (Ok j)
        note l = leased_selectors(1,2)
        obtain k where k: "apply_installer_lease (env_clock (se_jobs e) 0)
            (minutes installer_lease_minutes) (env_fresh (se_jobs e)) k = Ok j"
          using lease_outcome Pair Ok by blast
        from l [OF k] g Pair Ok show ?thesis
          by (simp add: authorize_guard_def v a ph claim perform_initial_guard_authorization_def
              with_session_def hand_off_def handed_off_def reply_with_def)
      qed (use g Pair in
          \<open>simp_all add: authorize_guard_def v a ph claim perform_initial_guard_authorization_def restored\<close>)
    qed
  qed (simp_all add: authorize_guard_def v a ph claim perform_initial_guard_authorization_def restored0)
qed

lemma lease_no_panic: "fst (lease_installer_job i d img t fresh clk w repo) \<noteq> Panic"
  using handoff_guard_no_panic apply_installer_lease_no_panic
  by (cases w) (auto simp: lease_installer_job_def modify_job_def commit_jobs_def Let_def outcome_simps
      split: option.splits outcome.splits)

lemma guard_checks_no_panic: "guard_checks scalar prepare b token req jobs \<noteq> Panic"
  by (auto simp: guard_checks_def prepared_for_def require_bound_job_def uniquely_matching_disk_def
      render_final_autoinstall_def Let_def outcome_simps validate_linux_options_no_panic
      split: if_splits list.splits option.splits)

text \<open>Every authorisation: a hand-off of an offer, or no session is touched.\<close>

lemma authorize_cases:
  assumes "authorize_guard digest scalar prepare sid token req e st = (r, st')"
  obtains (hand_off) s config j jobs where
      "validate_guard_request req = Ok ()"
      "map_of (ind_sessions st) sid = Some s" "is_phase s = Offered"
      "secret_matches digest (is_token_digest s) token" "se_clock e 0 \<le> is_expires_at s"
      "guard_checks scalar prepare (binding_of sid s) token req (ind_jobs st) = Ok config"
      "lease_installer_job (is_job_id s) (is_device_id s) (is_image_id s)
         (minutes installer_lease_minutes) (env_fresh (se_jobs e)) (env_clock (se_jobs e))
         (env_write (se_jobs e)) (ind_jobs st) = (Ok j, jobs)"
      "r = Ok \<lparr> ga_autoinstall = config, ga_job = j \<rparr>"
      "st' = st \<lparr> ind_jobs := jobs, ind_sessions := AList.update sid (handed_off s j) (ind_sessions st) \<rparr>"
    | (failed_lease) s config x where
      "validate_guard_request req = Ok ()"
      "map_of (ind_sessions st) sid = Some s" "is_phase s = Offered"
      "secret_matches digest (is_token_digest s) token" "se_clock e 0 \<le> is_expires_at s"
      "guard_checks scalar prepare (binding_of sid s) token req (ind_jobs st) = Ok config"
      "r = Err (Jobs_Unavailable x)"
      "st' = st \<lparr> ind_jobs := snd (lease_installer_job (is_job_id s) (is_device_id s) (is_image_id s)
         (minutes installer_lease_minutes) (env_fresh (se_jobs e)) (env_clock (se_jobs e))
         (env_write (se_jobs e)) (ind_jobs st)) \<rparr>"
      "fst (lease_installer_job (is_job_id s) (is_device_id s) (is_image_id s)
         (minutes installer_lease_minutes) (env_fresh (se_jobs e)) (env_clock (se_jobs e))
         (env_write (se_jobs e)) (ind_jobs st)) = Err x"
    | (untouched) "st' = st"
proof -
  let ?auth = "authenticate_session digest (ind_sessions st) sid token (se_clock e 0)"
  show thesis
  proof (cases "\<exists>b. validate_guard_request req = Ok () \<and> ?auth = Ok b \<and> sb_phase b = Offered")
    case True
    then obtain b s where v: "validate_guard_request req = Ok ()" and a: "?auth = Ok b"
      and s: "map_of (ind_sessions st) sid = Some s" "is_phase s = Offered" "b = binding_of sid s"
        "secret_matches digest (is_token_digest s) token" "se_clock e 0 \<le> is_expires_at s"
      using authenticated by (fastforce simp: binding_of_def)
    note eq = authorize_offer [OF v a s(1-3), of scalar prepare]
    obtain lr jobs where l: "lease_installer_job (is_job_id s) (is_device_id s) (is_image_id s)
         (minutes installer_lease_minutes) (env_fresh (se_jobs e)) (env_clock (se_jobs e))
         (env_write (se_jobs e)) (ind_jobs st) = (lr, jobs)" by fastforce
    have np: "lr \<noteq> Panic" using lease_no_panic l by (metis fst_conv)
    show thesis
    proof (cases "guard_checks scalar prepare b token req (ind_jobs st)")
      case g: (Ok config)
      show thesis
      proof (cases lr)
        case (Ok j)
        with assms eq g l have "r = Ok \<lparr> ga_autoinstall = config, ga_job = j \<rparr>"
          "st' = st \<lparr> ind_jobs := jobs, ind_sessions := AList.update sid (handed_off s j) (ind_sessions st) \<rparr>"
          by simp_all
        with hand_off v s g l Ok show thesis by blast
      next
        case (Err x)
        with assms eq g l s failed_lease [OF v s(1,2,4,5), of config x] show thesis by simp
      qed (use np in simp)
    next
      case (Err x)
      with assms eq untouched show thesis by simp
    qed (simp add: guard_checks_no_panic)
  next
    case False
    have "st' = st"
    proof (cases "and_then (map_err (\<lambda>_. Invalid_Request) (validate_guard_request req)) (\<lambda>_. ?auth)")
      case (Ok b)
      then have "sb_phase b \<noteq> Offered" using False by (auto simp: outcome_simps)
      with Ok assms show ?thesis
        by (cases "sb_phase b") (simp_all add: authorize_guard_def)
    qed (use assms in \<open>simp_all add: authorize_guard_def\<close>)
    then show thesis by (rule untouched)
  qed
qed

lemma boot_cases:
  assumes "discover digest prepare mac arch platform base e st = (r, st')"
  obtains (offer) d j jobs job where
      "find_by_mac (ind_registry st) mac = Ok (Some d)"
      "filter (assigned_to (dev_id d)) (list_jobs (ind_jobs st)) = [j]" "job_state j = Waiting"
      "\<not> boot_refused arch platform d j" "\<not> media_refused (prepare (job_image_id j)) d j"
      "mark_installer_booting (job_id j) (dev_id d) (job_image_id j)
         (env_clock (se_jobs e)) (env_write (se_jobs e)) (ind_jobs st) = (Ok job, jobs)"
      "(r, st') = offer_session digest e base d j (st \<lparr> ind_jobs := jobs \<rparr>)"
    | (refused) i d img where "\<forall>a. r \<noteq> Ok (Assigned a)" "st' = st \<lparr> ind_jobs := snd (mark_installer_booting i d img
         (env_clock (se_jobs e)) (env_write (se_jobs e)) (ind_jobs st)) \<rparr>"
    | (untouched) "\<forall>a. r \<noteq> Ok (Assigned a)" "st' = st"
proof -
  show thesis
  proof (cases "\<exists>d j. find_by_mac (ind_registry st) mac = Ok (Some d) \<and>
      filter (assigned_to (dev_id d)) (list_jobs (ind_jobs st)) = [j] \<and> job_state j = Waiting \<and>
      \<not> boot_refused arch platform d j \<and> \<not> media_refused (prepare (job_image_id j)) d j \<and>
      length mac \<le> 64 \<and> length arch \<le> 32 \<and> length platform \<le> 32 \<and> length base \<le> 512")
    case True
    then obtain d j where d: "find_by_mac (ind_registry st) mac = Ok (Some d)"
        "filter (assigned_to (dev_id d)) (list_jobs (ind_jobs st)) = [j]" "job_state j = Waiting"
        "\<not> boot_refused arch platform d j" "\<not> media_refused (prepare (job_image_id j)) d j"
        "length mac \<le> 64" "length arch \<le> 32" "length platform \<le> 32" "length base \<le> 512"
      by blast
    obtain m jobs where m: "mark_installer_booting (job_id j) (dev_id d) (job_image_id j)
         (env_clock (se_jobs e)) (env_write (se_jobs e)) (ind_jobs st) = (m, jobs)" by fastforce
    have eq: "discover digest prepare mac arch platform base e st =
        discover_job digest prepare arch platform base e d j st"
      using d by (simp add: discover_def not_less)
    show thesis
    proof (cases m)
      case (Ok job)
      with assms eq d m show thesis by (intro offer [of d j job jobs]) (simp_all add: discover_job_def)
    next
      case (Err x)
      with assms eq d m show thesis
        by (intro refused [of "job_id j" "dev_id d" "job_image_id j"]) (auto simp: discover_job_def)
    next
      case Panic
      with assms eq d m show thesis
        by (intro refused [of "job_id j" "dev_id d" "job_image_id j"]) (auto simp: discover_job_def)
    qed
  next
    case False
    with assms show thesis
      by (intro untouched)
        (auto simp: discover_def discover_job_def split: if_splits outcome.splits option.splits list.splits)
  qed
qed

section \<open>Histories\<close>

fun service_run :: "service_world \<Rightarrow> (service_call \<times> session_env) list \<Rightarrow> installer_deployment \<Rightarrow> installer_deployment" where
  "service_run w [] st = st"
| "service_run w ((c, e) # cs) st = service_run w cs (service_step w c e st)"

text \<open>
  What the code relies on of \<open>Uuid::new_v4\<close>: a new session, job or lease does
  not get an identifier in use.
\<close>

fun fresh_history :: "service_world \<Rightarrow> (service_call \<times> session_env) list \<Rightarrow> installer_deployment \<Rightarrow> bool" where
  "fresh_history w [] st = True"
| "fresh_history w ((c, e) # cs) st =
     (se_session e \<notin> fst ` set (ind_sessions st) \<and>
      env_fresh (se_jobs e) \<notin> set (map job_id (jr_jobs (ind_jobs st))) \<and>
      Some (env_fresh (se_jobs e)) \<notin> set (map job_lease_id (jr_jobs (ind_jobs st))) \<and>
      fresh_history w cs (service_step w c e st))"

lemma finish_attempt_sessions:
  assumes "sessions_inv (ind_sessions st)" "map_of (ind_sessions st) (sb_session_id b) = Some s"
    and "is_lease_id s \<noteq> None"
  shows "sessions_inv (ind_sessions (snd (finish_attempt b lease ok e st)))"
  using assms
  by (auto simp: finish_attempt_def mark_session_completed_def session_ok_def
      intro!: with_session_sessions split: prod.split outcome.split)

lemma attempt_lease_Ok:
  "attempt_lease (binding_of sid s) = Ok l \<longleftrightarrow>
     is_phase s \<in> {Handed_Off, Awaiting_Confirmation} \<and> is_lease_id s = Some l"
  by (auto simp: attempt_lease_def binding_of_def outcome_simps)

text \<open>The two calls of the installer that end or advance an attempt, with what they need.\<close>

lemma event_cases:
  assumes "report_event digest sid token req e st = (r, st')"
  obtains (finish) s l where
      "map_of (ind_sessions st) sid = Some s" "is_lease_id s = Some l"
      "st' = snd (finish_attempt (binding_of sid s) l False e st)"
    | (advance) s l stage pct where
      "map_of (ind_sessions st) sid = Some s" "is_lease_id s = Some l"
      "let st1 = st \<lparr> ind_jobs := snd (report_installer_progress (is_job_id s) (is_device_id s) l
           (minutes installer_lease_minutes) stage pct (Some (installer_event_message (ev_kind req)))
           (env_clock (se_jobs e)) (env_write (se_jobs e)) (ind_jobs st)) \<rparr> in
       st' = st1 \<or> st' = snd (set_session_phase sid Handed_Off Awaiting_Confirmation st1)"
    | (untouched) "st' = st"
proof -
  let ?auth = "authenticate_session digest (ind_sessions st) sid token (se_clock e 0)"
  show thesis
  proof (cases "\<not> message_refused (ev_message req) \<and> (\<exists>b l. ?auth = Ok b \<and> attempt_lease b = Ok l)")
    case True
    then obtain b l where a: "\<not> message_refused (ev_message req)" "?auth = Ok b" "attempt_lease b = Ok l"
      by blast
    obtain s where s: "map_of (ind_sessions st) sid = Some s" "b = binding_of sid s"
      using authenticated [OF a(2)] by blast
    have l: "is_lease_id s = Some l" using a(3) by (simp add: s(2) attempt_lease_Ok)
    have b: "sb_job_id b = is_job_id s" "sb_device_id b = is_device_id s"
      by (simp_all add: s(2) binding_of_def)
    show thesis
    proof (cases "ev_kind req = Event_Failed")
      case True
      with assms a s l show thesis by (intro finish [of s l]) (simp_all add: report_event_def)
    next
      case False
      obtain stage pct where p: "installer_event_progress (ev_kind req) = (stage, pct)" by fastforce
      obtain pr jobs where pr: "report_installer_progress (is_job_id s) (is_device_id s) l
          (minutes installer_lease_minutes) stage pct (Some (installer_event_message (ev_kind req)))
          (env_clock (se_jobs e)) (env_write (se_jobs e)) (ind_jobs st) = (pr, jobs)" by fastforce
      show thesis
        using assms a False p pr b
        by (intro advance [OF s(1) l, of stage pct], cases pr)
          (auto simp: report_event_def Let_def reply_with_def split: if_splits)
    qed
  next
    case False
    with assms show thesis
      by (intro untouched, cases ?auth)
        (auto simp: report_event_def authenticate_no_panic map_ok_iffs split: if_splits outcome.splits)
  qed
qed

lemma first_boot_cases:
  assumes "complete_first_boot digest sid token attempt e st = (r, st')"
  obtains (finish) s l where
      "map_of (ind_sessions st) sid = Some s" "is_lease_id s = Some l" "is_attempt_id s = attempt"
      "secret_matches digest (is_token_digest s) token" "se_clock e 0 \<le> is_expires_at s"
      "is_phase s \<in> {Handed_Off, Awaiting_Confirmation}"
      "st' = snd (finish_attempt (binding_of sid s) l True e st)"
    | (untouched) "st' = st"
proof -
  let ?auth = "authenticate_session digest (ind_sessions st) sid token (se_clock e 0)"
  show thesis
  proof (cases "\<exists>b l. ?auth = Ok b \<and> sb_attempt_id b = attempt \<and> attempt_lease b = Ok l")
    case True
    then obtain b l where a: "?auth = Ok b" "sb_attempt_id b = attempt" "attempt_lease b = Ok l" by blast
    obtain s where s: "map_of (ind_sessions st) sid = Some s" "b = binding_of sid s"
        "secret_matches digest (is_token_digest s) token" "se_clock e 0 \<le> is_expires_at s"
      using authenticated [OF a(1)] by blast
    have l: "is_phase s \<in> {Handed_Off, Awaiting_Confirmation}" "is_lease_id s = Some l"
      using a(3) by (simp_all add: s(2) attempt_lease_Ok)
    with assms a s show thesis
      by (intro finish [of s l])
        (auto simp: complete_first_boot_def reply_with_def binding_of_def)
  next
    case False
    with assms show thesis
      by (intro untouched, cases ?auth)
        (auto simp: complete_first_boot_def split: if_splits outcome.splits)
  qed
qed

lemma service_step_sessions:
  assumes "sessions_inv (ind_sessions st)" "se_session e \<notin> fst ` set (ind_sessions st)"
  shows "sessions_inv (ind_sessions (service_step w c e st))"
proof (cases c)
  case (Boot mac arch platform base)
  obtain r st' where d: "discover (sw_digest w) (sw_prepare w) mac arch platform base e st = (r, st')"
    by fastforce
  from d have "sessions_inv (ind_sessions st')"
  proof (cases rule: boot_cases)
    case (offer d j jobs job)
    let ?kept = "kept_sessions (se_clock e 1) (job_id j) (ind_sessions st)"
    from offer(7) assms kept_sessions_props [OF assms(1), of "se_clock e 1" "job_id j"] show ?thesis
      by (cases "length ?kept \<ge> max_installer_sessions")
        (auto simp: offer_session_def Let_def not_le session_ok_def intro!: sessions_inv_insert,
          auto simp: sessions_inv_def)
  qed (use assms in simp_all)
  with Boot d show ?thesis by simp
next
  case (Guard sid token req)
  obtain r st' where d: "authorize_guard (sw_digest w) (sw_scalar w) (sw_prepare w) sid token req e st = (r, st')"
    by fastforce
  from d have "sessions_inv (ind_sessions st')"
  proof (cases rule: authorize_cases)
    case (hand_off s config j jobs)
    obtain k where "apply_installer_lease (env_clock (se_jobs e) 0)
        (minutes installer_lease_minutes) (env_fresh (se_jobs e)) k = Ok j"
      using lease_outcome [OF hand_off(7)] by blast
    from leased_selectors(1) [OF this] show ?thesis
      unfolding hand_off(9)
      by (simp add: sessions_inv_replace [OF assms(1) hand_off(2)] handed_off_def session_ok_def)
  qed (use assms in simp_all)
  with Guard d show ?thesis by simp
next
  case (Event sid token req)
  obtain r st' where d: "report_event (sw_digest w) sid token req e st = (r, st')" by fastforce
  from d have "sessions_inv (ind_sessions st')"
  proof (cases rule: event_cases)
    case (finish s l)
    with assms show ?thesis
      by (auto intro!: finish_attempt_sessions [of st _ s] simp: binding_of_def)
  next
    case (advance s l stage pct)
    then show ?thesis
      using assms(1)
      by (auto simp: Let_def set_session_phase_def session_ok_def intro!: with_session_sessions
          split: if_splits)
  qed (use assms in simp)
  with Event d show ?thesis by simp
next
  case (First_Boot sid token attempt)
  obtain r st' where d: "complete_first_boot (sw_digest w) sid token attempt e st = (r, st')" by fastforce
  from d have "sessions_inv (ind_sessions st')"
  proof (cases rule: first_boot_cases)
    case (finish s l)
    with assms show ?thesis
      by (auto intro!: finish_attempt_sessions [of st _ s] simp: binding_of_def)
  qed (use assms in simp)
  with First_Boot d show ?thesis by simp
qed (use assms in simp_all)

lemma service_run_sessions:
  "sessions_inv (ind_sessions st) \<Longrightarrow> fresh_history w cs st \<Longrightarrow>
     sessions_inv (ind_sessions (service_run w cs st))"
  by (induction w cs st rule: service_run.induct) (simp_all add: service_step_sessions)

definition initial_service :: "device_registry \<Rightarrow> job_repository \<Rightarrow> installer_deployment" where
  "initial_service reg jobs = \<lparr> ind_registry = reg, ind_jobs = jobs, ind_sessions = [] \<rparr>"

section \<open>Why a job moves\<close>

text \<open>The call of the repository that a call of the service may make, and what it has checked first.\<close>

fun causes :: "service_world \<Rightarrow> session_env \<Rightarrow> installer_deployment \<Rightarrow> service_call \<Rightarrow> job_call \<Rightarrow> bool" where
  "causes w e st (Boot mac arch platform base) q = (\<exists>i d img. q = Mark_Booting i d img)"
| "causes w e st (Guard sid token req) q =
     (\<exists>s config. map_of (ind_sessions st) sid = Some s \<and> is_phase s = Offered \<and>
        secret_matches (sw_digest w) (is_token_digest s) token \<and> se_clock e 0 \<le> is_expires_at s \<and>
        validate_guard_request req = Ok () \<and>
        guard_checks (sw_scalar w) (sw_prepare w) (binding_of sid s) token req (ind_jobs st) = Ok config \<and>
        q = Lease_Installer (is_job_id s) (is_device_id s) (is_image_id s) (minutes installer_lease_minutes))"
| "causes w e st (Event sid token req) q =
     ((\<exists>i d l t stage pct msg. q = Report_Installer i d l t stage pct msg) \<or>
      (\<exists>i d l. q = Complete_Installer i d l False None))"
| "causes w e st (First_Boot sid token attempt) q =
     (\<exists>s l. map_of (ind_sessions st) sid = Some s \<and> is_lease_id s = Some l \<and> is_attempt_id s = attempt \<and>
        secret_matches (sw_digest w) (is_token_digest s) token \<and> se_clock e 0 \<le> is_expires_at s \<and>
        is_phase s \<in> {Handed_Off, Awaiting_Confirmation} \<and>
        q = Complete_Installer (is_job_id s) (is_device_id s) l True None)"
| "causes w e st (Host q') q = (q = q')"
| "causes w e st (Agent q' de) q = False"

lemma finish_attempt_jobs:
  "ind_jobs (snd (finish_attempt (binding_of sid s) l ok e st)) =
     snd (complete_installer (is_job_id s) (is_device_id s) l ok None
       (env_clock (se_jobs e)) (env_write (se_jobs e)) (ind_jobs st))"
  by (simp add: finish_attempt_def binding_of_def split: prod.split outcome.split)

lemma run_installer_calls:
  "snd (run_job_call (Mark_Booting i d img, e) repo) =
     snd (mark_installer_booting i d img (env_clock e) (env_write e) repo)"
  "snd (run_job_call (Lease_Installer i d img t, e) repo) =
     snd (lease_installer_job i d img t (env_fresh e) (env_clock e) (env_write e) repo)"
  "snd (run_job_call (Report_Installer i d l t stage pct msg, e) repo) =
     snd (report_installer_progress i d l t stage pct msg (env_clock e) (env_write e) repo)"
  "snd (run_job_call (Complete_Installer i d l ok msg, e) repo) =
     snd (complete_installer i d l ok msg (env_clock e) (env_write e) repo)"
  by simp_all

lemma offer_session_jobs [simp]: "ind_jobs (snd (offer_session digest e base d j st)) = ind_jobs st"
  by (simp add: offer_session_def Let_def)

lemma service_jobs:
  defines "after \<equiv> \<lambda>q e st. snd (run_job_call (q, se_jobs e) (ind_jobs st))"
  shows "ind_jobs (service_step w c e st) = ind_jobs st \<or>
    (\<exists>q. causes w e st c q \<and> ind_jobs (service_step w c e st) = after q e st)"
proof (cases c)
  case (Boot mac arch platform base)
  obtain r st' where d: "discover (sw_digest w) (sw_prepare w) mac arch platform base e st = (r, st')"
    by fastforce
  from d show ?thesis
  proof (cases rule: boot_cases)
    case (offer d j jobs job)
    from offer(7) have "ind_jobs st' = jobs"
      by (metis offer_session_jobs snd_conv installer_deployment.select_convs(2)
          installer_deployment.surjective installer_deployment.update_convs(2))
    with offer(6) Boot d show ?thesis
      by (intro disjI2 exI [of _ "Mark_Booting (job_id j) (dev_id d) (job_image_id j)"])
        (simp add: after_def run_installer_calls del: run_job_call.simps)
  next
    case (refused i d img)
    with Boot d show ?thesis
      by (intro disjI2 exI [of _ "Mark_Booting i d img"])
        (simp add: after_def run_installer_calls del: run_job_call.simps)
  qed (use Boot d in simp)
next
  case (Guard sid token req)
  obtain r st' where d: "authorize_guard (sw_digest w) (sw_scalar w) (sw_prepare w) sid token req e st = (r, st')"
    by fastforce
  from d show ?thesis
  proof (cases rule: authorize_cases)
    case (hand_off s config j jobs)
    with Guard d show ?thesis
      by (intro disjI2 exI [of _ "Lease_Installer (is_job_id s) (is_device_id s) (is_image_id s)
          (minutes installer_lease_minutes)"])
        (auto simp: after_def run_installer_calls simp del: run_job_call.simps)
  next
    case (failed_lease s config x)
    with Guard d show ?thesis
      by (intro disjI2 exI [of _ "Lease_Installer (is_job_id s) (is_device_id s) (is_image_id s)
          (minutes installer_lease_minutes)"])
        (auto simp: after_def run_installer_calls simp del: run_job_call.simps)
  qed (use Guard d in simp)
next
  case (Event sid token req)
  obtain r st' where d: "report_event (sw_digest w) sid token req e st = (r, st')" by fastforce
  from d show ?thesis
  proof (cases rule: event_cases)
    case (finish s l)
    with Event d show ?thesis
      by (intro disjI2 exI [of _ "Complete_Installer (is_job_id s) (is_device_id s) l False None"])
        (simp add: after_def finish_attempt_jobs run_installer_calls del: run_job_call.simps)
  next
    case (advance s l stage pct)
    with Event d show ?thesis
      by (intro disjI2 exI [of _ "Report_Installer (is_job_id s) (is_device_id s) l
           (minutes installer_lease_minutes) stage pct (Some (installer_event_message (ev_kind req)))"])
        (auto simp: after_def run_installer_calls Let_def simp del: run_job_call.simps)
  qed (use Event d in simp)
next
  case (First_Boot sid token attempt)
  obtain r st' where d: "complete_first_boot (sw_digest w) sid token attempt e st = (r, st')" by fastforce
  from d show ?thesis
  proof (cases rule: first_boot_cases)
    case (finish s l)
    with First_Boot d show ?thesis
      by (intro disjI2 exI [of _ "Complete_Installer (is_job_id s) (is_device_id s) l True None"])
        (auto simp: after_def finish_attempt_jobs run_installer_calls simp del: run_job_call.simps)
  qed (use First_Boot d in simp)
qed (simp_all add: after_def del: run_job_call.simps)

lemma bound_job:
  assumes "require_bound_job jobs b required = Ok j"
  shows "j \<in> set (jr_jobs jobs) \<and> job_id j = sb_job_id b \<and> job_image_id j = sb_image_id b \<and>
    job_operation j = Install_Linux \<and> job_state j = required \<and> length (job_targets j) = 1 \<and>
    tgt_device_id (hd (job_targets j)) = sb_device_id b"
  using assms
  by (auto simp: require_bound_job_def outcome_simps list_jobs_def dest!: find_Some_in split: if_splits)

lemma job_at_unique:
  assumes "distinct (map job_id (jr_jobs repo))" "job_at repo k = Some j"
    and "j' \<in> set (jr_jobs repo)" "job_id j' = k"
  shows "j' = j"
  using assms by (auto simp: job_at_def distinct_map inj_on_def dest!: find_Some_in)

lemma jobs_inv_distinct: "jobs_inv js \<Longrightarrow> distinct (map job_id js)"
  by (simp add: jobs_inv_def)

text \<open>What the guard has seen when it lets a job go.\<close>

lemma guard_checked:
  assumes "guard_checks scalar prepare b token req jobs = Ok config"
  shows "\<exists>p j d. prepare (sb_image_id b) = Some p \<and> pli_artifact_id p = sb_image_id b \<and>
    eq_ignore_case (pa_sha256 (pli_iso p)) (gr_image_sha256 req) \<and>
    require_bound_job jobs b Waiting = Ok j \<and>
    uniquely_matching_disk (hd (job_targets j)) (gr_disks req) = Ok d \<and>
    cap_minimum_disk_bytes (pli_capability p) \<le> obs_size_bytes d"
  using assms
  by (auto simp: guard_checks_def prepared_for_def outcome_simps not_less split: if_splits list.splits)

lemma matching_disk:
  assumes "uniquely_matching_disk t disks = Ok d"
  shows "\<exists>expected. tgt_disk_serial t = Some expected \<and> trim expected \<noteq> [] \<and>
    filter (disk_matches_target t (trim expected)) disks = [d]"
proof -
  from assms obtain x where x: "tgt_disk_serial t = Some x" "trim x \<noteq> []"
    by (auto simp: uniquely_matching_disk_def outcome_simps split: if_splits option.splits)
  with assms show ?thesis
    by (auto simp: uniquely_matching_disk_def split: list.splits)
qed

lemma service_step_jobs_inv:
  assumes "jobs_inv (jr_jobs (ind_jobs st))"
    and "env_fresh (se_jobs e) \<notin> set (map job_id (jr_jobs (ind_jobs st)))"
    and "Some (env_fresh (se_jobs e)) \<notin> set (map job_lease_id (jr_jobs (ind_jobs st)))"
  shows "jobs_inv (jr_jobs (ind_jobs (service_step w c e st)))"
  using service_jobs [of w c e st]
proof
  assume "\<exists>q. causes w e st c q \<and>
    ind_jobs (service_step w c e st) = snd (run_job_call (q, se_jobs e) (ind_jobs st))"
  then obtain q where "ind_jobs (service_step w c e st) = snd (run_job_call (q, se_jobs e) (ind_jobs st))"
    by blast
  moreover have "fresh_env (q, se_jobs e) (ind_jobs st)"
    using assms(2,3) by (simp add: fresh_env_def)
  ultimately show ?thesis
    using job_step_inv [OF run_job_call_step [OF assms(1)] assms(1), of "(q, se_jobs e)"] by simp
qed (simp add: assms(1))

lemma service_run_jobs_inv:
  "jobs_inv (jr_jobs (ind_jobs st)) \<Longrightarrow> fresh_history w cs st \<Longrightarrow>
     jobs_inv (jr_jobs (ind_jobs (service_run w cs st)))"
  by (induction w cs st rule: service_run.induct) (simp_all add: service_step_jobs_inv)

text \<open>A change of a Linux job comes from one call of the repository that its cause allows.\<close>

lemma service_linux_effect:
  assumes "jobs_inv (jr_jobs (ind_jobs st))"
    and "job_at (ind_jobs st) k = Some j" "job_operation j = Install_Linux"
    and "job_at (ind_jobs (service_step w c e st)) k = Some j'" "j' \<noteq> j"
  shows "\<exists>q. causes w e st c q \<and> linux_effect (q, se_jobs e) j j'"
proof -
  have "ind_jobs (service_step w c e st) \<noteq> ind_jobs st" using assms by auto
  then obtain q where q: "causes w e st c q"
      "ind_jobs (service_step w c e st) = snd (run_job_call (q, se_jobs e) (ind_jobs st))"
    using service_jobs [of w c e st] by blast
  then show ?thesis
    using linux_job_effect [OF assms(1-3) _ assms(5), of "(q, se_jobs e)"] assms(4) by auto
qed

text \<open>
  After any history of calls of the service, writes failing at any point,
  the jobs keep the repository's invariant, there is at most one session per
  job and at most 4096 of them, a session holds a lease exactly when its
  installer was handed the job, and none is left in the middle of an
  authorisation.
\<close>

theorem installer_sessions_keep_invariant:
  assumes "jobs_inv (jr_jobs jobs)" "fresh_history w cs (initial_service reg jobs)"
  defines "st \<equiv> service_run w cs (initial_service reg jobs)"
  defines "ss \<equiv> ind_sessions st"
  shows "jobs_inv (jr_jobs (ind_jobs st)) \<and>
    distinct (map fst ss) \<and> distinct (map (is_job_id \<circ> snd) ss) \<and> length ss \<le> 4096 \<and>
    list_all (\<lambda>(k, s). is_phase s \<noteq> Authorizing \<and> (is_lease_id s = None \<longleftrightarrow> is_phase s = Offered)) ss"
proof -
  have "sessions_inv ss"
    unfolding ss_def st_def
    by (rule service_run_sessions [OF _ assms(2)]) (simp add: initial_service_def sessions_inv_def)
  moreover have "jobs_inv (jr_jobs (ind_jobs st))"
    unfolding st_def by (rule service_run_jobs_inv [OF _ assms(2)]) (simp add: initial_service_def assms(1))
  moreover have "session_ok s \<Longrightarrow> is_phase s \<noteq> Authorizing \<and> (is_lease_id s = None \<longleftrightarrow> is_phase s = Offered)" for s
    by (cases "is_phase s") (auto simp: session_ok_def)
  ultimately show ?thesis
    by (auto simp: sessions_inv_def max_installer_sessions_def list_all_iff)
qed

text \<open>
  C2.  Whatever the host, the agents and the installers call, a Linux job
  starts only when an installer holding the token of an unexpired offer of that
  very job reports disks of which exactly one matches the target's model, size
  and serial, and the digest of the ISO the image service prepared.
\<close>

theorem linux_starts_only_on_its_disk:
  assumes inv: "jobs_inv (jr_jobs (ind_jobs st))" and c: "permitted c"
    and j: "job_at (ind_jobs st) k = Some j" "job_operation j = Install_Linux"
    and j': "job_at (ind_jobs (service_step w c e st)) k = Some j'"
    and s: "job_state j \<noteq> Running" "job_state j' = Running"
  shows "\<exists>sid token req s p d expected. c = Guard sid token req \<and>
    map_of (ind_sessions st) sid = Some s \<and> is_phase s = Offered \<and> is_job_id s = k \<and>
    secret_matches (sw_digest w) (is_token_digest s) token \<and> se_clock e 0 \<le> is_expires_at s \<and>
    sw_prepare w (job_image_id j) = Some p \<and>
    eq_ignore_case (pa_sha256 (pli_iso p)) (gr_image_sha256 req) \<and>
    tgt_disk_serial (hd (job_targets j)) = Some expected \<and>
    filter (disk_matches_target (hd (job_targets j)) (trim expected)) (gr_disks req) = [d]"
proof -
  have ne: "j' \<noteq> j" using s by auto
  then obtain q where q: "causes w e st c q" and eff: "linux_effect (q, se_jobs e) j j'"
    using service_linux_effect [OF inv j j'] by blast
  from linux_effect_running [OF eff j(2) job_at_id [OF j(1)] s]
  obtain t where l: "q = Lease_Installer k (job_device j) (job_image_id j) t" by auto
  then obtain sid token req where g: "c = Guard sid token req"
    using q c by (cases c) auto
  with q l obtain s config where h: "map_of (ind_sessions st) sid = Some s" "is_phase s = Offered"
      "is_job_id s = k" "secret_matches (sw_digest w) (is_token_digest s) token"
      "se_clock e 0 \<le> is_expires_at s" "is_image_id s = job_image_id j"
      "guard_checks (sw_scalar w) (sw_prepare w) (binding_of sid s) token req (ind_jobs st) = Ok config"
    by auto
  from guard_checked [OF h(7)] obtain p b d where p: "sw_prepare w (is_image_id s) = Some p"
      "eq_ignore_case (pa_sha256 (pli_iso p)) (gr_image_sha256 req)"
      "require_bound_job (ind_jobs st) (binding_of sid s) Waiting = Ok b"
      "uniquely_matching_disk (hd (job_targets b)) (gr_disks req) = Ok d"
    by (auto simp: binding_of_def)
  from bound_job [OF p(3)] have "b \<in> set (jr_jobs (ind_jobs st))" "job_id b = k"
    by (simp_all add: binding_of_def h(3))
  from job_at_unique [OF jobs_inv_distinct [OF inv] j(1) this] have "b = j" .
  with matching_disk [OF p(4)] p g h show ?thesis by auto
qed

text \<open>
  C10.  Whatever the host, the agents and the installers call, a Linux job
  succeeds only when the installed system confirms its first boot: with the
  token of a session handed that very job, the identifier of this attempt, and
  before the attempt's lease, which is still the job's, has expired.
\<close>

theorem linux_succeeds_only_on_first_boot:
  assumes inv: "jobs_inv (jr_jobs (ind_jobs st))" and c: "permitted c"
    and j: "job_at (ind_jobs st) k = Some j" "job_operation j = Install_Linux"
    and j': "job_at (ind_jobs (service_step w c e st)) k = Some j'"
    and s: "job_state j \<noteq> Succeeded" "job_state j' = Succeeded"
  shows "\<exists>sid token s. c = First_Boot sid token (is_attempt_id s) \<and>
    map_of (ind_sessions st) sid = Some s \<and> is_phase s \<in> {Handed_Off, Awaiting_Confirmation} \<and>
    is_job_id s = k \<and> is_device_id s = job_device j \<and> is_lease_id s = job_lease_id j \<and>
    secret_matches (sw_digest w) (is_token_digest s) token \<and> se_clock e 0 \<le> is_expires_at s \<and>
    job_state j = Running \<and> \<not> lease_expired (job_lease_expires_at j) (env_clock (se_jobs e) 0)"
proof -
  have ne: "j' \<noteq> j" using s by auto
  then obtain q where q: "causes w e st c q" and eff: "linux_effect (q, se_jobs e) j j'"
    using service_linux_effect [OF inv j j'] by blast
  have "job_ok j" using jobs_inv_find inv j(1) by (auto simp: job_at_def)
  from linux_effect_succeeded [OF eff j(2) job_at_id [OF j(1)] this s]
  obtain l msg where l: "q = Complete_Installer k (job_device j) l True msg" "job_state j = Running"
      "job_lease_id j = Some l" "\<not> lease_expired (job_lease_expires_at j) (env_clock (se_jobs e) 0)"
    by auto
  then obtain sid token attempt where "c = First_Boot sid token attempt"
    using q c by (cases c) auto
  with q l show ?thesis by auto
qed

section \<open>Repeating an authorisation\<close>

lemma authorize_Ok_offer:
  assumes "authorize_guard digest scalar prepare sid token req e st = (Ok g, st')"
    and "map_of (ind_sessions st) sid = Some s" "is_phase s = Offered"
  obtains config j jobs where
    "validate_guard_request req = Ok ()"
    "authenticate_session digest (ind_sessions st) sid token (se_clock e 0) = Ok (binding_of sid s)"
    "guard_checks scalar prepare (binding_of sid s) token req (ind_jobs st) = Ok config"
    "lease_installer_job (is_job_id s) (is_device_id s) (is_image_id s)
       (minutes installer_lease_minutes) (env_fresh (se_jobs e)) (env_clock (se_jobs e))
       (env_write (se_jobs e)) (ind_jobs st) = (Ok j, jobs)"
    "g = \<lparr> ga_autoinstall = config, ga_job = j \<rparr>"
    "st' = st \<lparr> ind_jobs := jobs, ind_sessions := AList.update sid (handed_off s j) (ind_sessions st) \<rparr>"
proof -
  let ?auth = "authenticate_session digest (ind_sessions st) sid token (se_clock e 0)"
  from assms(1) obtain b where v: "validate_guard_request req = Ok ()" and a: "?auth = Ok b"
    by (cases "validate_guard_request req"; cases ?auth) (auto simp: authorize_guard_def)
  have b: "b = binding_of sid s" using authenticated [OF a] assms(2) by auto
  note eq = authorize_offer [OF v a assms(2,3) b, of scalar prepare]
  from assms(1) eq show thesis
    using that v a b by (auto split: outcome.splits prod.splits)
qed

lemma find_list_jobs:
  assumes "distinct (map job_id (jr_jobs repo))"
  shows "find (\<lambda>j. job_id j = i) (list_jobs repo) = job_at repo i"
proof (cases "find (\<lambda>j. job_id j = i) (list_jobs repo)")
  case None
  then have "find (\<lambda>j. job_id j = i) (jr_jobs repo) = None"
    by (simp add: list_jobs_def find_None_iff)
  with None show ?thesis by (simp add: job_at_def)
next
  case (Some j)
  then have j: "j \<in> set (jr_jobs repo)" "job_id j = i"
    by (auto simp: list_jobs_def dest: find_Some_in)
  then obtain j' where j': "job_at repo i = Some j'"
    by (cases "job_at repo i") (auto simp: job_at_def find_None_iff)
  from job_at_unique [OF assms j' j] j' Some show ?thesis by simp
qed

lemma guard_config:
  assumes "guard_checks scalar prepare b token req jobs = Ok config"
  shows "\<exists>p j d opts. prepared_for prepare b req = Ok p \<and> require_bound_job jobs b Waiting = Ok j \<and>
    job_targets j \<noteq> [] \<and> uniquely_matching_disk (hd (job_targets j)) (gr_disks req) = Ok d \<and>
    opt_linux_install (job_options j) = Some opts \<and>
    render_final_autoinstall scalar b token opts (obs_path d) = Ok config"
  using assms
  by (auto simp: guard_checks_def outcome_simps split: if_splits list.splits)

text \<open>The configuration depends on the parts of a session that its hand-off leaves alone.\<close>

lemma handed_off_binding:
  "render_final_autoinstall scalar (binding_of sid (handed_off s j)) = render_final_autoinstall scalar (binding_of sid s)"
  "prepared_for prepare (binding_of sid (handed_off s j)) req = prepared_for prepare (binding_of sid s) req"
  "sb_phase (binding_of sid (handed_off s j)) = Handed_Off"
  "sb_lease_id (binding_of sid (handed_off s j)) = job_lease_id j"
  by (simp_all add: fun_eq_iff render_final_autoinstall_def binding_of_def handed_off_def session_url_def
      event_script_def prepared_for_def)

text \<open>
  An authorisation may be repeated: as long as the lease has not expired,
  the same request gets the same configuration and job again, and the repeated
  request changes nothing.
\<close>

theorem authorisation_is_idempotent:
  assumes inv: "jobs_inv (jr_jobs (ind_jobs st))"
    and ok: "authorize_guard digest scalar prepare sid token req e st = (Ok g, st')"
    and s: "map_of (ind_sessions st) sid = Some s" "is_phase s = Offered"
    and t: "se_clock e' 0 \<le> env_clock (se_jobs e) 0 + minutes installer_lease_minutes"
  shows "authorize_guard digest scalar prepare sid token req e' st' = (Ok g, st')"
proof -
  from ok s obtain config j jobs where h: "validate_guard_request req = Ok ()"
    "authenticate_session digest (ind_sessions st) sid token (se_clock e 0) = Ok (binding_of sid s)"
    "guard_checks scalar prepare (binding_of sid s) token req (ind_jobs st) = Ok config"
    "lease_installer_job (is_job_id s) (is_device_id s) (is_image_id s)
       (minutes installer_lease_minutes) (env_fresh (se_jobs e)) (env_clock (se_jobs e))
       (env_write (se_jobs e)) (ind_jobs st) = (Ok j, jobs)"
    "g = \<lparr> ga_autoinstall = config, ga_job = j \<rparr>"
    "st' = st \<lparr> ind_jobs := jobs, ind_sessions := AList.update sid (handed_off s j) (ind_sessions st) \<rparr>"
    by (rule authorize_Ok_offer)
  obtain j0 where j0: "job_at (ind_jobs st) (is_job_id s) = Some j0"
      "apply_installer_lease (env_clock (se_jobs e) 0) (minutes installer_lease_minutes)
         (env_fresh (se_jobs e)) j0 = Ok j"
      "jr_jobs jobs = update_first (\<lambda>j. job_id j = is_job_id s) (\<lambda>_. j) (jr_jobs (ind_jobs st))"
    using lease_outcome [OF h(4)] by (auto simp: job_at_def)
  note sel = leased_selectors [OF j0(2)]
  from guard_config [OF h(3)] obtain p b d opts where g: "prepared_for prepare (binding_of sid s) req = Ok p"
      "require_bound_job (ind_jobs st) (binding_of sid s) Waiting = Ok b" "job_targets b \<noteq> []"
      "uniquely_matching_disk (hd (job_targets b)) (gr_disks req) = Ok d"
      "opt_linux_install (job_options b) = Some opts"
      "render_final_autoinstall scalar (binding_of sid s) token opts (obs_path d) = Ok config"
    by blast
  note bound = bound_job [OF g(2)]
  have b: "b = j0"
    by (rule job_at_unique [OF jobs_inv_distinct [OF inv] j0(1)]) (use bound in \<open>simp_all add: binding_of_def\<close>)
  have at: "job_at jobs (is_job_id s) = Some j"
    using j0(1) sel(4) job_at_id [OF j0(1)] by (simp add: job_at_def j0(3) find_update_first_same)
  have "map job_id (jr_jobs jobs) = map job_id (jr_jobs (ind_jobs st))"
    unfolding j0(3) by (rule map_update_first) (use j0(1) sel(4) in \<open>simp add: job_at_def\<close>)
  then have "distinct (map job_id (jr_jobs jobs))"
    using jobs_inv_distinct [OF inv] by simp
  then have req: "require_bound_job jobs (binding_of sid (handed_off s j)) Running = Ok j"
    using at sel bound b
    by (simp add: require_bound_job_def find_list_jobs binding_of_def handed_off_def)
  have auth: "authenticate_session digest (ind_sessions st') sid token (se_clock e' 0) =
      Ok (binding_of sid (handed_off s j))"
    using h(2) t sel(2) s(1)
    by (auto simp: h(6) authenticate_session_def handed_off_def outcome_simps split: if_splits)
  show ?thesis
    using req auth h(1,5) g b sel
    by (simp add: authorize_guard_def replay_guard_authorization_def handed_off_binding)
      (simp add: h(6) handed_off_binding)
qed

section \<open>Offers\<close>

lemma kept_no_job: "(k, s) \<in> set (kept_sessions now i ss) \<Longrightarrow> is_job_id s \<noteq> i"
  by (simp add: kept_sessions_def)

lemma offer_outcome:
  assumes "offer_session digest e base d j st = (Ok (Assigned a), st')"
    and "se_session e \<notin> fst ` set (ind_sessions st)"
  shows "\<exists>s. filter (\<lambda>(k, s). is_job_id s = job_id j) (ind_sessions st') = [(ba_session_id a, s)] \<and>
    is_phase s = Offered \<and> is_device_id s = dev_id d \<and> is_image_id s = job_image_id j \<and>
    is_token_digest s = digest (ba_token a) \<and> is_expires_at s = ba_expires_at a \<and>
    ba_expires_at a = se_clock e 0 + 2 * 60 * 60 * 1000000000"
proof -
  let ?kept = "kept_sessions (se_clock e 1) (job_id j) (ind_sessions st)"
  have "se_session e \<notin> fst ` set ?kept" using assms(2) by (auto simp: kept_sessions_def)
  note u = update_new_key [OF this, unfolded One_nat_def]
  have "filter (\<lambda>(k, s). is_job_id s = job_id j) ?kept = []"
    by (auto simp: filter_empty_conv dest: kept_no_job)
  then show ?thesis
    using assms(1)
    by (auto simp: offer_session_def Let_def u minutes_def offer_ttl_minutes_def split: if_splits)
qed

text \<open>
  A boot is assigned an installation only when the device with the
  booting address is an x86-64 UEFI machine with enough memory, exactly one
  open Linux job targets it, and this job still waits; afterwards the new offer,
  bound to this device and image and valid for two hours, is the only session
  of the job, so that the token of an earlier offer opens nothing any more.
\<close>

theorem assigned_boot_is_exclusive:
  assumes ok: "discover digest prepare mac arch platform base e st = (Ok (Assigned a), st')"
    and fresh: "se_session e \<notin> fst ` set (ind_sessions st)"
  shows "\<exists>d j p s. find_by_mac (ind_registry st) mac = Ok (Some d) \<and>
    filter (assigned_to (dev_id d)) (list_jobs (ind_jobs st)) = [j] \<and> job_state j = Waiting \<and>
    is_x86_64_architecture arch \<and> is_uefi_platform platform \<and>
    dev_architecture d = X86_64 \<and> dev_boot_mode d = Uefi \<and> prepare (job_image_id j) = Some p \<and>
    cap_minimum_memory_bytes (pli_capability p) \<le> dev_memory_bytes d \<and>
    filter (\<lambda>(k, s). is_job_id s = job_id j) (ind_sessions st') = [(ba_session_id a, s)] \<and>
    is_phase s = Offered \<and> is_device_id s = dev_id d \<and> is_image_id s = job_image_id j \<and>
    is_token_digest s = digest (ba_token a) \<and> is_expires_at s = ba_expires_at a \<and>
    ba_expires_at a = se_clock e 0 + 2 * 60 * 60 * 1000000000"
  using ok
proof (cases rule: boot_cases)
  case (offer d j jobs job)
  have f: "se_session e \<notin> fst ` set (ind_sessions (st \<lparr> ind_jobs := jobs \<rparr>))" using fresh by simp
  from offer_outcome [OF offer(7) [symmetric] f] obtain s where
    "filter (\<lambda>(k, s). is_job_id s = job_id j) (ind_sessions st') = [(ba_session_id a, s)]"
    "is_phase s = Offered" "is_device_id s = dev_id d" "is_image_id s = job_image_id j"
    "is_token_digest s = digest (ba_token a)" "is_expires_at s = ba_expires_at a"
    "ba_expires_at a = se_clock e 0 + 2 * 60 * 60 * 1000000000"
    by blast
  moreover obtain p where "prepare (job_image_id j) = Some p"
      "cap_minimum_memory_bytes (pli_capability p) \<le> dev_memory_bytes d"
    using offer(5) by (auto simp: media_refused_def not_less split: option.splits)
  moreover have "is_x86_64_architecture arch" "is_uefi_platform platform"
      "dev_architecture d = X86_64" "dev_boot_mode d = Uefi"
    using offer(4) by (simp_all add: boot_refused_def)
  ultimately show ?thesis using offer(1-3) by blast
qed simp_all

section \<open>Concrete runs\<close>

definition sample_asset :: prepared_asset where
  "sample_asset = \<lparr> pa_canonical_path = ''/iso'', pa_size_bytes = 1000, pa_sha256 = replicate 64 (CHR ''a'') \<rparr>"

definition sample_boot_asset :: installer_boot_asset where
  "sample_boot_asset = \<lparr> asset_path = ''casper/vmlinuz'', asset_size_bytes = 10,
     asset_sha256 = replicate 64 (CHR ''b'') \<rparr>"

definition sample_prepared :: prepared_linux_iso where
  "sample_prepared = \<lparr> pli_artifact_id = 4, pli_iso = sample_asset, pli_kernel = sample_asset,
     pli_initrd = sample_asset,
     pli_capability = \<lparr> cap_deployable = True, cap_distribution = Ubuntu, cap_release = ''24.04'',
       cap_architecture = X86_64, cap_profile = Ubuntu_Autoinstall, cap_profile_version = 1,
       cap_kernel = sample_boot_asset, cap_initrd = sample_boot_asset,
       cap_minimum_memory_bytes = 0, cap_minimum_disk_bytes = 1000, cap_blocked_reason = None \<rparr> \<rparr>"

definition sample_world :: service_world where
  "sample_world = \<lparr> sw_digest = id, sw_scalar = sample_scalar,
     sw_prepare = (\<lambda>i. if i = 4 then Some sample_prepared else None) \<rparr>"

definition sample_session :: installer_session where
  "sample_session = \<lparr> is_token_digest = ''t'', is_attempt_id = 2, is_device_id = 7, is_job_id = 5,
     is_image_id = 4, is_base_url = ''http://10.0.0.1'', is_expires_at = 200, is_phase = Offered,
     is_lease_id = None \<rparr>"

definition sample_guard :: linux_installer_guard_request where
  "sample_guard = \<lparr> gr_image_sha256 = replicate 64 (CHR ''a''),
     gr_disks = [\<lparr> obs_path = ''/dev/sda'', obs_model = ''M'', obs_serial = Some ''S1'',
       obs_size_bytes = 274877906944 \<rparr>] \<rparr>"

definition sample_session_env :: "instant \<Rightarrow> session_env" where
  "sample_session_env t = \<lparr> se_clock = (\<lambda>n. t + int n), se_session = 1, se_attempt = 2,
     se_secret_a = 3, se_secret_b = 4, se_jobs = sample_env 9 t \<rparr>"

definition offered_service :: installer_deployment where
  "offered_service = \<lparr> ind_registry = empty_registry, ind_jobs = waiting_repository sample_linux_request,
     ind_sessions = [(1, sample_session)] \<rparr>"

definition handed_service :: installer_deployment where
  "handed_service = \<lparr> ind_registry = empty_registry, ind_jobs = leased_linux_repository,
     ind_sessions = [(1, sample_session \<lparr> is_phase := Handed_Off, is_lease_id := Some 9 \<rparr>)] \<rparr>"

lemma sample_guard_valid: "validate_guard_request sample_guard = Ok ()"
proof -
  have t: "trim ''/dev/sda'' = ''/dev/sda''" "trim ''M'' = ''M''" "trim ''S1'' = ''S1''"
    by (simp_all add: trim_visible visible_def byte_def)
  have p: "valid_device_path ''/dev/sda''"
    by (simp add: valid_device_path_def strip_prefix_def starts_with_def device_byte_ok_def
        is_alnum_def is_upper_def is_lower_def is_digit_def byte_def)
  show ?thesis
    by (simp add: validate_guard_request_Ok sha256_hex_def is_hex_def is_digit_def byte_def
        valid_observed_disk_def p valid_disk_text_def t line_break_or_nul_def list_all_iff sample_guard_def)
qed

lemma sample_authenticated:
  "t \<le> 200 \<Longrightarrow> authenticate_session id (ind_sessions offered_service) 1 ''t'' t = Ok (binding_of 1 sample_session)"
  by (simp add: authenticate_session_def offered_service_def max_session_token_bytes_def
      secret_matches_def sample_session_def)

lemma sample_device_path: "renderable_path ''/dev/sda''"
  by (simp add: renderable_path_def strip_prefix_def starts_with_def is_alnum_def is_digit_def
      is_upper_def is_lower_def byte_def)

lemma sample_waiting_bound:
  "require_bound_job (ind_jobs offered_service) (binding_of 1 sample_session) Waiting =
     Ok (new_job sample_linux_request Waiting 5 0)"
proof -
  have "job_at (waiting_repository sample_linux_request) 5 = Some (new_job sample_linux_request Waiting 5 0)"
    by (simp add: job_at_def waiting_jobs)
  then show ?thesis
    using sample_invariants(1)
    by (simp add: require_bound_job_def find_list_jobs jobs_inv_distinct offered_service_def binding_of_def
        sample_session_def)
qed

lemma sample_disk:
  "uniquely_matching_disk sample_target (gr_disks sample_guard) = Ok (hd (gr_disks sample_guard))"
  by (simp add: uniquely_matching_disk_def sample_target_def sample_guard_def disk_matches_target_def
      sample_trims abs_diff_def)

lemma sample_checks:
  "\<exists>config. guard_checks sample_scalar (sw_prepare sample_world) (binding_of 1 sample_session) ''t''
     sample_guard (ind_jobs offered_service) = Ok config"
proof -
  have "prepared_for (sw_prepare sample_world) (binding_of 1 sample_session) sample_guard = Ok sample_prepared"
    by (simp add: prepared_for_def sample_world_def binding_of_def sample_session_def sample_prepared_def
        sample_asset_def sample_guard_def)
  moreover have "job_targets (new_job sample_linux_request Waiting 5 0) = [sample_target]"
    "job_options (new_job sample_linux_request Waiting 5 0) = req_options sample_linux_request"
    by (simp_all add: new_job_def)
  moreover have "\<exists>opts. opt_linux_install (req_options sample_linux_request) = Some opts \<and>
      validate_linux_options opts = Ok ()"
    by (simp add: sample_linux_request_def sample_options_valid)
  moreover have "obs_path (hd (gr_disks sample_guard)) = ''/dev/sda''"
    "obs_size_bytes (hd (gr_disks sample_guard)) = 274877906944"
    by (simp_all add: sample_guard_def)
  moreover have "pli_artifact_id sample_prepared = 4" "sb_image_id (binding_of 1 sample_session) = 4"
    "cap_minimum_disk_bytes (pli_capability sample_prepared) = 1000"
    by (simp_all add: sample_prepared_def binding_of_def sample_session_def)
  moreover have "\<exists>config. render_final_autoinstall sample_scalar b ''t'' opts ''/dev/sda'' = Ok config" for b opts
    using render_Ok_iff [of sample_scalar b "''t''" opts "''/dev/sda''"] sample_device_path
    by (auto simp: is_ok_iff)
  ultimately show ?thesis
    by (auto simp: guard_checks_def sample_waiting_bound sample_disk outcome_simps)
qed

lemma sample_lease:
  "\<exists>j jobs. lease_installer_job 5 7 4 (minutes installer_lease_minutes) 9 (\<lambda>n. 10 + int n) Written
      (waiting_repository sample_linux_request) = (Ok j, jobs) \<and>
    job_at jobs 5 = Some j \<and> job_state j = Running"
  by (simp add: lease_installer_job_def modify_job_def waiting_jobs handoff_guard_def
      apply_installer_lease_def allowed_transitions_def transition_def commit_jobs_def job_at_def)

lemma sample_authorisation:
  "\<exists>g st' j. authorize_guard id sample_scalar (sw_prepare sample_world) 1 ''t'' sample_guard
      (sample_session_env 10) offered_service = (Ok g, st') \<and>
    job_at (ind_jobs st') 5 = Some j \<and> job_state j = Running"
proof -
  have a: "authenticate_session id (ind_sessions offered_service) 1 ''t''
      (se_clock (sample_session_env 10) 0) = Ok (binding_of 1 sample_session)"
    using sample_authenticated [of 10] by (simp add: sample_session_env_def)
  have m: "map_of (ind_sessions offered_service) 1 = Some sample_session" "is_phase sample_session = Offered"
    by (simp_all add: offered_service_def sample_session_def)
  obtain config where c: "guard_checks sample_scalar (sw_prepare sample_world) (binding_of 1 sample_session)
      ''t'' sample_guard (ind_jobs offered_service) = Ok config"
    using sample_checks by blast
  obtain j jobs where l: "lease_installer_job 5 7 4 (minutes installer_lease_minutes) 9 (\<lambda>n. 10 + int n) Written
      (waiting_repository sample_linux_request) = (Ok j, jobs)"
    "job_at jobs 5 = Some j" "job_state j = Running"
    using sample_lease by blast
  have sel: "is_job_id sample_session = 5" "is_device_id sample_session = 7" "is_image_id sample_session = 4"
    "ind_jobs offered_service = waiting_repository sample_linux_request"
    "env_fresh (se_jobs (sample_session_env 10)) = 9" "env_write (se_jobs (sample_session_env 10)) = Written"
    "env_clock (se_jobs (sample_session_env 10)) = (\<lambda>n. 10 + int n)"
    by (simp_all add: sample_session_def offered_service_def sample_session_env_def sample_env_def)
  show ?thesis
    using authorize_offer [OF sample_guard_valid a m refl, of sample_scalar "sw_prepare sample_world"] c l
    by (simp add: sel)
qed

theorem linux_starts_only_on_its_disk_witness:
  "\<exists>d \<in> set (gr_disks sample_guard). disk_matches_target sample_target ''S1'' d"
proof -
  let ?c = "Guard 1 ''t'' sample_guard" let ?e = "sample_session_env 10"
  obtain j' where j': "job_at (ind_jobs (service_step sample_world ?c ?e offered_service)) 5 = Some j'"
      "job_state j' = Running"
    using sample_authorisation by (auto simp: sample_world_def)
  have j: "job_at (ind_jobs offered_service) 5 = Some (new_job sample_linux_request Waiting 5 0)"
    by (simp add: offered_service_def job_at_def waiting_jobs)
  from linux_starts_only_on_its_disk [OF _ _ j _ j'(1) _ j'(2)] sample_invariants(1)
  obtain d where "filter (disk_matches_target sample_target ''S1'') (gr_disks sample_guard) = [d]"
    by (auto simp: offered_service_def sample_target_def sample_trims)
  then have "d \<in> set (filter (disk_matches_target sample_target ''S1'') (gr_disks sample_guard))" by simp
  then show ?thesis by auto
qed

theorem linux_succeeds_only_on_first_boot_witness:
  "\<not> lease_expired (job_lease_expires_at leased_linux_job) 20"
proof -
  let ?c = "First_Boot 1 ''t'' 2" let ?e = "sample_session_env 20"
  obtain j' where j': "job_at (ind_jobs (service_step sample_world ?c ?e handed_service)) 5 = Some j'"
      "job_state j' = Succeeded"
    by (simp add: complete_first_boot_def authenticate_session_def handed_service_def sample_session_def
        sample_world_def sample_session_env_def max_session_token_bytes_def secret_matches_def binding_of_def
        attempt_lease_def finish_attempt_def complete_installer_def update_installer_job_def modify_job_def
        leased_jobs installer_guard_def apply_installer_completion_def allowed_transitions_def transition_def
        commit_jobs_def leased_linux_job_def lease_expired_def mark_session_completed_def with_session_def
        reply_with_def sample_job_simps)
  have j: "job_at (ind_jobs handed_service) 5 = Some leased_linux_job"
    by (simp add: handed_service_def leased_at)
  from linux_succeeds_only_on_first_boot [OF _ _ j _ j'(1) _ j'(2)] sample_invariants(3)
  show ?thesis
    by (auto simp: handed_service_def leased_linux_job_def sample_session_env_def sample_env_def)
qed

theorem authorisation_is_idempotent_witness:
  "\<exists>g st'. authorize_guard id sample_scalar (sw_prepare sample_world) 1 ''t'' sample_guard
      (sample_session_env 10) offered_service = (Ok g, st') \<and>
    authorize_guard id sample_scalar (sw_prepare sample_world) 1 ''t'' sample_guard
      (sample_session_env 150) st' = (Ok g, st')"
proof -
  obtain g st' where a: "authorize_guard id sample_scalar (sw_prepare sample_world) 1 ''t'' sample_guard
      (sample_session_env 10) offered_service = (Ok g, st')"
    using sample_authorisation by blast
  have i: "jobs_inv (jr_jobs (ind_jobs offered_service))"
    and m: "map_of (ind_sessions offered_service) 1 = Some sample_session"
    using sample_invariants(1) by (simp_all add: offered_service_def)
  have "authorize_guard id sample_scalar (sw_prepare sample_world) 1 ''t'' sample_guard
      (sample_session_env 150) st' = (Ok g, st')"
    by (rule authorisation_is_idempotent [OF i a m])
      (simp_all add: sample_session_def sample_session_env_def sample_env_def minutes_def installer_lease_minutes_def)
  with a show ?thesis by blast
qed

definition booting_service :: installer_deployment where
  "booting_service = initial_service
     \<lparr> dr_manifest = Absent, dr_devices =
        [\<lparr> rec_device = device_from (sample_inventory \<lparr> inv_mac_address := ''00:1A:2B:3C:4D:5E'' \<rparr>) 7 ''10.0.0.9'' 0,
           rec_agent_version = ''1.0'', rec_first_seen_at = 0, rec_token_digest = ''d'' \<rparr>] \<rparr>
     (waiting_repository sample_linux_request)"

lemma sample_boot:
  "\<exists>a st'. discover id (sw_prepare sample_world) ''00-1a-2B-3c-4D-5e'' ''x86_64'' ''efi'' ''http://10.0.0.1''
     (sample_session_env 10) booting_service = (Ok (Assigned a), st')"
proof -
  let ?j = "new_job sample_linux_request Waiting 5 0"
  obtain d where d: "find_by_mac (ind_registry booting_service) ''00-1a-2B-3c-4D-5e'' = Ok (Some d)"
      "dev_id d = 7" "dev_architecture d = X86_64" "dev_boot_mode d = Uefi" "dev_memory_bytes d = 0"
    by (simp add: find_by_mac_def sample_mac booting_service_def initial_service_def device_from_def
        sample_inventory_def)
  have sel: "ind_jobs booting_service = waiting_repository sample_linux_request" "ind_sessions booting_service = []"
    by (simp_all add: booting_service_def initial_service_def)
  have as: "filter (assigned_to 7) (list_jobs (waiting_repository sample_linux_request)) = [?j]"
    by (simp add: list_jobs_def waiting_jobs assigned_to_def)
  have t: "trim ''x86_64'' = ''x86_64''" "trim ''efi'' = ''efi''"
    by (simp_all add: trim_visible visible_def byte_def)
  have "is_x86_64_architecture ''x86_64''" "is_uefi_platform ''efi''"
    by (simp_all add: is_x86_64_architecture_def is_uefi_platform_def t to_lower_def is_upper_def byte_def)
  moreover have "\<not> serial_missing sample_target"
    by (simp add: serial_missing_def sample_target_def sample_trims)
  moreover have "\<exists>opts. opt_linux_install (req_options sample_linux_request) = Some opts \<and>
      validate_linux_options opts = Ok ()"
    by (simp add: sample_linux_request_def sample_options_valid)
  ultimately have b: "\<not> boot_refused ''x86_64'' ''efi'' d ?j"
    by (auto simp: boot_refused_def d new_job_def)
  have p: "\<not> media_refused (sw_prepare sample_world 4) d ?j"
    by (simp add: media_refused_def sample_world_def sample_prepared_def d new_job_def sample_target_def)
  obtain j' jobs where m: "mark_installer_booting 5 7 4 (\<lambda>n. 10 + int n) Written
      (waiting_repository sample_linux_request) = (Ok j', jobs)"
    by (simp add: mark_installer_booting_def modify_job_def waiting_jobs handoff_guard_def commit_jobs_def)
  show ?thesis
    using d b p m as
    by (simp add: discover_def discover_job_def sel offer_session_def Let_def kept_sessions_def
        max_installer_sessions_def sample_session_env_def sample_env_def)
qed

theorem assigned_boot_is_exclusive_witness:
  "\<exists>a st' s. discover id (sw_prepare sample_world) ''00-1a-2B-3c-4D-5e'' ''x86_64'' ''efi'' ''http://10.0.0.1''
     (sample_session_env 10) booting_service = (Ok (Assigned a), st') \<and>
   filter (\<lambda>(k, s). is_job_id s = 5) (ind_sessions st') = [(ba_session_id a, s)] \<and>
   is_token_digest s = ba_token a"
proof -
  obtain a st' where b: "discover id (sw_prepare sample_world) ''00-1a-2B-3c-4D-5e'' ''x86_64'' ''efi''
      ''http://10.0.0.1'' (sample_session_env 10) booting_service = (Ok (Assigned a), st')"
    using sample_boot by blast
  have "se_session (sample_session_env 10) \<notin> fst ` set (ind_sessions booting_service)"
    by (simp add: booting_service_def initial_service_def)
  from assigned_boot_is_exclusive [OF b this] obtain d :: device and j s where
    f: "filter (assigned_to (dev_id d)) (list_jobs (ind_jobs booting_service)) = [j]" and
    s: "filter (\<lambda>(k, s). is_job_id s = job_id j) (ind_sessions st') = [(ba_session_id a, s)]"
      "is_token_digest s = id (ba_token a)"
    by blast
  have "j \<in> set (filter (assigned_to (dev_id d)) (list_jobs (ind_jobs booting_service)))" using f by simp
  then have "job_id j = 5"
    by (simp add: list_jobs_def waiting_jobs booting_service_def initial_service_def split: if_splits)
  with b s show ?thesis by auto
qed

theorem installer_sessions_keep_invariant_witness:
  "\<exists>st. st = service_step sample_world (Boot ''00-1a-2B-3c-4D-5e'' ''x86_64'' ''efi'' ''http://10.0.0.1'')
      (sample_session_env 10) booting_service \<and>
    distinct (map (is_job_id \<circ> snd) (ind_sessions st)) \<and> jobs_inv (jr_jobs (ind_jobs st))"
proof -
  let ?cs = "[(Boot ''00-1a-2B-3c-4D-5e'' ''x86_64'' ''efi'' ''http://10.0.0.1'', sample_session_env 10)]"
  have "fresh_history sample_world ?cs booting_service"
    by (simp add: booting_service_def initial_service_def waiting_jobs sample_session_env_def sample_env_def)
  from installer_sessions_keep_invariant [OF sample_invariants(1) this [unfolded booting_service_def]]
  show ?thesis by (simp add: booting_service_def)
qed

end
