(* ===== verification/Pxe_Config.thy ===== *)
theory Pxe_Config
  imports Core_Models
begin

unbundle bit_operations_syntax

text \<open>
  IPv4 addresses and the validation of the PXE configuration
  (\<open>crates/service/src/pxe.rs\<close>).  An address is its 32 bits.  The file system is
  two predicates: which paths are directories, and which paths below the TFTP
  root are files.  How a path splits into components depends on the host
  platform, which is a parameter of the path check.
\<close>

datatype pxe_service_error =
    Already_Running
  | Not_Running
  | Invalid_Config string
  | Pool_Contains_Server
  | Unsafe_Boot_File string
  | Missing_Boot_File string
  | Dhcp_Conflict
  | Bind_Error string u16
  | Http_Bind_Error string
  | Pxe_Io_Error
  | Pxe_Task_Error

type_synonym ipv4 = u32

section \<open>Parsing addresses\<close>

definition digit_value :: "char \<Rightarrow> nat" where
  "digit_value c = byte c - 48"

definition decimal :: "string \<Rightarrow> nat" where
  "decimal s = foldl (\<lambda>n c. 10 * n + digit_value c) 0 s"

text \<open>One octet: one to three digits, no superfluous zero, at most 255.\<close>

definition octet_ok :: "string \<Rightarrow> bool" where
  "octet_ok s =
     (s \<noteq> [] \<and> length s \<le> 3 \<and> list_all is_digit s \<and> (hd s = CHR ''0'' \<longrightarrow> s = ''0'') \<and>
      decimal s \<le> 255)"

definition octets_to_ip :: "nat list \<Rightarrow> ipv4" where
  "octets_to_ip os = word_of_nat (foldl (\<lambda>n d. 256 * n + d) 0 os)"

text \<open>\<open>Ipv4Addr::from_str\<close>.\<close>

definition ipv4_from_str :: "string \<Rightarrow> ipv4 option" where
  "ipv4_from_str s =
     (let parts = split_on (\<lambda>c. c = CHR ''.'') s in
      if length parts = 4 \<and> list_all octet_ok parts then Some (octets_to_ip (map decimal parts))
      else None)"

definition parse_ipv4 :: "string \<Rightarrow> string \<Rightarrow> (pxe_service_error, ipv4) outcome" where
  "parse_ipv4 v label =
     ok_or (ipv4_from_str v) (Invalid_Config (label @ '' must be an IPv4 address''))"

section \<open>Relative paths\<close>

datatype platform = Unix_Host | Windows_Host

definition path_separator :: "platform \<Rightarrow> char \<Rightarrow> bool" where
  "path_separator p c = (byte c = 47 \<or> (p = Windows_Host \<and> byte c = 92))"

definition drive_prefix :: "platform \<Rightarrow> string \<Rightarrow> bool" where
  "drive_prefix p s =
     (p = Windows_Host \<and>
      (case s of d # c # _ \<Rightarrow> (is_upper d \<or> is_lower d) \<and> c = CHR '':'' | _ \<Rightarrow> False))"

text \<open>
  A path is refused when it is empty, has a root or a prefix, or has a parent
  component.  Every prefix other than a drive starts with a separator.
\<close>

definition validate_relative_path :: "platform \<Rightarrow> string \<Rightarrow> (pxe_service_error, unit) outcome" where
  "validate_relative_path p v =
     (if v = [] \<or> (v \<noteq> [] \<and> path_separator p (hd v)) \<or> drive_prefix p v \<or>
         ''..'' \<in> set (split_on (path_separator p) v)
      then Err (Unsafe_Boot_File v) else Ok ())"

section \<open>Configuration\<close>

record file_view =
  fv_is_dir :: "string \<Rightarrow> bool"
  fv_is_file :: "string \<Rightarrow> string \<Rightarrow> bool"

fun each_ok :: "('a \<Rightarrow> ('e, 'b) outcome) \<Rightarrow> 'a list \<Rightarrow> ('e, unit) outcome" where
  "each_ok f [] = Ok ()"
| "each_ok f (x # xs) = and_then (f x) (\<lambda>_. each_ok f xs)"

definition mask_contiguous :: "ipv4 \<Rightarrow> bool" where
  "mask_contiguous m = (m \<noteq> 0 \<and> (m OR (m - 1)) = - 1)"

definition check_boot_file ::
  "file_view \<Rightarrow> string \<Rightarrow> string \<Rightarrow> (pxe_service_error, unit) outcome" where
  "check_boot_file fs root f =
     (if f = [] then Ok () else ensure (fv_is_file fs root f) (Missing_Boot_File f))"

definition validate_pxe_config ::
  "platform \<Rightarrow> file_view \<Rightarrow> pxe_config \<Rightarrow> (pxe_service_error, unit) outcome" where
  "validate_pxe_config p fs c =
     and_then (parse_ipv4 (pxe_bind_address c) ''bind address'') (\<lambda>server.
     and_then (parse_ipv4 (pxe_subnet_mask c) ''subnet mask'') (\<lambda>mask.
     and_then (parse_ipv4 (pxe_pool_start c) ''pool start'') (\<lambda>start.
     and_then (parse_ipv4 (pxe_pool_end c) ''pool end'') (\<lambda>end'.
     if \<not> mask_contiguous mask then Err (Invalid_Config ''subnet mask must be contiguous'')
     else
       let network = server AND mask; broadcast = network OR NOT mask in
       if start > end' \<or> start \<le> network \<or> end' \<ge> broadcast \<or>
          (start AND mask) \<noteq> network \<or> (end' AND mask) \<noteq> network
       then Err (Invalid_Config ''DHCP pool must be ordered and inside the selected subnet'')
       else if start \<le> server \<and> server \<le> end' then Err Pool_Contains_Server
       else if \<not> (60 \<le> pxe_lease_seconds c \<and> pxe_lease_seconds c \<le> 604800)
       then Err (Invalid_Config ''lease must be between 60 and 604800 seconds'')
       else
         and_then (case pxe_gateway c of None \<Rightarrow> Ok 0 | Some g \<Rightarrow> parse_ipv4 g ''gateway'') (\<lambda>_.
         and_then (each_ok (\<lambda>d. parse_ipv4 d ''DNS server'') (pxe_dns_servers c)) (\<lambda>_.
         and_then (if pxe_bios_boot_file c \<noteq> [] then validate_relative_path p (pxe_bios_boot_file c)
                   else Ok ()) (\<lambda>_.
         and_then (validate_relative_path p (pxe_uefi_x64_boot_file c)) (\<lambda>_.
         if \<not> fv_is_dir fs (pxe_tftp_root c)
         then Err (Invalid_Config ''TFTP root is not a directory'')
         else each_ok (check_boot_file fs (pxe_tftp_root c))
           [pxe_bios_boot_file c, pxe_uefi_x64_boot_file c]))))))))"

lemma each_ok_Ok: "each_ok f xs = Ok u \<longleftrightarrow> list_all (\<lambda>x. is_ok (f x)) xs"
  by (induction xs) (auto simp: outcome_simps is_ok_iff)

lemma each_ok_no_panic: "(\<And>x. f x \<noteq> Panic) \<Longrightarrow> each_ok f xs \<noteq> Panic"
  by (induction xs) (auto simp: outcome_simps)

lemma parse_ipv4_no_panic [simp]: "parse_ipv4 v l \<noteq> Panic"
  by (simp add: parse_ipv4_def outcome_simps)

lemma parse_ipv4_Ok [simp]: "parse_ipv4 v l = Ok a \<longleftrightarrow> ipv4_from_str v = Some a"
  by (simp add: parse_ipv4_def outcome_simps)

lemma validate_relative_path_no_panic [simp]: "validate_relative_path p v \<noteq> Panic"
  by (simp add: validate_relative_path_def)

section \<open>Contiguous masks\<close>

text \<open>A non-zero word is an odd multiple of a power of two.\<close>

lemma odd_part: "0 < (n :: nat) \<Longrightarrow> \<exists>k q. n = 2 ^ k * (2 * q + 1)"
proof (induction n rule: less_induct)
  case (less n)
  show ?case
  proof (cases "even n")
    case True
    then obtain m where "n = 2 * m" by blast
    with less.prems have "m < n" "0 < m" by simp_all
    then obtain k q where "m = 2 ^ k * (2 * q + 1)" using less.IH by blast
    with \<open>n = 2 * m\<close> have "n = 2 ^ Suc k * (2 * q + 1)" by simp
    then show ?thesis by blast
  next
    case False
    then obtain q where "n = 2 * q + 1" by (elim oddE)
    then have "n = 2 ^ 0 * (2 * q + 1)" by simp
    then show ?thesis by blast
  qed
qed

lemma or_pred: "(2 ^ k * (2 * q + 1)) OR (2 ^ k * (2 * q + 1) - 1) = 2 ^ k * (2 * q + 2) - (1 :: nat)"
proof -
  have pred: "2 ^ k * (2 * q + 1) - 1 = push_bit k (2 * q) OR mask k"
  proof -
    have "push_bit k (2 * q) AND mask k = (0 :: nat)"
      by (rule bit_eqI) (auto simp: bit_simps)
    then have "push_bit k (2 * q) OR mask k = push_bit k (2 * q) + (mask k :: nat)"
      by (simp add: disjunctive_add_eq_or)
    then show ?thesis by (simp add: push_bit_eq_mult mask_eq_exp_minus_1 algebra_simps)
  qed
  have "(2 * q + 1) OR (2 * q) = (2 * q + (1 :: nat))"
    using even_bit_succ_iff [of "2 * q"] by (intro bit_eqI) (auto simp: bit_simps add.commute)
  then have "push_bit k (2 * q + 1) OR push_bit k (2 * q) = (push_bit k (2 * q + 1) :: nat)"
    by (simp flip: push_bit_or)
  then have "(2 ^ k * (2 * q + 1)) OR (2 ^ k * (2 * q + 1) - 1) =
      push_bit k (2 * q + 1) OR (mask k :: nat)"
    unfolding pred by (simp add: push_bit_eq_mult mult.commute flip: or.assoc)
  also have "push_bit k (2 * q + 1) AND mask k = (0 :: nat)"
    by (rule bit_eqI) (auto simp: bit_simps)
  then have "push_bit k (2 * q + 1) OR mask k = push_bit k (2 * q + 1) + (mask k :: nat)"
    by (simp add: disjunctive_add_eq_or)
  also have "\<dots> = 2 ^ k * (2 * q + 2) - 1"
    by (simp add: push_bit_eq_mult mask_eq_exp_minus_1 algebra_simps)
  finally show ?thesis .
qed

lemma mask_contiguous_prefix:
  "mask_contiguous m \<longleftrightarrow> (\<exists>k. k \<le> 31 \<and> unat m = 2 ^ 32 - 2 ^ k)"
proof (cases "m = 0")
  case True
  have "(2 :: nat) ^ k < 2 ^ 32" if "k \<le> 31" for k using that by (intro power_strict_increasing) auto
  with True show ?thesis by (fastforce simp: mask_contiguous_def)
next
  case False
  then have pos: "0 < unat m" by (simp add: unat_gt_0)
  obtain k q where n: "unat m = 2 ^ k * (2 * q + 1)" using odd_part [OF pos] by blast
  have "unat (m - 1) = unat m - 1"
    using pos False by (simp add: unat_minus_one)
  then have "unat (m OR (m - 1)) = 2 ^ k * (2 * q + 2) - 1"
    using or_pred [of k q] n by (simp add: unsigned_or_eq)
  moreover have "unat (- 1 :: ipv4) = 2 ^ 32 - 1" by (simp add: unat_max_word)
  moreover have "m OR (m - 1) = - 1 \<longleftrightarrow> unat (m OR (m - 1)) = unat (- 1 :: ipv4)"
    by (simp add: word_unat_eq_iff)
  ultimately have c: "mask_contiguous m \<longleftrightarrow> 2 ^ k * (2 * q + 2) = (2 ^ 32 :: nat)"
    using False by (auto simp: mask_contiguous_def)
  have u: "unat m = 2 ^ k * (2 * q + 2) - 2 ^ k" unfolding n by (simp add: algebra_simps)
  show ?thesis
  proof
    assume "mask_contiguous m"
    with c have eq: "2 ^ k * (2 * q + 2) = (2 ^ 32 :: nat)" by simp
    with u have "unat m = 2 ^ 32 - 2 ^ k" by simp
    moreover have "(2 :: nat) ^ k < 2 ^ 32" using eq pos u by linarith
    then have "k < 32" by (rule power_less_imp_less_exp [rotated]) simp
    then have "k \<le> 31" by simp
    ultimately show "\<exists>k. k \<le> 31 \<and> unat m = 2 ^ 32 - 2 ^ k" by blast
  next
    assume "\<exists>k. k \<le> 31 \<and> unat m = 2 ^ 32 - 2 ^ k"
    then obtain j where j: "j \<le> 31" "unat m = 2 ^ 32 - 2 ^ j" by blast
    have split: "(2 :: nat) ^ 32 - 2 ^ j = 2 ^ j * (2 ^ (32 - j) - 1)"
      using j(1) by (simp add: algebra_simps flip: power_add)
    have odd: "odd ((2 :: nat) ^ (32 - j) - 1)" using j(1) by simp
    have "k = j \<and> 2 * q + 1 = (2 :: nat) ^ (32 - j) - 1"
    proof -
      have e: "2 ^ k * (2 * q + 1) = 2 ^ j * ((2 :: nat) ^ (32 - j) - 1)" using n j(2) split by simp
      have uniq: "a = b \<and> x = y" if "2 ^ a * x = 2 ^ b * y" "odd x" "odd y" for a b x y :: nat
      proof (rule linorder_cases [of a b])
        assume "a < b"
        then have "2 ^ a * x = 2 ^ a * (2 ^ (b - a) * y)"
          using that(1) by (simp add: mult.assoc flip: power_add)
        then have "x = 2 ^ (b - a) * y" by simp
        with \<open>a < b\<close> that(2) show ?thesis by simp
      next
        assume "b < a"
        then have "(2 :: nat) ^ a = 2 ^ b * 2 ^ (a - b)" by (simp flip: power_add)
        with that(1) have "2 ^ b * (2 ^ (a - b) * x) = 2 ^ b * y" by (simp only: mult.assoc)
        then have "2 ^ (a - b) * x = y"
          by (metis nat_mult_eq_cancel1 zero_less_numeral zero_less_power)
        with \<open>b < a\<close> that(3) show ?thesis by auto
      qed (use that in simp)
      show ?thesis by (rule uniq [OF e _ odd]) simp
    qed
    then have "2 ^ k * (2 * q + 2) = 2 ^ j * (2 :: nat) ^ (32 - j)"
      by (metis add_2_eq_Suc' Suc_eq_plus1 add_Suc_right le_add_diff_inverse2 one_le_numeral one_le_power)
    also have "\<dots> = 2 ^ 32" using j(1) by (simp flip: power_add)
    finally show "mask_contiguous m" using c by simp
  qed
qed

text \<open>
  The check on the subnet mask accepts exactly the prefix masks: the masks
  with the upper \<open>32 - k\<close> bits set and the lower \<open>k\<close> bits clear, for \<open>k\<close> at
  most 31.
\<close>

theorem mask_check_is_prefix:
  "mask_contiguous m \<longleftrightarrow> (\<exists>k. k \<le> 31 \<and> unat m = 2 ^ 32 - 2 ^ k)"
  by (rule mask_contiguous_prefix)

section \<open>The pool of an accepted configuration\<close>

lemma prefix_mask_eq:
  fixes m :: ipv4
  assumes "unat m = 2 ^ 32 - 2 ^ k" "k \<le> 31"
  shows "m = NOT (mask k)"
proof -
  have le: "(2 :: nat) ^ k \<le> 2 ^ 32" using assms(2) by (intro power_increasing) auto
  have "m = word_of_nat (unat m)" by simp
  also have "\<dots> = word_of_nat (2 ^ 32) - word_of_nat (2 ^ k)"
    unfolding assms(1) using le by (rule of_nat_diff)
  also have "word_of_nat (2 ^ 32) = (0 :: ipv4)" by simp
  finally have "m = - (2 ^ k)" by simp
  then show ?thesis by (simp add: minus_exp_eq_not_mask)
qed

lemma drop_bit_mono: "(a :: ipv4) \<le> b \<Longrightarrow> drop_bit k a \<le> drop_bit k b"
  by (simp only: word_le_nat_alt unat_drop_bit_eq) (simp add: drop_bit_eq_div div_le_mono)

lemma in_subnet:
  fixes a s :: ipv4
  assumes "s AND NOT (mask k) \<le> a" "a \<le> (s AND NOT (mask k)) OR NOT (NOT (mask k))"
  shows "a AND NOT (mask k) = s AND NOT (mask k)"
proof -
  have net: "drop_bit k (s AND NOT (mask k)) = drop_bit k s"
    by (rule bit_eqI) (auto simp: bit_simps dest: bit_imp_le_length)
  have "drop_bit k ((s AND NOT (mask k)) OR NOT (NOT (mask k))) = drop_bit k s"
    by (rule bit_eqI) (auto simp: bit_simps dest: bit_imp_le_length)
  with net drop_bit_mono [OF assms(1), of k] drop_bit_mono [OF assms(2), of k]
  have d: "drop_bit k a = drop_bit k s" by simp
  have "x AND NOT (mask k) = push_bit k (drop_bit k x)" for x :: ipv4
    by (rule bit_eqI) (auto simp: bit_simps)
  with d show ?thesis by simp
qed

lemma pool_of_accepted:
  assumes "validate_pxe_config p fs c = Ok ()"
  shows "\<exists>server m start end'.
    ipv4_from_str (pxe_bind_address c) = Some server \<and> ipv4_from_str (pxe_subnet_mask c) = Some m \<and>
    ipv4_from_str (pxe_pool_start c) = Some start \<and> ipv4_from_str (pxe_pool_end c) = Some end' \<and>
    start \<le> end' \<and>
    (\<forall>a. start \<le> a \<and> a \<le> end' \<longrightarrow>
       (a AND m) = (server AND m) \<and> a \<noteq> server \<and> a \<noteq> (server AND m) \<and>
       a \<noteq> ((server AND m) OR NOT m))"
proof -
  from assms obtain server m start end' where parsed:
    "ipv4_from_str (pxe_bind_address c) = Some server" "ipv4_from_str (pxe_subnet_mask c) = Some m"
    "ipv4_from_str (pxe_pool_start c) = Some start" "ipv4_from_str (pxe_pool_end c) = Some end'"
    and mask: "mask_contiguous m"
    and range: "\<not> start > end'" "\<not> start \<le> (server AND m)" "\<not> end' \<ge> ((server AND m) OR NOT m)"
      "\<not> (start \<le> server \<and> server \<le> end')"
    by (auto simp: validate_pxe_config_def outcome_simps Let_def split: if_splits)
  from mask obtain k where "k \<le> 31" "unat m = 2 ^ 32 - 2 ^ k"
    by (auto simp: mask_contiguous_prefix)
  then have m: "m = NOT (mask k)" by (intro prefix_mask_eq)
  have "(a AND m) = (server AND m) \<and> a \<noteq> server \<and> a \<noteq> (server AND m) \<and>
      a \<noteq> ((server AND m) OR NOT m)" if a: "start \<le> a" "a \<le> end'" for a
  proof -
    have lo: "server AND m < a" and hi: "a < (server AND m) OR NOT m"
      using range(2,3) a by (simp_all add: not_le)
    have "(a AND m) = (server AND m)"
      using in_subnet [of server k a] lo hi unfolding m by (simp add: less_imp_le)
    with a lo hi range(4) show ?thesis by auto
  qed
  with parsed range(1) show ?thesis by (intro exI conjI allI impI) (auto simp: not_less)
qed

text \<open>
  Every address of an accepted pool can be leased: it lies in the server's
  subnet and is neither the server, the network nor the broadcast address.
\<close>

theorem accepted_pool_is_safe:
  assumes "validate_pxe_config p fs c = Ok ()"
  shows "\<exists>server m start end'.
    ipv4_from_str (pxe_bind_address c) = Some server \<and> ipv4_from_str (pxe_subnet_mask c) = Some m \<and>
    ipv4_from_str (pxe_pool_start c) = Some start \<and> ipv4_from_str (pxe_pool_end c) = Some end' \<and>
    start \<le> end' \<and>
    (\<forall>a. start \<le> a \<and> a \<le> end' \<longrightarrow>
       (a AND m) = (server AND m) \<and> a \<noteq> server \<and> a \<noteq> (server AND m) \<and>
       a \<noteq> ((server AND m) OR NOT m))"
  by (rule pool_of_accepted [OF assms])

definition sample_pxe_config :: pxe_config where
  "sample_pxe_config = \<lparr> pxe_mode = Standalone_Dhcp, pxe_bind_address = ''10.0.0.1'',
     pxe_subnet_mask = ''255.255.255.0'', pxe_pool_start = ''10.0.0.10'',
     pxe_pool_end = ''10.0.0.12'', pxe_lease_seconds = 3600, pxe_gateway = None,
     pxe_dns_servers = [''1.1.1.1''], pxe_tftp_root = ''/srv'', pxe_bios_boot_file = ''b.0'',
     pxe_uefi_x64_boot_file = ''u.efi'' \<rparr>"

definition sample_view :: file_view where
  "sample_view = \<lparr> fv_is_dir = (\<lambda>_. True), fv_is_file = (\<lambda>_ _. True) \<rparr>"

lemma sample_addresses:
  "ipv4_from_str ''10.0.0.1'' = Some 167772161" "ipv4_from_str ''255.255.255.0'' = Some 4294967040"
  "ipv4_from_str ''10.0.0.10'' = Some 167772170" "ipv4_from_str ''10.0.0.12'' = Some 167772172"
  "ipv4_from_str ''1.1.1.1'' = Some 16843009"
  by (simp_all add: ipv4_from_str_def octet_ok_def is_digit_def byte_def decimal_def
      digit_value_def octets_to_ip_def)

lemma sample_paths:
  "validate_relative_path p ''b.0'' = Ok ()" "validate_relative_path p ''u.efi'' = Ok ()"
  by (simp_all add: validate_relative_path_def path_separator_def drive_prefix_def byte_def)

lemma sample_config_valid: "validate_pxe_config p sample_view sample_pxe_config = Ok ()"
  by (simp add: validate_pxe_config_def sample_pxe_config_def sample_addresses sample_paths
      outcome_simps Let_def mask_contiguous_def sample_view_def check_boot_file_def each_ok_Ok is_ok_iff)

theorem accepted_pool_is_safe_witness:
  "ipv4_from_str (pxe_bind_address sample_pxe_config) = Some 167772161"
  using accepted_pool_is_safe [OF sample_config_valid]
  by (auto simp: sample_pxe_config_def sample_addresses)

end
