(* ===== verification/Byte_Codec.thy ===== *)
theory Byte_Codec
  imports Edm_Prelude
begin

text \<open>
  Fixed-width integers as bytes (\<open>to_be_bytes\<close>, \<open>from_be_bytes\<close>, \<open>to_le_bytes\<close>,
  \<open>from_le_bytes\<close>) for the binary formats of the program, and the contract
  their encodings share.
\<close>

type_synonym bytes = "u8 list"

section \<open>Digits to base 256\<close>

fun le_nat :: "bytes \<Rightarrow> nat" where
  "le_nat [] = 0"
| "le_nat (b # bs) = unat b + 256 * le_nat bs"

fun nat_le :: "nat \<Rightarrow> nat \<Rightarrow> bytes" where
  "nat_le 0 x = []"
| "nat_le (Suc n) x = word_of_nat (x mod 256) # nat_le n (x div 256)"

lemma length_nat_le [simp]: "length (nat_le n x) = n"
  by (induction n arbitrary: x) simp_all

lemma nat_le_2: "nat_le 2 x = [word_of_nat (x mod 256), word_of_nat (x div 256 mod 256)]"
  by (simp add: numeral_2_eq_2)

lemma unat_byte_of_nat: "unat (word_of_nat x :: u8) = x mod 256"
  by (simp add: unat_of_nat)

lemma le_nat_bound: "le_nat bs < 256 ^ length bs"
proof (induction bs)
  case (Cons b bs)
  have "unat b < 256" using unsigned_less [of b, where 'a = nat] by simp
  with Cons show ?case by simp
qed simp

lemma le_nat_nat_le [simp]: "le_nat (nat_le n x) = x mod 256 ^ n"
  by (induction n arbitrary: x) (simp_all add: unat_byte_of_nat mod_mult2_eq)

lemma nat_le_le_nat [simp]: "nat_le (length bs) (le_nat bs) = bs"
proof (induction bs)
  case (Cons b bs)
  have "unat b < 256" using unsigned_less [of b, where 'a = nat] by simp
  then have "(unat b + 256 * le_nat bs) mod 256 = unat b" "(unat b + 256 * le_nat bs) div 256 = le_nat bs"
    by simp_all
  with Cons show ?case by simp
qed simp

section \<open>The contract\<close>

locale fixed_codec =
  fixes width :: nat and enc :: "'a \<Rightarrow> bytes" and dec :: "bytes \<Rightarrow> 'a"
  assumes length_enc [simp]: "length (enc x) = width"
    and dec_enc [simp]: "dec (enc x) = x"
    and enc_dec [simp]: "length bs = width \<Longrightarrow> enc (dec bs) = bs"
begin

lemma enc_inject [simp]: "enc x = enc y \<longleftrightarrow> x = y"
  by (metis dec_enc)

lemma dec_inject: "length a = width \<Longrightarrow> length b = width \<Longrightarrow> dec a = dec b \<longleftrightarrow> a = b"
  by (metis enc_dec)

text \<open>A field read back at its offset, whatever surrounds it.\<close>

lemma read_field [simp]: "dec (take width (drop (length pre) (pre @ enc x @ post))) = x"
  by simp

lemma read_first [simp]: "dec (take width (enc x @ post)) = x"
  by simp

lemma write_read:
  "length bs = width + k \<Longrightarrow> enc (dec (take width bs)) @ drop width bs = bs"
  by simp

end

definition le_bytes :: "nat \<Rightarrow> 'n::len word \<Rightarrow> bytes" where
  "le_bytes n w = nat_le n (unat w)"

definition from_le :: "bytes \<Rightarrow> 'n::len word" where
  "from_le bs = word_of_nat (le_nat bs)"

definition be_bytes :: "nat \<Rightarrow> 'n::len word \<Rightarrow> bytes" where
  "be_bytes n w = rev (le_bytes n w)"

definition from_be :: "bytes \<Rightarrow> 'n::len word" where
  "from_be bs = from_le (rev bs)"

lemma length_le_bytes [simp]: "length (le_bytes n w) = n"
  by (simp add: le_bytes_def)

lemma length_be_bytes [simp]: "length (be_bytes n w) = n"
  by (simp add: be_bytes_def)

lemma from_le_bytes:
  assumes "LENGTH('n) = 8 * n"
  shows "from_le (le_bytes n w) = (w :: 'n::len word)"
proof -
  have "unat w < 256 ^ n"
    using unsigned_less [of w, where 'a = nat] by (simp add: assms power_mult)
  then show ?thesis by (simp add: from_le_def le_bytes_def)
qed

lemma le_bytes_from:
  assumes "LENGTH('n) = 8 * n" "length bs = n"
  shows "le_bytes n (from_le bs :: 'n::len word) = bs"
proof -
  have "le_nat bs < 2 ^ LENGTH('n)"
    using le_nat_bound [of bs] by (simp add: assms power_mult)
  then have "unat (from_le bs :: 'n word) = le_nat bs"
    by (simp add: from_le_def unat_of_nat)
  then show ?thesis using assms(2) nat_le_le_nat [of bs] by (simp add: le_bytes_def)
qed

interpretation le16: fixed_codec 2 "le_bytes 2" "from_le :: bytes \<Rightarrow> u16"
  by unfold_locales (simp_all add: from_le_bytes le_bytes_from)

interpretation le32: fixed_codec 4 "le_bytes 4" "from_le :: bytes \<Rightarrow> u32"
  by unfold_locales (simp_all add: from_le_bytes le_bytes_from)

interpretation le64: fixed_codec 8 "le_bytes 8" "from_le :: bytes \<Rightarrow> u64"
  by unfold_locales (simp_all add: from_le_bytes le_bytes_from)

interpretation be16: fixed_codec 2 "be_bytes 2" "from_be :: bytes \<Rightarrow> u16"
  by unfold_locales (simp_all add: be_bytes_def from_be_def from_le_bytes le_bytes_from)

interpretation be32: fixed_codec 4 "be_bytes 4" "from_be :: bytes \<Rightarrow> u32"
  by unfold_locales (simp_all add: be_bytes_def from_be_def from_le_bytes le_bytes_from)

section \<open>Texts\<close>

text \<open>A text is its bytes.\<close>

definition text_bytes :: "string \<Rightarrow> bytes" where
  "text_bytes s = map (\<lambda>c. word_of_nat (byte c)) s"

definition bytes_text :: "bytes \<Rightarrow> string" where
  "bytes_text bs = map (\<lambda>b. char_of (unat b)) bs"

lemma text_bytes_text [simp]: "bytes_text (text_bytes s) = s"
  by (simp add: bytes_text_def text_bytes_def comp_def byte_def unsigned_of_nat take_bit_nat_eq_self)

lemma bytes_text_simps [simp]:
  "bytes_text [] = []" "bytes_text (b # bs) = char_of (unat b) # bytes_text bs"
  "bytes_text (bs @ cs) = bytes_text bs @ bytes_text cs"
  by (simp_all add: bytes_text_def)

section \<open>Hexadecimal text\<close>

text \<open>Bytes as \<open>{:02X}\<close> prints them, and parts joined with colons.\<close>

definition upper_hex_digit :: "nat \<Rightarrow> char" where
  "upper_hex_digit n = char_of (if n < 10 then 48 + n else 55 + n)"

definition hex_byte :: "u8 \<Rightarrow> string" where
  "hex_byte b = [upper_hex_digit (unat b div 16), upper_hex_digit (unat b mod 16)]"

fun join_colon :: "string list \<Rightarrow> string" where
  "join_colon [] = []"
| "join_colon [s] = s"
| "join_colon (s # t # us) = s @ '':'' @ join_colon (t # us)"

end
