(* ===== verification/Dhcp_Server.thy ===== *)
theory Dhcp_Server
  imports Pxe_Config Byte_Codec "HOL-Library.AList"
begin

text \<open>
  The DHCP and ProxyDHCP server (\<open>crates/service/src/pxe.rs\<close>): the option
  scanner, the lease table, the answer to a packet, and the reply it builds.
  The table behind the lock is an association list from client identifiers to
  leases (a hash map in the code: its order is never observed); a packet is
  handled under the locks it takes, so a history of the server is a sequence of
  packets.  A reply's \<open>unwrap\<close> on an address of the configuration is a panic of
  the model.
\<close>

section \<open>Options\<close>

definition slice :: "nat \<Rightarrow> nat \<Rightarrow> 'a list \<Rightarrow> 'a list" where
  "slice a b xs = take (b - a) (drop a xs)"

function dhcp_scan :: "bytes \<Rightarrow> u8 \<Rightarrow> nat \<Rightarrow> bytes option" where
  "dhcp_scan packet wanted i =
     (if length packet \<le> i then None
      else
        let code = packet ! i in
        if code = 255 then None
        else if code = 0 then dhcp_scan packet wanted (i + 1)
        else if length packet \<le> i + 1 then None
        else
          let len = unat (packet ! (i + 1)) in
          if i + 2 + len > length packet then None
          else if code = wanted then Some (slice (i + 2) (i + 2 + len) packet)
          else dhcp_scan packet wanted (i + 2 + len))"
  by pat_completeness auto

termination
  by (relation "measure (\<lambda>(packet, _, i). length packet - i)") auto

declare dhcp_scan.simps [simp del]

definition dhcp_option :: "bytes \<Rightarrow> u8 \<Rightarrow> bytes option" where
  "dhcp_option packet wanted = (if length packet < 240 then None else dhcp_scan packet wanted 240)"

definition push_option :: "bytes \<Rightarrow> u8 \<Rightarrow> bytes \<Rightarrow> bytes" where
  "push_option out code value =
     (if length value \<le> 255 then out @ [code, word_of_nat (length value)] @ value else out)"

section \<open>Leases\<close>

record lease =
  lease_ip :: ipv4
  lease_expires_at :: instant

type_synonym lease_table = "(string \<times> lease) list"

definition seconds :: "u32 \<Rightarrow> int" where
  "seconds n = int (unat n) * 1000000000"

definition live_leases :: "instant \<Rightarrow> lease_table \<Rightarrow> lease_table" where
  "live_leases now t = filter (\<lambda>(_, l). lease_expires_at l > now) t"

definition pool_bounds :: "pxe_config \<Rightarrow> (ipv4 \<times> ipv4) option" where
  "pool_bounds c =
     (case ipv4_from_str (pxe_pool_start c) of None \<Rightarrow> None
      | Some a \<Rightarrow> (case ipv4_from_str (pxe_pool_end c) of None \<Rightarrow> None | Some b \<Rightarrow> Some (a, b)))"

definition new_lease :: "pxe_config \<Rightarrow> instant \<Rightarrow> ipv4 \<Rightarrow> lease" where
  "new_lease c now ip = \<lparr> lease_ip = ip, lease_expires_at = now + seconds (pxe_lease_seconds c) \<rparr>"

definition assign_requested_lease ::
  "pxe_config \<Rightarrow> instant \<Rightarrow> string \<Rightarrow> ipv4 \<Rightarrow> lease_table \<Rightarrow> ipv4 option \<times> lease_table" where
  "assign_requested_lease c now mac ip t =
     (case pool_bounds c of
        None \<Rightarrow> (None, t)
      | Some (start, end') \<Rightarrow>
          if ip < start \<or> ip > end' then (None, t)
          else
            let live = live_leases now t in
            if list_ex (\<lambda>(owner, l). owner \<noteq> mac \<and> lease_ip l = ip) live then (None, live)
            else (Some ip, AList.update mac (new_lease c now ip) live))"

definition addresses :: "ipv4 \<Rightarrow> ipv4 \<Rightarrow> ipv4 list" where
  "addresses start end' = map word_of_nat [unat start ..< Suc (unat end')]"

definition held_lease :: "ipv4 \<Rightarrow> ipv4 \<Rightarrow> string \<Rightarrow> lease_table \<Rightarrow> lease option" where
  "held_lease start end' mac t =
     (case map_of t mac of
        None \<Rightarrow> None
      | Some l \<Rightarrow> if start \<le> lease_ip l \<and> lease_ip l \<le> end' then Some l else None)"

definition allocate_lease ::
  "pxe_config \<Rightarrow> instant \<Rightarrow> string \<Rightarrow> lease_table \<Rightarrow> ipv4 option \<times> lease_table" where
  "allocate_lease c now mac t =
     (let live = live_leases now t in
      case pool_bounds c of
        None \<Rightarrow> (None, live)
      | Some (start, end') \<Rightarrow>
          (case held_lease start end' mac live of
             Some l \<Rightarrow> (Some (lease_ip l), live)
           | None \<Rightarrow>
               (case find (\<lambda>a. \<not> list_ex (\<lambda>(_, l). lease_ip l = a) live) (addresses start end') of
                  None \<Rightarrow> (None, live)
                | Some ip \<Rightarrow> (Some ip, AList.update mac (new_lease c now ip) live))))"

section \<open>Replies\<close>

definition dhcp_magic_cookie :: bytes where "dhcp_magic_cookie = [99, 130, 83, 99]"

definition octets :: "ipv4 \<Rightarrow> bytes" where
  "octets ip = be_bytes 4 ip"

text \<open>\<open>parse_ipv4(\<dots>).unwrap()\<close>\<close>

definition unwrap_ipv4 :: "string \<Rightarrow> (pxe_service_error, ipv4) outcome" where
  "unwrap_ipv4 v = (case ipv4_from_str v of Some a \<Rightarrow> Ok a | None \<Rightarrow> Panic)"

fun unwrap_all :: "string list \<Rightarrow> (pxe_service_error, bytes) outcome" where
  "unwrap_all [] = Ok []"
| "unwrap_all (v # vs) = and_then (unwrap_ipv4 v) (\<lambda>a. map_ok (\<lambda>bs. octets a @ bs) (unwrap_all vs))"

definition reply_header :: "bytes \<Rightarrow> ipv4 option \<Rightarrow> ipv4 \<Rightarrow> bytes" where
  "reply_header request yiaddr server =
     [2] @ slice 1 4 request @ slice 4 8 request @ [0, 0] @ slice 10 12 request @ [0, 0, 0, 0] @
     (case yiaddr of None \<Rightarrow> [0, 0, 0, 0] | Some ip \<Rightarrow> octets ip) @ octets server @ [0, 0, 0, 0] @
     slice 28 44 request @ replicate 192 0 @ dhcp_magic_cookie"

definition boot_file_for :: "pxe_config \<Rightarrow> u16 \<Rightarrow> bool \<Rightarrow> string option" where
  "boot_file_for c architecture is_ipxe =
     (if is_ipxe then Some ''boot.ipxe''
      else if architecture = 0 \<and> pxe_bios_boot_file c \<noteq> [] then Some (pxe_bios_boot_file c)
      else if architecture = 7 \<or> architecture = 9 then Some (pxe_uefi_x64_boot_file c)
      else None)"

definition standalone_options :: "pxe_config \<Rightarrow> bytes \<Rightarrow> (pxe_service_error, bytes) outcome" where
  "standalone_options c out =
     and_then (unwrap_ipv4 (pxe_subnet_mask c)) (\<lambda>mask.
       let out1 = push_option out 1 (octets mask);
           out2 = push_option out1 51 (be_bytes 4 (pxe_lease_seconds c)) in
       and_then
         (case pxe_gateway c of
            None \<Rightarrow> Ok out2
          | Some g \<Rightarrow> map_ok (\<lambda>a. push_option out2 3 (octets a)) (unwrap_ipv4 g))
         (\<lambda>out3. if pxe_dns_servers c = [] then Ok out3
            else map_ok (\<lambda>dns. push_option out3 6 dns) (unwrap_all (pxe_dns_servers c))))"

definition build_dhcp_reply ::
  "bytes \<Rightarrow> pxe_config \<Rightarrow> ipv4 option \<Rightarrow> u8 \<Rightarrow> u16 \<Rightarrow> bool \<Rightarrow> (pxe_service_error, bytes) outcome" where
  "build_dhcp_reply request c yiaddr message architecture is_ipxe =
     and_then (unwrap_ipv4 (pxe_bind_address c)) (\<lambda>server.
       let out1 = push_option (reply_header request yiaddr server) 53 [message];
           out2 = push_option out1 54 (octets server) in
       and_then (if pxe_mode c = Standalone_Dhcp then standalone_options c out2 else Ok out2) (\<lambda>out3.
         let out4 = (case boot_file_for c architecture is_ipxe of
               None \<Rightarrow> out3
             | Some boot \<Rightarrow>
                 push_option (push_option out3 66 (text_bytes (pxe_bind_address c))) 67 (text_bytes boot)) in
         Ok (out4 @ [255])))"

section \<open>Answering a packet\<close>

datatype ip_addr = V4 ipv4 | V6 "128 word"

record socket_addr =
  sa_ip :: ip_addr
  sa_port :: u16

record dhcp_answer =
  ans_reply :: bytes
  ans_target :: socket_addr
  ans_mac :: string
  ans_architecture :: architecture
  ans_ip :: "ipv4 option"

fun unspecified :: "ip_addr \<Rightarrow> bool" where
  "unspecified (V4 a) = (a = 0)"
| "unspecified (V6 a) = (a = 0)"

definition dhcp_client_port :: u16 where "dhcp_client_port = 68"

definition dhcp_probe_vendor_class :: bytes where
  "dhcp_probe_vendor_class = text_bytes ''EasyDeployMesh-DHCP-Probe''"

definition mac_of :: "bytes \<Rightarrow> nat \<Rightarrow> string" where
  "mac_of packet hlen = join_colon (map hex_byte (slice 28 (28 + hlen) packet))"

definition non_zero_ip :: "ipv4 \<Rightarrow> ipv4 option" where
  "non_zero_ip a = (if a = 0 then None else Some a)"

definition client_address :: "bytes \<Rightarrow> ipv4" where
  "client_address packet = from_be (slice 12 16 packet)"

definition requested_address :: "bytes \<Rightarrow> ipv4 option" where
  "requested_address packet =
     (case dhcp_option packet 50 of
        Some v \<Rightarrow> if length v \<ge> 4 then Some (from_be (take 4 v)) else non_zero_ip (client_address packet)
      | None \<Rightarrow> non_zero_ip (client_address packet))"

definition client_architecture :: "bytes \<Rightarrow> u16" where
  "client_architecture packet =
     (case dhcp_option packet 93 of
        Some v \<Rightarrow> if length v \<ge> 2 then from_be (take 2 v) else 0
      | None \<Rightarrow> 0)"

definition claims_ipxe :: "bytes \<Rightarrow> bool" where
  "claims_ipxe packet =
     (case dhcp_option packet 77 of
        None \<Rightarrow> False
      | Some v \<Rightarrow> contains_text ''ipxe'' (map to_lower (bytes_text v)))"

definition peer_address :: "socket_addr \<Rightarrow> ipv4 option" where
  "peer_address peer = (case sa_ip peer of V4 a \<Rightarrow> non_zero_ip a | V6 _ \<Rightarrow> None)"

definition first_some :: "'a option \<Rightarrow> 'a option \<Rightarrow> 'a option" where
  "first_some a b = (case a of None \<Rightarrow> b | Some x \<Rightarrow> Some x)"

text \<open>The lease a message gets, with the type of the reply; \<open>None\<close> when none is sent.\<close>

definition offer ::
  "bytes \<Rightarrow> pxe_config \<Rightarrow> instant \<Rightarrow> u8 \<Rightarrow> string \<Rightarrow> lease_table \<Rightarrow>
   (ipv4 option \<times> u8) option \<times> lease_table" where
  "offer packet c now message mac t =
     (if pxe_mode c = Standalone_Dhcp then
        if message = 1 then
          (case allocate_lease c now mac t of
             (None, t') \<Rightarrow> (None, t')
           | (Some ip, t') \<Rightarrow> (Some (Some ip, 2), t'))
        else
          (case requested_address packet of
             None \<Rightarrow> (Some (None, 6), t)
           | Some ip \<Rightarrow>
               (case assign_requested_lease c now mac ip t of
                  (Some a, t') \<Rightarrow> (Some (Some a, 5), t')
                | (None, t') \<Rightarrow> (Some (None, 6), t')))
      else (Some (None, if message = 1 then 2 else 5), t))"

text \<open>The checks that drop a packet before it has an effect: the message type and client of the rest.\<close>

definition dhcp_request :: "bytes \<Rightarrow> (u8 \<times> string) option" where
  "dhcp_request packet =
     (if length packet < 240 \<or> packet ! 0 \<noteq> 1 \<or> slice 236 240 packet \<noteq> dhcp_magic_cookie then None
      else case dhcp_option packet 53 of
        None \<Rightarrow> None
      | Some [] \<Rightarrow> None
      | Some (message # _) \<Rightarrow>
          if dhcp_option packet 60 = Some dhcp_probe_vendor_class then None
          else if message \<notin> {1, 3, 4, 7} then None
          else
            let hlen = min (unat (packet ! 2)) 16 in
            if hlen = 0 then None else Some (message, mac_of packet hlen))"

definition process_dhcp ::
  "bytes \<Rightarrow> socket_addr \<Rightarrow> pxe_config \<Rightarrow> instant \<Rightarrow> lease_table \<Rightarrow>
   (pxe_service_error, dhcp_answer option) outcome \<times> lease_table" where
  "process_dhcp packet peer c now t =
     (case dhcp_request packet of
        None \<Rightarrow> (Ok None, t)
      | Some (message, mac) \<Rightarrow>
          let architecture = client_architecture packet;
              arch = (if architecture \<in> {0, 7, 9} then X86_64 else Arch_Unknown) in
          if message \<in> {4, 7} then (Ok None, AList.delete mac t)
          else case offer packet c now message mac t of
            (None, t') \<Rightarrow> (Ok None, t')
          | (Some (offered, reply_type), t') \<Rightarrow>
              let observed = first_some offered
                    (first_some (non_zero_ip (client_address packet)) (peer_address peer));
                  target = (if unspecified (sa_ip peer) \<or> sa_port peer = dhcp_client_port
                    then \<lparr> sa_ip = V4 (- 1), sa_port = dhcp_client_port \<rparr> else peer) in
              (map_ok (\<lambda>reply. Some \<lparr> ans_reply = reply, ans_target = target, ans_mac = mac,
                   ans_architecture = arch, ans_ip = observed \<rparr>)
                 (build_dhcp_reply packet c offered reply_type architecture (claims_ipxe packet)), t'))"

text \<open>
  The packet of the conflict detector: a discovery with a random transaction and
  hardware address and the probe's vendor class.
\<close>

definition probe_packet :: "u32 \<Rightarrow> 48 word \<Rightarrow> bytes" where
  "probe_packet xid mac =
     push_option (push_option
       ([1, 1, 6, 0] @ be_bytes 4 xid @ [0, 0, 0x80, 0] @ replicate 16 0 @ be_bytes 6 mac @
        replicate 202 0 @ dhcp_magic_cookie) 53 [1]) 60 dhcp_probe_vendor_class @ [255]"

text \<open>A history of the service; a restart may change the configuration and keeps the leases.\<close>

fun dhcp_history ::
  "(pxe_config \<times> bytes \<times> socket_addr \<times> instant) list \<Rightarrow> lease_table \<Rightarrow> lease_table" where
  "dhcp_history [] t = t"
| "dhcp_history ((c, packet, peer, now) # ps) t =
     dhcp_history ps (snd (process_dhcp packet peer c now t))"

section \<open>The option scanner reads the options in order\<close>

text \<open>The reference: the list of options that the bytes after the header encode.\<close>

function parse_options :: "bytes \<Rightarrow> (u8 \<times> bytes) list" where
  "parse_options [] = []"
| "parse_options (c # bs) =
     (if c = 255 then []
      else if c = 0 then parse_options bs
      else case bs of
        [] \<Rightarrow> []
      | l # v \<Rightarrow>
          if length v < unat l then []
          else (c, take (unat l) v) # parse_options (drop (unat l) v))"
  by pat_completeness auto

termination
  by (relation "measure length") auto

lemma dhcp_scan_parse:
  "i \<le> length packet \<Longrightarrow> dhcp_scan packet w i = map_of (parse_options (drop i packet)) w"
proof (induction packet w i rule: dhcp_scan.induct)
  case (1 packet w i)
  show ?case
  proof (cases "length packet \<le> i")
    case True
    then show ?thesis by (simp add: dhcp_scan.simps)
  next
    case False
    then have d: "drop i packet = packet ! i # drop (Suc i) packet"
      by (simp add: Cons_nth_drop_Suc)
    show ?thesis
    proof (cases "packet ! i = 255 \<or> packet ! i = 0 \<or> length packet \<le> i + 1")
      case True
      then show ?thesis
        using 1(1) False
        by (auto simp: dhcp_scan.simps [of packet w i] d Let_def)
    next
      case nonzero: False
      then have d1: "drop (Suc i) packet = packet ! Suc i # drop (Suc (Suc i)) packet"
        using Cons_nth_drop_Suc [of "Suc i" packet] by simp
      let ?len = "unat (packet ! Suc i)"
      have rest: "drop ?len (drop (Suc (Suc i)) packet) = drop (Suc (Suc (i + ?len))) packet"
        by (simp add: add.commute)
      show ?thesis
        using 1(2) [OF False refl _ _ _ refl] False nonzero rest
        by (auto simp: dhcp_scan.simps [of packet w i] d d1 Let_def slice_def not_less)
    qed
  qed
qed

text \<open>
  The option scanner, which walks the packet by index, is the lookup in
  the list of options that the packet encodes: it returns the first option with
  the wanted code, it skips padding, and it stops at the end marker or at an
  option that does not fit, without reading outside the packet.
\<close>

theorem dhcp_option_is_lookup:
  "dhcp_option packet w =
     (if length packet < 240 then None else map_of (parse_options (drop 240 packet)) w)"
  by (simp add: dhcp_option_def dhcp_scan_parse)

section \<open>The lease table\<close>

definition leases_ok :: "lease_table \<Rightarrow> bool" where
  "leases_ok t = (distinct (map fst t) \<and> distinct (map (lease_ip \<circ> snd) t))"

lemma leases_ok_live: "leases_ok t \<Longrightarrow> leases_ok (live_leases now t)"
  by (auto simp: leases_ok_def live_leases_def intro: distinct_map_filter)

lemma leases_ok_delete: "leases_ok t \<Longrightarrow> leases_ok (AList.delete mac t)"
  by (auto simp: leases_ok_def AList.delete_eq intro: distinct_map_filter)

lemma set_AList_update:
  "distinct (map fst t) \<Longrightarrow> set (AList.update k l t) = insert (k, l) {x \<in> set t. fst x \<noteq> k}"
proof (induction t)
  case (Cons p t)
  have "fst p \<notin> fst ` set t" using Cons.prems by auto
  then have "\<forall>x \<in> set t. fst x \<noteq> fst p" by (metis image_eqI)
  with Cons show ?case by (cases p) auto
qed simp

lemma distinct_ips_update:
  "distinct (map fst t) \<Longrightarrow> distinct (map (lease_ip \<circ> snd) t) \<Longrightarrow>
     \<forall>x \<in> set t. fst x \<noteq> k \<longrightarrow> lease_ip (snd x) \<noteq> lease_ip l \<Longrightarrow>
     distinct (map (lease_ip \<circ> snd) (AList.update k l t))"
proof (induction t)
  case (Cons p t)
  obtain j m where p: "p = (j, m)" by (cases p)
  show ?case
  proof (cases "j = k")
    case True
    then have "\<forall>x \<in> set t. fst x \<noteq> k" using Cons.prems(1) p by (auto simp: image_iff)
    with Cons.prems p True show ?thesis by auto
  next
    case False
    with Cons.prems p have "lease_ip m \<notin> (lease_ip \<circ> snd) ` set (AList.update k l t)"
      by (auto simp: set_AList_update image_iff)
    with Cons p False show ?thesis by auto
  qed
qed simp

lemma leases_ok_update:
  assumes "leases_ok t" "\<not> list_ex (\<lambda>(owner, m). owner \<noteq> mac \<and> lease_ip m = lease_ip l) t"
  shows "leases_ok (AList.update mac l t)"
proof -
  have "\<forall>x \<in> set t. fst x \<noteq> mac \<longrightarrow> lease_ip (snd x) \<noteq> lease_ip l"
    using assms(2) by (auto simp: list_ex_iff)
  with assms(1) distinct_ips_update [of t mac l] show ?thesis
    by (simp add: leases_ok_def distinct_update)
qed

lemma assign_leases_ok: "leases_ok t \<Longrightarrow> leases_ok (snd (assign_requested_lease c now mac ip t))"
  by (auto simp: assign_requested_lease_def Let_def new_lease_def split: option.splits
      intro!: leases_ok_update leases_ok_live)

lemma allocate_leases_ok: "leases_ok t \<Longrightarrow> leases_ok (snd (allocate_lease c now mac t))"
  by (auto simp: allocate_lease_def Let_def new_lease_def list_ex_iff split: option.splits
      intro!: leases_ok_update leases_ok_live dest!: find_Some_in)

lemma offer_leases_ok:
  assumes "offer packet c now message mac t = (r, t')" "leases_ok t"
  shows "leases_ok t'"
proof -
  have "snd (offer packet c now message mac t) \<in>
      {t, snd (allocate_lease c now mac t)} \<union> range (\<lambda>ip. snd (assign_requested_lease c now mac ip t))"
    by (auto simp: offer_def split: option.splits prod.splits intro: rev_image_eqI)
      (metis rangeI snd_conv)+
  with assms assign_leases_ok allocate_leases_ok show ?thesis by auto
qed

lemma process_leases_ok: "leases_ok t \<Longrightarrow> leases_ok (snd (process_dhcp packet peer c now t))"
  by (auto simp: process_dhcp_def Let_def leases_ok_delete split: option.splits prod.splits
      dest: offer_leases_ok)

text \<open>
  C33.  No address is leased twice: whatever packets arrive, at whatever times
  and under whatever configurations, each client has at most one entry of the
  lease table and no two clients hold the same address.
\<close>

lemma history_leases_ok: "leases_ok t \<Longrightarrow> leases_ok (dhcp_history ps t)"
  by (induction ps t rule: dhcp_history.induct) (auto intro: process_leases_ok)

theorem no_address_leased_twice:
  "distinct (map fst (dhcp_history ps [])) \<and>
   distinct (map (\<lambda>(mac, l). lease_ip l) (dhcp_history ps []))"
proof -
  have "leases_ok (dhcp_history ps [])" by (rule history_leases_ok) (simp add: leases_ok_def)
  then show ?thesis by (simp add: leases_ok_def comp_def case_prod_unfold)
qed

section \<open>Offers\<close>

lemma set_addresses: "a \<in> set (addresses s e) \<longleftrightarrow> s \<le> a \<and> a \<le> e"
proof -
  have "a \<in> set (addresses s e)" if "s \<le> a" "a \<le> e"
  proof -
    have "unat a \<in> set [unat s ..< Suc (unat e)]"
      using that by (auto simp: word_le_nat_alt)
    then have "word_of_nat (unat a) \<in> set (addresses s e)"
      unfolding addresses_def set_map by (rule imageI)
    then show ?thesis by simp
  qed
  moreover have "s \<le> a \<and> a \<le> e" if "a \<in> set (addresses s e)"
  proof -
    from that obtain n where n: "unat s \<le> n" "n \<le> unat e" "a = word_of_nat n"
      by (auto simp: addresses_def)
    then have "n < 2 ^ 32" using unsigned_less [of e, where 'a = nat] by simp
    with n show ?thesis by (simp add: word_le_nat_alt unat_of_nat)
  qed
  ultimately show ?thesis by blast
qed

lemma offer_from_pool:
  assumes "offer packet c now message mac t = (Some (Some ip, ty), t')"
  shows "\<exists>s e. pool_bounds c = Some (s, e) \<and> s \<le> ip \<and> ip \<le> e \<and>
    (\<exists>l. map_of t' mac = Some l \<and> lease_ip l = ip)"
proof -
  have upd: "map_of (AList.update mac l live) mac = Some l" for l and live :: lease_table
    by (simp add: update_conv)
  consider (alloc) "allocate_lease c now mac t = (Some ip, t')"
    | (assign) a where "assign_requested_lease c now mac a t = (Some ip, t')"
    using assms by (auto simp: offer_def split: if_splits option.splits prod.splits)
  then show ?thesis
  proof cases
    case alloc
    then show ?thesis
      by (auto simp: allocate_lease_def held_lease_def Let_def upd new_lease_def
          split: option.splits if_splits dest!: find_Some_in simp: set_addresses)
  next
    case assign
    then show ?thesis
      by (auto simp: assign_requested_lease_def Let_def upd new_lease_def
          split: option.splits if_splits)
  qed
qed

text \<open>
  What the server hands out is its own to give: under an accepted
  configuration, an address offered or acknowledged lies in the server's subnet,
  is not the server's, the network's or the broadcast address, and is the one
  the lease table records for the client.
\<close>

theorem offered_address_is_leasable:
  assumes "validate_pxe_config p fs c = Ok ()"
    and "offer packet c now message mac t = (Some (Some ip, ty), t')"
  shows "\<exists>server m. ipv4_from_str (pxe_bind_address c) = Some server \<and>
    ipv4_from_str (pxe_subnet_mask c) = Some m \<and>
    (ip AND m) = (server AND m) \<and> ip \<noteq> server \<and> ip \<noteq> (server AND m) \<and>
    ip \<noteq> ((server AND m) OR NOT m) \<and>
    (\<exists>l. map_of t' mac = Some l \<and> lease_ip l = ip)"
proof -
  from pool_of_accepted [OF assms(1)] obtain server m start end' where parsed:
    "ipv4_from_str (pxe_bind_address c) = Some server" "ipv4_from_str (pxe_subnet_mask c) = Some m"
    "ipv4_from_str (pxe_pool_start c) = Some start" "ipv4_from_str (pxe_pool_end c) = Some end'"
    and safe: "\<And>a. start \<le> a \<Longrightarrow> a \<le> end' \<Longrightarrow> (a AND m) = (server AND m) \<and> a \<noteq> server \<and>
      a \<noteq> (server AND m) \<and> a \<noteq> ((server AND m) OR NOT m)"
    by blast
  from offer_from_pool [OF assms(2)] parsed(3,4)
  have "start \<le> ip" "ip \<le> end'" "\<exists>l. map_of t' mac = Some l \<and> lease_ip l = ip"
    by (auto simp: pool_bounds_def)
  with parsed(1,2) safe show ?thesis by blast
qed

text \<open>
  A discovery goes unanswered only when the pool is exhausted: if no
  address can be allocated, every address of the pool is held by a lease that
  has not expired.
\<close>

theorem no_offer_means_exhausted:
  assumes "pool_bounds c = Some (s, e)" "allocate_lease c now mac t = (None, t')"
    and "s \<le> a" "a \<le> e"
  shows "\<exists>owner l. (owner, l) \<in> set t \<and> lease_expires_at l > now \<and> lease_ip l = a"
proof -
  from assms(1,2) have "find (\<lambda>a. \<not> list_ex (\<lambda>(_, l). lease_ip l = a) (live_leases now t)) (addresses s e) = None"
    by (auto simp: allocate_lease_def Let_def split: option.splits)
  with assms(3,4) have "list_ex (\<lambda>(_, l). lease_ip l = a) (live_leases now t)"
    by (auto simp: find_None_all set_addresses)
  then show ?thesis by (auto simp: list_ex_iff live_leases_def)
qed

section \<open>Replies carry their options\<close>

text \<open>The bytes of an option list, as \<open>push_option\<close> appends them.\<close>

definition fits :: "u8 \<times> bytes \<Rightarrow> bool" where
  "fits kv = (length (snd kv) \<le> 255)"

definition push_all :: "bytes \<Rightarrow> (u8 \<times> bytes) list \<Rightarrow> bytes" where
  "push_all out os = foldl (\<lambda>o' (k, v). push_option o' k v) out os"

definition plain_code :: "u8 \<times> bytes \<Rightarrow> bool" where
  "plain_code kv = (fst kv \<noteq> 0 \<and> fst kv \<noteq> 255)"

lemma push_all_simps [simp]:
  "push_all out [] = out"
  "push_all out ((k, v) # os) = push_all (push_option out k v) os"
  by (simp_all add: push_all_def)

lemma push_all_append: "push_all out (os @ qs) = push_all (push_all out os) qs"
  by (simp add: push_all_def)

lemma push_all_prefix: "push_all (out @ a) os = out @ push_all a os"
  by (induction os arbitrary: a) (auto simp: push_option_def split: prod.splits)

lemma parse_push_all:
  "list_all plain_code os \<Longrightarrow> parse_options (push_all [] os @ 255 # junk) = filter fits os"
proof (induction os)
  case (Cons kv os)
  obtain k v where kv: "kv = (k, v)" by (cases kv)
  show ?case
  proof (cases "length v \<le> 255")
    case True
    have "push_all [] (kv # os) = [k, word_of_nat (length v)] @ v @ push_all [] os"
      using True push_all_prefix [of "[k, word_of_nat (length v)] @ v" "[]" os]
      by (simp add: kv push_option_def)
    moreover have "unat (word_of_nat (length v) :: u8) = length v"
      using True by (simp add: unat_of_nat)
    ultimately show ?thesis
      using Cons True by (simp add: kv plain_code_def fits_def)
  next
    case False
    then show ?thesis using Cons by (simp add: kv push_option_def fits_def)
  qed
qed (simp add: push_all_def)

lemma unwrap_ipv4_Ok [simp]: "unwrap_ipv4 v = Ok a \<longleftrightarrow> ipv4_from_str v = Some a"
  by (simp add: unwrap_ipv4_def split: option.splits)

lemma unwrap_all_Ok:
  "list_all (\<lambda>v. ipv4_from_str v \<noteq> None) vs \<Longrightarrow>
     unwrap_all vs = Ok (concat (map (\<lambda>v. octets (the (ipv4_from_str v))) vs))"
  by (induction vs) (auto simp: unwrap_ipv4_def)

text \<open>The options a reply is meant to carry, in order.\<close>

definition reply_options :: "pxe_config \<Rightarrow> u8 \<Rightarrow> u16 \<Rightarrow> bool \<Rightarrow> (u8 \<times> bytes) list" where
  "reply_options c message architecture is_ipxe =
     (let ip = (\<lambda>v. octets (the (ipv4_from_str v))) in
      [(53, [message]), (54, ip (pxe_bind_address c))] @
      (if pxe_mode c = Standalone_Dhcp then
         [(1, ip (pxe_subnet_mask c)), (51, be_bytes 4 (pxe_lease_seconds c))] @
         (case pxe_gateway c of None \<Rightarrow> [] | Some g \<Rightarrow> [(3, ip g)]) @
         (if pxe_dns_servers c = [] then [] else [(6, concat (map ip (pxe_dns_servers c)))])
       else []) @
      (case boot_file_for c architecture is_ipxe of None \<Rightarrow> []
       | Some boot \<Rightarrow> [(66, text_bytes (pxe_bind_address c)), (67, text_bytes boot)]))"

lemma length_slice: "b \<le> length xs \<Longrightarrow> length (slice a b xs) = b - a"
  by (simp add: slice_def)

lemma length_reply_header:
  "240 \<le> length request \<Longrightarrow> length (reply_header request yiaddr server) = 240"
  by (simp add: reply_header_def length_slice octets_def dhcp_magic_cookie_def split: option.splits)

lemma accepted_addresses_parse:
  assumes "validate_pxe_config p fs c = Ok ()"
  shows "ipv4_from_str (pxe_bind_address c) \<noteq> None" "ipv4_from_str (pxe_subnet_mask c) \<noteq> None"
    "\<And>g. pxe_gateway c = Some g \<Longrightarrow> ipv4_from_str g \<noteq> None"
    "list_all (\<lambda>v. ipv4_from_str v \<noteq> None) (pxe_dns_servers c)"
  using assms
  by (auto simp: validate_pxe_config_def outcome_simps Let_def each_ok_Ok is_ok_iff
      split: if_splits)

lemma build_dhcp_reply_form:
  assumes "validate_pxe_config p fs c = Ok ()"
  shows "build_dhcp_reply request c yiaddr message architecture is_ipxe =
    Ok (push_all (reply_header request yiaddr (the (ipv4_from_str (pxe_bind_address c))))
      (reply_options c message architecture is_ipxe) @ [255])"
proof -
  note parse = accepted_addresses_parse [OF assms]
  obtain server m where a: "ipv4_from_str (pxe_bind_address c) = Some server"
    "ipv4_from_str (pxe_subnet_mask c) = Some m"
    using parse(1,2) by auto
  have u: "unwrap_ipv4 (pxe_bind_address c) = Ok server" "unwrap_ipv4 (pxe_subnet_mask c) = Ok m"
    using a by simp_all
  have g: "unwrap_ipv4 g = Ok (the (ipv4_from_str g))" if "pxe_gateway c = Some g" for g
    using parse(3) [OF that] by auto
  show ?thesis
    by (cases "pxe_gateway c"; cases "boot_file_for c architecture is_ipxe")
      (simp_all add: build_dhcp_reply_def standalone_options_def u reply_options_def a Let_def
        push_all_append g unwrap_all_Ok [OF parse(4)] del: unwrap_ipv4_Ok)
qed

text \<open>
  Under an accepted configuration building a reply does not panic, and the
  reply is read back as it was meant: a 240-byte header with the address and the
  server, then exactly the intended options in their order, of which only one
  whose value exceeds 255 bytes is left out.
\<close>

theorem reply_carries_options:
  assumes "validate_pxe_config p fs c = Ok ()" "240 \<le> length request"
  shows "\<exists>out. build_dhcp_reply request c yiaddr message architecture is_ipxe = Ok out \<and>
    slice 16 20 out = (case yiaddr of None \<Rightarrow> [0, 0, 0, 0] | Some ip \<Rightarrow> octets ip) \<and>
    slice 4 8 out = slice 4 8 request \<and> slice 236 240 out = dhcp_magic_cookie \<and>
    parse_options (drop 240 out) = filter fits (reply_options c message architecture is_ipxe)"
proof -
  let ?h = "reply_header request yiaddr (the (ipv4_from_str (pxe_bind_address c)))"
  let ?os = "reply_options c message architecture is_ipxe"
  have len: "length ?h = 240" using assms(2) by (rule length_reply_header)
  have form: "push_all ?h ?os @ [255] = ?h @ push_all [] ?os @ [255]"
    using push_all_prefix [of ?h "[]" ?os] by simp
  have "list_all plain_code ?os"
    by (simp add: reply_options_def Let_def plain_code_def split: option.splits)
  then have opts: "parse_options (drop 240 (?h @ push_all [] ?os @ [255])) = filter fits ?os"
    using len parse_push_all [of ?os "[]"] by simp
  have sl: "slice 16 20 (?h @ r) = (case yiaddr of None \<Rightarrow> [0, 0, 0, 0] | Some ip \<Rightarrow> octets ip)"
    "slice 4 8 (?h @ r) = slice 4 8 request" "slice 236 240 (?h @ r) = dhcp_magic_cookie" for r
    using assms(2)
    by (auto simp: reply_header_def slice_def octets_def dhcp_magic_cookie_def split: option.splits)
  show ?thesis
    unfolding build_dhcp_reply_form [OF assms(1)] form
    using opts sl by blast
qed

text \<open>
  The conflict detector never becomes a client: its probe, with whatever
  transaction and hardware address, gets no answer and leaves the lease table
  as it was.
\<close>

theorem probe_leaves_no_lease:
  "process_dhcp (probe_packet xid mac) peer c now t = (Ok None, t)"
proof -
  let ?h = "[1, 1, 6, 0] @ be_bytes 4 xid @ [0, 0, 0x80, 0] @ replicate 16 0 @ be_bytes 6 mac @
    replicate 202 0 @ dhcp_magic_cookie :: bytes"
  have len: "length ?h = 240" by (simp add: dhcp_magic_cookie_def)
  have p: "probe_packet xid mac =
      ?h @ push_all [] [(53, [1]), (60, dhcp_probe_vendor_class)] @ [255]"
    using push_all_prefix [of ?h "[]" "[(53, [1]), (60, dhcp_probe_vendor_class)]"]
    by (simp add: probe_packet_def)
  have v: "length dhcp_probe_vendor_class \<le> 255"
    by (simp add: dhcp_probe_vendor_class_def text_bytes_def)
  have "parse_options (drop 240 (probe_packet xid mac)) = [(53, [1]), (60, dhcp_probe_vendor_class)]"
    using parse_push_all [of "[(53, [1]), (60, dhcp_probe_vendor_class)]" "[]"] len v
    by (simp add: p plain_code_def fits_def del: push_all_simps)
  moreover have "240 \<le> length (probe_packet xid mac)" using len by (simp add: p)
  ultimately have "dhcp_option (probe_packet xid mac) 60 = Some dhcp_probe_vendor_class"
    "dhcp_option (probe_packet xid mac) 53 = Some [1]"
    by (simp_all add: dhcp_option_def dhcp_scan_parse)
  then have "dhcp_request (probe_packet xid mac) = None"
    by (simp add: dhcp_request_def)
  then show ?thesis by (simp add: process_dhcp_def)
qed

section \<open>Concrete runs\<close>

lemma sample_pool: "pool_bounds sample_pxe_config = Some (167772170, 167772172)"
  by (simp add: pool_bounds_def sample_pxe_config_def sample_addresses)

lemma sample_pool_addresses: "addresses 167772170 167772172 = [167772170, 167772171, 167772172]"
  by (simp add: addresses_def upt_rec)

lemma sample_mode: "pxe_mode sample_pxe_config = Standalone_Dhcp"
  by (simp add: sample_pxe_config_def)

theorem offered_address_is_leasable_witness:
  "\<exists>ip t'. offer [] sample_pxe_config 0 1 ''A'' [] = (Some (Some ip, 2), t') \<and> ip \<noteq> 167772161 \<and>
     (\<exists>l. map_of t' ''A'' = Some l \<and> lease_ip l = ip)"
proof -
  obtain ip t' where r: "offer [] sample_pxe_config 0 1 ''A'' [] = (Some (Some ip, 2), t')"
    using sample_mode
    by (simp add: offer_def allocate_lease_def live_leases_def sample_pool held_lease_def
        sample_pool_addresses)
  from offered_address_is_leasable [OF sample_config_valid r] r show ?thesis
    by (auto simp: sample_pxe_config_def sample_addresses)
qed

theorem no_offer_means_exhausted_witness:
  "\<exists>owner l. (owner, l) \<in> set
      [(''A'', \<lparr> lease_ip = 167772170, lease_expires_at = 9 \<rparr>),
       (''B'', \<lparr> lease_ip = 167772171, lease_expires_at = 9 \<rparr>),
       (''C'', \<lparr> lease_ip = 167772172, lease_expires_at = 9 \<rparr>)] \<and>
     lease_expires_at l > 1 \<and> lease_ip l = 167772171"
proof -
  let ?t = "[(''A'', \<lparr> lease_ip = 167772170, lease_expires_at = 9 \<rparr>),
       (''B'', \<lparr> lease_ip = 167772171, lease_expires_at = 9 \<rparr>),
       (''C'', \<lparr> lease_ip = 167772172, lease_expires_at = 9 \<rparr>)]"
  have "allocate_lease sample_pxe_config 1 ''D'' ?t = (None, ?t)"
    by (simp add: allocate_lease_def live_leases_def sample_pool held_lease_def
        sample_pool_addresses)
  from no_offer_means_exhausted [OF sample_pool this, of 167772171] show ?thesis by simp
qed

theorem reply_carries_options_witness:
  "\<exists>out. build_dhcp_reply (replicate 240 0) sample_pxe_config (Some 167772170) 2 7 False = Ok out \<and>
     slice 16 20 out = octets 167772170"
  using reply_carries_options [OF sample_config_valid, of "replicate 240 0" "Some 167772170" 2 7 False]
  by auto

end
