(* ===== verification/Decimal.thy ===== *)
theory Decimal
  imports Edm_Prelude
begin

text \<open>
  Decimal numbers as Rust's \<open>from_str\<close> reads them and \<open>format!\<close> prints them.
\<close>

section \<open>Reading\<close>

definition digit :: "char \<Rightarrow> nat" where "digit c = byte c - 48"

definition decimal_value :: "string \<Rightarrow> nat" where
  "decimal_value s = foldl (\<lambda>n c. 10 * n + digit c) 0 s"

definition u64_of_digits :: "string \<Rightarrow> u64 option" where
  "u64_of_digits s =
     (if s \<noteq> [] \<and> list_all is_digit s \<and> decimal_value s < 2 ^ 64
      then Some (word_of_nat (decimal_value s)) else None)"

text \<open>\<open>u64::from_str\<close> takes one leading plus sign.\<close>

definition u64_from_str :: "string \<Rightarrow> u64 option" where
  "u64_from_str s =
     (case s of c # t \<Rightarrow> if c = CHR ''+'' then u64_of_digits t else u64_of_digits s | [] \<Rightarrow> None)"

definition u32_of_digits :: "string \<Rightarrow> u32 option" where
  "u32_of_digits s =
     (if s \<noteq> [] \<and> list_all is_digit s \<and> decimal_value s < 2 ^ 32
      then Some (word_of_nat (decimal_value s)) else None)"

definition u32_from_str :: "string \<Rightarrow> u32 option" where
  "u32_from_str s =
     (case s of c # t \<Rightarrow> if c = CHR ''+'' then u32_of_digits t else u32_of_digits s | [] \<Rightarrow> None)"

section \<open>Printing\<close>

fun dec :: "nat \<Rightarrow> string" where
  "dec n = (if n < 10 then [] else dec (n div 10)) @ [char_of (48 + n mod 10)]"

declare dec.simps [simp del]

lemma digit_char: "n < 10 \<Longrightarrow> byte (char_of (48 + n)) = 48 + n"
  by simp

lemma dec_digits: "list_all is_digit (dec n)"
proof (induction n rule: dec.induct)
  case (1 n)
  have "is_digit (char_of (48 + n mod 10))" by (simp add: is_digit_def)
  with 1 show ?case by (subst dec.simps) auto
qed

lemma dec_not_Nil [simp]: "dec n \<noteq> []"
  by (subst dec.simps) simp

lemma decimal_value_dec [simp]: "decimal_value (dec n) = n"
proof (induction n rule: dec.induct)
  case (1 n)
  have d: "digit (char_of (48 + n mod 10)) = n mod 10" by (simp add: digit_def)
  show ?case
  proof (cases "n < 10")
    case True
    then show ?thesis using d by (subst dec.simps) (simp add: decimal_value_def)
  next
    case False
    with 1 d show ?thesis by (subst dec.simps) (simp add: decimal_value_def)
  qed
qed

lemma length_dec: "0 < k \<Longrightarrow> n < 10 ^ k \<Longrightarrow> length (dec n) \<le> k"
proof (induction n arbitrary: k rule: dec.induct)
  case (1 n)
  show ?case
  proof (cases "n < 10")
    case True
    then show ?thesis using 1(2) by (subst dec.simps) simp
  next
    case False
    then have "k \<noteq> 1" using 1(3) by auto
    then obtain j where k: "k = Suc j" "0 < j" using 1(2) by (cases k) auto
    have "n div 10 < 10 ^ j" using 1(3) by (simp add: k div_less_iff_less_mult mult.commute)
    with 1(1) [OF False k(2)] False show ?thesis by (subst dec.simps) (simp add: k)
  qed
qed

lemma u64_from_dec: "u64_from_str (dec (unat x)) = Some x"
proof -
  have "unat x < 2 ^ 64" using unsigned_less [of x, where 'a = nat] by simp
  then have "u64_of_digits (dec (unat x)) = Some x" by (simp add: u64_of_digits_def dec_digits)
  moreover obtain c t where c: "dec (unat x) = c # t" by (cases "dec (unat x)") auto
  moreover have "c \<noteq> CHR ''+''"
    using dec_digits [of "unat x"] c by (auto simp: is_digit_def byte_def)
  ultimately show ?thesis by (simp add: u64_from_str_def)
qed

end
