(* ===== verification/Http_Ranges.thy ===== *)
theory Http_Ranges
  imports Byte_Codec Decimal
begin

text \<open>
  Byte ranges of the two HTTP services: the native ISO of the PXE service
  (\<open>crates/service/src/pxe.rs\<close>) and the installer media of the control plane
  (\<open>crates/service/src/control_plane.rs\<close>).  A header is the bytes of its value; a
  served file is its bytes, shorter than \<open>2 ^ 64\<close>.  Subtraction below zero is a
  panic of the model.
\<close>

section \<open>Headers\<close>

definition parse_range_number :: "string \<Rightarrow> u64 option" where
  "parse_range_number v =
     (if v = [] \<or> length v > 20 \<or> \<not> list_all is_digit v then None else u64_from_str v)"

text \<open>\<open>HeaderValue::to_str\<close> accepts printing ASCII and tabs.\<close>

definition header_text :: "string \<Rightarrow> string option" where
  "header_text v =
     (if list_all (\<lambda>c. (32 \<le> byte c \<and> byte c < 127) \<or> byte c = 9) v then Some v else None)"

fun split_once :: "char \<Rightarrow> string \<Rightarrow> (string \<times> string) option" where
  "split_once d [] = None"
| "split_once d (c # s) =
     (if c = d then Some ([], s)
      else case split_once d s of None \<Rightarrow> None | Some (a, b) \<Rightarrow> Some (c # a, b))"

section \<open>The two parsers\<close>

text \<open>The suffix of a range: \<open>tot\<close> is not zero here.\<close>

definition suffix_range :: "u64 \<Rightarrow> u64 \<Rightarrow> u64 \<times> u64" where
  "suffix_range n tot = (saturating_sub tot (min n tot), tot - 1)"

definition parse_http_byte_range ::
  "string option \<Rightarrow> u64 \<Rightarrow> (unit, (u64 \<times> u64) option) outcome" where
  "parse_http_byte_range header tot =
     (case header of
        None \<Rightarrow> Ok None
      | Some raw \<Rightarrow>
          and_then (ok_or (header_text raw) ()) (\<lambda>text.
          and_then (ok_or (strip_prefix ''bytes='' text) ()) (\<lambda>v.
          if CHR '','' \<in> set v \<or> tot = 0 then Err ()
          else and_then (ok_or (split_once (CHR ''-'') v) ()) (\<lambda>(first, last').
            if first = [] then
              and_then (ok_or (u64_from_str last') ()) (\<lambda>suffix.
                if suffix = 0 then Err () else Ok (Some (suffix_range suffix tot)))
            else
              and_then (ok_or (u64_from_str first) ()) (\<lambda>start.
                if start \<ge> tot then Err ()
                else
                  and_then
                    (if last' = [] then Ok (tot - 1)
                     else map_ok (\<lambda>e. min e (tot - 1)) (ok_or (u64_from_str last') ()))
                    (\<lambda>end'. if end' < start then Err () else Ok (Some (start, end'))))))))"

datatype range_error = Range_Not_Satisfiable u64

definition parse_single_range ::
  "string option \<Rightarrow> u64 \<Rightarrow> (range_error, (u64 \<times> u64) option) outcome" where
  "parse_single_range header tot =
     (let bad = Range_Not_Satisfiable tot in
      case header of
        None \<Rightarrow> Ok None
      | Some raw \<Rightarrow>
          and_then (ok_or (header_text raw) bad) (\<lambda>text.
          if length text > 128 then Err bad
          else and_then (ok_or (strip_prefix ''bytes='' text) bad) (\<lambda>v.
          if CHR '','' \<in> set v then Err bad
          else and_then (ok_or (split_once (CHR ''-'') v) bad) (\<lambda>(first, last').
            if first = [] then
              and_then (ok_or (parse_range_number last') bad) (\<lambda>suffix.
                if suffix = 0 \<or> tot = 0 then Err bad
                else Ok (Some (suffix_range suffix tot)))
            else
              and_then (ok_or (parse_range_number first) bad) (\<lambda>start.
                if start \<ge> tot then Err bad
                else
                  and_then
                    (if last' = [] then Ok (tot - 1)
                     else map_ok (\<lambda>e. min e (tot - 1)) (ok_or (parse_range_number last') bad))
                    (\<lambda>end'. if end' < start then Err bad else Ok (Some (start, end'))))))))"

section \<open>Responses\<close>

record http_response =
  hr_status :: nat
  hr_content_length :: u64
  hr_content_range :: "(u64 \<times> u64 \<times> u64) option"
  hr_body :: bytes

definition served :: "bytes \<Rightarrow> u64 \<Rightarrow> u64 \<Rightarrow> bytes" where
  "served file start len = take (unat len) (drop (unat start) file)"

definition serve_native_iso :: "string option \<Rightarrow> bytes \<Rightarrow> http_response" where
  "serve_native_iso header file =
     (let tot = word_of_nat (length file) :: u64 in
      case parse_http_byte_range header tot of
        Ok rng \<Rightarrow>
          let (start, end', partial) = (case rng of
                Some (s, e) \<Rightarrow> (s, e, True)
              | None \<Rightarrow> (0, saturating_sub tot 1, False));
              len = saturating_add (saturating_sub end' start) 1 in
          \<lparr> hr_status = (if partial then 206 else 200), hr_content_length = len,
            hr_content_range = (if partial then Some (start, end', tot) else None),
            hr_body = served file start len \<rparr>
      | _ \<Rightarrow> \<lparr> hr_status = 416, hr_content_length = 0, hr_content_range = Some (0, 0, tot),
              hr_body = [] \<rparr>)"

datatype media_error = Media_Range range_error | Media_Integrity

definition installer_media_response ::
  "string option \<Rightarrow> u64 \<Rightarrow> bytes \<Rightarrow> (media_error, http_response) outcome" where
  "installer_media_response header media_size file =
     and_then (map_err Media_Range (parse_single_range header media_size)) (\<lambda>rng.
       if word_of_nat (length file) \<noteq> media_size then Err Media_Integrity
       else if media_size = 0 then Panic
       else
         let (partial, start, end') = (case rng of
               Some (s, e) \<Rightarrow> (True, s, e)
             | None \<Rightarrow> (False, 0, media_size - 1));
             len = end' - start + 1 in
         Ok \<lparr> hr_status = (if partial then 206 else 200), hr_content_length = len,
              hr_content_range = (if partial then Some (start, end', media_size) else None),
              hr_body = served file start len \<rparr>)"

section \<open>The contract of a range parser\<close>

locale range_parser =
  fixes parse :: "string option \<Rightarrow> u64 \<Rightarrow> ('e, (u64 \<times> u64) option) outcome"
  assumes no_header: "parse None tot = Ok None"
    and within: "parse h tot = Ok (Some (s, e)) \<Longrightarrow> s \<le> e \<and> e < tot"
    and total_parser: "parse h tot \<noteq> Panic"
begin

lemma length_no_wrap:
  assumes "parse h tot = Ok (Some (s, e))"
  shows "unat (e - s + 1) = unat e - unat s + 1" and "unat e - unat s + 1 \<le> unat tot"
proof -
  have se: "unat s \<le> unat e" "unat e < unat tot"
    using within [OF assms] by (simp_all add: word_le_nat_alt word_less_nat_alt)
  have "unat tot < 2 ^ 64" using unsigned_less [of tot, where 'a = nat] by simp
  with se show "unat (e - s + 1) = unat e - unat s + 1"
    by (simp add: unat_word_ariths unat_sub word_le_nat_alt)
  from se show "unat e - unat s + 1 \<le> unat tot" by simp
qed

lemma body_is_the_range:
  assumes "parse h (word_of_nat (length file)) = Ok (Some (s, e))" "length file < 2 ^ 64"
  shows "length (served file s (e - s + 1)) = unat (e - s + 1) \<and>
    served file s (e - s + 1) = map (\<lambda>i. file ! i) [unat s ..< unat e + 1]"
proof -
  have "unat (word_of_nat (length file) :: u64) = length file"
    using assms(2) by (simp add: unat_of_nat)
  with within [OF assms(1)] have se: "unat s \<le> unat e" "unat e < length file"
    by (simp_all add: word_le_nat_alt word_less_nat_alt)
  have len: "length (served file s (e - s + 1)) = unat e - unat s + 1"
    using se length_no_wrap(1) [OF assms(1)] by (simp add: served_def)
  have "served file s (e - s + 1) = map (\<lambda>i. file ! i) [unat s ..< unat e + 1]"
    using se len length_no_wrap(1) [OF assms(1)]
    by (intro nth_equalityI) (auto simp: served_def simp del: upt_Suc)
  with len length_no_wrap(1) [OF assms(1)] show ?thesis by simp
qed

end

lemma suffix_range_within:
  assumes "suffix_range n tot = (s, e)" "n \<noteq> 0" "tot \<noteq> 0"
  shows "s \<le> e \<and> e < tot"
proof -
  have "unat n > 0" "unat tot > 0" using assms(2,3) by (simp_all add: unat_gt_0)
  moreover have "unat (tot - 1) = unat tot - 1" using assms(3) by (simp add: unat_minus_one)
  moreover have "unat (min n tot) = min (unat n) (unat tot)"
    by (simp add: min_def word_le_nat_alt)
  ultimately show ?thesis
    using assms(1) by (auto simp: suffix_range_def word_le_nat_alt word_less_nat_alt word_nat)
qed

lemma bounded_end: "(s :: u64) < tot \<Longrightarrow> min e (tot - 1) < tot \<and> tot - 1 < tot"
proof -
  assume "s < tot"
  then have t: "tot \<noteq> 0" by auto
  then have "unat (tot - 1) = unat tot - 1" by (simp add: unat_minus_one)
  moreover have "0 < unat tot" using t by (simp add: unat_gt_0)
  ultimately show ?thesis by (auto simp: min_def word_less_nat_alt word_le_nat_alt)
qed

interpretation iso_range: range_parser parse_http_byte_range
proof unfold_locales
  fix h tot s e
  show "parse_http_byte_range None tot = Ok None" by (simp add: parse_http_byte_range_def)
  show "parse_http_byte_range h tot \<noteq> Panic"
    by (auto simp: parse_http_byte_range_def outcome_simps split: option.splits if_splits)
  assume "parse_http_byte_range h tot = Ok (Some (s, e))"
  then show "s \<le> e \<and> e < tot"
    by (auto simp: parse_http_byte_range_def outcome_simps not_less not_le
        dest: bounded_end split: option.splits if_splits
        intro: suffix_range_within [THEN conjunct1] suffix_range_within [THEN conjunct2])
qed

interpretation media_range: range_parser parse_single_range
proof unfold_locales
  fix h tot s e
  show "parse_single_range None tot = Ok None" by (simp add: parse_single_range_def)
  show "parse_single_range h tot \<noteq> Panic"
    by (auto simp: parse_single_range_def Let_def outcome_simps split: option.splits if_splits)
  assume "parse_single_range h tot = Ok (Some (s, e))"
  then show "s \<le> e \<and> e < tot"
    by (auto simp: parse_single_range_def Let_def outcome_simps not_less not_le
        dest: bounded_end split: option.splits if_splits
        intro: suffix_range_within [THEN conjunct1] suffix_range_within [THEN conjunct2])
qed

section \<open>What the services send\<close>

lemma unat_length: "length file < 2 ^ 64 \<Longrightarrow> unat (word_of_nat (length file) :: u64) = length file"
  by (simp add: unat_of_nat)

lemma saturating_length:
  assumes "s \<le> e" "e < t"
  shows "saturating_add (saturating_sub e s) 1 = e - s + (1 :: u64)"
proof -
  have b: "unat s \<le> unat e" "unat e < unat t" "unat t < 2 ^ 64"
    using assms unsigned_less [of t, where 'a = nat] by (simp_all add: word_le_nat_alt word_less_nat_alt)
  then have "unat (saturating_add (saturating_sub e s) 1) = unat e - unat s + 1"
    by (simp add: word_nat)
  moreover have "unat (e - s + 1) = unat e - unat s + 1"
    using b by (simp add: unat_word_ariths unat_sub word_le_nat_alt)
  ultimately show ?thesis by (simp add: word_unat_eq_iff)
qed

text \<open>
  A range of the native ISO is served exactly: the partial response
  announces the range it parsed, and its body is the bytes from the first to
  the last position inclusive, at least one, as many as its content length says.
\<close>

theorem native_iso_range_exact:
  assumes "parse_http_byte_range h (word_of_nat (length file)) = Ok (Some (s, e))"
    and "length file < 2 ^ 64"
  shows "let r = serve_native_iso h file in
    hr_status r = 206 \<and> hr_content_range r = Some (s, e, word_of_nat (length file)) \<and>
    hr_body r = map (\<lambda>i. file ! i) [unat s ..< unat e + 1] \<and>
    length (hr_body r) = unat (hr_content_length r) \<and> 1 \<le> length (hr_body r)"
proof -
  have "saturating_add (saturating_sub e s) 1 = e - s + 1"
    using saturating_length iso_range.within [OF assms(1)] by blast
  then have "serve_native_iso h file = \<lparr> hr_status = 206, hr_content_length = e - s + 1,
      hr_content_range = Some (s, e, word_of_nat (length file)),
      hr_body = served file s (e - s + 1) \<rparr>"
    using assms(1) by (simp add: serve_native_iso_def Let_def)
  moreover have "unat s \<le> unat e"
    using iso_range.within [OF assms(1)] by (simp add: word_le_nat_alt)
  ultimately show ?thesis
    using iso_range.body_is_the_range [OF assms] iso_range.length_no_wrap(1) [OF assms(1)]
    by (simp add: Let_def Suc_diff_le del: upt_Suc)
qed

text \<open>
  The installer's media are served exactly and without arithmetic
  underflow: a successful response sends as many bytes as its content length
  says, the whole file when no range was asked for, and otherwise the range it
  announces; a file whose size differs from the catalogue's is refused.
\<close>

theorem media_response_exact:
  assumes "installer_media_response h media_size file = Ok r" "length file < 2 ^ 64"
  shows "length (hr_body r) = unat (hr_content_length r) \<and> media_size = word_of_nat (length file) \<and>
    (case hr_content_range r of
       None \<Rightarrow> hr_status r = 200 \<and> hr_body r = file
     | Some (s, e, t) \<Rightarrow> hr_status r = 206 \<and> t = media_size \<and> s \<le> e \<and> e < t \<and>
         hr_body r = map (\<lambda>i. file ! i) [unat s ..< unat e + 1])"
proof -
  obtain rng where rng: "parse_single_range h media_size = Ok rng"
    using assms(1)
    by (cases "parse_single_range h media_size") (simp_all add: installer_media_response_def)
  have "word_of_nat (length file) = media_size"
    by (rule ccontr) (use assms(1) rng in \<open>simp add: installer_media_response_def\<close>)
  then have m: "media_size = word_of_nat (length file)" "media_size \<noteq> 0"
    using assms(1) rng by (auto simp: installer_media_response_def simp del: word_of_nat_eq_0_iff)
  show ?thesis
  proof (cases rng)
    case None
    have n: "unat media_size = length file" by (simp only: m(1) unat_length [OF assms(2)])
    have r: "r = \<lparr> hr_status = 200, hr_content_length = media_size, hr_content_range = None,
        hr_body = served file 0 media_size \<rparr>"
      using assms(1) rng m(2) None m(1) [symmetric] by (simp add: installer_media_response_def)
    have "served file 0 media_size = file" by (simp add: served_def n)
    with r n have "length (hr_body r) = unat (hr_content_length r)" "hr_content_range r = None"
      "hr_status r = 200" "hr_body r = file"
      by simp_all
    with m(1) show ?thesis by (simp only: option.case)
  next
    case (Some p)
    obtain s e where p: "p = (s, e)" by (cases p)
    have r: "parse_single_range h (word_of_nat (length file)) = Ok (Some (s, e))"
      using rng m Some p by simp
    have "r = \<lparr> hr_status = 206, hr_content_length = e - s + 1,
        hr_content_range = Some (s, e, media_size), hr_body = served file s (e - s + 1) \<rparr>"
      using assms(1) rng m Some p by (simp add: installer_media_response_def Let_def)
    then have v: "hr_status r = 206" "hr_content_length r = e - s + 1"
      "hr_content_range r = Some (s, e, media_size)" "hr_body r = served file s (e - s + 1)"
      by simp_all
    have b: "length (hr_body r) = unat (hr_content_length r)"
      "hr_body r = map (\<lambda>i. file ! i) [unat s ..< unat e + 1]"
      using media_range.body_is_the_range [OF r assms(2)] unfolding v(2,4) by blast+
    have w: "s \<le> e" "e < media_size"
      using media_range.within [OF r] unfolding m(1) [symmetric] by blast+
    show ?thesis unfolding v(3) option.case prod.case using v(1) b w m(1) by blast
  qed
qed

section \<open>Asking for a range\<close>

lemma parse_range_number_dec: "parse_range_number (dec (unat x)) = Some x"
proof -
  have "unat x < 10 ^ 20" using unsigned_less [of x, where 'a = nat] by simp
  then have "length (dec (unat x)) \<le> 20" by (intro length_dec) simp_all
  then show ?thesis by (simp add: parse_range_number_def dec_digits u64_from_dec)
qed

lemma split_once_digits: "list_all is_digit a \<Longrightarrow> split_once (CHR ''-'') (a @ CHR ''-'' # b) = Some (a, b)"
  by (induction a) (auto simp: is_digit_def byte_def)

definition range_header :: "u64 \<Rightarrow> u64 \<Rightarrow> string" where
  "range_header s e = ''bytes='' @ dec (unat s) @ ''-'' @ dec (unat e)"

lemma digits_plain:
  "list_all is_digit a \<Longrightarrow> list_all (\<lambda>c. (32 \<le> byte c \<and> byte c < 127) \<or> byte c = 9) a \<and> CHR '','' \<notin> set a"
  by (induction a) (auto simp: is_digit_def byte_def)

lemma range_header_text:
  "header_text (range_header s e) = Some (range_header s e)"
  "CHR '','' \<notin> set (dec n)" "length (range_header s e) \<le> 128"
proof -
  show "header_text (range_header s e) = Some (range_header s e)"
    using digits_plain [OF dec_digits, of "unat s"] digits_plain [OF dec_digits, of "unat e"]
    by (simp add: header_text_def range_header_def byte_def)
  show "CHR '','' \<notin> set (dec n)" using digits_plain [OF dec_digits, of n] by blast
  have "length (dec (unat x)) \<le> 20" for x :: u64
    using unsigned_less [of x, where 'a = nat] by (intro length_dec) simp_all
  from this [of s] this [of e] show "length (range_header s e) \<le> 128"
    by (simp add: range_header_def)
qed

lemma min_last: "(e :: u64) < t \<Longrightarrow> min e (t - 1) = e"
proof -
  assume "e < t"
  then have "t \<noteq> 0" "unat e < unat t" by (auto simp: word_less_nat_alt)
  then have "unat (t - 1) = unat t - 1" by (simp add: unat_minus_one)
  with \<open>unat e < unat t\<close> show ?thesis by (auto simp: min_def word_le_nat_alt)
qed

lemma range_header_read:
  assumes "s \<le> e" "e < tot"
  shows "parse_single_range (Some (range_header s e)) tot = Ok (Some (s, e)) \<and>
    parse_http_byte_range (Some (range_header s e)) tot = Ok (Some (s, e))"
proof -
  let ?v = "dec (unat s) @ CHR ''-'' # dec (unat e)"
  have pre: "strip_prefix ''bytes='' (range_header s e) = Some ?v"
    by (simp add: range_header_def)
  have "CHR '','' \<notin> set ?v" using range_header_text(2) by simp
  moreover have "split_once (CHR ''-'') ?v = Some (dec (unat s), dec (unat e))"
    by (rule split_once_digits) (rule dec_digits)
  moreover have "\<not> tot \<le> s" "\<not> e < s" "tot \<noteq> 0" using assms by auto
  moreover have "min e (tot - 1) = e" using assms(2) by (rule min_last)
  ultimately show ?thesis
    using range_header_text(1,3) [of s e]
    by (simp add: parse_single_range_def parse_http_byte_range_def pre parse_range_number_dec
        u64_from_dec Let_def not_less del: strip_prefix_Some)
qed

text \<open>
  A client gets the range it asks for: both parsers read the header
  \<open>bytes=s-e\<close> of any two positions inside the file, printed in decimal, as
  exactly these positions.
\<close>

theorem range_request_roundtrip:
  assumes "s \<le> e" "e < tot"
  shows "parse_single_range (Some (range_header s e)) tot = Ok (Some (s, e)) \<and>
    parse_http_byte_range (Some (range_header s e)) tot = Ok (Some (s, e))"
  by (rule range_header_read [OF assms])

section \<open>Concrete runs\<close>

lemma sample_ranges:
  "parse_http_byte_range (Some (range_header 1 2)) 4 = Ok (Some (1, 2))"
  "parse_single_range (Some (range_header 1 2)) 4 = Ok (Some (1, 2))"
  using range_header_read [of 1 2 4] by simp_all

theorem native_iso_range_exact_witness:
  "hr_body (serve_native_iso (Some (range_header 1 2)) [10, 11, 12, 13]) = [11, 12]"
  using native_iso_range_exact [of "Some (range_header 1 2)" "[10, 11, 12, 13]" 1 2]
  by (simp add: sample_ranges(1) Let_def upt_rec)

theorem media_response_exact_witness:
  "\<exists>r. installer_media_response (Some (range_header 1 2)) 4 [10, 11, 12, 13] = Ok r \<and>
     length (hr_body r) = unat (hr_content_length r)"
proof -
  obtain r where r: "installer_media_response (Some (range_header 1 2)) 4 [10, 11, 12, 13] = Ok r"
    by (simp add: installer_media_response_def sample_ranges(2))
  from media_response_exact [OF r] r show ?thesis by auto
qed

theorem range_request_roundtrip_witness:
  "parse_single_range (Some (range_header 5 9)) 10 = Ok (Some (5, 9))"
  using range_request_roundtrip [of 5 9 10] by simp

text \<open>An empty medium: one byte is announced and none is sent.\<close>

lemma empty_iso_announces_one_byte:
  "hr_content_length (serve_native_iso None []) = 1" "hr_body (serve_native_iso None []) = []"
  by (simp_all add: serve_native_iso_def parse_http_byte_range_def saturating_add_def saturating_sub_def served_def)

end
