(* ===== verification/Gho_Fast_Lz.thy ===== *)
theory Gho_Fast_Lz
  imports Byte_Codec
begin

text \<open>
  The dictionary decompressor for the blocks of a Ghost image written with fast
  compression (\<open>fast_lz\<close> and \<open>hash\<close> of \<open>crates/gho/src/lib.rs\<close>).  The output
  buffer is the list of the bytes written so far together with its capacity.
  The hash table maps a slot to a position of the output, negative for an empty
  slot.  Every access by index or range to the input, to the output and to the
  table is checked as Rust checks it, and out of range it is a \<open>Panic\<close>.
\<close>

unbundle bit_operations_syntax

type_synonym i32 = "32 word"

datatype gho_error =
    Truncated | InvalidMagic | InvalidRecord | UnsupportedCompression u8 | SpannedUnsupported
  | SpanMismatch | EncryptedUnsupported | PartitionCount nat | CorruptBlock | ExpandedLimit | Io

section \<open>Slices\<close>

text \<open>
  \<open>xs[i]\<close>, \<open>&xs[n..]\<close> and the writes into a buffer of \<open>cap\<close> bytes:
  \<open>out[dst] = b\<close> with \<open>dst\<close> the number of bytes written, and
  \<open>out[..raw.len()].copy_from_slice(raw)\<close>.  A read of the output beyond what
  was written, which would give a byte of the block before, is a panic here too.
\<close>

definition byte_at :: "bytes \<Rightarrow> nat \<Rightarrow> ('e, u8) outcome" where
  "byte_at xs i = (if i < length xs then Ok (xs ! i) else Panic)"

definition slice_from :: "nat \<Rightarrow> bytes \<Rightarrow> ('e, bytes) outcome" where
  "slice_from n xs = (if n \<le> length xs then Ok (drop n xs) else Panic)"

definition put_byte :: "nat \<Rightarrow> bytes \<Rightarrow> u8 \<Rightarrow> ('e, bytes) outcome" where
  "put_byte cap out b = (if length out < cap then Ok (out @ [b]) else Panic)"

definition copy_into :: "nat \<Rightarrow> bytes \<Rightarrow> ('e, bytes) outcome" where
  "copy_into cap raw = (if length raw \<le> cap then Ok raw else Panic)"

named_theorems slices \<open>accesses to slices, evaluated\<close>

lemma slices_Ok [slices]:
  "byte_at xs i = Ok b \<longleftrightarrow> i < length xs \<and> b = xs ! i"
  "slice_from n xs = Ok ys \<longleftrightarrow> n \<le> length xs \<and> ys = drop n xs"
  "put_byte cap out b = Ok out' \<longleftrightarrow> length out < cap \<and> out' = out @ [b]"
  "copy_into cap raw = Ok out' \<longleftrightarrow> length raw \<le> cap \<and> out' = raw"
  by (auto simp: byte_at_def slice_from_def put_byte_def copy_into_def)

lemma slices_Panic [slices]:
  "byte_at xs i = Panic \<longleftrightarrow> length xs \<le> i"
  "slice_from n xs = Panic \<longleftrightarrow> length xs < n"
  "put_byte cap out b = Panic \<longleftrightarrow> cap \<le> length out"
  "copy_into cap raw = Panic \<longleftrightarrow> cap < length raw"
  by (auto simp: byte_at_def slice_from_def put_byte_def copy_into_def)

lemma slices_in [simp]:
  "i < length xs \<Longrightarrow> byte_at xs i = Ok (xs ! i)"
  "n \<le> length xs \<Longrightarrow> slice_from n xs = Ok (drop n xs)"
  "length out < cap \<Longrightarrow> put_byte cap out b = Ok (out @ [b])"
  "length raw \<le> cap \<Longrightarrow> copy_into cap raw = Ok raw"
  by (simp_all add: byte_at_def slice_from_def put_byte_def copy_into_def)

section \<open>One token\<close>

type_synonym lz_table = "nat \<Rightarrow> i32"

record lz_state =
  lz_src :: nat
  lz_out :: bytes
  lz_control :: u32
  lz_table :: lz_table
  lz_run :: nat
  lz_previous :: nat

definition table_size :: nat where "table_size = 4096"

definition table_at :: "lz_table \<Rightarrow> nat \<Rightarrow> (gho_error, i32) outcome" where
  "table_at table i = (if i < table_size then Ok (table i) else Panic)"

definition table_put :: "lz_table \<Rightarrow> nat \<Rightarrow> i32 \<Rightarrow> (gho_error, lz_table) outcome" where
  "table_put table i v = (if i < table_size then Ok (table (i := v)) else Panic)"

definition lz_hash :: "u8 \<Rightarrow> u8 \<Rightarrow> u8 \<Rightarrow> nat" where
  "lz_hash a b c =
     (let v = ucast c XOR (16 * (ucast b XOR (16 * ucast a))) :: i32
      in unat (drop_bit 4 (- 24993 * v) AND 0xfff))"

definition match_index :: "u8 \<Rightarrow> u8 \<Rightarrow> nat" where
  "match_index a b = unat (ucast b OR push_bit 4 (ucast (a AND 0xf0)) :: 64 word)"

text \<open>Every hash and every index of a match is a slot of the table.\<close>

lemma lz_hash_slot: "lz_hash a b c < table_size"
proof -
  have "unat (w AND 0xfff) < 4096" for w :: i32
  proof -
    have "w AND 0xfff = take_bit 12 w" by (simp add: take_bit_eq_mask mask_eq_exp_minus_1)
    then have "unat (w AND 0xfff) = take_bit 12 (unat w)" by (simp add: unsigned_take_bit_eq)
    then show ?thesis by (simp add: take_bit_eq_mod)
  qed
  then show ?thesis by (simp add: lz_hash_def Let_def table_size_def)
qed

lemma take_bit_ucast_byte: "8 \<le> n \<Longrightarrow> take_bit n (ucast (b :: u8) :: 64 word) = ucast b"
  by (rule bit_word_eqI) (auto simp: bit_take_bit_iff bit_unsigned_iff dest: bit_imp_le_length)

lemma match_index_slot: "match_index a b < table_size"
proof -
  let ?w = "ucast b OR push_bit 4 (ucast (a AND 0xf0)) :: 64 word"
  have "take_bit 12 ?w = ?w"
    by (simp only: take_bit_or take_bit_push_bit) (simp add: take_bit_ucast_byte)
  then have "unat ?w = take_bit 12 (unat ?w)" by (simp only: unsigned_take_bit_eq [symmetric])
  then have "unat ?w < 4096" by (simp add: take_bit_eq_mod)
  then show ?thesis by (simp add: match_index_def table_size_def)
qed

lemma slots [simp]:
  "table_at table (match_index a b) = Ok (table (match_index a b))"
  "table_put table (match_index a b) v = Ok (table (match_index a b := v))"
  "table_put table (lz_hash a b c) v = Ok (table (lz_hash a b c := v))"
  using lz_hash_slot match_index_slot by (simp_all add: table_at_def table_put_def)

definition sentinel :: bytes where
  "sentinel = [49, 50, 51, 52, 53, 54, 55, 56, 57, 48, 49, 50, 51, 52, 53, 54, 55, 56]"

definition sentinel_byte :: "nat \<Rightarrow> u8" where
  "sentinel_byte j = (if j < length sentinel then sentinel ! j else 0)"

text \<open>The byte of a match at position \<open>pos\<close> of the output, \<open>j\<close> bytes on.\<close>

definition match_byte :: "i32 \<Rightarrow> nat \<Rightarrow> bytes \<Rightarrow> (gho_error, u8) outcome" where
  "match_byte pos j out =
     (if sint pos < 0 then Ok (sentinel_byte j)
      else let at = nat (sint pos) + j in
        if at \<ge> 2 ^ 64 then Err CorruptBlock
        else if at \<ge> length out then Err CorruptBlock
        else byte_at out at)"

text \<open>The bytes of a match, from the \<open>j\<close>-th on; \<open>k\<close> are left.\<close>

fun copy_match :: "nat \<Rightarrow> i32 \<Rightarrow> nat \<Rightarrow> nat \<Rightarrow> bytes \<Rightarrow> (gho_error, bytes) outcome" where
  "copy_match cap pos 0 j out = Ok out"
| "copy_match cap pos (Suc k) j out =
     (if length out \<ge> cap then Err CorruptBlock
      else and_then (match_byte pos j out) (\<lambda>b.
        and_then (put_byte cap out b) (\<lambda>out. copy_match cap pos k (Suc j) out)))"

definition remember :: "bytes \<Rightarrow> nat \<Rightarrow> lz_table \<Rightarrow> (gho_error, lz_table) outcome" where
  "remember out pos table =
     and_then (byte_at out pos) (\<lambda>a.
     and_then (byte_at out (pos + 1)) (\<lambda>b.
     and_then (byte_at out (pos + 2)) (\<lambda>c.
       table_put table (lz_hash a b c) (word_of_nat pos))))"

lemma remember_outcome:
  "remember out pos table = Panic \<longleftrightarrow> length out \<le> pos + 2"
  "remember out pos table \<noteq> Err e"
  by (auto simp: remember_def byte_at_def)

text \<open>The pending run of literals is entered into the table after a match.\<close>

definition settle_run ::
  "lz_state \<Rightarrow> nat \<Rightarrow> bytes \<Rightarrow> (gho_error, lz_table \<times> nat \<times> nat) outcome" where
  "settle_run st start out =
     (if lz_run st > 0 then
        if start < lz_run st then Err CorruptBlock
        else
          let pos = start - lz_run st in
          and_then (if pos + 2 < length out then remember out pos (lz_table st)
                    else Ok (lz_table st)) (\<lambda>t.
          and_then (if lz_previous st = 2 \<and> pos + 3 < length out then remember out (pos + 1) t
                    else Ok t) (\<lambda>t.
            Ok (t, 0, 0)))
      else Ok (lz_table st, lz_run st, lz_previous st))"

definition lz_match :: "nat \<Rightarrow> bytes \<Rightarrow> lz_state \<Rightarrow> (gho_error, lz_state) outcome" where
  "lz_match cap data st =
     (let src = lz_src st in
      if src + 1 \<ge> length data then Err Truncated
      else
        and_then (byte_at data src) (\<lambda>a.
        and_then (byte_at data (src + 1)) (\<lambda>b.
        let index = match_index a b; extra = unat (a AND 0x0f); start = length (lz_out st) in
        and_then (table_at (lz_table st) index) (\<lambda>match_pos.
        and_then (copy_match cap match_pos (3 + extra) 0 (lz_out st)) (\<lambda>out.
        and_then (settle_run st start out) (\<lambda>(table, run, previous).
        and_then (table_put table index (word_of_nat start)) (\<lambda>table.
        Ok (st \<lparr> lz_src := src + 2, lz_out := out, lz_table := table,
                 lz_run := run, lz_previous := previous \<rparr>))))))))"

lemma settle_run_outcome:
  "settle_run st start out \<noteq> Panic"
  "settle_run st start out = Ok (t, run, prev) \<Longrightarrow> run = 0 \<or> run = lz_run st"
  by (auto simp: settle_run_def Let_def outcome_simps remember_outcome split: if_splits)

definition lz_literal :: "nat \<Rightarrow> bytes \<Rightarrow> lz_state \<Rightarrow> (gho_error, lz_state) outcome" where
  "lz_literal cap data st =
     (if length (lz_out st) \<ge> cap then Err CorruptBlock
      else
        and_then (byte_at data (lz_src st)) (\<lambda>b.
        and_then (put_byte cap (lz_out st) b) (\<lambda>out.
        let run = lz_run st + 1;
            st = st \<lparr> lz_src := lz_src st + 1, lz_out := out, lz_run := run, lz_previous := run \<rparr> in
        if run = 3 then
          if length out < 3 then Panic
          else map_ok (\<lambda>t. st \<lparr> lz_table := t, lz_run := 2, lz_previous := 2 \<rparr>)
                 (remember out (length out - 3) (lz_table st))
        else Ok st)))"

definition lz_token :: "nat \<Rightarrow> bytes \<Rightarrow> lz_state \<Rightarrow> (gho_error, lz_state) outcome" where
  "lz_token cap data st =
     (if lz_control st AND 1 \<noteq> 0 then lz_match cap data st else lz_literal cap data st)"

section \<open>The loops\<close>

definition shift_control :: "lz_state \<Rightarrow> lz_state" where
  "shift_control st = st \<lparr> lz_control := drop_bit 1 (lz_control st) \<rparr>"

text \<open>The next control word, with the guard bit above its sixteen bits.\<close>

definition control_word :: "u8 \<Rightarrow> u8 \<Rightarrow> u32" where
  "control_word a b = ucast a OR push_bit 8 (ucast b) OR 0x10000"

definition reload_control :: "bytes \<Rightarrow> lz_state \<Rightarrow> (gho_error, lz_state) outcome" where
  "reload_control data st =
     and_then (byte_at data (lz_src st)) (\<lambda>a.
     and_then (byte_at data (lz_src st + 1)) (\<lambda>b.
       Ok (st \<lparr> lz_control := control_word a b, lz_src := lz_src st + 2 \<rparr>)))"

definition ready :: "bytes \<Rightarrow> lz_state \<Rightarrow> (gho_error, lz_state) outcome" where
  "ready data st = (if lz_control st = 1 then reload_control data st else Ok st)"

text \<open>The inner loop, for a given number of tokens.\<close>

fun lz_tokens :: "nat \<Rightarrow> nat \<Rightarrow> bytes \<Rightarrow> lz_state \<Rightarrow> (gho_error, lz_state) outcome" where
  "lz_tokens 0 cap data st = Ok st"
| "lz_tokens (Suc n) cap data st =
     (if lz_src st \<ge> length data then Ok st
      else and_then (lz_token cap data st) (\<lambda>st.
        if lz_control (shift_control st) = 1 then Ok (shift_control st)
        else lz_tokens n cap data (shift_control st)))"

definition token_count :: "bytes \<Rightarrow> lz_state \<Rightarrow> nat" where
  "token_count data st = (if length data - 32 < lz_src st then 1 else 16)"

definition lz_round :: "nat \<Rightarrow> bytes \<Rightarrow> lz_state \<Rightarrow> (gho_error, lz_state) outcome" where
  "lz_round cap data st =
     and_then (ready data st) (\<lambda>st. lz_tokens (token_count data st) cap data st)"

lemma shift_control_simps [simp]:
  "lz_src (shift_control st) = lz_src st" "lz_out (shift_control st) = lz_out st"
  "lz_table (shift_control st) = lz_table st" "lz_run (shift_control st) = lz_run st"
  "lz_previous (shift_control st) = lz_previous st"
  by (simp_all add: shift_control_def)

text \<open>What \<open>ready\<close> leaves alone, and that it never leaves the guard bit alone.\<close>

lemma control_word_not_1: "control_word a b \<noteq> 1"
proof -
  have "bit (control_word a b) 16" by (simp add: control_word_def bit_or_iff bit_numeral_rec)
  then show ?thesis by (auto simp: bit_1_iff)
qed

lemma ready_Ok:
  assumes "ready data st = Ok r"
  shows "lz_out r = lz_out st" "lz_run r = lz_run st" "lz_control r \<noteq> 1" "lz_src st \<le> lz_src r"
    "lz_control st = 1 \<Longrightarrow> lz_src r = lz_src st + 2" "lz_control st \<noteq> 1 \<Longrightarrow> r = st"
  using assms
  by (auto simp: ready_def reload_control_def outcome_simps slices control_word_not_1 split: if_splits)

lemma ready_id [simp]: "lz_control st \<noteq> 1 \<Longrightarrow> ready data st = Ok st"
  by (simp add: ready_def)

lemma ready_returns:
  assumes "\<not> (lz_control st = 1 \<and> lz_src st + 1 \<ge> length data)"
  obtains r where "ready data st = Ok r"
proof (cases "lz_control st = 1")
  case True
  with assms have "lz_src st + 1 < length data" by simp
  with True that show ?thesis by (simp add: ready_def reload_control_def)
qed (use that in simp)

lemma lz_token_progress: "lz_token cap data st = Ok st' \<Longrightarrow> lz_src st < lz_src st'"
  by (auto simp: lz_token_def lz_match_def lz_literal_def Let_def outcome_simps slices split: if_splits)

lemma lz_tokens_mono: "lz_tokens n cap data st = Ok st' \<Longrightarrow> lz_src st \<le> lz_src st'"
proof (induction n cap data st arbitrary: st' rule: lz_tokens.induct)
  case (2 n cap data st)
  then show ?case
    by (fastforce simp: outcome_simps dest: lz_token_progress split: if_splits)
qed simp

lemma lz_tokens_progress:
  assumes "lz_tokens n cap data st = Ok st'" "0 < n" "lz_src st < length data"
  shows "lz_src st < lz_src st'"
proof -
  obtain m where n: "n = Suc m" using assms(2) by (cases n) auto
  from assms(1,3) show ?thesis
    by (auto simp: n outcome_simps dest!: lz_token_progress lz_tokens_mono split: if_splits)
qed

lemma lz_round_progress:
  assumes "lz_round cap data st = Ok st'" "lz_src st < length data"
  shows "lz_src st < lz_src st'"
proof -
  obtain r where r: "ready data st = Ok r" "lz_tokens (token_count data r) cap data r = Ok st'"
    using assms(1) by (auto simp: lz_round_def outcome_simps)
  show ?thesis
  proof (cases "lz_control st = 1")
    case True
    then show ?thesis using ready_Ok(5) [OF r(1)] lz_tokens_mono [OF r(2)] by simp
  next
    case False
    then show ?thesis
      using ready_Ok(6) [OF r(1)] lz_tokens_progress [OF r(2)] assms(2) by (simp add: token_count_def)
  qed
qed

function lz_loop :: "nat \<Rightarrow> bytes \<Rightarrow> lz_state \<Rightarrow> (gho_error, lz_state) outcome" where
  "lz_loop cap data st =
     (if lz_src st \<ge> length data then Ok st
      else if lz_control st = 1 \<and> lz_src st + 1 \<ge> length data then Ok st
      else case lz_round cap data st of
             Ok st' \<Rightarrow> lz_loop cap data st'
           | Err e \<Rightarrow> Err e
           | Panic \<Rightarrow> Panic)"
  by pat_completeness auto
termination
  by (relation "measure (\<lambda>(cap, data, st). length data - lz_src st)")
    (auto dest: lz_round_progress)

declare lz_loop.simps [simp del]

definition lz_start :: lz_state where
  "lz_start = \<lparr> lz_src = 4, lz_out = [], lz_control = 1, lz_table = (\<lambda>i. - 1), lz_run = 0,
      lz_previous = 0 \<rparr>"

text \<open>A block stored as it is, behind four bytes of which the first is one.\<close>

definition raw_block :: "nat \<Rightarrow> bytes \<Rightarrow> (gho_error, bytes) outcome" where
  "raw_block cap data =
     and_then (slice_from 4 data) (\<lambda>raw.
       if length raw > cap then Err CorruptBlock else copy_into cap raw)"

definition fast_lz :: "nat \<Rightarrow> bytes \<Rightarrow> (gho_error, bytes) outcome" where
  "fast_lz cap data =
     (if length data < 4 then Err CorruptBlock
      else and_then (byte_at data 0) (\<lambda>b.
        if b = 1 then raw_block cap data
        else map_ok lz_out (lz_loop cap data lz_start)))"

section \<open>The loops as one loop over tokens\<close>

text \<open>
  The reference: one token after the other, with the control word reloaded when
  only its guard bit is left.  It does not look at the number of tokens the
  code allows itself per round.
\<close>

function lz_flat :: "nat \<Rightarrow> bytes \<Rightarrow> lz_state \<Rightarrow> (gho_error, lz_state) outcome" where
  "lz_flat cap data st =
     (if lz_src st \<ge> length data then Ok st
      else if lz_control st = 1 \<and> lz_src st + 1 \<ge> length data then Ok st
      else case ready data st of
             Ok r \<Rightarrow>
               if lz_src r \<ge> length data then Ok r
               else (case lz_token cap data r of
                       Ok st' \<Rightarrow> lz_flat cap data (shift_control st')
                     | Err e \<Rightarrow> Err e
                     | Panic \<Rightarrow> Panic)
           | Err e \<Rightarrow> Err e
           | Panic \<Rightarrow> Panic)"
  by pat_completeness auto
termination
  by (relation "measure (\<lambda>(cap, data, st). length data - lz_src st)")
    (auto dest!: lz_token_progress ready_Ok(4))

declare lz_flat.simps [simp del]

lemma lz_tokens_flat:
  "lz_control st \<noteq> 1 \<or> n = 0 \<Longrightarrow>
     lz_flat cap data st =
       (case lz_tokens n cap data st of Ok st' \<Rightarrow> lz_flat cap data st' | Err e \<Rightarrow> Err e | Panic \<Rightarrow> Panic)"
proof (induction n arbitrary: st)
  case (Suc n)
  then have c: "ready data st = Ok st" "lz_control st \<noteq> 1" by simp_all
  show ?case
  proof (cases "lz_src st \<ge> length data")
    case False
    then have "lz_flat cap data st = (case lz_token cap data st of
        Ok st' \<Rightarrow> lz_flat cap data (shift_control st') | Err e \<Rightarrow> Err e | Panic \<Rightarrow> Panic)"
      using c by (subst lz_flat.simps) simp
    also have "\<dots> = (case lz_tokens (Suc n) cap data st of
        Ok st' \<Rightarrow> lz_flat cap data st' | Err e \<Rightarrow> Err e | Panic \<Rightarrow> Panic)"
      using False Suc.IH [of "shift_control st'" for st'] by (cases "lz_token cap data st") simp_all
    finally show ?thesis .
  qed simp
qed simp

lemma lz_flat_ready:
  assumes "\<not> (lz_src st \<ge> length data \<or> lz_control st = 1 \<and> lz_src st + 1 \<ge> length data)"
    and "ready data st = Ok r"
  shows "lz_flat cap data st = lz_flat cap data r"
  using assms ready_Ok(3) [OF assms(2)]
  by (auto simp: lz_flat.simps [of cap data st] lz_flat.simps [of cap data r])

lemma lz_loop_flat: "lz_loop cap data st = lz_flat cap data st"
proof (induction cap data st rule: lz_loop.induct)
  case (1 cap data st)
  show ?case
  proof (cases "lz_src st \<ge> length data \<or> lz_control st = 1 \<and> lz_src st + 1 \<ge> length data")
    case True
    then show ?thesis by (auto simp: lz_loop.simps [of cap data st] lz_flat.simps [of cap data st])
  next
    case False
    then obtain r where r: "ready data st = Ok r" using ready_returns [of st data] by blast
    have "lz_flat cap data st = lz_flat cap data r" by (rule lz_flat_ready [OF False r])
    also have "\<dots> = (case lz_tokens (token_count data r) cap data r of
        Ok st' \<Rightarrow> lz_flat cap data st' | Err e \<Rightarrow> Err e | Panic \<Rightarrow> Panic)"
      by (rule lz_tokens_flat) (simp add: ready_Ok(3) [OF r])
    also have "\<dots> = (case lz_round cap data st of
        Ok st' \<Rightarrow> lz_flat cap data st' | Err e \<Rightarrow> Err e | Panic \<Rightarrow> Panic)"
      by (simp add: lz_round_def r)
    also have "\<dots> = lz_loop cap data st"
      using False 1 by (auto simp: lz_loop.simps [of cap data st] split: outcome.splits)
    finally show ?thesis by simp
  qed
qed

definition reference_lz :: "nat \<Rightarrow> bytes \<Rightarrow> (gho_error, bytes) outcome" where
  "reference_lz cap data = map_ok lz_out (lz_flat cap data lz_start)"

text \<open>
  The nested loops of the decompressor, whose inner loop runs for one or
  for sixteen tokens depending on how much input is left, compute what the plain
  loop over tokens computes on every compressed block, errors included.
\<close>

theorem fast_lz_is_token_loop:
  "fast_lz cap (b # r1 # r2 # r3 # data) =
     (if b = 1 then if length data > cap then Err CorruptBlock else Ok data
      else reference_lz cap (b # r1 # r2 # r3 # data))"
  by (simp add: fast_lz_def raw_block_def reference_lz_def lz_loop_flat)

section \<open>Safety\<close>

definition lz_inv :: "nat \<Rightarrow> lz_state \<Rightarrow> bool" where
  "lz_inv cap st =
     (length (lz_out st) \<le> cap \<and> lz_run st \<le> 2 \<and> lz_run st \<le> length (lz_out st))"

lemma match_byte_no_panic: "match_byte pos j out \<noteq> Panic"
  by (simp add: match_byte_def Let_def)

lemma copy_match_bound:
  "copy_match cap pos k j out = Ok out' \<Longrightarrow> length out \<le> cap \<Longrightarrow>
     length out' = length out + k \<and> length out' \<le> cap"
proof (induction k arbitrary: j out)
  case (Suc k)
  then obtain b where "length out < cap" "copy_match cap pos k (Suc j) (out @ [b]) = Ok out'"
    by (auto simp: outcome_simps slices split: if_splits)
  with Suc.IH [of "Suc j" "out @ [b]"] show ?case by simp
qed simp

lemma copy_match_no_panic: "copy_match cap pos k j out \<noteq> Panic"
  by (induction k arbitrary: j out) (auto simp: outcome_simps slices match_byte_no_panic)

lemma lz_literal_inv:
  assumes "lz_inv cap st" "lz_src st < length data"
  shows "lz_literal cap data st \<noteq> Panic \<and> (\<forall>st'. lz_literal cap data st = Ok st' \<longrightarrow> lz_inv cap st')"
proof (cases "length (lz_out st) \<ge> cap")
  case False
  then show ?thesis using assms
    by (cases "lz_run st = 2")
      (auto simp: lz_literal_def lz_inv_def Let_def outcome_simps remember_outcome)
qed (simp add: lz_literal_def)

lemma lz_match_outcome:
  "lz_match cap data st \<noteq> Panic"
  "lz_match cap data st = Ok st' \<Longrightarrow> length (lz_out st) \<le> cap \<Longrightarrow>
     length (lz_out st) \<le> length (lz_out st') \<and> length (lz_out st') \<le> cap \<and>
     (lz_run st' = 0 \<or> lz_run st' = lz_run st)"
  by (auto simp: lz_match_def Let_def outcome_simps copy_match_no_panic settle_run_outcome(1)
      dest!: settle_run_outcome(2) copy_match_bound split: if_splits)

lemma lz_token_inv:
  assumes "lz_inv cap st" "lz_src st < length data"
  shows "lz_token cap data st \<noteq> Panic \<and> (\<forall>st'. lz_token cap data st = Ok st' \<longrightarrow> lz_inv cap st')"
proof -
  have "lz_inv cap st'" if "lz_match cap data st = Ok st'" for st'
    using lz_match_outcome(2) [OF that] assms by (auto simp: lz_inv_def)
  with lz_match_outcome(1) lz_literal_inv [OF assms] show ?thesis by (simp add: lz_token_def)
qed

lemma lz_flat_safe:
  "lz_inv cap st \<Longrightarrow>
     lz_flat cap data st \<noteq> Panic \<and> (\<forall>st'. lz_flat cap data st = Ok st' \<longrightarrow> lz_inv cap st')"
proof (induction cap data st rule: lz_flat.induct)
  case (1 cap data st)
  have s: "lz_inv cap (shift_control st') = lz_inv cap st'" for st' by (simp add: lz_inv_def)
  show ?case
  proof (cases "lz_src st \<ge> length data \<or> lz_control st = 1 \<and> lz_src st + 1 \<ge> length data")
    case True
    with 1(2) show ?thesis by (auto simp: lz_flat.simps [of cap data st])
  next
    case False
    then obtain r where r: "ready data st = Ok r" using ready_returns [of st data] by blast
    have i: "lz_inv cap r" using 1(2) ready_Ok(1,2) [OF r] by (simp add: lz_inv_def)
    show ?thesis
    proof (cases "lz_src r \<ge> length data")
      case True
      then show ?thesis using False r i by (auto simp: lz_flat.simps [of cap data st])
    next
      case src: False
      note t = lz_token_inv [OF i, of data]
      show ?thesis
      proof (cases "lz_token cap data r")
        case (Ok st')
        have "lz_inv cap (shift_control st')" using t src Ok by (simp add: s)
        moreover have "lz_flat cap data st = lz_flat cap data (shift_control st')"
          using False r src Ok by (auto simp: lz_flat.simps [of cap data st])
        ultimately show ?thesis using 1(1) [OF _ _ r src Ok] False by simp
      next
        case (Err e)
        then show ?thesis using False r src by (auto simp: lz_flat.simps [of cap data st])
      next
        case Panic
        then show ?thesis using t src by simp
      qed
    qed
  qed
qed

lemma lz_start_inv: "lz_inv cap lz_start"
  by (simp add: lz_inv_def lz_start_def)

lemma raw_block_outcome:
  "4 \<le> length data \<Longrightarrow> raw_block cap data \<noteq> Panic"
  "raw_block cap data = Ok out \<Longrightarrow> length out \<le> cap"
  by (auto simp: raw_block_def outcome_simps slices split: if_splits)

lemma fast_lz_outcome: "fast_lz cap data \<noteq> Panic" "fast_lz cap data = Ok out \<Longrightarrow> length out \<le> cap"
proof -
  have l: "map_ok lz_out (lz_loop cap data lz_start) \<noteq> Panic"
    "map_ok lz_out (lz_loop cap data lz_start) = Ok out \<Longrightarrow> length out \<le> cap"
    using lz_flat_safe [OF lz_start_inv, of cap data]
    unfolding lz_loop_flat map_ok_iffs by (auto simp: lz_inv_def)
  note r = raw_block_outcome [where data = data and cap = cap]
  show "fast_lz cap data \<noteq> Panic"
    using l(1) r(1) by (auto simp: fast_lz_def and_then_Panic_iff slices)
  assume "fast_lz cap data = Ok out"
  then show "length out \<le> cap"
    using l(2) raw_block_outcome(2) by (auto simp: fast_lz_def and_then_Ok_iff slices split: if_splits)
qed

text \<open>
  C39.  Decompression of any bytes returns without panicking: no access
  to the input, to the output or to the hash table is out of range.  What it
  returns fits the output buffer it was given.
\<close>

theorem fast_lz_total:
  "case fast_lz cap data of Ok out \<Rightarrow> length out \<le> cap | Err e \<Rightarrow> True | Panic \<Rightarrow> False"
  using fast_lz_outcome by (cases "fast_lz cap data") auto

section \<open>Literal blocks\<close>

text \<open>
  A block whose tokens are all literals: a control word of zero bits before
  every sixteen bytes.  Writers use it where no match is found.
\<close>

fun literal_groups :: "bytes \<Rightarrow> bytes" where
  "literal_groups [] = []"
| "literal_groups (b # bs) = 0 # 0 # b # take 15 bs @ literal_groups (drop 15 bs)"

definition literal_block :: "bytes \<Rightarrow> bytes" where
  "literal_block bs = [0, 0, 0, 0] @ literal_groups bs"

text \<open>The guard bit of the control word after \<open>16 - k\<close> literals.\<close>

definition guard_bit :: "nat \<Rightarrow> u32" where
  "guard_bit k = 2 ^ k"

lemma guard_bit_simps:
  "guard_bit 0 = 1"
  "k < 16 \<Longrightarrow> guard_bit (Suc k) AND 1 = 0"
  "k < 16 \<Longrightarrow> drop_bit 1 (guard_bit (Suc k)) = guard_bit k"
proof -
  show "guard_bit 0 = 1" by (simp add: guard_bit_def)
  assume "k < 16"
  then have "k \<in> set [0 ..< 16]" by simp
  then show "guard_bit (Suc k) AND 1 = 0" "drop_bit 1 (guard_bit (Suc k)) = guard_bit k"
    by (auto simp: guard_bit_def upt_rec)
qed

lemma guard_bit_not_1: "k < 16 \<Longrightarrow> guard_bit (Suc k) \<noteq> 1"
  using guard_bit_simps(2) [of k] by auto

lemma lz_literal_step:
  assumes "length (lz_out st) < cap" "lz_inv cap st" "lz_src st < length data"
  shows "\<exists>st'. lz_literal cap data st = Ok st' \<and> lz_src st' = lz_src st + 1 \<and>
    lz_out st' = lz_out st @ [data ! lz_src st] \<and> lz_control st' = lz_control st \<and> lz_inv cap st'"
proof (cases "lz_run st = 2")
  case True
  obtain t where "remember (lz_out st @ [data ! lz_src st]) (length (lz_out st) - 2) (lz_table st) = Ok t"
    using remember_outcome [of "lz_out st @ [data ! lz_src st]" "length (lz_out st) - 2" "lz_table st"] assms True
    by (cases "remember (lz_out st @ [data ! lz_src st]) (length (lz_out st) - 2) (lz_table st)")
      (auto simp: lz_inv_def)
  with assms True show ?thesis by (auto simp: lz_literal_def lz_inv_def Let_def)
next
  case False
  with assms show ?thesis by (auto simp: lz_literal_def lz_inv_def Let_def)
qed

lemma drop_ConsD:
  assumes "drop n xs = y # ys"
  shows "n < length xs \<and> xs ! n = y \<and> drop (Suc n) xs = ys"
proof -
  have n: "n < length xs" using assms by (metis drop_all list.distinct(1) not_le)
  with assms show ?thesis by (simp add: Cons_nth_drop_Suc [OF n, symmetric])
qed

text \<open>A group of literals, from its \<open>17 - k\<close>-th on.\<close>

lemma literal_run:
  assumes "drop (lz_src st) data = bs @ rest" "lz_control st = guard_bit k" "length bs \<le> k" "k \<le> 16"
    and "length (lz_out st) + length bs \<le> cap" "lz_inv cap st"
  shows "\<exists>st'. lz_flat cap data st = lz_flat cap data st' \<and> lz_src st' = lz_src st + length bs \<and>
    lz_out st' = lz_out st @ bs \<and> lz_control st' = guard_bit (k - length bs) \<and> lz_inv cap st'"
  using assms
proof (induction bs arbitrary: st k)
  case (Cons b bs)
  obtain j where k: "k = Suc j" using Cons.prems(3) by (cases k) auto
  have j: "j < 16" using k Cons.prems(4) by simp
  have src: "lz_src st < length data" "data ! lz_src st = b"
    "drop (lz_src st + 1) data = bs @ rest"
    using drop_ConsD [of "lz_src st" data b "bs @ rest"] Cons.prems(1) by simp_all
  obtain st' where l: "lz_literal cap data st = Ok st'" "lz_src st' = lz_src st + 1"
      "lz_out st' = lz_out st @ [b]" "lz_control st' = lz_control st" "lz_inv cap st'"
    using lz_literal_step [of st cap data] Cons.prems(5,6) src(1,2) by auto
  have t: "lz_token cap data st = Ok st'"
    using l(1) Cons.prems(2) guard_bit_simps(2) [OF j] by (simp add: lz_token_def k)
  have n: "lz_control st \<noteq> 1" using Cons.prems(2) guard_bit_not_1 [OF j] k by simp
  have "lz_flat cap data st = lz_flat cap data (shift_control st')"
    using t n src(1) by (subst lz_flat.simps) simp
  moreover have "lz_control (shift_control st') = guard_bit j"
    using l(4) Cons.prems(2) guard_bit_simps(3) [OF j] by (simp add: shift_control_def k)
  moreover have "lz_inv cap (shift_control st')" using l(5) by (simp add: lz_inv_def)
  ultimately show ?case
    using Cons.IH [of "shift_control st'" j] Cons.prems(3-5) src(3) l(2,3) k by auto
qed auto

lemma literal_groups_flat:
  assumes "drop (lz_src st) data = literal_groups bs" "lz_control st = 1 \<or> bs = []"
    and "length (lz_out st) + length bs \<le> cap" "lz_inv cap st"
  shows "map_ok lz_out (lz_flat cap data st) = Ok (lz_out st @ bs)"
  using assms
proof (induction bs arbitrary: st rule: literal_groups.induct)
  case 1
  then show ?case by (simp add: lz_flat.simps [of cap data st])
next
  case (2 b bs)
  let ?g = "b # take 15 bs" and ?r = "st \<lparr> lz_control := guard_bit 16, lz_src := lz_src st + 2 \<rparr>"
  let ?l = "literal_groups (drop 15 bs)"
  have d: "drop (lz_src st) data = 0 # 0 # ?g @ ?l" using 2 by simp
  have d1: "lz_src st < length data" "data ! lz_src st = 0"
    "drop (Suc (lz_src st)) data = 0 # ?g @ ?l"
    using drop_ConsD [OF d] by simp_all
  have d2: "Suc (lz_src st) < length data" "data ! Suc (lz_src st) = 0"
    "drop (Suc (Suc (lz_src st))) data = ?g @ ?l"
    using drop_ConsD [OF d1(3)] by simp_all
  have d3: "Suc (Suc (lz_src st)) < length data"
    using drop_ConsD [of "Suc (Suc (lz_src st))" data b "take 15 bs @ ?l"] d2(3) by simp
  have c: "lz_control ?r = guard_bit 16" by simp
  have rr: "ready data st = Ok ?r"
    using 2 d1 d2 by (auto simp: ready_def reload_control_def control_word_def guard_bit_def)
  have f: "lz_flat cap data st = lz_flat cap data ?r"
    using d1(1) d2(1) by (intro lz_flat_ready [OF _ rr]) simp
  have "\<exists>st'. lz_flat cap data ?r = lz_flat cap data st' \<and> lz_src st' = lz_src ?r + length ?g \<and>
      lz_out st' = lz_out ?r @ ?g \<and> lz_control st' = guard_bit (16 - length ?g) \<and> lz_inv cap st'"
  proof (rule literal_run)
    show "drop (lz_src ?r) data = ?g @ ?l" using d2(3) by simp
    show "length (lz_out ?r) + length ?g \<le> cap" using 2 by simp
    show "lz_inv cap ?r" using 2 by (simp add: lz_inv_def)
  qed (simp_all add: c)
  then obtain st' where st': "lz_flat cap data ?r = lz_flat cap data st'"
      "lz_src st' = lz_src st + 2 + length ?g" "lz_out st' = lz_out st @ ?g"
      "lz_control st' = guard_bit (16 - length ?g)" "lz_inv cap st'"
    by auto
  have e: "drop (lz_src st') data = ?l"
    using d2(3) st'(2) by (metis add_2_eq_Suc' append_eq_conv_conj drop_drop add.commute)
  have z: "lz_control st' = 1 \<or> drop 15 bs = []"
    using st'(4) guard_bit_simps(1) by (cases "length bs \<ge> 15") simp_all
  have "length (lz_out st') + length (drop 15 bs) \<le> cap" using st'(3) 2 by simp
  from 2(1) [OF e z this st'(5)] show ?case unfolding f st'(1) by (simp add: st'(3))
qed

text \<open>
  Blocks of literals decompress to what was written: for any bytes that
  fit the output buffer the literal block of these bytes gives them back.
\<close>

theorem literal_block_roundtrip:
  assumes "length bs \<le> cap"
  shows "fast_lz cap (literal_block bs) = Ok bs"
proof -
  have "map_ok lz_out (lz_flat cap (literal_block bs) lz_start) = Ok (lz_out lz_start @ bs)"
    using assms by (intro literal_groups_flat lz_start_inv) (simp_all add: literal_block_def lz_start_def)
  then show ?thesis by (simp add: fast_lz_def lz_loop_flat literal_block_def lz_start_def)
qed

theorem literal_block_roundtrip_witness:
  "fast_lz 33792 [0, 0, 0, 0, 0, 0, 7, 8, 7, 8, 9] = Ok [7, 8, 7, 8, 9]"
  using literal_block_roundtrip [of "[7, 8, 7, 8, 9]" 33792]
  by (simp add: literal_block_def)

text \<open>A single byte where a control word is due ends the block without an error.\<close>

lemma dropped_byte: "data ! 0 \<noteq> 1 \<Longrightarrow> length data = 5 \<Longrightarrow> fast_lz cap data = Ok []"
  by (simp add: fast_lz_def lz_loop.simps lz_start_def)

end
