(* ===== verification/Gho_Reader.thy ===== *)
theory Gho_Reader
  imports Gho_Fast_Lz
begin

text \<open>
  The byte streams a Ghost image is read from (\<open>crates/gho/src/lib.rs\<close>): a
  single file, and the \<open>SpanReader\<close> that presents a primary file and its
  continuation files as one stream; and the scan for the next record
  (\<open>find_record\<close>) over either.  A reader is given by its length and by what a
  seek to an offset followed by a read of up to so many bytes yields; every read
  of the decoder follows a seek.  Positions are natural numbers, with the checks
  of the code against \<open>2 ^ 64\<close> written out.  Errors of the operating system are
  left out, except for those the span reader raises itself.
\<close>

datatype io_error = Unexpected_Eof | Invalid_Input

fun map_eof :: "io_error \<Rightarrow> gho_error" where
  "map_eof Unexpected_Eof = Truncated"
| "map_eof Invalid_Input = Io"

definition header_size :: nat where "header_size = 512"
definition record_header_size :: nat where "record_header_size = 10"
definition record_magic :: u32 where "record_magic = 0x012f18d8"
definition image_magic :: u16 where "image_magic = 0xeffe"

record gho_reader =
  rd_len :: nat
  rd_at :: "nat \<Rightarrow> nat \<Rightarrow> (io_error, bytes) outcome"

definition file_reader :: "bytes \<Rightarrow> gho_reader" where
  "file_reader file = \<lparr> rd_len = length file, rd_at = (\<lambda>off n. Ok (take n (drop off file))) \<rparr>"

definition read_exact :: "gho_reader \<Rightarrow> nat \<Rightarrow> nat \<Rightarrow> (gho_error, bytes) outcome" where
  "read_exact rd off n =
     and_then (map_err map_eof (rd_at rd off n)) (\<lambda>b.
       if length b < n then Err Truncated else Ok b)"

definition u16_of :: "bytes \<Rightarrow> u16" where "u16_of b = from_le (take 2 b)"
definition u32_of :: "bytes \<Rightarrow> u32" where "u32_of b = from_le (take 4 b)"

section \<open>Spans\<close>

record span_reader =
  sr_files :: "bytes list"
  sr_starts :: "nat list"
  sr_lengths :: "nat list"
  sr_position :: nat
  sr_total :: nat

definition skipped_header :: "nat \<Rightarrow> nat" where
  "skipped_header index = (if index = 0 then 0 else header_size)"

definition continues_image :: "u8 \<Rightarrow> bytes \<Rightarrow> bytes \<Rightarrow> bool" where
  "continues_image compression image_id header =
     (u16_of header = image_magic \<and> header ! 2 = 9 \<and> header ! 3 = compression \<and>
      take 4 (drop 4 header) = image_id)"

fun span_scan ::
  "u8 \<Rightarrow> bytes \<Rightarrow> nat \<Rightarrow> nat \<Rightarrow> bytes list \<Rightarrow> (gho_error, nat list \<times> nat list \<times> nat) outcome" where
  "span_scan compression image_id index tot [] = Ok ([], [], tot)"
| "span_scan compression image_id index tot (f # fs) =
     (if length f < header_size then Err Truncated
      else if index > 0 \<and> \<not> continues_image compression image_id (take header_size f)
      then Err SpanMismatch
      else let len = length f - skipped_header index in
        if tot + len \<ge> 2 ^ 64 then Err InvalidRecord
        else map_ok (\<lambda>(starts, lengths, t). (tot # starts, len # lengths, t))
               (span_scan compression image_id (Suc index) (tot + len) fs))"

definition span_new :: "bytes list \<Rightarrow> (gho_error, span_reader) outcome" where
  "span_new files =
     (case files of
        [] \<Rightarrow> Err Truncated
      | primary # _ \<Rightarrow>
          if length primary < header_size then Err Truncated
          else if u16_of primary \<noteq> image_magic \<or> primary ! 2 \<noteq> 1 then Err InvalidMagic
          else map_ok (\<lambda>(starts, lengths, t).
                 \<lparr> sr_files = files, sr_starts = starts, sr_lengths = lengths, sr_position = 0,
                   sr_total = t \<rparr>)
                 (span_scan (primary ! 3) (take 4 (drop 4 primary)) 0 0 files))"

text \<open>
  \<open>granted\<close> is the number of bytes the underlying file delivers for a read of
  \<open>wanted\<close> bytes at an offset: any number from one up, within what is there.
\<close>

type_synonym granting = "nat \<Rightarrow> nat \<Rightarrow> nat \<Rightarrow> nat"

definition span_index :: "span_reader \<Rightarrow> nat \<Rightarrow> nat" where
  "span_index sr pos = length (takeWhile (\<lambda>s. s \<le> pos) (sr_starts sr)) - 1"

definition delivered :: "bytes \<Rightarrow> (io_error, bytes) outcome" where
  "delivered chunk = (if chunk = [] then Err Unexpected_Eof else Ok chunk)"

lemma delivered_Ok: "delivered c = Ok chunk \<Longrightarrow> 0 < length chunk"
  by (auto simp: delivered_def split: if_splits)

text \<open>One round of the read loop: the bytes the file of the current span delivers.\<close>

definition span_chunk :: "granting \<Rightarrow> span_reader \<Rightarrow> nat \<Rightarrow> (io_error, bytes) outcome" where
  "span_chunk granted sr want =
     (let index = span_index sr (sr_position sr) in
      if index \<ge> length (sr_starts sr) \<or> sr_position sr < sr_starts sr ! index then Panic
      else
        let relative = sr_position sr - sr_starts sr ! index in
        if sr_lengths sr ! index < relative then Panic
        else
          let wanted = min (sr_lengths sr ! index - relative) want;
              off = skipped_header index + relative in
          delivered (take (min wanted (granted index off wanted)) (drop off (sr_files sr ! index))))"

lemma span_chunk_progress: "span_chunk granted sr want = Ok chunk \<Longrightarrow> 0 < length chunk"
  by (auto simp: span_chunk_def Let_def dest: delivered_Ok split: if_splits)

function span_read ::
  "granting \<Rightarrow> span_reader \<Rightarrow> nat \<Rightarrow> (io_error, bytes \<times> span_reader) outcome" where
  "span_read granted sr want =
     (if want = 0 \<or> sr_position sr \<ge> sr_total sr then Ok ([], sr)
      else case span_chunk granted sr want of
             Ok chunk \<Rightarrow>
               (case span_read granted (sr \<lparr> sr_position := sr_position sr + length chunk \<rparr>)
                       (want - length chunk) of
                  Ok (rest, sr') \<Rightarrow> Ok (chunk @ rest, sr')
                | Err e \<Rightarrow> Err e
                | Panic \<Rightarrow> Panic)
           | Err e \<Rightarrow> Err e
           | Panic \<Rightarrow> Panic)"
  by pat_completeness auto
termination
  by (relation "measure (\<lambda>(granted, sr, want). want)") (auto dest: span_chunk_progress)

declare span_read.simps [simp del]

datatype seek_from = From_Start nat | From_End int | From_Current int

definition span_seek :: "span_reader \<Rightarrow> seek_from \<Rightarrow> (io_error, span_reader) outcome" where
  "span_seek sr position =
     (let next = (case position of
            From_Start v \<Rightarrow> int v
          | From_End v \<Rightarrow> int (sr_total sr) + v
          | From_Current v \<Rightarrow> int (sr_position sr) + v) in
      if next < 0 \<or> int (sr_total sr) < next then Err Invalid_Input
      else Ok (sr \<lparr> sr_position := nat next \<rparr>))"

definition span_source :: "granting \<Rightarrow> span_reader \<Rightarrow> gho_reader" where
  "span_source granted sr =
     \<lparr> rd_len = sr_total sr,
       rd_at = (\<lambda>off n. and_then (span_seek sr (From_Start off)) (\<lambda>sr.
                  map_ok fst (span_read granted sr n))) \<rparr>"

text \<open>What the stream is: the primary file and the continuations without their headers.\<close>

definition span_bodies :: "bytes list \<Rightarrow> bytes list" where
  "span_bodies files = (case files of [] \<Rightarrow> [] | f # fs \<Rightarrow> f # map (drop header_size) fs)"

definition joined :: "bytes list \<Rightarrow> bytes" where
  "joined files = concat (span_bodies files)"

fun offsets :: "nat \<Rightarrow> bytes list \<Rightarrow> nat list" where
  "offsets t [] = []"
| "offsets t (b # bs) = t # offsets (t + length b) bs"

lemma length_offsets [simp]: "length (offsets t bs) = length bs"
  by (induction t bs rule: offsets.induct) simp_all

text \<open>The span of a position, by the search of the code.\<close>

lemma offsets_search:
  assumes "t \<le> pos" "pos < t + length (concat bs)"
  shows "let i = length (takeWhile (\<lambda>s. s \<le> pos) (offsets t bs)) - 1 in
    i < length bs \<and> offsets t bs ! i \<le> pos \<and> pos - offsets t bs ! i < length (bs ! i) \<and>
    drop (pos - t) (concat bs) = drop (pos - offsets t bs ! i) (bs ! i) @ concat (drop (Suc i) bs)"
  using assms
proof (induction bs arbitrary: t)
  case (Cons b bs)
  show ?case
  proof (cases "pos < t + length b")
    case True
    then have "takeWhile (\<lambda>s. s \<le> pos) (offsets (t + length b) bs) = []"
      by (cases bs) simp_all
    with True Cons.prems show ?thesis by (simp add: Let_def)
  next
    case False
    let ?t = "t + length b"
    have "bs \<noteq> []" using False Cons.prems(2) by auto
    then have "takeWhile (\<lambda>s. s \<le> pos) (offsets ?t bs) \<noteq> []"
      using False by (cases bs) auto
    then obtain j where j: "length (takeWhile (\<lambda>s. s \<le> pos) (offsets ?t bs)) = Suc j"
      by (cases "takeWhile (\<lambda>s. s \<le> pos) (offsets ?t bs)") auto
    have "j < length bs \<and> offsets ?t bs ! j \<le> pos \<and> pos - offsets ?t bs ! j < length (bs ! j) \<and>
        drop (pos - ?t) (concat bs) = drop (pos - offsets ?t bs ! j) (bs ! j) @ concat (drop (Suc j) bs)"
      using Cons.IH [of ?t] Cons.prems False by (simp add: Let_def j)
    with False Cons.prems(1) show ?thesis by (simp add: Let_def j)
  qed
qed simp

fun scanned_bodies :: "nat \<Rightarrow> bytes list \<Rightarrow> bytes list" where
  "scanned_bodies index [] = []"
| "scanned_bodies index (f # fs) = drop (skipped_header index) f # scanned_bodies (Suc index) fs"

lemma scanned_bodies_map:
  "scanned_bodies (Suc index) fs = map (drop header_size) fs"
  "scanned_bodies 0 files = span_bodies files"
proof -
  show *: "scanned_bodies (Suc index) fs = map (drop header_size) fs" for index fs
    by (induction fs arbitrary: index) (simp_all add: skipped_header_def)
  show "scanned_bodies 0 files = span_bodies files"
    by (cases files) (simp_all add: * span_bodies_def skipped_header_def)
qed

lemma span_scan_Ok:
  "span_scan c d index tot fs = Ok (starts, lengths, t) \<Longrightarrow>
     starts = offsets tot (scanned_bodies index fs) \<and> lengths = map length (scanned_bodies index fs) \<and>
     t = tot + length (concat (scanned_bodies index fs)) \<and> (fs \<noteq> [] \<longrightarrow> t < 2 ^ 64)"
proof (induction fs arbitrary: index tot starts lengths t)
  case (Cons f fs)
  obtain ss ls where r: "span_scan c d (Suc index) (tot + (length f - skipped_header index)) fs = Ok (ss, ls, t)"
      "starts = tot # ss" "lengths = (length f - skipped_header index) # ls"
      "tot + (length f - skipped_header index) < 2 ^ 64"
    using Cons.prems(1) by (auto simp: Let_def outcome_simps split: if_splits)
  from Cons.IH [OF r(1)] r(2-4) show ?case by (cases fs) simp_all
qed simp

lemma span_new_Ok:
  assumes "span_new files = Ok sr"
  shows "sr_files sr = files" "sr_starts sr = offsets 0 (span_bodies files)"
    "sr_lengths sr = map length (span_bodies files)" "sr_total sr = length (joined files)"
    "length (span_bodies files) = length files"
    "length (joined files) < 2 ^ 64"
proof -
  obtain f fs where files: "files = f # fs"
    using assms by (cases files) (simp_all add: span_new_def)
  obtain starts lengths t where sc: "span_scan (f ! 3) (take 4 (drop 4 f)) 0 0 files = Ok (starts, lengths, t)"
      and sr: "sr = \<lparr> sr_files = files, sr_starts = starts, sr_lengths = lengths, sr_position = 0,
        sr_total = t \<rparr>"
    using assms by (auto simp: span_new_def files outcome_simps split: if_splits)
  from span_scan_Ok [OF sc] show "sr_files sr = files" "sr_starts sr = offsets 0 (span_bodies files)"
    "sr_lengths sr = map length (span_bodies files)" "sr_total sr = length (joined files)"
    "length (joined files) < 2 ^ 64"
    unfolding scanned_bodies_map by (simp_all add: sr joined_def files)
  show "length (span_bodies files) = length files" by (simp add: span_bodies_def files)
qed

section \<open>The contract of a source\<close>

locale byte_source =
  fixes source :: "'a \<Rightarrow> gho_reader" and stream :: "'a \<Rightarrow> bytes" and opened :: "'a \<Rightarrow> bool"
  assumes source_len: "opened a \<Longrightarrow> rd_len (source a) = length (stream a)"
    and source_at: "opened a \<Longrightarrow> off \<le> length (stream a) \<Longrightarrow>
      rd_at (source a) off n = Ok (take n (drop off (stream a)))"
begin

lemma source_read_exact:
  assumes "opened a" "off \<le> length (stream a)"
  shows "read_exact (source a) off n =
    (if off + n \<le> length (stream a) then Ok (take n (drop off (stream a))) else Err Truncated)"
  using assms by (auto simp: read_exact_def source_at)

end

interpretation single_file: byte_source file_reader "\<lambda>file. file" "\<lambda>file. True"
  by unfold_locales (simp_all add: file_reader_def)

definition opened_spans :: "granting \<times> bytes list \<Rightarrow> bool" where
  "opened_spans = (\<lambda>(granted, files). is_ok (span_new files) \<and> (\<forall>i off n. 0 < n \<longrightarrow> 0 < granted i off n))"

definition source_of_spans :: "granting \<times> bytes list \<Rightarrow> gho_reader" where
  "source_of_spans = (\<lambda>(granted, files).
     case span_new files of Ok sr \<Rightarrow> span_source granted sr | _ \<Rightarrow> file_reader [])"

text \<open>Bodies are where the reader looks for them.\<close>

lemma span_bodies_nth:
  "i < length files \<Longrightarrow> span_bodies files ! i = drop (skipped_header i) (files ! i)"
  by (cases files) (auto simp: span_bodies_def skipped_header_def nth_Cons split: nat.splits)

definition reads_spans :: "bytes list \<Rightarrow> span_reader \<Rightarrow> bool" where
  "reads_spans files sr =
     (sr_files sr = files \<and> sr_starts sr = offsets 0 (span_bodies files) \<and>
      sr_lengths sr = map length (span_bodies files) \<and> sr_total sr = length (joined files) \<and>
      length (span_bodies files) = length files)"

lemma span_chunk_exact:
  assumes r: "reads_spans files sr" and g: "\<forall>i off n. 0 < n \<longrightarrow> 0 < granted i off n"
    and p: "sr_position sr < sr_total sr" and w: "0 < want"
  shows "\<exists>k. 0 < k \<and> k \<le> want \<and> sr_position sr + k \<le> sr_total sr \<and>
    span_chunk granted sr want = Ok (take k (drop (sr_position sr) (joined files)))"
proof -
  let ?b = "span_bodies files" and ?p = "sr_position sr"
  define i where "i = span_index sr ?p"
  have i: "i < length ?b" "offsets 0 ?b ! i \<le> ?p" "?p - offsets 0 ?b ! i < length (?b ! i)"
    "drop ?p (joined files) = drop (?p - offsets 0 ?b ! i) (?b ! i) @ concat (drop (Suc i) ?b)"
    using offsets_search [of 0 ?p ?b] r p
    by (simp_all add: reads_spans_def joined_def Let_def i_def span_index_def)
  let ?rel = "?p - offsets 0 ?b ! i"
  define wanted where "wanted = min (length (?b ! i) - ?rel) want"
  define k where "k = min wanted (granted i (skipped_header i + ?rel) wanted)"
  have k: "0 < k" "k \<le> want" "k \<le> length (?b ! i) - ?rel"
    using i(3) w g [rule_format, of wanted i "skipped_header i + ?rel"]
    by (simp_all add: k_def) (simp_all add: wanted_def min.coboundedI1 min.coboundedI2)
  have f: "drop (skipped_header i + ?rel) (files ! i) = drop ?rel (?b ! i)"
    using span_bodies_nth [of i files] i(1) r by (simp add: reads_spans_def add.commute)
  have t: "take k (drop ?rel (?b ! i)) = take k (drop ?p (joined files))"
    using k(3) by (simp add: i(4))
  have l: "length (take k (drop ?p (joined files))) = k"
    using k(3) by (simp add: t [symmetric])
  then have "?p + k \<le> sr_total sr" using p r by (auto simp: reads_spans_def)
  moreover have "span_chunk granted sr want = delivered (take k (drop ?rel (?b ! i)))"
    using i(1-3) r by (simp add: span_chunk_def Let_def i_def [symmetric] reads_spans_def
        f [symmetric] k_def wanted_def)
  moreover have "take k (drop ?p (joined files)) \<noteq> []" using l k(1) by auto
  ultimately show ?thesis using k t by (auto simp: delivered_def)
qed

lemma span_read_exact:
  assumes "reads_spans files sr" "\<forall>i off n. 0 < n \<longrightarrow> 0 < granted i off n" "sr_position sr \<le> sr_total sr"
  shows "span_read granted sr want =
    Ok (take want (drop (sr_position sr) (joined files)),
        sr \<lparr> sr_position := min (sr_position sr + want) (sr_total sr) \<rparr>)"
  using assms
proof (induction granted sr want rule: span_read.induct)
  case (1 granted sr want)
  let ?p = "sr_position sr" and ?j = "joined files"
  have tot: "sr_total sr = length ?j" using "1.prems"(1) by (simp add: reads_spans_def)
  show ?case
  proof (cases "want = 0 \<or> ?p \<ge> sr_total sr")
    case True
    with "1.prems"(3) show ?thesis by (subst span_read.simps) (auto simp: tot)
  next
    case False
    then obtain k where k: "0 < k" "k \<le> want" "?p + k \<le> sr_total sr"
        "span_chunk granted sr want = Ok (take k (drop ?p ?j))"
      using span_chunk_exact [of files sr granted want] "1.prems" by auto
    let ?sr = "sr \<lparr> sr_position := ?p + k \<rparr>"
    have l: "length (take k (drop ?p ?j)) = k" using k(3) tot by simp
    have r: "reads_spans files ?sr" using "1.prems"(1) by (simp add: reads_spans_def)
    have ih: "span_read granted ?sr (want - k) =
        Ok (take (want - k) (drop (?p + k) ?j), ?sr \<lparr> sr_position := min (?p + want) (sr_total sr) \<rparr>)"
      using "1.IH" [OF False k(4), unfolded l, OF r "1.prems"(2)] k(2,3) by simp
    have "take want (drop ?p ?j) = take k (drop ?p ?j) @ take (want - k) (drop (?p + k) ?j)"
      using k(2) by (metis take_add drop_drop add.commute le_add_diff_inverse)
    with False k(4) ih show ?thesis by (subst span_read.simps) (simp add: l del: length_take)
  qed
qed

interpretation span_files: byte_source source_of_spans "\<lambda>a. joined (snd a)" opened_spans
proof unfold_locales
  fix a :: "granting \<times> bytes list" and off n
  obtain granted files where a: "a = (granted, files)" by (cases a)
  assume "opened_spans a"
  then obtain sr where sr: "span_new files = Ok sr" and g: "\<forall>i off n. 0 < n \<longrightarrow> 0 < granted i off n"
    by (auto simp: opened_spans_def a is_ok_iff)
  have r: "reads_spans files sr" using span_new_Ok [OF sr] by (simp add: reads_spans_def)
  have s: "source_of_spans a = span_source granted sr" by (simp add: source_of_spans_def a sr)
  show "rd_len (source_of_spans a) = length (joined (snd a))"
    unfolding s using r by (simp add: span_source_def reads_spans_def a)
  assume off: "off \<le> length (joined (snd a))"
  let ?sr = "sr \<lparr> sr_position := off \<rparr>"
  have "reads_spans files ?sr" "off \<le> sr_total sr"
    using r off by (simp_all add: reads_spans_def a)
  with span_read_exact [of files ?sr granted n] g
  show "rd_at (source_of_spans a) off n = Ok (take n (drop off (joined (snd a))))"
    unfolding s by (simp add: span_source_def span_seek_def Let_def a)
qed

text \<open>
  The span reader presents the primary file and its continuations, without
  their headers, as one stream: from any position reached by a seek within the
  stream, a read returns exactly the bytes of the joined files and moves past
  them, however few bytes the files deliver at a time.
\<close>

theorem spans_read_as_one_stream:
  assumes "span_new files = Ok sr" "span_seek sr p = Ok sr'"
    and "\<forall>i off n. 0 < n \<longrightarrow> 0 < granted i off n"
  shows "span_read granted sr' want =
    Ok (take want (drop (sr_position sr') (joined files)),
        sr' \<lparr> sr_position := min (sr_position sr' + want) (length (joined files)) \<rparr>)"
proof -
  have "reads_spans files sr'" "sr_position sr' \<le> sr_total sr'" "sr_total sr' = length (joined files)"
    using assms(2) span_new_Ok [OF assms(1)]
    by (auto simp: span_seek_def Let_def reads_spans_def split: if_splits)
  with span_read_exact [of files sr' granted want] assms(3) show ?thesis by simp
qed

section \<open>The next record\<close>

definition known_record :: "u16 \<Rightarrow> bool" where
  "known_record kind = (kind = 0x0006 \<or> kind = 0x0603 \<or> kind = 0x0703 \<or> kind = 0x0023)"

text \<open>The record that starts at the first of these bytes: its kind and the length of its body.\<close>

definition record_header :: "bytes \<Rightarrow> (u16 \<times> u16) option" where
  "record_header h =
     (if u32_of (drop 4 h) = record_magic \<and> known_record (u16_of h)
      then Some (u16_of h, u16_of (drop 8 h)) else None)"

fun first_some :: "('a \<Rightarrow> 'b option) \<Rightarrow> 'a list \<Rightarrow> 'b option" where
  "first_some f [] = None"
| "first_some f (x # xs) = (case f x of Some y \<Rightarrow> Some y | None \<Rightarrow> first_some f xs)"

definition record_at :: "bytes \<Rightarrow> nat \<Rightarrow> nat \<Rightarrow> (nat \<times> u16 \<times> u16) option" where
  "record_at buf base i = map_option (\<lambda>(kind, len). (base + i, kind, len)) (record_header (drop i buf))"

definition scan_window :: nat where "scan_window = 64 * 1024 + record_header_size"

text \<open>\<open>0..=read - RECORD_HEADER_SIZE\<close>, whose end must not fall below zero.\<close>

definition scan_buffer ::
  "bytes \<Rightarrow> nat \<Rightarrow> (gho_error, (nat \<times> u16 \<times> u16) option) outcome" where
  "scan_buffer buf base =
     (if length buf < record_header_size then Panic
      else Ok (first_some (record_at buf base) [0 ..< length buf - record_header_size + 1]))"

function find_record ::
  "gho_reader \<Rightarrow> nat \<Rightarrow> nat \<Rightarrow> (gho_error, (nat \<times> u16 \<times> u16) option) outcome" where
  "find_record rd offset end' =
     (if offset \<ge> end' then Ok None
      else case rd_at rd offset (min (end' - offset) scan_window) of
             Ok buf \<Rightarrow>
               if length buf < record_header_size then Ok None
               else (case scan_buffer buf offset of
                       Ok (Some r) \<Rightarrow> Ok (Some r)
                     | Ok None \<Rightarrow>
                         let next = offset + (length buf - (record_header_size - 1)) in
                         if next \<ge> 2 ^ 64 then Err InvalidRecord else find_record rd next end'
                     | Err e \<Rightarrow> Err e
                     | Panic \<Rightarrow> Panic)
           | Err e \<Rightarrow> Err Io
           | Panic \<Rightarrow> Panic)"
  by pat_completeness auto
termination
  by (relation "measure (\<lambda>(rd, offset, end'). end' - offset)") (auto simp: record_header_size_def)

declare find_record.simps [simp del]

lemma find_record_step:
  assumes "\<not> offset \<ge> end'" "rd_at rd offset (min (end' - offset) scan_window) = Ok buf"
    "\<not> length buf < record_header_size"
    "offset + (length buf - (record_header_size - 1)) = next" "next < 2 ^ 64"
  shows "find_record rd offset end' =
    (case scan_buffer buf offset of
       Ok (Some r) \<Rightarrow> Ok (Some r) | Ok None \<Rightarrow> find_record rd next end' | Err e \<Rightarrow> Err e | Panic \<Rightarrow> Panic)"
  unfolding find_record.simps [of rd offset end'] assms(2) outcome.case Let_def assms(4)
  using assms(1,3,5) by (simp only: if_False not_le [symmetric] split: option.split outcome.split)

lemma first_some_append:
  "first_some f (xs @ ys) = (case first_some f xs of Some y \<Rightarrow> Some y | None \<Rightarrow> first_some f ys)"
  by (induction xs) (auto split: option.splits)

lemma first_some_cong: "(\<And>x. x \<in> set xs \<Longrightarrow> f x = g x) \<Longrightarrow> first_some f xs = first_some g xs"
  by (induction xs) (auto split: option.splits)

lemma first_some_map: "first_some f (map g xs) = first_some (\<lambda>x. f (g x)) xs"
  by (induction xs) (auto split: option.splits)

lemma first_some_Some: "first_some f xs = Some y \<Longrightarrow> \<exists>x \<in> set xs. f x = Some y"
  by (induction xs) (auto split: option.splits)

text \<open>A header is its first ten bytes.\<close>

lemma record_header_take:
  assumes "10 \<le> n"
  shows "record_header (take n h) = record_header h"
proof -
  have "take 4 (drop 4 (take n h)) = take 4 (drop 4 h)" "take 2 (take n h) = take 2 h"
    "take 2 (drop 8 (take n h)) = take 2 (drop 8 h)"
    using assms by (simp_all add: drop_take min_def)
  then show ?thesis unfolding record_header_def u16_of_def u32_of_def by simp
qed

text \<open>The reference: the first position, in order, where a record starts.\<close>

definition next_record :: "bytes \<Rightarrow> nat \<Rightarrow> nat \<Rightarrow> (nat \<times> u16 \<times> u16) option" where
  "next_record stream start end' = first_some (record_at stream 0) [start ..< end' - 9]"

lemma scan_window_records:
  assumes "start + m \<le> length stream" "10 \<le> m"
  shows "scan_buffer (take m (drop start stream)) start =
    Ok (first_some (record_at stream 0) [start ..< start + (m - 9)])"
proof -
  have r: "record_at (take m (drop start stream)) start i = record_at stream 0 (i + start)"
    if "i \<in> set [0 ..< m - 9]" for i
  proof -
    have "drop i (take m (drop start stream)) = take (m - i) (drop (i + start) stream)"
      by (simp add: drop_take)
    then show ?thesis
      using that record_header_take [of "m - i" "drop (i + start) stream"]
      by (simp add: record_at_def add.commute)
  qed
  have "length (take m (drop start stream)) - record_header_size + 1 = m - 9"
    using assms by (simp add: record_header_size_def)
  moreover have "\<not> length (take m (drop start stream)) < record_header_size"
    using assms by (simp add: record_header_size_def)
  ultimately have "scan_buffer (take m (drop start stream)) start =
      Ok (first_some (record_at (take m (drop start stream)) start) [0 ..< m - 9])"
    unfolding scan_buffer_def by (simp only: if_False)
  also have "first_some (record_at (take m (drop start stream)) start) [0 ..< m - 9] =
      first_some (\<lambda>i. record_at stream 0 (i + start)) [0 ..< m - 9]"
    by (rule first_some_cong) (rule r)
  also have "\<dots> = first_some (record_at stream 0) (map (\<lambda>i. i + start) [0 ..< m - 9])"
    by (simp only: first_some_map)
  also have "map (\<lambda>i. i + start) [0 ..< m - 9] = [start ..< start + (m - 9)]"
    by (simp add: map_add_upt add.commute)
  finally show ?thesis .
qed

lemma next_record_split:
  assumes "start \<le> n" "n \<le> end' - 9"
  shows "next_record stream start end' =
    (case first_some (record_at stream 0) [start ..< n] of
       Some r \<Rightarrow> Some r | None \<Rightarrow> next_record stream n end')"
proof -
  have "[start ..< end' - 9] = [start ..< n] @ [n ..< end' - 9]"
    using assms upt_add_eq_append [of start n "end' - 9 - n"]
    by (simp only: le_add_diff_inverse)
  then show ?thesis by (simp add: next_record_def first_some_append split: option.split)
qed

context byte_source
begin

lemma find_record_next:
  assumes "opened a" "end' \<le> length (stream a)" "length (stream a) < 2 ^ 64"
  shows "find_record (source a) start end' = Ok (next_record (stream a) start end')"
  using assms
proof (induction "source a" start end' rule: find_record.induct)
  case (1 start end')
  show ?case
  proof (cases "start \<ge> end'")
    case True
    then show ?thesis by (subst find_record.simps) (simp add: next_record_def)
  next
    case False
    let ?m = "min (end' - start) scan_window"
    let ?buf = "take ?m (drop start (stream a))"
    have at: "rd_at (source a) start ?m = Ok ?buf"
      using "1.prems" False by (intro source_at) simp_all
    have l: "length ?buf = ?m" using "1.prems"(2) by simp
    show ?thesis
    proof (cases "?m < 10")
      case True
      then have "end' - 9 \<le> start" using False by (auto simp: scan_window_def record_header_size_def)
      with True False at l show ?thesis
        by (subst find_record.simps) (simp add: next_record_def record_header_size_def)
    next
      case m: False
      let ?n = "start + (?m - 9)"
      have n: "?n \<le> end' - 9" "start \<le> ?n" "10 \<le> ?m" "?n < 2 ^ 64"
        using m "1.prems"(2,3) by auto
      have w: "scan_buffer ?buf start = Ok (first_some (record_at (stream a) 0) [start ..< ?n])"
        using "1.prems"(2) n(3) False by (intro scan_window_records) (auto simp: min_def)
      have small: "\<not> length ?buf < record_header_size"
        unfolding l using m by (simp add: record_header_size_def)
      have nn: "start + (length ?buf - (record_header_size - 1)) = ?n"
        unfolding l by (simp add: record_header_size_def)
      have ih: "find_record (source a) ?n end' = Ok (next_record (stream a) ?n end')"
        if "scan_buffer ?buf start = Ok None"
        using "1.hyps" [OF False at small that refl refl] "1.prems" n(4) unfolding nn by simp
      note find_record_step [OF False at small nn n(4)]
      also have "(case scan_buffer ?buf start of Ok (Some r) \<Rightarrow> Ok (Some r)
          | Ok None \<Rightarrow> find_record (source a) ?n end' | Err e \<Rightarrow> Err e | Panic \<Rightarrow> Panic) =
          Ok (next_record (stream a) start end')"
        using ih unfolding next_record_split [OF n(2,1)] w
        by (cases "first_some (record_at (stream a) 0) [start ..< ?n]") simp_all
      finally show ?thesis .
    qed
  qed
qed

end

text \<open>
  The scan for the next record, which reads windows of 64 KiB that overlap
  by nine bytes, finds exactly the first position of the stream at which a
  record header starts, over a set of spans as over the joined file.
\<close>

theorem spanned_scan_finds_first:
  assumes "opened_spans (granted, files)" "end' \<le> length (joined files)"
  shows "find_record (source_of_spans (granted, files)) start end' =
      Ok (next_record (joined files) start end') \<and>
    find_record (file_reader (joined files)) start end' =
      Ok (next_record (joined files) start end')"
proof -
  obtain sr where "span_new files = Ok sr"
    using assms(1) by (auto simp: opened_spans_def is_ok_iff)
  from span_new_Ok(6) [OF this] have l: "length (joined files) < 2 ^ 64" .
  show ?thesis
    using span_files.find_record_next [of "(granted, files)" end' start] assms l
      single_file.find_record_next [where a = "joined files" and end' = end' and start = start]
    by simp
qed

section \<open>A sample set of spans\<close>

definition sample_span :: "u8 \<Rightarrow> bytes \<Rightarrow> bytes" where
  "sample_span file_type body = [0xfe, 0xef, file_type, 2, 7, 7, 7, 7] @ replicate 504 0 @ body"

definition sample_record :: bytes where
  "sample_record = [0x23, 0, 0, 0, 0xd8, 0x18, 0x2f, 0x01, 0, 0]"

definition sample_spans :: "bytes list" where
  "sample_spans = [sample_span 1 [1, 2, 3], sample_span 9 [4, 5], sample_span 9 sample_record]"

lemma length_sample_span [simp]: "length (sample_span t b) = 512 + length b"
  by (simp add: sample_span_def)

lemma sample_span_header:
  "u16_of (sample_span t b) = image_magic" "sample_span t b ! 2 = t" "sample_span t b ! 3 = 2"
  "take 4 (drop 4 (sample_span t b)) = [7, 7, 7, 7]" "drop 512 (sample_span t b) = b"
  "take 512 (sample_span t b) = sample_span t []"
  by (simp_all add: sample_span_def u16_of_def image_magic_def from_le_def)

lemma sample_spans_open:
  "\<exists>sr. span_new sample_spans = Ok sr" "opened_spans (\<lambda>i off n. 1, sample_spans)"
proof -
  have r: "length sample_record = 10" by (simp add: sample_record_def)
  show "\<exists>sr. span_new sample_spans = Ok sr"
    by (simp add: span_new_def sample_spans_def sample_span_header header_size_def continues_image_def
        skipped_header_def r)
  then show "opened_spans (\<lambda>i off n. 1, sample_spans)" by (auto simp: opened_spans_def)
qed

lemma joined_sample: "joined sample_spans = sample_span 1 [] @ [1, 2, 3, 4, 5] @ sample_record"
proof -
  have "sample_span 1 [1, 2, 3] = sample_span 1 [] @ [1, 2, 3]" by (simp add: sample_span_def)
  then show ?thesis
    by (simp add: joined_def span_bodies_def sample_spans_def header_size_def sample_span_header)
qed

theorem spans_read_as_one_stream_witness:
  "\<exists>sr sr'. span_new sample_spans = Ok sr \<and> span_seek sr (From_Start 513) = Ok sr' \<and>
     span_read (\<lambda>i off n. 1) sr' 3 = Ok ([2, 3, 4], sr' \<lparr> sr_position := 516 \<rparr>)"
proof -
  obtain sr where sr: "span_new sample_spans = Ok sr" using sample_spans_open(1) by blast
  have l: "length (joined sample_spans) = 527" by (simp add: joined_sample sample_record_def)
  then have t: "sr_total sr = 527" using span_new_Ok(4) [OF sr] by simp
  then have s: "span_seek sr (From_Start 513) = Ok (sr \<lparr> sr_position := 513 \<rparr>)"
    by (simp add: span_seek_def)
  have "take 3 (drop 513 (joined sample_spans)) = [2, 3, 4]" by (simp add: joined_sample)
  with spans_read_as_one_stream [OF sr s, of "\<lambda>i off n. 1" 3] l sr s show ?thesis by auto
qed

lemma sample_next_record: "next_record (joined sample_spans) 512 527 = Some (517, 0x23, 0)"
proof -
  have d: "drop i (joined sample_spans) = drop (i - 512) ([1, 2, 3, 4, 5] @ sample_record)" if "512 \<le> i" for i
    using that by (simp add: joined_sample)
  show ?thesis
    by (simp add: next_record_def upt_rec record_at_def d record_header_def sample_record_def
        record_magic_def known_record_def u16_of_def u32_of_def from_le_def)
qed

theorem spanned_scan_finds_first_witness:
  "find_record (source_of_spans (\<lambda>i off n. 1, sample_spans)) 512 527 = Ok (Some (517, 0x23, 0))"
  using spanned_scan_finds_first [OF sample_spans_open(2), of 527 512]
  by (simp add: sample_next_record) (simp add: joined_sample sample_record_def)

end
