(* ===== verification/Gho_Image.thy ===== *)
theory Gho_Image
  imports Gho_Reader
begin

text \<open>
  The Ghost container: the records of an image give its partitions as spans of
  the stream (\<open>parse\<close>), and the blocks of a partition decompress to its bytes
  (\<open>decode_partition\<close>), as in \<open>crates/gho/src/lib.rs\<close>.  The zlib decoder is a
  parameter: \<open>inflate data got room\<close> is what it delivers into a buffer of
  \<open>room\<close> bytes after \<open>got\<close> bytes were taken from it.  Writing the output does
  not fail here; the bytes written before an error are not part of the result.
\<close>

section \<open>Image headers\<close>

definition gho_parser_version :: u32 where "gho_parser_version = 3"

datatype compression = No_Compression | Fast | High nat

record image_info =
  ii_compression :: compression
  ii_partition_count :: nat
  ii_source_partition :: nat
  ii_encrypted :: bool
  ii_spanned :: bool

definition compression_of :: "u8 \<Rightarrow> (gho_error, compression) outcome" where
  "compression_of tag =
     (if tag = 0 then Ok No_Compression
      else if tag = 2 then Ok Fast
      else if 3 \<le> tag \<and> tag \<le> 9 then Ok (High (unat tag))
      else if tag = 10 then Ok (High 9)
      else Err (UnsupportedCompression tag))"

definition parse_header :: "gho_reader \<Rightarrow> (gho_error, compression) outcome" where
  "parse_header rd =
     (if rd_len rd < header_size then Err Truncated
      else and_then (read_exact rd 0 header_size) (\<lambda>header.
        if u16_of header \<noteq> image_magic then Err InvalidMagic
        else if header ! 2 \<noteq> 1 then Err SpannedUnsupported
        else if header ! 12 AND 2 \<noteq> 0 then Err EncryptedUnsupported
        else compression_of (header ! 3)))"

section \<open>Records\<close>

type_synonym span = "nat \<times> nat"
type_synonym partition_spans = "span list"

datatype parse_step = Next nat "partition_spans list" | Stop "partition_spans list"

definition data_end_from :: "gho_reader \<Rightarrow> nat \<Rightarrow> nat \<Rightarrow> (gho_error, nat) outcome" where
  "data_end_from rd data_start file_len =
     map_ok (\<lambda>r. case r of None \<Rightarrow> file_len | Some (off, kind, len) \<Rightarrow> off)
       (find_record rd data_start file_len)"

definition first_span ::
  "gho_reader \<Rightarrow> nat \<Rightarrow> nat \<Rightarrow> partition_spans list \<Rightarrow> (gho_error, parse_step) outcome" where
  "first_span rd file_len body_end parts =
     (let data_start = body_end + header_size in
      if data_start \<ge> 2 ^ 64 then Err InvalidRecord
      else if data_start > file_len then Err Truncated
      else and_then (read_exact rd body_end 2) (\<lambda>magic.
        if u16_of magic \<noteq> image_magic then Err InvalidMagic
        else map_ok (\<lambda>data_end. Next data_end (parts @ [[(data_start, data_end)]]))
               (data_end_from rd data_start file_len)))"

definition add_span :: "span \<Rightarrow> partition_spans list \<Rightarrow> (gho_error, partition_spans list) outcome" where
  "add_span s parts =
     (if parts = [] then Err InvalidRecord else Ok (butlast parts @ [last parts @ [s]]))"

definition next_span ::
  "gho_reader \<Rightarrow> nat \<Rightarrow> nat \<Rightarrow> partition_spans list \<Rightarrow> (gho_error, parse_step) outcome" where
  "next_span rd file_len body_end parts =
     (if body_end + header_size \<ge> 2 ^ 64 then Panic
      else and_then
        (if body_end + header_size \<le> file_len
         then map_ok (\<lambda>magic. if u16_of magic = image_magic then body_end + header_size else body_end)
                (read_exact rd body_end 2)
         else Ok body_end) (\<lambda>data_start.
      and_then (data_end_from rd data_start file_len) (\<lambda>data_end.
      map_ok (Next data_end) (add_span (data_start, data_end) parts))))"

definition parse_record ::
  "gho_reader \<Rightarrow> nat \<Rightarrow> nat \<times> u16 \<times> u16 \<Rightarrow> partition_spans list \<Rightarrow> (gho_error, parse_step) outcome" where
  "parse_record rd file_len r parts =
     (case r of (record_offset, kind, body_len) \<Rightarrow>
        let body_end = record_offset + record_header_size + unat body_len in
        if body_end \<ge> 2 ^ 64 then Err InvalidRecord
        else if body_end > file_len then Err Truncated
        else if kind = 0x0603 then first_span rd file_len body_end parts
        else if kind = 0x0703 then next_span rd file_len body_end parts
        else if kind = 0x0023 then Ok (Stop parts)
        else Ok (Next body_end parts))"

text \<open>Records are found in order, so that the loop advances.\<close>

lemma find_record_ge:
  "find_record rd start end' = Ok (Some (off, kind, len)) \<Longrightarrow> start \<le> off"
proof (induction rd start end' rule: find_record.induct)
  case (1 rd start end')
  have ge: "start \<le> off'" if "scan_buffer buf start = Ok (Some (off', kind', len'))" for buf off' kind' len'
    using that by (auto simp: scan_buffer_def record_at_def split: if_splits dest!: first_some_Some)
  from "1.prems" show ?case
    by (subst (asm) find_record.simps)
      (auto simp: Let_def dest: ge dest!: "1.IH" split: if_splits outcome.splits option.splits)
qed

lemma data_end_from_ge:
  assumes "data_end_from rd data_start file_len = Ok e" "data_start \<le> file_len"
  shows "data_start \<le> e"
  using assms by (auto simp: data_end_from_def outcome_simps dest: find_record_ge split: option.splits prod.splits)

lemma parse_record_progress:
  assumes "parse_record rd file_len (off, kind, len) parts = Ok (Next off' parts')"
  shows "off < off'"
  using assms
  by (auto simp: parse_record_def first_span_def next_span_def Let_def outcome_simps record_header_size_def
      header_size_def dest!: data_end_from_ge split: if_splits)

function parse_loop ::
  "gho_reader \<Rightarrow> nat \<Rightarrow> nat \<Rightarrow> partition_spans list \<Rightarrow> (gho_error, partition_spans list) outcome" where
  "parse_loop rd file_len offset parts =
     (if offset \<ge> file_len then Ok parts
      else case find_record rd offset file_len of
             Ok None \<Rightarrow> Ok parts
           | Ok (Some r) \<Rightarrow>
               (case parse_record rd file_len r parts of
                  Ok (Next offset' parts') \<Rightarrow> parse_loop rd file_len offset' parts'
                | Ok (Stop parts') \<Rightarrow> Ok parts'
                | Err e \<Rightarrow> Err e
                | Panic \<Rightarrow> Panic)
           | Err e \<Rightarrow> Err e
           | Panic \<Rightarrow> Panic)"
  by pat_completeness auto
termination
proof (relation "measure (\<lambda>(rd, file_len, offset, parts). file_len - offset)")
  fix rd file_len offset parts x r step offset' parts'
  assume a: "\<not> file_len \<le> offset" "find_record rd offset file_len = Ok x" "x = Some r"
    "parse_record rd file_len r parts = Ok step" "step = Next offset' parts'"
  obtain off kind len where r: "r = (off, kind, len)" by (cases r)
  have "offset \<le> off" using find_record_ge a(2,3) r by blast
  also have "off < offset'" using parse_record_progress a(4,5) r by blast
  finally show "((rd, file_len, offset', parts'), (rd, file_len, offset, parts)) \<in>
      measure (\<lambda>(rd, file_len, offset, parts). file_len - offset)"
    using a(1) by simp
qed simp

declare parse_loop.simps [simp del]

lemma parse_loop_record:
  assumes "offset < file_len" "find_record rd offset file_len = Ok (Some r)"
  shows "parse_record rd file_len r parts = Ok (Stop parts') \<Longrightarrow>
      parse_loop rd file_len offset parts = Ok parts'"
    and "parse_record rd file_len r parts = Ok (Next offset' parts') \<Longrightarrow>
      parse_loop rd file_len offset parts = parse_loop rd file_len offset' parts'"
  using assms by (simp_all add: parse_loop.simps [of rd file_len offset])

definition parse_image :: "gho_reader \<Rightarrow> (gho_error, partition_spans list \<times> image_info) outcome" where
  "parse_image rd =
     and_then (parse_header rd) (\<lambda>compression.
     and_then (parse_loop rd (rd_len rd) header_size []) (\<lambda>parts.
       if length parts \<ge> 2 ^ 32 then Err InvalidRecord
       else if length parts = 0 then Err (PartitionCount 0)
       else Ok (parts,
         \<lparr> ii_compression = compression, ii_partition_count = length parts, ii_source_partition = 1,
           ii_encrypted = False, ii_spanned = False \<rparr>)))"

definition inspect_image :: "gho_reader \<Rightarrow> (gho_error, image_info) outcome" where
  "inspect_image rd = map_ok snd (parse_image rd)"

section \<open>Blocks\<close>

definition block_size :: nat where "block_size = 32 * 1024"
definition max_stored_len :: nat where "max_stored_len = 33002"
definition expanded_capacity :: nat where "expanded_capacity = block_size + 1024"

type_synonym inflater = "bytes \<Rightarrow> nat \<Rightarrow> nat \<Rightarrow> (unit, bytes) outcome"

function inflate_loop :: "inflater \<Rightarrow> bytes \<Rightarrow> nat \<Rightarrow> bytes \<Rightarrow> (gho_error, bytes) outcome" where
  "inflate_loop inflate data cap out =
     (if length out \<ge> cap then Ok out
      else case inflate data (length out) (cap - length out) of
             Ok chunk \<Rightarrow>
               if take (cap - length out) chunk = [] then Ok out
               else inflate_loop inflate data cap (out @ take (cap - length out) chunk)
           | Err e \<Rightarrow> Err CorruptBlock
           | Panic \<Rightarrow> Panic)"
  by pat_completeness auto
termination
proof (relation "measure (\<lambda>(inflate, data, cap, out). cap - length out)")
  fix inflate :: inflater and data cap and out chunk :: bytes
  assume a: "\<not> cap \<le> length out" "take (cap - length out) chunk \<noteq> []"
  then have "0 < length (take (cap - length out) chunk)" by blast
  with a(1) show "((inflate, data, cap, out @ take (cap - length out) chunk), inflate, data, cap, out) \<in>
      measure (\<lambda>(inflate, data, cap, out). cap - length out)"
    by (simp del: length_take length_greater_0_conv take_eq_Nil)
qed simp

declare inflate_loop.simps [simp del]

definition zlib_block :: "inflater \<Rightarrow> nat \<Rightarrow> bytes \<Rightarrow> (gho_error, bytes) outcome" where
  "zlib_block inflate cap data =
     (if length data < 4 then Err CorruptBlock
      else and_then (byte_at data 0) (\<lambda>b.
        if b = 1 then raw_block cap data
        else and_then (slice_from 4 data) (\<lambda>packed.
          and_then (inflate_loop inflate packed cap []) (\<lambda>out.
          and_then (map_err (\<lambda>_. CorruptBlock) (inflate packed (length out) 1)) (\<lambda>extra.
            if extra \<noteq> [] then Err CorruptBlock else Ok out)))))"

definition expand_block :: "inflater \<Rightarrow> compression \<Rightarrow> bytes \<Rightarrow> (gho_error, bytes) outcome" where
  "expand_block inflate c data =
     (case c of
        No_Compression \<Rightarrow>
          if length data > expanded_capacity then Err CorruptBlock else copy_into expanded_capacity data
      | Fast \<Rightarrow> fast_lz expanded_capacity data
      | High level \<Rightarrow> zlib_block inflate expanded_capacity data)"

text \<open>
  \<open>stored - 2\<close> and the range \<open>compressed[..data_len]\<close> of the buffer of
  \<open>MAX_STORED_LEN\<close> bytes a block is read into.
\<close>

definition block_room :: "nat \<Rightarrow> (gho_error, nat) outcome" where
  "block_room stored =
     (if stored < 2 then Panic
      else if stored - 2 > max_stored_len then Panic
      else Ok (stored - 2))"

lemma block_room_simps [slices]:
  "block_room stored = Ok n \<longleftrightarrow> 2 \<le> stored \<and> n = stored - 2 \<and> n \<le> max_stored_len"
  "block_room stored = Panic \<longleftrightarrow> stored < 2 \<or> max_stored_len + 2 < stored"
  "block_room stored \<noteq> Err e"
  by (auto simp: block_room_def)

text \<open>
  One round of the block loop: nothing when the span is finished, and otherwise
  where the next block starts and the bytes of this one.
\<close>

definition decode_block ::
  "inflater \<Rightarrow> gho_reader \<Rightarrow> compression \<Rightarrow> nat \<Rightarrow> nat \<Rightarrow> (gho_error, (nat \<times> bytes) option) outcome" where
  "decode_block inflate rd c end' offset =
     and_then (read_exact rd offset 2) (\<lambda>len.
       let stored = unat (u16_of len) in
       if stored = 0 then Ok None
       else if stored < 3 \<or> max_stored_len < stored then Err CorruptBlock
       else if offset + stored \<ge> 2 ^ 64 then Err CorruptBlock
       else if offset + stored > end' then Err Truncated
       else and_then (block_room stored) (\<lambda>data_len.
         and_then (read_exact rd (offset + 2) data_len) (\<lambda>data.
         map_ok (\<lambda>out. Some (offset + stored, out)) (expand_block inflate c data))))"

text \<open>Counting and writing the bytes of a block, \<open>&expanded[..count]\<close>.\<close>

definition write_block :: "nat \<Rightarrow> nat \<times> bytes \<Rightarrow> bytes \<Rightarrow> (gho_error, nat \<times> bytes) outcome" where
  "write_block limit st out =
     (case st of (tot, written) \<Rightarrow>
        if tot + length out \<ge> 2 ^ 64 \<or> tot + length out > limit then Err ExpandedLimit
        else and_then (copy_into expanded_capacity out) (\<lambda>out.
          Ok (tot + length out, written @ out)))"

lemma decode_block_progress:
  "decode_block inflate rd c end' offset = Ok (Some (next, out)) \<Longrightarrow> offset < next \<and> next \<le> end'"
  by (auto simp: decode_block_def Let_def outcome_simps split: if_splits)

function decode_span ::
  "inflater \<Rightarrow> gho_reader \<Rightarrow> compression \<Rightarrow> nat \<Rightarrow> nat \<Rightarrow> nat \<Rightarrow> nat \<times> bytes \<Rightarrow>
   (gho_error, nat \<times> bytes) outcome" where
  "decode_span inflate rd c limit end' offset st =
     (if offset + 2 \<ge> 2 ^ 64 \<or> end' < offset + 2 then Ok st
      else case decode_block inflate rd c end' offset of
             Ok None \<Rightarrow> Ok st
           | Ok (Some (next, out)) \<Rightarrow>
               (case write_block limit st out of
                  Ok st' \<Rightarrow> decode_span inflate rd c limit end' next st'
                | Err e \<Rightarrow> Err e
                | Panic \<Rightarrow> Panic)
           | Err e \<Rightarrow> Err e
           | Panic \<Rightarrow> Panic)"
  by pat_completeness auto
termination
  by (relation "measure (\<lambda>(inflate, rd, c, limit, end', offset, st). end' - offset)")
    (auto dest: decode_block_progress)

declare decode_span.simps [simp del]

fun decode_spans ::
  "inflater \<Rightarrow> gho_reader \<Rightarrow> compression \<Rightarrow> nat \<Rightarrow> span list \<Rightarrow> nat \<times> bytes \<Rightarrow>
   (gho_error, nat \<times> bytes) outcome" where
  "decode_spans inflate rd c limit [] st = Ok st"
| "decode_spans inflate rd c limit ((start, end') # spans) st =
     and_then (decode_span inflate rd c limit end' start st) (decode_spans inflate rd c limit spans)"

definition decode_partition ::
  "inflater \<Rightarrow> gho_reader \<Rightarrow> nat \<Rightarrow> nat \<Rightarrow> (gho_error, image_info \<times> nat \<times> bytes) outcome" where
  "decode_partition inflate rd source_partition limit =
     and_then (parse_image rd) (\<lambda>(parts, info).
       if source_partition = 0 \<or> source_partition > ii_partition_count info
       then Err (PartitionCount (ii_partition_count info))
       else if source_partition - 1 \<ge> length parts then Err (PartitionCount (ii_partition_count info))
       else map_ok (\<lambda>(tot, written). (info, tot, written))
              (decode_spans inflate rd (ii_compression info) limit (parts ! (source_partition - 1)) (0, [])))"

record verified_partition =
  vp_info :: image_info
  vp_expanded_size :: nat

definition verify_image :: "inflater \<Rightarrow> gho_reader \<Rightarrow> nat \<Rightarrow> (gho_error, verified_partition) outcome" where
  "verify_image inflate rd limit =
     map_ok (\<lambda>(info, tot, written). \<lparr> vp_info = info, vp_expanded_size = tot \<rparr>)
       (decode_partition inflate rd 1 limit)"

section \<open>The layout of an image\<close>

text \<open>Spans in order, without overlap, between two offsets.\<close>

fun laid_out :: "nat \<Rightarrow> nat \<Rightarrow> span list \<Rightarrow> bool" where
  "laid_out lo hi [] = (lo \<le> hi)"
| "laid_out lo hi ((s, e) # spans) = (lo \<le> s \<and> s \<le> e \<and> laid_out e hi spans)"

lemma laid_out_snoc:
  "laid_out lo hi spans \<Longrightarrow> hi \<le> s \<Longrightarrow> s \<le> e \<Longrightarrow> laid_out lo e (spans @ [(s, e)])"
  by (induction lo hi spans rule: laid_out.induct) auto

lemma laid_out_mono: "laid_out lo hi spans \<Longrightarrow> hi \<le> hi' \<Longrightarrow> laid_out lo hi' spans"
  by (induction lo hi spans rule: laid_out.induct) auto

lemma laid_out_order: "laid_out lo hi spans \<Longrightarrow> lo \<le> hi"
  by (induction lo hi spans rule: laid_out.induct) auto

lemma laid_out_bounds: "laid_out lo hi spans \<Longrightarrow> (s, e) \<in> set spans \<Longrightarrow> lo \<le> s \<and> s \<le> e \<and> e \<le> hi"
  by (induction lo hi spans rule: laid_out.induct) (auto dest: laid_out_order)

definition parts_ok :: "nat \<Rightarrow> partition_spans list \<Rightarrow> bool" where
  "parts_ok hi parts = (laid_out header_size hi (concat parts) \<and> [] \<notin> set parts)"

lemma parts_ok_first:
  "parts_ok hi parts \<Longrightarrow> hi \<le> s \<Longrightarrow> s \<le> e \<Longrightarrow> parts_ok e (parts @ [[(s, e)]])"
  by (auto simp: parts_ok_def laid_out_snoc)

lemma parts_ok_next:
  assumes "add_span (s, e) parts = Ok parts'" "parts_ok hi parts" "hi \<le> s" "s \<le> e"
  shows "parts_ok e parts'"
proof -
  have p: "parts \<noteq> []" "parts' = butlast parts @ [last parts @ [(s, e)]]"
    using assms(1) by (auto simp: add_span_def split: if_splits)
  have "concat parts' = concat (butlast parts @ [last parts]) @ [(s, e)]" by (simp add: p(2))
  then have "concat parts' = concat parts @ [(s, e)]" using p(1) by simp
  moreover have "[] \<notin> set parts'"
    using assms(2) by (auto simp: p(2) parts_ok_def dest: in_set_butlastD)
  ultimately show ?thesis using assms(2-4) laid_out_snoc [of header_size hi "concat parts" s e]
    by (simp add: parts_ok_def)
qed

definition addressable :: "bytes \<Rightarrow> bool" where
  "addressable stream = (length stream + header_size < 2 ^ 64)"

lemma next_record_bounds:
  "next_record stream start end' = Some (off, kind, len) \<Longrightarrow> start \<le> off \<and> off + 10 \<le> end'"
  by (auto simp: next_record_def record_at_def dest!: first_some_Some)

context byte_source
begin

lemma data_end_next:
  assumes "opened a" "addressable (stream a)"
  shows "data_end_from (source a) start (length (stream a)) =
    Ok (case next_record (stream a) start (length (stream a)) of
          None \<Rightarrow> length (stream a) | Some (off, kind, len) \<Rightarrow> off)"
  using assms find_record_next [of a "length (stream a)" start]
  by (simp add: data_end_from_def addressable_def)

lemma data_end_bounds:
  assumes "opened a" "addressable (stream a)" "start \<le> length (stream a)"
    and "data_end_from (source a) start (length (stream a)) = Ok e"
  shows "start \<le> e \<and> e \<le> length (stream a)"
  using assms(4) next_record_bounds [of "stream a" start "length (stream a)"] assms(3)
  unfolding data_end_next [OF assms(1,2)]
  by (auto split: option.splits prod.splits)

lemma parse_record_layout:
  assumes "opened a" "addressable (stream a)" "parts_ok offset parts" "offset \<le> off"
    and "parse_record (source a) (length (stream a)) (off, kind, len) parts = Ok step"
  shows "case step of Next offset' parts' \<Rightarrow> parts_ok offset' parts' \<and> offset' \<le> length (stream a)
    | Stop parts' \<Rightarrow> parts' = parts"
proof -
  let ?n = "length (stream a)" and ?b = "off + record_header_size + unat len"
  have b: "?b \<le> ?n" "offset \<le> ?b"
    using assms(4,5) by (auto simp: parse_record_def Let_def split: if_splits)
  have kinds: "first_span (source a) ?n ?b parts = Ok step \<or> next_span (source a) ?n ?b parts = Ok step \<or>
      step = Stop parts \<or> step = Next ?b parts"
    using assms(5) by (auto simp: parse_record_def Let_def split: if_splits)
  have m: "parts_ok hi parts" if "offset \<le> hi" for hi
    using assms(3) that by (auto simp: parts_ok_def intro: laid_out_mono)
  from kinds show ?thesis
  proof (elim disjE)
    assume "first_span (source a) ?n ?b parts = Ok step"
    then obtain e where e: "?b + header_size \<le> ?n" "step = Next e (parts @ [[(?b + header_size, e)]])"
        "data_end_from (source a) (?b + header_size) ?n = Ok e"
      by (auto simp: first_span_def Let_def outcome_simps split: if_splits)
    from data_end_bounds [OF assms(1,2) e(1,3)] m [of "?b + header_size"] b(2) show ?thesis
      by (simp add: e(2) parts_ok_first)
  next
    assume "next_span (source a) ?n ?b parts = Ok step"
    then obtain s e parts' where e: "s = ?b \<or> s = ?b + header_size \<and> s \<le> ?n" "step = Next e parts'"
        "data_end_from (source a) s ?n = Ok e" "add_span (s, e) parts = Ok parts'"
      by (auto simp: next_span_def outcome_simps split: if_splits)
    have s: "s \<le> ?n" "offset \<le> s" using e(1) b by auto
    from data_end_bounds [OF assms(1,2) s(1) e(3)] parts_ok_next [OF e(4) m [OF s(2)] order.refl] show ?thesis
      by (simp add: e(2))
  qed (use m b in simp_all)
qed

lemma parse_loop_layout:
  assumes "opened a" "addressable (stream a)" "parts_ok offset parts" "offset \<le> length (stream a)"
    and "parse_loop (source a) (length (stream a)) offset parts = Ok parts'"
  shows "parts_ok (length (stream a)) parts'"
  using assms
proof (induction "source a" "length (stream a)" offset parts rule: parse_loop.induct)
  case (1 offset parts)
  let ?n = "length (stream a)"
  have m: "parts_ok ?n parts"
    using "1.prems"(3,4) by (auto simp: parts_ok_def intro: laid_out_mono)
  have f: "find_record (source a) offset ?n = Ok (next_record (stream a) offset ?n)"
    using "1.prems"(1,2) by (intro find_record_next) (simp_all add: addressable_def)
  show ?case
  proof (cases "offset < ?n \<and> next_record (stream a) offset ?n \<noteq> None")
    case False
    then have "parts' = parts"
      using "1.prems"(5) parse_loop.simps [of "source a" ?n offset parts]
      by (cases "next_record (stream a) offset ?n") (auto simp: f split: if_splits)
    with m show ?thesis by simp
  next
    case True
    then obtain off kind len where r: "next_record (stream a) offset ?n = Some (off, kind, len)" by auto
    have f': "find_record (source a) offset ?n = Ok (Some (off, kind, len))" using f r by simp
    have o': "offset \<le> off" using next_record_bounds [OF r] by simp
    from "1.prems"(5) True obtain step where
        st: "parse_record (source a) ?n (off, kind, len) parts = Ok step"
      by (subst (asm) parse_loop.simps) (auto simp: f' split: outcome.splits)
    note lay = parse_record_layout [OF "1.prems"(1-3) o' st]
    show ?thesis
    proof (cases step)
      case (Next offset' ps)
      have "parse_loop (source a) ?n offset' ps = Ok parts'"
        using "1.prems"(5) True by (subst (asm) parse_loop.simps) (simp add: f' st Next)
      with "1.hyps" [OF _ f' refl st Next] True lay Next "1.prems"(1,2) show ?thesis by simp
    next
      case (Stop ps)
      with "1.prems"(5) True lay m show ?thesis
        by (subst (asm) parse_loop.simps) (simp add: f' st)
    qed
  qed
qed

lemma parse_image_layout:
  assumes "opened a" "addressable (stream a)" "parse_image (source a) = Ok (parts, info)"
  shows "parts_ok (length (stream a)) parts \<and> 0 < length parts \<and> ii_partition_count info = length parts"
proof -
  have l: "rd_len (source a) = length (stream a)" using source_len assms(1) .
  obtain c where c: "parse_header (source a) = Ok c"
    and p: "parse_loop (source a) (length (stream a)) header_size [] = Ok parts"
    and n: "0 < length parts" "ii_partition_count info = length parts"
    using assms(3) by (auto simp: parse_image_def outcome_simps l split: if_splits)
  have h: "header_size \<le> length (stream a)"
    using c by (simp add: parse_header_def l split: if_splits)
  have "parts_ok header_size []" by (simp add: parts_ok_def)
  from parse_loop_layout [OF assms(1,2) this h p] n show ?thesis by simp
qed

end

section \<open>Spans and the joined file\<close>

context byte_source
begin

lemma reads_agree:
  assumes "opened a" "off \<le> length (stream a)"
  shows "read_exact (source a) off n = read_exact (file_reader (stream a)) off n"
  using source_read_exact [OF assms] single_file.source_read_exact [of off "stream a"] assms(2) by simp

lemma data_ends_agree:
  assumes "opened a" "addressable (stream a)"
  shows "data_end_from (source a) start (length (stream a)) =
    data_end_from (file_reader (stream a)) start (length (stream a))"
  using data_end_next [OF assms] single_file.data_end_next [OF TrueI assms(2)] by simp

lemma parse_records_agree:
  assumes "opened a" "addressable (stream a)"
  shows "parse_record (source a) (length (stream a)) r parts =
    parse_record (file_reader (stream a)) (length (stream a)) r parts"
proof -
  obtain off kind len where r: "r = (off, kind, len)" by (cases r)
  have "read_exact (source a) b n = read_exact (file_reader (stream a)) b n"
    if "b \<le> length (stream a)" for b n
    using reads_agree [OF assms(1) that] .
  then show ?thesis
    unfolding r parse_record_def prod.case Let_def first_span_def next_span_def data_ends_agree [OF assms]
    by simp
qed

lemma parse_loops_agree:
  assumes "opened a" "addressable (stream a)"
  shows "parse_loop (source a) (length (stream a)) offset parts =
    parse_loop (file_reader (stream a)) (length (stream a)) offset parts"
proof (induction "source a" "length (stream a)" offset parts rule: parse_loop.induct)
  case (1 offset parts)
  let ?n = "length (stream a)" and ?f = "file_reader (stream a)"
  have "find_record (source a) offset ?n = Ok (next_record (stream a) offset ?n)"
    "find_record ?f offset ?n = Ok (next_record (stream a) offset ?n)"
    using assms find_record_next [of a ?n offset]
      single_file.find_record_next [where a = "stream a" and end' = ?n and start = offset]
    by (simp_all add: addressable_def)
  with "1.hyps" show ?case
    unfolding parse_loop.simps [of "source a" ?n offset parts] parse_loop.simps [of ?f ?n offset parts]
    by (auto simp: parse_records_agree [OF assms] split: option.split outcome.split parse_step.split)
qed

lemma parse_images_agree:
  assumes "opened a" "addressable (stream a)"
  shows "parse_image (source a) = parse_image (file_reader (stream a))"
proof -
  have l: "rd_len (source a) = length (stream a)" "rd_len (file_reader (stream a)) = length (stream a)"
    using source_len assms(1) by (auto simp: file_reader_def)
  show ?thesis
    by (simp add: parse_image_def parse_header_def l reads_agree [OF assms(1)]
        parse_loops_agree [OF assms])
qed

lemma decode_blocks_agree:
  assumes "opened a" "offset + 2 \<le> length (stream a)"
  shows "decode_block inflate (source a) c end' offset =
    decode_block inflate (file_reader (stream a)) c end' offset"
proof -
  have "read_exact (source a) (offset + 2) n = read_exact (file_reader (stream a)) (offset + 2) n"
    "read_exact (source a) offset n = read_exact (file_reader (stream a)) offset n" for n
    using assms by (intro reads_agree; simp)+
  then show ?thesis by (simp only: decode_block_def)
qed

lemma decode_span_agree:
  assumes "opened a" "end' \<le> length (stream a)"
  shows "decode_span inflate (source a) c limit end' offset st =
    decode_span inflate (file_reader (stream a)) c limit end' offset st"
  using assms(2)
proof (induction inflate "source a" c limit end' offset st rule: decode_span.induct)
  case (1 inflate c limit end' offset st)
  let ?f = "file_reader (stream a)"
  show ?case
  proof (cases "offset + 2 \<ge> 2 ^ 64 \<or> end' < offset + 2")
    case False
    then have "decode_block inflate (source a) c end' offset = decode_block inflate ?f c end' offset"
      using "1.prems" by (intro decode_blocks_agree [OF assms(1)]) simp
    with False "1.hyps" "1.prems" show ?thesis
      unfolding decode_span.simps [of inflate "source a" c limit end' offset]
        decode_span.simps [of inflate ?f c limit end' offset]
      by (auto split: option.split outcome.split)
  qed (simp add: decode_span.simps)
qed

lemma decode_spans_agree:
  assumes "opened a"
  shows "list_all (\<lambda>(s, e). e \<le> length (stream a)) spans \<Longrightarrow>
    decode_spans inflate (source a) c limit spans st =
    decode_spans inflate (file_reader (stream a)) c limit spans st"
proof (induction spans arbitrary: st)
  case (Cons s spans)
  then show ?case
    by (cases s, cases "decode_span inflate (file_reader (stream a)) c limit (snd s) (fst s) st")
      (simp_all add: decode_span_agree [OF assms])
qed simp

lemma parts_within:
  "parts_ok n parts \<Longrightarrow> i < length parts \<Longrightarrow> list_all (\<lambda>(s, e). e \<le> n) (parts ! i)"
  by (fastforce simp: parts_ok_def list_all_iff dest!: laid_out_bounds)

lemma decoding_agrees:
  assumes "opened a" "addressable (stream a)"
  shows "decode_partition inflate (source a) n limit =
    decode_partition inflate (file_reader (stream a)) n limit"
proof (cases "parse_image (file_reader (stream a))")
  case (Ok r)
  obtain parts info where r: "r = (parts, info)" by (cases r)
  have p: "parse_image (source a) = Ok (parts, info)"
    using Ok r parse_images_agree [OF assms] by simp
  have "parts_ok (length (stream a)) parts" using parse_image_layout [OF assms p] by simp
  then show ?thesis
    using decode_spans_agree [OF assms(1) parts_within]
    by (simp add: decode_partition_def p Ok r)
qed (simp_all add: decode_partition_def parse_images_agree [OF assms])

end

text \<open>
  A Ghost image in several files is decoded exactly as the one file that
  joins them: the same result, the same bytes and the same error, whichever
  partition is asked for and however few bytes the files deliver at a time.
\<close>

theorem spanned_image_decodes_as_joined:
  assumes "opened_spans (granted, files)" "addressable (joined files)"
  shows "decode_partition inflate (source_of_spans (granted, files)) n limit =
    decode_partition inflate (file_reader (joined files)) n limit"
  using span_files.decoding_agrees [of "(granted, files)" inflate n limit] assms by simp

text \<open>
  The partitions of an image that parses lie in the file behind its
  header, in order and without overlapping, and every partition has a span;
  the partition count is the number of partitions, at least one.
\<close>

theorem partitions_are_disjoint:
  assumes "parse_image (file_reader file) = Ok (parts, info)" "addressable file"
  shows "laid_out 512 (length file) (concat parts) \<and> list_all (\<lambda>p. p \<noteq> []) parts \<and>
    ii_partition_count info = length parts \<and> 1 \<le> length parts"
  using single_file.parse_image_layout [OF TrueI assms(2,1)]
  by (auto simp: parts_ok_def header_size_def list_all_iff Suc_le_eq)

section \<open>Decoding never panics\<close>

lemma inflate_loop_no_panic:
  "(\<And>d got room. inflate d got room \<noteq> Panic) \<Longrightarrow> inflate_loop inflate data cap out \<noteq> Panic"
proof (induction inflate data cap out rule: inflate_loop.induct)
  case (1 inflate data cap out)
  then show ?case by (subst inflate_loop.simps) (simp split: outcome.split)
qed

lemma zlib_block_no_panic:
  assumes "\<And>d got room. inflate d got room \<noteq> Panic"
  shows "zlib_block inflate cap data \<noteq> Panic"
proof (cases "length data < 4")
  case False
  then have "data \<noteq> []" by auto
  with False show ?thesis
    using inflate_loop_no_panic [of inflate, OF assms] assms raw_block_outcome(1) [of data cap]
    by (simp add: zlib_block_def and_then_Panic_iff slices map_err_iffs)
qed (simp add: zlib_block_def)

lemma expand_block_no_panic:
  assumes "\<And>d got room. inflate d got room \<noteq> Panic"
  shows "expand_block inflate c data \<noteq> Panic"
  by (simp add: expand_block_def fast_lz_outcome(1) zlib_block_no_panic [OF assms] slices
      split: compression.split)

text \<open>No block is longer than the buffer it is expanded into.\<close>

lemma inflate_loop_fits:
  "inflate_loop inflate data cap out = Ok out' \<Longrightarrow> length out \<le> cap \<Longrightarrow> length out' \<le> cap"
proof (induction inflate data cap out rule: inflate_loop.induct)
  case (1 inflate data cap out)
  show ?case
  proof (cases "length out \<ge> cap")
    case True
    with 1 show ?thesis by (simp add: inflate_loop.simps)
  next
    case False
    obtain chunk where c: "inflate data (length out) (cap - length out) = Ok chunk"
      using 1(2) False by (cases "inflate data (length out) (cap - length out)")
        (auto simp: inflate_loop.simps [of _ _ cap out])
    show ?thesis
    proof (cases "take (cap - length out) chunk = []")
      case True
      have "out' = out" using 1(2) False c True by (subst (asm) inflate_loop.simps) simp
      with 1(3) show ?thesis by simp
    next
      case ne: False
      have "inflate_loop inflate data cap (out @ take (cap - length out) chunk) = Ok out'"
        using 1(2) False c ne by (subst (asm) inflate_loop.simps) simp
      moreover have "length (out @ take (cap - length out) chunk) \<le> cap" using False by simp
      ultimately show ?thesis by (rule 1(1) [OF False c ne])
    qed
  qed
qed

lemma expand_block_fits:
  assumes "expand_block inflate c data = Ok out"
  shows "length out \<le> expanded_capacity"
  using assms
  by (auto simp: expand_block_def zlib_block_def and_then_Ok_iff slices
      dest: fast_lz_outcome(2) raw_block_outcome(2) inflate_loop_fits
      split: compression.splits if_splits)

lemma decode_block_fits:
  "decode_block inflate rd c end' offset = Ok (Some (next, out)) \<Longrightarrow> length out \<le> expanded_capacity"
  by (auto simp: decode_block_def Let_def outcome_simps dest: expand_block_fits split: if_splits)

lemma write_block_outcome:
  assumes "length out \<le> expanded_capacity"
  shows "write_block limit (tot, written) out =
    (if tot + length out \<ge> 2 ^ 64 \<or> tot + length out > limit then Err ExpandedLimit
     else Ok (tot + length out, written @ out))"
  using assms by (simp add: write_block_def)

lemma file_reads_no_panic: "read_exact (file_reader file) off n \<noteq> Panic"
  by (simp add: read_exact_def file_reader_def)

lemma decode_block_no_panic:
  assumes "\<And>d got room. inflate d got room \<noteq> Panic"
  shows "decode_block inflate (file_reader file) c end' offset \<noteq> Panic"
  using expand_block_no_panic [OF assms]
  by (simp add: decode_block_def Let_def outcome_simps slices file_reads_no_panic)

text \<open>What the block loop keeps: the count is the length of the output and within the limit.\<close>

definition counted :: "nat \<Rightarrow> nat \<times> bytes \<Rightarrow> bool" where
  "counted limit st = (fst st = length (snd st) \<and> fst st \<le> limit)"

definition keeps_count :: "nat \<Rightarrow> (gho_error, nat \<times> bytes) outcome \<Rightarrow> bool" where
  "keeps_count limit m = (case m of Ok st \<Rightarrow> counted limit st | Err e \<Rightarrow> True | Panic \<Rightarrow> False)"

lemma decode_span_counts:
  "(\<And>d got room. inflate d got room \<noteq> Panic) \<Longrightarrow> counted limit st \<Longrightarrow>
     keeps_count limit (decode_span inflate (file_reader file) c limit end' offset st)"
proof (induction inflate "file_reader file" c limit end' offset st rule: decode_span.induct)
  case (1 inflate c limit end' offset st)
  obtain tot written where st: "st = (tot, written)" by (cases st)
  show ?case
  proof (cases "offset + 2 \<ge> 2 ^ 64 \<or> end' < offset + 2")
    case True
    then show ?thesis using "1.prems"(2) by (simp add: decode_span.simps keeps_count_def)
  next
    case False
    show ?thesis
    proof (cases "decode_block inflate (file_reader file) c end' offset")
      case (Ok b)
      show ?thesis
      proof (cases b)
        case None
        with False Ok "1.prems"(2) show ?thesis by (simp add: decode_span.simps keeps_count_def)
      next
        case (Some p)
        obtain nxt out where p: "p = (nxt, out)" by (cases p)
        have w: "write_block limit st out =
            (if tot + length out \<ge> 2 ^ 64 \<or> tot + length out > limit then Err ExpandedLimit
             else Ok (tot + length out, written @ out))"
          unfolding st by (rule write_block_outcome) (rule decode_block_fits [OF Ok [unfolded Some p]])
        show ?thesis
        proof (cases "tot + length out \<ge> 2 ^ 64 \<or> tot + length out > limit")
          case True
          with False Ok Some p w show ?thesis
            by (simp add: decode_span.simps [of _ _ _ _ _ offset] keeps_count_def)
        next
          case F: False
          let ?st = "(tot + length out, written @ out)"
          have ok: "write_block limit st out = Ok ?st" using w F by simp
          have "counted limit ?st" using "1.prems"(2) F by (simp add: counted_def st)
          from "1.hyps" [OF False Ok Some p [symmetric] ok "1.prems"(1) this] show ?thesis
            using False Ok Some p ok by (simp add: decode_span.simps [of _ _ _ _ _ offset])
        qed
      qed
    qed (use False decode_block_no_panic [of inflate] "1.prems"(1) in
        \<open>simp_all add: decode_span.simps keeps_count_def\<close>)
  qed
qed

lemma decode_spans_count:
  assumes "\<And>d got room. inflate d got room \<noteq> Panic"
  shows "counted limit st \<Longrightarrow>
    keeps_count limit (decode_spans inflate (file_reader file) c limit spans st)"
proof (induction spans arbitrary: st)
  case (Cons s spans)
  obtain start end' where s: "s = (start, end')" by (cases s)
  have "keeps_count limit (decode_span inflate (file_reader file) c limit end' start st)"
    by (rule decode_span_counts [OF assms Cons.prems])
  with Cons.IH show ?case
    by (cases "decode_span inflate (file_reader file) c limit end' start st")
      (simp_all add: s keeps_count_def)
qed (simp add: keeps_count_def)

lemma parse_record_no_panic:
  assumes "addressable file"
  shows "parse_record (file_reader file) (length file) r parts \<noteq> Panic"
proof -
  have "data_end_from (file_reader file) start (length file) \<noteq> Panic" for start
    using single_file.data_end_next [OF TrueI assms] by simp
  with assms show ?thesis
    by (auto simp: parse_record_def first_span_def next_span_def add_span_def Let_def outcome_simps
        file_reads_no_panic addressable_def split: prod.split if_splits)
qed

lemma parse_loop_no_panic:
  assumes "addressable file"
  shows "parse_loop (file_reader file) (length file) offset parts \<noteq> Panic"
proof (induction "file_reader file" "length file" offset parts rule: parse_loop.induct)
  case (1 offset parts)
  have "find_record (file_reader file) offset (length file) = Ok (next_record file offset (length file))"
    using assms single_file.find_record_next [where a = "file" and end' = "length file" and start = offset]
    by (simp add: addressable_def)
  with "1.hyps" parse_record_no_panic [OF assms] show ?case
    by (subst parse_loop.simps) (auto split: option.split outcome.split parse_step.split)
qed

text \<open>
  C38.  Decoding a partition of any file returns: it does not panic, so that
  no slice of a buffer is out of range, and a result is for a partition that
  exists, with the bytes written counted exactly and within the limit the caller
  set.
\<close>

theorem decoding_is_bounded:
  assumes "addressable file" "\<And>d got room. inflate d got room \<noteq> Panic"
  shows "case decode_partition inflate (file_reader file) n limit of
      Ok (info, tot, out) \<Rightarrow> tot = length out \<and> length out \<le> limit \<and>
        1 \<le> n \<and> n \<le> ii_partition_count info
    | Err e \<Rightarrow> True
    | Panic \<Rightarrow> False"
proof (cases "parse_image (file_reader file)")
  case (Ok r)
  obtain parts info where r: "r = (parts, info)" by (cases r)
  have "keeps_count limit (decode_spans inflate (file_reader file) (ii_compression info) limit
      (parts ! (n - 1)) (0, []))"
    by (rule decode_spans_count) (simp_all add: assms(2) counted_def)
  then show ?thesis
    by (cases "decode_spans inflate (file_reader file) (ii_compression info) limit (parts ! (n - 1)) (0, [])")
      (auto simp: decode_partition_def Ok r keeps_count_def counted_def)
next
  case Panic
  have "parse_header (file_reader file) \<noteq> Panic"
    by (auto simp: parse_header_def compression_of_def outcome_simps file_reads_no_panic split: if_splits)
  then have False
    using Panic parse_loop_no_panic [OF assms(1), of header_size "[]"]
    by (auto simp: parse_image_def outcome_simps file_reader_def split: if_splits)
  then show ?thesis ..
qed (simp add: decode_partition_def)

section \<open>Writing an image\<close>

text \<open>
  An image with one partition: the container's header, the record of the
  partition with its header, the stored blocks and the end record.
\<close>

definition stored_block :: "bytes \<Rightarrow> bytes" where
  "stored_block data = le_bytes 2 (word_of_nat (length data + 2) :: u16) @ data"

definition storable :: "bytes \<Rightarrow> bool" where
  "storable data = (1 \<le> length data \<and> length data + 2 \<le> max_stored_len)"

definition end_record :: bytes where
  "end_record = sample_record"

definition partition_record :: bytes where
  "partition_record = [0x03, 0x06, 0, 0, 0xd8, 0x18, 0x2f, 0x01, 20, 0] @ replicate 20 0"

definition image_prologue :: "u8 \<Rightarrow> bytes" where
  "image_prologue tag =
     [0xfe, 0xef, 1, tag] @ replicate 508 0 @ partition_record @ [0xfe, 0xef] @ replicate 510 0"

definition partition_data :: "bytes list \<Rightarrow> bytes" where
  "partition_data blocks = concat (map stored_block blocks)"

definition image_file :: "u8 \<Rightarrow> bytes list \<Rightarrow> bytes" where
  "image_file tag blocks = image_prologue tag @ partition_data blocks @ end_record"

text \<open>No record header starts inside the data, as far as the end record shows.\<close>

definition record_free :: "bytes \<Rightarrow> bool" where
  "record_free data = list_all (\<lambda>i. record_header (drop i (data @ end_record)) = None) [0 ..< length data]"

lemma image_lengths [simp]:
  "length (image_prologue tag) = 1054" "length end_record = 10" "length partition_record = 30"
  by (simp_all add: image_prologue_def partition_record_def end_record_def sample_record_def)

lemma end_record_header: "record_header end_record = Some (0x23, 0)"
  by (simp add: end_record_def sample_record_def record_header_def u32_of_def u16_of_def
      from_le_def record_magic_def known_record_def)

lemma partition_record_header: "record_header (partition_record @ rest) = Some (0x0603, 20)"
  by (simp add: partition_record_def record_header_def u32_of_def u16_of_def
      from_le_def record_magic_def known_record_def)

lemma next_record_here:
  assumes "record_header (drop start stream) = Some (kind, len)" "start + 10 \<le> end'"
  shows "next_record stream start end' = Some (start, kind, len)"
  using assms by (simp add: next_record_def upt_conv_Cons record_at_def)

lemma first_some_None: "(\<And>x. x \<in> set xs \<Longrightarrow> f x = None) \<Longrightarrow> first_some f xs = None"
  by (induction xs) simp_all

lemma image_next_records:
  fixes tag blocks
  assumes "record_free (partition_data blocks)"
  defines "file \<equiv> image_file tag blocks"
  defines "n \<equiv> 1054 + length (partition_data blocks)"
  shows "next_record file 512 (length file) = Some (512, 0x0603, 20)"
    and "next_record file 1054 (length file) = Some (n, 0x23, 0)"
    and "next_record file n (length file) = Some (n, 0x23, 0)"
    and "length file = n + 10"
proof -
  let ?d = "partition_data blocks"
  show l: "length file = n + 10" by (simp add: file_def image_file_def n_def)
  have "drop 512 file = partition_record @ ([0xfe, 0xef] @ replicate 510 0) @ ?d @ end_record"
    by (simp add: file_def image_file_def image_prologue_def)
  with l show "next_record file 512 (length file) = Some (512, 0x0603, 20)"
    by (intro next_record_here) (simp_all add: partition_record_header n_def)
  have "drop n file = end_record" by (simp add: file_def image_file_def n_def)
  with l show e: "next_record file n (length file) = Some (n, 0x23, 0)"
    by (intro next_record_here) (simp_all add: end_record_header)
  have "record_at file 0 i = None" if "i \<in> set [1054 ..< n]" for i
  proof -
    have "drop i file = drop (i - 1054) (?d @ end_record)"
      using that by (simp add: file_def image_file_def)
    moreover have "i - 1054 < length ?d" using that by (auto simp: n_def)
    ultimately show ?thesis
      using assms(1) by (simp add: record_at_def record_free_def list_all_iff)
  qed
  then have "first_some (record_at file 0) [1054 ..< n] = None" by (rule first_some_None)
  moreover have "1054 \<le> n" "n \<le> length file - 9" using l by (simp_all add: n_def)
  ultimately show "next_record file 1054 (length file) = Some (n, 0x23, 0)"
    using e by (simp add: next_record_split [of 1054 n])
qed

lemma find_in_file:
  "addressable file \<Longrightarrow>
     find_record (file_reader file) start (length file) = Ok (next_record file start (length file))"
  using single_file.find_record_next [where a = "file" and end' = "length file" and start = start]
  by (simp add: addressable_def)

lemma image_parses:
  assumes "compression_of tag = Ok c" "record_free (partition_data blocks)"
    and "addressable (image_file tag blocks)"
  shows "parse_image (file_reader (image_file tag blocks)) =
    Ok ([[(1054, 1054 + length (partition_data blocks))]],
      \<lparr> ii_compression = c, ii_partition_count = 1, ii_source_partition = 1, ii_encrypted = False,
        ii_spanned = False \<rparr>)"
proof -
  let ?f = "image_file tag blocks" and ?n = "1054 + length (partition_data blocks)"
  let ?r = "file_reader ?f"
  note r = image_next_records [OF assms(2), of tag]
  have a: "length ?f + header_size < 2 ^ 64" using assms(3) by (simp add: addressable_def)
  have h: "take 512 ?f = [0xfe, 0xef, 1, tag] @ replicate 508 0"
    by (simp add: image_file_def image_prologue_def)
  have "parse_header ?r = Ok c"
    using r(4) by (simp add: parse_header_def read_exact_def file_reader_def header_size_def h
        u16_of_def from_le_def image_magic_def assms(1))
  moreover have p1: "parse_record ?r (length ?f) (512, 0x0603, 20) [] = Ok (Next ?n [[(1054, ?n)]])"
  proof -
    have m: "take 2 (drop 542 ?f) = [0xfe, 0xef]"
      by (simp add: image_file_def image_prologue_def partition_record_def)
    have "data_end_from ?r 1054 (length ?f) = Ok ?n"
      using r(2) by (simp add: data_end_from_def find_in_file [OF assms(3)])
    with r(4) a m show ?thesis
      by (simp add: parse_record_def first_span_def Let_def record_header_size_def header_size_def
          read_exact_def file_reader_def u16_of_def from_le_def image_magic_def)
  qed
  moreover have p2: "parse_record ?r (length ?f) (?n, 0x23, 0) parts = Ok (Stop parts)" for parts
    using r(4) a by (simp add: parse_record_def Let_def record_header_size_def header_size_def)
  have "parse_loop ?r (length ?f) ?n [[(1054, ?n)]] = Ok [[(1054, ?n)]]"
    by (rule parse_loop_record(1) [OF _ _ p2])
      (simp_all only: r(3) find_in_file [OF assms(3)], simp add: r(4))
  moreover have "parse_loop ?r (length ?f) 512 [] = parse_loop ?r (length ?f) ?n [[(1054, ?n)]]"
    by (rule parse_loop_record(2) [OF _ _ p1])
      (simp_all only: r(1) find_in_file [OF assms(3)], simp add: r(4))
  ultimately show ?thesis
    by (simp add: parse_image_def header_size_def file_reader_def)
qed

lemma stored_block_read:
  assumes "storable b"
  shows "unat (u16_of (stored_block b @ rest)) = length b + 2"
    and "length (stored_block b) = length b + 2"
    and "drop 2 (stored_block b @ rest) = b @ rest"
proof -
  have "unat (word_of_nat (length b + 2) :: u16) = length b + 2"
    using assms unfolding unat_of_nat by (simp add: storable_def max_stored_len_def)
  then show "unat (u16_of (stored_block b @ rest)) = length b + 2"
    by (simp add: stored_block_def u16_of_def del: of_nat_add of_nat_Suc)
qed (simp_all add: stored_block_def)

lemma decode_stored_block:
  assumes "storable b" "expand_block inflate c b = Ok out"
    and "length pre + length (stored_block b) \<le> end'"
    and "addressable (pre @ stored_block b @ rest)"
  shows "decode_block inflate (file_reader (pre @ stored_block b @ rest)) c end' (length pre) =
    Ok (Some (length pre + length (stored_block b), out))"
proof -
  let ?f = "pre @ stored_block b @ rest"
  note r = stored_block_read(1) [OF assms(1), of rest] stored_block_read(2) [OF assms(1)]
    stored_block_read(3) [OF assms(1), of rest]
  have two: "read_exact (file_reader ?f) (length pre) 2 = Ok (take 2 (stored_block b @ rest))"
    using r(2) by (simp add: read_exact_def file_reader_def)
  have "u16_of (take 2 (stored_block b @ rest)) = u16_of (stored_block b @ rest)"
    by (simp only: u16_of_def take_take min.idem)
  then have len: "unat (u16_of (take 2 (stored_block b @ rest))) = length b + 2" using r(1) by simp
  have "drop (length pre + 2) ?f = drop 2 (drop (length pre) ?f)" by (simp only: drop_drop add.commute)
  then have d: "drop (length pre + 2) ?f = b @ rest" using r(3) by simp
  have data: "read_exact (file_reader ?f) (length pre + 2) (length b) = Ok b"
    unfolding read_exact_def file_reader_def gho_reader.simps d by simp
  have room: "block_room (length b + 2) = Ok (length b)"
    using assms(1) by (simp add: block_room_def storable_def)
  show ?thesis
    using assms r(2) unfolding decode_block_def two and_then.simps len Let_def room
    by (simp add: data [simplified] storable_def addressable_def Suc_le_eq)
qed

lemma decode_stored_blocks:
  assumes "list_all2 (\<lambda>b out. expand_block inflate c b = Ok out) blocks outs"
    and "list_all storable blocks" "tot + length (concat outs) \<le> limit" "limit < 2 ^ 64"
    and "addressable (pre @ partition_data blocks @ post)"
  shows "decode_span inflate (file_reader (pre @ partition_data blocks @ post)) c limit
      (length pre + length (partition_data blocks)) (length pre) (tot, written) =
    Ok (tot + length (concat outs), written @ concat outs)"
  using assms
proof (induction blocks outs arbitrary: pre tot written rule: list_all2_induct)
  case Nil
  then show ?case by (subst decode_span.simps) (simp add: partition_data_def)
next
  case (Cons b bs out outs)
  let ?pd = "partition_data bs"
  let ?pre = "pre @ stored_block b"
  let ?f = "pre @ stored_block b @ ?pd @ post"
  let ?stop = "length pre + length (stored_block b) + length ?pd"
  have s: "storable b" "list_all storable bs" using Cons.prems(1) by simp_all
  have p: "partition_data (b # bs) = stored_block b @ ?pd" by (simp add: partition_data_def)
  have a: "addressable ?f" using Cons.prems(4) by (simp add: p)
  note l = stored_block_read(2) [OF s(1)]
  have d: "decode_block inflate (file_reader ?f) c ?stop (length pre) =
      Ok (Some (length pre + length (stored_block b), out))"
    using decode_stored_block [OF s(1) Cons.hyps(1), of pre ?stop "?pd @ post"] a by simp
  have t: "write_block limit (tot, written) out = Ok (tot + length out, written @ out)"
    using Cons.prems(2,3) expand_block_fits [OF Cons.hyps(1)] by (simp add: write_block_outcome)
  have o: "\<not> (length pre + 2 \<ge> 2 ^ 64 \<or> ?stop < length pre + 2)"
    using a l by (simp add: addressable_def)
  have ih: "decode_span inflate (file_reader ?f) c limit ?stop (length pre + length (stored_block b))
      (tot + length out, written @ out) =
    Ok (tot + length (concat (out # outs)), written @ concat (out # outs))"
    using Cons.IH [of "tot + length out" ?pre "written @ out"] s(2) Cons.prems(2,3) a by (simp add: add.assoc)
  show ?case
    unfolding p using d t o ih
    by (subst decode_span.simps) (simp add: add.assoc)
qed

lemma written_image_decodes:
  assumes "compression_of tag = Ok c" "list_all2 (\<lambda>b out. expand_block inflate c b = Ok out) blocks outs"
    and "list_all storable blocks" "record_free (partition_data blocks)"
    and "length (concat outs) \<le> limit" "limit < 2 ^ 64" "addressable (image_file tag blocks)"
  shows "decode_partition inflate (file_reader (image_file tag blocks)) 1 limit =
    Ok (\<lparr> ii_compression = c, ii_partition_count = 1, ii_source_partition = 1,
          ii_encrypted = False, ii_spanned = False \<rparr>, length (concat outs), concat outs)"
proof -
  have "decode_span inflate (file_reader (image_file tag blocks)) c limit
      (1054 + length (partition_data blocks)) 1054 (0, []) = Ok (length (concat outs), concat outs)"
    using decode_stored_blocks [of inflate c blocks outs 0 limit "image_prologue tag" end_record "[]"]
      assms(2,3,5-7) by (simp add: image_file_def)
  then show ?thesis
    by (simp add: decode_partition_def image_parses [OF assms(1,4,7)])
qed

text \<open>
  C37.  A written image decodes to what was written: with any of the supported
  compressions, an image whose blocks expand to some bytes gives exactly these
  bytes in order, with their number, provided the data contain no byte sequence
  that reads as a record header and the limit is large enough.
\<close>

theorem image_roundtrip:
  assumes "compression_of tag = Ok c" "list_all2 (\<lambda>b out. expand_block inflate c b = Ok out) blocks outs"
    and "list_all storable blocks" "record_free (partition_data blocks)"
    and "length (concat outs) \<le> limit" "limit < 2 ^ 64" "addressable (image_file tag blocks)"
  shows "decode_partition inflate (file_reader (image_file tag blocks)) 1 limit =
    Ok (\<lparr> ii_compression = c, ii_partition_count = 1, ii_source_partition = 1,
          ii_encrypted = False, ii_spanned = False \<rparr>, length (concat outs), concat outs)"
  by (rule written_image_decodes [OF assms])

section \<open>Sample images\<close>

definition sample_blocks :: "bytes list" where
  "sample_blocks = [[1, 0, 0, 0, 104, 105], [1, 0, 0, 0, 33]]"

definition no_inflater :: inflater where
  "no_inflater data got room = Err ()"

lemma sample_blocks_ok:
  "list_all2 (\<lambda>b out. expand_block no_inflater Fast b = Ok out) sample_blocks [[104, 105], [33]]"
  "list_all storable sample_blocks" "compression_of 2 = Ok Fast"
  "addressable (image_file 2 sample_blocks)"
  by (simp_all add: sample_blocks_def expand_block_def fast_lz_def expanded_capacity_def block_size_def
      storable_def raw_block_def max_stored_len_def compression_of_def addressable_def image_file_def
      partition_data_def stored_block_def header_size_def)

lemma sample_data: "partition_data sample_blocks = [8, 0, 1, 0, 0, 0, 104, 105, 7, 0, 1, 0, 0, 0, 33]"
  by (simp add: partition_data_def sample_blocks_def stored_block_def le_bytes_def nat_le_2)

lemma sample_record_free: "record_free (partition_data sample_blocks)"
  by (simp add: record_free_def sample_data upt_rec end_record_def sample_record_def record_header_def
      u32_of_def u16_of_def from_le_def record_magic_def known_record_def)

theorem image_roundtrip_witness:
  "map_ok snd (decode_partition no_inflater (file_reader (image_file 2 sample_blocks)) 1 100) =
     Ok (3, [104, 105, 33])"
  using image_roundtrip [OF sample_blocks_ok(3,1,2) sample_record_free _ _ sample_blocks_ok(4), of 100]
  by simp

theorem partitions_are_disjoint_witness:
  "laid_out 512 1079 [(1054, 1069)]"
proof -
  have l: "length (image_file 2 sample_blocks) = 1079"
    by (simp add: image_file_def sample_data)
  from partitions_are_disjoint [OF image_parses [OF sample_blocks_ok(3) sample_record_free
      sample_blocks_ok(4)] sample_blocks_ok(4)] show ?thesis
    by (simp add: l sample_data)
qed

theorem decoding_is_bounded_witness:
  "case decode_partition no_inflater (file_reader (image_file 2 sample_blocks)) 1 100 of
     Ok (info, tot, out) \<Rightarrow> tot = length out \<and> out = [104, 105, 33] \<and> ii_partition_count info = 1
   | Err e \<Rightarrow> False
   | Panic \<Rightarrow> False"
proof -
  have "decode_partition no_inflater (file_reader (image_file 2 sample_blocks)) 1 100 =
      Ok (\<lparr> ii_compression = Fast, ii_partition_count = 1, ii_source_partition = 1,
          ii_encrypted = False, ii_spanned = False \<rparr>, 3, [104, 105, 33])"
    using written_image_decodes [OF sample_blocks_ok(3,1,2) sample_record_free _ _ sample_blocks_ok(4),
        of 100] by simp
  then show ?thesis
    using decoding_is_bounded [OF sample_blocks_ok(4), of no_inflater 1 100]
    by (simp add: no_inflater_def)
qed

lemma sample_span_image:
  "addressable (joined sample_spans)"
  "decode_partition no_inflater (file_reader (joined sample_spans)) 1 100 = Err (PartitionCount 0)"
proof -
  let ?f = "joined sample_spans"
  show a: "addressable ?f"
    by (simp add: addressable_def joined_sample header_size_def sample_record_def)
  have l: "length ?f = 527" by (simp add: joined_sample sample_record_def)
  have t: "take 512 ?f = sample_span 1 []" by (simp add: joined_sample)
  have h: "parse_header (file_reader ?f) = Ok Fast"
    using l by (simp add: parse_header_def read_exact_def file_reader_def header_size_def t
        compression_of_def sample_span_header image_magic_def [symmetric])
      (simp add: sample_span_def)
  have "find_record (file_reader ?f) 512 527 = Ok (Some (517, 0x23, 0))"
    using find_in_file [OF a, of 512] unfolding l sample_next_record by simp
  moreover have "parse_record (file_reader ?f) 527 (517, 0x23, 0) [] = Ok (Stop [])"
    by (simp add: parse_record_def Let_def record_header_size_def)
  ultimately have "parse_loop (file_reader ?f) 527 512 [] = Ok []"
    by (intro parse_loop_record(1)) simp_all
  with h show "decode_partition no_inflater (file_reader ?f) 1 100 = Err (PartitionCount 0)"
    using l by (simp add: decode_partition_def parse_image_def header_size_def file_reader_def)
qed

theorem spanned_image_decodes_as_joined_witness:
  "decode_partition no_inflater (source_of_spans (\<lambda>i off n. 1, sample_spans)) 1 100 =
     Err (PartitionCount 0)"
  using spanned_image_decodes_as_joined [OF sample_spans_open(2) sample_span_image(1), of no_inflater 1 100]
    sample_span_image(2) by simp

end
