(* ===== verification/Agent_Layout.thy ===== *)
theory Agent_Layout
  imports Deployment_Job Decimal Text_Lines "HOL-Library.Multiset"
begin

text \<open>
  The disk layout an agent derives from its lease before it erases anything
  (\<open>prepare_layout\<close> in \<open>crates/agent/src/deployment.rs\<close>).  A DiskPart script is a
  list of commands and its text; the model keeps both.  Arithmetic that would
  overflow is \<open>Panic\<close>.
\<close>

section \<open>Scripts\<close>

datatype partition_kind = Kind_Efi | Kind_Msr | Kind_Primary | Kind_Logical

datatype diskpart_command =
    Select_Disk u32
  | Clean
  | Convert partition_table
  | Create_Partition partition_kind u64
  | Create_Extended
  | Format_Quick partition_file_system string
  | Active
  | Assign_Letter code_point
  | Select_Volume code_point
  | Delete_Volume
  | Extend
  | Exit_Script

fun kind_text :: "partition_kind \<Rightarrow> string" where
  "kind_text Kind_Efi = ''efi''"
| "kind_text Kind_Msr = ''msr''"
| "kind_text Kind_Primary = ''primary''"
| "kind_text Kind_Logical = ''logical''"

fun table_text :: "partition_table \<Rightarrow> string" where
  "table_text Gpt = ''gpt''"
| "table_text Mbr = ''mbr''"

fun file_system_text :: "partition_file_system \<Rightarrow> string" where
  "file_system_text Fat32 = ''fat32''"
| "file_system_text Ntfs = ''ntfs''"

text \<open>The letters that reach a script are ASCII, one byte each.\<close>

definition letter_text :: "code_point \<Rightarrow> string" where "letter_text c = [char_of c]"

definition letter :: "char \<Rightarrow> code_point" where "letter c = byte c"

fun command_text :: "diskpart_command \<Rightarrow> string" where
  "command_text (Select_Disk n) = ''select disk '' @ dec (unat n)"
| "command_text Clean = ''clean''"
| "command_text (Convert t) = ''convert '' @ table_text t"
| "command_text (Create_Partition k n) = ''create partition '' @ kind_text k @ '' size='' @ dec (unat n)"
| "command_text Create_Extended = ''create partition extended''"
| "command_text (Format_Quick fs l) =
     ''format quick fs='' @ file_system_text fs @ '' label='' @ [CHR 0x22] @ l @ [CHR 0x22]"
| "command_text Active = ''active''"
| "command_text (Assign_Letter c) = ''assign letter='' @ letter_text c"
| "command_text (Select_Volume c) = ''select volume '' @ letter_text c"
| "command_text Delete_Volume = ''delete volume''"
| "command_text Extend = ''extend''"
| "command_text Exit_Script = ''exit''"

definition script_text :: "diskpart_command list \<Rightarrow> string" where
  "script_text cs = unlines (map command_text cs)"

section \<open>The layout\<close>

datatype layout_error =
    Plan_Rejected partition_plan_error
  | Zero_Image_Index
  | Recovery_Unsupported
  | Disk_Too_Small partition_capacity_error
  | Payload_Too_Large windows_payload_capacity_error
  | Not_A_Physical_Drive
  | Bad_Drive_Number
  | No_Remaining_Partition
  | Extended_Without_Data
  | Data_Not_Last
  | Partition_Number_Overflow
  | Unsupported_Image_Format

record prepared_layout =
  pl_prepare :: "diskpart_command list"
  pl_cleanup :: "diskpart_command list"
  pl_image_path :: string
  pl_firmware :: string
  pl_disk_number :: u32
  pl_windows_partition :: u32

definition prepare_script :: "prepared_layout \<Rightarrow> string" where
  "prepare_script l = script_text (pl_prepare l)"

definition cleanup_script :: "prepared_layout \<Rightarrow> string" where
  "cleanup_script l = script_text (pl_cleanup l)"

definition physical_drive_prefix :: string where
  "physical_drive_prefix = [CHR 0x5C, CHR 0x5C, CHR ''.'', CHR 0x5C] @ ''physicaldrive''"

definition physical_drive_number :: "string \<Rightarrow> (layout_error, u32) outcome" where
  "physical_drive_number i =
     and_then (ok_or (strip_prefix physical_drive_prefix (map to_lower (trim i))) Not_A_Physical_Drive)
       (\<lambda>digits. ok_or (u32_from_str digits) Bad_Drive_Number)"

fun or_panic :: "'a option \<Rightarrow> ('e, 'a) outcome" where
  "or_panic (Some x) = Ok x"
| "or_panic None = Panic"

text \<open>\<open>Iterator::sum\<close>\<close>

fun checked_sum :: "u64 \<Rightarrow> u64 list \<Rightarrow> u64 option" where
  "checked_sum a [] = Some a"
| "checked_sum a (x # xs) = (case checked_add a x of None \<Rightarrow> None | Some b \<Rightarrow> checked_sum b xs)"

definition check_lease_capacity :: "agent_job_lease \<Rightarrow> disk \<Rightarrow> (layout_error, unit) outcome" where
  "check_lease_capacity lease d =
     (let plan = ajl_partition_plan lease; img = adi_size_bytes (ajl_image lease) in
      and_then (map_err Plan_Rejected (validate plan)) (\<lambda>_.
      if adi_index (ajl_image lease) = 0 then Err Zero_Image_Index
      else if list_ex (\<lambda>p. part_role p = Recovery) (plan_partitions plan) then Err Recovery_Unsupported
      else and_then (map_err Disk_Too_Small (validate_capacity plan (disk_size_bytes d) img)) (\<lambda>_.
        case ajl_gho lease of
          None \<Rightarrow> Ok ()
        | Some g \<Rightarrow> map_err Payload_Too_Large
            (validate_windows_payload_capacity plan (disk_size_bytes d) img (agd_expanded_size_bytes g)))))"

text \<open>What the open partition gets.\<close>

definition remaining_mib :: "partition_spec list \<Rightarrow> u64 \<Rightarrow> u64 \<Rightarrow> (layout_error, u64) outcome" where
  "remaining_mib ps disk_bytes image_bytes =
     and_then (or_panic (checked_sum 0 (List.map_filter part_size_mib ps))) (\<lambda>fixed.
     and_then (or_panic (checked_sub (disk_bytes div mib_bytes) fixed)) (\<lambda>r1.
     and_then (or_panic (checked_sub r1 (cache_size_mib image_bytes))) (\<lambda>r2.
     or_panic (checked_sub r2 partition_alignment_headroom_mib))))"

definition is_data :: "partition_spec \<Rightarrow> bool" where "is_data p = (part_role p = Data)"

definition uses_extended :: "partition_plan \<Rightarrow> bool" where
  "uses_extended plan = (plan_table plan = Mbr \<and> length (filter is_data (plan_partitions plan)) + 3 > 4)"

definition check_extended :: "partition_plan \<Rightarrow> (layout_error, unit) outcome" where
  "check_extended plan =
     (if uses_extended plan
      then (case dropWhile (\<lambda>p. \<not> is_data p) (plan_partitions plan) of
              [] \<Rightarrow> Err Extended_Without_Data
            | ps \<Rightarrow> if list_ex (\<lambda>p. \<not> is_data p) ps then Err Data_Not_Last else Ok ())
      else Ok ())"

definition kind_of :: "bool \<Rightarrow> partition_spec \<Rightarrow> partition_kind" where
  "kind_of extended p =
     (if extended \<and> is_data p then Kind_Logical
      else case part_role p of Efi \<Rightarrow> Kind_Efi | Msr \<Rightarrow> Kind_Msr | _ \<Rightarrow> Kind_Primary)"

definition data_letter :: "partition_spec \<Rightarrow> code_point" where
  "data_letter p =
     upper_letter (case part_drive_letter p of None \<Rightarrow> letter (CHR ''D'') | Some c \<Rightarrow> c)"

definition role_commands :: "partition_table \<Rightarrow> partition_spec \<Rightarrow> diskpart_command list" where
  "role_commands table p =
     (case part_role p of
        Efi \<Rightarrow> [Assign_Letter (letter (CHR ''S''))]
      | System \<Rightarrow> (if table = Mbr then [Active] else []) @ [Assign_Letter (letter (CHR ''S''))]
      | Windows \<Rightarrow> [Assign_Letter (letter (CHR ''W''))]
      | Data \<Rightarrow> [Assign_Letter (data_letter p)]
      | _ \<Rightarrow> [])"

definition partition_commands ::
  "bool \<Rightarrow> partition_table \<Rightarrow> u64 \<Rightarrow> bool \<Rightarrow> partition_spec \<Rightarrow> diskpart_command list" where
  "partition_commands extended table remaining created p =
     (if extended \<and> is_data p \<and> \<not> created then [Create_Extended] else []) @
     [Create_Partition (kind_of extended p)
        (case part_size_mib p of None \<Rightarrow> remaining | Some n \<Rightarrow> n)] @
     (case part_file_system p of None \<Rightarrow> [] | Some fs \<Rightarrow> [Format_Quick fs (part_label p)]) @
     role_commands table p"

text \<open>The loop over the partitions: index, whether the extended partition exists, Windows' number.\<close>

fun layout_loop ::
  "bool \<Rightarrow> partition_table \<Rightarrow> u64 \<Rightarrow> nat \<Rightarrow> bool \<Rightarrow> u32 \<Rightarrow> partition_spec list \<Rightarrow>
   (layout_error, diskpart_command list \<times> u32) outcome" where
  "layout_loop extended table remaining i created w [] = Ok ([], w)"
| "layout_loop extended table remaining i created w (p # ps) =
     (if part_role p = Windows \<and> i + 1 \<ge> 2 ^ 32 then Err Partition_Number_Overflow
      else map_ok (\<lambda>(cs, w). (partition_commands extended table remaining created p @ cs, w))
        (layout_loop extended table remaining (i + 1) (created \<or> (extended \<and> is_data p))
          (if part_role p = Windows then word_of_nat (i + 1) else w) ps))"

definition cache_commands :: "bool \<Rightarrow> u64 \<Rightarrow> diskpart_command list" where
  "cache_commands extended cache =
     [Create_Partition (if extended then Kind_Logical else Kind_Primary) cache,
      Format_Quick Ntfs ''EasyDeployMesh Cache'', Assign_Letter (letter (CHR ''R'')), Exit_Script]"

definition extend_letter :: "partition_spec \<Rightarrow> code_point" where
  "extend_letter p =
     (if part_role p = Data
      then (case part_drive_letter p of None \<Rightarrow> letter (CHR ''D'') | Some c \<Rightarrow> c)
      else letter (CHR ''W''))"

fun image_extension :: "image_format \<Rightarrow> string option" where
  "image_extension Wim = Some ''wim''"
| "image_extension Esd = Some ''esd''"
| "image_extension Gho = Some ''gho''"
| "image_extension _ = None"

definition prepare_layout :: "agent_job_lease \<Rightarrow> disk \<Rightarrow> (layout_error, prepared_layout) outcome" where
  "prepare_layout lease d =
     (let plan = ajl_partition_plan lease; ps = plan_partitions plan; table = plan_table plan;
          extended = uses_extended plan; cache = cache_size_mib (adi_size_bytes (ajl_image lease)) in
      and_then (check_lease_capacity lease d) (\<lambda>_.
      and_then (physical_drive_number (disk_id d)) (\<lambda>n.
      and_then (ok_or (find (\<lambda>p. part_size_mib p = None) ps) No_Remaining_Partition) (\<lambda>rest.
      and_then (remaining_mib ps (disk_size_bytes d) (adi_size_bytes (ajl_image lease))) (\<lambda>remaining.
      and_then (check_extended plan) (\<lambda>_.
      and_then (layout_loop extended table remaining 0 False 0 ps) (\<lambda>(cs, w).
      and_then (ok_or (image_extension (adi_format (ajl_image lease))) Unsupported_Image_Format) (\<lambda>ext.
      Ok \<lparr> pl_prepare = [Select_Disk n, Clean, Convert table] @ cs @ cache_commands extended cache,
           pl_cleanup = [Select_Disk n, Select_Volume (letter (CHR ''R'')), Delete_Volume,
             Select_Volume (extend_letter rest), Extend, Exit_Script],
           pl_image_path = ''R:'' @ [CHR 0x5C] @ ''EasyDeployMesh'' @ [CHR 0x5C] @ ''image.'' @ ext,
           pl_firmware = (case table of Gpt \<Rightarrow> ''UEFI'' | Mbr \<Rightarrow> ''BIOS''),
           pl_disk_number = n, pl_windows_partition = w \<rparr>))))))))"

section \<open>Arithmetic\<close>

lemma or_panic_iffs [outcome_simps]:
  "or_panic v = Ok x \<longleftrightarrow> v = Some x" "or_panic v \<noteq> Err e" "or_panic v = Panic \<longleftrightarrow> v = None"
  by (cases v; simp)+

lemma checked_sum_Some:
  "unat a + sum_list (map unat xs) < 2 ^ 64 \<Longrightarrow>
     \<exists>s. checked_sum a xs = Some s \<and> unat s = unat a + sum_list (map unat xs)"
proof (induction xs arbitrary: a)
  case (Cons x xs)
  then have "unat a + unat x < 2 ^ 64" by simp
  then have b: "checked_add a x = Some (a + x)" "unat (a + x) = unat a + unat x"
    by (simp_all add: checked_add_def unat_word_ariths)
  have "unat (a + x) + sum_list (map unat xs) < 2 ^ 64" using Cons.prems b(2) by simp
  from Cons.IH [OF this] b show ?case by auto
qed simp

lemma checked_sub_Some: "unat b \<le> unat a \<Longrightarrow> checked_sub a b = Some (a - b) \<and> unat (a - b) = unat a - unat b"
  by (simp add: checked_sub_def word_le_nat_alt unat_sub)

text \<open>When the capacity check passed, nothing overflows and the open partition gets all that is left.\<close>

lemma remaining_exact:
  assumes "validate_capacity plan d img = Ok u"
  shows "\<exists>r. remaining_mib (plan_partitions plan) d img = Ok r \<and>
    unat r + fixed_total (plan_partitions plan) + cache_total img + 32 = unat d div 1048576 \<and>
    unat (remaining_minimum_mib (plan_partitions plan)) \<le> unat r"
proof -
  let ?ps = "plan_partitions plan" and ?d = "d div mib_bytes"
  have fits: "fixed_total ?ps + cache_total img + unat (remaining_minimum_mib ?ps) + 32 \<le> unat ?d"
    using assms by (simp add: validate_capacity_Ok unat_disk_mib)
  have "unat (0 :: u64) + sum_list (map unat (List.map_filter part_size_mib ?ps)) < 2 ^ 64"
    using fits unsigned_less [of ?d, where 'a = nat] by (simp add: fixed_total_def)
  from checked_sum_Some [OF this] obtain f where f: "checked_sum 0 (List.map_filter part_size_mib ?ps) = Some f"
      "unat f = fixed_total ?ps"
    by (auto simp: fixed_total_def)
  let ?r1 = "?d - f"
  have r1: "checked_sub ?d f = Some ?r1" "unat ?r1 = unat ?d - fixed_total ?ps"
    using checked_sub_Some [of f ?d] f fits by simp_all
  let ?r2 = "?r1 - cache_size_mib img"
  have r2: "checked_sub ?r1 (cache_size_mib img) = Some ?r2" "unat ?r2 = unat ?d - fixed_total ?ps - cache_total img"
    using checked_sub_Some [of "cache_size_mib img" ?r1] r1 fits by (simp_all add: unat_cache_size)
  let ?r = "?r2 - partition_alignment_headroom_mib"
  have r: "checked_sub ?r2 partition_alignment_headroom_mib = Some ?r" "unat ?r = unat ?r2 - 32"
    using checked_sub_Some [of partition_alignment_headroom_mib ?r2] r2 fits by simp_all
  have "remaining_mib ?ps d img = Ok ?r" by (simp add: remaining_mib_def f r1 r2 r)
  moreover have "unat ?r + fixed_total ?ps + cache_total img + 32 = unat ?d"
    "unat (remaining_minimum_mib ?ps) \<le> unat ?r"
    using r(2) r2(2) fits by simp_all
  ultimately show ?thesis by (auto simp: unat_disk_mib)
qed

section \<open>Sizes\<close>

fun created_mib :: "diskpart_command \<Rightarrow> nat" where
  "created_mib (Create_Partition k n) = unat n"
| "created_mib _ = 0"

definition total_mib :: "diskpart_command list \<Rightarrow> nat" where
  "total_mib cs = sum_list (map created_mib cs)"

lemma total_mib_simps [simp]:
  "total_mib [] = 0" "total_mib (c # cs) = created_mib c + total_mib cs"
  "total_mib (cs @ ds) = total_mib cs + total_mib ds"
  by (simp_all add: total_mib_def)

lemma total_partition:
  "total_mib (partition_commands extended table remaining created p) =
     (case part_size_mib p of None \<Rightarrow> unat remaining | Some n \<Rightarrow> unat n)"
  by (cases "part_role p")
    (auto simp: partition_commands_def role_commands_def split: option.splits)

lemma total_loop:
  "layout_loop extended table remaining i created w ps = Ok (cs, w') \<Longrightarrow>
     total_mib cs = fixed_total ps + length (filter (\<lambda>p. part_size_mib p = None) ps) * unat remaining"
proof (induction ps arbitrary: i created w cs w')
  case Nil
  then show ?case by (simp add: fixed_total_def)
next
  case (Cons p ps)
  from Cons.prems obtain ds where ds: "cs = partition_commands extended table remaining created p @ ds"
      "layout_loop extended table remaining (i + 1) (created \<or> (extended \<and> is_data p))
         (if part_role p = Windows then word_of_nat (i + 1) else w) ps = Ok (ds, w')"
    by (auto simp: outcome_simps split: if_splits)
  from Cons.IH [OF ds(2)] show ?case
    by (cases "part_size_mib p") (simp_all add: ds(1) total_partition fixed_total_def List.map_filter_def)
qed

lemma loop_creates:
  "layout_loop extended table remaining i created w ps = Ok (cs, w') \<Longrightarrow>
     p \<in> set ps \<Longrightarrow> part_size_mib p = None \<Longrightarrow> \<exists>k. Create_Partition k remaining \<in> set cs"
proof (induction ps arbitrary: i created w cs w')
  case (Cons q ps)
  from Cons.prems(1) obtain ds where ds: "cs = partition_commands extended table remaining created q @ ds"
      "layout_loop extended table remaining (i + 1) (created \<or> (extended \<and> is_data q))
         (if part_role q = Windows then word_of_nat (i + 1) else w) ps = Ok (ds, w')"
    by (auto simp: outcome_simps split: if_splits)
  show ?case
  proof (cases "p = q")
    case True
    then show ?thesis using Cons.prems(3) by (auto simp: ds(1) partition_commands_def)
  next
    case False
    then show ?thesis using Cons.IH [OF ds(2)] Cons.prems(2,3) by (auto simp: ds(1))
  qed
qed simp

lemma layout_loop_no_panic [simp]: "layout_loop extended table remaining i created w ps \<noteq> Panic"
  by (induction ps arbitrary: i created w) (auto simp: outcome_simps)

lemma check_lease_Ok:
  assumes "check_lease_capacity lease d = Ok u"
  shows "well_formed_plan (ajl_partition_plan lease) \<and>
    of_role Recovery (plan_partitions (ajl_partition_plan lease)) = [] \<and>
    validate_capacity (ajl_partition_plan lease) (disk_size_bytes d) (adi_size_bytes (ajl_image lease)) = Ok ()"
  using assms by (auto simp: check_lease_capacity_def Let_def outcome_simps validate_Ok_iff of_role_empty
      split: if_splits)

text \<open>All parts of a layout that was prepared.\<close>

lemma prepared:
  assumes "prepare_layout lease d = Ok l"
  defines "plan \<equiv> ajl_partition_plan lease"
  obtains n rest r cs w where
    "well_formed_plan plan" "of_role Recovery (plan_partitions plan) = []" "physical_drive_number (disk_id d) = Ok n"
    "find (\<lambda>p. part_size_mib p = None) (plan_partitions plan) = Some rest"
    "remaining_mib (plan_partitions plan) (disk_size_bytes d) (adi_size_bytes (ajl_image lease)) =
       Ok r"
    "unat r + fixed_total (plan_partitions plan) + cache_total (adi_size_bytes (ajl_image lease)) + 32 =
       unat (disk_size_bytes d) div 1048576"
    "unat (remaining_minimum_mib (plan_partitions plan)) \<le> unat r"
    "check_extended plan = Ok ()"
    "layout_loop (uses_extended plan) (plan_table plan) r 0 False 0 (plan_partitions plan) = Ok (cs, w)"
    "pl_prepare l = [Select_Disk n, Clean, Convert (plan_table plan)] @ cs @
       cache_commands (uses_extended plan) (cache_size_mib (adi_size_bytes (ajl_image lease)))"
    "pl_cleanup l = [Select_Disk n, Select_Volume (letter (CHR ''R'')), Delete_Volume,
       Select_Volume (extend_letter rest), Extend, Exit_Script]"
    "pl_disk_number l = n" "pl_windows_partition l = w"
proof -
  from assms(1) obtain u n rest r cs w ext where *: "check_lease_capacity lease d = Ok u"
    "physical_drive_number (disk_id d) = Ok n"
    "find (\<lambda>p. part_size_mib p = None) (plan_partitions plan) = Some rest"
    "remaining_mib (plan_partitions plan) (disk_size_bytes d) (adi_size_bytes (ajl_image lease)) =
       Ok r"
    "check_extended plan = Ok ()"
    "layout_loop (uses_extended plan) (plan_table plan) r 0 False 0 (plan_partitions plan) = Ok (cs, w)"
    "l = \<lparr> pl_prepare = [Select_Disk n, Clean, Convert (plan_table plan)] @ cs @
             cache_commands (uses_extended plan) (cache_size_mib (adi_size_bytes (ajl_image lease))),
           pl_cleanup = [Select_Disk n, Select_Volume (letter (CHR ''R'')), Delete_Volume,
             Select_Volume (extend_letter rest), Extend, Exit_Script],
           pl_image_path = ''R:'' @ [CHR 0x5C] @ ''EasyDeployMesh'' @ [CHR 0x5C] @ ''image.'' @ ext,
           pl_firmware = (case plan_table plan of Gpt \<Rightarrow> ''UEFI'' | Mbr \<Rightarrow> ''BIOS''),
           pl_disk_number = n, pl_windows_partition = w \<rparr>"
    by (auto simp: prepare_layout_def Let_def outcome_simps plan_def)
  note c = check_lease_Ok [OF *(1), folded plan_def]
  from remaining_exact [of plan "disk_size_bytes d" "adi_size_bytes (ajl_image lease)" "()"] c *(4)
  have "unat r + fixed_total (plan_partitions plan) + cache_total (adi_size_bytes (ajl_image lease)) + 32 =
       unat (disk_size_bytes d) div 1048576"
    "unat (remaining_minimum_mib (plan_partitions plan)) \<le> unat r"
    by auto
  with that c * show thesis by simp
qed

lemma one_remaining: "well_formed_plan plan \<Longrightarrow>
    length (filter (\<lambda>p. part_size_mib p = None) (plan_partitions plan)) = 1"
  by (simp add: well_formed_plan_def Let_def)

text \<open>
  C15.  A prepared layout allocates the disk exactly: the partitions its script
  creates, the cache included, take all the disk's MiB but the 32 reserved for
  alignment.  None of the subtractions wraps, and the open partition gets at
  least its minimum.
\<close>

theorem layout_fills_disk:
  assumes "prepare_layout lease d = Ok l"
  shows "total_mib (pl_prepare l) + 32 = unat (disk_size_bytes d) div 1048576 \<and>
    (\<exists>k n. Create_Partition k n \<in> set (pl_prepare l) \<and>
       unat (remaining_minimum_mib (plan_partitions (ajl_partition_plan lease))) \<le> unat n)"
  using assms
proof (cases rule: prepared)
  case (1 n rest r cs w)
  have "total_mib cs = fixed_total (plan_partitions (ajl_partition_plan lease)) + unat r"
    using total_loop [OF 1(9)] one_remaining [OF 1(1)] by simp
  then have "total_mib (pl_prepare l) + 32 = unat (disk_size_bytes d) div 1048576"
    using 1(6) by (simp add: 1(10) cache_commands_def unat_cache_size)
  moreover have "\<exists>k. Create_Partition k r \<in> set cs"
    using loop_creates [OF 1(9)] 1(4) by (blast dest: find_Some_in)
  ultimately show ?thesis using 1(7) by (auto simp: 1(10))
qed

section \<open>The text of the scripts\<close>

lemma digits_are_plain: "list_all is_digit s \<Longrightarrow> plain s"
  by (induction s) (auto simp: plain_char_def newline_def return_def is_digit_def byte_def)

lemma dec_plain [simp]: "plain (dec n)"
  by (rule digits_are_plain [OF dec_digits])

lemma label_plain: "list_all label_char_ok s \<Longrightarrow> plain s"
  by (induction s)
    (auto simp: plain_char_def newline_def return_def label_char_ok_def is_alnum_def is_digit_def
      is_upper_def is_lower_def byte_def)

lemma letter_plain: "32 \<le> c \<Longrightarrow> c < 256 \<Longrightarrow> plain (letter_text c)"
  by (auto simp: letter_text_def plain_char_def newline_def return_def dest!: arg_cong [where f = "of_char :: char \<Rightarrow> nat"])

fun letter_printable :: "diskpart_command \<Rightarrow> bool" where
  "letter_printable (Assign_Letter c) = (32 \<le> c \<and> c < 256)"
| "letter_printable (Select_Volume c) = (32 \<le> c \<and> c < 256)"
| "letter_printable (Format_Quick fs l) = list_all label_char_ok l"
| "letter_printable c = True"

lemma command_plain: "letter_printable c \<Longrightarrow> plain (command_text c)"
proof (cases c)
  case (Convert t)
  then show ?thesis by (cases t) (simp_all add: plain_char_def newline_def return_def)
next
  case (Create_Partition k n)
  then show ?thesis by (cases k) (simp_all add: plain_char_def newline_def return_def)
next
  case (Format_Quick fs l)
  moreover assume "letter_printable c"
  ultimately show ?thesis
    by (cases fs) (simp_all add: plain_char_def newline_def return_def label_plain)
qed (simp_all add: plain_char_def newline_def return_def letter_plain)

lemma script_lines: "list_all letter_printable cs \<Longrightarrow> text_lines (script_text cs) = map command_text cs"
  using text_lines_unlines [of "map command_text cs" "[]"]
  by (simp add: script_text_def list.pred_map list_all_iff command_plain text_lines_def)

lemma letters_printable [simp]:
  "32 \<le> letter (CHR ''S'')" "letter (CHR ''S'') < 256" "32 \<le> letter (CHR ''W'')" "letter (CHR ''W'') < 256"
  "32 \<le> letter (CHR ''R'')" "letter (CHR ''R'') < 256"
  by (simp_all add: letter_def byte_def)

lemma data_letter_assignable:
  assumes "spec_ok p"
  shows "assignable_letter (data_letter p)"
  using assms
  by (auto simp: data_letter_def spec_ok_def letter_def byte_def upper_letter_def assignable_letter_def
      split: option.splits)

lemma assignable_printable: "assignable_letter c \<Longrightarrow> 32 \<le> c \<and> c < 256"
  by (auto simp: assignable_letter_def)

lemma extend_letter_printable:
  assumes "spec_ok p"
  shows "32 \<le> extend_letter p \<and> extend_letter p < 256"
  using assms
  by (auto simp: extend_letter_def spec_ok_def letter_def byte_def upper_letter_def assignable_letter_def
      split: option.splits if_splits)

lemma partition_printable:
  "spec_ok p \<Longrightarrow> list_all letter_printable (partition_commands extended table remaining created p)"
  using data_letter_assignable [of p] assignable_printable [of "data_letter p"]
  by (cases "part_role p") (auto simp: partition_commands_def role_commands_def spec_ok_def split: option.splits)

lemma loop_printable:
  "layout_loop extended table remaining i created w ps = Ok (cs, w') \<Longrightarrow> list_all spec_ok ps \<Longrightarrow>
     list_all letter_printable cs"
proof (induction ps arbitrary: i created w cs w')
  case (Cons p ps)
  then show ?case
    by (auto simp: outcome_simps partition_printable split: if_splits)
qed simp

lemma plan_specs: "well_formed_plan plan \<Longrightarrow> list_all spec_ok (plan_partitions plan)"
  by (simp add: well_formed_plan_def Let_def)

text \<open>
  C16.  The scripts DiskPart reads contain the intended commands, one per line,
  and nothing else: no label and no drive letter an operator chose adds a line.
\<close>

theorem scripts_are_their_commands:
  assumes "prepare_layout lease d = Ok l"
  shows "text_lines (prepare_script l) = map command_text (pl_prepare l) \<and>
    text_lines (cleanup_script l) = map command_text (pl_cleanup l)"
  using assms
proof (cases rule: prepared)
  case (1 n rest r cs w)
  note ok = plan_specs [OF 1(1)]
  from ok 1(4) have rest: "spec_ok rest" by (auto simp: list_all_iff dest: find_Some_in)
  have "list_all letter_printable (pl_prepare l)"
    using loop_printable [OF 1(9) ok]
    by (simp add: 1(10) cache_commands_def label_char_ok_def is_alnum_def is_digit_def is_upper_def
        is_lower_def byte_def)
  moreover have "list_all letter_printable (pl_cleanup l)"
    using extend_letter_printable [OF rest] by (simp add: 1(11))
  ultimately show ?thesis
    by (simp add: prepare_script_def cleanup_script_def script_lines)
qed

section \<open>Slots of an MBR disk\<close>

text \<open>What takes one of the four entries of the table.\<close>

fun takes_slot :: "diskpart_command \<Rightarrow> bool" where
  "takes_slot (Create_Partition k n) = (k \<noteq> Kind_Logical)"
| "takes_slot Create_Extended = True"
| "takes_slot c = False"

text \<open>At most one extended partition, and no logical one before it.\<close>

fun logical_inside :: "bool \<Rightarrow> diskpart_command list \<Rightarrow> bool" where
  "logical_inside open [] = True"
| "logical_inside open (c # cs) =
     (case c of
        Create_Extended \<Rightarrow> \<not> open \<and> logical_inside True cs
      | Create_Partition k n \<Rightarrow> (k = Kind_Logical \<longrightarrow> open) \<and> logical_inside open cs
      | _ \<Rightarrow> logical_inside open cs)"

lemma kind_logical [simp]: "kind_of extended p = Kind_Logical \<longleftrightarrow> extended \<and> is_data p"
  by (cases "part_role p") (simp_all add: kind_of_def is_data_def)

lemma slots_partition:
  "length (filter takes_slot (partition_commands extended table remaining created p)) =
     (if extended \<and> is_data p then (if created then 0 else 1) else 1)"
  by (cases "part_role p")
    (auto simp: partition_commands_def role_commands_def split: option.splits)

lemma inside_partition:
  assumes "created \<Longrightarrow> extended"
  shows "logical_inside created (partition_commands extended table remaining created p @ cs) =
    logical_inside (created \<or> (extended \<and> is_data p)) cs"
  using assms
  by (cases "part_role p"; cases created)
    (auto simp: partition_commands_def role_commands_def is_data_def split: option.splits)

lemma loop_slots:
  "layout_loop extended table remaining i created w ps = Ok (cs, w') \<Longrightarrow> (created \<Longrightarrow> extended) \<Longrightarrow>
     length (filter takes_slot cs) =
       (if extended then length (filter (\<lambda>p. \<not> is_data p) ps) + (if \<not> created \<and> list_ex is_data ps then 1 else 0)
        else length ps) \<and>
     logical_inside created (cs @ ds) = logical_inside (created \<or> (extended \<and> list_ex is_data ps)) ds"
proof (induction ps arbitrary: i created w cs w')
  case (Cons p ps)
  from Cons.prems(1) obtain cs' where c: "cs = partition_commands extended table remaining created p @ cs'"
      "layout_loop extended table remaining (i + 1) (created \<or> (extended \<and> is_data p))
         (if part_role p = Windows then word_of_nat (i + 1) else w) ps = Ok (cs', w')"
    by (auto simp: outcome_simps split: if_splits)
  have "created \<or> (extended \<and> is_data p) \<Longrightarrow> extended" using Cons.prems(2) by auto
  note IH = Cons.IH [OF c(2) this]
  show ?case
    using IH Cons.prems(2) by (auto simp: c(1) slots_partition inside_partition)
qed simp

lemma count_roles:
  "length ps = length (of_role Efi ps) + length (of_role Msr ps) + length (of_role System ps) +
     length (of_role Windows ps) + length (of_role Recovery ps) + length (of_role Data ps)"
  unfolding of_role_def
proof (induction ps)
  case (Cons p ps)
  then show ?case by (cases "part_role p") simp_all
qed simp

lemma of_role_filter: "of_role r (filter P ps) = filter P (of_role r ps)"
  unfolding of_role_def by (induction ps) auto

lemma mbr_roles:
  assumes "well_formed_plan plan" "of_role Recovery (plan_partitions plan) = []" "plan_table plan = Mbr"
  shows "length (plan_partitions plan) = 2 + length (filter is_data (plan_partitions plan))"
    "length (filter (\<lambda>p. \<not> is_data p) (plan_partitions plan)) = 2"
proof -
  let ?ps = "plan_partitions plan"
  from assms have roles: "length (of_role Efi ?ps) = 0" "length (of_role Msr ?ps) = 0"
    "length (of_role System ?ps) = 1" "length (of_role Windows ?ps) = 1" "length (of_role Recovery ?ps) = 0"
    by (simp_all add: well_formed_plan_def Let_def sole_with_file_system_def)
  have d: "length (of_role Data ?ps) = length (filter is_data ?ps)"
    by (simp add: of_role_def is_data_def [abs_def])
  then show l: "length ?ps = 2 + length (filter is_data ?ps)" using count_roles [of ?ps] roles by simp
  have "length (filter is_data ?ps) + length (filter (\<lambda>p. \<not> is_data p) ?ps) = length ?ps"
    by (rule sum_length_filter_compl)
  with l show "length (filter (\<lambda>p. \<not> is_data p) ?ps) = 2" by simp
qed

text \<open>
  An MBR layout fits the four entries of the partition table, the cache
  included: the primary partitions and the extended one are at most four, there
  is at most one extended partition, and logical partitions come after it.
\<close>

theorem mbr_layout_fits_table:
  assumes "prepare_layout lease d = Ok l" "plan_table (ajl_partition_plan lease) = Mbr"
  shows "length (filter takes_slot (pl_prepare l)) \<le> 4 \<and> logical_inside False (pl_prepare l)"
  using assms(1)
proof (cases rule: prepared)
  case (1 n rest r cs w)
  let ?plan = "ajl_partition_plan lease" and ?ps = "plan_partitions (ajl_partition_plan lease)"
  note roles = mbr_roles [OF 1(1,2) assms(2)]
  have some: "uses_extended ?plan \<Longrightarrow> list_ex is_data ?ps"
    using filter_empty_conv [of is_data ?ps] by (auto simp: uses_extended_def list_ex_iff)
  have few: "\<not> uses_extended ?plan \<Longrightarrow> length (filter is_data ?ps) \<le> 1"
    using assms(2) by (simp add: uses_extended_def)
  note slots = loop_slots [OF 1(9), of "cache_commands (uses_extended ?plan)
      (cache_size_mib (adi_size_bytes (ajl_image lease)))"]
  show ?thesis
    using slots roles some few by (auto simp: 1(10) cache_commands_def)
qed

section \<open>Letters\<close>

fun assigned_letters :: "diskpart_command list \<Rightarrow> code_point list" where
  "assigned_letters [] = []"
| "assigned_letters (Assign_Letter c # cs) = c # assigned_letters cs"
| "assigned_letters (_ # cs) = assigned_letters cs"

lemma assigned_append [simp]: "assigned_letters (cs @ ds) = assigned_letters cs @ assigned_letters ds"
  by (induction cs rule: assigned_letters.induct) simp_all

definition letter_for :: "partition_spec \<Rightarrow> code_point list" where
  "letter_for p =
     (case part_role p of
        Efi \<Rightarrow> [letter (CHR ''S'')] | System \<Rightarrow> [letter (CHR ''S'')] | Windows \<Rightarrow> [letter (CHR ''W'')]
      | Data \<Rightarrow> [data_letter p] | _ \<Rightarrow> [])"

lemma letters_partition:
  "assigned_letters (partition_commands extended table remaining created p) = letter_for p"
  by (cases "part_role p")
    (auto simp: partition_commands_def role_commands_def letter_for_def split: option.splits)

lemma letters_loop:
  "layout_loop extended table remaining i created w ps = Ok (cs, w') \<Longrightarrow>
     assigned_letters cs = concat (map letter_for ps)"
proof (induction ps arbitrary: i created w cs w')
  case (Cons p ps)
  then show ?case
    by (fastforce simp: outcome_simps letters_partition split: if_splits)
qed simp

lemma letters_prepared:
  assumes "prepare_layout lease d = Ok l"
  shows "assigned_letters (pl_prepare l) =
    concat (map letter_for (plan_partitions (ajl_partition_plan lease))) @ [letter (CHR ''R'')]"
  using assms
proof (cases rule: prepared)
  case (1 n rest r cs w)
  then show ?thesis by (simp add: letters_loop [OF 1(9)] cache_commands_def)
qed

lemma letters_by_role:
  "mset (concat (map letter_for ps)) =
     replicate_mset (length (of_role Efi ps) + length (of_role System ps)) (letter (CHR ''S'')) +
     replicate_mset (length (of_role Windows ps)) (letter (CHR ''W'')) +
     mset (map data_letter (filter is_data ps))"
  unfolding of_role_def
proof (induction ps)
  case (Cons p ps)
  then show ?case by (cases "part_role p") (simp_all add: letter_for_def is_data_def)
qed simp

lemma letters_well_formed:
  assumes "well_formed_plan plan"
  shows "mset (concat (map letter_for (plan_partitions plan))) =
    mset (letter (CHR ''S'') # letter (CHR ''W'') # map data_letter (filter is_data (plan_partitions plan)))"
proof -
  from assms have "length (of_role Efi (plan_partitions plan)) + length (of_role System (plan_partitions plan)) = 1"
    "length (of_role Windows (plan_partitions plan)) = 1"
    by (auto simp: well_formed_plan_def Let_def sole_with_file_system_def split: partition_table.splits)
  then show ?thesis by (simp only: letters_by_role) simp
qed

text \<open>When every data partition names its letter, these are the letters validation compared.\<close>

lemma data_letters:
  assumes "list_all spec_ok ps" "\<forall>p \<in> set ps. part_role p = Data \<longrightarrow> part_drive_letter p \<noteq> None"
  shows "map data_letter (filter is_data ps) = plan_letters ps"
  using assms
proof (induction ps)
  case (Cons p ps)
  then show ?case
    by (cases "part_drive_letter p")
      (auto simp: plan_letters_def List.map_filter_def data_letter_def is_data_def spec_ok_def)
qed (simp add: plan_letters_def List.map_filter_def)

text \<open>
  No letter is assigned twice by the script of a layout, provided every
  data partition names a letter and none names S: the letters are those of the
  data partitions, S for the boot volume, W for Windows and R for the cache.
\<close>

theorem layout_letters_distinct:
  assumes "prepare_layout lease d = Ok l"
    and "\<forall>p \<in> set (plan_partitions (ajl_partition_plan lease)). part_role p = Data \<longrightarrow>
      (\<exists>c. part_drive_letter p = Some c \<and> upper_letter c \<noteq> letter (CHR ''S''))"
  shows "distinct (assigned_letters (pl_prepare l))"
  using assms(1)
proof (cases rule: prepared)
  case (1 n rest r cs w)
  let ?plan = "ajl_partition_plan lease" and ?ps = "plan_partitions (ajl_partition_plan lease)"
  note ok = plan_specs [OF 1(1)]
  have data: "map data_letter (filter is_data ?ps) = plan_letters ?ps"
    by (rule data_letters [OF ok]) (use assms(2) in auto)
  have set: "c \<in> set (plan_letters ?ps) \<Longrightarrow> assignable_letter c \<and> c \<noteq> letter (CHR ''S'')" for c
    using ok assms(2) data_letter_assignable
    by (auto simp: data [symmetric] is_data_def list_all_iff data_letter_def)
  have "distinct (plan_letters ?ps)" using 1(1) by (simp add: well_formed_plan_def Let_def)
  then have "distinct (letter (CHR ''S'') # letter (CHR ''W'') # plan_letters ?ps @ [letter (CHR ''R'')])"
    using set [of 82] set [of 83] set [of 87] by (auto simp: letter_def byte_def assignable_letter_def)
  moreover have "mset (assigned_letters (pl_prepare l)) =
      mset (letter (CHR ''S'') # letter (CHR ''W'') # plan_letters ?ps @ [letter (CHR ''R'')])"
    using letters_well_formed [OF 1(1)] by (simp add: letters_prepared [OF assms(1)] data)
  ultimately show ?thesis by (metis mset_eq_imp_distinct_iff)
qed

lemma prepare_layout_total: "prepare_layout lease d \<noteq> Panic"
proof -
  have "validate_capacity plan x y \<noteq> Panic" "validate_windows_payload_capacity plan x y z \<noteq> Panic" for plan x y z
    by (auto simp: validate_capacity_def validate_windows_payload_capacity_def Let_def outcome_simps)
  then have "check_lease_capacity lease d \<noteq> Panic"
    by (auto simp: check_lease_capacity_def Let_def outcome_simps split: option.splits)
  moreover have "remaining_mib (plan_partitions (ajl_partition_plan lease)) (disk_size_bytes d)
      (adi_size_bytes (ajl_image lease)) \<noteq> Panic" if "check_lease_capacity lease d = Ok u" for u
    using remaining_exact check_lease_Ok [OF that] by fastforce
  moreover have "check_extended plan \<noteq> Panic" for plan
    by (auto simp: check_extended_def split: list.splits)
  moreover have "physical_drive_number i \<noteq> Panic" for i
    by (simp add: physical_drive_number_def outcome_simps)
  ultimately show ?thesis
    by (auto simp: prepare_layout_def Let_def outcome_simps)
qed

section \<open>Cleaning up\<close>

lemma loop_last:
  "layout_loop extended table remaining i created w (ps @ [p]) = Ok (cs, w') \<Longrightarrow>
     \<exists>ds made. cs = ds @ partition_commands extended table remaining made p"
proof (induction ps arbitrary: i created w cs w')
  case Nil
  then show ?case by (auto split: if_splits)
next
  case (Cons q ps)
  from Cons.prems obtain cs' where c: "cs = partition_commands extended table remaining created q @ cs'"
      "layout_loop extended table remaining (i + 1) (created \<or> (extended \<and> is_data q))
         (if part_role q = Windows then word_of_nat (i + 1) else w) (ps @ [p]) = Ok (cs', w')"
    by (auto simp: outcome_simps split: if_splits)
  from Cons.IH [OF c(2)] show ?case by (auto simp: c(1)) (metis append.assoc)
qed

lemma find_append_None: "find P xs = None \<Longrightarrow> find P (xs @ ys) = find P ys"
  by (induction xs) (auto split: if_splits)

lemma open_partition_letter:
  assumes "part_role p \<in> {Windows, Data}"
  shows "\<exists>ds. partition_commands extended table remaining made p = ds @ [Assign_Letter (upper_letter (extend_letter p))]"
  using assms
  by (auto simp: partition_commands_def role_commands_def extend_letter_def data_letter_def letter_def
      byte_def upper_letter_def split: option.splits)

text \<open>
  When the open partition comes last, the cleanup gives the cache back to
  it: the volume deleted is the one the script created last, and the volume
  extended is the one created directly before it, on the same disk.
\<close>

theorem cleanup_extends_neighbour:
  assumes "prepare_layout lease d = Ok l"
    and "plan_partitions (ajl_partition_plan lease) = ps @ [p]" "part_size_mib p = None"
  shows "\<exists>us k cache x. pl_prepare l = us @ [Assign_Letter (upper_letter x), Create_Partition k cache,
       Format_Quick Ntfs ''EasyDeployMesh Cache'', Assign_Letter (letter (CHR ''R'')), Exit_Script] \<and>
    pl_cleanup l = [Select_Disk (pl_disk_number l), Select_Volume (letter (CHR ''R'')), Delete_Volume,
       Select_Volume x, Extend, Exit_Script]"
  using assms(1)
proof (cases rule: prepared)
  case (1 n rest r cs w)
  have one: "length (filter (\<lambda>p. part_size_mib p = None) (ps @ [p])) = 1"
    using one_remaining [OF 1(1)] by (simp add: assms(2))
  then have "find (\<lambda>p. part_size_mib p = None) ps = None"
    using assms(3) by (auto simp: find_None_iff filter_empty_conv)
  then have rest: "rest = p"
    using 1(4) assms(3) by (simp add: assms(2) find_append_None)
  have "part_role p \<in> {Windows, Data}"
    using 1(1) assms(3) by (auto simp: well_formed_plan_def Let_def assms(2))
  from open_partition_letter [OF this] loop_last [of _ _ _ _ _ _ ps p cs w] 1(9)
  obtain ds where "cs = ds @ [Assign_Letter (upper_letter (extend_letter p))]"
    unfolding assms(2) by (metis append.assoc)
  then show ?thesis
    using 1(11,12) by (auto simp: 1(10) cache_commands_def rest)
qed

section \<open>Concrete layouts\<close>

definition sample_disk_id :: string where
  "sample_disk_id = [CHR 0x5C, CHR 0x5C, CHR ''.'', CHR 0x5C] @ ''PHYSICALDRIVE0''"

definition sample_physical_disk :: disk where
  "sample_physical_disk = \<lparr> disk_id = sample_disk_id, disk_model = ''M'', disk_serial = Some ''S1'',
     disk_size_bytes = 274877906944, disk_is_system = False \<rparr>"

definition sample_agent_lease :: "partition_plan \<Rightarrow> agent_job_lease" where
  "sample_agent_lease plan = \<lparr> ajl_job_id = 5, ajl_lease_id = 9, ajl_expires_at = 100,
     ajl_operation = Deploy_Wim,
     ajl_image = \<lparr> adi_id = 3, adi_name = ''W'', adi_format = Wim, adi_size_bytes = 5368709120,
       adi_sha256 = replicate 64 (CHR ''0''), adi_download_url = ''/image'', adi_index = 1 \<rparr>,
     ajl_target = \<lparr> tgt_device_id = 7, tgt_disk_id = sample_disk_id, tgt_disk_model = ''M'',
       tgt_disk_serial = Some ''S1'', tgt_disk_size_bytes = 274877906944 \<rparr>,
     ajl_partition_plan = plan, ajl_gho = None \<rparr>"

lemma sample_drive: "physical_drive_number (disk_id sample_physical_disk) = Ok 0"
proof -
  have t: "trim sample_disk_id = sample_disk_id"
    by (simp add: sample_disk_id_def trim_visible visible_def byte_def)
  have "map to_lower sample_disk_id = physical_drive_prefix @ ''0''"
    by code_simp
  then show ?thesis
    by (simp add: physical_drive_number_def sample_physical_disk_def t strip_prefix_def starts_with_def
        u32_from_str_def u32_of_digits_def is_digit_def byte_def decimal_value_def digit_def)
qed

lemma loop_Ok:
  "i + length ps < 2 ^ 32 \<Longrightarrow> \<exists>cs w'. layout_loop extended table remaining i created w ps = Ok (cs, w')"
proof (induction ps arbitrary: i created w)
  case (Cons p ps)
  have "i + 1 + length ps < 2 ^ 32" using Cons.prems by simp
  from Cons.IH [OF this] obtain cs w' where
    "layout_loop extended table remaining (i + 1) (created \<or> (extended \<and> is_data p))
       (if part_role p = Windows then word_of_nat (i + 1) else w) ps = Ok (cs, w')" by blast
  with Cons.prems show ?case by simp
qed simp

lemma sample_layout:
  assumes "validate plan = Ok ()" "of_role Recovery (plan_partitions plan) = []"
    and "fixed_total (plan_partitions plan) \<le> 200000" "check_extended plan = Ok ()"
    and "length (plan_partitions plan) < 100"
  shows "\<exists>l. prepare_layout (sample_agent_lease plan) sample_physical_disk = Ok l"
proof -
  let ?d = "disk_size_bytes sample_physical_disk"
  have cap: "validate_capacity plan ?d 5368709120 = Ok ()"
    using assms(3) unat_remaining_minimum [of "plan_partitions plan"]
    by (auto simp: validate_capacity_Ok sample_physical_disk_def cache_total_def)
  obtain r where r: "remaining_mib (plan_partitions plan) ?d 5368709120 = Ok r"
    using remaining_exact [OF cap] by blast
  have "\<exists>rest. find (\<lambda>p. part_size_mib p = None) (plan_partitions plan) = Some rest"
    using one_remaining [of plan] assms(1)
    by (cases "find (\<lambda>p. part_size_mib p = None) (plan_partitions plan)")
      (auto simp: validate_Ok_iff find_None_iff filter_empty_conv)
  moreover have "check_lease_capacity (sample_agent_lease plan) sample_physical_disk = Ok ()"
    using assms(1,2) cap by (simp add: check_lease_capacity_def sample_agent_lease_def Let_def of_role_empty)
  moreover obtain cs w where "layout_loop (uses_extended plan) (plan_table plan) r 0 False 0
      (plan_partitions plan) = Ok (cs, w)"
    using loop_Ok [of 0 "plan_partitions plan"] assms(5) by fastforce
  ultimately show ?thesis
    using r assms(4) sample_drive
    by (auto simp: prepare_layout_def Let_def sample_agent_lease_def)
qed

lemma sample_uefi: "\<exists>l. prepare_layout (sample_agent_lease uefi_gpt) sample_physical_disk = Ok l"
  by (rule sample_layout)
    (simp_all add: uefi_gpt_valid,
      simp_all add: uefi_gpt_def of_role_def fixed_total_def List.map_filter_def check_extended_def uses_extended_def)

lemma sample_bios: "\<exists>l. prepare_layout (sample_agent_lease legacy_bios_mbr) sample_physical_disk = Ok l"
  by (rule sample_layout)
    (simp_all add: legacy_bios_mbr_valid,
      simp_all add: legacy_bios_mbr_def of_role_def fixed_total_def List.map_filter_def check_extended_def
        uses_extended_def is_data_def)

theorem layout_fills_disk_witness:
  "\<exists>l. prepare_layout (sample_agent_lease uefi_gpt) sample_physical_disk = Ok l \<and>
     total_mib (pl_prepare l) + 32 = 262144"
  using sample_uefi layout_fills_disk by (fastforce simp: sample_physical_disk_def)

theorem scripts_are_their_commands_witness:
  "\<exists>l. prepare_layout (sample_agent_lease uefi_gpt) sample_physical_disk = Ok l \<and>
     text_lines (prepare_script l) = map command_text (pl_prepare l)"
  using sample_uefi scripts_are_their_commands by blast

theorem mbr_layout_fits_table_witness:
  "\<exists>l. prepare_layout (sample_agent_lease legacy_bios_mbr) sample_physical_disk = Ok l \<and>
     length (filter takes_slot (pl_prepare l)) \<le> 4"
proof -
  have "plan_table (ajl_partition_plan (sample_agent_lease legacy_bios_mbr)) = Mbr"
    by (simp add: sample_agent_lease_def legacy_bios_mbr_def)
  with sample_bios mbr_layout_fits_table show ?thesis by blast
qed

text \<open>Windows fixed, data open, as the desktop's templates have it.\<close>

definition data_plan :: "code_point option list \<Rightarrow> partition_plan" where
  "data_plan cs = \<lparr> plan_table = Gpt, plan_partitions =
     take 2 (plan_partitions uefi_gpt) @
     [\<lparr> part_role = Windows, part_size_mib = Some 30720, part_file_system = Some Ntfs,
        part_label = ''Windows'', part_drive_letter = None \<rparr>] @
     map (\<lambda>c. \<lparr> part_role = Data, part_size_mib = Some 20480, part_file_system = Some Ntfs,
        part_label = ''Software'', part_drive_letter = c \<rparr>) (butlast cs) @
     [\<lparr> part_role = Data, part_size_mib = None, part_file_system = Some Ntfs,
        part_label = ''Data'', part_drive_letter = last cs \<rparr>] \<rparr>"

lemma data_plan_valid:
  assumes "cs \<in> {[Some 68], [Some 83], [None, Some 68], [Some 68, Some 69]}"
  shows "validate (data_plan cs) = Ok ()"
  using assms
  by (auto simp: validate_Ok_iff well_formed_plan_def data_plan_def uefi_gpt_def sole_with_file_system_def
      of_role_def spec_ok_def plan_letters_def label_char_ok_def is_alnum_def is_digit_def
      is_upper_def is_lower_def byte_def List.map_filter_def assignable_letter_def upper_letter_def Let_def)

lemma data_plan_accepted:
  assumes "cs \<in> {[Some 68], [Some 83], [None, Some 68], [Some 68, Some 69]}"
  shows "\<exists>l. prepare_layout (sample_agent_lease (data_plan cs)) sample_physical_disk = Ok l"
  by (rule sample_layout [OF data_plan_valid [OF assms]])
    (use assms in \<open>auto simp: data_plan_def uefi_gpt_def of_role_def fixed_total_def List.map_filter_def
      check_extended_def uses_extended_def\<close>)

lemma data_letter_code:
  "data_letter p = upper_letter (case part_drive_letter p of None \<Rightarrow> 68 | Some c \<Rightarrow> c)"
  by (simp add: data_letter_def letter_def byte_def split: option.split)

lemma data_plan_letters:
  "prepare_layout (sample_agent_lease (data_plan cs)) sample_physical_disk = Ok l \<Longrightarrow>
     assigned_letters (pl_prepare l) = [83, 87] @ map (\<lambda>c. upper_letter (case c of None \<Rightarrow> 68 | Some c \<Rightarrow> c)) (butlast cs @ [last cs]) @ [82]"
  by (simp add: letters_prepared sample_agent_lease_def data_plan_def uefi_gpt_def letter_for_def data_letter_code
      letter_def byte_def comp_def)

theorem layout_letters_distinct_witness:
  "\<exists>l. prepare_layout (sample_agent_lease (data_plan [Some 68, Some 69])) sample_physical_disk = Ok l \<and>
     distinct (assigned_letters (pl_prepare l))"
proof -
  let ?lease = "sample_agent_lease (data_plan [Some 68, Some 69])"
  have "\<forall>p \<in> set (plan_partitions (ajl_partition_plan ?lease)). part_role p = Data \<longrightarrow>
      (\<exists>c. part_drive_letter p = Some c \<and> upper_letter c \<noteq> letter (CHR ''S''))"
    by (simp add: sample_agent_lease_def data_plan_def uefi_gpt_def letter_def byte_def upper_letter_def)
  with data_plan_accepted [of "[Some 68, Some 69]"] layout_letters_distinct show ?thesis by blast
qed

theorem cleanup_extends_neighbour_witness:
  "\<exists>l us x. prepare_layout (sample_agent_lease uefi_gpt) sample_physical_disk = Ok l \<and>
     pl_cleanup l = [Select_Disk (pl_disk_number l), Select_Volume (letter (CHR ''R'')), Delete_Volume,
       Select_Volume x, Extend, Exit_Script]"
proof -
  let ?ps = "take 2 (plan_partitions uefi_gpt)" and ?p = "last (plan_partitions uefi_gpt)"
  have "plan_partitions (ajl_partition_plan (sample_agent_lease uefi_gpt)) = ?ps @ [?p]" "part_size_mib ?p = None"
    by (simp_all add: sample_agent_lease_def uefi_gpt_def)
  from cleanup_extends_neighbour [OF _ this] sample_uefi show ?thesis by blast
qed

text \<open>
  Both conditions on the letters are needed: validation accepts a plan that
  gives a data partition the boot volume's S, and one that leaves a letter out
  beside an explicit D.
\<close>

lemma boot_letter_clash:
  "\<exists>l. prepare_layout (sample_agent_lease (data_plan [Some 83])) sample_physical_disk = Ok l \<and>
     \<not> distinct (assigned_letters (pl_prepare l))"
  using data_plan_accepted [of "[Some 83]"] data_plan_letters [of "[Some 83]"] by (fastforce simp: upper_letter_def)

lemma default_letter_clash:
  "\<exists>l. prepare_layout (sample_agent_lease (data_plan [None, Some 68])) sample_physical_disk = Ok l \<and>
     \<not> distinct (assigned_letters (pl_prepare l))"
  using data_plan_accepted [of "[None, Some 68]"] data_plan_letters [of "[None, Some 68]"]
  by (fastforce simp: upper_letter_def)

text \<open>
  Validation does not ask the open partition to come last.  With a fixed data
  partition behind an open Windows partition, the cache lies behind the data
  partition, and the cleanup extends Windows, which the freed space does not
  adjoin.
\<close>

definition windows_open_plan :: partition_plan where
  "windows_open_plan = \<lparr> plan_table = Gpt, plan_partitions = plan_partitions uefi_gpt @
     [\<lparr> part_role = Data, part_size_mib = Some 20480, part_file_system = Some Ntfs,
        part_label = ''Data'', part_drive_letter = Some 68 \<rparr>] \<rparr>"

lemma windows_open_valid: "validate windows_open_plan = Ok ()"
  by (simp add: validate_Ok_iff well_formed_plan_def windows_open_plan_def uefi_gpt_def sole_with_file_system_def
      of_role_def spec_ok_def plan_letters_def label_char_ok_def is_alnum_def is_digit_def
      is_upper_def is_lower_def byte_def List.map_filter_def assignable_letter_def upper_letter_def)

lemma cleanup_extends_elsewhere:
  "\<exists>l. prepare_layout (sample_agent_lease windows_open_plan) sample_physical_disk = Ok l \<and>
     assigned_letters (pl_prepare l) = map letter ''SWDR'' \<and>
     Select_Volume (letter (CHR ''W'')) \<in> set (pl_cleanup l)"
proof -
  let ?lease = "sample_agent_lease windows_open_plan"
  have "\<exists>l. prepare_layout ?lease sample_physical_disk = Ok l"
    by (rule sample_layout [OF windows_open_valid])
      (simp_all add: windows_open_plan_def uefi_gpt_def of_role_def fixed_total_def List.map_filter_def
        check_extended_def uses_extended_def)
  then obtain l where l: "prepare_layout ?lease sample_physical_disk = Ok l" by blast
  have "assigned_letters (pl_prepare l) = map letter ''SWDR''"
    using letters_prepared [OF l]
    by (simp add: sample_agent_lease_def windows_open_plan_def uefi_gpt_def letter_for_def data_letter_code
        letter_def byte_def upper_letter_def)
  moreover from l have "Select_Volume (letter (CHR ''W'')) \<in> set (pl_cleanup l)"
  proof (cases rule: prepared)
    case (1 n rest r cs w)
    then have "part_role rest = Windows"
      by (auto simp: sample_agent_lease_def windows_open_plan_def uefi_gpt_def)
    then show ?thesis by (simp add: 1(11) extend_letter_def)
  qed
  ultimately show ?thesis using l by blast
qed

end
