(* ===== verification/Agent_Executor.thy ===== *)
theory Agent_Executor
  imports Agent_Layout Gho_Image Installer_Rendering
begin

text \<open>
  The deployment an agent executes inside Windows PE
  (\<open>crates/agent/src/deployment.rs\<close>): the order of its actions, the supervision
  of the programs it runs, and the checks of what it downloaded and restored.
  What the control service answers to the polls is a function of their number;
  a loop that may wait for ever is a partial function, \<open>None\<close> when it does.
  Parameters: the digest of bytes, the inflater of the image decoder and the
  answers of programs and of the network.
\<close>

datatype agent_error =
    Incompatible_Format
  | Missing_Gho_Metadata
  | Disk_Not_Present
  | Fingerprint_Changed
  | Layout_Failed layout_error
  | Unexpected_Control_State job_state
  | Control_Unreachable
  | Suspension_Failed
  | Program_Failed
  | Io_Failed
  | Checksum_Mismatch
  | Parser_Version_Mismatch
  | Decoding_Failed gho_error
  | Expanded_Size_Mismatch
  | Report_Refused

section \<open>The target\<close>

definition matching_disk :: "agent_job_lease \<Rightarrow> disk list \<Rightarrow> (agent_error, disk) outcome" where
  "matching_disk lease disks =
     and_then (ok_or (find (\<lambda>d. eq_ignore_case (disk_id d) (tgt_disk_id (ajl_target lease))) disks)
         Disk_Not_Present) (\<lambda>d.
       if \<not> matches_disk (ajl_target lease) d then Err Fingerprint_Changed else Ok d)"

section \<open>Polling the control service\<close>

type_synonym control = "nat \<Rightarrow> (agent_error, job_state) outcome"

partial_function (option) await_running ::
  "control \<Rightarrow> nat \<Rightarrow> ((agent_error, unit) outcome \<times> nat) option" where
  "await_running control n =
     (case control n of
        Ok Running \<Rightarrow> Some (Ok (), n + 1)
      | Ok Paused \<Rightarrow> await_running control (n + 1)
      | Ok s \<Rightarrow> Some (Err (Unexpected_Control_State s), n + 1)
      | Err e \<Rightarrow> Some (Err e, n + 1)
      | Panic \<Rightarrow> Some (Panic, n + 1))"

declare await_running.simps [code]

section \<open>A supervised program\<close>

datatype process_action = Suspend_Process | Resume_Process | Kill_Process

datatype process_status = Still_Running | Wait_Failed | Exited bool

text \<open>
  The answers at the n-th turn: control service, suspension or resumption,
  \<open>try_wait\<close>.  Actions are recorded with their turn.
\<close>

record supervision =
  sv_control :: control
  sv_switch :: "nat \<Rightarrow> bool"
  sv_status :: "nat \<Rightarrow> process_status"

definition apply_control ::
  "job_state \<Rightarrow> bool \<Rightarrow> bool \<Rightarrow> (agent_error, bool) outcome \<times> process_action list" where
  "apply_control s suspended switched =
     (if s = Paused \<and> \<not> suspended
      then (if switched then (Ok True, [Suspend_Process]) else (Err Suspension_Failed, [Kill_Process]))
      else if s = Running \<and> suspended
      then (if switched then (Ok False, [Resume_Process]) else (Err Suspension_Failed, [Kill_Process]))
      else if s = Running \<or> s = Paused then (Ok suspended, [])
      else (Err (Unexpected_Control_State s),
            (if suspended then [Resume_Process] else []) @ [Kill_Process]))"

partial_function (option) supervise ::
  "supervision \<Rightarrow> nat \<Rightarrow> bool \<Rightarrow> (nat \<times> process_action) list \<Rightarrow>
   ((agent_error, unit) outcome \<times> (nat \<times> process_action) list) option" where
  "supervise sv n suspended acts =
     (case sv_control sv n of
        Err e \<Rightarrow> supervise sv (n + 1) suspended acts
      | Panic \<Rightarrow> Some (Panic, acts)
      | Ok s \<Rightarrow>
          (case apply_control s suspended (sv_switch sv n) of
             (Err e, did) \<Rightarrow> Some (Err e, acts @ map (Pair n) did)
           | (Panic, did) \<Rightarrow> Some (Panic, acts @ map (Pair n) did)
           | (Ok now, did) \<Rightarrow>
               (case sv_status sv n of
                  Wait_Failed \<Rightarrow> Some (Err Io_Failed, acts @ map (Pair n) did)
                | Exited ok \<Rightarrow> Some (if ok then Ok () else Err Program_Failed, acts @ map (Pair n) did)
                | Still_Running \<Rightarrow> supervise sv (n + 1) now (acts @ map (Pair n) did))))"

text \<open>\<open>run_checked\<close> once the program has started.\<close>

definition run_checked ::
  "supervision \<Rightarrow> ((agent_error, unit) outcome \<times> (nat \<times> process_action) list) option" where
  "run_checked sv = supervise sv 0 False []"

section \<open>Streams\<close>

text \<open>What \<open>read\<close> gives, call by call, until the end or a failure.\<close>

datatype stream = End_Of_Stream | Failing agent_error | Chunk bytes stream

text \<open>One loop reads the download into a file and the file into a digest.\<close>

fun drain :: "control \<Rightarrow> nat \<Rightarrow> bytes \<Rightarrow> stream \<Rightarrow> ((agent_error, bytes) outcome \<times> nat) option" where
  "drain control n acc s =
     (case await_running control n of
        None \<Rightarrow> None
      | Some (Err e, m) \<Rightarrow> Some (Err e, m)
      | Some (Panic, m) \<Rightarrow> Some (Panic, m)
      | Some (Ok _, m) \<Rightarrow>
          (case s of
             End_Of_Stream \<Rightarrow> Some (Ok acc, m)
           | Failing e \<Rightarrow> Some (Err e, m)
           | Chunk bs t \<Rightarrow> if bs = [] then Some (Ok acc, m) else drain control m (acc @ bs) t))"

definition verify_download ::
  "(bytes \<Rightarrow> string) \<Rightarrow> control \<Rightarrow> nat \<Rightarrow> stream \<Rightarrow> string \<Rightarrow> ((agent_error, unit) outcome \<times> nat) option" where
  "verify_download digest control n s expected =
     map_option (\<lambda>(r, m).
       (and_then r (\<lambda>bs. if eq_ignore_case (digest bs) expected then Ok () else Err Checksum_Mismatch), m))
       (drain control n [] s)"

definition download_url :: "string \<Rightarrow> string \<Rightarrow> string" where
  "download_url server url =
     (if starts_with ''http://'' url \<or> starts_with ''https://'' url then url
      else rev (dropWhile (\<lambda>c. c = CHR ''/'') (rev server)) @ url)"

section \<open>Restoring a Ghost image\<close>

text \<open>The bytes written to the volume and the outcome of the checks after the last of them.\<close>

definition restore_gho_partition ::
  "(bytes \<Rightarrow> string) \<Rightarrow> inflater \<Rightarrow> gho_reader \<Rightarrow> agent_gho_deployment \<Rightarrow> (agent_error, bytes) outcome" where
  "restore_gho_partition digest inflate rd meta =
     (if agd_parser_version meta \<noteq> gho_parser_version then Err Parser_Version_Mismatch
      else and_then (map_err Decoding_Failed (decode_partition inflate rd
             (unat (agd_source_partition meta)) (unat (agd_expanded_size_bytes meta)))) (\<lambda>(info, decoded, written).
        if decoded \<noteq> unat (agd_expanded_size_bytes meta) \<or>
           length written \<noteq> unat (agd_expanded_size_bytes meta) then Err Expanded_Size_Mismatch
        else if \<not> eq_ignore_case (digest written) (agd_expanded_sha256 meta) then Err Checksum_Mismatch
        else Ok written))"

section \<open>The deployment\<close>

datatype agent_action =
    Report deployment_stage u8
  | Write_Scripts prepared_layout
  | Await_Control
  | Run_Program string "string list"
  | Download_Image string string
  | Verify_Image string string
  | Restore_Volume string agent_gho_deployment

definition work_file :: "agent_job_lease \<Rightarrow> string \<Rightarrow> string" where
  "work_file lease name = ''X:'' @ backslash @ ''EasyDeployMesh'' @ backslash @ ''work'' @ backslash @
     uuid_text (ajl_job_id lease) @ backslash @ name"

definition format_allowed :: "agent_job_lease \<Rightarrow> bool" where
  "format_allowed lease =
     ((ajl_operation lease = Deploy_Wim \<and> adi_format (ajl_image lease) \<in> {Wim, Esd}) \<or>
      (ajl_operation lease = Deploy_Gho \<and> adi_format (ajl_image lease) = Gho))"

definition apply_actions :: "agent_job_lease \<Rightarrow> prepared_layout \<Rightarrow> agent_action list" where
  "apply_actions lease l =
     (case (ajl_operation lease, ajl_gho lease) of
        (Deploy_Gho, Some meta) \<Rightarrow> [Await_Control, Restore_Volume (pl_image_path l) meta]
      | _ \<Rightarrow> [Await_Control, Run_Program ''dism.exe''
          [''/English'', ''/Apply-Image'', ''/ImageFile:'' @ pl_image_path l,
           ''/Index:'' @ dec (unat (adi_index (ajl_image lease))), ''/ApplyDir:W:'' @ backslash,
           ''/CheckIntegrity'']])"

definition deployment_actions :: "string \<Rightarrow> agent_job_lease \<Rightarrow> prepared_layout \<Rightarrow> agent_action list" where
  "deployment_actions server lease l =
     [Write_Scripts l, Report Partitioning 10, Await_Control,
      Run_Program ''diskpart.exe'' [''/s'', work_file lease ''partition.txt''],
      Report Downloading_Image 20,
      Download_Image (download_url server (adi_download_url (ajl_image lease))) (pl_image_path l),
      Verify_Image (pl_image_path l) (adi_sha256 (ajl_image lease)),
      Report Applying_Image 45] @
     apply_actions lease l @
     [Report Configuring_Boot 88, Await_Control,
      Run_Program ''bcdboot.exe'' [''W:'' @ backslash @ ''Windows'', ''/s'', ''S:'', ''/f'', pl_firmware l, ''/c''],
      Report Finalizing 95, Await_Control,
      Run_Program ''diskpart.exe'' [''/s'', work_file lease ''cleanup.txt''],
      Report Rebooting 99]"

text \<open>
  Actions in order, up to the first that fails.  The answer to an action may
  depend on all that was past before.
\<close>

type_synonym answers = "agent_action list \<Rightarrow> agent_action \<Rightarrow> (agent_error, unit) outcome"

fun perform ::
  "answers \<Rightarrow> agent_action list \<Rightarrow> agent_action list \<Rightarrow> (agent_error, unit) outcome \<times> agent_action list" where
  "perform answer past [] = (Ok (), past)"
| "perform answer past (a # as) =
     (case answer past a of
        Ok _ \<Rightarrow> perform answer (past @ [a]) as
      | Err e \<Rightarrow> (Err e, past @ [a])
      | Panic \<Rightarrow> (Panic, past @ [a]))"

text \<open>
  The answer to a verification is computed: the file is read as it is after the
  actions past and its digest compared.  The other answers are the machine's.  A
  verification that is paused for ever does not return; no action follows it, and
  it is written as a panic, which no action follows either.
\<close>

record machine =
  mc_digest :: "bytes \<Rightarrow> string"
  mc_control :: "agent_action list \<Rightarrow> control"
  mc_file :: "agent_action list \<Rightarrow> string \<Rightarrow> stream"
  mc_other :: answers

definition answers_of :: "machine \<Rightarrow> answers" where
  "answers_of mc past a =
     (case a of
        Verify_Image path expected \<Rightarrow>
          (case verify_download (mc_digest mc) (mc_control mc past) 0 (mc_file mc past path) expected of
             Some (r, polls) \<Rightarrow> r
           | None \<Rightarrow> Panic)
      | _ \<Rightarrow> mc_other mc past a)"

definition execute ::
  "answers \<Rightarrow> string \<Rightarrow> agent_job_lease \<Rightarrow> disk list \<Rightarrow> (agent_error, unit) outcome \<times> agent_action list" where
  "execute answer server lease disks =
     (if \<not> format_allowed lease then (Err Incompatible_Format, [])
      else if ajl_operation lease = Deploy_Gho \<and> ajl_gho lease = None then (Err Missing_Gho_Metadata, [])
      else
        (case perform answer [] [Report Preflight 2] of
           (Ok _, past) \<Rightarrow>
             (case and_then (matching_disk lease disks) (\<lambda>d. map_err Layout_Failed (prepare_layout lease d)) of
                Ok l \<Rightarrow> perform answer past (deployment_actions server lease l)
              | Err e \<Rightarrow> (Err e, past)
              | Panic \<Rightarrow> (Panic, past))
         | r \<Rightarrow> r))"

section \<open>What the order of actions promises\<close>

lemma perform_spec:
  assumes "perform answer past as = (r, acts)"
  shows "\<exists>k. k \<le> length as \<and> acts = past @ take k as \<and>
    (\<forall>i. i + 1 < k \<longrightarrow> is_ok (answer (past @ take i as) (as ! i))) \<and>
    (r = Ok () \<longrightarrow> k = length as \<and> (\<forall>i < k. is_ok (answer (past @ take i as) (as ! i))))"
  using assms
proof (induction as arbitrary: past)
  case (Cons a as)
  show ?case
  proof (cases "answer past a")
    case (Ok u)
    with Cons.prems have "perform answer (past @ [a]) as = (r, acts)" by simp
    from Cons.IH [OF this] obtain k where k: "k \<le> length as" "acts = (past @ [a]) @ take k as"
      "\<forall>i. i + 1 < k \<longrightarrow> is_ok (answer ((past @ [a]) @ take i as) (as ! i))"
      "r = Ok () \<longrightarrow> k = length as \<and> (\<forall>i < k. is_ok (answer ((past @ [a]) @ take i as) (as ! i)))"
      by blast
    have ok: "is_ok (answer (past @ take 0 (a # as)) ((a # as) ! 0))" using Ok by simp
    show ?thesis
    proof (intro exI [of _ "Suc k"] conjI)
      show "\<forall>i. i + 1 < Suc k \<longrightarrow> is_ok (answer (past @ take i (a # as)) ((a # as) ! i))"
      proof (intro allI impI)
        fix i assume "i + 1 < Suc k"
        with k(3) ok show "is_ok (answer (past @ take i (a # as)) ((a # as) ! i))"
          by (cases i) auto
      qed
      show "r = Ok () \<longrightarrow> Suc k = length (a # as) \<and>
          (\<forall>i < Suc k. is_ok (answer (past @ take i (a # as)) ((a # as) ! i)))"
      proof
        assume "r = Ok ()"
        with k(4) have k4: "k = length as" "\<forall>i < k. is_ok (answer ((past @ [a]) @ take i as) (as ! i))" by auto
        have "is_ok (answer (past @ take i (a # as)) ((a # as) ! i))" if "i < Suc k" for i
          using that k4(2) ok by (cases i) auto
        with k4(1) show "Suc k = length (a # as) \<and>
          (\<forall>i < Suc k. is_ok (answer (past @ take i (a # as)) ((a # as) ! i)))" by simp
      qed
    qed (use k in simp_all)
  next
    case (Err e)
    with Cons.prems show ?thesis by (intro exI [of _ 1]) auto
  next
    case Panic
    with Cons.prems show ?thesis by (intro exI [of _ 1]) auto
  qed
qed simp

lemma matching_disk_Ok:
  "matching_disk lease disks = Ok d \<Longrightarrow> d \<in> set disks \<and> matches_disk (ajl_target lease) d"
  by (auto simp: matching_disk_def outcome_simps dest: find_Some_in split: if_splits)

text \<open>Every execution: refused, or the report followed by the first actions of a layout.\<close>

lemma execute_cases:
  assumes "execute answer server lease disks = (r, acts)"
  obtains (refused) "acts = []" "r \<noteq> Ok ()"
    | (unreported) "acts = [Report Preflight 2]" "r \<noteq> Ok ()"
    | (started) d l where "format_allowed lease" "is_ok (answer [] (Report Preflight 2))"
        "matching_disk lease disks = Ok d" "prepare_layout lease d = Ok l"
        "perform answer [Report Preflight 2] (deployment_actions server lease l) = (r, acts)"
proof -
  show thesis
  proof (cases "\<not> format_allowed lease \<or> (ajl_operation lease = Deploy_Gho \<and> ajl_gho lease = None)")
    case True
    with assms show thesis by (intro refused) (auto simp: execute_def split: if_splits)
  next
    case False
    note ok = False
    show thesis
    proof (cases "answer [] (Report Preflight 2)")
      case (Ok u)
      let ?l = "and_then (matching_disk lease disks) (\<lambda>d. map_err Layout_Failed (prepare_layout lease d))"
      show thesis
      proof (cases ?l)
        case l: (Ok l)
        then obtain d where "matching_disk lease disks = Ok d" "prepare_layout lease d = Ok l"
          by (auto simp: outcome_simps)
        with assms ok Ok show thesis by (intro started [of d l]) (auto simp: execute_def)
      qed (use assms ok Ok in \<open>intro unreported; auto simp: execute_def\<close>)+
    qed (use assms ok in \<open>intro unreported; auto simp: execute_def\<close>)+
  qed
qed

text \<open>
  C5.  Whatever the environment answers, no program runs, nothing is downloaded
  and no volume is written unless the disk with the target's identifier is
  present and matches its recorded model, size and serial, and the layout of
  the lease was accepted for that disk; and the two scripts are of that layout.
\<close>

theorem execution_is_guarded:
  assumes "execute answer server lease disks = (r, acts)"
    and "a \<in> set acts" "a \<noteq> Report Preflight 2"
  shows "\<exists>d l. d \<in> set disks \<and> matches_disk (ajl_target lease) d \<and> prepare_layout lease d = Ok l \<and>
    a \<in> set (deployment_actions server lease l) \<and> (1 < length acts \<longrightarrow> acts ! 1 = Write_Scripts l)"
  using assms(1)
proof (cases rule: execute_cases)
  case (started d l)
  from perform_spec [OF started(5)] obtain k where
    "acts = [Report Preflight 2] @ take k (deployment_actions server lease l)" by blast
  moreover from this assms(2,3) have "a \<in> set (deployment_actions server lease l)"
    by (auto dest: in_set_takeD)
  moreover have "1 < length acts \<longrightarrow> acts ! 1 = Write_Scripts l"
    using calculation(1) by (auto simp: nth_append deployment_actions_def)
  ultimately show ?thesis
    using started(4) matching_disk_Ok [OF started(3)] by blast
qed (use assms(2,3) in auto)

definition writes_image :: "agent_action \<Rightarrow> bool" where
  "writes_image a =
     ((\<exists>path meta. a = Restore_Volume path meta) \<or> (\<exists>args. a = Run_Program ''dism.exe'' args))"

text \<open>The file an action applies: a restored image, or the \<open>/ImageFile\<close> given to DISM.\<close>

fun applied_file :: "agent_action \<Rightarrow> string option" where
  "applied_file (Restore_Volume path meta) = Some path"
| "applied_file (Run_Program program args) =
     (if program = ''dism.exe'' then map_option (drop 11) (find (starts_with ''/ImageFile:'') args) else None)"
| "applied_file _ = None"

text \<open>Actions that leave the image cache alone.\<close>

fun only_waits :: "agent_action \<Rightarrow> bool" where
  "only_waits (Report s n) = True"
| "only_waits Await_Control = True"
| "only_waits _ = False"

lemma image_position:
  "i < length (deployment_actions server lease l) \<Longrightarrow>
     writes_image (deployment_actions server lease l ! i) \<Longrightarrow> i = 9"
proof -
  assume a: "i < length (deployment_actions server lease l)" "writes_image (deployment_actions server lease l ! i)"
  have "length (apply_actions lease l) = 2" "\<not> writes_image (apply_actions lease l ! 0)"
    by (auto simp: apply_actions_def writes_image_def split: operation.splits option.splits)
  moreover obtain x y where "apply_actions lease l = [x, y]"
    using calculation(1) by (auto simp: length_Suc_conv numeral_2_eq_2)
  ultimately show "i = 9"
    using a by (auto simp: deployment_actions_def writes_image_def nth_Cons split: nat.splits)
qed

declare drain.simps [simp del]

fun stream_bytes :: "stream \<Rightarrow> bytes option" where
  "stream_bytes End_Of_Stream = Some []"
| "stream_bytes (Failing e) = None"
| "stream_bytes (Chunk bs s) = (if bs = [] then Some [] else map_option ((@) bs) (stream_bytes s))"

lemma drain_bytes:
  "drain control n acc s = Some (Ok bs, m) \<Longrightarrow> \<exists>rest. stream_bytes s = Some rest \<and> bs = acc @ rest"
proof (induction control n acc s rule: drain.induct)
  case (1 control n acc s)
  from 1(2) obtain k where k: "await_running control n = Some (Ok (), k)"
    by (subst (asm) drain.simps) (auto split: option.splits outcome.splits)
  show ?case
  proof (cases s)
    case (Chunk c t)
    show ?thesis
    proof (cases "c = []")
      case False
      with 1(2) k Chunk have "drain control k (acc @ c) t = Some (Ok bs, m)"
        by (subst (asm) drain.simps) simp
      from 1(1) [OF k refl refl Chunk False this] False Chunk show ?thesis by auto
    qed (use 1(2) k Chunk in \<open>subst (asm) drain.simps; simp\<close>)
  qed (use 1(2) k in \<open>subst (asm) drain.simps; simp\<close>)+
qed

text \<open>
  A download that passed verification is the whole stream, read to its
  end, and its digest is the one the lease names, up to the case of letters.
\<close>

theorem verified_download_matches:
  assumes "verify_download digest control n s expected = Some (Ok (), m)"
  shows "\<exists>bs. stream_bytes s = Some bs \<and> eq_ignore_case (digest bs) expected"
proof -
  from assms obtain bs where "drain control n [] s = Some (Ok bs, m)" "eq_ignore_case (digest bs) expected"
    by (auto simp: verify_download_def outcome_simps split: if_splits)
  with drain_bytes [OF this(1)] show ?thesis by auto
qed

text \<open>
  C14.  The image applied to the Windows volume is the one that was verified.
  Whenever an action writes the volume, the file it applies was downloaded
  before, was read to its end after that and had the digest the lease names, up
  to the case of letters; and after this reading the agent only reported and
  waited until the file was applied.
\<close>

theorem image_is_verified_first:
  assumes "execute (answers_of mc) server lease disks = (r, acts)" "i < length acts" "writes_image (acts ! i)"
  shows "\<exists>path bs g j. applied_file (acts ! i) = Some path \<and> g < j \<and> j < i \<and>
    acts ! g = Download_Image (download_url server (adi_download_url (ajl_image lease))) path \<and>
    acts ! j = Verify_Image path (adi_sha256 (ajl_image lease)) \<and>
    stream_bytes (mc_file mc (take j acts) path) = Some bs \<and>
    eq_ignore_case (mc_digest mc bs) (adi_sha256 (ajl_image lease)) \<and>
    (\<forall>h. j < h \<and> h < i \<longrightarrow> only_waits (acts ! h))"
  using assms(1)
proof (cases rule: execute_cases)
  case (started d l)
  let ?as = "deployment_actions server lease l" and ?p = "pl_image_path l"
  let ?sha = "adi_sha256 (ajl_image lease)"
  from perform_spec [OF started(5)] obtain k where k: "k \<le> length ?as"
    "acts = [Report Preflight 2] @ take k ?as"
    "\<forall>i. i + 1 < k \<longrightarrow> is_ok (answers_of mc ([Report Preflight 2] @ take i ?as) (?as ! i))" by blast
  obtain m where m: "i = Suc m" using assms(3) k(2) by (cases i) (auto simp: writes_image_def)
  have "m < k" "writes_image (?as ! m)" using assms(2,3) k(1,2) m by auto
  then have m9: "m = 9" using image_position [of m server lease l] k(1) by simp
  have at: "acts ! Suc n = ?as ! n" if "n \<le> 9" for n
    using that k(2) \<open>m < k\<close> m9 by simp
  have as6: "?as ! 6 = Verify_Image ?p ?sha" by (simp add: deployment_actions_def)
  have t7: "take 7 acts = [Report Preflight 2] @ take 6 ?as"
    using k(2) \<open>m < k\<close> m9 by (simp add: min_def)
  have "is_ok (answers_of mc (take 7 acts) (Verify_Image ?p ?sha))"
    using k(3) \<open>m < k\<close> m9 by (simp add: t7 as6 [symmetric])
  then obtain polls where "verify_download (mc_digest mc) (mc_control mc (take 7 acts)) 0
      (mc_file mc (take 7 acts) ?p) ?sha = Some (Ok (), polls)"
    by (auto simp: answers_of_def elim: is_ok.elims split: option.splits)
  from verified_download_matches [OF this] obtain bs where bs:
    "stream_bytes (mc_file mc (take 7 acts) ?p) = Some bs" "eq_ignore_case (mc_digest mc bs) ?sha" by blast
  have "acts ! 6 = Download_Image (download_url server (adi_download_url (ajl_image lease))) ?p"
    "acts ! 7 = Verify_Image ?p ?sha"
    using at [of 5] at [of 6] by (simp_all add: deployment_actions_def)
  moreover have "applied_file (acts ! i) = Some ?p"
    using at [of 9] m m9
    by (auto simp: deployment_actions_def apply_actions_def nth_append starts_with_def
        split: operation.splits option.splits)
  moreover have "only_waits (acts ! h)" if "7 < h" "h < i" for h
  proof -
    have "h = 8 \<or> h = 9" using that m m9 by auto
    then show ?thesis
      using at [of 7] at [of 8]
      by (auto simp: deployment_actions_def apply_actions_def split: operation.splits option.splits)
  qed
  ultimately show ?thesis
    using bs m m9 by (intro exI [of _ ?p] exI [of _ bs] exI [of _ 6] exI [of _ 7]) auto
qed (use assms(2,3) in \<open>auto simp: writes_image_def\<close>)

section \<open>What the supervision promises\<close>

text \<open>When each action is right, given what the control service answered at its turn.\<close>

definition asked_to_stop :: "supervision \<Rightarrow> nat \<Rightarrow> bool" where
  "asked_to_stop sv n = (\<exists>s. sv_control sv n = Ok s \<and> s \<noteq> Running \<and> s \<noteq> Paused)"

fun justified :: "supervision \<Rightarrow> nat \<times> process_action \<Rightarrow> bool" where
  "justified sv (n, Suspend_Process) = (sv_control sv n = Ok Paused)"
| "justified sv (n, Resume_Process) = (sv_control sv n = Ok Running \<or> asked_to_stop sv n)"
| "justified sv (n, Kill_Process) = (asked_to_stop sv n \<or> \<not> sv_switch sv n)"

text \<open>The state of the process after a list of actions: \<open>None\<close> once it was killed.\<close>

fun process_after :: "bool option \<Rightarrow> process_action list \<Rightarrow> bool option" where
  "process_after p [] = p"
| "process_after p (Suspend_Process # as) = process_after (map_option (\<lambda>_. True) p) as"
| "process_after p (Resume_Process # as) = process_after (map_option (\<lambda>_. False) p) as"
| "process_after p (Kill_Process # as) = process_after None as"

lemma process_after_append: "process_after p (as @ bs) = process_after (process_after p as) bs"
  by (induction p as rule: process_after.induct) simp_all

lemma process_after_None [simp]: "process_after None as = None"
  by (induction "None :: bool option" as rule: process_after.induct) simp_all

text \<open>One turn: its actions are justified, and the flag is the state of the process.\<close>

lemma apply_control_sound:
  assumes "apply_control s suspended (sv_switch sv n) = (r, did)" "sv_control sv n = Ok s"
  shows "list_all (\<lambda>a. justified sv (n, a)) did \<and>
    (case r of
       Ok now \<Rightarrow> process_after (Some suspended) did = Some now
     | _ \<Rightarrow> process_after (Some suspended) did = None)"
  using assms
  by (auto simp: apply_control_def asked_to_stop_def split: if_splits)

lemmas supervise_induct = supervise.raw_induct [rotated 1, consumes 1, case_names turn]

lemma supervise_sound:
  assumes "supervise sv n suspended acts = Some res"
    and "list_all (justified sv) acts" "process_after (Some False) (map snd acts) = Some suspended"
    and "\<forall>m. sv_control sv m \<noteq> Panic"
  shows "list_all (justified sv) (snd res) \<and>
    (fst res = Ok () \<longrightarrow> process_after (Some False) (map snd (snd res)) \<noteq> None \<and> (\<exists>m. sv_status sv m = Exited True)) \<and>
    (\<forall>s. fst res = Err (Unexpected_Control_State s) \<longrightarrow> process_after (Some False) (map snd (snd res)) = None)"
  using assms
proof (induction rule: supervise_induct)
  case (turn rec sv n suspended acts res)
  show ?case
  proof (cases "sv_control sv n")
    case (Err e)
    with turn(2) have "rec sv (n + 1) suspended acts = Some res" by simp
    from turn(1) [OF this turn(3-5)] show ?thesis .
  next
    case (Ok s)
    obtain q did where a: "apply_control s suspended (sv_switch sv n) = (q, did)" by fastforce
    note step = apply_control_sound [OF a Ok]
    have j: "list_all (justified sv) (acts @ map (Pair n) did)"
      using turn(3) step by (auto simp: list_all_iff)
    show ?thesis
    proof (cases q)
      case now: (Ok now)
      have p: "process_after (Some False) (map snd (acts @ map (Pair n) did)) = Some now"
        using turn(4) step now by (simp add: process_after_append comp_def)
      show ?thesis
      proof (cases "sv_status sv n")
        case Still_Running
        with turn(2) Ok a now have "rec sv (n + 1) now (acts @ map (Pair n) did) = Some res" by simp
        from turn(1) [OF this j p turn(5)] show ?thesis .
      qed (use turn(2) Ok a now j p in \<open>auto split: if_splits\<close>)
    qed (use turn(2,4) Ok a j step in \<open>auto simp: process_after_append comp_def\<close>)
  qed (use turn(5) in simp)
qed

text \<open>
  A program that writes the disk is suspended only when the control
  service says paused, resumed only when it says running or on the way to being
  killed, and killed only when the service ended the job or a suspension failed;
  the agent reports success only when the program itself exited successfully,
  alive to its end, and a job the service ended leaves no program behind.
\<close>

theorem supervision_follows_control:
  assumes "run_checked sv = Some (r, acts)" "\<forall>n. sv_control sv n \<noteq> Panic"
  shows "list_all (justified sv) acts \<and>
    (r = Ok () \<longrightarrow> process_after (Some False) (map snd acts) \<noteq> None \<and> (\<exists>n. sv_status sv n = Exited True)) \<and>
    (\<forall>s. r = Err (Unexpected_Control_State s) \<longrightarrow> process_after (Some False) (map snd acts) = None)"
  using supervise_sound [OF assms(1) [unfolded run_checked_def]] assms(2) by simp

text \<open>The supervision returns as soon as the service is reached at a turn that ends it.\<close>

lemma supervise_returns:
  assumes "sv_control sv m = Ok s" "sv_status sv m \<noteq> Still_Running" "n \<le> m"
  shows "\<exists>res. supervise sv n suspended acts = Some res"
  using assms(3)
proof (induction "m - n" arbitrary: n suspended acts)
  case 0
  then have "n = m" by simp
  then show ?case
    using assms(1,2) by (subst supervise.simps) (auto split: prod.split outcome.split process_status.split)
next
  case (Suc k)
  then have IH: "\<exists>r a. supervise sv (Suc n) b as = Some (r, a)" for b as by simp
  show ?case
    by (subst supervise.simps) (auto simp: IH split: prod.split outcome.split process_status.split)
qed

lemma supervise_waits:
  assumes "\<forall>m \<ge> n. \<exists>e. sv_control sv m = Err e"
  shows "supervise sv n suspended acts = None"
proof (cases "supervise sv n suspended acts")
  case (Some res)
  then have False
    using assms
  proof (induction rule: supervise_induct)
    case (turn rec sv n suspended acts res)
    obtain e where "sv_control sv n = Err e" using turn(3) by blast
    with turn(2) have "rec sv (n + 1) suspended acts = Some res" by simp
    from turn(1) [OF this] turn(3) show ?case by auto
  qed
  then show ?thesis ..
qed

text \<open>
  Supervising a program returns once the control service is reached at a
  turn where the program has ended; while the service cannot be reached at all
  it does not return, and so neither resumes nor kills the program.
\<close>

theorem supervision_liveness:
  "((\<exists>n s. sv_control sv n = Ok s \<and> sv_status sv n \<noteq> Still_Running) \<longrightarrow> (\<exists>res. run_checked sv = Some res)) \<and>
   ((\<forall>n. \<exists>e. sv_control sv n = Err e) \<longrightarrow> run_checked sv = None)"
  using supervise_returns [of sv _ _ 0] supervise_waits [of 0 sv] by (auto simp: run_checked_def)

section \<open>Waiting and reading\<close>

text \<open>The wait ends with the first answer that is not paused.\<close>

lemma await_first:
  "(\<forall>m. n \<le> m \<and> m < k \<longrightarrow> control m = Ok Paused) \<Longrightarrow> n \<le> k \<Longrightarrow> control k \<noteq> Ok Paused \<Longrightarrow>
     await_running control n =
       Some (case control k of Ok Running \<Rightarrow> Ok () | Ok s \<Rightarrow> Err (Unexpected_Control_State s)
         | Err e \<Rightarrow> Err e | Panic \<Rightarrow> Panic, k + 1)"
proof (induction "k - n" arbitrary: n)
  case 0
  then show ?case
    by (subst await_running.simps) (auto split: outcome.split job_state.split)
next
  case (Suc i)
  then have "control n = Ok Paused" by auto
  moreover from Suc have "await_running control (n + 1) =
       Some (case control k of Ok Running \<Rightarrow> Ok () | Ok s \<Rightarrow> Err (Unexpected_Control_State s)
         | Err e \<Rightarrow> Err e | Panic \<Rightarrow> Panic, k + 1)" by simp
  ultimately show ?case by (subst await_running.simps) simp
qed

lemma await_forever:
  assumes "\<forall>m \<ge> n. control m = Ok Paused"
  shows "await_running control n = None"
proof (cases "await_running control n")
  case (Some res)
  then have False
    using assms
  proof (induction rule: await_running.raw_induct [rotated 1, consumes 1, case_names turn])
    case (turn rec control n res)
    then have "rec control (n + 1) = Some res" by simp
    from turn(1) [OF this] turn(3) show ?case by auto
  qed
  then show ?thesis ..
qed

lemma restored_volume:
  "restore_gho_partition digest inflate rd meta = Ok written \<Longrightarrow>
     length written = unat (agd_expanded_size_bytes meta) \<and>
     eq_ignore_case (digest written) (agd_expanded_sha256 meta) \<and>
     agd_parser_version meta = gho_parser_version"
  by (auto simp: restore_gho_partition_def outcome_simps split: if_splits prod.splits)

section \<open>A sample execution\<close>

lemma perform_all: "perform (\<lambda>past a. Ok ()) past as = (Ok (), past @ as)"
  by (induction as arbitrary: past) simp_all

lemma sample_matching: "matching_disk (sample_agent_lease uefi_gpt) [sample_physical_disk] = Ok sample_physical_disk"
proof -
  have "trim sample_disk_id = sample_disk_id"
    by (simp add: sample_disk_id_def trim_visible visible_def byte_def)
  then show ?thesis
    by (simp add: matching_disk_def sample_agent_lease_def sample_physical_disk_def matches_disk_def
        abs_diff_def)
qed

lemma sample_execution:
  "\<exists>l. prepare_layout (sample_agent_lease uefi_gpt) sample_physical_disk = Ok l \<and>
     execute (\<lambda>past a. Ok ()) ''http://s'' (sample_agent_lease uefi_gpt) [sample_physical_disk] =
       (Ok (), Report Preflight 2 # deployment_actions ''http://s'' (sample_agent_lease uefi_gpt) l)"
proof -
  obtain l where l: "prepare_layout (sample_agent_lease uefi_gpt) sample_physical_disk = Ok l"
    using sample_uefi by blast
  moreover have "format_allowed (sample_agent_lease uefi_gpt)"
    "ajl_operation (sample_agent_lease uefi_gpt) = Deploy_Wim"
    by (simp_all add: format_allowed_def sample_agent_lease_def)
  ultimately show ?thesis
    by (simp add: execute_def perform_all sample_matching)
qed

theorem execution_is_guarded_witness:
  "\<exists>d l. matches_disk (ajl_target (sample_agent_lease uefi_gpt)) d \<and>
     prepare_layout (sample_agent_lease uefi_gpt) d = Ok l"
proof -
  obtain l where e: "execute (\<lambda>past a. Ok ()) ''http://s'' (sample_agent_lease uefi_gpt) [sample_physical_disk] =
       (Ok (), Report Preflight 2 # deployment_actions ''http://s'' (sample_agent_lease uefi_gpt) l)"
    using sample_execution by blast
  from execution_is_guarded [OF e, of "Write_Scripts l"] show ?thesis
    by (auto simp: deployment_actions_def)
qed

definition sample_machine :: machine where
  "sample_machine = \<lparr> mc_digest = (\<lambda>bs. if bs = [1, 2] then replicate 64 (CHR ''0'') else ''x''),
     mc_control = (\<lambda>past n. Ok Running),
     mc_file = (\<lambda>past path. if list_ex (\<lambda>a. \<exists>url. a = Download_Image url path) past
       then Chunk [1, 2] End_Of_Stream else Failing Io_Failed),
     mc_other = (\<lambda>past a. Ok ()) \<rparr>"

lemma await_now: "control n = Ok Running \<Longrightarrow> await_running control n = Some (Ok (), n + 1)"
  by (subst await_running.simps) simp

theorem image_is_verified_first_witness:
  "\<exists>path acts. execute (answers_of sample_machine) ''http://s'' (sample_agent_lease uefi_gpt)
      [sample_physical_disk] = (Ok (), acts) \<and>
     applied_file (acts ! 10) = Some path \<and>
     (\<exists>j < 10. acts ! j = Verify_Image path (replicate 64 (CHR ''0'')) \<and>
        stream_bytes (mc_file sample_machine (take j acts) path) = Some [1, 2])"
proof -
  let ?lease = "sample_agent_lease uefi_gpt"
  obtain l where e: "execute (\<lambda>past a. Ok ()) ''http://s'' ?lease [sample_physical_disk] =
       (Ok (), Report Preflight 2 # deployment_actions ''http://s'' ?lease l)"
      and l: "prepare_layout ?lease sample_physical_disk = Ok l"
    using sample_execution by blast
  have sel: "ajl_operation ?lease = Deploy_Wim" "adi_sha256 (ajl_image ?lease) = replicate 64 (CHR ''0'')"
    "format_allowed ?lease"
    by (simp_all add: sample_agent_lease_def format_allowed_def)
  have ok: "answers_of sample_machine past a = Ok ()"
    if "\<forall>path sha. a = Verify_Image path sha \<longrightarrow>
      sha = replicate 64 (CHR ''0'') \<and> list_ex (\<lambda>a. \<exists>url. a = Download_Image url path) past" for past a
    using that
    by (cases a) (auto simp: answers_of_def sample_machine_def verify_download_def drain.simps await_now
        eq_ignore_case_def)
  have "perform (answers_of sample_machine) [Report Preflight 2] (deployment_actions ''http://s'' ?lease l) =
      (Ok (), Report Preflight 2 # deployment_actions ''http://s'' ?lease l)"
    by (simp add: deployment_actions_def apply_actions_def sel ok)
  then have x: "execute (answers_of sample_machine) ''http://s'' ?lease [sample_physical_disk] =
      (Ok (), Report Preflight 2 # deployment_actions ''http://s'' ?lease l)"
    by (simp add: execute_def sel ok sample_matching l)
  let ?acts = "Report Preflight 2 # deployment_actions ''http://s'' ?lease l"
  have "writes_image (?acts ! 10)" "10 < length ?acts"
    by (simp_all add: deployment_actions_def apply_actions_def sel writes_image_def)
  from image_is_verified_first [OF x this(2,1)] obtain path bs j where v:
      "applied_file (?acts ! 10) = Some path" "j < 10" "?acts ! j = Verify_Image path (replicate 64 (CHR ''0''))"
      "stream_bytes (mc_file sample_machine (take j ?acts) path) = Some bs"
    unfolding sel(2) by blast
  have "bs = [1, 2]"
    using v(4) by (auto simp: sample_machine_def split: if_splits)
  with x v show ?thesis by blast
qed

definition sample_supervision :: supervision where
  "sample_supervision = \<lparr> sv_control = (\<lambda>n. if n = 0 then Ok Paused else Ok Running), sv_switch = (\<lambda>n. True),
     sv_status = (\<lambda>n. if n < 2 then Still_Running else Exited True) \<rparr>"

lemma sample_supervised:
  "run_checked sample_supervision = Some (Ok (), [(0, Suspend_Process), (1, Resume_Process)])"
proof -
  have "supervise sample_supervision 2 False [(0, Suspend_Process), (1, Resume_Process)] =
      Some (Ok (), [(0, Suspend_Process), (1, Resume_Process)])"
    by (subst supervise.simps) (simp add: sample_supervision_def apply_control_def)
  then have "supervise sample_supervision 1 True [(0, Suspend_Process)] =
      Some (Ok (), [(0, Suspend_Process), (1, Resume_Process)])"
    by (subst supervise.simps) (simp add: sample_supervision_def apply_control_def numeral_2_eq_2)
  then show ?thesis
    unfolding run_checked_def
    by (subst supervise.simps) (simp add: sample_supervision_def apply_control_def)
qed

theorem supervision_follows_control_witness:
  "process_after (Some False) [Suspend_Process, Resume_Process] \<noteq> None \<and>
   (\<exists>n. sv_status sample_supervision n = Exited True)"
proof -
  have "\<forall>n. sv_control sample_supervision n \<noteq> Panic" by (simp add: sample_supervision_def)
  from supervision_follows_control [OF sample_supervised this] show ?thesis by simp
qed

theorem supervision_liveness_witness:
  "\<exists>res. run_checked sample_supervision = Some res"
proof -
  have "\<exists>n s. sv_control sample_supervision n = Ok s \<and> sv_status sample_supervision n \<noteq> Still_Running"
    by (intro exI [of _ 2] exI [of _ Running]) (simp add: sample_supervision_def)
  with supervision_liveness [of sample_supervision] show ?thesis by blast
qed

theorem verified_download_matches_witness:
  "\<exists>bs. stream_bytes (Chunk [1, 2] End_Of_Stream) = Some bs \<and> eq_ignore_case (replicate (length bs) (CHR ''f'')) ''ff''"
proof -
  have a: "await_running (\<lambda>n. Ok Running) n = Some (Ok (), n + 1)" for n
    by (subst await_running.simps) simp
  have "verify_download (\<lambda>bs. replicate (length bs) (CHR ''f'')) (\<lambda>n. Ok Running) 0
      (Chunk [1, 2] End_Of_Stream) ''ff'' = Some (Ok (), 2)"
    by (simp add: verify_download_def a drain.simps numeral_2_eq_2)
  from verified_download_matches [OF this] show ?thesis .
qed

end
