(* ===== verification/Agent_Client.thy ===== *)
theory Agent_Client
  imports Agent_Executor
begin

text \<open>
  The client loop of the agent (\<open>crates/agent/src/main.rs\<close>): registration,
  heartbeats, claims, the execution of a lease and the report of its end, with
  the backoff between failed requests.  The answers of the service and the
  probes of the machine are arguments; a request whose answer decides the next
  is one field of \<open>client_answers\<close>.
\<close>

section \<open>Backoff\<close>

text \<open>Delays in seconds.\<close>

definition initial_retry_delay :: nat where "initial_retry_delay = 1"
definition max_retry_delay :: nat where "max_retry_delay = 30"

record retry_backoff =
  rb_recovery_attempt :: u64
  rb_next_delay :: nat

definition new_backoff :: retry_backoff where
  "new_backoff = \<lparr> rb_recovery_attempt = 0, rb_next_delay = initial_retry_delay \<rparr>"

definition reset_backoff :: "retry_backoff \<Rightarrow> retry_backoff" where
  "reset_backoff b = b \<lparr> rb_recovery_attempt := 0, rb_next_delay := initial_retry_delay \<rparr>"

text \<open>The delay slept, and the backoff after it.\<close>

definition wait_backoff :: "retry_backoff \<Rightarrow> nat \<times> retry_backoff" where
  "wait_backoff b =
     (rb_next_delay b,
      b \<lparr> rb_recovery_attempt := saturating_add (rb_recovery_attempt b) 1,
          rb_next_delay := min (rb_next_delay b * 2) max_retry_delay \<rparr>)"

section \<open>Settings\<close>

record bootstrap_config =
  bc_server :: string
  bc_enrollment_token :: string

datatype client_error =
    Bootstrap_Unreadable
  | Bootstrap_Incomplete
  | Server_Required
  | Token_Required
  | Server_Invalid
  | Server_Has_Query
  | Request_Failed "nat option"
  | Completion_Unconfirmed
  | Startup_Failed
  | Shell_Failed

record cli =
  cli_server :: "string option"
  cli_enrollment_token :: "string option"
  cli_bootstrap :: "string option"
  cli_once :: bool
  cli_heartbeat_interval :: "u64 option"

definition automatic_bootstraps :: "string list" where
  "automatic_bootstraps =
     map (\<lambda>p. ''X:'' @ p @ backslash @ ''easydeploymesh-bootstrap.json'')
       [[], backslash @ ''Boot'', backslash @ ''Sources'', backslash @ ''Windows'' @ backslash @ ''System32'']"

definition trimmed_setting :: "string option \<Rightarrow> string option" where
  "trimmed_setting v = (case v of None \<Rightarrow> None | Some s \<Rightarrow> if trim s = [] then None else Some (trim s))"

text \<open>\<open>is_file\<close> is the file system, \<open>load\<close> a file read and parsed.\<close>

definition connection_settings ::
  "(string \<Rightarrow> bool) \<Rightarrow> (string \<Rightarrow> (client_error, bootstrap_config) outcome) \<Rightarrow> cli \<Rightarrow>
   (client_error, bootstrap_config) outcome" where
  "connection_settings is_file load c =
     (case (case cli_bootstrap c of Some p \<Rightarrow> Some p | None \<Rightarrow> find is_file automatic_bootstraps) of
        Some path \<Rightarrow>
          and_then (load path) (\<lambda>b.
            if trim (bc_server b) = [] \<or> trim (bc_enrollment_token b) = [] then Err Bootstrap_Incomplete
            else Ok \<lparr> bc_server = trim (bc_server b), bc_enrollment_token = trim (bc_enrollment_token b) \<rparr>)
      | None \<Rightarrow>
          and_then (ok_or (trimmed_setting (cli_server c)) Server_Required) (\<lambda>s.
          map_ok (\<lambda>t. \<lparr> bc_server = s, bc_enrollment_token = t \<rparr>)
            (ok_or (trimmed_setting (cli_enrollment_token c)) Token_Required)))"

text \<open>The parts of a parsed URL the validation reads.\<close>

record parsed_url =
  url_scheme :: string
  url_host :: "string option"
  url_query :: "string option"
  url_fragment :: "string option"

definition validated_server :: "(string \<Rightarrow> parsed_url option) \<Rightarrow> string \<Rightarrow> (client_error, string) outcome" where
  "validated_server parse v =
     and_then (ok_or (parse (trim v)) Server_Invalid) (\<lambda>u.
       if url_scheme u \<notin> {''http'', ''https''} \<or> url_host u = None then Err Server_Invalid
       else if url_query u \<noteq> None \<or> url_fragment u \<noteq> None then Err Server_Has_Query
       else Ok (rev (dropWhile (\<lambda>c. c = CHR ''/'') (rev (trim v)))))"

section \<open>Probes\<close>

datatype ipv4_route_probe = Routed nat | Bind_Failed | No_Route | Indeterminate

record network_diagnostics =
  nd_ipv4 :: string
  nd_route_to_control :: string

definition network_diagnostics_with ::
  "(string \<Rightarrow> (nat \<times> nat) option) \<Rightarrow> string \<Rightarrow> (nat \<times> nat \<Rightarrow> ipv4_route_probe) \<Rightarrow> network_diagnostics" where
  "network_diagnostics_with target server probe =
     (case target server of
        None \<Rightarrow> \<lparr> nd_ipv4 = ''unknown'', nd_route_to_control = ''unknown'' \<rparr>
      | Some t \<Rightarrow>
          (case probe t of
             Routed a \<Rightarrow>
               if a \<noteq> 0 then \<lparr> nd_ipv4 = ''usable'', nd_route_to_control = ''present'' \<rparr>
               else \<lparr> nd_ipv4 = ''unknown'', nd_route_to_control = ''unknown'' \<rparr>
           | No_Route \<Rightarrow> \<lparr> nd_ipv4 = ''unknown'', nd_route_to_control = ''absent'' \<rparr>
           | Bind_Failed \<Rightarrow> \<lparr> nd_ipv4 = ''unusable'', nd_route_to_control = ''unknown'' \<rparr>
           | Indeterminate \<Rightarrow> \<lparr> nd_ipv4 = ''unknown'', nd_route_to_control = ''unknown'' \<rparr>))"

definition detect_boot_mode_with :: "u32 option \<Rightarrow> string option \<Rightarrow> boot_mode" where
  "detect_boot_mode_with firmware env =
     (if firmware = Some 1 then Legacy_Bios
      else if firmware = Some 2 then Uefi
      else case map_option (map to_lower) env of
          None \<Rightarrow> Boot_Unknown
        | Some v \<Rightarrow>
            if v = ''uefi'' then Uefi
            else if v = ''legacy'' \<or> v = ''bios'' then Legacy_Bios else Boot_Unknown)"

definition collect_disks_or_empty :: "('e, disk list) outcome \<Rightarrow> disk list" where
  "collect_disks_or_empty collected = (case collected of Ok ds \<Rightarrow> ds | _ \<Rightarrow> [])"

text \<open>The steps of the WinPE shell, with what each did: network, log, agent, original shell.\<close>

datatype shell_step = Initialize_Network | Log_Failure | Start_Agent | Original_Shell

definition run_shell_startup_sequence ::
  "bool \<Rightarrow> (client_error, unit) outcome \<Rightarrow> (client_error, unit) outcome \<Rightarrow> (client_error, unit) outcome \<Rightarrow>
   (client_error, unit) outcome \<times> shell_step list" where
  "run_shell_startup_sequence has_shell init start shell =
     (let before = Initialize_Network # (if is_ok init then [] else [Log_Failure]) @ [Start_Agent] in
      if \<not> is_ok start then (start, before)
      else if has_shell then (shell, before @ [Original_Shell])
      else (Ok (), before))"

section \<open>The end of a lease\<close>

definition is_transient_request_error :: "nat option \<Rightarrow> bool" where
  "is_transient_request_error status =
     (case status of None \<Rightarrow> True | Some s \<Rightarrow> (500 \<le> s \<and> s < 600) \<or> s \<in> {408, 425, 429})"

definition job_completion_marker :: "bool \<Rightarrow> string" where
  "job_completion_marker succeeded =
     (if succeeded then ''EASYDEPLOYMESH_DIAG_V1|job.completion|reported_success''
      else ''EASYDEPLOYMESH_DIAG_V1|job.completion|reported_failure'')"

text \<open>
  The completion is posted until the service takes it or refuses it for good;
  the n-th answer is \<open>None\<close> for success, else the status of the error.  The
  result has the delays slept.
\<close>

partial_function (option) report_completion ::
  "(nat \<Rightarrow> nat option option) \<Rightarrow> nat \<Rightarrow> retry_backoff \<Rightarrow> nat list \<Rightarrow>
   ((client_error, unit) outcome \<times> nat list) option" where
  "report_completion answer n b slept =
     (case answer n of
        None \<Rightarrow> Some (Ok (), slept)
      | Some status \<Rightarrow>
          if is_transient_request_error status
          then report_completion answer (n + 1) (snd (wait_backoff b)) (slept @ [fst (wait_backoff b)])
          else Some (Err Completion_Unconfirmed, slept))"

definition completion_of :: "agent_job_lease \<Rightarrow> (agent_error, unit) outcome \<Rightarrow> (agent_error \<Rightarrow> string) \<Rightarrow> agent_job_completion" where
  "completion_of lease result show =
     \<lparr> ajc_lease_id = ajl_lease_id lease, ajc_succeeded = is_ok result,
       ajc_error_message = (case result of Err e \<Rightarrow> Some (show e) | _ \<Rightarrow> None) \<rparr>"

text \<open>
  A lease executed: the completion sent, and whether the agent may go on.  The
  inventory, the actions of the deployment and the answers to the completion
  are arguments; rebooting the machine is not part of the model.
\<close>

definition execute_lease ::
  "answers \<Rightarrow> string \<Rightarrow> (agent_error, disk list) outcome \<Rightarrow> (nat \<Rightarrow> nat option option) \<Rightarrow>
   (agent_error \<Rightarrow> string) \<Rightarrow> agent_job_lease \<Rightarrow>
   ((client_error, unit) outcome \<times> agent_job_completion) option" where
  "execute_lease answer server disks post show lease =
     (let result = and_then disks (\<lambda>ds. fst (execute answer server lease ds)) in
      map_option (\<lambda>(r, slept). (r, completion_of lease result show))
        (report_completion post 0 new_backoff []))"

section \<open>The loop\<close>

record heartbeat_outcome =
  ho_acknowledgment :: agent_heartbeat_ack
  ho_inventory_has_disks :: bool

record client_answers =
  ca_register :: "(client_error, agent_registration) outcome"
  ca_heartbeat :: "(client_error, heartbeat_outcome) outcome"
  ca_claim :: "(client_error, agent_job_lease option) outcome"
  ca_execute :: "agent_job_lease \<Rightarrow> (client_error, unit) outcome"

datatype client_phase =
    Registering
  | Connected agent_registration u64
  | Stopped "(client_error, unit) outcome"

record client_state =
  cs_phase :: client_phase
  cs_backoff :: retry_backoff

datatype client_event =
    Sent_Registration
  | Sent_Heartbeat agent_registration
  | Sent_Claim agent_registration
  | Executed agent_job_lease
  | Slept nat

definition clamp_interval :: "u64 \<Rightarrow> u64" where "clamp_interval n = max 2 (min n 300)"

definition claim_job_if_disk_available ::
  "bool \<Rightarrow> (client_error, agent_job_lease option) outcome \<Rightarrow> (client_error, agent_job_lease option) outcome" where
  "claim_job_if_disk_available has_disks claim = (if \<not> has_disks then Ok None else claim)"

definition retry_later :: "client_state \<Rightarrow> client_state \<times> client_event list" where
  "retry_later st =
     (st \<lparr> cs_phase := Registering, cs_backoff := snd (wait_backoff (cs_backoff st)) \<rparr>,
      [Slept (fst (wait_backoff (cs_backoff st)))])"

text \<open>What follows a claim: the lease is executed, then the agent sleeps until the next heartbeat.\<close>

definition after_claim ::
  "cli \<Rightarrow> client_answers \<Rightarrow> agent_registration \<Rightarrow> u64 \<Rightarrow> heartbeat_outcome \<Rightarrow> agent_job_lease option \<Rightarrow>
   client_state \<Rightarrow> client_state \<times> client_event list" where
  "after_claim c ans reg interval hb lease st =
     (let next = (if cli_heartbeat_interval c = None
                  then clamp_interval (ack_next_heartbeat_seconds (ho_acknowledgment hb)) else interval);
          again = st \<lparr> cs_phase := Connected reg next \<rparr> in
      case lease of
        None \<Rightarrow> (again, [Slept (unat next)])
      | Some l \<Rightarrow>
          (case ca_execute ans l of
             Ok _ \<Rightarrow> (again, [Executed l, Slept (unat next)])
           | r \<Rightarrow> (st \<lparr> cs_phase := Stopped r \<rparr>, [Executed l])))"

definition after_heartbeat ::
  "cli \<Rightarrow> client_answers \<Rightarrow> agent_registration \<Rightarrow> u64 \<Rightarrow> heartbeat_outcome \<Rightarrow>
   client_state \<Rightarrow> client_state \<times> client_event list" where
  "after_heartbeat c ans reg interval hb st =
     (let claimed = (if ho_inventory_has_disks hb then [Sent_Claim reg] else []) in
      case claim_job_if_disk_available (ho_inventory_has_disks hb) (ca_claim ans) of
        Ok lease \<Rightarrow>
          let (st', es) = after_claim c ans reg interval hb lease (st \<lparr> cs_backoff := reset_backoff (cs_backoff st) \<rparr>)
          in (st', claimed @ es)
      | Err e \<Rightarrow> let (st', es) = retry_later st in (st', claimed @ es)
      | Panic \<Rightarrow> (st \<lparr> cs_phase := Stopped Panic \<rparr>, claimed))"

fun client_step :: "cli \<Rightarrow> client_answers \<Rightarrow> client_state \<Rightarrow> client_state \<times> client_event list" where
  "client_step c ans st =
     (case cs_phase st of
        Stopped r \<Rightarrow> (st, [])
      | Registering \<Rightarrow>
          (case ca_register ans of
             Ok reg \<Rightarrow>
               (st \<lparr> cs_phase := Connected reg (clamp_interval
                     (case cli_heartbeat_interval c of Some n \<Rightarrow> n | None \<Rightarrow> reg_heartbeat_interval_seconds reg)),
                    cs_backoff := reset_backoff (cs_backoff st) \<rparr>, [Sent_Registration])
           | Err e \<Rightarrow> let (st', es) = retry_later st in (st', Sent_Registration # es)
           | Panic \<Rightarrow> (st \<lparr> cs_phase := Stopped Panic \<rparr>, [Sent_Registration]))
      | Connected reg interval \<Rightarrow>
          (case ca_heartbeat ans of
             Ok hb \<Rightarrow>
               let st = st \<lparr> cs_backoff := reset_backoff (cs_backoff st) \<rparr> in
               if cli_once c then (st \<lparr> cs_phase := Stopped (Ok ()) \<rparr>, [Sent_Heartbeat reg])
               else let (st', es) = after_heartbeat c ans reg interval hb st in (st', Sent_Heartbeat reg # es)
           | Err e \<Rightarrow> let (st', es) = retry_later st in (st', Sent_Heartbeat reg # es)
           | Panic \<Rightarrow> (st \<lparr> cs_phase := Stopped Panic \<rparr>, [Sent_Heartbeat reg])))"

declare client_step.simps [simp del]

fun client_run :: "cli \<Rightarrow> client_answers list \<Rightarrow> client_state \<Rightarrow> client_state \<times> client_event list" where
  "client_run c [] st = (st, [])"
| "client_run c (ans # rest) st =
     (let (st1, es) = client_step c ans st; (st2, fs) = client_run c rest st1 in (st2, es @ fs))"

definition initial_client :: client_state where
  "initial_client = \<lparr> cs_phase = Registering, cs_backoff = new_backoff \<rparr>"

section \<open>What the loop promises\<close>

text \<open>Every request where it belongs: claims after heartbeats, executions after claims.\<close>

fun follows :: "client_event option \<Rightarrow> client_event list \<Rightarrow> bool" where
  "follows before [] = True"
| "follows before (e # es) =
     ((case e of
         Sent_Claim reg \<Rightarrow> before = Some (Sent_Heartbeat reg)
       | Executed l \<Rightarrow> (\<exists>reg. before = Some (Sent_Claim reg))
       | Slept n \<Rightarrow> 1 \<le> n \<and> n \<le> 300
       | _ \<Rightarrow> True) \<and> follows (Some e) es)"

text \<open>Nothing depends on what precedes a run: it starts with a registration or a heartbeat.\<close>

definition opens :: "client_event list \<Rightarrow> bool" where
  "opens es = (case es of [] \<Rightarrow> True | Sent_Registration # _ \<Rightarrow> True | Sent_Heartbeat r # _ \<Rightarrow> True | _ \<Rightarrow> False)"

lemma follows_append: "follows before es \<Longrightarrow> follows None fs \<Longrightarrow> opens fs \<Longrightarrow> follows before (es @ fs)"
proof (induction before es rule: follows.induct)
  case (1 before)
  then show ?case by (cases fs) (auto simp: opens_def split: client_event.splits)
qed simp

definition client_ok :: "client_state \<Rightarrow> bool" where
  "client_ok st =
     (rb_next_delay (cs_backoff st) \<in> {1..30} \<and>
      (case cs_phase st of Connected reg interval \<Rightarrow> unat interval \<in> {2..300} | _ \<Rightarrow> True))"

lemma clamp_bounds [simp]: "2 \<le> unat (clamp_interval n)" "unat (clamp_interval n) \<le> 300"
  by (auto simp: clamp_interval_def max_def min_def word_le_nat_alt)

lemma backoff_ok:
  "rb_next_delay b \<in> {1..30} \<Longrightarrow> rb_next_delay (snd (wait_backoff b)) \<in> {1..30}"
  "fst (wait_backoff b) = rb_next_delay b" "rb_next_delay (reset_backoff b) = 1"
  by (auto simp: wait_backoff_def reset_backoff_def initial_retry_delay_def max_retry_delay_def)

lemma retry_ok:
  assumes "client_ok st" "retry_later st = (st', es)"
  shows "client_ok st' \<and> (\<exists>n. es = [Slept n] \<and> 1 \<le> n \<and> n \<le> 30)"
  using assms by (auto simp: retry_later_def client_ok_def backoff_ok split: client_phase.splits)
    (use backoff_ok(1) in fastforce)+

lemma after_claim_ok:
  assumes "client_ok st" "after_claim c ans reg interval hb lease st = (st', es)" "unat interval \<in> {2..300}"
  shows "client_ok st' \<and> (\<exists>n. n \<in> {2..300} \<and> es \<in> {[Slept n]} \<union> (\<lambda>l. [Executed l, Slept n]) ` (set_option lease) \<union>
    (\<lambda>l. [Executed l]) ` (set_option lease))"
proof -
  have "unat (if cli_heartbeat_interval c = None
      then clamp_interval (ack_next_heartbeat_seconds (ho_acknowledgment hb)) else interval) \<in> {2..300}"
    using assms(3) clamp_bounds by simp
  with assms(1,2) show ?thesis
    by (auto simp: after_claim_def Let_def client_ok_def split: option.splits outcome.splits)
qed

lemma after_heartbeat_ok:
  assumes "client_ok st" "after_heartbeat c ans reg interval hb st = (st', es)" "unat interval \<in> {2..300}"
  shows "client_ok st' \<and> follows (Some (Sent_Heartbeat reg)) es \<and>
    (\<forall>l. Executed l \<in> set es \<longrightarrow> ho_inventory_has_disks hb \<and> ca_claim ans = Ok (Some l))"
proof (cases "claim_job_if_disk_available (ho_inventory_has_disks hb) (ca_claim ans)")
  case (Ok lease)
  let ?st = "st \<lparr> cs_backoff := reset_backoff (cs_backoff st) \<rparr>"
  obtain st1 fs where a: "after_claim c ans reg interval hb lease ?st = (st1, fs)" by fastforce
  have "client_ok ?st" using assms(1) by (auto simp: client_ok_def backoff_ok split: client_phase.splits)
  note ok = after_claim_ok [OF this a assms(3)]
  have es: "es = (if ho_inventory_has_disks hb then [Sent_Claim reg] else []) @ fs" "st' = st1"
    using assms(2) Ok a by (auto simp: after_heartbeat_def)
  have l: "lease = Some l \<Longrightarrow> ho_inventory_has_disks hb \<and> ca_claim ans = Ok (Some l)" for l
    using Ok by (auto simp: claim_job_if_disk_available_def split: if_splits)
  show ?thesis
    using ok l by (cases lease) (auto simp: es)
next
  case (Err e)
  obtain st1 fs where r: "retry_later st = (st1, fs)" by fastforce
  from retry_ok [OF assms(1) r] obtain n where "client_ok st1" "fs = [Slept n]" "1 \<le> n" "n \<le> 30" by blast
  with assms(2) Err r show ?thesis by (auto simp: after_heartbeat_def)
next
  case Panic
  with assms show ?thesis
    by (auto simp: after_heartbeat_def client_ok_def)
qed

lemma client_step_ok:
  assumes "client_ok st" "client_step c ans st = (st', es)"
  shows "client_ok st' \<and> follows None es \<and> opens es \<and>
    (\<forall>l. Executed l \<in> set es \<longrightarrow> ca_claim ans = Ok (Some l) \<and>
      (\<exists>hb. ca_heartbeat ans = Ok hb \<and> ho_inventory_has_disks hb))"
proof (cases "cs_phase st")
  case Registering
  obtain st1 fs where r: "retry_later st = (st1, fs)" by fastforce
  from retry_ok [OF assms(1) r] obtain n where "client_ok st1" "fs = [Slept n]" "1 \<le> n" "n \<le> 30" by blast
  with Registering assms r show ?thesis
    by (cases "ca_register ans")
      (auto simp: client_step.simps opens_def client_ok_def backoff_ok)
next
  case (Connected reg interval)
  obtain st1 fs where r: "retry_later st = (st1, fs)" by fastforce
  from retry_ok [OF assms(1) r] obtain n where n: "client_ok st1" "fs = [Slept n]" "1 \<le> n" "n \<le> 30" by blast
  show ?thesis
  proof (cases "ca_heartbeat ans")
    case (Ok hb)
    let ?st = "st \<lparr> cs_backoff := reset_backoff (cs_backoff st) \<rparr>"
    obtain st2 gs where h: "after_heartbeat c ans reg interval hb ?st = (st2, gs)" by fastforce
    have i: "client_ok ?st" "unat interval \<in> {2..300}"
      using assms(1) Connected by (auto simp: client_ok_def backoff_ok)
    from after_heartbeat_ok [OF i(1) h i(2)] Connected Ok assms(2) h i(1) show ?thesis
      by (auto simp: client_step.simps Let_def opens_def client_ok_def split: if_splits)
  next
    case (Err e)
    with Connected assms(2) r n show ?thesis by (auto simp: client_step.simps opens_def)
  next
    case Panic
    with Connected assms show ?thesis by (auto simp: client_step.simps opens_def client_ok_def)
  qed
next
  case (Stopped res)
  with assms show ?thesis by (auto simp: client_step.simps opens_def)
qed

lemma opens_append: "opens es \<Longrightarrow> opens fs \<Longrightarrow> opens (es @ fs)"
  by (cases es) (auto simp: opens_def)

lemma client_run_ok:
  "client_ok st \<Longrightarrow> client_run c anss st = (st', es) \<Longrightarrow>
     client_ok st' \<and> follows None es \<and> opens es \<and>
     (\<forall>l. Executed l \<in> set es \<longrightarrow> (\<exists>ans \<in> set anss. ca_claim ans = Ok (Some l)))"
proof (induction anss arbitrary: st es)
  case Nil
  then show ?case by (simp add: opens_def)
next
  case (Cons ans anss)
  obtain st1 fs where s: "client_step c ans st = (st1, fs)" by fastforce
  obtain st2 gs where r: "client_run c anss st1 = (st2, gs)" by fastforce
  have eq: "st' = st2" "es = fs @ gs" using Cons.prems(2) s r by simp_all
  note step = client_step_ok [OF Cons.prems(1) s]
  from step have "client_ok st1" by blast
  note rest = Cons.IH [OF this, of gs]
  from rest r eq have rest: "client_ok st'" "follows None gs" "opens gs"
    "\<forall>l. Executed l \<in> set gs \<longrightarrow> (\<exists>ans \<in> set anss. ca_claim ans = Ok (Some l))" by simp_all
  with step show ?case
    by (auto simp: eq(2) intro: follows_append opens_append)
qed

lemma stopped_run: "cs_phase st = Stopped r \<Longrightarrow> client_run c anss st = (st, [])"
  by (induction anss) (simp_all add: client_step.simps)

lemma client_run_append:
  "client_run c (xs @ ys) st =
     (let (st1, es) = client_run c xs st; (st2, fs) = client_run c ys st1 in (st2, es @ fs))"
  by (induction xs arbitrary: st) (auto simp: split: prod.splits)

text \<open>
  C18.  Whatever the service answers, the agent claims a job only directly
  after a heartbeat under the same registration, executes only a lease the
  service granted to the claim before, and sleeps between 1 and 300 seconds at
  a time; and once it stopped, no further request is sent.
\<close>

theorem client_follows_protocol:
  assumes "client_run c anss initial_client = (st, es)"
  shows "follows None es \<and>
    (\<forall>l. Executed l \<in> set es \<longrightarrow> (\<exists>ans \<in> set anss. ca_claim ans = Ok (Some l))) \<and>
    (\<forall>r more. cs_phase st = Stopped r \<longrightarrow> client_run c (anss @ more) initial_client = (st, es))"
proof -
  have "client_ok initial_client"
    by (simp add: client_ok_def initial_client_def new_backoff_def initial_retry_delay_def)
  from client_run_ok [OF this assms] assms show ?thesis
    by (auto simp: client_run_append stopped_run)
qed

text \<open>The delay before the n-th retry.\<close>

lemma backoff_delay:
  "rb_next_delay (((\<lambda>b. snd (wait_backoff b)) ^^ n) new_backoff) = min (2 ^ n) 30"
  by (induction n)
    (auto simp: new_backoff_def wait_backoff_def initial_retry_delay_def max_retry_delay_def min_def)

lemma completion_retries:
  assumes "\<forall>m < n. \<exists>s. post (k + m) = Some s \<and> is_transient_request_error s"
  shows "report_completion post k b slept =
    report_completion post (k + n) (((\<lambda>b. snd (wait_backoff b)) ^^ n) b)
      (slept @ map (\<lambda>i. rb_next_delay (((\<lambda>b. snd (wait_backoff b)) ^^ i) b)) [0..<n])"
  using assms
proof (induction n)
  case (Suc n)
  then obtain s where s: "post (k + n) = Some s" "is_transient_request_error s" by auto
  have "report_completion post k b slept =
    report_completion post (k + n) (((\<lambda>b. snd (wait_backoff b)) ^^ n) b)
      (slept @ map (\<lambda>i. rb_next_delay (((\<lambda>b. snd (wait_backoff b)) ^^ i) b)) [0..<n])"
    using Suc by simp
  also have "\<dots> = report_completion post (k + Suc n) (((\<lambda>b. snd (wait_backoff b)) ^^ Suc n) b)
      (slept @ map (\<lambda>i. rb_next_delay (((\<lambda>b. snd (wait_backoff b)) ^^ i) b)) [0..<Suc n])"
    by (subst report_completion.simps) (simp add: s backoff_ok)
  finally show ?case .
qed simp

text \<open>
  The end of a lease is reported until the service answers for good: the
  k-th retry waits \<open>min (2 ^ k) 30\<close> seconds, the agent goes on exactly when the
  report was taken, and the report says success exactly when every action of
  the deployment succeeded.
\<close>

theorem completion_is_reported:
  assumes "\<forall>m < n. \<exists>s. post m = Some s \<and> is_transient_request_error s"
    and "\<forall>s. post n = Some s \<longrightarrow> \<not> is_transient_request_error s"
  shows "report_completion post 0 new_backoff [] =
      Some (if post n = None then Ok () else Err Completion_Unconfirmed, map (\<lambda>k. min (2 ^ k) 30) [0..<n]) \<and>
    (\<exists>r. execute_lease answer server disks post show lease = Some (r, completion_of lease
        (and_then disks (\<lambda>ds. fst (execute answer server lease ds))) show) \<and>
      (r = Ok () \<longleftrightarrow> post n = None)) \<and>
    ajc_succeeded (completion_of lease result show) = is_ok result"
proof -
  have r: "report_completion post 0 new_backoff [] =
      Some (if post n = None then Ok () else Err Completion_Unconfirmed, map (\<lambda>k. min (2 ^ k) 30) [0..<n])"
  proof -
    let ?b = "((\<lambda>b. snd (wait_backoff b)) ^^ n) new_backoff" and ?ds = "map (\<lambda>k. min (2 ^ k) 30) [0..<n]"
    have "report_completion post 0 new_backoff [] = report_completion post n ?b ?ds"
      using completion_retries [of n post 0 new_backoff "[]"] assms(1) by (simp add: backoff_delay)
    also have "\<dots> = Some (if post n = None then Ok () else Err Completion_Unconfirmed, ?ds)"
      using assms(2) by (subst report_completion.simps) (auto split: option.splits)
    finally show ?thesis .
  qed
  then show ?thesis
    by (simp add: execute_lease_def Let_def completion_of_def)
qed

theorem client_follows_protocol_witness:
  "\<exists>es. follows None es \<and> Sent_Registration \<in> set es \<and>
     fst (client_run \<lparr> cli_server = None, cli_enrollment_token = None, cli_bootstrap = None, cli_once = True,
       cli_heartbeat_interval = None \<rparr>
     [\<lparr> ca_register = Err (Request_Failed None), ca_heartbeat = Panic, ca_claim = Panic, ca_execute = (\<lambda>l. Panic) \<rparr>]
     initial_client) = initial_client \<lparr> cs_backoff := \<lparr> rb_recovery_attempt = 1, rb_next_delay = 2 \<rparr> \<rparr>"
proof -
  let ?c = "\<lparr> cli_server = None, cli_enrollment_token = None, cli_bootstrap = None, cli_once = True,
       cli_heartbeat_interval = None \<rparr>"
  let ?anss = "[\<lparr> ca_register = Err (Request_Failed None), ca_heartbeat = Panic, ca_claim = Panic,
     ca_execute = (\<lambda>l. Panic) \<rparr>]"
  have r: "client_run ?c ?anss initial_client =
      (initial_client \<lparr> cs_backoff := \<lparr> rb_recovery_attempt = 1, rb_next_delay = 2 \<rparr> \<rparr>,
       [Sent_Registration, Slept 1])"
    by (simp add: client_step.simps initial_client_def retry_later_def wait_backoff_def new_backoff_def
        initial_retry_delay_def max_retry_delay_def saturating_add_def)
  from client_follows_protocol [OF r] have "follows None [Sent_Registration, Slept 1]" by blast
  with r show ?thesis by (intro exI [of _ "[Sent_Registration, Slept 1]"]) simp
qed

theorem completion_is_reported_witness:
  "report_completion (\<lambda>n. if n < 2 then Some (Some 503) else None) 0 new_backoff [] = Some (Ok (), [1, 2])"
proof -
  let ?post = "\<lambda>n :: nat. if n < 2 then Some (Some (503 :: nat)) else None"
  have t: "\<forall>m < 2. \<exists>s. ?post m = Some s \<and> is_transient_request_error s"
    "\<forall>s. ?post 2 = Some s \<longrightarrow> \<not> is_transient_request_error s"
    by (simp_all add: is_transient_request_error_def)
  from completion_is_reported [OF t] show ?thesis by (simp add: numeral_2_eq_2)
qed

end
