(* ===== verification/Activity_Repository.thy ===== *)
theory Activity_Repository
  imports Core_Models Durable_Store
begin

text \<open>
  The activity log (\<open>crates/service/src/activity_repository.rs\<close>): events in the
  order they were recorded, kept for 30 days and at most 10000 of them, in
  memory and in one file.  A value of JSON is the type variable.
\<close>

definition retention :: int where "retention = 30 * 24 * 60 * 60 * 1000000000"
definition max_events :: nat where "max_events = 10000"

datatype activity_error = Activity_Lock_Poisoned | Activity_Write_Error

record activity_query =
  aq_sources :: "activity_source list"
  aq_severities :: "activity_severity list"
  aq_before :: "instant option"
  aq_after :: "instant option"
  aq_limit :: nat

record 'json activity_repository =
  ar_file :: "'json activity_event list stored"
  ar_events :: "'json activity_event list"

text \<open>The arguments of \<open>record\<close>.\<close>

record 'json activity_draft =
  ad_source :: activity_source
  ad_kind :: string
  ad_severity :: activity_severity
  ad_subject :: "activity_subject option"
  ad_details :: "(string \<times> 'json) list"
  ad_raw_message :: "string option"

record 'json activity_env =
  ae_clock :: "nat \<Rightarrow> instant"
  ae_id :: uuid
  ae_write :: "'json activity_event list write_result"

section \<open>Operations\<close>

definition prune_events :: "instant \<Rightarrow> 'json activity_event list \<Rightarrow> 'json activity_event list" where
  "prune_events now es =
     (let kept = filter (\<lambda>e. ev_occurred_at e \<ge> now - retention) es in
      if length kept > max_events then drop (length kept - max_events) kept else kept)"

definition commit_events ::
  "'json activity_event list write_result \<Rightarrow> 'json activity_repository \<Rightarrow>
   'json activity_event list \<Rightarrow> 'a \<Rightarrow> (activity_error, 'a) outcome \<times> 'json activity_repository" where
  "commit_events w repo next v =
     (case w of
        Written \<Rightarrow> (Ok v, \<lparr> ar_file = file_after w next, ar_events = next \<rparr>)
      | Write_Failed c \<Rightarrow> (Err Activity_Write_Error, repo \<lparr> ar_file := c \<rparr>))"

definition prune_repository ::
  "instant \<Rightarrow> 'json activity_event list write_result \<Rightarrow> 'json activity_repository \<Rightarrow>
   (activity_error, unit) outcome \<times> 'json activity_repository" where
  "prune_repository now w repo =
     (let next = prune_events now (ar_events repo) in
      if length next \<noteq> length (ar_events repo) then commit_events w repo next () else (Ok (), repo))"

text \<open>A file that cannot be read or parsed opens as an empty log.\<close>

definition logged_events ::
  "'json activity_event list codec \<Rightarrow> file_access \<Rightarrow> 'json activity_event list stored \<Rightarrow>
   'json activity_event list" where
  "logged_events c io file =
     (case file_bytes c file of
        None \<Rightarrow> []
      | Some b \<Rightarrow> if fa_readable io then (case cd_parse c b of None \<Rightarrow> [] | Some es \<Rightarrow> es) else [])"

definition open_activities ::
  "'json activity_event list codec \<Rightarrow> file_access \<Rightarrow> 'json activity_event list stored \<Rightarrow> instant \<Rightarrow>
   'json activity_event list write_result \<Rightarrow> (activity_error, 'json activity_repository) outcome" where
  "open_activities c io file now w =
     and_then (ensure (fa_directory io) Activity_Write_Error) (\<lambda>_.
       let (r, repo') = prune_repository now w \<lparr> ar_file = file, ar_events = logged_events c io file \<rparr> in
       map_ok (\<lambda>_. repo') r)"

definition event_of :: "'json activity_draft \<Rightarrow> 'json activity_env \<Rightarrow> 'json activity_event" where
  "event_of d e =
     \<lparr> ev_id = ae_id e, ev_occurred_at = ae_clock e 0, ev_source = ad_source d, ev_kind = ad_kind d,
       ev_severity = ad_severity d, ev_subject = ad_subject d, ev_details = ad_details d,
       ev_raw_message = ad_raw_message d \<rparr>"

definition record_activity ::
  "'json activity_draft \<times> 'json activity_env \<Rightarrow> 'json activity_repository \<Rightarrow>
   (activity_error, 'json activity_event) outcome \<times> 'json activity_repository" where
  "record_activity = (\<lambda>(d, e) repo.
     commit_events (ae_write e) repo
       (prune_events (ae_clock e 1) (ar_events repo @ [event_of d e])) (event_of d e))"

definition matches_query :: "activity_query \<Rightarrow> 'json activity_event \<Rightarrow> bool" where
  "matches_query q e =
     ((aq_sources q = [] \<or> ev_source e \<in> set (aq_sources q)) \<and>
      (aq_severities q = [] \<or> ev_severity e \<in> set (aq_severities q)) \<and>
      (case aq_before q of None \<Rightarrow> True | Some t \<Rightarrow> ev_occurred_at e < t) \<and>
      (case aq_after q of None \<Rightarrow> True | Some t \<Rightarrow> ev_occurred_at e > t))"

definition query_activities :: "activity_query \<Rightarrow> 'json activity_repository \<Rightarrow> 'json activity_event list" where
  "query_activities q repo =
     take (max 1 (min (aq_limit q) 500)) (filter (matches_query q) (rev (ar_events repo)))"

section \<open>Laws\<close>

lemma prune_suffix: "\<exists>us. filter (\<lambda>e. ev_occurred_at e \<ge> now - retention) es = us @ prune_events now es"
proof -
  let ?kept = "filter (\<lambda>e. ev_occurred_at e \<ge> now - retention) es"
  have "?kept = take (length ?kept - max_events) ?kept @ prune_events now es"
    by (simp add: prune_events_def Let_def)
  then show ?thesis by blast
qed

lemma prune_bound: "length (prune_events now es) \<le> max_events"
  by (simp add: prune_events_def Let_def)

lemma prune_id:
  "length es \<le> max_events \<Longrightarrow> \<forall>e \<in> set es. ev_occurred_at e \<ge> now - retention \<Longrightarrow> prune_events now es = es"
  by (simp add: prune_events_def)

lemma commits_events: "commits ar_events ar_file (commit_events w)"
  by (cases w) (auto simp: commits_def commit_events_def)

interpretation activities: durable_store record_activity ar_events ar_file
    "\<lambda>es. length es \<le> max_events" "\<lambda>q s. True"
proof unfold_locales
  fix q :: "'json activity_draft \<times> 'json activity_env" and s t :: "'json activity_repository"
  obtain d e where q: "q = (d, e)" by fastforce
  have frame: "frames ar_events ar_file (record_activity q)"
  proof -
    let ?g = "\<lambda>es :: 'json activity_event list.
      Inr (prune_events (ae_clock e 1) (es @ [event_of d e]), event_of d e)"
    have "record_activity q = (\<lambda>s. case ?g (ar_events s) of
        Inl r \<Rightarrow> (r, s) | Inr (next, v) \<Rightarrow> commit_events (ae_write e) s next v)"
      by (simp add: record_activity_def q fun_eq_iff)
    then show ?thesis using frames_commit [OF commits_events, of "ae_write e" ?g] by (simp only:)
  qed
  show "ar_events s = ar_events t \<Longrightarrow> fst (record_activity q s) = fst (record_activity q t)"
    "ar_events s = ar_events t \<Longrightarrow> ar_events (snd (record_activity q s)) = ar_events (snd (record_activity q t))"
    "\<not> is_ok (fst (record_activity q s)) \<Longrightarrow> ar_events (snd (record_activity q s)) = ar_events s"
    "is_ok (fst (record_activity q s)) \<Longrightarrow> snd (record_activity q s) = s \<or>
       ar_file (snd (record_activity q s)) = Stored (ar_events (snd (record_activity q s)))"
    by (rule framesD [OF frame], assumption)+
  show "length (ar_events s) \<le> max_events \<Longrightarrow> length (ar_events (snd (record_activity q s))) \<le> max_events"
    by (cases "ae_write e") (simp_all add: record_activity_def q commit_events_def prune_bound)
  show "fst (record_activity q s) \<noteq> Panic"
    by (cases "ae_write e") (simp_all add: record_activity_def q commit_events_def)
qed

text \<open>
  The log stays within 10000 events over any history, whatever writes
  fail, and a query answers at most 500 of them; and as long as every write
  succeeded, opening the file again within the retention of its events, when it
  can be read and its bytes parse to what was written, gives the log in memory
  back.
\<close>

theorem activity_log_is_bounded_and_durable:
  fixes repo :: "'json activity_repository" and qs :: "('json activity_draft \<times> 'json activity_env) list"
  assumes "length (ar_events repo) \<le> max_events"
  defines "log \<equiv> run_ops record_activity qs repo"
  shows "length (ar_events log) \<le> 10000 \<and> length (query_activities q log) \<le> 500 \<and>
    (ar_file repo = Stored (ar_events repo) \<and> accepted record_activity qs repo = qs \<and>
       (\<forall>e \<in> set (ar_events log). ev_occurred_at e \<ge> now - retention) \<and>
       faithful_on c (ar_file log) \<and> fa_directory io \<and> fa_readable io \<longrightarrow>
     open_activities c io (ar_file log) now w = Ok log)"
proof -
  have "all_admissible record_activity (\<lambda>q s. True) qs repo" by (induction qs arbitrary: repo) simp_all
  from activities.run_inv [OF assms(1) this] have b: "length (ar_events log) \<le> max_events"
    by (simp add: log_def)
  have "open_activities c io (ar_file log) now w = Ok log"
    if "ar_file repo = Stored (ar_events repo)" "accepted record_activity qs repo = qs"
      "\<forall>e \<in> set (ar_events log). ev_occurred_at e \<ge> now - retention"
      "faithful_on c (ar_file log)" "fa_directory io" "fa_readable io"
  proof -
    have "ar_file log = Stored (ar_events log)"
      using activities.run_durable [OF that(1,2)] by (simp add: log_def)
    with prune_id [OF b that(3)] that(4-6) show ?thesis
      by (cases log) (simp add: open_activities_def logged_events_def prune_repository_def ensure_def)
  qed
  moreover have "length (query_activities q log) \<le> 500"
    by (simp add: query_activities_def)
  ultimately show ?thesis using b by (simp add: max_events_def)
qed

text \<open>
  Recording keeps the newest events: afterwards the log is a suffix of the
  earlier events that have not expired, followed by the new event, and an event
  is dropped only when it is older than 30 days or 10000 newer ones are kept.
\<close>

theorem recording_keeps_newest:
  assumes "record_activity (d, e) repo = (Ok ev, repo')" "ae_clock e 1 \<le> ae_clock e 0 + retention"
  shows "\<exists>us kept. filter (\<lambda>x. ev_occurred_at x \<ge> ae_clock e 1 - retention) (ar_events repo) = us @ kept \<and>
    ar_events repo' = kept @ [ev] \<and> (us = [] \<or> length (ar_events repo') = 10000)"
proof -
  let ?now = "ae_clock e 1"
  let ?old = "filter (\<lambda>x. ev_occurred_at x \<ge> ?now - retention) (ar_events repo)"
  have r: "ar_events repo' = prune_events ?now (ar_events repo @ [ev])" "ev = event_of d e"
    using assms(1) by (cases "ae_write e"; auto simp: record_activity_def commit_events_def)+
  have fresh: "filter (\<lambda>x. ev_occurred_at x \<ge> ?now - retention) (ar_events repo @ [ev]) = ?old @ [ev]"
    using assms(2) by (simp add: r(2) event_of_def)
  have p: "ar_events repo' = (let kept = ?old @ [ev] in
      if length kept > max_events then drop (length kept - max_events) kept else kept)"
    by (simp only: r(1) prune_events_def fresh)
  show ?thesis
  proof (cases "length (?old @ [ev]) > max_events")
    case True
    let ?n = "length (?old @ [ev]) - max_events"
    have "?n \<le> length ?old" by (simp add: max_events_def)
    then have "ar_events repo' = drop ?n ?old @ [ev]"
      using True by (simp add: p Let_def)
    moreover have "length (ar_events repo') = 10000"
      using True by (simp add: p Let_def max_events_def)
    ultimately show ?thesis
      by (intro exI [of _ "take ?n ?old"] exI [of _ "drop ?n ?old"]) simp
  next
    case False
    then have "ar_events repo' = ?old @ [ev]"
      by (simp add: p Let_def)
    then show ?thesis by (intro exI [of _ "[]"] exI [of _ ?old]) simp
  qed
qed

section \<open>A concrete log\<close>

definition sample_draft :: "unit activity_draft" where
  "sample_draft = \<lparr> ad_source = Src_Device, ad_kind = ''device_registered'', ad_severity = Sev_Success,
     ad_subject = None, ad_details = [], ad_raw_message = None \<rparr>"

definition sample_activity_env :: "unit activity_env" where
  "sample_activity_env = \<lparr> ae_clock = (\<lambda>n. 100 + int n), ae_id = 1, ae_write = Written \<rparr>"

theorem activity_log_is_bounded_and_durable_witness:
  "open_activities
     \<lparr> cd_render = (\<lambda>es. []), cd_parse = (\<lambda>b. Some [event_of sample_draft sample_activity_env]) \<rparr>
     \<lparr> fa_directory = True, fa_found = True, fa_readable = True \<rparr>
     (ar_file (run_ops record_activity [(sample_draft, sample_activity_env)]
      \<lparr> ar_file = Stored [], ar_events = [] \<rparr>)) 200 Written =
   Ok (run_ops record_activity [(sample_draft, sample_activity_env)] \<lparr> ar_file = Stored [], ar_events = [] \<rparr>)"
proof -
  let ?repo = "\<lparr> ar_file = Stored [], ar_events = [] \<rparr> :: unit activity_repository"
  have "is_ok (fst (record_activity (sample_draft, sample_activity_env) ?repo))"
    by (simp add: record_activity_def commit_events_def sample_activity_env_def)
  moreover have "ar_events (run_ops record_activity [(sample_draft, sample_activity_env)] ?repo) =
      [event_of sample_draft sample_activity_env]"
    by (simp add: record_activity_def commit_events_def sample_activity_env_def prune_events_def event_of_def
        retention_def max_events_def)
  moreover have "ev_occurred_at (event_of sample_draft sample_activity_env) \<ge> 200 - retention"
    by (simp add: event_of_def sample_activity_env_def retention_def)
  moreover have "ar_file (run_ops record_activity [(sample_draft, sample_activity_env)] ?repo) =
      Stored [event_of sample_draft sample_activity_env]"
    by (simp add: record_activity_def commit_events_def sample_activity_env_def prune_events_def event_of_def
        retention_def max_events_def)
  ultimately show ?thesis
    using activity_log_is_bounded_and_durable [of ?repo "[(sample_draft, sample_activity_env)]" _ 200
        "\<lparr> cd_render = (\<lambda>es. []), cd_parse = (\<lambda>b. Some [event_of sample_draft sample_activity_env]) \<rparr>"
        "\<lparr> fa_directory = True, fa_found = True, fa_readable = True \<rparr>" Written]
    by simp
qed

theorem recording_keeps_newest_witness:
  "\<exists>ev repo'. record_activity (sample_draft, sample_activity_env) \<lparr> ar_file = Absent, ar_events = [] \<rparr> = (Ok ev, repo') \<and>
     ar_events repo' = [ev]"
proof -
  obtain ev repo' where r: "record_activity (sample_draft, sample_activity_env) \<lparr> ar_file = Absent, ar_events = [] \<rparr> =
      (Ok ev, repo')"
    by (simp add: record_activity_def commit_events_def sample_activity_env_def)
  from recording_keeps_newest [OF r] r show ?thesis
    by (auto simp: sample_activity_env_def retention_def)
qed

end
