(* ===== verification/Control_Plane.thy ===== *)
theory Control_Plane
  imports Image_Data Installer_Safety Activity_Repository Http_Ranges
begin

text \<open>
  The HTTP API of the service (\<open>crates/service/src/control_plane.rs\<close>): one
  definition per route, composed of the registry, the job repository, the
  installer sessions and the activity log.  A request holds what the router
  extracted: path segments, the \<open>Authorization\<close> and \<open>Range\<close> headers, the query and
  the parsed body.  Parameters: the parser of identifiers, the digest, the
  printer of JSON strings, the file system, and the image library, whose
  validations are functions of the image.  A claim validates images between two
  looks at the state; \<open>between\<close> is what other requests do meanwhile.
\<close>

section \<open>Parameters and state\<close>

text \<open>An error of the image library is its text.\<close>

record services =
  sv_world :: service_world
  sv_parse_uuid :: "string \<Rightarrow> uuid option"
  sv_revalidate :: "uuid \<Rightarrow> u32 \<Rightarrow> bool"
  sv_prepare_gho :: "uuid \<Rightarrow> u32 \<Rightarrow> (string, prepared_gho_deployment) outcome"
  sv_image :: "uuid \<Rightarrow> image_artifact option"
  sv_read :: "string \<Rightarrow> bytes option"

text \<open>The values of the activity log's details.\<close>

datatype detail = Detail_Text string | Detail_Operation operation | Detail_Stage deployment_stage

record api_state =
  api_installer :: installer_deployment
  api_activities :: "detail activity_repository"
  api_enrollment_token_digest :: string
  api_installer_base_url :: string

record request_env =
  re_clock :: "nat \<Rightarrow> instant"
  re_device :: device_env
  re_session :: session_env
  re_activity :: "detail activity_env"

datatype api_error =
    Api_Unauthorized
  | Api_Not_Found
  | Api_Registry device_registry_error
  | Api_Jobs job_repository_error
  | Api_Images string
  | Api_Conflict string
  | Api_Installer installer_error
  | Api_Installer_Task
  | Api_Range u64

fun api_status :: "api_error \<Rightarrow> nat" where
  "api_status Api_Unauthorized = 401"
| "api_status Api_Not_Found = 404"
| "api_status (Api_Registry e) =
     (case e of Unauthorized \<Rightarrow> 401 | Device_Not_Found i \<Rightarrow> 404 | _ \<Rightarrow> 422)"
| "api_status (Api_Jobs e) =
     (case e of Job_Not_Found i \<Rightarrow> 404 | Invalid_Lease \<Rightarrow> 403 | Wrong_Device d \<Rightarrow> 403 | _ \<Rightarrow> 422)"
| "api_status (Api_Images e) = 422"
| "api_status (Api_Conflict m) = 409"
| "api_status (Api_Installer e) =
     (case e of
        Session_Unauthorized \<Rightarrow> 401
      | Session_Expired \<Rightarrow> 410
      | Authorization_In_Progress \<Rightarrow> 409
      | Invalid_Session_State \<Rightarrow> 409
      | Invalid_Request \<Rightarrow> 422
      | Target_Disk_Mismatch \<Rightarrow> 422
      | Installer_Sessions.Media_Integrity \<Rightarrow> 409
      | _ \<Rightarrow> 503)"
| "api_status Api_Installer_Task = 503"
| "api_status (Api_Range n) = 416"

text \<open>The \<open>Content-Range\<close> of an unsatisfiable range.\<close>

fun error_content_range :: "api_error \<Rightarrow> string option" where
  "error_content_range (Api_Range n) = Some (''bytes */'' @ dec (unat n))"
| "error_content_range _ = None"

section \<open>Plumbing\<close>

definition on_registry where
  "on_registry f st =
     (let (r, reg) = f (ind_registry (api_installer st)) in
      (map_err Api_Registry r, st \<lparr> api_installer := api_installer st \<lparr> ind_registry := reg \<rparr> \<rparr>))"

definition on_jobs where
  "on_jobs f st =
     (let (r, jobs) = f (ind_jobs (api_installer st)) in
      (map_err Api_Jobs r, st \<lparr> api_installer := api_installer st \<lparr> ind_jobs := jobs \<rparr> \<rparr>))"

definition on_installer where
  "on_installer f st =
     (let (r, installer) = f (api_installer st) in
      (map_err Api_Installer r, st \<lparr> api_installer := installer \<rparr>))"

text \<open>\<open>let _ = activities.record(\<dots>)\<close>: a failure to log is ignored.\<close>

definition log_activity :: "detail activity_draft \<Rightarrow> request_env \<Rightarrow> api_state \<Rightarrow> api_state" where
  "log_activity d e st =
     st \<lparr> api_activities := snd (record_activity (d, re_activity e) (api_activities st)) \<rparr>"

definition record_device_activity ::
  "registered_device \<Rightarrow> string \<Rightarrow> activity_severity \<Rightarrow> string option \<Rightarrow> request_env \<Rightarrow> api_state \<Rightarrow> api_state" where
  "record_device_activity registered kind severity raw =
     (let d = rd_device registered in
      log_activity
       \<lparr> ad_source = Src_Device, ad_kind = kind, ad_severity = severity,
         ad_subject = Some \<lparr> subj_id = uuid_text (dev_id d),
           subj_name = (case dev_hostname d of None \<Rightarrow> dev_mac_address d | Some h \<Rightarrow> h) \<rparr>,
         ad_details = [(''agentVersion'', Detail_Text (rd_agent_version registered)),
           (''ipAddress'', Detail_Text (dev_ip_address d)),
           (''macAddress'', Detail_Text (dev_mac_address d))],
         ad_raw_message = raw \<rparr>)"

definition record_job_activity ::
  "deployment_job \<Rightarrow> string \<Rightarrow> activity_severity \<Rightarrow> string option \<Rightarrow> request_env \<Rightarrow> api_state \<Rightarrow> api_state" where
  "record_job_activity j kind severity raw =
     log_activity
       \<lparr> ad_source = Src_Deployment, ad_kind = kind, ad_severity = severity,
         ad_subject = Some \<lparr> subj_id = uuid_text (job_id j), subj_name = job_name j \<rparr>,
         ad_details = [(''jobId'', Detail_Text (uuid_text (job_id j))),
             (''operation'', Detail_Operation (job_operation j))] @
           (case job_stage j of None \<Rightarrow> [] | Some s \<Rightarrow> [(''stage'', Detail_Stage s)]),
         ad_raw_message = raw \<rparr>"

section \<open>Authentication\<close>

definition bearer_token :: "string option \<Rightarrow> string option" where
  "bearer_token header =
     Option.bind header (\<lambda>raw.
     Option.bind (header_text raw) (\<lambda>text.
     Option.bind (strip_prefix ''Bearer '' text) non_empty))"

definition sv_digest :: "services \<Rightarrow> string \<Rightarrow> string" where "sv_digest sv = sw_digest (sv_world sv)"

definition authenticated_device ::
  "services \<Rightarrow> string \<Rightarrow> string option \<Rightarrow> api_state \<Rightarrow> (api_error, uuid) outcome" where
  "authenticated_device sv segment header st =
     and_then (ok_or (sv_parse_uuid sv segment) Api_Not_Found) (\<lambda>i.
     and_then (ok_or (bearer_token header) Api_Unauthorized) (\<lambda>token.
     map_ok (\<lambda>_. i)
       (map_err Api_Registry (authenticate (sv_digest sv) (ind_registry (api_installer st)) i token))))"

definition job_of_device ::
  "services \<Rightarrow> string \<Rightarrow> string \<Rightarrow> string option \<Rightarrow> api_state \<Rightarrow> (api_error, uuid \<times> uuid) outcome" where
  "job_of_device sv device job header st =
     and_then (authenticated_device sv device header st) (\<lambda>d.
     map_ok (\<lambda>i. (d, i)) (ok_or (sv_parse_uuid sv job) Api_Not_Found))"

definition device_entry :: "uuid \<Rightarrow> instant \<Rightarrow> api_state \<Rightarrow> registered_device option" where
  "device_entry i now st =
     find (\<lambda>r. dev_id (rd_device r) = i) (list_devices (ind_registry (api_installer st)) now)"

section \<open>Agents\<close>

definition post_register ::
  "services \<Rightarrow> string option \<Rightarrow> agent_inventory \<Rightarrow> string \<Rightarrow> request_env \<Rightarrow> api_state \<Rightarrow>
   (api_error, agent_registration) outcome \<times> api_state" where
  "post_register sv header invy peer e st =
     then_do (ok_or (bearer_token header) Api_Unauthorized, st) (\<lambda>token st.
     if \<not> secret_matches (sv_digest sv) (api_enrollment_token_digest st) token
     then (Err Api_Unauthorized, st)
     else
       let was_known = list_ex (\<lambda>r. dev_mac_address (rd_device r) = inv_mac_address invy)
             (list_devices (ind_registry (api_installer st)) (re_clock e 0)) in
       then_do (on_registry (register_agent (sv_digest sv) invy peer (re_device e)) st)
         (\<lambda>(registered, registration) st.
           (Ok registration,
            record_device_activity registered
              (if was_known then ''device_reconnected'' else ''device_registered'')
              Sev_Success None e st)))"

definition post_heartbeat ::
  "services \<Rightarrow> string \<Rightarrow> string option \<Rightarrow> agent_inventory \<Rightarrow> string \<Rightarrow> request_env \<Rightarrow> api_state \<Rightarrow>
   (api_error, agent_heartbeat_ack) outcome \<times> api_state" where
  "post_heartbeat sv device header invy peer e st =
     then_do (and_then (ok_or (sv_parse_uuid sv device) Api_Not_Found) (\<lambda>i.
         map_ok (\<lambda>token. (i, token)) (ok_or (bearer_token header) Api_Unauthorized)), st)
       (\<lambda>(i, token) st.
         let was_online = (case device_entry i (re_clock e 0) st of None \<Rightarrow> False | Some r \<Rightarrow> rd_online r) in
         then_do (on_registry (heartbeat (sv_digest sv) i token invy peer (re_device e)) st) (\<lambda>ack st.
           (Ok ack,
            if was_online then st
            else (case device_entry i (re_clock e 1) st of
                None \<Rightarrow> st
              | Some r \<Rightarrow> record_device_activity r ''device_reconnected'' Sev_Success None e st))))"

section \<open>Claiming a job\<close>

definition job_lease_minutes :: int where "job_lease_minutes = 120"

definition deploys_windows :: "deployment_job \<Rightarrow> bool" where
  "deploys_windows j = (job_operation j \<in> {Deploy_Wim, Deploy_Gho})"

definition targets_disk_of :: "uuid \<Rightarrow> device \<Rightarrow> deployment_job \<Rightarrow> bool" where
  "targets_disk_of d dev j =
     (length (job_targets j) = 1 \<and> tgt_device_id (hd (job_targets j)) = d \<and>
      list_ex (matches_disk (hd (job_targets j))) (dev_disks dev))"

definition claim_candidate :: "uuid \<Rightarrow> device \<Rightarrow> instant \<Rightarrow> deployment_job \<Rightarrow> bool" where
  "claim_candidate d dev now j =
     ((job_state j = Waiting \<or>
       (job_state j = Running \<and>
        (case job_lease_expires_at j of None \<Rightarrow> False | Some x \<Rightarrow> x < now))) \<and>
      targets_disk_of d dev j \<and> deploys_windows j)"

text \<open>The results are remembered per image, index and operation; each is a function of them.\<close>

definition image_validated :: "services \<Rightarrow> deployment_job \<Rightarrow> bool" where
  "image_validated sv j =
     (case job_operation j of
        Deploy_Wim \<Rightarrow> sv_revalidate sv (job_image_id j) (opt_image_index (job_options j))
      | Deploy_Gho \<Rightarrow> is_ok (sv_prepare_gho sv (job_image_id j) (opt_image_index (job_options j)))
      | _ \<Rightarrow> False)"

definition eligible_job_ids :: "services \<Rightarrow> uuid \<Rightarrow> device \<Rightarrow> instant \<Rightarrow> api_state \<Rightarrow> uuid list" where
  "eligible_job_ids sv d dev now st =
     map job_id (filter (image_validated sv)
       (filter (claim_candidate d dev now) (list_jobs (ind_jobs (api_installer st)))))"

definition lease_claimed ::
  "uuid \<Rightarrow> uuid list \<Rightarrow> request_env \<Rightarrow> api_state \<Rightarrow> (api_error, deployment_job option) outcome \<times> api_state" where
  "lease_claimed d ids e st =
     (let j = se_jobs (re_session e) in
      case with_current (ind_registry (api_installer st)) d (\<lambda>dev.
          on_jobs (lease_for_device_if d (minutes job_lease_minutes)
              (\<lambda>j. job_id j \<in> set ids \<and> deploys_windows j \<and> targets_disk_of d dev j)
              (env_fresh j) (env_clock j) (env_write j)) st) of
        Ok r \<Rightarrow> r
      | Err x \<Rightarrow> (Err (Api_Registry x), st)
      | Panic \<Rightarrow> (Panic, st))"

definition gho_download ::
  "services \<Rightarrow> deployment_job \<Rightarrow> (api_error, agent_gho_deployment option \<times> u64 \<times> string) outcome" where
  "gho_download sv j =
     and_then (map_err Api_Images (sv_prepare_gho sv (job_image_id j) (opt_image_index (job_options j)))) (\<lambda>p.
     let c = pgd_capability p in
     and_then (ok_or (gic_source_partition c) (Api_Conflict ''GHO source partition is missing'')) (\<lambda>n.
     and_then (ok_or (gic_expanded_size_bytes c) (Api_Conflict ''GHO expanded size is missing'')) (\<lambda>size.
     and_then (ok_or (gic_expanded_sha256 c) (Api_Conflict ''GHO expanded checksum is missing'')) (\<lambda>sha.
     Ok (Some \<lparr> agd_source_partition = n, agd_expanded_size_bytes = size, agd_expanded_sha256 = sha,
           agd_parser_version = gic_parser_version c \<rparr>,
         pgd_download_size_bytes p, pgd_download_sha256 p)))))"

definition lease_message ::
  "services \<Rightarrow> uuid \<Rightarrow> deployment_job \<Rightarrow> (api_error, agent_job_lease) outcome" where
  "lease_message sv d j =
     and_then (case job_targets j of
         [] \<Rightarrow> Err (Api_Conflict ''leased job has no target'') | t # _ \<Rightarrow> Ok t) (\<lambda>target.
     and_then (ok_or (sv_image sv (job_image_id j)) Api_Not_Found) (\<lambda>image.
     and_then (ok_or (job_lease_id j) (Api_Conflict ''leased job has no lease id'')) (\<lambda>lease.
     and_then (ok_or (job_lease_expires_at j) (Api_Conflict ''leased job has no expiry'')) (\<lambda>expires.
     let url = ''/api/v1/agents/'' @ uuid_text d @ ''/jobs/'' @ uuid_text (job_id j) @
           ''/image?leaseId='' @ uuid_text lease in
     and_then
       (if job_operation j = Deploy_Gho then gho_download sv j
        else map_ok (\<lambda>sha. (None, img_size_bytes image, sha))
          (ok_or (img_sha256 image) (Api_Conflict ''deployment image has no checksum'')))
       (\<lambda>(gho, size, sha).
         Ok \<lparr> ajl_job_id = job_id j, ajl_lease_id = lease, ajl_expires_at = expires,
              ajl_operation = job_operation j,
              ajl_image = \<lparr> adi_id = img_id image, adi_name = img_name image,
                adi_format = img_format image, adi_size_bytes = size, adi_sha256 = sha,
                adi_download_url = url, adi_index = opt_image_index (job_options j) \<rparr>,
              ajl_target = target, ajl_partition_plan = opt_partition_plan (job_options j),
              ajl_gho = gho \<rparr>)))))"

definition claim_job ::
  "services \<Rightarrow> string \<Rightarrow> string option \<Rightarrow> (api_state \<Rightarrow> api_state) \<Rightarrow> request_env \<Rightarrow> api_state \<Rightarrow>
   (api_error, agent_job_lease option) outcome \<times> api_state" where
  "claim_job sv device header between e st =
     then_do (and_then (authenticated_device sv device header st) (\<lambda>d.
         map_ok (\<lambda>r. (d, rd_device r)) (ok_or (device_entry d (re_clock e 0) st) Api_Not_Found)), st)
       (\<lambda>(d, dev) st.
         if dev_disks dev = [] then (Ok None, st)
         else
           let ids = eligible_job_ids sv d dev (re_clock e 1) st in
           then_do (lease_claimed d ids e (between st)) (\<lambda>r st.
             case r of
               None \<Rightarrow> (Ok None, st)
             | Some j \<Rightarrow> (map_ok Some (lease_message sv d j),
                 record_job_activity j ''job_started'' Sev_Info None e st)))"

section \<open>A claimed job\<close>

definition report_job_progress ::
  "services \<Rightarrow> string \<Rightarrow> string \<Rightarrow> string option \<Rightarrow> agent_job_progress \<Rightarrow> request_env \<Rightarrow> api_state \<Rightarrow>
   (api_error, unit) outcome \<times> api_state" where
  "report_job_progress sv device job header p e st =
     then_do (job_of_device sv device job header st, st) (\<lambda>(d, i) st.
       let previous = find (\<lambda>j. job_id j = i) (list_jobs (ind_jobs (api_installer st)));
           je = se_jobs (re_session e) in
       then_do (on_jobs (report_progress i d (minutes job_lease_minutes) p (env_clock je) (env_write je)) st)
         (\<lambda>updated st.
           (Ok (), if Option.bind previous job_stage \<noteq> job_stage updated
             then record_job_activity updated ''job_stage_changed'' Sev_Info None e st else st)))"

definition job_control_state ::
  "services \<Rightarrow> string \<Rightarrow> string \<Rightarrow> uuid \<Rightarrow> string option \<Rightarrow> request_env \<Rightarrow> api_state \<Rightarrow>
   (api_error, job_state) outcome \<times> api_state" where
  "job_control_state sv device job lease header e st =
     then_do (job_of_device sv device job header st, st) (\<lambda>(d, i).
       let je = se_jobs (re_session e) in
       on_jobs (renew_control_lease i d lease (minutes job_lease_minutes) (env_clock je) (env_write je)))"

definition post_complete ::
  "services \<Rightarrow> string \<Rightarrow> string \<Rightarrow> string option \<Rightarrow> agent_job_completion \<Rightarrow> request_env \<Rightarrow> api_state \<Rightarrow>
   (api_error, unit) outcome \<times> api_state" where
  "post_complete sv device job header c e st =
     then_do (job_of_device sv device job header st, st) (\<lambda>(d, i) st.
       let je = se_jobs (re_session e) in
       then_do (on_jobs (complete_job i d (ajc_lease_id c) (ajc_succeeded c) (ajc_error_message c)
           (env_clock je) (env_write je)) st) (\<lambda>updated st.
         (Ok (), record_job_activity updated
           (if ajc_succeeded c then ''job_succeeded'' else ''job_failed'')
           (if ajc_succeeded c then Sev_Success else Sev_Error) (job_error_message updated) e st)))"

fun image_format_extension :: "image_format \<Rightarrow> string" where
  "image_format_extension Gho = ''gho''"
| "image_format_extension Wim = ''wim''"
| "image_format_extension Esd = ''esd''"
| "image_format_extension Swm = ''swm''"
| "image_format_extension Iso = ''iso''"

record image_response =
  ir_content_length :: u64
  ir_file_name :: string
  ir_body :: bytes

text \<open>Every span but the first is sent without its header of 512 bytes.\<close>

fun sent_spans :: "services \<Rightarrow> prepared_gho_image_file list \<Rightarrow> (api_error, bytes) outcome" where
  "sent_spans sv [] = Ok []"
| "sent_spans sv (f # fs) =
     and_then (ok_or (sv_read sv (pgf_canonical_path f)) Api_Not_Found) (\<lambda>file.
     map_ok (\<lambda>rest. drop 512 file @ rest) (sent_spans sv fs))"

definition image_body ::
  "services \<Rightarrow> deployment_job \<Rightarrow> image_artifact \<Rightarrow> (api_error, bytes \<times> u64) outcome" where
  "image_body sv j img =
     (if job_operation j = Deploy_Gho then
        and_then (map_err Api_Images (sv_prepare_gho sv (job_image_id j) (opt_image_index (job_options j)))) (\<lambda>p.
        and_then (ok_or (sv_read sv (pgf_canonical_path (pgs_primary (pgd_image p)))) Api_Not_Found) (\<lambda>primary.
        map_ok (\<lambda>rest. (primary @ rest, pgd_download_size_bytes p))
          (sent_spans sv (pgs_spans (pgd_image p)))))
      else
        map_ok (\<lambda>file. (file, word_of_nat (length file)))
          (ok_or (sv_read sv (img_source_path img)) Api_Not_Found))"

definition download_job_image ::
  "services \<Rightarrow> string \<Rightarrow> string \<Rightarrow> uuid \<Rightarrow> string option \<Rightarrow> request_env \<Rightarrow> api_state \<Rightarrow>
   (api_error, image_response) outcome" where
  "download_job_image sv device job lease header e st =
     and_then (job_of_device sv device job header st) (\<lambda>(d, i).
     and_then (map_err Api_Jobs (authorized_lease i d lease (env_clock (se_jobs (re_session e)) 0)
         (ind_jobs (api_installer st)))) (\<lambda>j.
     and_then (ok_or (sv_image sv (job_image_id j)) Api_Not_Found) (\<lambda>img.
     map_ok (\<lambda>(body, size). \<lparr> ir_content_length = size,
         ir_file_name = ''image.'' @ image_format_extension (img_format img), ir_body = body \<rparr>)
       (image_body sv j img))))"

section \<open>Installers\<close>

text \<open>An error of \<open>discover\<close> denies the boot; a panic of its task does, too.\<close>

definition installer_boot_script ::
  "services \<Rightarrow> string \<Rightarrow> string \<Rightarrow> string \<Rightarrow> request_env \<Rightarrow> api_state \<Rightarrow> string \<times> api_state" where
  "installer_boot_script sv mac arch platform e st =
     (let (r, st) = on_installer (discover (sv_digest sv) (sw_prepare (sv_world sv)) mac arch platform
            (api_installer_base_url st) (re_session e)) st in
      (render_boot_script (case r of Ok outcome \<Rightarrow> outcome | _ \<Rightarrow> Denied), st))"

definition installer_session_id :: "services \<Rightarrow> string \<Rightarrow> (api_error, uuid) outcome" where
  "installer_session_id sv segment = ok_or (sv_parse_uuid sv segment) Api_Not_Found"

definition installer_bearer_token :: "string option \<Rightarrow> (api_error, string) outcome" where
  "installer_bearer_token header = ok_or (bearer_token header) (Api_Installer Session_Unauthorized)"

text \<open>A panic of a blocking task reaches the client as an error of the task.\<close>

definition run_installer_blocking ::
  "(installer_deployment \<Rightarrow> (installer_error, 'a) outcome \<times> installer_deployment) \<Rightarrow> api_state \<Rightarrow>
   (api_error, 'a) outcome \<times> api_state" where
  "run_installer_blocking work st =
     (case on_installer work st of (Panic, st) \<Rightarrow> (Err Api_Installer_Task, st) | r \<Rightarrow> r)"

definition installer_user_data ::
  "services \<Rightarrow> string \<Rightarrow> string \<Rightarrow> request_env \<Rightarrow> api_state \<Rightarrow> (api_error, string) outcome \<times> api_state" where
  "installer_user_data sv session token e st =
     then_do (installer_session_id sv session, st) (\<lambda>sid.
       run_installer_blocking (\<lambda>ins. (initial_user_data (sv_digest sv) sid token (re_session e) ins, ins)))"

definition installer_meta_data ::
  "services \<Rightarrow> string \<Rightarrow> string \<Rightarrow> request_env \<Rightarrow> api_state \<Rightarrow> (api_error, string) outcome \<times> api_state" where
  "installer_meta_data sv session token e st =
     then_do (installer_session_id sv session, st) (\<lambda>sid.
       run_installer_blocking (\<lambda>ins. (initial_meta_data (sv_digest sv) sid token (re_session e) ins, ins)))"

definition session_and_token ::
  "services \<Rightarrow> string \<Rightarrow> string option \<Rightarrow> (api_error, uuid \<times> string) outcome" where
  "session_and_token sv session header =
     and_then (installer_session_id sv session) (\<lambda>sid.
     map_ok (\<lambda>token. (sid, token)) (installer_bearer_token header))"

definition post_guard ::
  "services \<Rightarrow> string \<Rightarrow> string option \<Rightarrow> linux_installer_guard_request \<Rightarrow> request_env \<Rightarrow> api_state \<Rightarrow>
   (api_error, string) outcome \<times> api_state" where
  "post_guard sv session header req e st =
     then_do (session_and_token sv session header, st) (\<lambda>(sid, token) st.
     then_do (run_installer_blocking (authorize_guard (sv_digest sv) (sw_scalar (sv_world sv))
         (sw_prepare (sv_world sv)) sid token req (re_session e)) st) (\<lambda>a st.
       (Ok (ga_autoinstall a),
        record_job_activity (ga_job a) ''linux_installer_handoff'' Sev_Info None e st)))"

text \<open>The range is parsed before the file is opened.\<close>

definition installer_media_reply ::
  "services \<Rightarrow> string \<Rightarrow> string \<Rightarrow> string option \<Rightarrow> installer_media_kind \<Rightarrow> request_env \<Rightarrow> api_state \<Rightarrow>
   (api_error, installer_media \<times> http_response) outcome \<times> api_state" where
  "installer_media_reply sv session token header kind e st =
     then_do (installer_session_id sv session, st) (\<lambda>sid st.
     then_do (run_installer_blocking (\<lambda>ins. (media (sv_digest sv) (sw_prepare (sv_world sv)) sid token kind
         (re_session e) ins, ins)) st) (\<lambda>m st.
       (map_ok (\<lambda>r. (m, r))
          (map_err (\<lambda>x. case x of
              Media_Range (Range_Not_Satisfiable n) \<Rightarrow> Api_Range n
            | Http_Ranges.Media_Integrity \<Rightarrow> Api_Installer Installer_Sessions.Media_Integrity)
            (case sv_read sv (med_canonical_path m) of
               Some file \<Rightarrow> installer_media_response header (med_size_bytes m) file
             | None \<Rightarrow> and_then (map_err Media_Range (parse_single_range header (med_size_bytes m)))
                 (\<lambda>_. Err Http_Ranges.Media_Integrity))), st)))"

definition installer_event ::
  "services \<Rightarrow> string \<Rightarrow> string option \<Rightarrow> installer_event_request \<Rightarrow> request_env \<Rightarrow> api_state \<Rightarrow>
   (api_error, unit) outcome \<times> api_state" where
  "installer_event sv session header req e st =
     then_do (session_and_token sv session header, st) (\<lambda>(sid, token) st.
     then_do (run_installer_blocking (report_event (sv_digest sv) sid token req (re_session e)) st) (\<lambda>updated st.
       (Ok (), record_job_activity updated
         (if job_state updated = Failed then ''linux_installer_failed'' else ''linux_installer_event'')
         (if job_state updated = Failed then Sev_Error else Sev_Info) (job_error_message updated) e st)))"

definition installer_first_boot ::
  "services \<Rightarrow> string \<Rightarrow> string option \<Rightarrow> uuid \<Rightarrow> request_env \<Rightarrow> api_state \<Rightarrow>
   (api_error, unit) outcome \<times> api_state" where
  "installer_first_boot sv session header attempt e st =
     then_do (session_and_token sv session header, st) (\<lambda>(sid, token) st.
     then_do (run_installer_blocking (complete_first_boot (sv_digest sv) sid token attempt (re_session e)) st)
       (\<lambda>updated st.
         (Ok (), case updated of None \<Rightarrow> st
            | Some j \<Rightarrow> record_job_activity j ''job_succeeded'' Sev_Success None e st)))"

section \<open>Requests\<close>

datatype request =
    Get_Health
  | Post_Register "string option" agent_inventory string
  | Post_Heartbeat string "string option" agent_inventory string
  | Post_Claim string "string option"
  | Post_Progress string string "string option" agent_job_progress
  | Get_Control string string uuid "string option"
  | Post_Complete string string "string option" agent_job_completion
  | Get_Image string string uuid "string option"
  | Get_Boot_Script string string string
  | Get_User_Data string string
  | Get_Meta_Data string string
  | Post_Guard string "string option" linux_installer_guard_request
  | Get_Media installer_media_kind string string "string option"
  | Post_Event string "string option" installer_event_request
  | Post_First_Boot string "string option" uuid

datatype api_reply =
    Health
  | Registration agent_registration
  | Heartbeat_Ack agent_heartbeat_ack
  | Claimed "agent_job_lease option"
  | No_Content
  | Control_State job_state
  | Image_File image_response
  | Script string
  | Text_Body string
  | Media_File installer_media http_response

text \<open>One request at a time.\<close>

fun serve :: "services \<Rightarrow> request \<Rightarrow> request_env \<Rightarrow> api_state \<Rightarrow> (api_error, api_reply) outcome \<times> api_state" where
  "serve sv Get_Health e st = (Ok Health, st)"
| "serve sv (Post_Register header invy peer) e st =
     reply_with Registration (post_register sv header invy peer e st)"
| "serve sv (Post_Heartbeat device header invy peer) e st =
     reply_with Heartbeat_Ack (post_heartbeat sv device header invy peer e st)"
| "serve sv (Post_Claim device header) e st = reply_with Claimed (claim_job sv device header id e st)"
| "serve sv (Post_Progress device job header p) e st =
     reply_with (\<lambda>_. No_Content) (report_job_progress sv device job header p e st)"
| "serve sv (Get_Control device job lease header) e st =
     reply_with Control_State (job_control_state sv device job lease header e st)"
| "serve sv (Post_Complete device job header c) e st =
     reply_with (\<lambda>_. No_Content) (post_complete sv device job header c e st)"
| "serve sv (Get_Image device job lease header) e st =
     (map_ok Image_File (download_job_image sv device job lease header e st), st)"
| "serve sv (Get_Boot_Script mac arch platform) e st =
     (let (script, st) = installer_boot_script sv mac arch platform e st in (Ok (Script script), st))"
| "serve sv (Get_User_Data session token) e st =
     reply_with Text_Body (installer_user_data sv session token e st)"
| "serve sv (Get_Meta_Data session token) e st =
     reply_with Text_Body (installer_meta_data sv session token e st)"
| "serve sv (Post_Guard session header req) e st = reply_with Text_Body (post_guard sv session header req e st)"
| "serve sv (Get_Media kind session token rng) e st =
     reply_with (\<lambda>(m, r). Media_File m r) (installer_media_reply sv session token rng kind e st)"
| "serve sv (Post_Event session header req) e st =
     reply_with (\<lambda>_. No_Content) (installer_event sv session header req e st)"
| "serve sv (Post_First_Boot session header attempt) e st =
     reply_with (\<lambda>_. No_Content) (installer_first_boot sv session header attempt e st)"

end
