(* ===== verification/Api_Safety.thy ===== *)
theory Api_Safety
  imports Control_Plane
begin

text \<open>
  What the HTTP API guarantees: a request is a call of the services below it,
  histories of requests keep their invariants, a request without its credential
  changes nothing, and an agent obtains and moves only jobs of its own device.
\<close>

section \<open>Plumbing\<close>

lemma installer_of_log [simp]:
  "api_installer (log_activity d e st) = api_installer st"
  "api_installer (record_device_activity r kind sev raw e st) = api_installer st"
  "api_installer (record_job_activity j kind sev raw e st) = api_installer st"
  by (simp_all add: log_activity_def record_device_activity_def record_job_activity_def Let_def)

lemma installer_of_registry [simp]:
  "api_installer (snd (on_registry f st)) =
     api_installer st \<lparr> ind_registry := snd (f (ind_registry (api_installer st))) \<rparr>"
  by (simp add: on_registry_def split: prod.split)

lemma installer_of_jobs [simp]:
  "api_installer (snd (on_jobs f st)) =
     api_installer st \<lparr> ind_jobs := snd (f (ind_jobs (api_installer st))) \<rparr>"
  by (simp add: on_jobs_def split: prod.split)

lemma installer_of_installer [simp]:
  "api_installer (snd (on_installer f st)) = snd (f (api_installer st))"
  "api_installer (snd (run_installer_blocking f st)) = snd (f (api_installer st))"
  by (auto simp: run_installer_blocking_def on_installer_def split: prod.split outcome.split)

lemma installer_of_then_do:
  "(\<And>x s. api_installer (snd (k x s)) = api_installer s) \<Longrightarrow>
     api_installer (snd (then_do m k)) = api_installer (snd m)"
  by (cases m; cases "fst m") auto

section \<open>Requests as calls of the services\<close>

definition advances :: "services \<Rightarrow> request_env \<Rightarrow> api_state \<Rightarrow> api_state \<Rightarrow> service_call \<Rightarrow> bool" where
  "advances sv e st st' c =
     (permitted c \<and>
      api_installer st' = service_step (sv_world sv) c (re_session e) (api_installer st))"

lemma update_same_jobs [simp]: "ins \<lparr> ind_jobs := ind_jobs ins \<rparr> = ins"
  by simp

lemma registry_advances:
  assumes "\<And>x s. api_installer (snd (k x s)) = api_installer s"
    and "\<And>reg. snd (f reg) = snd (run_device_call (sv_digest sv) (q, re_device e) reg)"
  shows "advances sv e st (snd (then_do (on_registry f st) k)) (Agent q (re_device e))"
  using assms(2) by (simp add: advances_def installer_of_then_do [OF assms(1)] sv_digest_def)

lemma jobs_advance:
  assumes "\<And>x s. api_installer (snd (k x s)) = api_installer s"
    and "\<And>repo. snd (f repo) = snd (run_job_call (q, se_jobs (re_session e)) repo)" "\<not> installer_only q"
  shows "advances sv e st (snd (then_do (on_jobs f st) k)) (Host q)"
  using assms(2,3) by (simp add: advances_def installer_of_then_do [OF assms(1)])

lemma installer_advances:
  assumes "\<And>x s. api_installer (snd (k x s)) = api_installer s"
    and "snd (f (api_installer st)) = service_step (sv_world sv) c (re_session e) (api_installer st)" "permitted c"
  shows "advances sv e st (snd (then_do (run_installer_blocking f st) k)) c"
  using assms(2,3) by (simp add: advances_def installer_of_then_do [OF assms(1)])

lemma pure_installer_call: "snd (run_installer_blocking (\<lambda>ins. (r ins, ins)) st) = st"
  by (simp add: run_installer_blocking_def on_installer_def split: outcome.split)

lemma reads_only [simp]:
  "snd (installer_user_data sv session token e st) = st"
  "snd (installer_meta_data sv session token e st) = st"
  "snd (installer_media_reply sv session token rng kind e st) = st"
proof -
  show "snd (installer_user_data sv session token e st) = st"
    "snd (installer_meta_data sv session token e st) = st"
    by (cases "installer_session_id sv session";
        simp add: installer_user_data_def installer_meta_data_def pure_installer_call)+
  have "snd (then_do (run_installer_blocking (\<lambda>ins. (r ins, ins)) st) (\<lambda>m st. (g m, st))) = st" for r g
    using pure_installer_call [of r st]
    by (cases "run_installer_blocking (\<lambda>ins. (r ins, ins)) st";
        cases "fst (run_installer_blocking (\<lambda>ins. (r ins, ins)) st)") auto
  then show "snd (installer_media_reply sv session token rng kind e st) = st"
    by (cases "installer_session_id sv session") (simp_all add: installer_media_reply_def)
qed

section \<open>Refusals\<close>

text \<open>The credential of a request: the enrollment token, a device's token or a session's.\<close>

definition session_credential :: "services \<Rightarrow> string \<Rightarrow> string \<Rightarrow> api_state \<Rightarrow> bool" where
  "session_credential sv session token st =
     (\<exists>sid s. sv_parse_uuid sv session = Some sid \<and>
        map_of (ind_sessions (api_installer st)) sid = Some s \<and>
        secret_matches (sv_digest sv) (is_token_digest s) token)"

definition bearer_session :: "services \<Rightarrow> string \<Rightarrow> string option \<Rightarrow> api_state \<Rightarrow> bool" where
  "bearer_session sv session header st =
     (\<exists>token. bearer_token header = Some token \<and> session_credential sv session token st)"

definition device_credential :: "services \<Rightarrow> string \<Rightarrow> string option \<Rightarrow> api_state \<Rightarrow> bool" where
  "device_credential sv device header st = (\<exists>i. authenticated_device sv device header st = Ok i)"

fun credential :: "services \<Rightarrow> request \<Rightarrow> api_state \<Rightarrow> bool" where
  "credential sv (Post_Register header invy peer) st =
     (\<exists>token. bearer_token header = Some token \<and>
        secret_matches (sv_digest sv) (api_enrollment_token_digest st) token)"
| "credential sv (Post_Heartbeat device header invy peer) st = device_credential sv device header st"
| "credential sv (Post_Claim device header) st = device_credential sv device header st"
| "credential sv (Post_Progress device job header p) st = device_credential sv device header st"
| "credential sv (Get_Control device job lease header) st = device_credential sv device header st"
| "credential sv (Post_Complete device job header c) st = device_credential sv device header st"
| "credential sv (Get_Image device job lease header) st = device_credential sv device header st"
| "credential sv (Get_User_Data session token) st = session_credential sv session token st"
| "credential sv (Get_Meta_Data session token) st = session_credential sv session token st"
| "credential sv (Get_Media kind session token rng) st = session_credential sv session token st"
| "credential sv (Post_Guard session header req) st = bearer_session sv session header st"
| "credential sv (Post_Event session header req) st = bearer_session sv session header st"
| "credential sv (Post_First_Boot session header attempt) st = bearer_session sv session header st"
| "credential sv _ st = True"

definition refused :: "(api_error, 'a) outcome \<times> api_state \<Rightarrow> api_state \<Rightarrow> bool" where
  "refused r st = (\<exists>x. r = (Err x, st) \<and> api_status x \<in> {401, 404, 422})"

lemma refused_bind: "refused m st \<Longrightarrow> refused (then_do m k) st"
  by (auto simp: refused_def)

lemma refused_reply: "refused m st \<Longrightarrow> refused (reply_with f m) st"
  by (auto simp: refused_def reply_with_def)

lemma device_refused:
  assumes "\<not> device_credential sv device header st"
  shows "\<exists>x. authenticated_device sv device header st = Err x \<and> api_status x \<in> {401, 404}"
proof (cases "sv_parse_uuid sv device")
  case (Some i)
  show ?thesis
  proof (cases "bearer_token header")
    case t: (Some token)
    show ?thesis
    proof (cases "find (record_of i) (dr_devices (ind_registry (api_installer st)))")
      case (Some r)
      with \<open>sv_parse_uuid sv device = Some i\<close> t assms show ?thesis
        by (auto simp: authenticated_device_def authenticate_def device_credential_def)
    qed (use Some t in \<open>simp add: authenticated_device_def authenticate_def\<close>)
  qed (simp add: authenticated_device_def Some)
qed (simp add: authenticated_device_def)

lemma session_refused:
  assumes "\<not> session_credential sv session token st" "installer_session_id sv session = Ok sid"
  shows "authenticate_session (sv_digest sv) (ind_sessions (api_installer st)) sid token now = Err Session_Unauthorized"
  using assms
  by (cases "map_of (ind_sessions (api_installer st)) sid")
    (auto simp: session_credential_def installer_session_id_def authenticate_session_def outcome_simps)

lemma authenticated_device_no_panic: "authenticated_device sv device header st \<noteq> Panic"
  by (auto simp: authenticated_device_def authenticate_def outcome_simps)

lemma job_of_device_refused:
  assumes "\<not> device_credential sv device header st"
  shows "refused (then_do (job_of_device sv device job header st, st) k) st"
proof -
  obtain x where "authenticated_device sv device header st = Err x" "api_status x \<in> {401, 404}"
    using device_refused [OF assms] by blast
  then show ?thesis by (intro refused_bind) (auto simp: refused_def job_of_device_def)
qed

lemma blocking_refused:
  "f (api_installer st) = (Err x, api_installer st) \<Longrightarrow> api_status (Api_Installer x) \<in> {401, 404, 422} \<Longrightarrow>
     refused (run_installer_blocking f st) st"
  by (simp add: run_installer_blocking_def on_installer_def refused_def)

lemma bearer_refused:
  assumes "\<not> bearer_session sv session header st"
    and "\<And>sid token. installer_session_id sv session = Ok sid \<Longrightarrow> \<not> session_credential sv session token st \<Longrightarrow>
      refused (k (sid, token) st) st"
  shows "refused (then_do (session_and_token sv session header, st) k) st"
proof (cases "sv_parse_uuid sv session")
  case (Some sid)
  then show ?thesis
    using assms by (cases "bearer_token header")
      (auto simp: session_and_token_def installer_session_id_def installer_bearer_token_def refused_def
        bearer_session_def)
qed (simp add: session_and_token_def installer_session_id_def refused_def)

lemma path_refused:
  assumes "\<not> session_credential sv session token st"
    and "\<And>sid. installer_session_id sv session = Ok sid \<Longrightarrow> refused (k sid st) st"
  shows "refused (then_do (installer_session_id sv session, st) k) st"
  using assms by (cases "sv_parse_uuid sv session") (auto simp: installer_session_id_def refused_def)

lemma heartbeat_refused:
  assumes "\<not> device_credential sv device header st" "sv_parse_uuid sv device = Some i"
    "bearer_token header = Some token"
  shows "refused (on_registry (heartbeat (sv_digest sv) i token invy peer de) st) st"
proof (cases "validate_inventory invy")
  case (Err x)
  then have "api_status (Api_Registry x) = 422"
    by (auto simp: validate_inventory_def normalize_mac_address_def Let_def outcome_simps split: if_splits)
  with Err show ?thesis by (simp add: heartbeat_def on_registry_def refused_def)
next
  case (Ok v)
  show ?thesis
  proof (cases "find (record_of i) (dr_devices (ind_registry (api_installer st)))")
    case (Some r)
    then have "\<not> secret_matches (sv_digest sv) (rec_token_digest r) token"
      using assms by (auto simp: device_credential_def authenticated_device_def authenticate_def)
    with Ok Some show ?thesis by (simp add: heartbeat_def on_registry_def refused_def Let_def)
  qed (simp add: heartbeat_def on_registry_def refused_def Ok Let_def)
qed (auto simp: validate_inventory_def outcome_simps Let_def split: if_splits)

lemma no_credential_refused:
  assumes "\<not> credential sv q st"
  shows "refused (serve sv q e st) st"
proof (cases q)
  case (Post_Register header invy peer)
  with assms show ?thesis
    by (cases "bearer_token header") (auto simp: post_register_def refused_def reply_with_def)
next
  case (Post_Heartbeat device header invy peer)
  with assms show ?thesis
    by (cases "sv_parse_uuid sv device"; cases "bearer_token header")
      (auto simp: post_heartbeat_def Let_def intro!: refused_reply refused_bind [OF heartbeat_refused],
        simp_all add: refused_def)
next
  case (Post_Claim device header)
  with assms device_refused [of sv device header st] show ?thesis
    by (auto simp: claim_job_def refused_def reply_with_def)
next
  case (Get_Image device job lease header)
  with assms device_refused [of sv device header st] show ?thesis
    by (auto simp: download_job_image_def job_of_device_def refused_def)
next
  case (Get_User_Data session token)
  with assms show ?thesis
    by (auto simp: installer_user_data_def initial_user_data_def offered_binding_def session_refused
        intro!: refused_reply path_refused blocking_refused)
next
  case (Get_Meta_Data session token)
  with assms show ?thesis
    by (auto simp: installer_meta_data_def initial_meta_data_def offered_binding_def session_refused
        intro!: refused_reply path_refused blocking_refused)
next
  case (Get_Media kind session token rng)
  with assms show ?thesis
    by (auto simp: installer_media_reply_def media_def session_refused
        intro!: refused_reply path_refused refused_bind [OF blocking_refused])
next
  case (Post_Guard session header req)
  have "refused (run_installer_blocking (authorize_guard (sv_digest sv) (sw_scalar (sv_world sv))
      (sw_prepare (sv_world sv)) sid token req (re_session e)) st) st"
    if "installer_session_id sv session = Ok sid" "\<not> session_credential sv session token st" for sid token
    using session_refused [OF that(2,1)]
    by (cases "validate_guard_request req") (auto simp: authorize_guard_def intro!: blocking_refused)
  with assms show ?thesis
    unfolding Post_Guard serve.simps post_guard_def
    by (intro refused_reply bearer_refused) (auto intro!: refused_bind)
next
  case (Post_Event session header req)
  have "refused (run_installer_blocking (report_event (sv_digest sv) sid token req (re_session e)) st) st"
    if "installer_session_id sv session = Ok sid" "\<not> session_credential sv session token st" for sid token
    using session_refused [OF that(2,1)]
    by (cases "message_refused (ev_message req)") (auto simp: report_event_def intro!: blocking_refused)
  with assms show ?thesis
    unfolding Post_Event serve.simps installer_event_def
    by (intro refused_reply bearer_refused) (auto intro!: refused_bind)
next
  case (Post_First_Boot session header attempt)
  have "refused (run_installer_blocking
      (complete_first_boot (sv_digest sv) sid token attempt (re_session e)) st) st"
    if "installer_session_id sv session = Ok sid" "\<not> session_credential sv session token st" for sid token
    using session_refused [OF that(2,1)]
    by (auto simp: complete_first_boot_def intro!: blocking_refused)
  with assms show ?thesis
    unfolding Post_First_Boot serve.simps installer_first_boot_def
    by (intro refused_reply bearer_refused) (auto intro!: refused_bind)
qed (use assms in \<open>auto simp: report_job_progress_def job_control_state_def post_complete_def
    intro!: refused_reply job_of_device_refused\<close>)

section \<open>The call of a request\<close>

text \<open>
  Who calls, from the request and the state alone: the device whose stored
  token digest the bearer token matches, and the session whose digest it matches.
\<close>

definition device_caller :: "services \<Rightarrow> string \<Rightarrow> string option \<Rightarrow> api_state \<Rightarrow> uuid option" where
  "device_caller sv device header st =
     (case (sv_parse_uuid sv device, bearer_token header) of
        (Some i, Some token) \<Rightarrow>
          (case find (record_of i) (dr_devices (ind_registry (api_installer st))) of
             None \<Rightarrow> None
           | Some r \<Rightarrow> if secret_matches (sv_digest sv) (rec_token_digest r) token then Some i else None)
      | _ \<Rightarrow> None)"

definition session_caller :: "services \<Rightarrow> string \<Rightarrow> string option \<Rightarrow> api_state \<Rightarrow> (uuid \<times> string) option" where
  "session_caller sv session header st =
     (case (sv_parse_uuid sv session, bearer_token header) of
        (Some sid, Some token) \<Rightarrow>
          (case map_of (ind_sessions (api_installer st)) sid of
             None \<Rightarrow> None
           | Some s \<Rightarrow> if secret_matches (sv_digest sv) (is_token_digest s) token then Some (sid, token) else None)
      | _ \<Rightarrow> None)"

text \<open>What a claim may lease: jobs found eligible and still meant for a disk of the device.\<close>

definition claim_call :: "services \<Rightarrow> request_env \<Rightarrow> api_state \<Rightarrow> uuid \<Rightarrow> service_call option" where
  "claim_call sv e st d =
     (case (device_entry d (re_clock e 0) st, find (record_of d) (dr_devices (ind_registry (api_installer st)))) of
        (Some seen, Some r) \<Rightarrow>
          if dev_disks (rd_device seen) = [] then None
          else Some (Host (Lease_Device d (minutes 120) (\<lambda>j.
            job_id j \<in> set (eligible_job_ids sv d (rd_device seen) (re_clock e 1) st) \<and>
            deploys_windows j \<and> targets_disk_of d (rec_device r) j)))
      | _ \<Rightarrow> None)"

text \<open>The one call a request is allowed to make, if any.\<close>

fun call_of :: "services \<Rightarrow> request \<Rightarrow> request_env \<Rightarrow> api_state \<Rightarrow> service_call option" where
  "call_of sv (Post_Register header invy peer) e st =
     (case bearer_token header of
        None \<Rightarrow> None
      | Some token \<Rightarrow>
          if secret_matches (sv_digest sv) (api_enrollment_token_digest st) token
          then Some (Agent (Register invy peer) (re_device e)) else None)"
| "call_of sv (Post_Heartbeat device header invy peer) e st =
     Option.bind (device_caller sv device header st) (\<lambda>i.
       map_option (\<lambda>token. Agent (Heartbeat i token invy peer) (re_device e)) (bearer_token header))"
| "call_of sv (Post_Claim device header) e st =
     Option.bind (device_caller sv device header st) (claim_call sv e st)"
| "call_of sv (Post_Progress device job header p) e st =
     Option.bind (device_caller sv device header st) (\<lambda>d.
       map_option (\<lambda>i. Host (Report_Progress i d (minutes 120) p)) (sv_parse_uuid sv job))"
| "call_of sv (Get_Control device job lease header) e st =
     Option.bind (device_caller sv device header st) (\<lambda>d.
       map_option (\<lambda>i. Host (Renew_Control i d lease (minutes 120))) (sv_parse_uuid sv job))"
| "call_of sv (Post_Complete device job header m) e st =
     Option.bind (device_caller sv device header st) (\<lambda>d.
       map_option (\<lambda>i. Host (Complete i d (ajc_lease_id m) (ajc_succeeded m) (ajc_error_message m)))
         (sv_parse_uuid sv job))"
| "call_of sv (Get_Boot_Script mac arch platform) e st =
     Some (Boot mac arch platform (api_installer_base_url st))"
| "call_of sv (Post_Guard session header req) e st =
     map_option (\<lambda>(sid, token). Guard sid token req) (session_caller sv session header st)"
| "call_of sv (Post_Event session header req) e st =
     map_option (\<lambda>(sid, token). Event sid token req) (session_caller sv session header st)"
| "call_of sv (Post_First_Boot session header attempt) e st =
     map_option (\<lambda>(sid, token). First_Boot sid token attempt) (session_caller sv session header st)"
| "call_of sv _ e st = None"

lemma device_caller_Some:
  "device_caller sv device header st = Some d \<longleftrightarrow> authenticated_device sv device header st = Ok d"
  by (auto simp: device_caller_def authenticated_device_def authenticate_def outcome_simps
      split: option.splits if_splits)

lemma device_caller_known:
  assumes "device_caller sv device header st = Some d"
  obtains r token where "find (record_of d) (dr_devices (ind_registry (api_installer st))) = Some r"
    "sv_parse_uuid sv device = Some d" "bearer_token header = Some token"
  using assms by (auto simp: device_caller_def split: option.splits if_splits)

lemma session_caller_Some:
  assumes "bearer_session sv session header st"
  obtains sid token where "session_caller sv session header st = Some (sid, token)"
    "session_and_token sv session header = Ok (sid, token)"
  using assms by (auto simp: session_caller_def bearer_session_def session_credential_def
      session_and_token_def installer_session_id_def installer_bearer_token_def)

lemma no_credential_no_call: "\<not> credential sv q st \<Longrightarrow> call_of sv q e st = None"
  by (cases q)
    (auto simp: device_credential_def device_caller_Some [symmetric] bearer_session_def session_credential_def
      session_caller_def split: option.splits if_splits)

lemma claim_call_Some: "claim_call sv e st d = Some c \<Longrightarrow> \<exists>P. c = Host (Lease_Device d (minutes 120) P)"
  unfolding claim_call_def by (simp split: option.splits if_splits) blast

lemma call_is_permitted: "call_of sv q e st = Some c \<Longrightarrow> permitted c"
  by (cases q) (auto simp: bind_eq_Some_conv dest: claim_call_Some split: option.splits if_splits)

lemma claim_refines:
  assumes "device_caller sv device header st = Some d"
  shows "api_installer (snd (claim_job sv device header id e st)) =
    (case claim_call sv e st d of
       None \<Rightarrow> api_installer st
     | Some c \<Rightarrow> service_step (sv_world sv) c (re_session e) (api_installer st))"
proof -
  have a: "authenticated_device sv device header st = Ok d" using assms by (simp add: device_caller_Some)
  obtain r where r: "find (record_of d) (dr_devices (ind_registry (api_installer st))) = Some r"
    using device_caller_known [OF assms] by blast
  show ?thesis
  proof (cases "device_entry d (re_clock e 0) st")
    case None
    then show ?thesis by (simp add: claim_job_def a claim_call_def)
  next
    case (Some seen)
    let ?ids = "eligible_job_ids sv d (rd_device seen) (re_clock e 1) st"
    have "api_installer (snd (then_do (lease_claimed d ?ids e st) (\<lambda>r st.
        case r of None \<Rightarrow> (Ok None, st)
        | Some j \<Rightarrow> (map_ok Some (lease_message sv d j),
            record_job_activity j ''job_started'' Sev_Info None e st)))) =
        api_installer (snd (lease_claimed d ?ids e st))"
      by (rule installer_of_then_do) (simp split: option.split)
    moreover have "api_installer (snd (lease_claimed d ?ids e st)) =
        service_step (sv_world sv) (Host (Lease_Device d (minutes 120) (\<lambda>j. job_id j \<in> set ?ids \<and>
          deploys_windows j \<and> targets_disk_of d (rec_device r) j))) (re_session e) (api_installer st)"
      by (simp add: lease_claimed_def with_current_def Let_def r job_lease_minutes_def)
    ultimately show ?thesis
      using Some r by (simp add: claim_job_def a claim_call_def Let_def)
  qed
qed

lemma guarded_refines:
  assumes "r = Ok x" "advances sv e st (snd (k x st)) c"
  shows "api_installer (snd (then_do (r, st) k)) = service_step (sv_world sv) c (re_session e) (api_installer st)"
  using assms by (simp add: advances_def)

lemma request_refines:
  "api_installer (snd (serve sv q e st)) =
     (case call_of sv q e st of
        None \<Rightarrow> api_installer st
      | Some c \<Rightarrow> service_step (sv_world sv) c (re_session e) (api_installer st))"
proof (cases "credential sv q st")
  case False
  then show ?thesis using no_credential_refused [OF False, of e] no_credential_no_call [OF False, of e]
    by (auto simp: refused_def)
next
  case True
  have job: "job_of_device sv device job header st = map_ok (\<lambda>i. (d, i)) (ok_or (sv_parse_uuid sv job) Api_Not_Found)"
    if "device_caller sv device header st = Some d" for device job header d
    using that by (simp add: job_of_device_def device_caller_Some)
  show ?thesis
  proof (cases q)
    case (Post_Register header invy peer)
    obtain token where t: "bearer_token header = Some token"
      "secret_matches (sv_digest sv) (api_enrollment_token_digest st) token"
      using True by (auto simp: Post_Register)
    have "advances sv e st (snd (post_register sv header invy peer e st)) (Agent (Register invy peer) (re_device e))"
      using t by (simp add: post_register_def Let_def registry_advances [where q = "Register invy peer"]
          split_beta)
    then show ?thesis by (simp add: Post_Register t advances_def)
  next
    case (Post_Heartbeat device header invy peer)
    obtain i where i: "device_caller sv device header st = Some i"
      using True by (auto simp: Post_Heartbeat device_credential_def device_caller_Some [symmetric])
    obtain token where t: "sv_parse_uuid sv device = Some i" "bearer_token header = Some token"
      using device_caller_known [OF i] by blast
    have "advances sv e st (snd (post_heartbeat sv device header invy peer e st))
        (Agent (Heartbeat i token invy peer) (re_device e))"
      using t by (simp add: post_heartbeat_def Let_def, intro registry_advances) (auto split: option.split)
    then show ?thesis by (simp add: Post_Heartbeat i t advances_def)
  next
    case (Post_Claim device header)
    obtain d where d: "device_caller sv device header st = Some d"
      using True by (auto simp: Post_Claim device_credential_def device_caller_Some [symmetric])
    with claim_refines [OF d, of e] show ?thesis by (simp add: Post_Claim)
  next
    case (Post_Progress device job header p)
    let ?je = "se_jobs (re_session e)"
    let ?k = "\<lambda>(d, i) st. then_do
      (on_jobs (report_progress i d (minutes job_lease_minutes) p (env_clock ?je) (env_write ?je)) st) (\<lambda>updated st'.
        (Ok (), if Option.bind (find (\<lambda>j. job_id j = i) (list_jobs (ind_jobs (api_installer st)))) job_stage \<noteq>
             job_stage updated
           then record_job_activity updated ''job_stage_changed'' Sev_Info None e st' else st'))"
    obtain d where d: "device_caller sv device header st = Some d"
      using True by (auto simp: Post_Progress device_credential_def device_caller_Some [symmetric])
    have "advances sv e st (snd (?k (d, i) st)) (Host (Report_Progress i d (minutes 120) p))" for i
      unfolding prod.case by (rule jobs_advance) (auto simp: job_lease_minutes_def)
    from guarded_refines [where k = ?k, OF _ this] show ?thesis
      by (cases "sv_parse_uuid sv job") (simp_all add: Post_Progress report_job_progress_def Let_def d job [OF d])
  next
    case (Get_Control device job lease header)
    let ?je = "se_jobs (re_session e)"
    let ?k = "\<lambda>(d, i). on_jobs (renew_control_lease i d lease (minutes job_lease_minutes)
      (env_clock ?je) (env_write ?je)) :: api_state \<Rightarrow> _"
    obtain d where d: "device_caller sv device header st = Some d"
      using True by (auto simp: Get_Control device_credential_def device_caller_Some [symmetric])
    have "advances sv e st (snd (?k (d, i) st)) (Host (Renew_Control i d lease (minutes 120)))" for i
      by (simp add: advances_def job_lease_minutes_def)
    from guarded_refines [where k = ?k, OF _ this] show ?thesis
      by (cases "sv_parse_uuid sv job") (simp_all add: Get_Control job_control_state_def Let_def d job [OF d])
  next
    case (Post_Complete device job header m)
    let ?je = "se_jobs (re_session e)"
    let ?k = "\<lambda>(d, i) st. then_do
      (on_jobs (complete_job i d (ajc_lease_id m) (ajc_succeeded m) (ajc_error_message m)
         (env_clock ?je) (env_write ?je)) st) (\<lambda>updated st.
        (Ok (), record_job_activity updated
          (if ajc_succeeded m then ''job_succeeded'' else ''job_failed'')
          (if ajc_succeeded m then Sev_Success else Sev_Error) (job_error_message updated) e st))"
    obtain d where d: "device_caller sv device header st = Some d"
      using True by (auto simp: Post_Complete device_credential_def device_caller_Some [symmetric])
    have "advances sv e st (snd (?k (d, i) st))
        (Host (Complete i d (ajc_lease_id m) (ajc_succeeded m) (ajc_error_message m)))" for i
      unfolding prod.case by (rule jobs_advance) auto
    from guarded_refines [where k = ?k, OF _ this] show ?thesis
      by (cases "sv_parse_uuid sv job") (simp_all add: Post_Complete post_complete_def Let_def d job [OF d])
  next
    case (Get_Boot_Script mac arch platform)
    show ?thesis
      by (simp add: Get_Boot_Script installer_boot_script_def on_installer_def sv_digest_def split: prod.split)
  next
    case (Post_Guard session header req)
    let ?k = "\<lambda>(sid, token) st. then_do (run_installer_blocking (authorize_guard (sv_digest sv)
        (sw_scalar (sv_world sv)) (sw_prepare (sv_world sv)) sid token req (re_session e)) st) (\<lambda>a st.
      (Ok (ga_autoinstall a), record_job_activity (ga_job a) ''linux_installer_handoff'' Sev_Info None e st))"
    obtain sid token where c: "session_caller sv session header st = Some (sid, token)"
        "session_and_token sv session header = Ok (sid, token)"
      using True session_caller_Some [of sv session header st] by (auto simp: Post_Guard)
    have "advances sv e st (snd (?k (sid, token) st)) (Guard sid token req)"
      unfolding prod.case by (rule installer_advances) (auto simp: sv_digest_def)
    from guarded_refines [where k = ?k, OF c(2) this] show ?thesis
      by (simp add: Post_Guard post_guard_def c(1))
  next
    case (Post_Event session header req)
    let ?k = "\<lambda>(sid, token) st. then_do (run_installer_blocking
        (report_event (sv_digest sv) sid token req (re_session e)) st) (\<lambda>updated st.
      (Ok (), record_job_activity updated
           (if job_state updated = Failed then ''linux_installer_failed'' else ''linux_installer_event'')
           (if job_state updated = Failed then Sev_Error else Sev_Info) (job_error_message updated) e st))"
    obtain sid token where c: "session_caller sv session header st = Some (sid, token)"
        "session_and_token sv session header = Ok (sid, token)"
      using True session_caller_Some [of sv session header st] by (auto simp: Post_Event)
    have "advances sv e st (snd (?k (sid, token) st)) (Event sid token req)"
      unfolding prod.case by (rule installer_advances) (auto simp: sv_digest_def)
    from guarded_refines [where k = ?k, OF c(2) this] show ?thesis
      by (simp add: Post_Event installer_event_def c(1))
  next
    case (Post_First_Boot session header attempt)
    let ?k = "\<lambda>(sid, token) st. then_do (run_installer_blocking
        (complete_first_boot (sv_digest sv) sid token attempt (re_session e)) st) (\<lambda>updated st.
      (Ok (), case updated of None \<Rightarrow> st
         | Some j \<Rightarrow> record_job_activity j ''job_succeeded'' Sev_Success None e st))"
    obtain sid token where c: "session_caller sv session header st = Some (sid, token)"
        "session_and_token sv session header = Ok (sid, token)"
      using True session_caller_Some [of sv session header st] by (auto simp: Post_First_Boot)
    have "advances sv e st (snd (?k (sid, token) st)) (First_Boot sid token attempt)"
      unfolding prod.case by (rule installer_advances) (auto simp: sv_digest_def split: option.split)
    from guarded_refines [where k = ?k, OF c(2) this] show ?thesis
      by (simp add: Post_First_Boot installer_first_boot_def c(1))
  qed (simp_all add: reply_with_parts)
qed

section \<open>Histories\<close>

fun serve_all :: "services \<Rightarrow> (request \<times> request_env) list \<Rightarrow> api_state \<Rightarrow> api_state" where
  "serve_all sv [] st = st"
| "serve_all sv ((q, e) # qs) st = serve_all sv qs (snd (serve sv q e st))"

fun calls_of :: "services \<Rightarrow> (request \<times> request_env) list \<Rightarrow> api_state \<Rightarrow> (service_call \<times> session_env) list" where
  "calls_of sv [] st = []"
| "calls_of sv ((q, e) # qs) st =
     (case call_of sv q e st of None \<Rightarrow> [] | Some c \<Rightarrow> [(c, re_session e)]) @
     calls_of sv qs (snd (serve sv q e st))"

text \<open>What the code relies on of \<open>Uuid::new_v4\<close>, at each request.\<close>

definition fresh_request :: "request_env \<Rightarrow> api_state \<Rightarrow> bool" where
  "fresh_request e st =
     (let s = re_session e; ins = api_installer st in
      se_session s \<notin> fst ` set (ind_sessions ins) \<and>
      env_fresh (se_jobs s) \<notin> set (map job_id (jr_jobs (ind_jobs ins))) \<and>
      Some (env_fresh (se_jobs s)) \<notin> set (map job_lease_id (jr_jobs (ind_jobs ins))))"

fun fresh_requests :: "services \<Rightarrow> (request \<times> request_env) list \<Rightarrow> api_state \<Rightarrow> bool" where
  "fresh_requests sv [] st = True"
| "fresh_requests sv ((q, e) # qs) st =
     (fresh_request e st \<and> fresh_requests sv qs (snd (serve sv q e st)))"

text \<open>The state of the service that the installer's histories start from any state of.\<close>

definition api_inv :: "api_state \<Rightarrow> bool" where
  "api_inv st =
     (jobs_inv (jr_jobs (ind_jobs (api_installer st))) \<and>
      sessions_inv (ind_sessions (api_installer st)) \<and>
      devices_inv (dr_devices (ind_registry (api_installer st))) \<and>
      length (ar_events (api_activities st)) \<le> max_events)"

lemma registry_of_session [simp]:
  "ind_registry (snd (with_session k f st)) = ind_registry st"
  "ind_registry (snd (set_session_phase k a b st)) = ind_registry st"
  "ind_registry (snd (mark_session_completed k st)) = ind_registry st"
  by (auto simp: set_session_phase_def mark_session_completed_def with_session_def
      split: option.split outcome.split)

lemma registry_of_finish [simp]: "ind_registry (snd (finish_attempt b l ok e st)) = ind_registry st"
  by (simp add: finish_attempt_def split: prod.split outcome.split)

lemma registry_of_offer [simp]: "ind_registry (snd (offer_session digest e base d j st)) = ind_registry st"
  by (simp add: offer_session_def Let_def)

lemma registry_of_step:
  "devices_inv (dr_devices (ind_registry st)) \<Longrightarrow>
     devices_inv (dr_devices (ind_registry (service_step w c e st)))"
proof (cases c)
  case (Boot mac arch platform base)
  have "ind_registry (snd (discover dg pr mac arch platform base e st)) = ind_registry st" for dg pr
    by (auto simp: discover_def discover_job_def split: outcome.split option.split list.split prod.split)
  with Boot show "devices_inv (dr_devices (ind_registry st)) \<Longrightarrow> ?thesis" by simp
next
  case (Guard sid token req)
  obtain r st' where d: "authorize_guard (sw_digest w) (sw_scalar w) (sw_prepare w) sid token req e st = (r, st')"
    by fastforce
  then have "ind_registry st' = ind_registry st"
    by (cases rule: authorize_cases) simp_all
  with Guard d show "devices_inv (dr_devices (ind_registry st)) \<Longrightarrow> ?thesis" by simp
next
  case (Event sid token req)
  obtain r st' where d: "report_event (sw_digest w) sid token req e st = (r, st')" by fastforce
  then have "ind_registry st' = ind_registry st"
    by (cases rule: event_cases) (auto simp: Let_def)
  with Event d show "devices_inv (dr_devices (ind_registry st)) \<Longrightarrow> ?thesis" by simp
next
  case (First_Boot sid token attempt)
  obtain r st' where d: "complete_first_boot (sw_digest w) sid token attempt e st = (r, st')" by fastforce
  then have "ind_registry st' = ind_registry st"
    by (cases rule: first_boot_cases) auto
  with First_Boot d show "devices_inv (dr_devices (ind_registry st)) \<Longrightarrow> ?thesis" by simp
next
  case (Agent q de)
  then show "devices_inv (dr_devices (ind_registry st)) \<Longrightarrow> ?thesis"
    using devices.step_inv [of "ind_registry st" "sw_digest w" "(q, de)"] by simp
qed simp_all

section \<open>The activity log behind the routes\<close>

definition log_bounded :: "api_state \<Rightarrow> bool" where
  "log_bounded st = (length (ar_events (api_activities st)) \<le> max_events)"

lemma log_of_bind:
  "log_bounded (snd m) \<Longrightarrow> (\<And>x s. log_bounded s \<Longrightarrow> log_bounded (snd (k x s))) \<Longrightarrow>
     log_bounded (snd (then_do m k))"
  by (cases m; cases "fst m") auto

lemma log_of_activity: "log_bounded st \<Longrightarrow> log_bounded (log_activity d e st)"
  using activities.step_inv [of "api_activities st" "(d, re_activity e)"]
  by (simp add: log_bounded_def log_activity_def)

lemma log_of_records:
  "log_bounded st \<Longrightarrow> log_bounded (record_device_activity r kind sev raw e st)"
  "log_bounded st \<Longrightarrow> log_bounded (record_job_activity j kind sev raw e st)"
  by (simp_all add: record_device_activity_def record_job_activity_def Let_def log_of_activity)

lemma log_of_calls:
  "log_bounded st \<Longrightarrow> log_bounded (snd (on_registry f st))"
  "log_bounded st \<Longrightarrow> log_bounded (snd (on_jobs g st))"
  "log_bounded st \<Longrightarrow> log_bounded (snd (on_installer h st))"
  "log_bounded st \<Longrightarrow> log_bounded (snd (run_installer_blocking h st))"
  by (auto simp: log_bounded_def on_registry_def on_jobs_def on_installer_def run_installer_blocking_def
      split: prod.split outcome.split)

lemma log_of_lease: "log_bounded st \<Longrightarrow> log_bounded (snd (lease_claimed d ids e st))"
  by (cases "find (record_of d) (dr_devices (ind_registry (api_installer st)))")
    (simp_all add: lease_claimed_def with_current_def Let_def log_of_calls)

lemmas log_intros = log_of_bind log_of_records log_of_calls log_of_lease

lemma log_of_routes:
  assumes "log_bounded st"
  shows "log_bounded (snd (serve sv q e st))"
proof (cases q)
  case (Get_Boot_Script mac arch platform)
  have "snd (serve sv q e st) = snd (on_installer (discover (sv_digest sv) (sw_prepare (sv_world sv))
      mac arch platform (api_installer_base_url st) (re_session e)) st)"
    by (simp add: Get_Boot_Script installer_boot_script_def split: prod.split)
  with log_of_calls(3) [OF assms] show ?thesis by simp
qed (use assms in \<open>auto simp: post_register_def post_heartbeat_def claim_job_def report_job_progress_def
    job_control_state_def post_complete_def post_guard_def installer_event_def installer_first_boot_def
    Let_def split: option.split prod.split intro!: log_intros\<close>)

section \<open>Jobs that an agent moves\<close>

lemma only_device: "job_ok j \<Longrightarrow> targets_device j d \<Longrightarrow> job_device j = d"
  by (cases "job_targets j") (auto simp: job_ok_def targets_device_def job_device_def)

text \<open>The calls an agent makes change a job only of the device they name, and no Linux job.\<close>

fun calling_device :: "job_call \<Rightarrow> uuid option" where
  "calling_device (Lease_Device d t P) = Some d"
| "calling_device (Report_Progress i d t p) = Some d"
| "calling_device (Complete i d l ok msg) = Some d"
| "calling_device (Renew_Control i d l t) = Some d"
| "calling_device _ = None"

lemma renew_moves:
  assumes "job_at repo k = Some j" "job_at (snd (renew_control_lease i d l t clk w repo)) k = Some j'" "j' \<noteq> j"
  shows "job_operation j \<noteq> Install_Linux \<and> targets_device j d"
proof (cases "i = k")
  case True
  then show ?thesis
    using assms by (auto simp: renew_control_lease_def job_at_def split: if_splits)
next
  case False
  then have "find (\<lambda>j. job_id j = k) (update_first (\<lambda>j. job_id j = i)
      (\<lambda>j. j\<lparr> job_lease_expires_at := x \<rparr>) (jr_jobs repo)) = Some j" for x
    using assms(1) by (subst find_update_first_other) (auto simp: job_at_def)
  then show ?thesis
    using assms by (auto simp: renew_control_lease_def Let_def job_at_def commit_jobs_snd
        split: option.splits if_splits)
qed

lemma leased_update_moves:
  assumes "good_update (\<lambda>j. and_then (agent_guard d lease now j) (\<lambda>_.
      map_ok (\<lambda>j'. j'\<lparr> job_updated_at := later \<rparr>) (f j)))"
    and "jobs_inv (jr_jobs repo)" "job_at repo k = Some j"
    and "job_at (snd (update_leased_job i d lease f now later w repo)) k = Some j'" "j' \<noteq> j"
  shows "job_operation j \<noteq> Install_Linux \<and> targets_device j d"
  using modify_effect [OF assms(1-3) _ assms(5)] assms(4)
  by (auto simp: update_leased_job_def outcome_simps agent_guard_Ok)

lemma agent_call_effect:
  assumes inv: "jobs_inv (jr_jobs repo)" and j: "job_at repo k = Some j" and d: "calling_device q = Some d"
    and j': "job_at (snd (run_job_call (q, e) repo)) k = Some j'" "j' \<noteq> j"
  shows "job_operation j \<noteq> Install_Linux \<and> job_device j = d"
proof -
  have ok: "job_ok j" using jobs_inv_find [OF inv] j by (simp add: job_at_def)
  have "job_operation j \<noteq> Install_Linux \<and> targets_device j d"
  proof (cases q)
    case (Lease_Device d' t P)
    with lease_effect [OF inv j _ j'(2)] j'(1) d show ?thesis
      by (cases "job_targets j") (fastforce simp: agent_eligible_def targets_device_def)+
  next
    case (Report_Progress i d' t p)
    with d j' leased_update_moves [OF good_agent_progress inv j] show ?thesis
      by (cases "ajp_progress_percent p > 100") (auto simp: report_progress_def Let_def j)
  next
    case (Complete i d' l ok msg)
    with d j' leased_update_moves [OF good_agent_completion inv j] show ?thesis
      by (auto simp: complete_job_def)
  next
    case (Renew_Control i d' l t)
    with d j' renew_moves [OF j] show ?thesis by auto
  qed (use d in simp_all)
  with only_device [OF ok] show ?thesis by blast
qed

lemma installer_update_moves:
  assumes "good_update (\<lambda>j. and_then (installer_guard d lease now j) (\<lambda>_.
      map_ok (\<lambda>j'. j'\<lparr> job_updated_at := later \<rparr>) (f j)))"
    and "jobs_inv (jr_jobs repo)" "job_at repo k = Some j"
    and "job_at (snd (update_installer_job i d lease f now later w repo)) k = Some j'" "j' \<noteq> j"
  shows "job_operation j = Install_Linux"
  using modify_effect [OF assms(1-3) _ assms(5)] assms(4)
  by (auto simp: update_installer_job_def outcome_simps installer_guard_Ok)

lemma installer_call_effect:
  assumes inv: "jobs_inv (jr_jobs repo)" and j: "job_at repo k = Some j" and q: "installer_only q"
    and j': "job_at (snd (run_job_call (q, e) repo)) k = Some j'" "j' \<noteq> j"
  shows "job_operation j = Install_Linux"
proof (cases q)
  case (Mark_Booting i d img)
  with j' modify_effect [OF good_booting inv j] show ?thesis
    by (fastforce simp: mark_installer_booting_def outcome_simps handoff_guard_Ok)
next
  case (Lease_Installer i d img t)
  with j' modify_effect [OF good_installer_lease inv j] show ?thesis
    by (fastforce simp: lease_installer_job_def outcome_simps handoff_guard_Ok)
next
  case (Report_Installer i d l t st pct msg)
  with j' installer_update_moves [OF good_installer_progress inv j] show ?thesis
    by (cases "pct > 99") (auto simp: report_installer_progress_def Let_def j)
next
  case (Complete_Installer i d l ok msg)
  with j' installer_update_moves [OF good_installer_completion inv j] show ?thesis
    by (auto simp: complete_installer_def)
qed (use q in simp_all)

section \<open>Properties\<close>

text \<open>
  C9.  The API refines its services request by request.  A request makes at
  most one call, and it is the one its route and its caller determine: an
  agent's call names the device whose stored token digest matches the bearer
  token, an installer's the session whose digest matches, a registration needs
  the enrollment token, and without the credential there is no call.  After any
  history of requests the registry, the jobs and the sessions are exactly what
  these calls, in their order, make of them, so no update is lost and none is
  added; and every call is one the services permit.
\<close>

theorem api_histories_refine_services:
  "api_installer (serve_all sv qs st) = service_run (sv_world sv) (calls_of sv qs st) (api_installer st) \<and>
   list_all (permitted \<circ> fst) (calls_of sv qs st) \<and> length (calls_of sv qs st) \<le> length qs"
proof (induction sv qs st rule: serve_all.induct)
  case (2 sv q e qs st)
  then show ?case
    using request_refines [of sv q e st]
    by (cases "call_of sv q e st") (auto dest: call_is_permitted)
qed simp

lemma serve_inv:
  assumes "api_inv st" "fresh_request e st"
  shows "api_inv (snd (serve sv q e st))"
proof -
  have "log_bounded (snd (serve sv q e st))"
    using assms(1) by (intro log_of_routes) (simp add: api_inv_def log_bounded_def)
  moreover have "api_inv st \<Longrightarrow> fresh_request e st \<Longrightarrow>
      jobs_inv (jr_jobs (ind_jobs (service_step (sv_world sv) c (re_session e) (api_installer st)))) \<and>
      sessions_inv (ind_sessions (service_step (sv_world sv) c (re_session e) (api_installer st))) \<and>
      devices_inv (dr_devices (ind_registry (service_step (sv_world sv) c (re_session e) (api_installer st))))" for c
    by (intro conjI service_step_jobs_inv service_step_sessions registry_of_step)
      (simp_all add: api_inv_def fresh_request_def Let_def)
  ultimately show ?thesis
    using assms request_refines [of sv q e st]
    by (cases "call_of sv q e st") (auto simp: api_inv_def log_bounded_def)
qed

text \<open>
  C12.  In every history of requests, whatever they carry and whichever writes
  fail, device identifiers stay distinct with canonical MAC addresses, jobs
  valid with one open job per device, sessions one per job and bounded, and the
  activity log within 10000 events.
\<close>

theorem api_histories_keep_invariant:
  assumes "api_inv st" "fresh_requests sv qs st"
  defines "st' \<equiv> serve_all sv qs st"
  shows "jobs_inv (jr_jobs (ind_jobs (api_installer st'))) \<and>
    sessions_inv (ind_sessions (api_installer st')) \<and>
    devices_inv (dr_devices (ind_registry (api_installer st'))) \<and>
    length (ar_events (api_activities st')) \<le> 10000"
proof -
  have "api_inv (serve_all sv qs st)"
    using assms(1,2)
    by (induction sv qs st rule: serve_all.induct) (simp_all add: serve_inv)
  then show ?thesis by (simp add: st'_def api_inv_def max_events_def)
qed

text \<open>The credentials an agent's request about jobs carries.\<close>

fun agent_of :: "request \<Rightarrow> (string \<times> string option) option" where
  "agent_of (Post_Claim device header) = Some (device, header)"
| "agent_of (Post_Progress device job header p) = Some (device, header)"
| "agent_of (Get_Control device job lease header) = Some (device, header)"
| "agent_of (Post_Complete device job header c) = Some (device, header)"
| "agent_of (Get_Image device job lease header) = Some (device, header)"
| "agent_of _ = None"

text \<open>
  C6.  A request that changes a job is one of two: an agent's request for a
  Windows job of the device whose token it carries, or an installer's request
  for a Linux job.  No agent moves another device's job.
\<close>

theorem agents_move_only_their_jobs:
  assumes inv: "jobs_inv (jr_jobs (ind_jobs (api_installer st)))"
    and j: "job_at (ind_jobs (api_installer st)) k = Some j"
    and j': "job_at (ind_jobs (api_installer (snd (serve sv q e st)))) k = Some j'" "j' \<noteq> j"
  shows "case agent_of q of
      Some (device, header) \<Rightarrow> job_operation j \<noteq> Install_Linux \<and>
        authenticated_device sv device header st = Ok (job_device j)
    | None \<Rightarrow> job_operation j = Install_Linux"
proof -
  have "api_installer (snd (serve sv q e st)) \<noteq> api_installer st" using j j' by auto
  then obtain c where c: "call_of sv q e st = Some c"
    "api_installer (snd (serve sv q e st)) = service_step (sv_world sv) c (re_session e) (api_installer st)"
    using request_refines [of sv q e st] by (cases "call_of sv q e st") auto
  obtain r where r: "causes (sv_world sv) (re_session e) (api_installer st) c r"
    "ind_jobs (api_installer (snd (serve sv q e st))) =
      snd (run_job_call (r, se_jobs (re_session e)) (ind_jobs (api_installer st)))"
    using service_jobs [of "sv_world sv" c "re_session e" "api_installer st"] j j' c(2) by auto
  note at = j'(1) [unfolded r(2)]
  have "job_operation j = Install_Linux" if "installer_only r"
    by (rule installer_call_effect [OF inv j that at j'(2)])
  moreover have "job_operation j \<noteq> Install_Linux \<and> job_device j = d" if "calling_device r = Some d" for d
    by (rule agent_call_effect [OF inv j that at j'(2)])
  ultimately show ?thesis
    using c(1) r(1)
    by (cases q)
      (auto simp: bind_eq_Some_conv device_caller_Some dest!: claim_call_Some split: option.splits if_splits)
qed

text \<open>
  C13.  Without its credential - the enrollment token for a registration, the
  device's own token for an agent, the session's for an installer - a request
  is refused with 401, 404 or, where the body is checked first, 422, and
  changes nothing: no device, job or session, and no entry of the activity log.
\<close>

theorem no_credential_no_effect:
  assumes "\<not> credential sv q st"
  shows "\<exists>x. serve sv q e st = (Err x, st) \<and> api_status x \<in> {401, 404, 422}"
  using no_credential_refused [OF assms] by (simp add: refused_def)

section \<open>Concrete requests\<close>

definition sample_agent_disk :: disk where
  "sample_agent_disk = \<lparr> disk_id = ''0'', disk_model = ''M'', disk_serial = Some ''S1'',
     disk_size_bytes = 274877906944, disk_is_system = False \<rparr>"

definition sample_agent_record :: device_record where
  "sample_agent_record = \<lparr> rec_device = device_from (sample_inventory
       \<lparr> inv_mac_address := ''00:1A:2B:3C:4D:5E'', inv_disks := [sample_agent_disk] \<rparr>) 7 ''10.0.0.9'' 0,
     rec_agent_version = ''1.0'', rec_first_seen_at = 0, rec_token_digest = ''t'' \<rparr>"

definition sample_artifact :: image_artifact where
  "sample_artifact = \<lparr> img_id = 3, img_name = ''Office'', img_format = Wim, img_source_path = ''w'',
     img_size_bytes = 3, img_sha256 = Some ''c'', img_spans = [], img_verified = True,
     img_gho_capability = None, img_installer_capability = None, img_created_at = 0 \<rparr>"

definition sample_services :: services where
  "sample_services = \<lparr> sv_world = sample_world,
     sv_parse_uuid = (\<lambda>s. if s = ''7'' then Some 7 else if s = ''5'' then Some 5 else None),
     sv_revalidate = (\<lambda>i n. True), sv_prepare_gho = (\<lambda>i n. Err ''none''),
     sv_image = (\<lambda>i. Some sample_artifact), sv_read = (\<lambda>p. Some [1, 2, 3]) \<rparr>"

definition sample_api :: "job_repository \<Rightarrow> api_state" where
  "sample_api jobs = \<lparr> api_installer = \<lparr>
       ind_registry = \<lparr> dr_manifest = Absent, dr_devices = [sample_agent_record] \<rparr>,
       ind_jobs = jobs, ind_sessions = [] \<rparr>,
     api_activities = \<lparr> ar_file = Absent, ar_events = [] \<rparr>,
     api_enrollment_token_digest = ''e'', api_installer_base_url = ''http://10.0.0.1'' \<rparr>"

definition sample_request_env :: "instant \<Rightarrow> request_env" where
  "sample_request_env t = \<lparr> re_clock = (\<lambda>n. t), re_device = sample_device_env,
     re_session = sample_session_env t,
     re_activity = \<lparr> ae_clock = (\<lambda>n. t), ae_id = 1, ae_write = Written \<rparr> \<rparr>"

lemma sample_bearer: "bearer_token (Some ''Bearer t'') = Some ''t''"
  by (simp add: bearer_token_def header_text_def byte_def strip_prefix_def starts_with_def non_empty_def)

lemma sample_authenticates:
  "authenticated_device sample_services ''7'' (Some ''Bearer t'') (sample_api jobs) = Ok 7"
  by (simp add: authenticated_device_def sample_bearer sample_services_def sample_api_def authenticate_def
      record_of_def sample_agent_record_def device_from_def secret_matches_def sv_digest_def sample_world_def)

definition claimed_windows_job :: deployment_job where
  "claimed_windows_job = (new_job sample_windows_request Waiting 5 0)
     \<lparr> job_state := Running, job_stage := Some Preflight, job_progress_percent := 0,
        job_status_message := Some ''Agent claimed deployment task'', job_error_message := None,
        job_lease_id := Some 9, job_lease_expires_at := Some (10 + minutes 120), job_updated_at := 10 \<rparr>"

lemma sample_disk_matches: "matches_disk sample_target sample_agent_disk"
  by (simp add: matches_disk_def sample_target_def sample_agent_disk_def sample_trims abs_diff_def
      capacity_tolerance_bytes_def trim_visible visible_def byte_def)

lemma sample_claim:
  defines "claimed \<equiv> claim_job sample_services ''7'' (Some ''Bearer t'') id (sample_request_env 10)
    (sample_api (waiting_repository sample_windows_request))"
  shows "\<exists>l st'. claimed = (Ok (Some l), st') \<and> ajl_job_id l = 5 \<and> ajl_lease_id l = 9 \<and>
    ajl_expires_at l = 10 + minutes 120 \<and> jr_jobs (ind_jobs (api_installer st')) = [claimed_windows_job]"
proof -
  let ?j = "new_job sample_windows_request Waiting 5 0"
  let ?st = "sample_api (waiting_repository sample_windows_request)"
  have entry: "\<exists>r. device_entry 7 t ?st = Some r \<and> dev_disks (rd_device r) = [sample_agent_disk]" for t
    by (simp add: device_entry_def list_devices_def list_with_online_window_def sample_api_def
        sample_agent_record_def presence_of_def device_from_def)
  have targets: "targets_disk_of 7 dev ?j" if "dev_disks dev = [sample_agent_disk]" for dev
    using that by (simp add: targets_disk_of_def sample_disk_matches)
  have ids: "eligible_job_ids sample_services 7 dev t ?st = [5]" if "dev_disks dev = [sample_agent_disk]" for dev t
    using targets [OF that]
    by (simp add: eligible_job_ids_def list_jobs_def sample_api_def waiting_jobs claim_candidate_def
        deploys_windows_def image_validated_def sample_services_def)
  have "lease_for_device_if 7 (minutes job_lease_minutes)
      (\<lambda>j. job_id j \<in> set [5] \<and> deploys_windows j \<and> targets_disk_of 7 (rec_device sample_agent_record) j)
      9 (\<lambda>n. 10 + int n) Written (waiting_repository sample_windows_request) =
     (Ok (Some claimed_windows_job), snd (commit_jobs Written (waiting_repository sample_windows_request)
        [claimed_windows_job] ()))"
    using targets [of "rec_device sample_agent_record"]
    by (simp add: lease_for_device_if_def waiting_jobs agent_eligible_def deploys_windows_def
        apply_agent_lease_def transition_def allowed_transitions_def Let_def commit_jobs_def
        claimed_windows_job_def job_lease_minutes_def sample_agent_record_def device_from_def)
  then obtain jobs where "lease_for_device_if 7 (minutes job_lease_minutes)
      (\<lambda>j. job_id j \<in> set [5] \<and> deploys_windows j \<and> targets_disk_of 7 (rec_device sample_agent_record) j)
      9 (\<lambda>n. 10 + int n) Written (waiting_repository sample_windows_request) =
     (Ok (Some claimed_windows_job), jobs)" "jr_jobs jobs = [claimed_windows_job]"
    by (simp add: commit_jobs_def)
  moreover have "find (record_of 7) [sample_agent_record] = Some sample_agent_record"
    by (simp add: record_of_def sample_agent_record_def device_from_def)
  ultimately obtain st1 where st1: "lease_claimed 7 [5] (sample_request_env 10) ?st =
      (Ok (Some claimed_windows_job), st1)" "jr_jobs (ind_jobs (api_installer st1)) = [claimed_windows_job]"
    by (simp add: lease_claimed_def with_current_def sample_request_env_def sample_session_env_def
        sample_env_def on_jobs_def sample_api_def)
  obtain l where l: "lease_message sample_services 7 claimed_windows_job = Ok l" "ajl_job_id l = 5"
      "ajl_lease_id l = 9" "ajl_expires_at l = 10 + minutes 120"
    by (simp add: lease_message_def claimed_windows_job_def sample_services_def sample_artifact_def)
  obtain r where r: "device_entry 7 (re_clock (sample_request_env 10) 0) ?st = Some r"
      "dev_disks (rd_device r) = [sample_agent_disk]" using entry by blast
  have "claimed = (Ok (Some l), record_job_activity claimed_windows_job ''job_started'' Sev_Info None
      (sample_request_env 10) st1)"
    by (simp add: claimed_def claim_job_def sample_authenticates r ids [OF r(2)] st1(1) l(1) Let_def)
  with l st1(2) show ?thesis by simp
qed

lemma sample_api_inv: "api_inv (sample_api (waiting_repository sample_windows_request))"
proof -
  have "canonical_mac ''00:1A:2B:3C:4D:5E''" by code_simp
  then have "record_ok sample_agent_record"
    by (simp add: record_ok_def sample_agent_record_def device_from_def sample_inventory_def bounded_text_def
        details_bounded_def char_count_def)
  then show ?thesis
    using sample_invariants(2)
    by (simp add: api_inv_def sample_api_def devices_inv_def sessions_inv_def)
qed

theorem api_histories_keep_invariant_witness:
  "jobs_inv (jr_jobs (ind_jobs (api_installer (serve_all sample_services
     [(Post_Claim ''7'' (Some ''Bearer t''), sample_request_env 10)]
     (sample_api (waiting_repository sample_windows_request))))))"
proof -
  have "fresh_requests sample_services [(Post_Claim ''7'' (Some ''Bearer t''), sample_request_env 10)]
      (sample_api (waiting_repository sample_windows_request))"
    by (simp add: fresh_request_def sample_api_def waiting_jobs sample_request_env_def sample_session_env_def
        sample_env_def new_job_def)
  from api_histories_keep_invariant [OF sample_api_inv this] show ?thesis by simp
qed

theorem agents_move_only_their_jobs_witness:
  "\<exists>st' j j'. st' = snd (serve sample_services (Post_Claim ''7'' (Some ''Bearer t'')) (sample_request_env 10)
      (sample_api (waiting_repository sample_windows_request))) \<and>
     job_at (waiting_repository sample_windows_request) 5 = Some j \<and>
     job_at (ind_jobs (api_installer st')) 5 = Some j' \<and> j' \<noteq> j \<and>
     authenticated_device sample_services ''7'' (Some ''Bearer t'')
       (sample_api (waiting_repository sample_windows_request)) = Ok (job_device j)"
proof -
  let ?st = "sample_api (waiting_repository sample_windows_request)"
  let ?q = "Post_Claim ''7'' (Some ''Bearer t'')"
  let ?st' = "snd (serve sample_services ?q (sample_request_env 10) ?st)"
  have jobs: "ind_jobs (api_installer ?st) = waiting_repository sample_windows_request"
    by (simp add: sample_api_def)
  have j: "job_at (ind_jobs (api_installer ?st)) 5 = Some (new_job sample_windows_request Waiting 5 0)"
    by (simp add: jobs job_at_def waiting_jobs)
  have j': "job_at (ind_jobs (api_installer ?st')) 5 = Some claimed_windows_job"
    using sample_claim by (auto simp: job_at_def claimed_windows_job_def)
  have inv: "jobs_inv (jr_jobs (ind_jobs (api_installer ?st)))"
    by (simp add: jobs sample_invariants)
  have "claimed_windows_job \<noteq> new_job sample_windows_request Waiting 5 0"
  proof
    assume "claimed_windows_job = new_job sample_windows_request Waiting 5 0"
    from arg_cong [OF this, of job_lease_id] show False by (simp add: claimed_windows_job_def)
  qed
  with agents_move_only_their_jobs [OF inv j j'] j j' show ?thesis by (simp add: jobs)
qed

theorem no_credential_no_effect_witness:
  "\<exists>x. serve sample_services (Post_Claim ''7'' None) (sample_request_env 10) (sample_api empty_repository) =
     (Err x, sample_api empty_repository)"
proof -
  have "\<not> credential sample_services (Post_Claim ''7'' None) (sample_api empty_repository)"
    by (simp add: device_credential_def authenticated_device_def bearer_token_def outcome_simps)
  from no_credential_no_effect [OF this] show ?thesis by blast
qed

end
