(* ===== verification/Unicode_Text.thy ===== *)
theory Unicode_Text
  imports Edm_Prelude
begin

text \<open>
  UTF-8 as the Rust standard library checks it (\<open>str::from_utf8\<close>,
  \<open>String::from_utf8_lossy\<close>, \<open>OsStr::to_str\<close>), over strings with one \<open>char\<close> per
  byte, and the comparison of names without regard to case.  The upper-case
  form of a character outside ASCII is Unicode's data and so a parameter: the
  encoding of one character is mapped to the encoding of its upper case.
\<close>

section \<open>Well-formed sequences\<close>

text \<open>
  What a leading byte announces: the number of continuation bytes and the range
  of the first of them; no entry for a byte that leads no sequence.
\<close>

definition utf8_class :: "nat \<Rightarrow> (nat \<times> nat \<times> nat) option" where
  "utf8_class n =
     (if n < 0x80 then Some (0, 0, 0)
      else if n < 0xC2 then None
      else if n < 0xE0 then Some (1, 0x80, 0xBF)
      else if n = 0xE0 then Some (2, 0xA0, 0xBF)
      else if n = 0xED then Some (2, 0x80, 0x9F)
      else if n < 0xF0 then Some (2, 0x80, 0xBF)
      else if n = 0xF0 then Some (3, 0x90, 0xBF)
      else if n < 0xF4 then Some (3, 0x80, 0xBF)
      else if n = 0xF4 then Some (3, 0x80, 0x8F)
      else None)"

text \<open>Continuation bytes present after a leading byte, as many as announced at most.\<close>

definition utf8_tail :: "nat \<times> nat \<times> nat \<Rightarrow> string \<Rightarrow> nat" where
  "utf8_tail cls r =
     (case cls of (k, lo, hi) \<Rightarrow>
        (case r of
           [] \<Rightarrow> 0
         | b # r' \<Rightarrow>
             if 0 < k \<and> lo \<le> byte b \<and> byte b \<le> hi
             then Suc (length (takeWhile continues (take (k - 1) r')))
             else 0))"

text \<open>The first sequence of a text: whether it is complete, and its bytes.\<close>

definition utf8_step :: "char \<Rightarrow> string \<Rightarrow> bool \<times> nat" where
  "utf8_step c r =
     (case utf8_class (byte c) of
        None \<Rightarrow> (False, 0)
      | Some cls \<Rightarrow> (utf8_tail cls r = fst cls, utf8_tail cls r))"

function utf8_valid :: "string \<Rightarrow> bool" where
  "utf8_valid [] = True"
| "utf8_valid (c # r) =
     (case utf8_step c r of (complete, n) \<Rightarrow> complete \<and> utf8_valid (drop n r))"
  by pat_completeness auto
termination by (relation "measure length") auto

definition replacement :: string where
  "replacement = map char_of [0xEF, 0xBF, 0xBD :: nat]"

function utf8_lossy :: "string \<Rightarrow> string" where
  "utf8_lossy [] = []"
| "utf8_lossy (c # r) =
     (case utf8_step c r of (complete, n) \<Rightarrow>
        (if complete then c # take n r else replacement) @ utf8_lossy (drop n r))"
  by pat_completeness auto
termination by (relation "measure length") auto

definition from_utf8 :: "string \<Rightarrow> string option" where
  "from_utf8 s = (if utf8_valid s then Some s else None)"

lemma utf8_lossy_valid: "utf8_valid s \<Longrightarrow> utf8_lossy s = s"
  by (induction s rule: utf8_valid.induct) (auto split: prod.splits)

lemma utf8_step_ascii: "is_ascii c \<Longrightarrow> utf8_step c r = (True, 0)"
  by (cases r) (auto simp: utf8_step_def utf8_class_def utf8_tail_def is_ascii_def)

lemma utf8_valid_ascii: "list_all is_ascii s \<Longrightarrow> utf8_valid s"
  by (induction s) (auto simp: utf8_step_ascii)

lemma from_utf8_ascii: "list_all is_ascii s \<Longrightarrow> from_utf8 s = Some s"
  by (simp add: from_utf8_def utf8_valid_ascii)

section \<open>Characters\<close>

function utf8_chars :: "string \<Rightarrow> string list" where
  "utf8_chars [] = []"
| "utf8_chars (c # s) = (c # takeWhile continues s) # utf8_chars (dropWhile continues s)"
  by pat_completeness auto
termination
  by (relation "measure length") (auto simp: less_Suc_eq_le length_dropWhile_le)

text \<open>\<open>str::to_uppercase\<close>: character by character.\<close>

definition upper_char :: "(string \<Rightarrow> string) \<Rightarrow> string \<Rightarrow> string" where
  "upper_char table c =
     (case c of [a] \<Rightarrow> if is_ascii a then [to_upper a] else table c | _ \<Rightarrow> table c)"

definition uppercase :: "(string \<Rightarrow> string) \<Rightarrow> string \<Rightarrow> string" where
  "uppercase table s = concat (map (upper_char table) (utf8_chars s))"

lemma not_continues_ascii: "is_ascii c \<Longrightarrow> \<not> continues c"
  by (simp add: is_ascii_def continues_def)

lemma utf8_chars_ascii: "list_all is_ascii s \<Longrightarrow> utf8_chars s = map (\<lambda>c. [c]) s"
proof (induction s)
  case (Cons c s)
  then have "takeWhile continues s = []" "dropWhile continues s = s"
    by (cases s; simp add: not_continues_ascii)+
  with Cons show ?case by simp
qed simp

lemma uppercase_ascii: "list_all is_ascii s \<Longrightarrow> uppercase table s = map to_upper s"
proof -
  have "list_all is_ascii s \<Longrightarrow> concat (map (upper_char table) (map (\<lambda>c. [c]) s)) = map to_upper s"
    by (induction s) (simp_all add: upper_char_def)
  then show "list_all is_ascii s \<Longrightarrow> uppercase table s = map to_upper s"
    by (simp add: uppercase_def utf8_chars_ascii)
qed

lemma concat_utf8_chars: "concat (utf8_chars s) = s"
  by (induction s rule: utf8_chars.induct) simp_all

text \<open>A character never starts in the middle of another, so texts that start characters append.\<close>

lemma utf8_chars_append:
  "t = [] \<or> \<not> continues (hd t) \<Longrightarrow> utf8_chars (s @ t) = utf8_chars s @ utf8_chars t"
proof (induction s rule: utf8_chars.induct)
  case (2 c s)
  have "takeWhile continues (s @ t) = takeWhile continues s"
    "dropWhile continues (s @ t) = dropWhile continues s @ t"
    using "2.prems" by (induction s; cases t; simp)+
  with "2.IH" "2.prems" show ?case by simp
qed simp

lemma uppercase_append:
  "t = [] \<or> \<not> continues (hd t) \<Longrightarrow> uppercase table (s @ t) = uppercase table s @ uppercase table t"
  by (simp add: uppercase_def utf8_chars_append)

section \<open>Code points and UTF-16\<close>

text \<open>The scalar value of one encoded character, and \<open>encode_utf16\<close>.\<close>

definition code_point :: "string \<Rightarrow> nat" where
  "code_point s =
     (case s of
        [] \<Rightarrow> 0
      | [c] \<Rightarrow> byte c
      | c # rest \<Rightarrow> foldl (\<lambda>n d. 64 * n + byte d mod 64) (byte c mod 2 ^ (6 - length rest)) rest)"

definition utf16_units :: "string \<Rightarrow> u16 list" where
  "utf16_units s = concat (map (\<lambda>ch.
     let n = code_point ch in
     if n < 0x10000 then [word_of_nat n]
     else [word_of_nat (0xD800 + (n - 0x10000) div 1024), word_of_nat (0xDC00 + (n - 0x10000) mod 1024)])
     (utf8_chars s))"

lemma utf16_ascii: "list_all is_ascii s \<Longrightarrow> utf16_units s = map (\<lambda>c. word_of_nat (byte c)) s"
  unfolding utf16_units_def utf8_chars_ascii
  by (induction s) (simp_all add: code_point_def is_ascii_def)

end
