(* ===== verification/File_System.thy ===== *)
theory File_System
  imports Unicode_Text Byte_Codec
begin

text \<open>
  What the image library uses of \<open>std::path\<close> and \<open>std::fs\<close> on a Unix host: paths
  as their components, a file system of regular files, directories and symbolic
  links, and the calls with the failures an operating system may answer.  The
  code's confinement of image files rests on \<open>canonicalize\<close>, so the resolution
  of links is modelled and its two laws are stated as a locale.
\<close>

section \<open>Paths\<close>

text \<open>
  The components of a path, as \<open>Path::components\<close> gives them: the root is the
  component \<open>/\<close>; empty components and those named \<open>.\<close> are dropped, except a
  leading \<open>.\<close>.  Rust compares paths by their components.
\<close>

type_synonym path = "string list"

definition root :: string where "root = ''/''"

definition slash :: "char \<Rightarrow> bool" where "slash c = (c = CHR ''/'')"

definition path_of :: "string \<Rightarrow> path" where
  "path_of s =
     (let cs = split_on slash s in
      (if starts_with root s then [root] else if hd cs = ''.'' then [''.''] else []) @
      filter (\<lambda>c. c \<noteq> [] \<and> c \<noteq> ''.'') cs)"

fun join_slash :: "string list \<Rightarrow> string" where
  "join_slash [] = []"
| "join_slash [c] = c"
| "join_slash (c # cs) = c @ ''/'' @ join_slash cs"

definition path_text :: "path \<Rightarrow> string" where
  "path_text p = (if p \<noteq> [] \<and> hd p = root then root @ join_slash (tl p) else join_slash p)"

definition normal_component :: "string \<Rightarrow> bool" where
  "normal_component c = (c \<noteq> [] \<and> c \<noteq> root \<and> c \<noteq> ''.'' \<and> c \<noteq> ''..'')"

definition parent :: "path \<Rightarrow> path option" where
  "parent p = (if p = [] \<or> last p = root then None else Some (butlast p))"

definition file_name :: "path \<Rightarrow> string option" where
  "file_name p = (if p \<noteq> [] \<and> normal_component (last p) then Some (last p) else None)"

definition join_name :: "path \<Rightarrow> string \<Rightarrow> path" where
  "join_name p name = p @ [name]"

definition path_within :: "path \<Rightarrow> path \<Rightarrow> bool" where
  "path_within base p = (take (length base) p = base)"

text \<open>A file name is split at its last dot, unless the dot leads the name.\<close>

definition rsplit_dot :: "string \<Rightarrow> string \<times> string option" where
  "rsplit_dot f =
     (let ext = rev (takeWhile (\<lambda>c. c \<noteq> CHR ''.'') (rev f)) in
      if length f \<le> Suc (length ext) then (f, None)
      else (take (length f - Suc (length ext)) f, Some ext))"

definition file_stem :: "path \<Rightarrow> string option" where
  "file_stem p = map_option (\<lambda>f. fst (rsplit_dot f)) (file_name p)"

definition extension :: "path \<Rightarrow> string option" where
  "extension p = Option.bind (file_name p) (\<lambda>f. snd (rsplit_dot f))"

definition to_str :: "string option \<Rightarrow> string option" where
  "to_str name = Option.bind name from_utf8"

lemma rsplit_dot_name:
  assumes "stem \<noteq> []" "CHR ''.'' \<notin> set ext"
  shows "rsplit_dot (stem @ ''.'' @ ext) = (stem, Some ext)"
proof -
  have "takeWhile (\<lambda>c. c \<noteq> CHR ''.'') (rev (stem @ ''.'' @ ext)) = rev ext"
    using assms(2) by (simp add: takeWhile_append)
  then show ?thesis using assms(1) by (simp add: rsplit_dot_def)
qed

lemma split_dot_parts:
  assumes "rsplit_dot f = (stem, Some ext)"
  shows "f = stem @ ''.'' @ ext \<and> stem \<noteq> []"
proof -
  define u where "u = takeWhile (\<lambda>c. c \<noteq> CHR ''.'') (rev f)"
  define v where "v = dropWhile (\<lambda>c. c \<noteq> CHR ''.'') (rev f)"
  have f: "rev f = u @ v" by (simp add: u_def v_def)
  then have len: "length f = length u + length v" by (metis length_append length_rev)
  from assms have split: "Suc (length u) < length f" "stem = take (length f - Suc (length u)) f" "ext = rev u"
    unfolding rsplit_dot_def Let_def u_def [symmetric] by (simp_all split: if_splits)
  obtain d rest where v: "v = d # rest" "rest \<noteq> []"
  proof (cases v)
    case (Cons d rest)
    then show thesis using split(1) len that by (cases rest) simp_all
  qed (use split(1) len in simp)
  have "d = CHR ''.''" using v(1) using hd_dropWhile [of "\<lambda>c. c \<noteq> CHR ''.''" "rev f"] by (simp add: v_def [symmetric])
  moreover have "f = rev rest @ [d] @ rev u" using arg_cong [OF f, of rev] v(1) by simp
  ultimately have "f = rev rest @ ''.'' @ ext" using split(3) by simp
  moreover from this have "stem = rev rest" using split(2) len v(1) by simp
  ultimately show ?thesis using v(2) by simp
qed

section \<open>The file system\<close>

datatype node = Regular bytes | Directory | Link path

text \<open>The calls the operating system may refuse, besides those on absent files.\<close>

datatype io_call = Canonicalizing | Inspecting | Opening | Listing | Creating | Copying | Renaming | Removing

record file_system =
  fs_nodes :: "(path \<times> node) list"
  fs_directory :: path
  fs_refuses :: "io_call \<Rightarrow> path \<Rightarrow> bool"

definition node_at :: "file_system \<Rightarrow> path \<Rightarrow> node option" where
  "node_at fs p = (if p = [root] then Some Directory else map_of (fs_nodes fs) p)"

definition absolute :: "file_system \<Rightarrow> path \<Rightarrow> path" where
  "absolute fs p = (if p \<noteq> [] \<and> hd p = root then p else fs_directory fs @ p)"

text \<open>
  Resolution of a path: \<open>d\<close> is the directory reached, the list the components
  left.  A host follows at most \<open>k\<close> links (40 on Linux) and answers an error then.
\<close>

function resolve :: "nat \<Rightarrow> file_system \<Rightarrow> path \<Rightarrow> path \<Rightarrow> path option" where
  "resolve k fs d [] = Some d"
| "resolve k fs d (c # cs) =
     (if c = root then resolve k fs [root] cs
      else if c = ''.'' then resolve k fs d cs
      else if c = ''..'' then resolve k fs (if length d \<le> 1 then d else butlast d) cs
      else case node_at fs (d @ [c]) of
          None \<Rightarrow> None
        | Some Directory \<Rightarrow> resolve k fs (d @ [c]) cs
        | Some (Regular b) \<Rightarrow> if cs = [] then Some (d @ [c]) else None
        | Some (Link target) \<Rightarrow>
            (case k of 0 \<Rightarrow> None | Suc k \<Rightarrow> resolve k fs d (target @ cs)))"
  by pat_completeness auto
termination by (relation "measures [\<lambda>(k, fs, d, cs). k, \<lambda>(k, fs, d, cs). length cs]") auto

declare resolve.simps(2) [simp del]

definition link_limit :: nat where "link_limit = 40"

definition locate :: "file_system \<Rightarrow> path \<Rightarrow> path option" where
  "locate fs p = resolve link_limit fs [root] (absolute fs p)"

text \<open>The system refuses the empty path, which is the parent of a bare file name.\<close>

definition follow :: "file_system \<Rightarrow> path \<Rightarrow> path option" where
  "follow fs p = (if p = [] then None else locate fs p)"

text \<open>\<open>fs::canonicalize\<close>, \<open>fs::metadata\<close>, \<open>fs::symlink_metadata\<close> and \<open>Path::is_file\<close>.\<close>

definition canonicalize :: "file_system \<Rightarrow> path \<Rightarrow> path option" where
  "canonicalize fs p = (if fs_refuses fs Canonicalizing p then None else follow fs p)"

definition metadata :: "file_system \<Rightarrow> path \<Rightarrow> node option" where
  "metadata fs p =
     (if fs_refuses fs Inspecting p then None else Option.bind (follow fs p) (node_at fs))"

definition symlink_metadata :: "file_system \<Rightarrow> path \<Rightarrow> node option" where
  "symlink_metadata fs p =
     (if fs_refuses fs Inspecting p then None
      else case file_name p of
          None \<Rightarrow> Option.bind (follow fs p) (node_at fs)
        | Some n \<Rightarrow> Option.bind (locate fs (butlast p)) (\<lambda>d.
            if node_at fs d = Some Directory then node_at fs (d @ [n]) else None))"

fun is_regular :: "node option \<Rightarrow> bool" where
  "is_regular (Some (Regular b)) = True"
| "is_regular other = False"

lemma is_regular_iff: "is_regular n \<longleftrightarrow> (\<exists>b. n = Some (Regular b))"
  by (cases n rule: is_regular.cases) auto

definition is_file :: "file_system \<Rightarrow> path \<Rightarrow> bool" where
  "is_file fs p = is_regular (metadata fs p)"

text \<open>Opening a file and reading it to its end.\<close>

definition read_file :: "file_system \<Rightarrow> path \<Rightarrow> bytes option" where
  "read_file fs p =
     (if fs_refuses fs Opening p then None
      else case Option.bind (follow fs p) (node_at fs) of Some (Regular b) \<Rightarrow> Some b | _ \<Rightarrow> None)"

fun file_length :: "node \<Rightarrow> nat" where
  "file_length (Regular b) = length b"
| "file_length other = 0"

text \<open>\<open>fs::read_dir\<close>: the entries in the order the system keeps them.\<close>

definition read_dir :: "file_system \<Rightarrow> path \<Rightarrow> path list option" where
  "read_dir fs p =
     (if fs_refuses fs Listing p then None
      else case follow fs p of
          None \<Rightarrow> None
        | Some d \<Rightarrow>
            if node_at fs d = Some Directory
            then Some (map (\<lambda>q. p @ [last q]) (filter (\<lambda>q. parent q = Some d) (map fst (fs_nodes fs))))
            else None)"

definition put_node :: "path \<Rightarrow> node \<Rightarrow> file_system \<Rightarrow> file_system" where
  "put_node p n fs = fs \<lparr> fs_nodes := (p, n) # filter (\<lambda>(q, m). q \<noteq> p) (fs_nodes fs) \<rparr>"

text \<open>\<open>remove_dir_all\<close> takes the directory with all that lies below it.\<close>

definition drop_tree :: "path \<Rightarrow> file_system \<Rightarrow> file_system" where
  "drop_tree p fs = fs \<lparr> fs_nodes := filter (\<lambda>(q, m). \<not> path_within p q) (fs_nodes fs) \<rparr>"

text \<open>\<open>rename\<close> of a directory moves all that lies below it.\<close>

definition move_tree :: "path \<Rightarrow> path \<Rightarrow> file_system \<Rightarrow> file_system" where
  "move_tree p p' fs =
     fs \<lparr> fs_nodes := map (\<lambda>(q, m). (if path_within p q then p' @ drop (length p) q else q, m)) (fs_nodes fs) \<rparr>"

section \<open>Canonical paths\<close>

text \<open>
  A canonical path starts at the root, has no links and no dots on its way, and
  leads to a file or a directory.
\<close>

definition directories_above :: "file_system \<Rightarrow> path \<Rightarrow> bool" where
  "directories_above fs p =
     (p \<noteq> [] \<and> hd p = root \<and> list_all normal_component (tl p) \<and>
      (\<forall>n < length p. 0 < n \<longrightarrow> node_at fs (take n p) = Some Directory))"

definition canonical :: "file_system \<Rightarrow> path \<Rightarrow> bool" where
  "canonical fs p =
     (directories_above fs p \<and> (node_at fs p = Some Directory \<or> is_regular (node_at fs p)))"

lemma directories_above_snoc:
  "directories_above fs (d @ [c]) \<longleftrightarrow>
     (d = [] \<and> c = root) \<or>
     (d \<noteq> [] \<and> directories_above fs d \<and> node_at fs d = Some Directory \<and> normal_component c)"
proof (cases "d = []")
  case False
  have "(\<forall>n < Suc (length d). 0 < n \<longrightarrow> node_at fs (take n (d @ [c])) = Some Directory) \<longleftrightarrow>
      (\<forall>n < length d. 0 < n \<longrightarrow> node_at fs (take n d) = Some Directory) \<and> node_at fs d = Some Directory"
    using False by (auto simp: less_Suc_eq)
  with False show ?thesis by (auto simp: directories_above_def)
qed (auto simp: directories_above_def)

lemma root_directory: "directories_above fs [root]" "node_at fs [root] = Some Directory"
  by (auto simp: directories_above_def node_at_def)

lemma directories_above_butlast:
  "directories_above fs d \<Longrightarrow> 1 < length d \<Longrightarrow> directories_above fs (butlast d)"
  "directories_above fs d \<Longrightarrow> 1 < length d \<Longrightarrow> node_at fs (butlast d) = Some Directory"
  using directories_above_snoc [of fs "butlast d" "last d"]
  by (cases d rule: rev_cases; fastforce)+

lemma resolve_canonical:
  assumes "resolve k fs d cs = Some p" "directories_above fs d" "node_at fs d = Some Directory"
    and "\<forall>c \<in> set cs. c \<noteq> []" "\<forall>q t. node_at fs q = Some (Link t) \<longrightarrow> (\<forall>c \<in> set t. c \<noteq> [])"
  shows "canonical fs p"
  using assms
proof (induction k fs d cs rule: resolve.induct)
  case (1 k fs d)
  then show ?case by (simp add: canonical_def)
next
  case (2 k fs d c cs)
  note IH = "2.IH" and prems = "2.prems"
  have d: "d \<noteq> []" using prems(2) by (auto simp: directories_above_def)
  consider "c = root" | "c = ''.''" | "c = ''..''" | "c \<notin> {root, ''.'', ''..''}" by blast
  then show ?case
  proof cases
    case 1
    with prems IH(1) root_directory show ?thesis by (auto simp: resolve.simps(2))
  next
    case 2
    with prems IH(2) show ?thesis by (auto simp: resolve.simps(2) root_def)
  next
    case 3
    let ?d = "if length d \<le> 1 then d else butlast d"
    have "directories_above fs ?d" "node_at fs ?d = Some Directory"
      using prems(2,3) directories_above_butlast [of fs d] by auto
    with 3 prems IH(3) show ?thesis by (auto simp: resolve.simps(2) root_def)
  next
    case 4
    with prems(4) have normal: "normal_component c" by (auto simp: normal_component_def)
    with prems(2,3) d have above: "directories_above fs (d @ [c])" by (simp add: directories_above_snoc)
    from 4 prems(1) obtain n where n: "node_at fs (d @ [c]) = Some n"
      by (auto simp: resolve.simps(2) split: option.splits)
    show ?thesis
    proof (cases n)
      case (Regular b)
      with 4 prems(1) n above show ?thesis
        by (auto simp: resolve.simps(2) canonical_def split: if_splits)
    next
      case Directory
      with 4 prems n above IH(4) show ?thesis by (auto simp: resolve.simps(2))
    next
      case (Link t)
      with 4 prems(1) n obtain k' where k': "k = Suc k'" "resolve k' fs d (t @ cs) = Some p"
        by (auto simp: resolve.simps(2) split: nat.splits)
      have "\<forall>c \<in> set (t @ cs). c \<noteq> []" using prems(4,5) n Link by auto
      with 4 Link n k' prems IH(5) [of n t k'] show ?thesis by auto
    qed
  qed
qed

lemma resolve_normal:
  assumes "directories_above fs (d @ cs)" "d \<noteq> []"
    "node_at fs (d @ cs) = Some Directory \<or> is_regular (node_at fs (d @ cs))"
  shows "resolve k fs d cs = Some (d @ cs)"
  using assms
proof (induction cs arbitrary: d)
  case (Cons c cs)
  have normal: "normal_component c"
    using Cons.prems(1,2) by (cases d) (auto simp: directories_above_def)
  then have c: "c \<noteq> root" "c \<noteq> ''.''" "c \<noteq> ''..''" by (auto simp: normal_component_def)
  have rest: "resolve k fs (d @ [c]) cs = Some ((d @ [c]) @ cs)"
    using Cons.prems by (intro Cons.IH) auto
  show ?case
  proof (cases "cs = []")
    case True
    with Cons.prems(3) c show ?thesis
      by (auto simp: resolve.simps(2) is_regular_iff)
  next
    case False
    then have "length (d @ [c]) < length (d @ c # cs)" by simp
    then have "node_at fs (take (length (d @ [c])) (d @ c # cs)) = Some Directory"
      using Cons.prems(1) unfolding directories_above_def by (meson length_greater_0_conv snoc_eq_iff_butlast)
    then have "node_at fs (d @ [c]) = Some Directory" by simp
    with rest c show ?thesis by (simp add: resolve.simps(2))
  qed
qed simp

text \<open>Links name their targets by components, none of them empty.\<close>

definition proper_links :: "file_system \<Rightarrow> bool" where
  "proper_links fs =
     (list_all (\<lambda>(q, n). case n of Link t \<Rightarrow> list_all (\<lambda>c. c \<noteq> []) t | _ \<Rightarrow> True) (fs_nodes fs) \<and>
      list_all (\<lambda>c. c \<noteq> []) (fs_directory fs))"

lemma proper_linksD: "proper_links fs \<Longrightarrow> node_at fs q = Some (Link t) \<Longrightarrow> c \<in> set t \<Longrightarrow> c \<noteq> []"
  by (fastforce simp: proper_links_def node_at_def list_all_iff split: if_splits dest!: map_of_SomeD)

lemma path_of_components: "c \<in> set (path_of s) \<Longrightarrow> c \<noteq> []"
  by (auto simp: path_of_def root_def Let_def split: if_splits)

lemma follow_canonical:
  assumes "follow fs p = Some q" "proper_links fs" "\<forall>c \<in> set p. c \<noteq> []"
  shows "canonical fs q"
proof (rule resolve_canonical)
  show "resolve link_limit fs [root] (absolute fs p) = Some q"
    using assms(1) by (simp add: follow_def locate_def split: if_splits)
  show "\<forall>c \<in> set (absolute fs p). c \<noteq> []"
    using assms(2,3) by (auto simp: absolute_def proper_links_def list_all_iff)
qed (use root_directory proper_linksD [OF assms(2)] in auto)

lemma canonical_follow:
  assumes "canonical fs p"
  shows "follow fs p = Some p"
proof -
  obtain cs where p: "p = root # cs"
    using assms by (cases p) (auto simp: canonical_def directories_above_def)
  have "resolve link_limit fs [root] cs = Some ([root] @ cs)"
    using assms by (intro resolve_normal) (simp_all add: p canonical_def)
  then show ?thesis by (simp add: follow_def locate_def absolute_def p resolve.simps(2))
qed

lemma canonical_locate: "canonical fs p \<Longrightarrow> locate fs p = Some p"
  using canonical_follow [of fs p] by (simp add: follow_def split: if_splits)

lemma canonical_node: "canonical fs p \<Longrightarrow> node_at fs p \<noteq> Some (Link t)"
  by (auto simp: canonical_def)

lemma canonical_parent:
  assumes "canonical fs p" "parent p = Some d"
  shows "canonical fs d" "node_at fs d = Some Directory" "d \<noteq> []" "normal_component (last p)" "p = d @ [last p]"
proof -
  from assms have p: "p = d @ [last p]" "p \<noteq> []" "last p \<noteq> root"
    by (auto simp: parent_def split: if_splits)
  have "directories_above fs (d @ [last p])" using assms(1) p(1) by (simp add: canonical_def)
  then show "canonical fs d" "node_at fs d = Some Directory" "d \<noteq> []" "normal_component (last p)"
    using p(3) by (auto simp: directories_above_snoc canonical_def)
  show "p = d @ [last p]" by (rule p(1))
qed

end
