(* ===== verification/Image_Spans.thy ===== *)
theory Image_Spans
  imports File_System Decimal "HOL-Library.Multiset" "HOL-Library.Char_ord" "HOL-Library.List_Lexorder"
    "HOL-Library.Product_Lexorder"
begin

text \<open>
  The files of a split image: how the image library names them and finds them
  beside the first one (\<open>discover_spans\<close> and the functions below it in
  \<open>crates/service/src/image_library.rs\<close>).  Ghost numbers its spans in one of
  three schemes; the discovery accepts only a set numbered from one without a
  gap.  The messages of the errors are left out, their reasons are constructors.
\<close>

section \<open>Names\<close>

definition windows_name_key :: "(string \<Rightarrow> string) \<Rightarrow> string \<Rightarrow> string" where
  "windows_name_key upper name = uppercase upper (utf8_lossy name)"

definition names_equal_for_windows :: "(string \<Rightarrow> string) \<Rightarrow> string \<Rightarrow> string \<Rightarrow> bool" where
  "names_equal_for_windows upper left right = (uppercase upper left = uppercase upper right)"

definition strip_name_prefix_for_windows ::
  "(string \<Rightarrow> string) \<Rightarrow> string \<Rightarrow> string \<Rightarrow> string option" where
  "strip_name_prefix_for_windows upper value prefix =
     (let candidate_prefix = take_chars (char_count prefix) value in
      if names_equal_for_windows upper candidate_prefix prefix
      then Some (drop (length candidate_prefix) value) else None)"

section \<open>Candidates\<close>

datatype ghost_span_scheme = Ghs_Three_Digit | Ghs_Five_Digit | Cns_Numeric_Extension

datatype span_fault =
    No_Unicode_Stem | Unsupported_Width nat | Invalid_Sequence | Mixed_Schemes
  | Shared_Prefix | Case_Conflict | Duplicate_Sequence u32 | Wrong_Sequence u32 u32
  | No_Basename | Name_Collision | Unsafe_Basename | Unexpected_Extension | Too_Large | Changed_Span_List

record ghost_span_candidate =
  gsc_path :: path
  gsc_sequence :: u32
  gsc_scheme :: ghost_span_scheme

definition parse_span_sequence :: "string \<Rightarrow> (span_fault, u32) outcome" where
  "parse_span_sequence digits = ok_or (u32_from_str digits) Invalid_Sequence"

definition ghs_scheme :: "string \<Rightarrow> (span_fault, ghost_span_scheme) outcome" where
  "ghs_scheme digits =
     (if length digits = 3 then Ok Ghs_Three_Digit
      else if length digits = 5 then Ok Ghs_Five_Digit
      else Err (Unsupported_Width (length digits)))"

text \<open>One file of the directory: a numbered span, a file of no concern, or a fault.\<close>

definition classify_name ::
  "(string \<Rightarrow> string) \<Rightarrow> string \<Rightarrow> string option \<Rightarrow> string option \<Rightarrow>
   (span_fault, (u32 \<times> ghost_span_scheme) option) outcome" where
  "classify_name upper primary_stem stem ext =
     (case (ext, stem) of
        (Some ext, Some stem) \<Rightarrow>
          if eq_ignore_case ext ''ghs'' then
            (case strip_name_prefix_for_windows upper stem (take_chars 5 primary_stem) of
               None \<Rightarrow> Ok None
             | Some digits \<Rightarrow>
                 if digits = [] \<or> \<not> list_all is_digit digits then Ok None
                 else and_then (ghs_scheme digits) (\<lambda>scheme.
                      map_ok (\<lambda>n. Some (n, scheme)) (parse_span_sequence digits)))
          else if length ext = 3 \<and> list_all is_digit ext \<and> names_equal_for_windows upper stem primary_stem
          then map_ok (\<lambda>n. Some (n, Cns_Numeric_Extension)) (parse_span_sequence ext)
          else Ok None
      | _ \<Rightarrow> Ok None)"

definition classify_file ::
  "(string \<Rightarrow> string) \<Rightarrow> string \<Rightarrow> path \<Rightarrow> path \<Rightarrow> (span_fault, (u32 \<times> ghost_span_scheme) option) outcome" where
  "classify_file upper primary_stem primary f =
     (if f = primary then Ok None
      else classify_name upper primary_stem (to_str (file_stem f)) (to_str (extension f)))"

fun ghost_candidates ::
  "(string \<Rightarrow> string) \<Rightarrow> string \<Rightarrow> path \<Rightarrow> path list \<Rightarrow> (span_fault, ghost_span_candidate list) outcome" where
  "ghost_candidates upper primary_stem primary [] = Ok []"
| "ghost_candidates upper primary_stem primary (f # fs) =
     and_then (classify_file upper primary_stem primary f) (\<lambda>found.
     map_ok (\<lambda>rest. case found of
           None \<Rightarrow> rest
         | Some (n, scheme) \<Rightarrow> \<lparr> gsc_path = f, gsc_sequence = n, gsc_scheme = scheme \<rparr> # rest)
       (ghost_candidates upper primary_stem primary fs))"

section \<open>Ambiguous sets\<close>

definition other_primary :: "path \<Rightarrow> (string \<Rightarrow> bool) \<Rightarrow> path \<Rightarrow> bool" where
  "other_primary primary clashes f =
     (f \<noteq> primary \<and>
      (case to_str (extension f) of None \<Rightarrow> False | Some ext \<Rightarrow> eq_ignore_case ext ''gho'') \<and>
      (case to_str (file_stem f) of None \<Rightarrow> False | Some stem \<Rightarrow> clashes stem))"

definition reject_ambiguous_ghost_prefix ::
  "(string \<Rightarrow> string) \<Rightarrow> path \<Rightarrow> path list \<Rightarrow> string \<Rightarrow> (span_fault, unit) outcome" where
  "reject_ambiguous_ghost_prefix upper primary files ghost_prefix =
     ensure (\<not> list_ex (other_primary primary
         (\<lambda>stem. names_equal_for_windows upper (take_chars 5 stem) ghost_prefix)) files) Shared_Prefix"

definition reject_case_conflicting_cns_primary ::
  "(string \<Rightarrow> string) \<Rightarrow> path \<Rightarrow> path list \<Rightarrow> string \<Rightarrow> (span_fault, unit) outcome" where
  "reject_case_conflicting_cns_primary upper primary files primary_stem =
     ensure (\<not> list_ex (other_primary primary
         (\<lambda>stem. names_equal_for_windows upper stem primary_stem)) files) Case_Conflict"

section \<open>Order and numbering\<close>

definition name_or_path :: "path \<Rightarrow> string" where
  "name_or_path p = (case file_name p of Some n \<Rightarrow> n | None \<Rightarrow> path_text p)"

definition span_order ::
  "(string \<Rightarrow> string) \<Rightarrow> ghost_span_candidate \<Rightarrow> u32 \<times> string \<times> path" where
  "span_order upper c =
     (gsc_sequence c, windows_name_key upper (name_or_path (gsc_path c)), gsc_path c)"

text \<open>The candidate at \<open>index\<close> must carry the number \<open>index + 1\<close>; \<open>previous\<close> is the one before.\<close>

fun check_numbering :: "nat \<Rightarrow> u32 option \<Rightarrow> ghost_span_candidate list \<Rightarrow> (span_fault, unit) outcome" where
  "check_numbering index previous [] = Ok ()"
| "check_numbering index previous (c # cs) =
     (if index + 1 \<ge> 2 ^ 32 then Panic
      else let expected = word_of_nat (index + 1) in
        if gsc_sequence c \<noteq> expected then
          (if previous = Some (gsc_sequence c) then Err (Duplicate_Sequence (gsc_sequence c))
           else Err (Wrong_Sequence (gsc_sequence c) expected))
        else check_numbering (index + 1) (Some (gsc_sequence c)) cs)"

definition discover_ghost_spans ::
  "(string \<Rightarrow> string) \<Rightarrow> path \<Rightarrow> path list \<Rightarrow> (span_fault, path list) outcome" where
  "discover_ghost_spans upper primary files =
     and_then (ok_or (to_str (file_stem primary)) No_Unicode_Stem) (\<lambda>primary_stem.
     and_then (ghost_candidates upper primary_stem primary files) (\<lambda>candidates.
       case candidates of
         [] \<Rightarrow> Ok []
       | c # _ \<Rightarrow>
           if list_ex (\<lambda>d. gsc_scheme d \<noteq> gsc_scheme c) candidates then Err Mixed_Schemes
           else
             and_then (if gsc_scheme c = Cns_Numeric_Extension
                 then reject_case_conflicting_cns_primary upper primary files primary_stem
                 else reject_ambiguous_ghost_prefix upper primary files (take_chars 5 primary_stem)) (\<lambda>_.
             let sorted_candidates = sort_key (span_order upper) candidates in
             map_ok (\<lambda>_. map gsc_path sorted_candidates) (check_numbering 0 None sorted_candidates))))"

text \<open>Spans of a Windows image: every file of the type whose stem extends the first one's.\<close>

definition swm_span :: "(string \<Rightarrow> string) \<Rightarrow> string \<Rightarrow> path \<Rightarrow> path \<Rightarrow> bool" where
  "swm_span lower primary_stem primary f =
     (f \<noteq> primary \<and>
      (case to_str (extension f) of None \<Rightarrow> False | Some ext \<Rightarrow> eq_ignore_case ext ''swm'') \<and>
      (case to_str (file_stem f) of None \<Rightarrow> False | Some stem \<Rightarrow> starts_with primary_stem (lower stem)))"

definition discover_swm_spans :: "(string \<Rightarrow> string) \<Rightarrow> path \<Rightarrow> path list \<Rightarrow> path list" where
  "discover_swm_spans lower primary files =
     (let primary_stem = lower (case to_str (file_stem primary) of Some s \<Rightarrow> s | None \<Rightarrow> []) in
      filter (swm_span lower primary_stem primary) files)"

section \<open>Files of a directory\<close>

fun regular_files :: "file_system \<Rightarrow> path list \<Rightarrow> path list option" where
  "regular_files fs [] = Some []"
| "regular_files fs (p # ps) =
     (case metadata fs p of
        None \<Rightarrow> None
      | Some n \<Rightarrow> map_option (\<lambda>rest. if is_regular (Some n) then p # rest else rest) (regular_files fs ps))"

definition read_directory_files :: "(string \<Rightarrow> string) \<Rightarrow> file_system \<Rightarrow> path \<Rightarrow> path list option" where
  "read_directory_files upper fs d =
     map_option (sort_key (\<lambda>p. (windows_name_key upper (name_or_path p), p)))
       (Option.bind (read_dir fs d) (regular_files fs))"

section \<open>What the discovery finds\<close>

lemma unat_of_nat_small: "n < 2 ^ 32 \<Longrightarrow> unat (word_of_nat n :: u32) = n"
  by (simp add: unsigned_of_nat take_bit_nat_eq_self)

definition candidate_of ::
  "(string \<Rightarrow> string) \<Rightarrow> string \<Rightarrow> path \<Rightarrow> path \<Rightarrow> ghost_span_candidate option" where
  "candidate_of upper primary_stem primary f =
     (case classify_file upper primary_stem primary f of
        Ok (Some (n, scheme)) \<Rightarrow> Some \<lparr> gsc_path = f, gsc_sequence = n, gsc_scheme = scheme \<rparr>
      | _ \<Rightarrow> None)"

lemma ghost_candidates_Ok_iff:
  "ghost_candidates upper stem primary fs = Ok cs \<longleftrightarrow>
     cs = List.map_filter (candidate_of upper stem primary) fs \<and>
     list_all (\<lambda>f. is_ok (classify_file upper stem primary f)) fs"
  by (induction fs arbitrary: cs)
    (auto simp: List.map_filter_simps candidate_of_def outcome_simps is_ok_iff split: option.splits)

lemma candidate_of_Some:
  "candidate_of upper stem primary f = Some c \<longleftrightarrow>
     classify_file upper stem primary f = Ok (Some (gsc_sequence c, gsc_scheme c)) \<and> gsc_path c = f"
  by (cases c) (auto simp: candidate_of_def split: outcome.splits option.splits)

lemma map_filter_paths:
  assumes "\<And>f c. g f = Some c \<Longrightarrow> gsc_path c = f"
  shows "map gsc_path (List.map_filter g fs) = filter (\<lambda>f. g f \<noteq> None) fs"
  using assms by (induction fs) (auto simp: List.map_filter_simps split: option.splits)

lemma in_map_filter: "c \<in> set (List.map_filter g fs) \<longleftrightarrow> (\<exists>f \<in> set fs. g f = Some c)"
  by (force simp: List.map_filter_def)

lemma check_numbering_Ok:
  "check_numbering i previous cs = Ok () \<Longrightarrow>
     (\<forall>k < length cs. gsc_sequence (cs ! k) = word_of_nat (i + k + 1) \<and> i + k + 1 < 2 ^ 32)"
proof (induction i previous cs rule: check_numbering.induct)
  case (2 i previous c cs)
  then have head: "gsc_sequence c = word_of_nat (i + 1)" "i + 1 < 2 ^ 32"
    and tail: "check_numbering (i + 1) (Some (gsc_sequence c)) cs = Ok ()"
    by (auto simp: Let_def split: if_splits)
  have IH: "\<forall>k < length cs. gsc_sequence (cs ! k) = word_of_nat (i + 1 + k + 1) \<and> i + 1 + k + 1 < 2 ^ 32"
    using "2.IH" tail head by auto
  show ?case
  proof (intro allI impI)
    fix k assume "k < length (c # cs)"
    with IH head show "gsc_sequence ((c # cs) ! k) = word_of_nat (i + k + 1) \<and> i + k + 1 < 2 ^ 32"
      by (cases k) simp_all
  qed
qed simp

lemma check_numbering_complete:
  "(\<forall>k < length cs. gsc_sequence (cs ! k) = word_of_nat (i + k + 1) \<and> i + k + 1 < 2 ^ 32) \<Longrightarrow>
     check_numbering i previous cs = Ok ()"
proof (induction cs arbitrary: i previous)
  case (Cons c cs)
  have head: "gsc_sequence c = word_of_nat (i + 1)" "i + 1 < 2 ^ 32" using Cons.prems [rule_format, of 0] by simp_all
  have "\<forall>k < length cs. gsc_sequence (cs ! k) = word_of_nat (i + 1 + k + 1) \<and> i + 1 + k + 1 < 2 ^ 32"
    using Cons.prems [rule_format, of "Suc k" for k] by simp
  with head show ?case using Cons.IH [of "i + 1"] by (simp add: Let_def)
qed simp

text \<open>The spans of a set in one scheme, numbered from one.\<close>

definition numbered_spans ::
  "(string \<Rightarrow> string) \<Rightarrow> string \<Rightarrow> path \<Rightarrow> ghost_span_scheme \<Rightarrow> path list \<Rightarrow> bool" where
  "numbered_spans upper stem primary scheme spans =
     (length spans < 2 ^ 32 \<and>
      (\<forall>i < length spans.
         classify_file upper stem primary (spans ! i) = Ok (Some (word_of_nat (i + 1), scheme))))"

definition unnumbered :: "(string \<Rightarrow> string) \<Rightarrow> string \<Rightarrow> path \<Rightarrow> path \<Rightarrow> bool" where
  "unnumbered upper stem primary f = (classify_file upper stem primary f = Ok None)"

definition clashing :: "(string \<Rightarrow> string) \<Rightarrow> string \<Rightarrow> path \<Rightarrow> ghost_span_scheme \<Rightarrow> path \<Rightarrow> bool" where
  "clashing upper stem primary scheme f =
     (if scheme = Cns_Numeric_Extension
      then other_primary primary (\<lambda>s. names_equal_for_windows upper s stem) f
      else other_primary primary (\<lambda>s. names_equal_for_windows upper (take_chars 5 s) (take_chars 5 stem)) f)"

lemma clashing_schemes:
  "clashing upper stem primary scheme =
     (if scheme = Cns_Numeric_Extension
      then other_primary primary (\<lambda>s. names_equal_for_windows upper s stem)
      else other_primary primary (\<lambda>s. names_equal_for_windows upper (take_chars 5 s) (take_chars 5 stem)))"
  by (rule ext) (simp add: clashing_def)

lemma numbered_distinct:
  assumes "numbered_spans upper stem primary scheme spans"
  shows "distinct spans"
proof (rule distinct_conv_nth [THEN iffD2], intro allI impI notI)
  fix i j
  assume ij: "i < length spans" "j < length spans" "i \<noteq> j" "spans ! i = spans ! j"
  have bounds: "i < 2 ^ 32" "j < 2 ^ 32" using assms ij by (auto simp: numbered_spans_def)
  have "classify_file upper stem primary (spans ! i) = Ok (Some (word_of_nat (i + 1), scheme))"
    "classify_file upper stem primary (spans ! j) = Ok (Some (word_of_nat (j + 1), scheme))"
    using assms ij(1,2) unfolding numbered_spans_def by blast+
  with ij(4) have "unat (word_of_nat i :: u32) = unat (word_of_nat j :: u32)" by simp
  with bounds have "i = j" by (simp add: unat_of_nat_small)
  with ij(3) show False by simp
qed

text \<open>
  The discovery answers exactly the numbered set: every file it returns carries
  its position as its number, no numbered file of the directory is left out, and
  nothing else of the directory competes for the name.
\<close>

lemma discovery_sound:
  assumes "discover_ghost_spans upper primary files = Ok spans"
  shows "\<exists>stem scheme. to_str (file_stem primary) = Some stem \<and>
    numbered_spans upper stem primary scheme spans \<and> set spans \<subseteq> set files \<and>
    (\<forall>f \<in> set files. f \<in> set spans \<or> unnumbered upper stem primary f) \<and>
    (spans \<noteq> [] \<longrightarrow> \<not> list_ex (clashing upper stem primary scheme) files)"
proof -
  from assms obtain stem cs where stem: "to_str (file_stem primary) = Some stem"
    and cs: "ghost_candidates upper stem primary files = Ok cs"
    by (auto simp: discover_ghost_spans_def outcome_simps)
  have cs': "cs = List.map_filter (candidate_of upper stem primary) files"
    and all_ok: "list_all (\<lambda>f. is_ok (classify_file upper stem primary f)) files"
    using cs by (simp_all add: ghost_candidates_Ok_iff)
  have member: "c \<in> set cs \<longleftrightarrow> gsc_path c \<in> set files \<and>
      classify_file upper stem primary (gsc_path c) = Ok (Some (gsc_sequence c, gsc_scheme c))" for c
    unfolding cs' in_map_filter candidate_of_Some by auto
  have left: "unnumbered upper stem primary f" if "f \<in> set files" "f \<notin> gsc_path ` set cs" for f
  proof -
    from all_ok that(1) obtain v where v: "classify_file upper stem primary f = Ok v"
      by (auto simp: list_all_iff is_ok_iff)
    have "v = None"
    proof (rule ccontr)
      assume "v \<noteq> None"
      then obtain n k where "v = Some (n, k)" by auto
      with v that(1) have "\<lparr> gsc_path = f, gsc_sequence = n, gsc_scheme = k \<rparr> \<in> set cs" by (simp add: member)
      with that(2) show False by force
    qed
    with v show ?thesis by (simp add: unnumbered_def)
  qed
  show ?thesis
  proof (cases cs)
    case Nil
    with assms stem cs have "spans = []" by (simp add: discover_ghost_spans_def)
    with left Nil stem show ?thesis by (auto simp: numbered_spans_def)
  next
    case (Cons c rest)
    let ?sorted = "sort_key (span_order upper) cs"
    have same: "\<And>d. d \<in> set cs \<Longrightarrow> gsc_scheme d = gsc_scheme c"
      and clash: "\<not> list_ex (clashing upper stem primary (gsc_scheme c)) files"
      and order: "check_numbering 0 None ?sorted = Ok ()" "spans = map gsc_path ?sorted"
      using assms stem cs Cons
      by (auto simp: discover_ghost_spans_def outcome_simps Let_def list_ex_iff clashing_def
          reject_case_conflicting_cns_primary_def reject_ambiguous_ghost_prefix_def split: if_splits)
    note numbers = check_numbering_Ok [OF order(1)]
    have "numbered_spans upper stem primary (gsc_scheme c) spans"
      unfolding numbered_spans_def
    proof (intro conjI allI impI)
      show "length spans < 2 ^ 32"
        using numbers [rule_format, of "length ?sorted - 1"] Cons order(2) by simp
      fix i assume "i < length spans"
      then have i: "i < length ?sorted" by (simp add: order(2))
      then have "?sorted ! i \<in> set cs" by (metis nth_mem set_sort)
      with i numbers same show "classify_file upper stem primary (spans ! i) =
          Ok (Some (word_of_nat (i + 1), gsc_scheme c))"
        by (auto simp: order(2) member)
    qed
    moreover have "set spans = gsc_path ` set cs" by (simp add: order(2))
    moreover from this have "set spans \<subseteq> set files" using member by auto
    ultimately show ?thesis using stem clash left by blast
  qed
qed

lemma discovery_complete:
  assumes stem: "to_str (file_stem primary) = Some stem"
    and numbered: "numbered_spans upper stem primary scheme spans" and files: "distinct files" "set spans \<subseteq> set files"
    and others: "\<forall>f \<in> set files. f \<in> set spans \<or> unnumbered upper stem primary f"
    and clear: "spans \<noteq> [] \<longrightarrow> \<not> list_ex (clashing upper stem primary scheme) files"
  shows "discover_ghost_spans upper primary files = Ok spans"
proof -
  define cand where
    "cand i = \<lparr> gsc_path = spans ! i, gsc_sequence = word_of_nat (i + 1), gsc_scheme = scheme \<rparr>" for i
  define ideal where "ideal = map cand [0..<length spans]"
  let ?g = "candidate_of upper stem primary"
  let ?cs = "List.map_filter ?g files"
  have bound: "length spans < 2 ^ 32" using numbered by (simp add: numbered_spans_def)
  have g: "?g (spans ! i) = Some (cand i)" if "i < length spans" for i
    using numbered that by (simp add: numbered_spans_def candidate_of_Some cand_def)
  have g_spans: "?g f \<noteq> None \<longleftrightarrow> f \<in> set spans" if "f \<in> set files" for f
  proof
    assume "?g f \<noteq> None"
    then have "\<not> unnumbered upper stem primary f" by (auto simp: unnumbered_def candidate_of_def)
    with others that show "f \<in> set spans" by blast
  next
    assume "f \<in> set spans"
    then obtain i where "i < length spans" "f = spans ! i" by (auto simp: in_set_conv_nth)
    with g show "?g f \<noteq> None" by simp
  qed
  have set_cs: "set ?cs = set ideal"
  proof (intro set_eqI iffI)
    fix c assume "c \<in> set ?cs"
    then obtain f where f: "f \<in> set files" "?g f = Some c" by (auto simp: in_map_filter)
    then have "f \<in> set spans" using g_spans by auto
    then obtain i where "i < length spans" "f = spans ! i" by (auto simp: in_set_conv_nth)
    with f g show "c \<in> set ideal" by (auto simp: ideal_def)
  next
    fix c assume "c \<in> set ideal"
    then obtain i where "i < length spans" "c = cand i" by (auto simp: ideal_def)
    with g files(2) show "c \<in> set ?cs" by (auto simp: in_map_filter intro!: bexI [of _ "spans ! i"])
  qed
  have paths: "map gsc_path ?cs = filter (\<lambda>f. ?g f \<noteq> None) files"
    by (rule map_filter_paths) (simp add: candidate_of_Some)
  have "distinct (map gsc_path ?cs)" by (simp add: paths files(1))
  then have "distinct ?cs" by (simp only: distinct_map)
  moreover have ideal_paths: "map gsc_path ideal = spans" by (simp add: ideal_def cand_def map_nth comp_def)
  have "distinct (map gsc_path ideal)" using numbered_distinct [OF numbered] by (simp only: ideal_paths)
  then have "distinct ideal" by (simp only: distinct_map)
  ultimately have mset: "mset ?cs = mset ideal" using set_cs by (simp add: set_eq_iff_mset_eq_distinct)
  have seq: "gsc_sequence (cand i) < gsc_sequence (cand j)" if "i < j" "j < length spans" for i j
    using that bound unat_of_nat_small [of "i + 1"] unat_of_nat_small [of "j + 1"]
    unfolding cand_def ghost_span_candidate.simps word_less_nat_alt by linarith
  have inj: "inj_on (span_order upper) (set ?cs)"
  proof (rule inj_onI, unfold set_cs)
    fix c d assume "c \<in> set ideal" "d \<in> set ideal" "span_order upper c = span_order upper d"
    then obtain i j where "c = cand i" "d = cand j" "i < length spans" "j < length spans"
      "gsc_sequence (cand i) = gsc_sequence (cand j)" by (auto simp: ideal_def span_order_def)
    then show "c = d" using seq [of i j] seq [of j i] by (cases i j rule: linorder_cases) auto
  qed
  have "sorted_wrt (\<lambda>c d. span_order upper c \<le> span_order upper d) ideal"
    using seq by (auto simp: ideal_def sorted_wrt_iff_nth_less span_order_def less_eq_prod_def)
  then have "sorted (map (span_order upper) ideal)" by (simp add: sorted_map)
  then have sort: "sort_key (span_order upper) ?cs = ideal"
    by (rule sort_key_inj_key_eq [OF mset inj])
  have ok: "ghost_candidates upper stem primary files = Ok ?cs"
    using others numbered unfolding ghost_candidates_Ok_iff
    by (auto simp: list_all_iff unnumbered_def numbered_spans_def in_set_conv_nth)
  show ?thesis
  proof (cases ?cs)
    case Nil
    then have "spans = []" using ideal_paths mset by simp
    with Nil ok stem show ?thesis by (simp add: discover_ghost_spans_def)
  next
    case (Cons c rest)
    have scheme: "d \<in> set ?cs \<Longrightarrow> gsc_scheme d = scheme" for d
      unfolding set_cs by (auto simp: ideal_def cand_def)
    have "\<forall>d \<in> set (c # rest). d \<in> set ?cs" by (simp add: Cons)
    then have one: "\<not> list_ex (\<lambda>d. gsc_scheme d \<noteq> gsc_scheme c) (c # rest)" "gsc_scheme c = scheme"
      using scheme by (auto simp: list_ex_iff)
    have "check_numbering 0 None ideal = Ok ()"
      using bound by (intro check_numbering_complete) (simp add: ideal_def cand_def)
    moreover have "spans \<noteq> []" using ideal_paths mset Cons by auto
    then have "(if scheme = Cns_Numeric_Extension
        then reject_case_conflicting_cns_primary upper primary files stem
        else reject_ambiguous_ghost_prefix upper primary files (take_chars 5 stem)) = Ok ()"
      using clear by (simp add: clashing_schemes reject_case_conflicting_cns_primary_def
          reject_ambiguous_ghost_prefix_def ensure_def split: if_splits)
    ultimately show ?thesis
      unfolding discover_ghost_spans_def stem ok ok_or.simps and_then.simps
      by (simp only: Cons list.case one(1) [unfolded one(2)] one(2) if_False and_then.simps Let_def map_ok.simps
          sort [unfolded Cons] ideal_paths)
  qed
qed

text \<open>
  The discovery of a Ghost image's spans is exact: it answers a list of
  files precisely when they are the numbered files of the directory, all in one
  scheme, the i-th carrying the number i, and no other image of the directory
  could own them.  Gaps, duplicates and mixed schemes are refused.
\<close>

theorem spans_found_exactly:
  assumes "distinct files" "to_str (file_stem primary) = Some stem"
  shows "discover_ghost_spans upper primary files = Ok spans \<longleftrightarrow>
    (\<exists>scheme. numbered_spans upper stem primary scheme spans \<and> set spans \<subseteq> set files \<and>
      (\<forall>f \<in> set files. f \<in> set spans \<or> unnumbered upper stem primary f) \<and>
      (spans \<noteq> [] \<longrightarrow> \<not> list_ex (clashing upper stem primary scheme) files))"
  using discovery_sound [of upper primary files spans] discovery_complete [OF assms(2) _ assms(1)] assms(2)
  by (metis option.inject)

section \<open>A sample set\<close>

definition sample_dir :: path where "sample_dir = [root, ''i'']"

definition sample_primary :: path where "sample_primary = sample_dir @ [''win.gho'']"

definition sample_span_path :: path where "sample_span_path = sample_dir @ [''WIN001.GHS'']"

lemma sample_names:
  "file_stem sample_primary = Some ''win''" "extension sample_primary = Some ''gho''"
  "file_stem sample_span_path = Some ''WIN001''" "extension sample_span_path = Some ''GHS''"
  by (simp_all add: sample_primary_def sample_span_path_def sample_dir_def file_stem_def extension_def
      file_name_def normal_component_def root_def rsplit_dot_def)

lemma sample_upper: "uppercase (\<lambda>s. s) ''WIN'' = uppercase (\<lambda>s. s) ''win''"
  by (simp add: uppercase_ascii is_ascii_def byte_def to_upper_def is_lower_def) code_simp

lemma sample_types: "eq_ignore_case ''GHS'' ''ghs''" "\<not> eq_ignore_case ''GHS'' ''gho''"
  by (simp add: eq_ignore_case_def to_lower_def is_upper_def byte_def; code_simp)+

lemma sample_prefix: "strip_name_prefix_for_windows (\<lambda>s. s) ''WIN001'' ''win'' = Some ''001''"
  by (simp add: strip_name_prefix_for_windows_def names_equal_for_windows_def sample_upper char_count_def
      continues_def byte_def numeral_eq_Suc)

lemma sample_digits: "list_all is_digit ''001''" "parse_span_sequence ''001'' = Ok 1"
  by (simp_all add: parse_span_sequence_def u32_from_str_def u32_of_digits_def decimal_value_def digit_def
      byte_def is_digit_def)

theorem spans_found_exactly_witness:
  "discover_ghost_spans (\<lambda>s. s) sample_primary [sample_primary, sample_span_path] = Ok [sample_span_path] \<and>
   discover_ghost_spans (\<lambda>s. s) sample_primary [sample_primary] = Ok []"
proof -
  have stem: "to_str (file_stem sample_primary) = Some ''win''"
    by (simp add: sample_names to_str_def from_utf8_ascii is_ascii_def byte_def)
  have "classify_name (\<lambda>s. s) ''win'' (Some ''WIN001'') (Some ''GHS'') = Ok (Some (1, Ghs_Three_Digit))"
    using sample_digits by (simp add: classify_name_def sample_types sample_prefix ghs_scheme_def)
  moreover have differ: "sample_span_path \<noteq> sample_primary"
    by (simp add: sample_primary_def sample_span_path_def)
  ultimately have span: "classify_file (\<lambda>s. s) ''win'' sample_primary sample_span_path = Ok (Some (1, Ghs_Three_Digit))"
    by (simp add: classify_file_def sample_names to_str_def from_utf8_ascii is_ascii_def byte_def)
  have first: "unnumbered (\<lambda>s. s) ''win'' sample_primary sample_primary"
    by (simp add: unnumbered_def classify_file_def)
  have no_clash: "\<not> list_ex (clashing (\<lambda>s. s) ''win'' sample_primary Ghs_Three_Digit) [sample_primary, sample_span_path]"
    by (simp add: clashing_def other_primary_def sample_names to_str_def from_utf8_ascii is_ascii_def byte_def
        sample_types)
  show ?thesis
    using stem span first no_clash differ
      spans_found_exactly [of "[sample_primary, sample_span_path]" sample_primary "''win''" "\<lambda>s. s" "[sample_span_path]"]
      spans_found_exactly [of "[sample_primary]" sample_primary "''win''" "\<lambda>s. s" "[]"]
    by (auto simp: numbered_spans_def intro!: exI [of _ Ghs_Three_Digit])
qed

end
