(* ===== verification/Linux_Iso.thy ===== *)
theory Linux_Iso
  imports Unicode_Text Byte_Codec
begin

text \<open>
  The inspection of an Ubuntu Server image and the extraction of its two boot
  files (\<open>crates/service/src/linux_iso.rs\<close>).  The crate that reads ISO 9660 is
  a parameter: the mounted volume, the entries of a directory, each read or
  unreadable, and what the n-th read of a file delivers into a buffer.  An
  output is the file the extraction creates, with what its operations answer.
\<close>

definition iso_sector_bytes :: u64 where "iso_sector_bytes = 2048"
definition max_iso_bytes :: u64 where "max_iso_bytes = 32 * 1024 * 1024 * 1024"
definition max_directory_entries :: nat where "max_directory_entries = 4096"
definition max_info_bytes :: u64 where "max_info_bytes = 8 * 1024"
definition min_kernel_bytes :: u64 where "min_kernel_bytes = 1024 * 1024"
definition max_kernel_bytes :: u64 where "max_kernel_bytes = 256 * 1024 * 1024"
definition min_initrd_bytes :: u64 where "min_initrd_bytes = 1024 * 1024"
definition max_initrd_bytes :: u64 where "max_initrd_bytes = 2 * 1024 * 1024 * 1024"

definition managed_kernel_name :: string where "managed_kernel_name = ''installer-vmlinuz''"
definition managed_initrd_name :: string where "managed_initrd_name = ''installer-initrd''"

record inspected_asset =
  ina_basename :: string
  ina_size_bytes :: u64
  ina_sha256 :: string

record inspected_ubuntu_iso =
  inu_release :: string
  inu_kernel :: inspected_asset
  inu_initrd :: inspected_asset

datatype linux_iso_error =
    Iso_Io | Iso_Size_Unsupported | Mount_Failed | Extent_Overflow | Extent_Outside | Too_Many_Entries
  | Directory_Unreadable | Unsafe_Entry | Conflicting_Entries | Missing_Entry string | Not_A_Directory
  | Unsupported_Type_Or_Size | Read_Limit_Exceeded | File_Unreadable | Longer_Than_Declared
  | Shorter_Than_Declared | Info_Not_Utf8 | Unsupported_Media | Size_Overflow | Not_A_Kernel

record iso_entry =
  ise_name :: string
  ise_directory :: bool
  ise_extent_lba :: u32
  ise_data_length :: u32
  ise_size :: u64

record iso_volume =
  isv_root_extent_lba :: u32
  isv_root_extent_len :: u32

record iso9660 =
  iso_mount :: "bytes \<Rightarrow> iso_volume option"
  iso_entries :: "bytes \<Rightarrow> u32 \<Rightarrow> u32 \<Rightarrow> iso_entry option list"
  iso_chunk :: "bytes \<Rightarrow> iso_entry \<Rightarrow> nat \<Rightarrow> nat \<Rightarrow> bytes option"

record asset_output =
  ao_opens :: bool
  ao_writes :: "nat \<Rightarrow> bool"
  ao_syncs :: bool

section \<open>The description of the medium\<close>

text \<open>\<open>str::trim_matches\<close> with a set of characters.\<close>

definition trim_chars :: "char set \<Rightarrow> string \<Rightarrow> string" where
  "trim_chars cs s = rev (dropWhile (\<lambda>c. c \<in> cs) (rev (dropWhile (\<lambda>c. c \<in> cs) s)))"

definition release_prefix :: string where "release_prefix = ''Ubuntu-Server 24.04''"

definition validate_ubuntu_server_info :: "string \<Rightarrow> (linux_iso_error, unit) outcome" where
  "validate_ubuntu_server_info info =
     (let info = trim info;
          correct_release = starts_with release_prefix info \<and>
            (length release_prefix < length info \<longrightarrow>
               info ! length release_prefix = CHR ''.'' \<or> is_ascii_space (info ! length release_prefix));
          amd64 = list_ex (\<lambda>field. trim_chars (set ''(),;'') field = ''amd64'') (ascii_words info) in
      ensure (correct_release \<and> amd64 \<and> contains_text '' LTS'' info) Unsupported_Media)"

section \<open>Directories and extents\<close>

definition validate_extent :: "u32 \<Rightarrow> u64 \<Rightarrow> u64 \<Rightarrow> (linux_iso_error, unit) outcome" where
  "validate_extent extent_lba len media_len =
     and_then (ok_or (checked_mul (ucast extent_lba) iso_sector_bytes) Extent_Overflow) (\<lambda>start.
     and_then (ok_or (map_option (\<lambda>v. v div iso_sector_bytes * iso_sector_bytes)
         (checked_add len (iso_sector_bytes - 1))) Extent_Overflow) (\<lambda>padded_length.
     ensure (len \<noteq> 0 \<and>
       (case checked_add start padded_length of None \<Rightarrow> False | Some end' \<Rightarrow> end' \<le> media_len)) Extent_Outside))"

definition unsafe_name :: "string \<Rightarrow> bool" where
  "unsafe_name name = list_ex (\<lambda>c. c = CHR ''/'' \<or> c = CHR 0x5C \<or> byte c = 0) name"

definition expected_entry :: "string \<Rightarrow> iso_entry \<Rightarrow> bool" where
  "expected_entry expected_name entry =
     (eq_ignore_case (ise_name entry) expected_name \<or>
      expected_name = ''.disk'' \<and> eq_ignore_case (ise_name entry) ''_disk'')"

fun find_loop ::
  "string \<Rightarrow> nat \<Rightarrow> iso_entry option \<Rightarrow> iso_entry option list \<Rightarrow> (linux_iso_error, iso_entry) outcome" where
  "find_loop expected_name index found [] = ok_or found (Missing_Entry expected_name)"
| "find_loop expected_name index found (e # es) =
     (if index \<ge> max_directory_entries then Err Too_Many_Entries
      else case e of
          None \<Rightarrow> Err Directory_Unreadable
        | Some entry \<Rightarrow>
            if unsafe_name (ise_name entry) then Err Unsafe_Entry
            else if expected_entry expected_name entry
            then (if found \<noteq> None then Err Conflicting_Entries
                  else find_loop expected_name (index + 1) (Some entry) es)
            else find_loop expected_name (index + 1) found es)"

definition find_child ::
  "iso9660 \<Rightarrow> bytes \<Rightarrow> u32 \<Rightarrow> u32 \<Rightarrow> string \<Rightarrow> u64 \<Rightarrow> (linux_iso_error, iso_entry) outcome" where
  "find_child fmt media directory_lba directory_len expected_name media_len =
     and_then (validate_extent directory_lba (ucast directory_len) media_len) (\<lambda>_.
     find_loop expected_name 0 None (iso_entries fmt media directory_lba directory_len))"

definition require_directory :: "iso_entry \<Rightarrow> (linux_iso_error, unit) outcome" where
  "require_directory entry = ensure (ise_directory entry) Not_A_Directory"

definition require_regular_file ::
  "iso_entry \<Rightarrow> u64 \<Rightarrow> u64 \<Rightarrow> u64 \<Rightarrow> (linux_iso_error, unit) outcome" where
  "require_regular_file entry minimum maximum media_len =
     and_then (ensure (\<not> ise_directory entry \<and> minimum \<le> ise_size entry \<and> ise_size entry \<le> maximum)
       Unsupported_Type_Or_Size) (\<lambda>_.
     validate_extent (ise_extent_lba entry) (ise_size entry) media_len)"

section \<open>Reading\<close>

function read_loop :: "(nat \<Rightarrow> bytes option) \<Rightarrow> nat \<Rightarrow> nat \<Rightarrow> bytes \<Rightarrow> (linux_iso_error, bytes) outcome" where
  "read_loop reads capacity n contents =
     (case reads n of
        None \<Rightarrow> Err File_Unreadable
      | Some chunk \<Rightarrow>
          if chunk = [] then Ok contents
          else if length (contents @ chunk) > capacity then Err Longer_Than_Declared
          else read_loop reads capacity (n + 1) (contents @ chunk))"
  by pat_completeness auto
termination
  by (relation "measure (\<lambda>(reads, capacity, n, contents). capacity - length contents)")
    (auto simp: neq_Nil_conv)

declare read_loop.simps [simp del]

definition read_bounded_file ::
  "iso9660 \<Rightarrow> bytes \<Rightarrow> iso_entry \<Rightarrow> u64 \<Rightarrow> (linux_iso_error, bytes) outcome" where
  "read_bounded_file fmt media entry maximum =
     and_then (ensure (ise_size entry \<le> maximum) Read_Limit_Exceeded) (\<lambda>_.
     let capacity = unat (ise_size entry) in
     and_then (read_loop (iso_chunk fmt media entry (8 * 1024)) capacity 0 []) (\<lambda>contents.
     and_then (ensure (length contents = capacity) Shorter_Than_Declared) (\<lambda>_. Ok contents)))"

text \<open>
  The copy of a boot file: the bytes copied so far, which the digest has taken,
  and the first \<open>0x208\<close> of them, kept for the check of the kernel's header.
\<close>

definition grow_prefix :: "bytes \<Rightarrow> bytes \<Rightarrow> bytes" where
  "grow_prefix prefix chunk =
     (if length prefix < 0x208 then prefix @ take (min (0x208 - length prefix) (length chunk)) chunk
      else prefix)"

function copy_loop ::
  "asset_output option \<Rightarrow> (nat \<Rightarrow> bytes option) \<Rightarrow> nat \<Rightarrow> nat \<Rightarrow> bytes \<Rightarrow> bytes \<Rightarrow>
   (linux_iso_error, bytes \<times> bytes) outcome" where
  "copy_loop out reads declared n copied prefix =
     (case reads n of
        None \<Rightarrow> Err File_Unreadable
      | Some chunk \<Rightarrow>
          if chunk = [] then Ok (copied, prefix)
          else if length copied + length chunk \<ge> 2 ^ 64 then Err Size_Overflow
          else if length copied + length chunk > declared then Err Longer_Than_Declared
          else if (case out of None \<Rightarrow> False | Some f \<Rightarrow> \<not> ao_writes f n) then Err Iso_Io
          else copy_loop out reads declared (n + 1) (copied @ chunk) (grow_prefix prefix chunk))"
  by pat_completeness auto
termination
  by (relation "measure (\<lambda>(out, reads, declared, n, copied, prefix). declared - length copied)")
    (auto simp: neq_Nil_conv)

declare copy_loop.simps [simp del]

definition copy_file_and_hash ::
  "iso9660 \<Rightarrow> (bytes \<Rightarrow> string) \<Rightarrow> bytes \<Rightarrow> iso_entry \<Rightarrow> asset_output option \<Rightarrow>
   (linux_iso_error, u64 \<times> string \<times> bytes \<times> bytes) outcome" where
  "copy_file_and_hash fmt digest media entry out =
     and_then (ensure (case out of None \<Rightarrow> True | Some f \<Rightarrow> ao_opens f) Iso_Io) (\<lambda>_.
     and_then (copy_loop out (iso_chunk fmt media entry (128 * 1024)) (unat (ise_size entry)) 0 [] []) (\<lambda>(copied, prefix).
     and_then (ensure (length copied = unat (ise_size entry)) Shorter_Than_Declared) (\<lambda>_.
     and_then (ensure (case out of None \<Rightarrow> True | Some f \<Rightarrow> ao_syncs f) Iso_Io) (\<lambda>_.
     Ok (word_of_nat (length copied), digest copied, prefix, copied)))))"

definition get_range :: "nat \<Rightarrow> nat \<Rightarrow> bytes \<Rightarrow> bytes option" where
  "get_range a b xs = (if a \<le> b \<and> b \<le> length xs then Some (take (b - a) (drop a xs)) else None)"

definition validate_linux_kernel_header :: "bytes \<Rightarrow> (linux_iso_error, unit) outcome" where
  "validate_linux_kernel_header prefix =
     (let boot_signature = get_range 0x1fe 0x200 prefix = Some [0x55, 0xaa];
          header_signature = get_range 0x202 0x206 prefix = Some [72, 100, 114, 83];
          protocol_version = map_option from_le (get_range 0x206 0x208 prefix) :: u16 option in
      ensure (boot_signature \<and> header_signature \<and>
        (case protocol_version of None \<Rightarrow> False | Some v \<Rightarrow> 0x020b \<le> v)) Not_A_Kernel)"

section \<open>The inspection\<close>

definition asset_of :: "string \<Rightarrow> u64 \<times> string \<times> bytes \<times> bytes \<Rightarrow> inspected_asset" where
  "asset_of name = (\<lambda>(size, sha, prefix, copied).
     \<lparr> ina_basename = name, ina_size_bytes = size, ina_sha256 = sha \<rparr>)"

text \<open>The mounted volume, its directories and the two entries the extraction copies.\<close>

definition boot_entries ::
  "iso9660 \<Rightarrow> bytes \<Rightarrow> u64 \<Rightarrow> (linux_iso_error, iso_entry \<times> iso_entry) outcome" where
  "boot_entries fmt media media_len =
     and_then (ok_or (iso_mount fmt media) Mount_Failed) (\<lambda>volume.
     let lba = isv_root_extent_lba volume; len = isv_root_extent_len volume in
     and_then (validate_extent lba (ucast len) media_len) (\<lambda>_.
     and_then (find_child fmt media lba len ''.disk'' media_len) (\<lambda>disk_dir.
     and_then (require_directory disk_dir) (\<lambda>_.
     and_then (find_child fmt media (ise_extent_lba disk_dir) (ise_data_length disk_dir) ''info'' media_len) (\<lambda>info.
     and_then (require_regular_file info 1 max_info_bytes media_len) (\<lambda>_.
     and_then (read_bounded_file fmt media info max_info_bytes) (\<lambda>info_bytes.
     and_then (ok_or (from_utf8 (map (\<lambda>b. char_of (unat b)) info_bytes)) Info_Not_Utf8) (\<lambda>info_text.
     and_then (validate_ubuntu_server_info info_text) (\<lambda>_.
     and_then (find_child fmt media lba len ''casper'' media_len) (\<lambda>casper_dir.
     and_then (require_directory casper_dir) (\<lambda>_.
     and_then (find_child fmt media (ise_extent_lba casper_dir) (ise_data_length casper_dir) ''vmlinuz'' media_len) (\<lambda>kernel.
     and_then (require_regular_file kernel min_kernel_bytes max_kernel_bytes media_len) (\<lambda>_.
     and_then (find_child fmt media (ise_extent_lba casper_dir) (ise_data_length casper_dir) ''initrd'' media_len) (\<lambda>initrd.
     and_then (require_regular_file initrd min_initrd_bytes max_initrd_bytes media_len) (\<lambda>_.
     Ok (kernel, initrd))))))))))))))))"

definition inspect_iso ::
  "iso9660 \<Rightarrow> (bytes \<Rightarrow> string) \<Rightarrow> bytes option \<Rightarrow> (asset_output \<times> asset_output) option \<Rightarrow>
   (linux_iso_error, inspected_ubuntu_iso \<times> bytes \<times> bytes) outcome" where
  "inspect_iso fmt digest file staged =
     and_then (ok_or file Iso_Io) (\<lambda>media.
     and_then (ensure (17 * 2048 \<le> length media \<and> length media \<le> unat max_iso_bytes) Iso_Size_Unsupported) (\<lambda>_.
     and_then (boot_entries fmt media (word_of_nat (length media))) (\<lambda>(kernel, initrd).
     and_then (copy_file_and_hash fmt digest media kernel (map_option fst staged)) (\<lambda>k.
     and_then (validate_linux_kernel_header (fst (snd (snd k)))) (\<lambda>_.
     and_then (copy_file_and_hash fmt digest media initrd (map_option snd staged)) (\<lambda>i.
     Ok (\<lparr> inu_release = ''24.04'', inu_kernel = asset_of managed_kernel_name k,
           inu_initrd = asset_of managed_initrd_name i \<rparr>,
         snd (snd (snd k)), snd (snd (snd i)))))))))"

definition inspect_and_extract ::
  "iso9660 \<Rightarrow> (bytes \<Rightarrow> string) \<Rightarrow> bytes option \<Rightarrow> asset_output \<times> asset_output \<Rightarrow>
   (linux_iso_error, inspected_ubuntu_iso \<times> bytes \<times> bytes) outcome" where
  "inspect_and_extract fmt digest file staged = inspect_iso fmt digest file (Some staged)"

definition inspect_managed ::
  "iso9660 \<Rightarrow> (bytes \<Rightarrow> string) \<Rightarrow> bytes option \<Rightarrow> (linux_iso_error, inspected_ubuntu_iso) outcome" where
  "inspect_managed fmt digest file = map_ok fst (inspect_iso fmt digest file None)"

section \<open>What the inspection establishes\<close>

lemma read_loop_within:
  "read_loop reads capacity n contents = Ok bs \<Longrightarrow> length contents \<le> capacity \<Longrightarrow> length bs \<le> capacity"
proof (induction reads capacity n contents rule: read_loop.induct)
  case (1 reads capacity n contents)
  from "1.prems"(1) show ?case
    using "1.IH" "1.prems"(2)
    by (subst (asm) read_loop.simps) (auto split: option.splits if_splits)
qed

lemma grow_prefix_take: "grow_prefix (take 0x208 copied) chunk = take 0x208 (copied @ chunk)"
  by (auto simp: grow_prefix_def min_def)

lemma copy_loop_Ok:
  "copy_loop out reads declared n copied prefix = Ok (c, p) \<Longrightarrow> prefix = take 0x208 copied \<Longrightarrow>
     p = take 0x208 c \<and> copy_loop None reads declared n copied prefix = Ok (c, p)"
proof (induction out reads declared n copied prefix rule: copy_loop.induct)
  case (1 out reads declared n copied prefix)
  show ?case
  proof (cases "reads n")
    case None
    with "1.prems"(1) show ?thesis by (simp add: copy_loop.simps)
  next
    case (Some chunk)
    show ?thesis
    proof (cases "chunk = []")
      case True
      with Some "1.prems" show ?thesis by (auto simp: copy_loop.simps)
    next
      case False
      with Some "1.prems"(1) have step: "length copied + length chunk < 2 ^ 64"
        "length copied + length chunk \<le> declared"
        "\<not> (case out of None \<Rightarrow> False | Some f \<Rightarrow> \<not> ao_writes f n)"
        "copy_loop out reads declared (n + 1) (copied @ chunk) (grow_prefix prefix chunk) = Ok (c, p)"
        by (auto simp: copy_loop.simps [of out] split: if_splits)
      have "grow_prefix prefix chunk = take 0x208 (copied @ chunk)"
        unfolding "1.prems"(2) by (rule grow_prefix_take)
      with "1.IH" Some False step have "p = take 0x208 c"
        "copy_loop None reads declared (n + 1) (copied @ chunk) (grow_prefix prefix chunk) = Ok (c, p)"
        by auto
      with Some False step(1,2) show ?thesis by (subst copy_loop.simps) auto
    qed
  qed
qed

lemma copy_file_and_hash_Ok:
  assumes "copy_file_and_hash fmt digest media entry out = Ok (sz, sha, prefix, copied)"
  shows "copy_file_and_hash fmt digest media entry None = Ok (sz, sha, prefix, copied)"
    "unat sz = length copied" "length copied = unat (ise_size entry)" "sha = digest copied"
    "prefix = take 0x208 copied"
proof -
  from assms have c: "copy_loop out (iso_chunk fmt media entry (128 * 1024)) (unat (ise_size entry)) 0 [] [] = Ok (copied, prefix)"
    and l: "length copied = unat (ise_size entry)" "sz = word_of_nat (length copied)" "sha = digest copied"
    by (auto simp: copy_file_and_hash_def outcome_simps)
  from copy_loop_Ok [OF c] have p: "prefix = take 0x208 copied"
    "copy_loop None (iso_chunk fmt media entry (128 * 1024)) (unat (ise_size entry)) 0 [] [] = Ok (copied, prefix)"
    by simp_all
  from l p(2) show "copy_file_and_hash fmt digest media entry None = Ok (sz, sha, prefix, copied)"
    by (simp add: copy_file_and_hash_def ensure_def)
  show "unat sz = length copied" unfolding l(1,2) by simp
  show "length copied = unat (ise_size entry)" "sha = digest copied" "prefix = take 0x208 copied"
    using l p by simp_all
qed

text \<open>A name is found only when exactly one entry carries it, in a directory read to its end.\<close>

lemma find_loop_Ok:
  "find_loop name i found es = Ok e \<Longrightarrow>
     list_all (\<lambda>x. \<exists>entry. x = Some entry \<and> \<not> unsafe_name (ise_name entry)) es \<and>
     (if es = [] then True else i + length es \<le> max_directory_entries) \<and>
     (case found of None \<Rightarrow> [] | Some f \<Rightarrow> [f]) @ filter (expected_entry name) (map the es) = [e]"
  by (induction name i found es rule: find_loop.induct)
    (auto simp: outcome_simps split: if_splits option.splits)

lemma boot_entries_Ok:
  assumes "boot_entries fmt media media_len = Ok (vmlinuz, initrd)"
  shows "\<not> ise_directory vmlinuz" "min_kernel_bytes \<le> ise_size vmlinuz" "ise_size vmlinuz \<le> max_kernel_bytes"
    "\<not> ise_directory initrd" "min_initrd_bytes \<le> ise_size initrd" "ise_size initrd \<le> max_initrd_bytes"
    "\<exists>lba len. find_child fmt media lba len ''vmlinuz'' media_len = Ok vmlinuz \<and>
       find_child fmt media lba len ''initrd'' media_len = Ok initrd"
  using assms unfolding boot_entries_def Let_def
  by (clarsimp simp: outcome_simps require_regular_file_def; blast)+

text \<open>
  C36.  The boot files extracted at import are those a later inspection of the
  same image finds: with or without outputs the answer is the same, each asset
  is described by the length and the digest of the bytes copied, the kernel
  starts with a Linux boot header, and both lie within their limits.
\<close>

theorem extraction_is_what_is_inspected:
  assumes "inspect_and_extract fmt digest file staged = Ok (info, vmlinuz, initrd)"
  shows "inspect_managed fmt digest file = Ok info \<and> inu_release info = ''24.04'' \<and>
    inu_kernel info = \<lparr> ina_basename = managed_kernel_name, ina_size_bytes = word_of_nat (length vmlinuz),
      ina_sha256 = digest vmlinuz \<rparr> \<and>
    inu_initrd info = \<lparr> ina_basename = managed_initrd_name, ina_size_bytes = word_of_nat (length initrd),
      ina_sha256 = digest initrd \<rparr> \<and>
    2 ^ 20 \<le> length vmlinuz \<and> length vmlinuz \<le> 2 ^ 28 \<and> 2 ^ 20 \<le> length initrd \<and> length initrd \<le> 2 ^ 31 \<and>
    validate_linux_kernel_header (take 0x208 vmlinuz) = Ok ()"
proof -
  let ?len = "\<lambda>m. word_of_nat (length m) :: u64"
  obtain media kernel_entry initrd_entry nk shak pk ni shai pi where
    source: "file = Some media" "17 * 2048 \<le> length media" "length media \<le> unat max_iso_bytes"
    and entries: "boot_entries fmt media (?len media) = Ok (kernel_entry, initrd_entry)"
    and k: "copy_file_and_hash fmt digest media kernel_entry (Some (fst staged)) = Ok (nk, shak, pk, vmlinuz)"
    and h: "validate_linux_kernel_header pk = Ok ()"
    and i: "copy_file_and_hash fmt digest media initrd_entry (Some (snd staged)) = Ok (ni, shai, pi, initrd)"
    and info: "info = \<lparr> inu_release = ''24.04'', inu_kernel = asset_of managed_kernel_name (nk, shak, pk, vmlinuz),
        inu_initrd = asset_of managed_initrd_name (ni, shai, pi, initrd) \<rparr>"
    using assms unfolding inspect_and_extract_def inspect_iso_def
    by (force simp: outcome_simps)
  note k' = copy_file_and_hash_Ok [OF k] and i' = copy_file_and_hash_Ok [OF i]
  note bounds = boot_entries_Ok(2,3,5,6) [OF entries, unfolded word_le_nat_alt, folded k'(3) i'(3)]
  have words: "nk = ?len vmlinuz" "ni = ?len initrd"
    unfolding k'(2) [symmetric] i'(2) [symmetric] by simp_all
  have "inspect_managed fmt digest file = Ok info"
    using source entries h k'(1) i'(1) info
    by (simp add: inspect_managed_def inspect_iso_def ensure_def)
  moreover have "2 ^ 20 \<le> length vmlinuz" "length vmlinuz \<le> 2 ^ 28" "2 ^ 20 \<le> length initrd" "length initrd \<le> 2 ^ 31"
    using bounds by (simp_all add: min_kernel_bytes_def max_kernel_bytes_def min_initrd_bytes_def max_initrd_bytes_def)
  ultimately show ?thesis
    using h k'(4,5) i'(4) words by (simp add: info asset_of_def)
qed

section \<open>A sample medium\<close>

definition sample_info :: string where "sample_info = ''Ubuntu-Server 24.04 LTS amd64''"

definition sample_kernel :: bytes where
  "sample_kernel = replicate 0x1fe 0 @ [0x55, 0xaa, 0, 0, 72, 100, 114, 83, 0x0b, 0x02] @ replicate (2 ^ 20) 0"

definition sample_initrd :: bytes where "sample_initrd = replicate (2 ^ 20) 0"

definition sample_entry :: "string \<Rightarrow> bool \<Rightarrow> u32 \<Rightarrow> nat \<Rightarrow> iso_entry" where
  "sample_entry name dir lba n = \<lparr> ise_name = name, ise_directory = dir, ise_extent_lba = lba,
     ise_data_length = word_of_nat n, ise_size = word_of_nat n \<rparr>"

definition sample_format :: iso9660 where
  "sample_format = \<lparr>
     iso_mount = (\<lambda>media. Some \<lparr> isv_root_extent_lba = 1, isv_root_extent_len = 2048 \<rparr>),
     iso_entries = (\<lambda>media lba len.
       if lba = 1 then [Some (sample_entry ''.disk'' True 2 2048), Some (sample_entry ''casper'' True 3 2048)]
       else if lba = 2 then [Some (sample_entry ''info'' False 4 (length sample_info))]
       else [Some (sample_entry ''vmlinuz'' False 5 (length sample_kernel)),
             Some (sample_entry ''initrd'' False 6 (length sample_initrd))]),
     iso_chunk = (\<lambda>media entry buffer n.
       if n > 0 then Some []
       else if ise_extent_lba entry = 4 then Some (map (\<lambda>c. word_of_nat (byte c)) sample_info)
       else if ise_extent_lba entry = 5 then Some sample_kernel
       else Some sample_initrd) \<rparr>"

definition sample_outputs :: "asset_output \<times> asset_output" where
  "sample_outputs = (let f = \<lparr> ao_opens = True, ao_writes = (\<lambda>n. True), ao_syncs = True \<rparr> in (f, f))"

definition sample_medium :: bytes where "sample_medium = replicate (2 ^ 22) 0"

lemma sample_lengths: "length sample_kernel = 1049096" "length sample_initrd = 1048576" "length sample_info = 29"
  by (simp_all add: sample_kernel_def sample_initrd_def sample_info_def)

lemma sample_extents:
  "validate_extent 1 2048 4194304 = Ok ()" "validate_extent 2 2048 4194304 = Ok ()"
  "validate_extent 3 2048 4194304 = Ok ()" "validate_extent 4 29 4194304 = Ok ()"
  "validate_extent 5 1049096 4194304 = Ok ()" "validate_extent 6 1048576 4194304 = Ok ()"
  by (simp_all add: validate_extent_def checked_mul_def checked_add_def iso_sector_bytes_def ensure_def
      word_div_def)

lemma sample_found:
  "find_loop ''.disk'' 0 None (iso_entries sample_format sample_medium 1 2048) = Ok (sample_entry ''.disk'' True 2 2048)"
  "find_loop ''casper'' 0 None (iso_entries sample_format sample_medium 1 2048) = Ok (sample_entry ''casper'' True 3 2048)"
  "find_loop ''info'' 0 None (iso_entries sample_format sample_medium 2 2048) = Ok (sample_entry ''info'' False 4 29)"
  "find_loop ''vmlinuz'' 0 None (iso_entries sample_format sample_medium 3 2048) =
     Ok (sample_entry ''vmlinuz'' False 5 1049096)"
  "find_loop ''initrd'' 0 None (iso_entries sample_format sample_medium 3 2048) =
     Ok (sample_entry ''initrd'' False 6 1048576)"
  unfolding sample_format_def iso9660.simps sample_lengths
  by (simp_all add: expected_entry_def max_directory_entries_def unsafe_name_def byte_def eq_ignore_case_def
      sample_entry_def to_lower_def is_upper_def)

lemma sample_info_accepted: "validate_ubuntu_server_info sample_info = Ok ()"
proof -
  have "trim sample_info = sample_info" by (simp add: sample_info_def trim_visible visible_def byte_def)
  then show ?thesis
    by (simp add: validate_ubuntu_server_info_def release_prefix_def sample_info_def starts_with_def
        is_ascii_space_def byte_def ascii_words_def trim_chars_def ensure_def)
qed

lemma sample_boot_entries:
  "boot_entries sample_format sample_medium 4194304 =
     Ok (sample_entry ''vmlinuz'' False 5 1049096, sample_entry ''initrd'' False 6 1048576)"
proof -
  have mount: "iso_mount sample_format sample_medium =
      Some \<lparr> isv_root_extent_lba = 1, isv_root_extent_len = 2048 \<rparr>"
    by (simp add: sample_format_def)
  have chunks: "read_loop (iso_chunk sample_format sample_medium (sample_entry ''info'' False 4 29) (8 * 1024)) 29 0 [] =
      Ok (map (\<lambda>c. word_of_nat (byte c)) sample_info)"
    by (subst read_loop.simps, subst read_loop.simps) (simp add: sample_format_def sample_entry_def sample_info_def)
  have decoded: "map (\<lambda>b :: u8. char_of (unat b)) (map (\<lambda>c. word_of_nat (byte c)) sample_info) = sample_info"
    by (simp add: comp_def byte_def unsigned_of_nat take_bit_eq_mod)
  have utf8: "from_utf8 sample_info = Some sample_info"
    by (simp add: from_utf8_ascii sample_info_def is_ascii_def byte_def)
  show ?thesis
    unfolding boot_entries_def mount find_child_def
    using chunks decoded utf8
    by (simp add: sample_found sample_extents sample_entry_def require_directory_def require_regular_file_def
        ensure_def read_bounded_file_def sample_lengths max_info_bytes_def min_kernel_bytes_def max_kernel_bytes_def
        min_initrd_bytes_def max_initrd_bytes_def sample_info_accepted)
qed

lemma sample_output:
  "fst sample_outputs = \<lparr> ao_opens = True, ao_writes = (\<lambda>n. True), ao_syncs = True \<rparr>"
  "snd sample_outputs = \<lparr> ao_opens = True, ao_writes = (\<lambda>n. True), ao_syncs = True \<rparr>"
  by (simp_all add: sample_outputs_def Let_def)

lemma sample_medium_length: "length sample_medium = 4194304"
  by (simp add: sample_medium_def)

lemma sample_copies:
  "copy_file_and_hash sample_format digest sample_medium (sample_entry ''vmlinuz'' False 5 1049096)
     (Some (fst sample_outputs)) = Ok (1049096, digest sample_kernel, take 0x208 sample_kernel, sample_kernel)"
  "copy_file_and_hash sample_format digest sample_medium (sample_entry ''initrd'' False 6 1048576)
     (Some (snd sample_outputs)) = Ok (1048576, digest sample_initrd, take 0x208 sample_initrd, sample_initrd)"
proof -
  have entry: "unat (ise_size (sample_entry name dir lba 1049096)) = 1049096"
    "unat (ise_size (sample_entry name dir lba 1048576)) = 1048576" for name dir lba
    by (simp_all add: sample_entry_def)
  have loop: "copy_loop (Some f) (iso_chunk sample_format sample_medium (sample_entry name False lba k) b) m 0 [] [] =
      Ok (bs, take 0x208 bs)"
    if "iso_chunk sample_format sample_medium (sample_entry name False lba k) b 0 = Some bs"
      "ao_writes f = (\<lambda>n. True)" "bs \<noteq> []" "length bs \<le> m" "length bs < 2 ^ 64" for f name lba k b m bs
  proof -
    have "iso_chunk sample_format sample_medium (sample_entry name False lba k) b 1 = Some []"
      by (simp add: sample_format_def)
    with that grow_prefix_take [of "[]" bs] show ?thesis
      by (subst copy_loop.simps, subst copy_loop.simps) simp
  qed
  have "sample_kernel \<noteq> []" "sample_initrd \<noteq> []" by (simp_all add: sample_kernel_def sample_initrd_def)
  moreover have "iso_chunk sample_format sample_medium (sample_entry name False 5 k) b 0 = Some sample_kernel"
    "iso_chunk sample_format sample_medium (sample_entry name False 6 k) b 0 = Some sample_initrd" for name k b
    by (simp_all add: sample_format_def sample_entry_def)
  ultimately show "copy_file_and_hash sample_format digest sample_medium (sample_entry ''vmlinuz'' False 5 1049096)
     (Some (fst sample_outputs)) = Ok (1049096, digest sample_kernel, take 0x208 sample_kernel, sample_kernel)"
    "copy_file_and_hash sample_format digest sample_medium (sample_entry ''initrd'' False 6 1048576)
     (Some (snd sample_outputs)) = Ok (1048576, digest sample_initrd, take 0x208 sample_initrd, sample_initrd)"
    by (simp_all add: copy_file_and_hash_def entry loop sample_output ensure_def sample_lengths)
qed

lemma sample_header: "validate_linux_kernel_header (take 0x208 sample_kernel) = Ok ()"
proof -
  have "take 0x208 sample_kernel = replicate 0x1fe 0 @ [0x55, 0xaa, 0, 0, 72, 100, 114, 83, 0x0b, 0x02]"
    by (simp add: sample_kernel_def)
  then show ?thesis
    by (simp add: validate_linux_kernel_header_def get_range_def ensure_def from_le_def)
qed

theorem extraction_is_what_is_inspected_witness:
  "\<exists>info. inspect_and_extract sample_format (\<lambda>b. []) (Some sample_medium) sample_outputs =
       Ok (info, sample_kernel, sample_initrd) \<and>
     inspect_managed sample_format (\<lambda>b. []) (Some sample_medium) = Ok info"
proof -
  obtain info where "inspect_and_extract sample_format (\<lambda>b. []) (Some sample_medium) sample_outputs =
       Ok (info, sample_kernel, sample_initrd)"
    by (simp add: inspect_and_extract_def inspect_iso_def sample_boot_entries sample_copies sample_header ensure_def
        max_iso_bytes_def sample_medium_length)
  with extraction_is_what_is_inspected show ?thesis by blast
qed

end
