(* ===== verification/Image_Library.thy ===== *)
theory Image_Library
  imports Image_Data Image_Spans Linux_Iso Gho_Image Installer_Rendering
begin

text \<open>
  The image library (\<open>crates/service/src/image_library.rs\<close>): images are copied
  into directories of their own below the object store, described by a manifest,
  and checked again before they are delivered.  A call takes the file system and
  gives it back changed.  Parameters: the digest, Unicode's case tables, the
  parser of identifiers, the readers of ISO 9660 and of zlib, the JSON of the
  manifest, and DISM, which
  accepts everything on a host other than Windows.  Errors keep their
  constructors without the messages.
\<close>

section \<open>Parameters, state and errors\<close>

record library_world =
  lw_digest :: "bytes \<Rightarrow> string"
  lw_upper :: "string \<Rightarrow> string"
  lw_lower :: "string \<Rightarrow> string"
  lw_parse_uuid :: "string \<Rightarrow> uuid option"
  lw_iso :: iso9660
  lw_inflate :: inflater
  lw_granted :: granting
  lw_dism :: "path \<Rightarrow> u32 option \<Rightarrow> bool"
  lw_manifest :: "image_artifact list codec"

datatype wim_fault =
    Header_Truncated | Missing_Signature | Header_Size_Outside u32 | Header_Beyond_File u32 | Image_Count_Outside u32

datatype image_library_error =
    Not_A_File | Unsupported_Format | Invalid_Span_Set span_fault | Invalid_Wim_Container wim_fault
  | Image_Not_Found uuid | Catalog_Only_Format uuid image_format | Image_Not_Verified uuid
  | Deployable_Image_Has_Spans uuid | Invalid_Installer_Iso linux_iso_error | Missing_Installer_Capability uuid
  | Installer_Asset_Size_Mismatch uuid u64 u64 | Installer_Asset_Hash_Mismatch uuid string string
  | Managed_File_Unavailable uuid path | Unmanaged_Image_Path uuid path | Missing_Checksum uuid
  | Managed_Size_Mismatch uuid u64 u64 | Managed_Hash_Mismatch uuid string string
  | Partitions_Changed uuid | Image_Index_Out_Of_Range uuid u32 u32 | Dism_Validation_Failed
  | Library_Read path | Library_Write path | Library_Copy path path | Invalid_Manifest

record image_library =
  lib_objects_dir :: path
  lib_images :: "image_artifact list"
  lib_file :: "image_artifact list stored"

definition wim_signature :: bytes where "wim_signature = [77, 83, 87, 73, 77, 0, 0, 0]"
definition wim_header_probe_size :: nat where "wim_header_probe_size = 48"
definition wim_min_header_size :: u32 where "wim_min_header_size = 208"
definition wim_max_header_size :: u32 where "wim_max_header_size = 4 * 1024"
definition wim_max_image_count :: u32 where "wim_max_image_count = 4 * 1024"
definition max_gho_expanded_bytes :: nat where "max_gho_expanded_bytes = 16 * 1024 * 1024 * 1024 * 1024"

text \<open>\<open>display().to_string()\<close>: the text of a path, with bytes outside UTF-8 replaced.\<close>

definition display :: "path \<Rightarrow> string" where "display p = utf8_lossy (path_text p)"

definition size_of :: "node \<Rightarrow> u64" where "size_of n = word_of_nat (file_length n)"

section \<open>Containers\<close>

definition validate_wim_header :: "file_system \<Rightarrow> path \<Rightarrow> (image_library_error, u32) outcome" where
  "validate_wim_header fs p =
     and_then (ok_or (read_file fs p) (Library_Read p)) (\<lambda>file.
     and_then (ensure (wim_header_probe_size \<le> length file) (Invalid_Wim_Container Header_Truncated)) (\<lambda>_.
     and_then (ensure (take 8 file = wim_signature) (Invalid_Wim_Container Missing_Signature)) (\<lambda>_.
     let header_size = from_le (take 4 (drop 8 file)) :: u32;
         image_count = from_le (take 4 (drop 44 file)) :: u32 in
     and_then (ensure (wim_min_header_size \<le> header_size \<and> header_size \<le> wim_max_header_size)
       (Invalid_Wim_Container (Header_Size_Outside header_size))) (\<lambda>_.
     and_then (ensure (unat header_size \<le> length file)
       (Invalid_Wim_Container (Header_Beyond_File header_size))) (\<lambda>_.
     and_then (ensure (1 \<le> image_count \<and> image_count \<le> wim_max_image_count)
       (Invalid_Wim_Container (Image_Count_Outside image_count))) (\<lambda>_.
     Ok image_count))))))"

definition validate_wim_with_dism ::
  "library_world \<Rightarrow> path \<Rightarrow> u32 option \<Rightarrow> (image_library_error, unit) outcome" where
  "validate_wim_with_dism w p requested_index = ensure (lw_dism w p requested_index) Dism_Validation_Failed"

definition detect_image_format :: "path \<Rightarrow> (image_library_error, image_format) outcome" where
  "detect_image_format p =
     (let ext = map to_lower (case to_str (extension p) of Some e \<Rightarrow> e | None \<Rightarrow> []) in
      if ext = ''gho'' then Ok Gho
      else if ext = ''wim'' then Ok Wim
      else if ext = ''esd'' then Ok Esd
      else if ext = ''swm'' then Ok Swm
      else if ext = ''iso'' then Ok Iso
      else Err Unsupported_Format)"

definition discover_spans ::
  "library_world \<Rightarrow> file_system \<Rightarrow> path \<Rightarrow> image_format \<Rightarrow> (image_library_error, path list) outcome" where
  "discover_spans w fs primary format =
     (if format \<notin> {Gho, Swm} then Ok []
      else
        let directory = (case parent primary of Some d \<Rightarrow> d | None \<Rightarrow> [''.'']) in
        and_then (ok_or (read_directory_files (lw_upper w) fs directory) (Library_Read directory)) (\<lambda>files.
          if format = Gho then map_err Invalid_Span_Set (discover_ghost_spans (lw_upper w) primary files)
          else Ok (discover_swm_spans (lw_lower w) primary files)))"

section \<open>Digests\<close>

fun read_files :: "file_system \<Rightarrow> path list \<Rightarrow> (image_library_error, bytes list) outcome" where
  "read_files fs [] = Ok []"
| "read_files fs (p # ps) =
     and_then (ok_or (read_file fs p) (Library_Read p)) (\<lambda>b. map_ok (\<lambda>bs. b # bs) (read_files fs ps))"

definition hash_files ::
  "library_world \<Rightarrow> file_system \<Rightarrow> path list \<Rightarrow> (image_library_error, string) outcome" where
  "hash_files w fs ps = map_ok (\<lambda>bs. lw_digest w (concat bs)) (read_files fs ps)"

text \<open>A Ghost set is sent as one stream; it is read in buffers of one mebibyte until a read gives nothing.\<close>

lemma span_read_advances:
  "span_read granted sr want = Ok (c, sr') \<Longrightarrow>
     sr' = sr \<lparr> sr_position := sr_position sr + length c \<rparr> \<and> (c \<noteq> [] \<longrightarrow> sr_position sr < sr_total sr)"
proof (induction granted sr want arbitrary: c rule: span_read.induct)
  case (1 granted sr want)
  show ?case
  proof (cases "want = 0 \<or> sr_position sr \<ge> sr_total sr")
    case True
    with "1.prems" show ?thesis by (subst (asm) span_read.simps) auto
  next
    case False
    with "1.prems" obtain chunk rest where chunk: "span_chunk granted sr want = Ok chunk"
      and rest: "span_read granted (sr \<lparr> sr_position := sr_position sr + length chunk \<rparr>)
        (want - length chunk) = Ok (rest, sr')" and c: "c = chunk @ rest"
      by (subst (asm) span_read.simps) (auto split: outcome.splits prod.splits)
    from "1.IH" [OF False chunk rest] c False show ?thesis by simp
  qed
qed

function read_stream :: "granting \<Rightarrow> span_reader \<Rightarrow> bytes \<Rightarrow> (io_error, bytes) outcome" where
  "read_stream granted sr taken =
     (case span_read granted sr (1024 * 1024) of
        Ok (chunk, sr') \<Rightarrow>
          if chunk = [] then Ok taken else read_stream granted sr' (taken @ chunk)
      | Err e \<Rightarrow> Err e
      | Panic \<Rightarrow> Panic)"
  by pat_completeness auto
termination
proof (relation "measure (\<lambda>(granted, sr, taken). sr_total sr - sr_position sr)")
  fix granted sr and taken chunk :: bytes and sr' r
  assume "span_read granted sr (1024 * 1024) = Ok r" "(chunk, sr') = r" "chunk \<noteq> []"
  with span_read_advances [of granted sr "1024 * 1024" chunk sr']
  show "((granted, sr', taken @ chunk), granted, sr, taken) \<in>
      measure (\<lambda>(granted, sr, taken). sr_total sr - sr_position sr)"
    by (cases chunk) auto
qed simp

declare read_stream.simps [simp del]

definition hash_gho_deployment_stream ::
  "library_world \<Rightarrow> file_system \<Rightarrow> path \<Rightarrow> path list \<Rightarrow> (image_library_error, u64 \<times> string) outcome" where
  "hash_gho_deployment_stream w fs primary spans =
     and_then (read_files fs (primary # spans)) (\<lambda>files.
     and_then (map_err (\<lambda>_. Unsupported_Format) (span_new files)) (\<lambda>sr.
     and_then (map_err (\<lambda>_. Library_Read primary) (read_stream (lw_granted w) sr [])) (\<lambda>stream.
     Ok (word_of_nat (sr_total sr), lw_digest w stream))))"

section \<open>Inspection of Ghost images\<close>

fun native_gho_error_code :: "gho_error \<Rightarrow> string" where
  "native_gho_error_code SpannedUnsupported = ''spanned_image_unsupported''"
| "native_gho_error_code SpanMismatch = ''span_set_mismatch''"
| "native_gho_error_code EncryptedUnsupported = ''encrypted_image_unsupported''"
| "native_gho_error_code (UnsupportedCompression b) = ''compression_unsupported''"
| "native_gho_error_code (PartitionCount n) = ''partition_scope_unsupported''"
| "native_gho_error_code ExpandedLimit = ''expanded_size_limit''"
| "native_gho_error_code Io = ''image_unavailable''"
| "native_gho_error_code other = ''invalid_or_corrupt_gho''"

definition blocked_gho :: "string \<Rightarrow> gho_image_capability" where
  "blocked_gho reason = \<lparr> gic_deployable = False, gic_compression = None, gic_expanded_size_bytes = None,
     gic_expanded_sha256 = None, gic_partition_count = None, gic_source_partition = None, gic_partitions = [],
     gic_parser_version = gho_parser_version, gic_blocked_reason = Some reason \<rparr>"

definition ntfs_mark :: bytes where "ntfs_mark = [78, 84, 70, 83, 32, 32, 32, 32]"

text \<open>The sink of the analysis keeps the first 512 bytes; the file system's name lies among them.\<close>

definition is_ntfs :: "bytes \<Rightarrow> bool" where
  "is_ntfs written = (get_range 3 11 (take 512 written) = Some ntfs_mark)"

fun analyse_partitions ::
  "library_world \<Rightarrow> gho_reader \<Rightarrow> nat list \<Rightarrow> (gho_error, gho_partition_capability list) outcome" where
  "analyse_partitions w rd [] = Ok []"
| "analyse_partitions w rd (n # ns) =
     and_then (decode_partition (lw_inflate w) rd n max_gho_expanded_bytes) (\<lambda>(info, expanded, written).
     map_ok (\<lambda>rest. if is_ntfs written
         then \<lparr> gpc_source_partition = word_of_nat n, gpc_file_system = ''ntfs'',
                gpc_expanded_size_bytes = word_of_nat expanded, gpc_expanded_sha256 = lw_digest w written \<rparr> # rest
         else rest)
       (analyse_partitions w rd ns))"

fun compression_text :: "compression \<Rightarrow> string" where
  "compression_text No_Compression = ''z0''"
| "compression_text Fast = ''z1''"
| "compression_text (High level) = ''z'' @ dec level"

definition deployable_gho :: "image_info \<Rightarrow> gho_partition_capability list \<Rightarrow> gho_image_capability" where
  "deployable_gho info partitions =
     (case partitions of
        [] \<Rightarrow> blocked_gho ''non_ntfs_partition''
      | selected # _ \<Rightarrow> \<lparr> gic_deployable = True, gic_compression = Some (compression_text (ii_compression info)),
          gic_expanded_size_bytes = Some (gpc_expanded_size_bytes selected),
          gic_expanded_sha256 = Some (gpc_expanded_sha256 selected),
          gic_partition_count = Some (word_of_nat (ii_partition_count info)),
          gic_source_partition = Some (gpc_source_partition selected), gic_partitions = partitions,
          gic_parser_version = gho_parser_version, gic_blocked_reason = None \<rparr>)"

definition analyse_gho ::
  "library_world \<Rightarrow> bytes list \<Rightarrow> (gho_error, gho_image_capability) outcome" where
  "analyse_gho w files =
     and_then (span_new files) (\<lambda>sr.
     let rd = span_source (lw_granted w) sr in
     and_then (inspect_image rd) (\<lambda>info.
     map_ok (deployable_gho info) (analyse_partitions w rd [1..<Suc (ii_partition_count info)])))"

definition inspect_native_gho ::
  "library_world \<Rightarrow> file_system \<Rightarrow> path \<Rightarrow> path list \<Rightarrow> (image_library_error, gho_image_capability) outcome" where
  "inspect_native_gho w fs primary spans =
     (case read_files fs (primary # spans) of
        Ok files \<Rightarrow>
          (case analyse_gho w files of
             Ok capability \<Rightarrow> Ok capability
           | Err e \<Rightarrow> Ok (blocked_gho (native_gho_error_code e))
           | Panic \<Rightarrow> Panic)
      | _ \<Rightarrow> Ok (blocked_gho ''image_unavailable''))"

section \<open>Managed files\<close>

definition artifact_file_paths :: "image_artifact \<Rightarrow> path list" where
  "artifact_file_paths a = path_of (img_source_path a) # map path_of (img_spans a)"

definition canonical_path_is_managed :: "file_system \<Rightarrow> path \<Rightarrow> path \<Rightarrow> bool" where
  "canonical_path_is_managed fs objects_dir p =
     (case canonicalize fs p of None \<Rightarrow> False | Some c \<Rightarrow> path_within objects_dir c)"

definition artifact_paths_are_managed :: "file_system \<Rightarrow> path \<Rightarrow> image_artifact \<Rightarrow> bool" where
  "artifact_paths_are_managed fs objects_dir a =
     (list_all (canonical_path_is_managed fs objects_dir) (artifact_file_paths a) \<and>
      (case img_installer_capability a of
         None \<Rightarrow> True
       | Some c \<Rightarrow> list_all (\<lambda>asset. canonical_path_is_managed fs objects_dir (path_of (asset_path asset)))
           [cap_kernel c, cap_initrd c]))"

text \<open>The object directory of an image: a directory of the store that is named by an identifier.\<close>

definition managed_object_directory ::
  "library_world \<Rightarrow> file_system \<Rightarrow> path \<Rightarrow> image_artifact \<Rightarrow> path option" where
  "managed_object_directory w fs objects_dir a =
     Option.bind (parent (path_of (img_source_path a))) (\<lambda>source_parent.
     if parent source_parent \<noteq> Some objects_dir then None
     else Option.bind (to_str (file_name source_parent)) (\<lambda>name.
     Option.bind (lw_parse_uuid w name) (\<lambda>_.
     Option.bind (symlink_metadata fs source_parent) (\<lambda>m.
     if m \<noteq> Directory then None
     else Option.bind (canonicalize fs source_parent) (\<lambda>directory.
     if parent directory \<noteq> Some objects_dir then None
     else if list_ex (\<lambda>span. parent (path_of span) \<noteq> Some source_parent) (img_spans a) then None
     else Some directory)))))"

definition resolve_managed_file ::
  "file_system \<Rightarrow> path \<Rightarrow> uuid \<Rightarrow> string \<Rightarrow> (image_library_error, path) outcome" where
  "resolve_managed_file fs objects_dir i source_path =
     (let p = path_of source_path in
      and_then (ok_or (canonicalize fs p) (Managed_File_Unavailable i p)) (\<lambda>c.
      and_then (ensure (path_within objects_dir c) (Unmanaged_Image_Path i c)) (\<lambda>_.
      and_then (ensure (is_file fs c) (Managed_File_Unavailable i c)) (\<lambda>_. Ok c))))"

definition resolve_direct_object_file ::
  "file_system \<Rightarrow> uuid \<Rightarrow> path \<Rightarrow> path \<Rightarrow> string option \<Rightarrow> (image_library_error, path) outcome" where
  "resolve_direct_object_file fs i p object_directory expected_basename =
     and_then (ok_or (symlink_metadata fs p) (Managed_File_Unavailable i p)) (\<lambda>m.
     and_then (ensure (parent p = Some object_directory \<and>
         (case expected_basename of None \<Rightarrow> True | Some n \<Rightarrow> file_name p = Some n) \<and>
         is_regular (Some m)) (Unmanaged_Image_Path i p)) (\<lambda>_.
     and_then (ok_or (canonicalize fs p) (Managed_File_Unavailable i p)) (\<lambda>c.
     and_then (ensure (parent c = Some object_directory) (Unmanaged_Image_Path i c)) (\<lambda>_. Ok c))))"

definition resolve_gho_object_directory ::
  "library_world \<Rightarrow> file_system \<Rightarrow> path \<Rightarrow> image_artifact \<Rightarrow> (image_library_error, path) outcome" where
  "resolve_gho_object_directory w fs objects_dir a =
     (let i = img_id a; primary_path = path_of (img_source_path a) in
      and_then (ok_or (parent primary_path) (Unmanaged_Image_Path i primary_path)) (\<lambda>d.
      and_then (ensure (parent d = Some objects_dir \<and>
          (case to_str (file_name d) of None \<Rightarrow> False | Some n \<Rightarrow> lw_parse_uuid w n \<noteq> None) \<and>
          list_all (\<lambda>span. parent (path_of span) = Some d) (img_spans a))
        (Unmanaged_Image_Path i primary_path)) (\<lambda>_.
      and_then (ok_or (symlink_metadata fs d) (Managed_File_Unavailable i d)) (\<lambda>m.
      and_then (ensure (m = Directory) (Unmanaged_Image_Path i d)) (\<lambda>_.
      and_then (ok_or (canonicalize fs d) (Managed_File_Unavailable i d)) (\<lambda>c.
      and_then (ensure (parent c = Some objects_dir) (Unmanaged_Image_Path i c)) (\<lambda>_. Ok c)))))))"

section \<open>Checks of installer files\<close>

definition prepare_installer_file ::
  "library_world \<Rightarrow> file_system \<Rightarrow> uuid \<Rightarrow> path \<Rightarrow> u64 \<Rightarrow> string \<Rightarrow> (image_library_error, prepared_asset) outcome" where
  "prepare_installer_file w fs i p expected_size expected_sha256 =
     and_then (ok_or (metadata fs p) (Managed_File_Unavailable i p)) (\<lambda>m.
     and_then (ensure (size_of m = expected_size)
       (Installer_Asset_Size_Mismatch i expected_size (size_of m))) (\<lambda>_.
     and_then (hash_files w fs [p]) (\<lambda>actual_sha256.
     and_then (ensure (eq_ignore_case actual_sha256 expected_sha256)
       (Installer_Asset_Hash_Mismatch i expected_sha256 actual_sha256)) (\<lambda>_.
     Ok \<lparr> pa_canonical_path = display p, pa_size_bytes = size_of m, pa_sha256 = actual_sha256 \<rparr>))))"

definition compare_embedded_asset ::
  "uuid \<Rightarrow> installer_boot_asset \<Rightarrow> inspected_asset \<Rightarrow> (image_library_error, unit) outcome" where
  "compare_embedded_asset i expected actual =
     and_then (ensure (ina_size_bytes actual = asset_size_bytes expected)
       (Installer_Asset_Size_Mismatch i (asset_size_bytes expected) (ina_size_bytes actual))) (\<lambda>_.
     ensure (eq_ignore_case (ina_sha256 actual) (asset_sha256 expected))
       (Installer_Asset_Hash_Mismatch i (asset_sha256 expected) (ina_sha256 actual)))"

definition managed_asset_path :: "path \<Rightarrow> string \<Rightarrow> path" where
  "managed_asset_path directory basename = join_name directory basename"

definition installer_capability_of :: "inspected_ubuntu_iso \<Rightarrow> path \<Rightarrow> installer_capability" where
  "installer_capability_of inspected object_directory =
     (let boot_asset = \<lambda>a. \<lparr> asset_path = display (managed_asset_path object_directory (ina_basename a)),
            asset_size_bytes = ina_size_bytes a, asset_sha256 = ina_sha256 a \<rparr> in
      \<lparr> cap_deployable = True, cap_distribution = Ubuntu, cap_release = inu_release inspected,
        cap_architecture = X86_64, cap_profile = Ubuntu_Autoinstall,
        cap_profile_version = ubuntu_autoinstall_profile_version,
        cap_kernel = boot_asset (inu_kernel inspected), cap_initrd = boot_asset (inu_initrd inspected),
        cap_minimum_memory_bytes = ubuntu_minimum_memory_bytes,
        cap_minimum_disk_bytes = ubuntu_minimum_disk_bytes, cap_blocked_reason = None \<rparr>)"

definition supported_installer :: "image_artifact \<Rightarrow> installer_capability option" where
  "supported_installer a =
     (case img_installer_capability a of
        Some c \<Rightarrow> if is_supported_ubuntu_server_v1 c then Some c else None
      | None \<Rightarrow> None)"

definition managed_installer_assets_match ::
  "library_world \<Rightarrow> file_system \<Rightarrow> path \<Rightarrow> image_artifact \<Rightarrow> bool" where
  "managed_installer_assets_match w fs objects_dir a =
     (case (supported_installer a, managed_object_directory w fs objects_dir a) of
        (Some c, Some d) \<Rightarrow>
          (let check = \<lambda>asset name.
             and_then (resolve_direct_object_file fs (img_id a) (path_of (asset_path asset)) d (Some name)) (\<lambda>p.
             prepare_installer_file w fs (img_id a) p (asset_size_bytes asset) (asset_sha256 asset)) in
           is_ok (check (cap_kernel c) managed_kernel_name) \<and> is_ok (check (cap_initrd c) managed_initrd_name))
      | _ \<Rightarrow> False)"

section \<open>Comparison with an image already managed\<close>

fun total_size :: "file_system \<Rightarrow> u64 \<Rightarrow> path list \<Rightarrow> u64 option" where
  "total_size fs tot [] = Some tot"
| "total_size fs tot (p # ps) =
     Option.bind (metadata fs p) (\<lambda>m. total_size fs (saturating_add tot (size_of m)) ps)"

definition managed_artifact_matches ::
  "library_world \<Rightarrow> file_system \<Rightarrow> path \<Rightarrow> image_artifact \<Rightarrow> bool" where
  "managed_artifact_matches w fs objects_dir a =
     (artifact_paths_are_managed fs objects_dir a \<and>
      total_size fs 0 (artifact_file_paths a) = Some (img_size_bytes a) \<and>
      (case img_sha256 a of
         None \<Rightarrow> False
       | Some expected \<Rightarrow>
           (case hash_files w fs (artifact_file_paths a) of
              Ok actual \<Rightarrow> eq_ignore_case actual expected
            | _ \<Rightarrow> False)))"

definition artifact_basenames_match :: "image_artifact \<Rightarrow> path list \<Rightarrow> bool" where
  "artifact_basenames_match a staged_paths =
     (length (artifact_file_paths a) = length staged_paths \<and>
      list_all2 (\<lambda>managed staged. file_name managed \<noteq> None \<and> file_name managed = file_name staged)
        (artifact_file_paths a) staged_paths)"

definition artifact_file_sizes_match :: "file_system \<Rightarrow> image_artifact \<Rightarrow> u64 list \<Rightarrow> bool" where
  "artifact_file_sizes_match fs a staged_sizes =
     (length (artifact_file_paths a) = length staged_sizes \<and>
      list_all2 (\<lambda>managed staged_size. map_option size_of (metadata fs managed) = Some staged_size)
        (artifact_file_paths a) staged_sizes)"

section \<open>Opening the library\<close>

definition legacy_gho_deployment_file_name :: string where
  "legacy_gho_deployment_file_name = ''gho-deployment.json''"
definition legacy_ghost_tool_file_name :: string where
  "legacy_ghost_tool_file_name = ''Ghost64.exe''"

text \<open>\<open>create_dir_all\<close>: every missing directory of the path, from the root down.\<close>

fun make_dirs :: "path \<Rightarrow> path \<Rightarrow> file_system \<Rightarrow> file_system option" where
  "make_dirs d [] fs = Some fs"
| "make_dirs d (c # cs) fs =
     (let p = d @ [c] in
      case metadata fs p of
        Some Directory \<Rightarrow> make_dirs p cs fs
      | Some _ \<Rightarrow> None
      | None \<Rightarrow>
          (case follow fs d of
             Some r \<Rightarrow> if node_at fs (r @ [c]) = None then make_dirs p cs (put_node (r @ [c]) Directory fs) else None
           | None \<Rightarrow> None))"

definition create_dir_all :: "path \<Rightarrow> file_system \<Rightarrow> (image_library_error, unit) outcome \<times> file_system" where
  "create_dir_all p fs =
     (if fs_refuses fs Creating p then (Err (Library_Write p), fs)
      else let p = absolute fs p in
        case make_dirs (take 1 p) (drop 1 p) fs of
          None \<Rightarrow> (Err (Library_Write p), fs)
        | Some fs' \<Rightarrow> (Ok (), fs'))"

definition remove_file :: "path \<Rightarrow> file_system \<Rightarrow> file_system" where
  "remove_file p fs =
     (if fs_refuses fs Removing p then fs
      else case symlink_metadata fs p of
          None \<Rightarrow> fs
        | Some Directory \<Rightarrow> fs
        | Some _ \<Rightarrow>
            (case locate fs (butlast p) of
               None \<Rightarrow> fs
             | Some d \<Rightarrow> fs \<lparr> fs_nodes := filter (\<lambda>(q, m). q \<noteq> d @ [last p]) (fs_nodes fs) \<rparr>))"

definition deployable_format :: "image_artifact \<Rightarrow> bool" where
  "deployable_format a =
     (img_format a \<in> {Wim, Esd} \<or>
      (case img_gho_capability a of
         None \<Rightarrow> False
       | Some c \<Rightarrow> gic_deployable c \<and> gic_parser_version c = gho_parser_version) \<or>
      img_format a = Iso \<and> supported_installer a \<noteq> None)"

text \<open>An image of the manifest is trusted on as verified only while its files are still managed.\<close>

definition still_verified :: "file_system \<Rightarrow> path \<Rightarrow> image_artifact \<Rightarrow> bool" where
  "still_verified fs objects_dir a =
     (deployable_format a \<and> artifact_paths_are_managed fs objects_dir a)"

definition drop_legacy_files ::
  "library_world \<Rightarrow> path \<Rightarrow> image_artifact \<Rightarrow> file_system \<Rightarrow> file_system" where
  "drop_legacy_files w objects_dir a fs =
     (case (img_format a, managed_object_directory w fs objects_dir a) of
        (Gho, Some d) \<Rightarrow>
          remove_file (join_name d legacy_ghost_tool_file_name)
            (remove_file (join_name d legacy_gho_deployment_file_name) fs)
      | _ \<Rightarrow> fs)"

fun review_images ::
  "library_world \<Rightarrow> path \<Rightarrow> image_artifact list \<Rightarrow> file_system \<Rightarrow> image_artifact list \<times> bool \<times> file_system" where
  "review_images w objects_dir [] fs = ([], False, fs)"
| "review_images w objects_dir (a # as) fs =
     (let reset = img_verified a \<and> \<not> still_verified fs objects_dir a;
          a' = (if reset then a \<lparr> img_verified := False \<rparr> else a);
          (rest, changed, fs') = review_images w objects_dir as (drop_legacy_files w objects_dir a' fs) in
      (a' # rest, reset \<or> changed, fs'))"

definition persist_manifest ::
  "image_artifact list write_result \<Rightarrow> path \<Rightarrow> image_artifact list \<Rightarrow>
   (image_library_error, unit) outcome \<times> image_artifact list stored" where
  "persist_manifest write manifest_path images =
     ((case write of Written \<Rightarrow> Ok () | Write_Failed _ \<Rightarrow> Err (Library_Write manifest_path)),
      file_after write images)"

definition open_library ::
  "library_world \<Rightarrow> path \<Rightarrow> image_artifact list write_result \<Rightarrow> image_artifact list stored \<Rightarrow> file_system \<Rightarrow>
   (image_library_error, image_library) outcome \<times> file_system" where
  "open_library w data_dir write manifest fs =
     then_do (create_dir_all data_dir fs) (\<lambda>_ fs1.
     then_do (ok_or (canonicalize fs1 data_dir) (Library_Read data_dir), fs1) (\<lambda>d fs1.
     then_do (create_dir_all (join_name d ''objects'') fs1) (\<lambda>_ fs2.
     then_do (ok_or (canonicalize fs2 (join_name d ''objects'')) (Library_Read (join_name d ''objects'')), fs2)
       (\<lambda>objects_dir fs2.
     let manifest_path = join_name d ''images.json'' in
     then_do (ensure (manifest = Absent \<or> \<not> fs_refuses fs2 Opening manifest_path) (Library_Read manifest_path), fs2) (\<lambda>_ fs2.
     then_do ((case file_bytes (lw_manifest w) manifest of
                 None \<Rightarrow> Ok []
               | Some b \<Rightarrow> ok_or (cd_parse (lw_manifest w) b) Invalid_Manifest), fs2) (\<lambda>listed fs2.
     let (images, changed, fs3) = review_images w objects_dir listed fs2;
         (r, saved) = (if changed then persist_manifest write manifest_path images else (Ok (), manifest)) in
     (map_ok (\<lambda>_. \<lparr> lib_objects_dir = objects_dir, lib_images = images, lib_file = saved \<rparr>) r, fs3)))))))"

section \<open>Looking at the images\<close>

definition list_images :: "image_library \<Rightarrow> image_artifact list" where
  "list_images lib = sort_key (\<lambda>a. - img_created_at a) (lib_images lib)"

definition contains_image :: "uuid \<Rightarrow> image_library \<Rightarrow> bool" where
  "contains_image i lib = list_ex (\<lambda>a. img_id a = i) (lib_images lib)"

definition get_image :: "uuid \<Rightarrow> image_library \<Rightarrow> image_artifact option" where
  "get_image i lib = find (\<lambda>a. img_id a = i) (lib_images lib)"

definition image_of :: "uuid \<Rightarrow> image_library \<Rightarrow> (image_library_error, image_artifact) outcome" where
  "image_of i lib = ok_or (get_image i lib) (Image_Not_Found i)"

section \<open>Checks before a deployment\<close>

definition revalidate_for_deployment ::
  "library_world \<Rightarrow> file_system \<Rightarrow> uuid \<Rightarrow> u32 \<Rightarrow> image_library \<Rightarrow> (image_library_error, image_artifact) outcome" where
  "revalidate_for_deployment w fs i requested_index lib =
     and_then (image_of i lib) (\<lambda>a.
     and_then (ensure (img_format a \<in> {Wim, Esd}) (Catalog_Only_Format i (img_format a))) (\<lambda>_.
     and_then (ensure (img_verified a) (Image_Not_Verified i)) (\<lambda>_.
     and_then (ensure (img_spans a = []) (Deployable_Image_Has_Spans i)) (\<lambda>_.
     and_then (ok_or (img_sha256 a) (Missing_Checksum i)) (\<lambda>expected_sha256.
     and_then (resolve_managed_file fs (lib_objects_dir lib) i (img_source_path a)) (\<lambda>p.
     and_then (ok_or (metadata fs p) (Managed_File_Unavailable i p)) (\<lambda>m.
     and_then (ensure (size_of m = img_size_bytes a) (Managed_Size_Mismatch i (img_size_bytes a) (size_of m))) (\<lambda>_.
     and_then (hash_files w fs [p]) (\<lambda>actual_sha256.
     and_then (ensure (eq_ignore_case actual_sha256 expected_sha256)
       (Managed_Hash_Mismatch i expected_sha256 actual_sha256)) (\<lambda>_.
     and_then (validate_wim_header fs p) (\<lambda>image_count.
     and_then (ensure (1 \<le> requested_index \<and> requested_index \<le> image_count)
       (Image_Index_Out_Of_Range i requested_index image_count)) (\<lambda>_.
     and_then (validate_wim_with_dism w p (Some requested_index)) (\<lambda>_. Ok a)))))))))))))"

definition prepare_linux_iso ::
  "library_world \<Rightarrow> file_system \<Rightarrow> uuid \<Rightarrow> image_library \<Rightarrow> (image_library_error, prepared_linux_iso) outcome" where
  "prepare_linux_iso w fs i lib =
     and_then (image_of i lib) (\<lambda>a.
     and_then (ensure (img_format a = Iso) Unsupported_Format) (\<lambda>_.
     and_then (ensure (img_verified a \<and> img_spans a = []) (Image_Not_Verified i)) (\<lambda>_.
     and_then (ok_or (supported_installer a) (Missing_Installer_Capability i)) (\<lambda>c.
     and_then (ok_or (managed_object_directory w fs (lib_objects_dir lib) a)
       (Unmanaged_Image_Path i (path_of (img_source_path a)))) (\<lambda>d.
     and_then (resolve_direct_object_file fs i (path_of (img_source_path a)) d None) (\<lambda>iso_path.
     and_then (ok_or (img_sha256 a) (Missing_Checksum i)) (\<lambda>expected_iso_sha256.
     and_then (prepare_installer_file w fs i iso_path (img_size_bytes a) expected_iso_sha256) (\<lambda>iso_file.
     and_then (resolve_direct_object_file fs i (path_of (asset_path (cap_kernel c))) d
       (Some managed_kernel_name)) (\<lambda>kernel_path.
     and_then (prepare_installer_file w fs i kernel_path (asset_size_bytes (cap_kernel c))
       (asset_sha256 (cap_kernel c))) (\<lambda>kernel_file.
     and_then (resolve_direct_object_file fs i (path_of (asset_path (cap_initrd c))) d
       (Some managed_initrd_name)) (\<lambda>initrd_path.
     and_then (prepare_installer_file w fs i initrd_path (asset_size_bytes (cap_initrd c))
       (asset_sha256 (cap_initrd c))) (\<lambda>initrd_file.
     and_then (map_err Invalid_Installer_Iso (inspect_managed (lw_iso w) (lw_digest w) (read_file fs iso_path))) (\<lambda>embedded.
     and_then (compare_embedded_asset i (cap_kernel c) (inu_kernel embedded)) (\<lambda>_.
     and_then (compare_embedded_asset i (cap_initrd c) (inu_initrd embedded)) (\<lambda>_.
     and_then (ensure (inu_release embedded = cap_release c) (Missing_Installer_Capability i)) (\<lambda>_.
     Ok \<lparr> pli_artifact_id = i, pli_iso = iso_file, pli_kernel = kernel_file, pli_initrd = initrd_file,
          pli_capability = c \<rparr>))))))))))))))))"

text \<open>A file of a Ghost set, with its bytes for the digest and the size of the whole set.\<close>

definition prepare_gho_file ::
  "library_world \<Rightarrow> file_system \<Rightarrow> uuid \<Rightarrow> path \<Rightarrow> path \<Rightarrow> bool \<Rightarrow> nat \<Rightarrow>
   (image_library_error, prepared_gho_image_file \<times> bytes) outcome" where
  "prepare_gho_file w fs i p object_directory is_primary total_size_bytes =
     and_then (ok_or (case to_str (file_name p) of
           Some n \<Rightarrow> if n \<noteq> [] \<and> length (path_of n) = 1 then Some n else None
         | None \<Rightarrow> None) (Invalid_Span_Set Unsafe_Basename)) (\<lambda>basename.
     let ext = (case to_str (extension p) of Some e \<Rightarrow> e | None \<Rightarrow> []) in
     and_then (ensure (if is_primary then eq_ignore_case ext ''gho''
         else eq_ignore_case ext ''ghs'' \<or> length ext = 3 \<and> list_all is_digit ext)
       (Invalid_Span_Set Unexpected_Extension)) (\<lambda>_.
     and_then (ok_or (symlink_metadata fs p) (Managed_File_Unavailable i p)) (\<lambda>m.
     and_then (ensure (is_regular (Some m)) (Managed_File_Unavailable i p)) (\<lambda>_.
     and_then (ok_or (canonicalize fs p) (Managed_File_Unavailable i p)) (\<lambda>c.
     and_then (ensure (parent c = Some object_directory) (Unmanaged_Image_Path i c)) (\<lambda>_.
     and_then (ok_or (read_file fs c) (Managed_File_Unavailable i c)) (\<lambda>file.
     and_then (ensure (total_size_bytes + length file < 2 ^ 64) (Invalid_Span_Set Too_Large)) (\<lambda>_.
     Ok (\<lparr> pgf_basename = basename, pgf_canonical_path = display c, pgf_size_bytes = word_of_nat (length file),
           pgf_sha256 = lw_digest w file \<rparr>, file)))))))))"

fun prepare_gho_files ::
  "library_world \<Rightarrow> file_system \<Rightarrow> uuid \<Rightarrow> path \<Rightarrow> bool \<Rightarrow> nat \<Rightarrow> path list \<Rightarrow>
   (image_library_error, (prepared_gho_image_file \<times> bytes) list) outcome" where
  "prepare_gho_files w fs i object_directory is_primary tot [] = Ok []"
| "prepare_gho_files w fs i object_directory is_primary tot (p # ps) =
     and_then (prepare_gho_file w fs i p object_directory is_primary tot) (\<lambda>(f, file).
     map_ok (\<lambda>rest. (f, file) # rest)
       (prepare_gho_files w fs i object_directory False (tot + length file) ps))"

definition prepare_gho_readiness ::
  "library_world \<Rightarrow> file_system \<Rightarrow> uuid \<Rightarrow> image_library \<Rightarrow> (image_library_error, prepared_gho_image_set) outcome" where
  "prepare_gho_readiness w fs i lib =
     and_then (image_of i lib) (\<lambda>a.
     and_then (ensure (img_format a = Gho) Unsupported_Format) (\<lambda>_.
     and_then (ok_or (img_sha256 a) (Missing_Checksum i)) (\<lambda>expected_sha256.
     and_then (resolve_gho_object_directory w fs (lib_objects_dir lib) a) (\<lambda>d.
     and_then (ok_or (read_directory_files (lw_upper w) fs d) (Library_Read d)) (\<lambda>managed_files.
     and_then (map_err Invalid_Span_Set
       (discover_ghost_spans (lw_upper w) (path_of (img_source_path a)) managed_files)) (\<lambda>discovered_spans.
     and_then (ensure (discovered_spans = map path_of (img_spans a)) (Invalid_Span_Set Changed_Span_List)) (\<lambda>_.
     and_then (prepare_gho_files w fs i d True 0 (artifact_file_paths a)) (\<lambda>prepared.
     let image_set = concat (map snd prepared); total_size_bytes = word_of_nat (length image_set);
         image_set_sha256 = lw_digest w image_set in
     and_then (ensure (total_size_bytes = img_size_bytes a)
       (Managed_Size_Mismatch i (img_size_bytes a) total_size_bytes)) (\<lambda>_.
     and_then (ensure (eq_ignore_case image_set_sha256 expected_sha256)
       (Managed_Hash_Mismatch i expected_sha256 image_set_sha256)) (\<lambda>_.
     (case map fst prepared of
        [] \<Rightarrow> Panic
      | primary # spans \<Rightarrow> Ok \<lparr> pgs_artifact_id = i, pgs_primary = primary, pgs_spans = spans,
          pgs_total_size_bytes = total_size_bytes, pgs_image_set_sha256 = image_set_sha256 \<rparr>)))))))))))"

definition deployable_capability :: "image_artifact \<Rightarrow> gho_image_capability option" where
  "deployable_capability a =
     (case img_gho_capability a of
        Some c \<Rightarrow> if gic_deployable c then Some c else None
      | None \<Rightarrow> None)"

definition prepare_gho_partition_deployment ::
  "library_world \<Rightarrow> file_system \<Rightarrow> uuid \<Rightarrow> u32 \<Rightarrow> image_library \<Rightarrow>
   (image_library_error, prepared_gho_deployment) outcome" where
  "prepare_gho_partition_deployment w fs i source_partition lib =
     and_then (prepare_gho_readiness w fs i lib) (\<lambda>img.
     and_then (image_of i lib) (\<lambda>a.
     and_then (ok_or (deployable_capability a) (Image_Not_Verified i)) (\<lambda>expected.
     let primary = path_of (pgf_canonical_path (pgs_primary img));
         span_paths = map (\<lambda>f. path_of (pgf_canonical_path f)) (pgs_spans img) in
     and_then (inspect_native_gho w fs primary span_paths) (\<lambda>actual.
     and_then (ensure (gic_deployable actual \<and> gic_partitions actual = gic_partitions expected)
       (Partitions_Changed i)) (\<lambda>_.
     and_then (ok_or (find (\<lambda>p. gpc_source_partition p = source_partition) (gic_partitions actual))
       Unsupported_Format) (\<lambda>selected.
     and_then (hash_gho_deployment_stream w fs primary span_paths) (\<lambda>(download_size_bytes, download_sha256).
     Ok \<lparr> pgd_image = img,
          pgd_capability = actual \<lparr> gic_source_partition := Some (gpc_source_partition selected),
            gic_expanded_size_bytes := Some (gpc_expanded_size_bytes selected),
            gic_expanded_sha256 := Some (gpc_expanded_sha256 selected) \<rparr>,
          pgd_download_size_bytes = download_size_bytes, pgd_download_sha256 = download_sha256 \<rparr>)))))))"

definition prepare_gho_deployment ::
  "library_world \<Rightarrow> file_system \<Rightarrow> uuid \<Rightarrow> image_library \<Rightarrow> (image_library_error, prepared_gho_deployment) outcome" where
  "prepare_gho_deployment w fs i lib =
     (case Option.bind (Option.bind (get_image i lib) img_gho_capability) gic_source_partition of
        None \<Rightarrow> Err (Image_Not_Verified i)
      | Some source_partition \<Rightarrow> prepare_gho_partition_deployment w fs i source_partition lib)"

section \<open>Staging\<close>

record staged_image =
  sti_directory :: path
  sti_primary_name :: string
  sti_span_names :: "string list"

definition primary_path :: "staged_image \<Rightarrow> path" where
  "primary_path s = join_name (sti_directory s) (sti_primary_name s)"

definition all_paths :: "staged_image \<Rightarrow> path list" where
  "all_paths s = primary_path s # map (join_name (sti_directory s)) (sti_span_names s)"

text \<open>An image that was not committed is removed when it goes out of scope; a failure to do so is ignored.\<close>

definition remove_tree :: "path \<Rightarrow> file_system \<Rightarrow> file_system" where
  "remove_tree d fs = (if fs_refuses fs Removing d then fs else drop_tree d fs)"

definition source_basename :: "path \<Rightarrow> (image_library_error, string) outcome" where
  "source_basename p = ok_or (file_name p) (Invalid_Span_Set No_Basename)"

fun source_basenames :: "path list \<Rightarrow> (image_library_error, string list) outcome" where
  "source_basenames [] = Ok []"
| "source_basenames (p # ps) =
     and_then (source_basename p) (\<lambda>n. map_ok (\<lambda>ns. n # ns) (source_basenames ps))"

definition reject_windows_name_collisions ::
  "library_world \<Rightarrow> string list \<Rightarrow> (image_library_error, unit) outcome" where
  "reject_windows_name_collisions w names =
     ensure (distinct (map (windows_name_key (lw_upper w)) names)) (Invalid_Span_Set Name_Collision)"

definition copy_and_sync ::
  "path \<Rightarrow> path \<Rightarrow> file_system \<Rightarrow> (image_library_error, unit) outcome \<times> file_system" where
  "copy_and_sync source destination fs =
     (case read_file fs source of
        None \<Rightarrow> (Err (Library_Copy source destination), fs)
      | Some file \<Rightarrow>
          if fs_refuses fs Copying destination then (Err (Library_Copy source destination), fs)
          else
            let fs' = put_node destination (Regular file) fs in
            (ensure (\<not> fs_refuses fs Opening destination) (Library_Write destination), fs'))"

fun copy_all ::
  "(path \<times> path) list \<Rightarrow> file_system \<Rightarrow> (image_library_error, unit) outcome \<times> file_system" where
  "copy_all [] fs = (Ok (), fs)"
| "copy_all ((source, destination) # copies) fs =
     then_do (copy_and_sync source destination fs) (\<lambda>_. copy_all copies)"

definition create_dir :: "path \<Rightarrow> file_system \<Rightarrow> (image_library_error, unit) outcome \<times> file_system" where
  "create_dir d fs =
     (if fs_refuses fs Creating d \<or> node_at fs d \<noteq> None then (Err (Library_Write d), fs)
      else (Ok (), put_node d Directory fs))"

definition staging_name :: "uuid \<Rightarrow> string" where
  "staging_name i = ''.import-'' @ uuid_text i @ ''.tmp''"

definition stage_managed_copy ::
  "library_world \<Rightarrow> uuid \<Rightarrow> path \<Rightarrow> path \<Rightarrow> path list \<Rightarrow> file_system \<Rightarrow>
   (image_library_error, staged_image) outcome \<times> file_system" where
  "stage_managed_copy w staging_id objects_dir primary spans fs =
     then_do (source_basenames (primary # spans), fs) (\<lambda>names fs.
     then_do (reject_windows_name_collisions w names, fs) (\<lambda>_ fs.
     let directory = join_name objects_dir (staging_name staging_id) in
     then_do (create_dir directory fs) (\<lambda>_ fs.
     let staged = \<lparr> sti_directory = directory, sti_primary_name = hd names, sti_span_names = tl names \<rparr> in
     (case copy_all (zip (primary # spans) (all_paths staged)) fs of
        (Ok (), fs') \<Rightarrow> (Ok staged, fs')
      | (Err e, fs') \<Rightarrow> (Err e, remove_tree directory fs')
      | (Panic, fs') \<Rightarrow> (Panic, fs')))))"

text \<open>A rename replaces an empty directory and nothing else.\<close>

definition rename_dir ::
  "path \<Rightarrow> path \<Rightarrow> file_system \<Rightarrow> (image_library_error, unit) outcome \<times> file_system" where
  "rename_dir source target fs =
     (if fs_refuses fs Renaming target \<or> node_at fs target \<notin> {None, Some Directory} \<or>
         list_ex (\<lambda>(q, m). path_within target q \<and> q \<noteq> target) (fs_nodes fs)
      then (Err (Library_Write target), fs)
      else (Ok (), move_tree source target (drop_tree target fs)))"

record managed_image =
  mgi_directory :: path
  mgi_primary :: path
  mgi_spans :: "path list"

definition commit_staged ::
  "uuid \<Rightarrow> path \<Rightarrow> staged_image \<Rightarrow> file_system \<Rightarrow> (image_library_error, managed_image) outcome \<times> file_system" where
  "commit_staged object_id objects_dir s fs =
     (let final_directory = join_name objects_dir (uuid_text object_id) in
      case rename_dir (sti_directory s) final_directory fs of
        (Ok (), fs') \<Rightarrow> (Ok \<lparr> mgi_directory = final_directory,
            mgi_primary = join_name final_directory (sti_primary_name s),
            mgi_spans = map (join_name final_directory) (sti_span_names s) \<rparr>, fs')
      | (Err e, fs') \<Rightarrow> (Err e, remove_tree (sti_directory s) fs')
      | (Panic, fs') \<Rightarrow> (Panic, fs'))"

section \<open>Importing an image\<close>

record import_env =
  ie_staging_id :: uuid
  ie_artifact_id :: uuid
  ie_object_id :: uuid
  ie_now :: instant
  ie_write :: "image_artifact list write_result"

text \<open>What the source is: its canonical path, its format and its spans.\<close>

definition inspect_source ::
  "library_world \<Rightarrow> path \<Rightarrow> file_system \<Rightarrow> (image_library_error, path \<times> image_format \<times> path list) outcome" where
  "inspect_source w p fs =
     and_then (ok_or (canonicalize fs p) (Library_Read p)) (\<lambda>c.
     and_then (ensure (is_file fs c) Not_A_File) (\<lambda>_.
     and_then (detect_image_format c) (\<lambda>format.
     and_then (if format \<in> {Wim, Esd} then map_ok (\<lambda>_. ()) (validate_wim_header fs c) else Ok ()) (\<lambda>_.
     map_ok (\<lambda>spans. (c, format, spans)) (discover_spans w fs c format)))))"

definition extracted_file :: "file_system \<Rightarrow> path \<Rightarrow> asset_output" where
  "extracted_file fs p =
     \<lparr> ao_opens = (\<not> fs_refuses fs Creating p \<and> node_at fs p = None), ao_writes = (\<lambda>n. \<not> fs_refuses fs Copying p),
       ao_syncs = (\<not> fs_refuses fs Opening p) \<rparr>"

text \<open>The boot files of an installer image are extracted into the staging directory.\<close>

definition extract_installer ::
  "library_world \<Rightarrow> image_format \<Rightarrow> staged_image \<Rightarrow> file_system \<Rightarrow>
   (image_library_error, inspected_ubuntu_iso option) outcome \<times> file_system" where
  "extract_installer w format s fs =
     (if format \<noteq> Iso then (Ok None, fs)
      else
        let kernel_path = join_name (sti_directory s) managed_kernel_name;
            initrd_path = join_name (sti_directory s) managed_initrd_name in
        (case inspect_and_extract (lw_iso w) (lw_digest w) (read_file fs (primary_path s))
                (extracted_file fs kernel_path, extracted_file fs initrd_path) of
           Ok (inspected, kernel_bytes, initrd_bytes) \<Rightarrow>
             (Ok (Some inspected), put_node initrd_path (Regular initrd_bytes)
               (put_node kernel_path (Regular kernel_bytes) fs))
         | Err e \<Rightarrow> (Err (Invalid_Installer_Iso e), fs)
         | Panic \<Rightarrow> (Panic, fs)))"

record staged_facts =
  sf_gho_capability :: "gho_image_capability option"
  sf_installer :: "inspected_ubuntu_iso option"
  sf_sizes :: "u64 list"
  sf_sha256 :: string

fun file_sizes :: "file_system \<Rightarrow> path list \<Rightarrow> (image_library_error, u64 list) outcome" where
  "file_sizes fs [] = Ok []"
| "file_sizes fs (p # ps) =
     and_then (ok_or (metadata fs p) (Library_Read p)) (\<lambda>m.
     map_ok (\<lambda>rest. size_of m # rest) (file_sizes fs ps))"

definition staged_facts_of ::
  "library_world \<Rightarrow> image_format \<Rightarrow> staged_image \<Rightarrow> file_system \<Rightarrow>
   (image_library_error, staged_facts) outcome \<times> file_system" where
  "staged_facts_of w format s fs =
     then_do (if format = Gho
         then map_ok Some (inspect_native_gho w fs (primary_path s) (tl (all_paths s))) else Ok None, fs)
       (\<lambda>gho fs.
     then_do (extract_installer w format s fs) (\<lambda>installer fs.
     then_do (if format \<in> {Wim, Esd}
         then and_then (validate_wim_header fs (primary_path s)) (\<lambda>_. validate_wim_with_dism w (primary_path s) None)
         else Ok (), fs) (\<lambda>_ fs.
     then_do (file_sizes fs (all_paths s), fs) (\<lambda>sizes fs.
     then_do (hash_files w fs (all_paths s), fs) (\<lambda>sha fs.
     (Ok \<lparr> sf_gho_capability = gho, sf_installer = installer, sf_sizes = sizes, sf_sha256 = sha \<rparr>, fs))))))"

definition saturating_sum :: "u64 list \<Rightarrow> u64" where
  "saturating_sum sizes = foldl saturating_add 0 sizes"

text \<open>An image of the library that is the one imported again, and whether its files are still as recorded.\<close>

definition matching_image ::
  "library_world \<Rightarrow> file_system \<Rightarrow> image_format \<Rightarrow> staged_image \<Rightarrow> staged_facts \<Rightarrow> image_library \<Rightarrow>
   (image_artifact \<times> bool) option" where
  "matching_image w fs format s facts lib =
     (let objects_dir = lib_objects_dir lib;
          candidate = (\<lambda>a.
            if img_format a \<noteq> format \<or> img_size_bytes a \<noteq> saturating_sum (sf_sizes facts) \<or>
               img_sha256 a \<noteq> Some (sf_sha256 facts) \<or> \<not> artifact_basenames_match a (all_paths s) then None
            else
              let managed_matches = managed_artifact_matches w fs objects_dir a \<and>
                    (format \<noteq> Iso \<or> managed_installer_assets_match w fs objects_dir a) in
              if managed_matches \<and> \<not> artifact_file_sizes_match fs a (sf_sizes facts) then None
              else Some (a, managed_matches)) in
      Option.bind (find (\<lambda>r. r \<noteq> None) (map candidate (lib_images lib))) id)"

definition new_artifact ::
  "uuid \<Rightarrow> string \<Rightarrow> image_format \<Rightarrow> staged_facts \<Rightarrow> managed_image \<Rightarrow> instant \<Rightarrow> image_artifact" where
  "new_artifact i name format facts m now =
     (let installer = map_option (\<lambda>inspected. installer_capability_of inspected (mgi_directory m)) (sf_installer facts) in
      \<lparr> img_id = i, img_name = name, img_format = format, img_source_path = display (mgi_primary m),
        img_size_bytes = saturating_sum (sf_sizes facts), img_sha256 = Some (sf_sha256 facts),
        img_spans = map display (mgi_spans m),
        img_verified = (format \<in> {Wim, Esd} \<or>
          (case sf_gho_capability facts of None \<Rightarrow> False | Some c \<Rightarrow> gic_deployable c) \<or>
          (case installer of None \<Rightarrow> False | Some c \<Rightarrow> is_supported_ubuntu_server_v1 c)),
        img_gho_capability = sf_gho_capability facts, img_installer_capability = installer,
        img_created_at = now \<rparr>)"

definition manifest_path :: "image_library \<Rightarrow> path" where
  "manifest_path lib = join_name (butlast (lib_objects_dir lib)) ''images.json''"

text \<open>The images replace those in memory only when the manifest was written.\<close>

definition persist ::
  "image_artifact list write_result \<Rightarrow> image_artifact list \<Rightarrow> image_library \<Rightarrow>
   (image_library_error, unit) outcome \<times> image_library" where
  "persist write images lib =
     (case persist_manifest write (manifest_path lib) images of
        (Ok (), saved) \<Rightarrow> (Ok (), lib \<lparr> lib_images := images, lib_file := saved \<rparr>)
      | (r, saved) \<Rightarrow> (r, lib \<lparr> lib_file := saved \<rparr>))"

definition register_image ::
  "library_world \<Rightarrow> import_env \<Rightarrow> path \<Rightarrow> image_format \<Rightarrow> staged_image \<Rightarrow> staged_facts \<Rightarrow> image_library \<Rightarrow>
   file_system \<Rightarrow> (image_library_error, image_artifact) outcome \<times> image_library \<times> file_system" where
  "register_image w e source format s facts lib fs =
     (case matching_image w fs format s facts lib of
        Some (existing, True) \<Rightarrow> (Ok existing, lib, remove_tree (sti_directory s) fs)
      | found \<Rightarrow>
          let i = (case found of Some (a, _) \<Rightarrow> img_id a | None \<Rightarrow> ie_artifact_id e) in
          (case commit_staged (ie_object_id e) (lib_objects_dir lib) s fs of
             (Ok m, fs') \<Rightarrow>
               let name = (case to_str (file_stem source) of Some n \<Rightarrow> n | None \<Rightarrow> ''Untitled image'');
                   a = new_artifact i name format facts m (ie_now e);
                   images = filter (\<lambda>b. img_id b \<noteq> i) (lib_images lib) @ [a] in
               (case persist (ie_write e) images lib of
                  (Ok (), lib') \<Rightarrow> (Ok a, lib', fs')
                | (Err x, lib') \<Rightarrow> (Err x, lib', remove_tree (mgi_directory m) fs')
                | (Panic, lib') \<Rightarrow> (Panic, lib', fs'))
           | (Err x, fs') \<Rightarrow> (Err x, lib, fs')
           | (Panic, fs') \<Rightarrow> (Panic, lib, fs')))"

definition import_image ::
  "library_world \<Rightarrow> import_env \<Rightarrow> path \<Rightarrow> image_library \<Rightarrow> file_system \<Rightarrow>
   (image_library_error, image_artifact) outcome \<times> image_library \<times> file_system" where
  "import_image w e p lib fs =
     (case inspect_source w p fs of
        Ok (c, format, spans) \<Rightarrow>
          (case stage_managed_copy w (ie_staging_id e) (lib_objects_dir lib) c spans fs of
             (Ok s, fs1) \<Rightarrow>
               (case staged_facts_of w format s fs1 of
                  (Ok facts, fs2) \<Rightarrow> register_image w e c format s facts lib fs2
                | (Err x, fs2) \<Rightarrow> (Err x, lib, remove_tree (sti_directory s) fs2)
                | (Panic, fs2) \<Rightarrow> (Panic, lib, fs2))
           | (Err x, fs1) \<Rightarrow> (Err x, lib, fs1)
           | (Panic, fs1) \<Rightarrow> (Panic, lib, fs1))
      | Err x \<Rightarrow> (Err x, lib, fs)
      | Panic \<Rightarrow> (Panic, lib, fs))"

section \<open>Verifying again and removing\<close>

definition verify_gho_image ::
  "library_world \<Rightarrow> image_artifact list write_result \<Rightarrow> file_system \<Rightarrow> uuid \<Rightarrow> image_library \<Rightarrow>
   (image_library_error, image_artifact) outcome \<times> image_library" where
  "verify_gho_image w write fs i lib =
     (case and_then (image_of i lib) (\<lambda>a.
           and_then (ensure (img_format a = Gho) Unsupported_Format) (\<lambda>_.
           and_then (resolve_managed_file fs (lib_objects_dir lib) i (img_source_path a)) (\<lambda>managed.
           map_ok (\<lambda>c. a \<lparr> img_verified := gic_deployable c, img_gho_capability := Some c \<rparr>)
             (inspect_native_gho w fs managed (map path_of (img_spans a)))))) of
        Ok updated \<Rightarrow>
          (case persist write (update_first (\<lambda>a. img_id a = i) (\<lambda>_. updated) (lib_images lib)) lib of
             (Ok (), lib') \<Rightarrow> (Ok updated, lib')
           | (Err x, lib') \<Rightarrow> (Err x, lib')
           | (Panic, lib') \<Rightarrow> (Panic, lib'))
      | Err x \<Rightarrow> (Err x, lib)
      | Panic \<Rightarrow> (Panic, lib))"

definition remove_image ::
  "library_world \<Rightarrow> image_artifact list write_result \<Rightarrow> uuid \<Rightarrow> image_library \<Rightarrow> file_system \<Rightarrow>
   (image_library_error, bool) outcome \<times> image_library \<times> file_system" where
  "remove_image w write i lib fs =
     (let images = filter (\<lambda>a. img_id a \<noteq> i) (lib_images lib);
          directory_of = managed_object_directory w fs (lib_objects_dir lib) in
      case get_image i lib of
        None \<Rightarrow> (Ok False, lib, fs)
      | Some removed \<Rightarrow>
          let cleanup_directory = (case directory_of removed of
                None \<Rightarrow> None
              | Some d \<Rightarrow> if list_ex (\<lambda>a. directory_of a = Some d) images then None else Some d) in
          (case persist write images lib of
             (Ok (), lib') \<Rightarrow>
               (case cleanup_directory of
                  None \<Rightarrow> (Ok True, lib', fs)
                | Some d \<Rightarrow>
                    if fs_refuses fs Removing d then (Err (Library_Write d), lib', fs)
                    else (Ok True, lib', drop_tree d fs))
           | (Err x, lib') \<Rightarrow> (Err x, lib', fs)
           | (Panic, lib') \<Rightarrow> (Panic, lib', fs)))"

end
