(* ===== verification/File_Tree.thy ===== *)
theory File_Tree
  imports File_System
begin

text \<open>
  The tree of a file system and what writing, removing and renaming do to it.
  In a well-formed system every entry lies in a directory, so a name that is
  absent has nothing below it.
\<close>

definition tree :: "file_system \<Rightarrow> bool" where
  "tree fs = (distinct (map fst (fs_nodes fs)) \<and>
     (\<forall>q n. (q, n) \<in> set (fs_nodes fs) \<longrightarrow> directories_above fs q \<and> 1 < length q))"

section \<open>Paths below a path\<close>

lemma path_within_iff: "path_within p q \<longleftrightarrow> (\<exists>r. q = p @ r)"
  by (metis append_take_drop_id append_eq_conv_conj path_within_def)

lemma path_within_refl [simp]: "path_within p p"
  by (simp add: path_within_def)

lemma path_within_append [simp]: "path_within p (p @ r)"
  by (simp add: path_within_def)

lemma long_not_root: "1 < length p \<Longrightarrow> p @ r \<noteq> [root]"
  by (cases p) auto

lemma siblings_apart:
  assumes "path_within (d @ [a]) q" "path_within (d @ [b]) q"
  shows "a = b"
  using assms by (auto simp: path_within_iff)

lemma node_at_Some_in: "node_at fs q = Some n \<Longrightarrow> q \<noteq> [root] \<Longrightarrow> (q, n) \<in> set (fs_nodes fs)"
  by (simp add: node_at_def map_of_SomeD)

lemma tree_above:
  assumes "tree fs" "node_at fs q = Some n"
  shows "directories_above fs q"
proof (cases "q = [root]")
  case False
  with assms node_at_Some_in [OF assms(2)] show ?thesis unfolding tree_def by blast
qed (simp add: root_directory)

lemma directories_above_prefix:
  assumes "directories_above fs (p @ r)" "r \<noteq> []" "p \<noteq> []"
  shows "node_at fs p = Some Directory" "directories_above fs p"
proof -
  from assms have "length p < length (p @ r)" "0 < length p" by simp_all
  with assms(1) have "node_at fs (take (length p) (p @ r)) = Some Directory"
    unfolding directories_above_def by blast
  then show "node_at fs p = Some Directory" by simp
  show "directories_above fs p"
    unfolding directories_above_def
  proof (intro conjI allI impI)
    fix n assume "n < length p" "0 < n"
    with assms(1) have "node_at fs (take n (p @ r)) = Some Directory"
      unfolding directories_above_def by (metis length_append trans_less_add1)
    with \<open>n < length p\<close> show "node_at fs (take n p) = Some Directory" by simp
  qed (use assms in \<open>auto simp: directories_above_def\<close>)
qed

lemma absent_below:
  assumes "tree fs" "node_at fs p \<noteq> Some Directory" "p \<noteq> []" "path_within p q" "q \<noteq> p"
  shows "node_at fs q = None"
proof (rule ccontr)
  assume "node_at fs q \<noteq> None"
  then obtain n where n: "node_at fs q = Some n" by auto
  obtain r where r: "q = p @ r" "r \<noteq> []" using assms(4,5) by (auto simp: path_within_iff)
  have "directories_above fs q" by (rule tree_above [OF assms(1) n])
  with r assms(2,3) directories_above_prefix(1) show False by blast
qed

section \<open>Writing\<close>

lemma node_at_put:
  "node_at (put_node p n fs) q = (if q = p \<and> p \<noteq> [root] then Some n else node_at fs q)"
proof -
  have "map_of (filter (\<lambda>(q, m). q \<noteq> p) xs) q = (if q = p then None else map_of xs q)" for xs :: "(path \<times> node) list"
    by (induction xs) auto
  then show ?thesis by (simp add: node_at_def put_node_def)
qed

lemma refuses_put [simp]: "fs_refuses (put_node p n fs) = fs_refuses fs"
  by (simp add: put_node_def)

lemma directories_above_mono:
  assumes "directories_above fs q"
    "\<And>p. node_at fs p = Some Directory \<Longrightarrow> path_within p q \<Longrightarrow> p \<noteq> q \<Longrightarrow> node_at fs' p = Some Directory"
  shows "directories_above fs' q"
  unfolding directories_above_def
proof (intro conjI allI impI)
  fix n assume n: "n < length q" "0 < n"
  have "take n q \<noteq> q" using n(1) by (metis length_take min.absorb4 nat_neq_iff)
  moreover have "path_within (take n q) q" by (metis append_take_drop_id path_within_append)
  moreover have "node_at fs (take n q) = Some Directory"
    using assms(1) n unfolding directories_above_def by blast
  ultimately show "node_at fs' (take n q) = Some Directory" using assms(2) by blast
qed (use assms(1) in \<open>auto simp: directories_above_def\<close>)

lemma directories_above_put:
  assumes "directories_above fs q" "node_at fs p \<noteq> Some Directory \<or> n = Directory"
  shows "directories_above (put_node p n fs) q"
  using assms(1) by (rule directories_above_mono) (use assms(2) in \<open>auto simp: node_at_put\<close>)

lemma tree_put:
  assumes "tree fs" "directories_above fs p" "1 < length p" "node_at fs p \<noteq> Some Directory \<or> n = Directory"
  shows "tree (put_node p n fs)"
proof -
  have keys: "map fst (filter (\<lambda>(q, m). q \<noteq> p) xs) = filter (\<lambda>q. q \<noteq> p) (map fst xs)" for xs :: "(path \<times> node) list"
    by (induction xs) auto
  have "distinct (map fst (fs_nodes (put_node p n fs)))"
    using assms(1) by (auto simp: tree_def put_node_def keys)
  moreover have "directories_above (put_node p n fs) q \<and> 1 < length q"
    if "(q, m) \<in> set (fs_nodes (put_node p n fs))" for q m
  proof -
    from that have "q = p \<or> (q, m) \<in> set (fs_nodes fs)" by (auto simp: put_node_def)
    with assms(1-3) have "directories_above fs q" "1 < length q" unfolding tree_def by blast+
    with directories_above_put [OF _ assms(4)] show ?thesis by blast
  qed
  ultimately show ?thesis unfolding tree_def by blast
qed

section \<open>Removing\<close>

lemma map_of_filter_key: "map_of (filter (\<lambda>(q, m). P q) xs) q = (if P q then map_of xs q else None)"
  by (induction xs) auto

lemma node_at_drop:
  "node_at (drop_tree p fs) q = (if q = [root] then Some Directory else if path_within p q then None else node_at fs q)"
  by (simp add: node_at_def drop_tree_def map_of_filter_key)

lemma refuses_drop [simp]: "fs_refuses (drop_tree p fs) = fs_refuses fs"
  by (simp add: drop_tree_def)

lemma path_within_trans: "path_within p q \<Longrightarrow> path_within q r \<Longrightarrow> path_within p r"
  by (auto simp: path_within_iff)

lemma tree_drop:
  assumes "tree fs" "1 < length p"
  shows "tree (drop_tree p fs)"
proof -
  have keys: "distinct (map fst xs) \<Longrightarrow> distinct (map fst (filter P xs))" for xs :: "(path \<times> node) list" and P
    by (induction xs) force+
  have above: "directories_above (drop_tree p fs) q" if "directories_above fs q" "\<not> path_within p q" for q
    using that(1)
  proof (rule directories_above_mono)
    fix q' assume q': "node_at fs q' = Some Directory" "path_within q' q" "q' \<noteq> q"
    then have "\<not> path_within p q'" using that(2) path_within_trans by blast
    with q' show "node_at (drop_tree p fs) q' = Some Directory" by (simp add: node_at_drop)
  qed
  have "distinct (map fst (fs_nodes (drop_tree p fs)))"
    using assms(1) keys by (simp add: tree_def drop_tree_def)
  moreover have "directories_above (drop_tree p fs) q \<and> 1 < length q"
    if "(q, m) \<in> set (fs_nodes (drop_tree p fs))" for q m
  proof -
    from that have "(q, m) \<in> set (fs_nodes fs)" "\<not> path_within p q" by (auto simp: drop_tree_def)
    with assms(1) above show ?thesis unfolding tree_def by blast
  qed
  ultimately show ?thesis unfolding tree_def by blast
qed

section \<open>Renaming\<close>

lemma map_of_rename:
  assumes "\<And>k'. k' \<in> fst ` set xs \<Longrightarrow> f k' = f k \<Longrightarrow> k' = k"
  shows "map_of (map (\<lambda>(k, v). (f k, v)) xs) (f k) = map_of xs k"
  using assms
proof (induction xs)
  case (Cons x xs)
  obtain a b where x: "x = (a, b)" by (cases x)
  have "map_of (map (\<lambda>(k, v). (f k, v)) xs) (f k) = map_of xs k" using Cons by simp
  moreover have "f a = f k \<Longrightarrow> a = k" using Cons.prems by (simp add: x)
  ultimately show ?case by (auto simp: x)
qed simp

lemma node_at_move:
  assumes "\<forall>q. path_within t q \<longrightarrow> node_at fs q = None" "\<not> path_within s t" "\<not> path_within t s"
    and "1 < length s" "1 < length t"
  shows "node_at (move_tree s t fs) q =
    (if path_within t q then node_at fs (s @ drop (length t) q)
     else if path_within s q then None else node_at fs q)"
proof -
  let ?f = "\<lambda>q. if path_within s q then t @ drop (length s) q else q"
  have nodes: "fs_nodes (move_tree s t fs) = map (\<lambda>(q, m). (?f q, m)) (fs_nodes fs)"
    by (simp add: move_tree_def)
  have keys: "\<not> path_within t k" if "k \<in> fst ` set (fs_nodes fs)" for k
  proof
    assume w: "path_within t k"
    then have "k \<noteq> [root]" using assms(5) by (auto simp: path_within_def)
    with w assms(1) have "map_of (fs_nodes fs) k = None" by (metis node_at_def)
    with that show False by (simp add: map_of_eq_None_iff)
  qed
  have apart: "\<not> (path_within s k \<and> path_within t k)" for k
    using assms(2,3) by (auto simp: path_within_iff append_eq_append_conv2)
  show ?thesis
  proof (cases "path_within t q")
    case True
    then obtain r where r: "q = t @ r" by (auto simp: path_within_iff)
    have "map_of (map (\<lambda>(q, m). (?f q, m)) (fs_nodes fs)) (?f (s @ r)) = map_of (fs_nodes fs) (s @ r)"
    proof (rule map_of_rename)
      fix k' assume "k' \<in> fst ` set (fs_nodes fs)" "?f k' = ?f (s @ r)"
      with keys show "k' = s @ r" by (auto simp: path_within_iff split: if_splits)
    qed
    with r long_not_root [OF assms(4)] long_not_root [OF assms(5)] show ?thesis by (simp add: node_at_def nodes)
  next
    case t: False
    show ?thesis
    proof (cases "path_within s q")
      case True
      have "q \<notin> fst ` set (map (\<lambda>(q, m). (?f q, m)) (fs_nodes fs))"
      proof
        assume "q \<in> fst ` set (map (\<lambda>(q, m). (?f q, m)) (fs_nodes fs))"
        then obtain k where k: "?f k = q" by force
        then show False using t True by (cases "path_within s k") auto
      qed
      moreover have "q \<noteq> [root]" using True assms(4) by (auto simp: path_within_def)
      ultimately show ?thesis using t True by (simp add: node_at_def nodes map_of_eq_None_iff)
    next
      case False
      have "map_of (map (\<lambda>(q, m). (?f q, m)) (fs_nodes fs)) (?f q) = map_of (fs_nodes fs) q"
      proof (rule map_of_rename)
        fix k' assume "?f k' = ?f q"
        with False t show "k' = q" by (auto split: if_splits)
      qed
      with False t show ?thesis by (simp add: node_at_def nodes)
    qed
  qed
qed

lemma refuses_move [simp]: "fs_refuses (move_tree s t fs) = fs_refuses fs"
  by (simp add: move_tree_def)

end
