(* ===== verification/Image_Delivery.thy ===== *)
theory Image_Delivery
  imports Api_Safety Agent_Executor
begin

text \<open>
  From the claim of a job to the image on the agent's disk: what a granted claim
  says about the job, the disk and the image, that the lease it grants is
  accepted by the routes that need one, and that a Ghost image arrives as the
  set of files the service holds.  The service's side is \<open>control_plane.rs\<close>,
  the agent's \<open>deployment.rs\<close>.
\<close>

section \<open>Granted claims\<close>

lemma lease_message_Ok:
  assumes "lease_message sv d j = Ok l"
  obtains target img where
    "\<exists>ts. job_targets j = target # ts" "sv_image sv (job_image_id j) = Some img"
    "job_lease_id j = Some (ajl_lease_id l)" "job_lease_expires_at j = Some (ajl_expires_at l)"
    "ajl_job_id l = job_id j" "ajl_operation l = job_operation j" "ajl_target l = target"
    "ajl_partition_plan l = opt_partition_plan (job_options j)"
    "adi_id (ajl_image l) = img_id img" "adi_format (ajl_image l) = img_format img"
    "adi_index (ajl_image l) = opt_image_index (job_options j)"
    "job_operation j \<noteq> Deploy_Gho \<Longrightarrow> ajl_gho l = None \<and> img_sha256 img = Some (adi_sha256 (ajl_image l)) \<and>
       adi_size_bytes (ajl_image l) = img_size_bytes img"
    "job_operation j = Deploy_Gho \<Longrightarrow>
       gho_download sv j = Ok (ajl_gho l, adi_size_bytes (ajl_image l), adi_sha256 (ajl_image l))"
proof -
  obtain target img gho size sha where
    t: "\<exists>ts. job_targets j = target # ts" "sv_image sv (job_image_id j) = Some img" and
    e: "(if job_operation j = Deploy_Gho then gho_download sv j
        else map_ok (\<lambda>sha. (None, img_size_bytes img, sha))
          (ok_or (img_sha256 img) (Api_Conflict ''deployment image has no checksum''))) = Ok (gho, size, sha)" and
    l: "job_lease_id j = Some (ajl_lease_id l)" "job_lease_expires_at j = Some (ajl_expires_at l)"
    "ajl_job_id l = job_id j" "ajl_operation l = job_operation j" "ajl_target l = target"
    "ajl_partition_plan l = opt_partition_plan (job_options j)"
    "adi_id (ajl_image l) = img_id img" "adi_format (ajl_image l) = img_format img"
    "adi_index (ajl_image l) = opt_image_index (job_options j)"
    "ajl_gho l = gho" "adi_size_bytes (ajl_image l) = size" "adi_sha256 (ajl_image l) = sha"
    using assms
    by (auto simp: lease_message_def and_then_Ok_iff ok_or_iffs Let_def split: list.splits)
  show thesis
    by (rule that [OF t l(1-9)]) (use e l(10-12) in \<open>auto simp: outcome_simps\<close>)
qed

text \<open>A granted claim, taken apart.\<close>

lemma claim_granted:
  assumes "claim_job sv device header between e st = (Ok (Some l), st')"
  obtains d snapshot r j jobs where
    "authenticated_device sv device header st = Ok d" "device_entry d (re_clock e 0) st = Some snapshot"
    "find (record_of d) (dr_devices (ind_registry (api_installer (between st)))) = Some r"
    "lease_for_device_if d (minutes job_lease_minutes)
       (\<lambda>j. job_id j \<in> set (eligible_job_ids sv d (rd_device snapshot) (re_clock e 1) st) \<and>
          deploys_windows j \<and> targets_disk_of d (rec_device r) j)
       (env_fresh (se_jobs (re_session e))) (env_clock (se_jobs (re_session e)))
       (env_write (se_jobs (re_session e))) (ind_jobs (api_installer (between st))) = (Ok (Some j), jobs)"
    "lease_message sv d j = Ok l"
    "api_installer st' = api_installer (between st) \<lparr> ind_jobs := jobs \<rparr>"
proof -
  obtain d snapshot where d: "authenticated_device sv device header st = Ok d"
      "device_entry d (re_clock e 0) st = Some snapshot"
    and k: "then_do (lease_claimed d (eligible_job_ids sv d (rd_device snapshot) (re_clock e 1) st) e (between st))
      (\<lambda>r st. case r of None \<Rightarrow> (Ok None, st)
        | Some j \<Rightarrow> (map_ok Some (lease_message sv d j),
            record_job_activity j ''job_started'' Sev_Info None e st)) = (Ok (Some l), st')"
    using assms
    by (auto simp: claim_job_def then_do_Ok outcome_simps Let_def split: if_splits)
  then obtain j st1 where j: "lease_claimed d (eligible_job_ids sv d (rd_device snapshot) (re_clock e 1) st) e (between st)
      = (Ok (Some j), st1)" "lease_message sv d j = Ok l"
      "st' = record_job_activity j ''job_started'' Sev_Info None e st1"
    by (auto simp: then_do_Ok outcome_simps split: option.splits)
  show thesis
  proof (cases "find (record_of d) (dr_devices (ind_registry (api_installer (between st))))")
    case None
    with j(1) show thesis by (simp add: lease_claimed_def with_current_def Let_def)
  next
    case (Some r)
    with j that [OF d Some _ j(2)] show thesis
      by (auto simp: lease_claimed_def with_current_def Let_def on_jobs_def outcome_simps split: prod.splits)
  qed
qed

lemma eligible_job:
  "i \<in> set (eligible_job_ids sv d dev now st) \<Longrightarrow>
     \<exists>j \<in> set (jr_jobs (ind_jobs (api_installer st))). job_id j = i \<and> image_validated sv j \<and>
       claim_candidate d dev now j"
  by (auto simp: eligible_job_ids_def list_jobs_def)

text \<open>
  C1.  A claim is granted only to the device whose token it carries, on a
  waiting Windows job of its own, or a running one whose lease has expired,
  whose image the service validated for it; and the target disk is in the
  inventory the device has at the moment of the lease, whatever the other
  requests did while the image was validated.
\<close>

theorem claim_is_current_and_validated:
  assumes "jobs_inv (jr_jobs (ind_jobs (api_installer (between st))))"
    and "claim_job sv device header between e st = (Ok (Some l), st')"
  defines "now \<equiv> env_clock (se_jobs (re_session e)) 0"
  shows "\<exists>d r disk j j0. authenticated_device sv device header st = Ok d \<and>
    find (record_of d) (dr_devices (ind_registry (api_installer (between st)))) = Some r \<and>
    disk \<in> set (dev_disks (rec_device r)) \<and> matches_disk (ajl_target l) disk \<and>
    job_at (ind_jobs (api_installer (between st))) (ajl_job_id l) = Some j \<and>
    job_operation j \<in> {Deploy_Wim, Deploy_Gho} \<and> job_targets j = [ajl_target l] \<and>
    tgt_device_id (ajl_target l) = d \<and>
    (job_state j = Waiting \<or>
     job_state j = Running \<and> (\<exists>x. job_lease_expires_at j = Some x \<and> x < now)) \<and>
    j0 \<in> set (jr_jobs (ind_jobs (api_installer st))) \<and> job_id j0 = ajl_job_id l \<and> image_validated sv j0 \<and>
    ajl_expires_at l = now + minutes 120"
proof -
  obtain d snapshot r j' jobs where
    auth: "authenticated_device sv device header st = Ok d" "device_entry d (re_clock e 0) st = Some snapshot" and
    r: "find (record_of d) (dr_devices (ind_registry (api_installer (between st)))) = Some r" and
    l: "lease_for_device_if d (minutes job_lease_minutes)
       (\<lambda>j. job_id j \<in> set (eligible_job_ids sv d (rd_device snapshot) (re_clock e 1) st) \<and>
          deploys_windows j \<and> targets_disk_of d (rec_device r) j)
       (env_fresh (se_jobs (re_session e))) (env_clock (se_jobs (re_session e)))
       (env_write (se_jobs (re_session e))) (ind_jobs (api_installer (between st))) = (Ok (Some j'), jobs)" and
    m: "lease_message sv d j' = Ok l" and "api_installer st' = api_installer (between st) \<lparr> ind_jobs := jobs \<rparr>"
    by (rule claim_granted [OF assms(2)]) (rule that)
  note d = auth(1) r
  obtain j where
    at: "job_at (ind_jobs (api_installer (between st))) (job_id j') = Some j" and
    el: "agent_eligible d now
       (\<lambda>j. job_id j \<in> set (eligible_job_ids sv d (rd_device snapshot) (re_clock e 1) st) \<and>
          deploys_windows j \<and> targets_disk_of d (rec_device r) j) j" and
    j': "job_id j' = job_id j" "job_lease_expires_at j' = Some (now + minutes job_lease_minutes)"
      "job_targets j' = job_targets j"
    by (rule lease_granted [OF assms(1) l]) (rule that, simp_all add: now_def)
  obtain target where
    t: "\<exists>ts. job_targets j' = target # ts" "job_lease_expires_at j' = Some (ajl_expires_at l)"
      "ajl_job_id l = job_id j'" "ajl_target l = target"
    by (rule lease_message_Ok [OF m]) (rule that)
  obtain j0 where j0: "j0 \<in> set (jr_jobs (ind_jobs (api_installer st)))" "job_id j0 = job_id j" "image_validated sv j0"
    using el eligible_job [of "job_id j"] unfolding agent_eligible_def by blast
  have ts: "job_targets j = [ajl_target l]" "tgt_device_id (ajl_target l) = d"
    using el t(1,4) by (auto simp: agent_eligible_def j'(3))
  obtain disk where disk: "disk \<in> set (dev_disks (rec_device r))" "matches_disk (ajl_target l) disk"
    using el ts(1) by (auto simp: agent_eligible_def targets_disk_of_def list_ex_iff)
  have "job_state j = Waiting \<or>
      job_state j = Running \<and> (\<exists>x. job_lease_expires_at j = Some x \<and> x < now)"
    using el by (cases "job_lease_expires_at j") (simp_all add: agent_eligible_def)
  moreover have "job_operation j \<in> {Deploy_Wim, Deploy_Gho}"
    using el by (simp add: agent_eligible_def deploys_windows_def)
  ultimately show ?thesis
    using d at disk ts j0 t(2,3) j'(1,2)
    by (intro exI [of _ d] exI [of _ r] exI [of _ disk] exI [of _ j] exI [of _ j0]) (simp add: job_lease_minutes_def)
qed

section \<open>The lease of a claim\<close>

lemma claimed_job:
  assumes "jobs_inv (jr_jobs (ind_jobs (api_installer (between st))))"
    and "claim_job sv device header between e st = (Ok (Some l), st')"
  obtains d j where "authenticated_device sv device header st = Ok d"
    "job_at (ind_jobs (api_installer st')) (ajl_job_id l) = Some j"
    "\<And>now. now \<le> ajl_expires_at l \<Longrightarrow> agent_guard d (ajl_lease_id l) now j = Ok ()"
    "job_state j = Running" "job_lease_id j = Some (ajl_lease_id l)" "job_operation j \<noteq> Install_Linux"
    "targets_device j d" "ind_registry (api_installer st') = ind_registry (api_installer (between st))"
proof -
  obtain d snapshot r j' jobs where
    d: "authenticated_device sv device header st = Ok d" "device_entry d (re_clock e 0) st = Some snapshot"
      "find (record_of d) (dr_devices (ind_registry (api_installer (between st)))) = Some r" and
    l: "lease_for_device_if d (minutes job_lease_minutes)
       (\<lambda>j. job_id j \<in> set (eligible_job_ids sv d (rd_device snapshot) (re_clock e 1) st) \<and>
          deploys_windows j \<and> targets_disk_of d (rec_device r) j)
       (env_fresh (se_jobs (re_session e))) (env_clock (se_jobs (re_session e)))
       (env_write (se_jobs (re_session e))) (ind_jobs (api_installer (between st))) = (Ok (Some j'), jobs)" and
    m: "lease_message sv d j' = Ok l" and st': "api_installer st' = api_installer (between st) \<lparr> ind_jobs := jobs \<rparr>"
    by (rule claim_granted [OF assms(2)]) (rule that)
  obtain j where el: "targets_disk_of d (rec_device r) j" "job_operation j \<noteq> Install_Linux" and
    j': "job_at jobs (job_id j') = Some j'" "job_operation j' = job_operation j" "job_targets j' = job_targets j"
      "job_state j' = Running"
    by (rule lease_granted [OF assms(1) l]) (rule that, simp_all add: agent_eligible_def)
  obtain target where
    t: "job_lease_id j' = Some (ajl_lease_id l)" "job_lease_expires_at j' = Some (ajl_expires_at l)"
      "ajl_job_id l = job_id j'"
    by (rule lease_message_Ok [OF m]) (rule that)
  have dev: "targets_device j' d"
    using el(1) j'(3) by (cases "job_targets j") (auto simp: targets_disk_of_def targets_device_def)
  have "agent_guard d (ajl_lease_id l) now j' = Ok ()" if "now \<le> ajl_expires_at l" for now
    using that el(2) j' t dev by (simp add: agent_guard_def lease_expired_def)
  with d(1) j' t dev el(2) st' show thesis by (intro that [of d j']) simp_all
qed

lemma commit_written: "commit_jobs Written repo next v = (Ok v, snd (commit_jobs Written repo next v))"
  by (simp add: commit_jobs_def)

lemma leased_update_accepted:
  assumes "job_at repo i = Some j" "agent_guard d lease now j = Ok ()" "f j = Ok j'"
  shows "\<exists>j'' repo'. update_leased_job i d lease f now later Written repo = (Ok j'', repo')"
  using assms
  by (simp add: update_leased_job_def modify_job_def job_at_def commit_jobs_def)

lemma image_body_refused: "image_body sv j img = Err x \<Longrightarrow> api_status x = 404 \<or> api_status x = 422"
proof -
  have spans: "sent_spans sv fs = Err y \<Longrightarrow> y = Api_Not_Found" for fs y
    by (induction fs) (auto simp: outcome_simps)
  show "image_body sv j img = Err x \<Longrightarrow> api_status x = 404 \<or> api_status x = 422"
    by (auto simp: image_body_def outcome_simps dest: spans split: if_splits)
qed

text \<open>
  The lease of a granted claim works: until it expires, and as long as the
  device keeps its token and the manifest can be written, the routes accept it
  from that device - progress up to 100 percent, a completion either way, and
  the control state, which is running; and a download is not refused for want
  of authorisation.
\<close>

theorem claimed_lease_is_accepted:
  assumes "jobs_inv (jr_jobs (ind_jobs (api_installer (between st))))"
    and "claim_job sv device header between e st = (Ok (Some l), st')"
    and "ind_registry (api_installer (between st)) = ind_registry (api_installer st)"
    and "sv_parse_uuid sv segment = Some (ajl_job_id l)"
    and "env_write (se_jobs (re_session e')) = Written"
    and "env_clock (se_jobs (re_session e')) 0 \<le> ajl_expires_at l"
    and "env_clock (se_jobs (re_session e')) 1 \<le> ajl_expires_at l"
    and "ajp_lease_id p = ajl_lease_id l" "ajp_progress_percent p \<le> 100" "ajc_lease_id c = ajl_lease_id l"
  shows "fst (report_job_progress sv device segment header p e' st') = Ok () \<and>
    fst (post_complete sv device segment header c e' st') = Ok () \<and>
    fst (job_control_state sv device segment (ajl_lease_id l) header e' st') = Ok Running \<and>
    (\<forall>x. download_job_image sv device segment (ajl_lease_id l) header e' st' = Err x \<longrightarrow> api_status x \<in> {404, 422})"
proof -
  obtain d j where d: "authenticated_device sv device header st = Ok d"
    and j: "job_at (ind_jobs (api_installer st')) (ajl_job_id l) = Some j"
      "\<And>now. now \<le> ajl_expires_at l \<Longrightarrow> agent_guard d (ajl_lease_id l) now j = Ok ()"
      "job_state j = Running" "job_lease_id j = Some (ajl_lease_id l)" "job_operation j \<noteq> Install_Linux"
      "targets_device j d" and reg: "ind_registry (api_installer st') = ind_registry (api_installer (between st))"
    by (rule claimed_job [OF assms(1,2)]) (rule that)
  have a: "job_of_device sv device segment header st' = Ok (d, ajl_job_id l)"
    using d assms(3,4) reg by (simp add: job_of_device_def authenticated_device_def)
  let ?je = "se_jobs (re_session e')"
  have "\<not> 100 < ajp_progress_percent p" using assms(9) by (simp add: not_less)
  then have "\<exists>j'' repo'. report_progress (ajl_job_id l) d (minutes job_lease_minutes) p (env_clock ?je) Written
      (ind_jobs (api_installer st')) = (Ok j'', repo')"
    unfolding report_progress_def Let_def assms(8)
    by (simp only: if_False) (rule leased_update_accepted [OF j(1) j(2) [OF assms(7)] refl])
  then obtain j1 repo1 where "report_progress (ajl_job_id l) d (minutes job_lease_minutes) p (env_clock ?je) Written
      (ind_jobs (api_installer st')) = (Ok j1, repo1)" by blast
  then have "fst (report_job_progress sv device segment header p e' st') = Ok ()"
    by (simp add: report_job_progress_def a Let_def on_jobs_def assms(5))
  moreover have "\<exists>j'. apply_completion (ajc_succeeded c) (ajc_error_message c) j = Ok j'"
    using j(3) by (auto simp: apply_completion_def outcome_simps allowed_cases Let_def)
  then have "\<exists>j'' repo'. complete_job (ajl_job_id l) d (ajl_lease_id l) (ajc_succeeded c) (ajc_error_message c)
      (env_clock ?je) Written (ind_jobs (api_installer st')) = (Ok j'', repo')"
    using leased_update_accepted [OF j(1) j(2) [OF assms(6)]] by (auto simp: complete_job_def)
  then obtain j2 repo2 where "complete_job (ajl_job_id l) d (ajl_lease_id l) (ajc_succeeded c) (ajc_error_message c)
      (env_clock ?je) Written (ind_jobs (api_installer st')) = (Ok j2, repo2)" by blast
  then have "fst (post_complete sv device segment header c e' st') = Ok ()"
    by (simp add: post_complete_def a Let_def on_jobs_def assms(5,10))
  moreover have "fst (renew_control_lease (ajl_job_id l) d (ajl_lease_id l) (minutes job_lease_minutes)
      (env_clock ?je) Written (ind_jobs (api_installer st'))) = Ok Running"
    using j(1,3-6) by (simp add: renew_control_lease_def job_at_def commit_jobs_def Let_def)
  then have "fst (job_control_state sv device segment (ajl_lease_id l) header e' st') = Ok Running"
    by (auto simp: job_control_state_def a Let_def on_jobs_def assms(5) split: prod.split)
  moreover have "authorized_lease (ajl_job_id l) d (ajl_lease_id l) (env_clock ?je 0)
      (ind_jobs (api_installer st')) = Ok j"
    using j(1) j(2) [OF assms(6)] by (simp add: authorized_lease_def job_at_def)
  then have "\<forall>x. download_job_image sv device segment (ajl_lease_id l) header e' st' = Err x \<longrightarrow>
      api_status x \<in> {404, 422}"
    by (auto simp: download_job_image_def a outcome_simps dest: image_body_refused)
  ultimately show ?thesis by blast
qed

section \<open>The image on its way\<close>

lemma sent_spans_read:
  assumes "list_all2 (\<lambda>f file. sv_read sv (pgf_canonical_path f) = Some file) fs files"
  shows "sent_spans sv fs = Ok (concat (map (drop 512) files))"
  using assms by (induction rule: list_all2_induct) simp_all

lemma download_is_joined:
  assumes "download_job_image sv device segment lease header e st = Ok r"
    and "authorized_lease i d lease (env_clock (se_jobs (re_session e)) 0) (ind_jobs (api_installer st)) = Ok j"
    and "job_of_device sv device segment header st = Ok (d, i)" "job_operation j = Deploy_Gho"
    and "sv_prepare_gho sv (job_image_id j) (opt_image_index (job_options j)) = Ok p"
    and "list_all2 (\<lambda>f file. sv_read sv (pgf_canonical_path f) = Some file)
      (pgs_primary (pgd_image p) # pgs_spans (pgd_image p)) files"
  shows "ir_body r = joined files \<and> ir_content_length r = pgd_download_size_bytes p"
proof -
  obtain primary rest where files: "files = primary # rest"
    and read: "sv_read sv (pgf_canonical_path (pgs_primary (pgd_image p))) = Some primary"
      "list_all2 (\<lambda>f file. sv_read sv (pgf_canonical_path f) = Some file) (pgs_spans (pgd_image p)) rest"
    using assms(6) by (cases files) auto
  show ?thesis
    using assms(1-5) read(1) sent_spans_read [OF read(2)]
    by (auto simp: download_job_image_def outcome_simps image_body_def files joined_def span_bodies_def
        header_size_def)
qed

text \<open>
  A Ghost image arrives as the service holds it: what the agent restores
  from the one stream it downloads is what the decoder gives for the set of
  files the image library prepared, bytes and errors alike.
\<close>

theorem downloaded_image_restores_as_set:
  assumes "download_job_image sv device segment lease header e st = Ok r"
    and "authorized_lease i d lease (env_clock (se_jobs (re_session e)) 0) (ind_jobs (api_installer st)) = Ok j"
    and "job_of_device sv device segment header st = Ok (d, i)" "job_operation j = Deploy_Gho"
    and "sv_prepare_gho sv (job_image_id j) (opt_image_index (job_options j)) = Ok p"
    and "list_all2 (\<lambda>f file. sv_read sv (pgf_canonical_path f) = Some file)
      (pgs_primary (pgd_image p) # pgs_spans (pgd_image p)) files"
    and "opened_spans (granted, files)" "addressable (joined files)"
  shows "restore_gho_partition digest inflate (file_reader (ir_body r)) meta =
    restore_gho_partition digest inflate (source_of_spans (granted, files)) meta"
  using download_is_joined [OF assms(1-6)] span_files.decoding_agrees [of "(granted, files)" inflate] assms(7,8)
  by (simp add: restore_gho_partition_def)

section \<open>A claim and a download\<close>

lemma sample_api_jobs: "ind_jobs (api_installer (sample_api jobs)) = jobs"
  by (simp add: sample_api_def)

lemma sample_claim_inv: "jobs_inv (jr_jobs (ind_jobs (api_installer (sample_api (waiting_repository sample_windows_request)))))"
  by (simp add: sample_api_jobs sample_invariants)

theorem claim_is_current_and_validated_witness:
  "\<exists>l st' j. claim_job sample_services ''7'' (Some ''Bearer t'') id (sample_request_env 10)
      (sample_api (waiting_repository sample_windows_request)) = (Ok (Some l), st') \<and>
    job_at (waiting_repository sample_windows_request) (ajl_job_id l) = Some j \<and>
    job_targets j = [ajl_target l] \<and> tgt_device_id (ajl_target l) = 7"
proof -
  obtain l st' where c: "claim_job sample_services ''7'' (Some ''Bearer t'') id (sample_request_env 10)
      (sample_api (waiting_repository sample_windows_request)) = (Ok (Some l), st')"
    using sample_claim by blast
  have "jobs_inv (jr_jobs (ind_jobs (api_installer (id (sample_api (waiting_repository sample_windows_request))))))"
    by (simp add: sample_claim_inv)
  from claim_is_current_and_validated [OF this c] obtain d j where
    "authenticated_device sample_services ''7'' (Some ''Bearer t'')
      (sample_api (waiting_repository sample_windows_request)) = Ok d"
    "job_at (ind_jobs (api_installer (sample_api (waiting_repository sample_windows_request)))) (ajl_job_id l) = Some j"
    "job_targets j = [ajl_target l]" "tgt_device_id (ajl_target l) = d" by auto
  with c show ?thesis by (auto simp: sample_authenticates sample_api_jobs)
qed

theorem claimed_lease_is_accepted_witness:
  "\<exists>l st'. claim_job sample_services ''7'' (Some ''Bearer t'') id (sample_request_env 10)
      (sample_api (waiting_repository sample_windows_request)) = (Ok (Some l), st') \<and>
    fst (report_job_progress sample_services ''7'' ''5'' (Some ''Bearer t'')
      \<lparr> ajp_lease_id = 9, ajp_stage = Applying_Image, ajp_progress_percent = 50, ajp_message = None \<rparr>
      (sample_request_env 20) st') = Ok ()"
proof -
  obtain l st' where c: "claim_job sample_services ''7'' (Some ''Bearer t'') id (sample_request_env 10)
      (sample_api (waiting_repository sample_windows_request)) = (Ok (Some l), st')"
    and l: "ajl_job_id l = 5" "ajl_lease_id l = 9" "ajl_expires_at l = 10 + minutes 120"
    using sample_claim by blast
  have i: "jobs_inv (jr_jobs (ind_jobs (api_installer (id (sample_api (waiting_repository sample_windows_request))))))"
    by (simp add: sample_claim_inv)
  have "fst (report_job_progress sample_services ''7'' ''5'' (Some ''Bearer t'')
      \<lparr> ajp_lease_id = 9, ajp_stage = Applying_Image, ajp_progress_percent = 50, ajp_message = None \<rparr>
      (sample_request_env 20) st') = Ok ()"
    by (rule claimed_lease_is_accepted [OF i c, where
          c = "\<lparr> ajc_lease_id = 9, ajc_succeeded = True, ajc_error_message = None \<rparr>", THEN conjunct1])
      (simp_all add: l sample_services_def sample_request_env_def sample_session_env_def sample_env_def minutes_def)
  with c show ?thesis by blast
qed

definition claimed_gho_job :: deployment_job where
  "claimed_gho_job = claimed_windows_job \<lparr> job_operation := Deploy_Gho \<rparr>"

definition sample_gho_file :: "string \<Rightarrow> prepared_gho_image_file" where
  "sample_gho_file path = \<lparr> pgf_basename = path, pgf_canonical_path = path, pgf_size_bytes = 0, pgf_sha256 = [] \<rparr>"

definition sample_prepared_gho :: prepared_gho_deployment where
  "sample_prepared_gho = \<lparr> pgd_image = \<lparr> pgs_artifact_id = 3, pgs_primary = sample_gho_file ''0'',
       pgs_spans = [sample_gho_file ''1'', sample_gho_file ''2''], pgs_total_size_bytes = 0, pgs_image_set_sha256 = [] \<rparr>,
     pgd_capability = \<lparr> gic_deployable = True, gic_compression = None, gic_expanded_size_bytes = Some 4,
       gic_expanded_sha256 = Some ''c'', gic_partition_count = Some 1, gic_source_partition = Some 1,
       gic_partitions = [], gic_parser_version = 3, gic_blocked_reason = None \<rparr>,
     pgd_download_size_bytes = 527, pgd_download_sha256 = ''d'' \<rparr>"

definition gho_services :: services where
  "gho_services = sample_services \<lparr> sv_prepare_gho := (\<lambda>i n. Ok sample_prepared_gho),
     sv_read := (\<lambda>p. Some (sample_spans ! (if p = ''0'' then 0 else if p = ''1'' then 1 else 2))) \<rparr>"

definition gho_api :: api_state where
  "gho_api = sample_api \<lparr> jr_manifest = Absent, jr_jobs = [claimed_gho_job] \<rparr>"

lemma sample_download:
  "job_of_device gho_services ''7'' ''5'' (Some ''Bearer t'') gho_api = Ok (7, 5)"
  "authorized_lease 5 7 9 20 (ind_jobs (api_installer gho_api)) = Ok claimed_gho_job"
proof -
  have "authenticated_device gho_services ''7'' (Some ''Bearer t'') gho_api = Ok 7"
    using sample_authenticates [of "\<lparr> jr_manifest = Absent, jr_jobs = [claimed_gho_job] \<rparr>"]
    by (simp add: authenticated_device_def gho_services_def gho_api_def sv_digest_def)
  then show "job_of_device gho_services ''7'' ''5'' (Some ''Bearer t'') gho_api = Ok (7, 5)"
    by (simp add: job_of_device_def gho_services_def sample_services_def)
  show "authorized_lease 5 7 9 20 (ind_jobs (api_installer gho_api)) = Ok claimed_gho_job"
    by (simp add: authorized_lease_def gho_api_def sample_api_def claimed_gho_job_def claimed_windows_job_def
        agent_guard_def targets_device_def lease_expired_def minutes_def)
qed

theorem downloaded_image_restores_as_set_witness:
  "\<exists>r. download_job_image gho_services ''7'' ''5'' 9 (Some ''Bearer t'') (sample_request_env 20) gho_api = Ok r \<and>
     restore_gho_partition (\<lambda>bs. ''c'') no_inflater (file_reader (ir_body r))
       \<lparr> agd_source_partition = 1, agd_expanded_size_bytes = 4, agd_expanded_sha256 = ''c'', agd_parser_version = 3 \<rparr> =
     restore_gho_partition (\<lambda>bs. ''c'') no_inflater (source_of_spans (\<lambda>i off n. 1, sample_spans))
       \<lparr> agd_source_partition = 1, agd_expanded_size_bytes = 4, agd_expanded_sha256 = ''c'', agd_parser_version = 3 \<rparr>"
proof -
  have e: "env_clock (se_jobs (re_session (sample_request_env 20))) 0 = 20"
    by (simp add: sample_request_env_def sample_session_env_def sample_env_def)
  have auth: "authorized_lease 5 7 9 (env_clock (se_jobs (re_session (sample_request_env 20))) 0)
      (ind_jobs (api_installer gho_api)) = Ok claimed_gho_job"
    unfolding e by (rule sample_download(2))
  have p: "sv_prepare_gho gho_services i n = Ok sample_prepared_gho" for i n by (simp add: gho_services_def)
  have read: "list_all2 (\<lambda>f file. sv_read gho_services (pgf_canonical_path f) = Some file)
      (pgs_primary (pgd_image sample_prepared_gho) # pgs_spans (pgd_image sample_prepared_gho)) sample_spans"
    by (simp add: gho_services_def sample_prepared_gho_def sample_gho_file_def sample_spans_def)
  obtain r where r: "download_job_image gho_services ''7'' ''5'' 9 (Some ''Bearer t'') (sample_request_env 20) gho_api = Ok r"
    by (simp add: download_job_image_def sample_download e image_body_def p)
      (simp add: claimed_gho_job_def gho_services_def sample_services_def sample_prepared_gho_def sample_gho_file_def)
  show ?thesis
    using downloaded_image_restores_as_set [OF r auth sample_download(1) _ p read
        sample_spans_open(2) sample_span_image(1)] r
    by (auto simp: claimed_gho_job_def)
qed

end
