(* ===== verification/Image_Preparation.thy ===== *)
theory Image_Preparation
  imports Image_Library File_Tree Image_Delivery
begin

text \<open>
  What the image library hands out is what it verified: the files of a prepared
  Ghost image lie in the image's own directory, are regular files with the
  recorded digest, and the partition announced to the agent is the one the
  agent's decoder restores from them.
\<close>

section \<open>Decoding under another limit\<close>

lemma write_block_limit:
  "write_block limit st out = Ok st' \<Longrightarrow>
     fst st \<le> fst st' \<and> (fst st' \<le> limit' \<longrightarrow> write_block limit' st out = Ok st')"
  by (cases st) (auto simp: write_block_def copy_into_def outcome_simps split: if_splits)

lemma decode_span_limit:
  "decode_span inflate rd c limit end' offset st = Ok st' \<Longrightarrow>
     fst st \<le> fst st' \<and> (fst st' \<le> limit' \<longrightarrow> decode_span inflate rd c limit' end' offset st = Ok st')"
proof (induction inflate rd c limit end' offset st rule: decode_span.induct)
  case (1 inflate rd c limit end' offset st)
  note eq = decode_span.simps [of _ _ _ _ end' offset]
  show ?case
  proof (cases "offset + 2 \<ge> 2 ^ 64 \<or> end' < offset + 2")
    case True
    with "1.prems" show ?thesis by (auto simp: eq)
  next
    case False
    consider "decode_block inflate rd c end' offset = Ok None"
      | nxt out st1 where "decode_block inflate rd c end' offset = Ok (Some (nxt, out))"
        "write_block limit st out = Ok st1" "decode_span inflate rd c limit end' nxt st1 = Ok st'"
      using "1.prems" False by (subst (asm) eq) (auto split: outcome.splits option.splits)
    then show ?thesis
    proof cases
      case 1
      with "1.prems" False show ?thesis by (auto simp: eq)
    next
      case 2
      note first = write_block_limit [OF 2(2), of limit'] and rest = "1.IH" [OF False 2(1) refl refl 2(2,3)]
      from first rest 2(1) False show ?thesis by (auto simp: eq)
    qed
  qed
qed

lemma decode_spans_limit:
  "decode_spans inflate rd c limit spans st = Ok st' \<Longrightarrow>
     fst st \<le> fst st' \<and> (fst st' \<le> limit' \<longrightarrow> decode_spans inflate rd c limit' spans st = Ok st')"
proof (induction spans arbitrary: st)
  case (Cons s spans)
  obtain start end' where s: "s = (start, end')" by (cases s)
  from Cons.prems obtain m where m: "decode_span inflate rd c limit end' start st = Ok m"
    "decode_spans inflate rd c limit spans m = Ok st'" by (auto simp: s outcome_simps)
  note first = decode_span_limit [OF m(1), of limit'] and rest = Cons.IH [OF m(2)]
  from first rest show ?case by (auto simp: s outcome_simps)
qed simp

lemma decode_partition_limit:
  assumes "decode_partition inflate rd n limit = Ok (info, tot, written)" "tot \<le> limit'"
  shows "decode_partition inflate rd n limit' = Ok (info, tot, written)"
proof -
  obtain parts where p: "parse_image rd = Ok (parts, info)"
    "\<not> (n = 0 \<or> n > ii_partition_count info)" "\<not> n - 1 \<ge> length parts"
    and d: "decode_spans inflate rd (ii_compression info) limit (parts ! (n - 1)) (0, []) = Ok (tot, written)"
    using assms(1) by (auto simp: decode_partition_def outcome_simps split: if_splits)
  from decode_spans_limit [OF d, of limit'] assms(2) p show ?thesis by (simp add: decode_partition_def)
qed

section \<open>Analysed partitions\<close>

lemma analyse_partitions_Ok:
  assumes "analyse_partitions w rd ns = Ok ps" "p \<in> set ps"
  shows "\<exists>n info tot written. n \<in> set ns \<and> gpc_source_partition p = word_of_nat n \<and>
    decode_partition (lw_inflate w) rd n max_gho_expanded_bytes = Ok (info, tot, written) \<and>
    gpc_expanded_size_bytes p = word_of_nat tot \<and> gpc_expanded_sha256 p = lw_digest w written"
  using assms
proof (induction ns arbitrary: ps)
  case (Cons m ns)
  from Cons.prems(1) obtain info tot written rest where
    m: "decode_partition (lw_inflate w) rd m max_gho_expanded_bytes = Ok (info, tot, written)"
      "analyse_partitions w rd ns = Ok rest"
    and ps: "ps = (if is_ntfs written then \<lparr> gpc_source_partition = word_of_nat m, gpc_file_system = ''ntfs'',
       gpc_expanded_size_bytes = word_of_nat tot, gpc_expanded_sha256 = lw_digest w written \<rparr> # rest else rest)"
    by (auto simp: outcome_simps)
  show ?case
  proof (cases "p \<in> set rest")
    case True
    with Cons.IH [OF m(2)] show ?thesis by (meson list.set_intros(2))
  next
    case False
    with ps Cons.prems(2) have "p = \<lparr> gpc_source_partition = word_of_nat m, gpc_file_system = ''ntfs'',
       gpc_expanded_size_bytes = word_of_nat tot, gpc_expanded_sha256 = lw_digest w written \<rparr>"
      by (auto split: if_splits)
    with m(1) show ?thesis by (intro exI [of _ m]) auto
  qed
qed simp

lemma analysed_gho:
  assumes "analyse_gho w files = Ok c" "p \<in> set (gic_partitions c)"
  shows "is_ok (span_new files)" "gic_parser_version c = gho_parser_version"
    "\<exists>n info tot written. gpc_source_partition p = word_of_nat n \<and> n < 2 ^ 32 \<and>
      decode_partition (lw_inflate w) (source_of_spans (lw_granted w, files)) n max_gho_expanded_bytes =
        Ok (info, tot, written) \<and>
      gpc_expanded_size_bytes p = word_of_nat tot \<and> gpc_expanded_sha256 p = lw_digest w written"
proof -
  let ?rd = "source_of_spans (lw_granted w, files)"
  from assms(1) obtain sr info ps where sr: "span_new files = Ok sr"
    and info: "inspect_image (span_source (lw_granted w) sr) = Ok info"
    and ps: "analyse_partitions w (span_source (lw_granted w) sr) [1..<Suc (ii_partition_count info)] = Ok ps"
    and c: "c = deployable_gho info ps"
    by (auto simp: analyse_gho_def outcome_simps Let_def)
  have rd: "span_source (lw_granted w) sr = ?rd" by (simp add: source_of_spans_def sr)
  show "is_ok (span_new files)" by (simp add: sr)
  show "gic_parser_version c = gho_parser_version"
    by (simp add: c deployable_gho_def blocked_gho_def split: list.split)
  have p: "p \<in> set ps"
    using assms(2) by (auto simp: c deployable_gho_def blocked_gho_def split: list.splits)
  have bound: "ii_partition_count info < 2 ^ 32"
    using info by (auto simp: inspect_image_def parse_image_def outcome_simps split: if_splits)
  from analyse_partitions_Ok [OF ps p] obtain n i tot written where
    n: "n \<in> set [1..<Suc (ii_partition_count info)]" "gpc_source_partition p = word_of_nat n"
    and d: "decode_partition (lw_inflate w) ?rd n max_gho_expanded_bytes = Ok (i, tot, written)"
    "gpc_expanded_size_bytes p = word_of_nat tot" "gpc_expanded_sha256 p = lw_digest w written"
    unfolding rd by blast
  from n(1) bound have "n < 2 ^ 32" by auto
  with n(2) d show "\<exists>n info tot written. gpc_source_partition p = word_of_nat n \<and> n < 2 ^ 32 \<and>
      decode_partition (lw_inflate w) ?rd n max_gho_expanded_bytes = Ok (info, tot, written) \<and>
      gpc_expanded_size_bytes p = word_of_nat tot \<and> gpc_expanded_sha256 p = lw_digest w written"
    by blast
qed

lemma decoded_counts:
  assumes "decode_partition inflate (file_reader file) n limit = Ok (info, tot, written)"
    and "\<And>d got room. inflate d got room \<noteq> Panic"
  shows "tot = length written \<and> length written \<le> limit"
proof -
  obtain parts where d: "decode_spans inflate (file_reader file) (ii_compression info) limit (parts ! (n - 1)) (0, []) =
      Ok (tot, written)"
    using assms(1) by (auto simp: decode_partition_def outcome_simps split: if_splits)
  have "keeps_count limit (decode_spans inflate (file_reader file) (ii_compression info) limit (parts ! (n - 1)) (0, []))"
    by (rule decode_spans_count [OF assms(2)]) (simp add: counted_def)
  with d show ?thesis by (simp add: keeps_count_def counted_def)
qed

section \<open>Prepared files\<close>

lemma read_files_Ok:
  "read_files fs ps = Ok files \<longleftrightarrow> list_all2 (\<lambda>p file. read_file fs p = Some file) ps files"
proof (induction ps arbitrary: files)
  case (Cons p ps)
  show ?case by (cases files) (auto simp: outcome_simps Cons.IH)
qed auto

lemma prepare_gho_file_Ok:
  assumes "prepare_gho_file w fs i p d is_primary tot = Ok (f, file)"
  shows "\<exists>c. canonicalize fs p = Some c \<and> parent c = Some d \<and> pgf_canonical_path f = display c \<and>
    read_file fs c = Some file \<and> pgf_size_bytes f = word_of_nat (length file) \<and>
    pgf_sha256 f = lw_digest w file \<and> tot + length file < 2 ^ 64"
  using assms by (auto simp: prepare_gho_file_def outcome_simps Let_def)

text \<open>A file in the directory of its image, with the bytes it has.\<close>

definition kept_file :: "library_world \<Rightarrow> file_system \<Rightarrow> path \<Rightarrow> prepared_gho_image_file \<Rightarrow> bytes \<Rightarrow> bool" where
  "kept_file w fs d f file =
     (\<exists>c. canonical fs c \<and> parent c = Some d \<and> node_at fs c = Some (Regular file) \<and>
        pgf_canonical_path f = display c \<and> unat (pgf_size_bytes f) = length file \<and>
        pgf_sha256 f = lw_digest w file)"

lemma kept_file_prepared:
  assumes "prepare_gho_file w fs i p d is_primary tot = Ok (f, file)" "proper_links fs" "\<forall>c \<in> set p. c \<noteq> []"
  shows "kept_file w fs d f file" "tot + length file < 2 ^ 64"
proof -
  from prepare_gho_file_Ok [OF assms(1)] obtain c where
    c: "canonicalize fs p = Some c" "parent c = Some d" "pgf_canonical_path f = display c"
      "read_file fs c = Some file" "pgf_size_bytes f = word_of_nat (length file)" "pgf_sha256 f = lw_digest w file"
    and tot: "tot + length file < 2 ^ 64" by blast
  have can: "canonical fs c"
    using c(1) follow_canonical [OF _ assms(2,3)] by (simp add: canonicalize_def split: if_splits)
  have "node_at fs c = Some (Regular file)"
    using c(4) canonical_follow [OF can] by (auto simp: read_file_def split: if_splits option.splits node.splits)
  moreover have "unat (pgf_size_bytes f) = length file"
    using tot by (simp add: c(5) unsigned_of_nat take_bit_nat_eq_self)
  ultimately show "kept_file w fs d f file" using can c unfolding kept_file_def by blast
  show "tot + length file < 2 ^ 64" by (rule tot)
qed

lemma prepare_gho_files_Ok:
  assumes "prepare_gho_files w fs i d is_primary tot ps = Ok prepared" "proper_links fs"
    "\<forall>p \<in> set ps. \<forall>c \<in> set p. c \<noteq> []" "tot < 2 ^ 64"
  shows "list_all (\<lambda>(f, file). kept_file w fs d f file) prepared \<and> length prepared = length ps \<and>
    tot + length (concat (map snd prepared)) < 2 ^ 64"
  using assms
proof (induction ps arbitrary: is_primary tot prepared)
  case (Cons p ps)
  from Cons.prems(1) obtain f bs rest where
    f: "prepare_gho_file w fs i p d is_primary tot = Ok (f, bs)"
    and rest: "prepare_gho_files w fs i d False (tot + length bs) ps = Ok rest"
    and prepared: "prepared = (f, bs) # rest"
    by (auto simp: outcome_simps)
  note kept = kept_file_prepared [OF f Cons.prems(2)]
  have "\<forall>c \<in> set p. c \<noteq> []" using Cons.prems(3) by simp
  with kept Cons.IH [OF rest Cons.prems(2)] Cons.prems(3) show ?case by (simp add: prepared add.assoc)
qed simp

lemma artifact_components: "p \<in> set (artifact_file_paths a) \<Longrightarrow> c \<in> set p \<Longrightarrow> c \<noteq> []"
  by (auto simp: artifact_file_paths_def dest: path_of_components)

lemma prepare_gho_readiness_Ok:
  assumes "prepare_gho_readiness w fs i lib = Ok img" "proper_links fs"
  shows "\<exists>a d files. get_image i lib = Some a \<and> parent d = Some (lib_objects_dir lib) \<and> canonical fs d \<and>
    list_all2 (kept_file w fs d) (pgs_primary img # pgs_spans img) files \<and>
    unat (img_size_bytes a) = length (concat files) \<and>
    (\<exists>sha. img_sha256 a = Some sha \<and> eq_ignore_case (lw_digest w (concat files)) sha)"
proof -
  from assms(1) obtain a sha d prepared where
    a: "get_image i lib = Some a" "img_sha256 a = Some sha"
    and d: "resolve_gho_object_directory w fs (lib_objects_dir lib) a = Ok d"
    and prepared: "prepare_gho_files w fs i d True 0 (artifact_file_paths a) = Ok prepared"
    and checks: "word_of_nat (length (concat (map snd prepared))) = img_size_bytes a"
      "eq_ignore_case (lw_digest w (concat (map snd prepared))) sha"
    and img: "(case map fst prepared of [] \<Rightarrow> Panic | primary # spans \<Rightarrow>
      Ok \<lparr> pgs_artifact_id = i, pgs_primary = primary, pgs_spans = spans,
          pgs_total_size_bytes = word_of_nat (length (concat (map snd prepared))),
          pgs_image_set_sha256 = lw_digest w (concat (map snd prepared)) \<rparr>) = (Ok img :: (image_library_error, _) outcome)"
    by (auto simp: prepare_gho_readiness_def image_of_def outcome_simps Let_def)
  have files: "list_all (\<lambda>(f, file). kept_file w fs d f file) prepared"
    "length (concat (map snd prepared)) < 2 ^ 64"
    using prepare_gho_files_Ok [OF prepared assms(2)] artifact_components by auto
  have order: "pgs_primary img # pgs_spans img = map fst prepared"
    using img by (auto split: list.splits)
  have "list_all2 (kept_file w fs d) (map fst prepared) (map snd prepared)"
    using files(1) by (induction prepared) auto
  moreover have "unat (img_size_bytes a) = length (concat (map snd prepared))"
    using files(2) by (simp flip: checks(1) add: unsigned_of_nat take_bit_nat_eq_self)
  moreover have "canonical fs d" "parent d = Some (lib_objects_dir lib)"
  proof -
    obtain p where p: "parent (path_of (img_source_path a)) = Some p" "canonicalize fs p = Some d"
      "parent d = Some (lib_objects_dir lib)"
      using d by (auto simp: resolve_gho_object_directory_def outcome_simps Let_def)
    have "\<forall>c \<in> set p. c \<noteq> []"
      using p(1) path_of_components by (auto simp: parent_def dest: in_set_butlastD split: if_splits)
    with p(2) follow_canonical [OF _ assms(2)] show "canonical fs d"
      by (simp add: canonicalize_def split: if_splits)
    show "parent d = Some (lib_objects_dir lib)" by (rule p(3))
  qed
  ultimately show ?thesis using a checks(2) order by metis
qed

text \<open>
  C8.  What is prepared of a Ghost image is what the library recorded of it and
  nothing else on the disk: every file lies in one directory directly below the
  object store, is a regular file reached through no link, and the files
  together have the size and the digest of the image.
\<close>

theorem prepared_files_are_confined:
  assumes "prepare_gho_partition_deployment w fs i n lib = Ok d" "proper_links fs"
  shows "\<exists>a directory files sha. get_image i lib = Some a \<and>
    parent directory = Some (lib_objects_dir lib) \<and> canonical fs directory \<and>
    list_all2 (kept_file w fs directory) (pgs_primary (pgd_image d) # pgs_spans (pgd_image d)) files \<and>
    unat (img_size_bytes a) = length (concat files) \<and> img_sha256 a = Some sha \<and>
    eq_ignore_case (lw_digest w (concat files)) sha"
proof -
  from assms(1) have "prepare_gho_readiness w fs i lib = Ok (pgd_image d)"
    by (auto simp: prepare_gho_partition_deployment_def outcome_simps Let_def)
  from prepare_gho_readiness_Ok [OF this assms(2)] show ?thesis by blast
qed

section \<open>The announced partition\<close>

lemma find_partition:
  "find (\<lambda>p. gpc_source_partition p = n) ps = Some p \<Longrightarrow> p \<in> set ps \<and> gpc_source_partition p = n"
  by (auto simp: find_Some_iff)

lemma inspected_deployable:
  assumes "inspect_native_gho w fs primary spans = Ok c" "gic_deployable c"
  shows "\<exists>files. read_files fs (primary # spans) = Ok files \<and> analyse_gho w files = Ok c"
  using assms by (auto simp: inspect_native_gho_def blocked_gho_def split: outcome.splits)

lemma read_stream_joined:
  assumes "reads_spans files sr" "\<forall>i off n. 0 < n \<longrightarrow> 0 < granted i off n" "sr_position sr \<le> sr_total sr"
  shows "read_stream granted sr taken = Ok (taken @ drop (sr_position sr) (joined files))"
  using assms
proof (induction granted sr taken rule: read_stream.induct)
  case (1 granted sr taken)
  let ?p = "sr_position sr" and ?j = "joined files" and ?n = "1024 * 1024 :: nat"
  let ?sr = "sr \<lparr> sr_position := min (?p + ?n) (sr_total sr) \<rparr>"
  have read: "span_read granted sr ?n = Ok (take ?n (drop ?p ?j), ?sr)"
    using span_read_exact [OF "1.prems"] by simp
  have tot: "sr_total sr = length ?j" using "1.prems"(1) by (simp add: reads_spans_def)
  show ?case
  proof (cases "take ?n (drop ?p ?j) = []")
    case True
    then have "drop ?p ?j = []" by simp
    with True read show ?thesis by (simp add: read_stream.simps)
  next
    case False
    have "reads_spans files ?sr" "sr_position ?sr \<le> sr_total ?sr" using "1.prems"(1) by (simp_all add: reads_spans_def)
    with "1.IH" [OF read refl False] "1.prems"(2)
    have rest: "read_stream granted ?sr (taken @ take ?n (drop ?p ?j)) =
        Ok ((taken @ take ?n (drop ?p ?j)) @ drop (min (?p + ?n) (length ?j)) ?j)" by (simp add: tot)
    have "drop (min (?p + ?n) (length ?j)) ?j = drop ?n (drop ?p ?j)"
      by (cases "?p + ?n \<le> length ?j") (simp_all add: add.commute)
    then have "drop ?p ?j = take ?n (drop ?p ?j) @ drop (min (?p + ?n) (length ?j)) ?j"
      by (metis append_take_drop_id)
    with False read rest show ?thesis by (subst read_stream.simps) simp
  qed
qed

lemma hashed_stream:
  assumes "hash_gho_deployment_stream w fs primary spans = Ok (n, sha)"
    and "read_files fs (primary # spans) = Ok files" "\<forall>i off k. 0 < k \<longrightarrow> 0 < lw_granted w i off k"
  shows "n = word_of_nat (length (joined files)) \<and> sha = lw_digest w (joined files) \<and>
    length (joined files) < 2 ^ 64"
proof -
  from assms(1,2) obtain sr stream where sr: "span_new files = Ok sr"
    and stream: "read_stream (lw_granted w) sr [] = Ok stream" "n = word_of_nat (sr_total sr)" "sha = lw_digest w stream"
    by (auto simp: hash_gho_deployment_stream_def outcome_simps)
  have r: "reads_spans files sr" "length (joined files) < 2 ^ 64"
    using span_new_Ok [OF sr] by (simp_all add: reads_spans_def)
  have "sr_position sr = 0"
    using sr by (auto simp: span_new_def outcome_simps split: list.splits if_splits)
  then have "stream = joined files"
    using read_stream_joined [OF r(1) assms(3), of "[]"] stream(1) by simp
  with stream(2,3) r show ?thesis by (simp add: reads_spans_def)
qed

text \<open>The library behind the API: what its routes take from the images is what the library answers.\<close>

definition library_services ::
  "library_world \<Rightarrow> file_system \<Rightarrow> (image_library_error \<Rightarrow> string) \<Rightarrow> image_library \<Rightarrow> services \<Rightarrow> services" where
  "library_services w fs message lib sv = sv \<lparr>
     sv_revalidate := \<lambda>i n. is_ok (revalidate_for_deployment w fs i n lib),
     sv_prepare_gho := \<lambda>i n. map_err message (prepare_gho_partition_deployment w fs i n lib),
     sv_image := \<lambda>i. get_image i lib,
     sv_read := \<lambda>p. read_file fs (path_of p) \<rparr>"

lemma prepared_partition:
  assumes "prepare_gho_partition_deployment w fs i n lib = Ok d"
    and "\<forall>i off k. 0 < k \<longrightarrow> 0 < lw_granted w i off k" "\<And>d got room. lw_inflate w d got room \<noteq> Panic"
    and "addressable (joined files)"
    and "list_all2 (\<lambda>f bs. read_file fs (path_of (pgf_canonical_path f)) = Some bs)
      (pgs_primary (pgd_image d) # pgs_spans (pgd_image d)) files"
  shows "\<exists>info written. let c = pgd_capability d in
    decode_partition (lw_inflate w) (file_reader (joined files)) (unat n) (length written) =
      Ok (info, length written, written) \<and>
    gic_source_partition c = Some n \<and> gic_parser_version c = gho_parser_version \<and>
    (\<exists>m. gic_expanded_size_bytes c = Some m \<and> unat m = length written) \<and>
    gic_expanded_sha256 c = Some (lw_digest w written) \<and>
    unat (pgd_download_size_bytes d) = length (joined files) \<and>
    pgd_download_sha256 d = lw_digest w (joined files)"
proof -
  let ?img = "pgd_image d"
  let ?primary = "path_of (pgf_canonical_path (pgs_primary ?img))"
  let ?spans = "map (\<lambda>f. path_of (pgf_canonical_path f)) (pgs_spans ?img)"
  from assms(1) obtain actual selected where
    actual: "inspect_native_gho w fs ?primary ?spans = Ok actual" "gic_deployable actual"
    and sel: "find (\<lambda>p. gpc_source_partition p = n) (gic_partitions actual) = Some selected"
    and stream: "hash_gho_deployment_stream w fs ?primary ?spans = Ok (pgd_download_size_bytes d, pgd_download_sha256 d)"
    and c: "pgd_capability d = actual \<lparr> gic_source_partition := Some (gpc_source_partition selected),
      gic_expanded_size_bytes := Some (gpc_expanded_size_bytes selected),
      gic_expanded_sha256 := Some (gpc_expanded_sha256 selected) \<rparr>"
    by (auto simp: prepare_gho_partition_deployment_def outcome_simps Let_def)
  have read: "read_files fs (?primary # ?spans) = Ok files"
    unfolding read_files_Ok using assms(5) by (simp add: list_all2_map1 list_all2_Cons1)
  with inspected_deployable [OF actual] have analysed: "analyse_gho w files = Ok actual" by auto
  have p: "selected \<in> set (gic_partitions actual)" "gpc_source_partition selected = n"
    using find_partition [OF sel] by simp_all
  from analysed_gho [OF analysed, of selected] p obtain m info tot written where
    m: "n = word_of_nat m" "m < 2 ^ 32"
    and dec: "decode_partition (lw_inflate w) (source_of_spans (lw_granted w, files)) m max_gho_expanded_bytes =
      Ok (info, tot, written)"
    and sel': "gpc_expanded_size_bytes selected = word_of_nat tot" "gpc_expanded_sha256 selected = lw_digest w written"
    and opened: "is_ok (span_new files)" "gic_parser_version actual = gho_parser_version" by auto
  have "opened_spans (lw_granted w, files)" using opened(1) assms(2) by (simp add: opened_spans_def)
  with dec span_files.decoding_agrees [of "(lw_granted w, files)" "lw_inflate w"] assms(4)
  have dec: "decode_partition (lw_inflate w) (file_reader (joined files)) m max_gho_expanded_bytes = Ok (info, tot, written)"
    by simp
  note counts = decoded_counts [OF dec assms(3)]
  have unat: "unat n = m" using m by (simp add: unsigned_of_nat take_bit_nat_eq_self)
  have "length written < 2 ^ 64" using counts by (simp add: max_gho_expanded_bytes_def)
  then have size: "unat (gpc_expanded_size_bytes selected) = length written"
    using sel'(1) counts by (simp add: unsigned_of_nat take_bit_nat_eq_self)
  have "unat (pgd_download_size_bytes d) = length (joined files)" "pgd_download_sha256 d = lw_digest w (joined files)"
    using hashed_stream [OF stream read assms(2)] by (simp_all add: unsigned_of_nat take_bit_nat_eq_self)
  moreover have "decode_partition (lw_inflate w) (file_reader (joined files)) (unat n) (length written) =
      Ok (info, length written, written)"
    using decode_partition_limit [OF dec, of "length written"] counts unat by simp
  ultimately show ?thesis using p(2) size sel'(2) opened(2) by (auto simp: c Let_def)
qed

lemma prepared_files_read:
  assumes "prepare_gho_partition_deployment w fs i n lib = Ok d"
  shows "\<exists>files. list_all2 (\<lambda>f bs. read_file fs (path_of (pgf_canonical_path f)) = Some bs)
      (pgs_primary (pgd_image d) # pgs_spans (pgd_image d)) files"
proof -
  let ?img = "pgd_image d"
  let ?paths = "path_of (pgf_canonical_path (pgs_primary ?img)) # map (\<lambda>f. path_of (pgf_canonical_path f)) (pgs_spans ?img)"
  from assms obtain actual where "inspect_native_gho w fs (hd ?paths) (tl ?paths) = Ok actual" "gic_deployable actual"
    by (auto simp: prepare_gho_partition_deployment_def outcome_simps Let_def)
  from inspected_deployable [OF this] obtain files where "read_files fs ?paths = Ok files" by auto
  then show ?thesis unfolding read_files_Ok by (auto simp: list_all2_map1 list_all2_Cons1)
qed

text \<open>
  C7.  A Ghost deployment ends where the library began: the stream an agent
  downloads under its lease passes the check against the lease's digest, and
  the partition it then restores from it is accepted - its length and digest
  are those the lease announces - and is the one the library decoded.
\<close>

theorem leased_ghost_image_restores:
  assumes "gho_download (library_services w fs message lib sv) j = Ok (Some meta, size_bytes, sha)"
    and "download_job_image (library_services w fs message lib sv) device segment lease header e st = Ok r"
    and "authorized_lease i d lease (env_clock (se_jobs (re_session e)) 0) (ind_jobs (api_installer st)) = Ok j"
    and "job_of_device (library_services w fs message lib sv) device segment header st = Ok (d, i)"
    and "job_operation j = Deploy_Gho"
    and "\<forall>i off k. 0 < k \<longrightarrow> 0 < lw_granted w i off k" "\<And>d got room. lw_inflate w d got room \<noteq> Panic"
    and "addressable (ir_body r)"
  shows "unat size_bytes = length (ir_body r) \<and> sha = lw_digest w (ir_body r) \<and>
    (\<exists>written. restore_gho_partition (lw_digest w) (lw_inflate w) (file_reader (ir_body r)) meta = Ok written \<and>
       agd_source_partition meta = opt_image_index (job_options j) \<and>
       unat (agd_expanded_size_bytes meta) = length written \<and> agd_expanded_sha256 meta = lw_digest w written)"
proof -
  let ?sv = "library_services w fs message lib sv"
  let ?i = "job_image_id j" and ?n = "opt_image_index (job_options j)"
  obtain p where p: "prepare_gho_partition_deployment w fs ?i ?n lib = Ok p"
    and meta: "gic_source_partition (pgd_capability p) = Some (agd_source_partition meta)"
      "gic_expanded_size_bytes (pgd_capability p) = Some (agd_expanded_size_bytes meta)"
      "gic_expanded_sha256 (pgd_capability p) = Some (agd_expanded_sha256 meta)"
      "agd_parser_version meta = gic_parser_version (pgd_capability p)"
    and download: "size_bytes = pgd_download_size_bytes p" "sha = pgd_download_sha256 p"
    using assms(1) by (auto simp: gho_download_def library_services_def outcome_simps Let_def)
  have prep: "sv_prepare_gho ?sv ?i ?n = Ok p" by (simp add: library_services_def p)
  obtain files where files: "list_all2 (\<lambda>f bs. read_file fs (path_of (pgf_canonical_path f)) = Some bs)
      (pgs_primary (pgd_image p) # pgs_spans (pgd_image p)) files"
    using prepared_files_read [OF p] by blast
  then have "list_all2 (\<lambda>f bs. sv_read ?sv (pgf_canonical_path f) = Some bs)
      (pgs_primary (pgd_image p) # pgs_spans (pgd_image p)) files"
    by (simp add: library_services_def)
  with download_is_joined [OF assms(2-5) prep] have body: "ir_body r = joined files" by blast
  from prepared_partition [OF p assms(6,7) assms(8) [unfolded body] files] obtain info written where
    dec: "decode_partition (lw_inflate w) (file_reader (joined files)) (unat ?n) (length written) =
      Ok (info, length written, written)"
    and c: "agd_source_partition meta = ?n" "agd_parser_version meta = gho_parser_version"
      "unat (agd_expanded_size_bytes meta) = length written" "agd_expanded_sha256 meta = lw_digest w written"
      "unat size_bytes = length (joined files)" "sha = lw_digest w (joined files)"
    by (auto simp: Let_def meta download)
  have "restore_gho_partition (lw_digest w) (lw_inflate w) (file_reader (joined files)) meta = Ok written"
    using dec c by (simp add: restore_gho_partition_def)
  with c show ?thesis by (auto simp: body)
qed

section \<open>A sample library\<close>

definition ntfs_block :: bytes where "ntfs_block = [1, 0, 0, 0, 0, 0, 0] @ ntfs_mark"

definition ntfs_image :: bytes where "ntfs_image = image_file 2 [ntfs_block]"

definition ntfs_world :: library_world where
  "ntfs_world = \<lparr> lw_digest = (\<lambda>bs. ''c''), lw_upper = (\<lambda>s. s), lw_lower = (\<lambda>s. s),
     lw_parse_uuid = (\<lambda>s. if s = ''7'' then Some 7 else None), lw_iso = sample_format, lw_inflate = no_inflater,
     lw_granted = (\<lambda>i off n. n), lw_dism = (\<lambda>p i. True),
     lw_manifest = \<lparr> cd_render = (\<lambda>as. []), cd_parse = (\<lambda>b. None) \<rparr> \<rparr>"

definition object_path :: path where "object_path = [root, ''o'', ''7'']"

definition sample_disk :: file_system where
  "sample_disk = \<lparr> fs_nodes = [([root, ''o''], Directory), (object_path, Directory),
       (object_path @ [''i.gho''], Regular ntfs_image)],
     fs_directory = [root], fs_refuses = (\<lambda>c p. False) \<rparr>"

definition ntfs_partition :: gho_partition_capability where
  "ntfs_partition = \<lparr> gpc_source_partition = 1, gpc_file_system = ''ntfs'', gpc_expanded_size_bytes = 11,
     gpc_expanded_sha256 = ''c'' \<rparr>"

definition ntfs_info :: image_info where
  "ntfs_info = \<lparr> ii_compression = Fast, ii_partition_count = 1, ii_source_partition = 1,
     ii_encrypted = False, ii_spanned = False \<rparr>"

definition ntfs_artifact :: image_artifact where
  "ntfs_artifact = \<lparr> img_id = 3, img_name = ''i'', img_format = Gho, img_source_path = ''/o/7/i.gho'',
     img_size_bytes = 1081, img_sha256 = Some ''c'', img_spans = [], img_verified = True,
     img_gho_capability = Some (deployable_gho ntfs_info [ntfs_partition]), img_installer_capability = None,
     img_created_at = 0 \<rparr>"

definition sample_image_library :: image_library where
  "sample_image_library = \<lparr> lib_objects_dir = [root, ''o''], lib_images = [ntfs_artifact], lib_file = Absent \<rparr>"

lemma ntfs_image_facts:
  "list_all2 (\<lambda>b out. expand_block no_inflater Fast b = Ok out) [ntfs_block] [[0, 0, 0] @ ntfs_mark]"
  "list_all storable [ntfs_block]" "compression_of 2 = Ok Fast" "length ntfs_image = 1081"
  "addressable ntfs_image" "record_free (partition_data [ntfs_block])"
  by (simp_all add: ntfs_block_def ntfs_mark_def expand_block_def fast_lz_def expanded_capacity_def block_size_def
      storable_def max_stored_len_def compression_of_def addressable_def ntfs_image_def image_file_def
      partition_data_def stored_block_def header_size_def record_free_def upt_rec end_record_def
      sample_record_def record_header_def u32_of_def u16_of_def from_le_def record_magic_def known_record_def
      le_bytes_def nat_le_2 raw_block_def copy_into_def slices)

lemma sample_canonical:
  "canonical sample_disk (object_path @ [''i.gho''])" "canonical sample_disk object_path"
  "canonical sample_disk [root, ''o'']" "proper_links sample_disk"
  by (auto simp: canonical_def directories_above_def node_at_def sample_disk_def object_path_def root_def
      normal_component_def proper_links_def numeral_eq_Suc less_Suc_eq)

lemma sample_texts:
  "path_of ''/o/7/i.gho'' = object_path @ [''i.gho'']" "display (object_path @ [''i.gho'']) = ''/o/7/i.gho''"
proof -
  show "path_of ''/o/7/i.gho'' = object_path @ [''i.gho'']"
    by (simp add: path_of_def slash_def starts_with_def root_def object_path_def)
  have "path_text (object_path @ [''i.gho'']) = ''/o/7/i.gho''"
    by (simp add: path_text_def object_path_def root_def)
  moreover have "utf8_lossy ''/o/7/i.gho'' = ''/o/7/i.gho''"
    by (intro utf8_lossy_valid utf8_valid_ascii) (simp add: is_ascii_def byte_def)
  ultimately show "display (object_path @ [''i.gho'']) = ''/o/7/i.gho''" by (simp add: display_def)
qed


lemma sample_nodes:
  "canonicalize sample_disk (object_path @ [''i.gho'']) = Some (object_path @ [''i.gho''])"
  "canonicalize sample_disk object_path = Some object_path"
  "symlink_metadata sample_disk (object_path @ [''i.gho'']) = Some (Regular ntfs_image)"
  "symlink_metadata sample_disk object_path = Some Directory"
  "metadata sample_disk (object_path @ [''i.gho'']) = Some (Regular ntfs_image)"
  "read_file sample_disk (object_path @ [''i.gho'']) = Some ntfs_image"
  "read_dir sample_disk object_path = Some [object_path @ [''i.gho'']]"
  using canonical_follow [OF sample_canonical(1)] canonical_follow [OF sample_canonical(2)] canonical_follow [OF sample_canonical(3)]
    canonical_locate [OF sample_canonical(1)] canonical_locate [OF sample_canonical(2)] canonical_locate [OF sample_canonical(3)]
  by (simp_all add: canonicalize_def symlink_metadata_def metadata_def read_file_def read_dir_def node_at_def
      sample_disk_def object_path_def root_def file_name_def normal_component_def parent_def)

lemma sample_listing:
  "read_directory_files upper sample_disk object_path = Some [object_path @ [''i.gho'']]"
  by (simp add: read_directory_files_def sample_nodes)

lemma sample_stem: "to_str (file_stem (object_path @ [''i.gho''])) = Some ''i''" "to_str (extension (object_path @ [''i.gho''])) = Some ''gho''"
  "to_str (file_name (object_path @ [''i.gho''])) = Some ''i.gho''" "to_str (file_name object_path) = Some ''7''"
  by (simp_all add: file_stem_def extension_def file_name_def normal_component_def root_def rsplit_dot_def to_str_def
      from_utf8_ascii is_ascii_def byte_def object_path_def)

lemma sample_discovery:
  "discover_ghost_spans upper (object_path @ [''i.gho'']) [object_path @ [''i.gho'']] = Ok []"
  by (simp add: discover_ghost_spans_def sample_stem classify_file_def)

lemma sample_readiness:
  "\<exists>img. prepare_gho_readiness ntfs_world sample_disk 3 sample_image_library = Ok img \<and>
     path_of (pgf_canonical_path (pgs_primary img)) = object_path @ [''i.gho''] \<and> pgs_spans img = []"
proof -
  have parents: "parent (object_path @ [''i.gho'']) = Some object_path" "parent object_path = Some [root, ''o'']"
    by (simp_all add: parent_def object_path_def root_def)
  have name: "length (path_of ''i.gho'') = 1" by (simp add: path_of_def slash_def starts_with_def root_def)
  have gho: "eq_ignore_case ''gho'' ''gho''" by simp
  show ?thesis
    using parents name gho
    by (simp add: prepare_gho_readiness_def image_of_def get_image_def sample_image_library_def ntfs_artifact_def
        resolve_gho_object_directory_def sample_texts sample_stem sample_nodes sample_listing sample_discovery
        ntfs_world_def ensure_def artifact_file_paths_def prepare_gho_file_def ntfs_image_facts Let_def)
qed


lemma ntfs_joined: "joined [ntfs_image] = ntfs_image" "opened_spans (lw_granted ntfs_world, [ntfs_image])"
proof -
  show "joined [ntfs_image] = ntfs_image" by (simp add: joined_def span_bodies_def)
  have "u16_of ntfs_image = image_magic" "ntfs_image ! 2 = 1"
    by (simp_all add: ntfs_image_def image_file_def image_prologue_def u16_of_def from_le_def image_magic_def)
  then have "is_ok (span_new [ntfs_image])"
    by (simp add: span_new_def ntfs_image_facts header_size_def skipped_header_def)
  then show "opened_spans (lw_granted ntfs_world, [ntfs_image])" by (simp add: opened_spans_def ntfs_world_def)
qed

lemma ntfs_decoded:
  assumes "11 \<le> limit" "limit < 2 ^ 64"
  shows "decode_partition no_inflater (file_reader ntfs_image) 1 limit = Ok (ntfs_info, 11, [0, 0, 0] @ ntfs_mark)"
proof -
  have "decode_span no_inflater (file_reader ntfs_image) Fast limit
      (1054 + length (partition_data [ntfs_block])) 1054 (0, []) = Ok (11, [0, 0, 0] @ ntfs_mark)"
    using decode_stored_blocks [of no_inflater Fast "[ntfs_block]" "[[0, 0, 0] @ ntfs_mark]" 0 limit
        "image_prologue 2" end_record "[]"] ntfs_image_facts assms
    by (simp add: ntfs_image_def image_file_def ntfs_mark_def)
  then show ?thesis
    using image_parses [OF ntfs_image_facts(3,6)] ntfs_image_facts(5)
    by (simp add: decode_partition_def ntfs_image_def ntfs_info_def)
qed

lemma ntfs_analysed: "analyse_gho ntfs_world [ntfs_image] = Ok (deployable_gho ntfs_info [ntfs_partition])"
proof -
  obtain sr where sr: "span_new [ntfs_image] = Ok sr" using ntfs_joined(2) by (auto simp: opened_spans_def is_ok_iff)
  let ?a = "(lw_granted ntfs_world, [ntfs_image])"
  have src: "span_source (lw_granted ntfs_world) sr = source_of_spans ?a" by (simp add: source_of_spans_def sr)
  have "parse_image (source_of_spans ?a) = parse_image (file_reader ntfs_image)"
    using span_files.parse_images_agree [OF ntfs_joined(2)] ntfs_image_facts(5) by (simp add: ntfs_joined(1))
  moreover have "map_ok snd (parse_image (file_reader ntfs_image)) = Ok ntfs_info"
    using image_parses [OF ntfs_image_facts(3,6)] ntfs_image_facts(5) by (simp add: ntfs_image_def ntfs_info_def)
  ultimately have info: "inspect_image (source_of_spans ?a) = Ok ntfs_info" by (simp add: inspect_image_def)
  have "decode_partition no_inflater (source_of_spans ?a) 1 max_gho_expanded_bytes =
      Ok (ntfs_info, 11, [0, 0, 0] @ ntfs_mark)"
    using span_files.decoding_agrees [OF ntfs_joined(2)] ntfs_image_facts(5) ntfs_decoded [of max_gho_expanded_bytes]
    by (simp add: ntfs_joined(1) max_gho_expanded_bytes_def)
  moreover have "is_ntfs ([0, 0, 0] @ ntfs_mark)" by (simp add: is_ntfs_def get_range_def ntfs_mark_def)
  ultimately have "analyse_partitions ntfs_world (source_of_spans ?a) [1..<Suc (ii_partition_count ntfs_info)] =
      Ok [ntfs_partition]"
    by (simp add: ntfs_info_def ntfs_world_def ntfs_partition_def)
  with info show ?thesis by (simp add: analyse_gho_def sr src)
qed

lemma ntfs_deployable:
  "gic_deployable (deployable_gho ntfs_info [ntfs_partition])"
  "gic_partitions (deployable_gho ntfs_info [ntfs_partition]) = [ntfs_partition]"
  by (simp_all add: deployable_gho_def)

lemma sample_preparation:
  "\<exists>d. prepare_gho_partition_deployment ntfs_world sample_disk 3 1 sample_image_library = Ok d \<and>
     path_of (pgf_canonical_path (pgs_primary (pgd_image d))) = object_path @ [''i.gho''] \<and> pgs_spans (pgd_image d) = []"
proof -
  obtain img where img: "prepare_gho_readiness ntfs_world sample_disk 3 sample_image_library = Ok img"
    "path_of (pgf_canonical_path (pgs_primary img)) = object_path @ [''i.gho'']" "pgs_spans img = []"
    using sample_readiness by blast
  have a: "image_of 3 sample_image_library = Ok ntfs_artifact"
    by (simp add: image_of_def get_image_def sample_image_library_def ntfs_artifact_def)
  have c: "deployable_capability ntfs_artifact = Some (deployable_gho ntfs_info [ntfs_partition])"
    using ntfs_deployable by (simp add: deployable_capability_def ntfs_artifact_def)
  have read: "read_files sample_disk [object_path @ [''i.gho'']] = Ok [ntfs_image]" by (simp add: sample_nodes)
  have inspect: "inspect_native_gho ntfs_world sample_disk (object_path @ [''i.gho'']) [] =
      Ok (deployable_gho ntfs_info [ntfs_partition])"
    unfolding inspect_native_gho_def read by (simp add: ntfs_analysed)
  obtain sr where sr: "span_new [ntfs_image] = Ok sr" using ntfs_joined(2) by (auto simp: opened_spans_def is_ok_iff)
  have "is_ok (read_stream (lw_granted ntfs_world) sr [])"
    using read_stream_joined [of "[ntfs_image]" sr "lw_granted ntfs_world" "[]"] span_new_Ok [OF sr] sr
    by (auto simp: reads_spans_def ntfs_world_def span_new_def outcome_simps split: if_splits)
  then obtain n sha where "hash_gho_deployment_stream ntfs_world sample_disk (object_path @ [''i.gho'']) [] = Ok (n, sha)"
    unfolding hash_gho_deployment_stream_def read by (auto simp: sr is_ok_iff)
  with img a c inspect ntfs_deployable show ?thesis
    by (simp add: prepare_gho_partition_deployment_def ensure_def ntfs_partition_def)
qed

theorem prepared_files_are_confined_witness:
  "\<exists>d a directory files. prepare_gho_partition_deployment ntfs_world sample_disk 3 1 sample_image_library = Ok d \<and>
     get_image 3 sample_image_library = Some a \<and> parent directory = Some [root, ''o''] \<and>
     list_all2 (kept_file ntfs_world sample_disk directory) (pgs_primary (pgd_image d) # pgs_spans (pgd_image d)) files"
proof -
  obtain d where d: "prepare_gho_partition_deployment ntfs_world sample_disk 3 1 sample_image_library = Ok d"
    using sample_preparation by blast
  from prepared_files_are_confined [OF d sample_canonical(4)] d show ?thesis
    unfolding sample_image_library_def image_library.simps by blast
qed

definition ntfs_services :: services where
  "ntfs_services = library_services ntfs_world sample_disk (\<lambda>e. []) sample_image_library sample_services"

theorem leased_ghost_image_restores_witness:
  "\<exists>meta n sha r written.
     gho_download ntfs_services claimed_gho_job = Ok (Some meta, n, sha) \<and>
     download_job_image ntfs_services ''7'' ''5'' 9 (Some ''Bearer t'') (sample_request_env 20) gho_api = Ok r \<and>
     restore_gho_partition (lw_digest ntfs_world) (lw_inflate ntfs_world) (file_reader (ir_body r)) meta = Ok written"
proof -
  have e: "env_clock (se_jobs (re_session (sample_request_env 20))) 0 = 20"
    by (simp add: sample_request_env_def sample_session_env_def sample_env_def)
  have auth: "authorized_lease 5 7 9 (env_clock (se_jobs (re_session (sample_request_env 20))) 0)
      (ind_jobs (api_installer gho_api)) = Ok claimed_gho_job"
    unfolding e by (rule sample_download(2))
  have route: "job_of_device ntfs_services ''7'' ''5'' (Some ''Bearer t'') gho_api = Ok (7, 5)"
    using sample_download(1)
    by (simp add: job_of_device_def authenticated_device_def ntfs_services_def library_services_def gho_services_def
        sv_digest_def)
  have job: "job_operation claimed_gho_job = Deploy_Gho" "job_image_id claimed_gho_job = 3"
    "opt_image_index (job_options claimed_gho_job) = 1"
    by (simp_all add: claimed_gho_job_def claimed_windows_job_def new_job_def sample_windows_request_def default_options_def)
  obtain d where "prepare_gho_partition_deployment ntfs_world sample_disk 3 1 sample_image_library = Ok d \<and>
      path_of (pgf_canonical_path (pgs_primary (pgd_image d))) = object_path @ [''i.gho''] \<and> pgs_spans (pgd_image d) = []"
    using sample_preparation by blast
  then have d: "prepare_gho_partition_deployment ntfs_world sample_disk 3 1 sample_image_library = Ok d"
    and paths: "path_of (pgf_canonical_path (pgs_primary (pgd_image d))) = object_path @ [''i.gho'']" "pgs_spans (pgd_image d) = []"
    by simp_all
  have world: "\<forall>i off k. 0 < k \<longrightarrow> 0 < lw_granted ntfs_world i off k" "lw_inflate ntfs_world x y z \<noteq> Panic" for x y z
    by (simp_all add: ntfs_world_def no_inflater_def)
  have prep: "sv_prepare_gho ntfs_services 3 1 = Ok d" by (simp add: ntfs_services_def library_services_def d)
  have "addressable (joined [ntfs_image])" by (simp add: ntfs_joined ntfs_image_facts)
  from prepared_partition [OF d world this] paths
  obtain k where "gic_source_partition (pgd_capability d) = Some 1" "gic_expanded_size_bytes (pgd_capability d) = Some k"
    "\<exists>s. gic_expanded_sha256 (pgd_capability d) = Some s"
    by (auto simp: Let_def sample_nodes)
  then have dl: "\<exists>meta n sha. gho_download ntfs_services claimed_gho_job = Ok (Some meta, n, sha)"
    by (auto simp: gho_download_def job prep)
  have "sv_read ntfs_services p = read_file sample_disk (path_of p)"
    "sv_image ntfs_services 3 = Some ntfs_artifact" for p
    by (simp_all add: ntfs_services_def library_services_def sample_image_library_def ntfs_artifact_def get_image_def)
  then have rr: "\<exists>r. download_job_image ntfs_services ''7'' ''5'' 9 (Some ''Bearer t'') (sample_request_env 20) gho_api = Ok r \<and>
      ir_body r = ntfs_image"
    by (simp add: download_job_image_def route auth [unfolded e] e image_body_def job prep paths sample_nodes)
  obtain meta n sha r where dl: "gho_download ntfs_services claimed_gho_job = Ok (Some meta, n, sha)"
    and r: "download_job_image ntfs_services ''7'' ''5'' 9 (Some ''Bearer t'') (sample_request_env 20) gho_api = Ok r"
    "ir_body r = ntfs_image" using dl rr by blast
  with leased_ghost_image_restores [OF dl [unfolded ntfs_services_def] r(1) [unfolded ntfs_services_def] auth
      route [unfolded ntfs_services_def] job(1) world] ntfs_image_facts(5)
  show ?thesis by (simp add: dl r) blast
qed

end
