(* ===== verification/Tftp_Server.thy ===== *)
theory Tftp_Server
  imports Dhcp_Server File_System Decimal "HOL-Library.Sublist"
begin

text \<open>
  The TFTP server of \<open>crates/service/src/pxe.rs\<close> (\<open>serve_tftp_request\<close> and the
  functions below it) and the table of discovered clients it shares with the
  DHCP server.  The network is a parameter: a state of its own and what it
  answers to a packet - a datagram, silence until the timeout (a failing receive
  counts as such, as in the code), or a refusal to send.  A file is read as it
  was when it was opened: the code reads the length once and the bytes in
  chunks, the model takes both from the one content.
\<close>

section \<open>Discovered clients\<close>

text \<open>The table is a hash map in the code; its order is never observed.\<close>

type_synonym client_table = "(string \<times> pxe_discovered_client) list"

definition keeps_stage :: "pxe_client_stage \<Rightarrow> pxe_client_stage \<Rightarrow> bool" where
  "keeps_stage new old = (new = Discovered \<and> old \<in> {Downloading, Waiting_For_Agent})"

definition record_client ::
  "instant \<Rightarrow> string \<Rightarrow> string option \<Rightarrow> architecture \<Rightarrow> pxe_client_stage \<Rightarrow> client_table \<Rightarrow> client_table" where
  "record_client now mac ip arch stage t =
     AList.update mac
       (case map_of t mac of
          Some c \<Rightarrow> c \<lparr> pc_ip_address := (case ip of Some a \<Rightarrow> Some a | None \<Rightarrow> pc_ip_address c),
              pc_architecture := arch,
              pc_stage := (if keeps_stage stage (pc_stage c) then pc_stage c else stage),
              pc_last_seen_at := now \<rparr>
        | None \<Rightarrow> \<lparr> pc_mac_address = mac, pc_ip_address = ip, pc_architecture = arch, pc_stage = stage,
              pc_first_seen_at = now, pc_last_seen_at = now \<rparr>) t"

definition update_client_stage_by_ip ::
  "instant \<Rightarrow> string \<Rightarrow> pxe_client_stage \<Rightarrow> client_table \<Rightarrow> client_table" where
  "update_client_stage_by_ip now ip stage t =
     map (\<lambda>(mac, c).
       (mac, if pc_ip_address c = Some ip then c \<lparr> pc_stage := stage, pc_last_seen_at := now \<rparr> else c)) t"

section \<open>Sending until acknowledged\<close>

datatype answer = Datagram bytes | Silence | Send_Failed

record 's tftp_network =
  tn_bind :: "'s \<Rightarrow> bool \<times> 's"
  tn_exchange :: "u64 \<Rightarrow> bytes \<Rightarrow> 's \<Rightarrow> answer \<times> 's"
  tn_send :: "bytes \<Rightarrow> 's \<Rightarrow> bool \<times> 's"

datatype tftp_stage = Stage_Oack | Stage_Data u16 | Stage_Final u16

datatype tftp_error = Tftp_Io | Ack_Timeout string string tftp_stage

definition u16_be :: "nat \<Rightarrow> bytes \<Rightarrow> u16" where
  "u16_be i bs = from_be (take 2 (drop i bs))"

definition acknowledges :: "u16 \<Rightarrow> bytes \<Rightarrow> bool" where
  "acknowledges block ack = (4 \<le> length ack \<and> u16_be 0 ack = 4 \<and> u16_be 2 ack = block)"

fun send_attempts ::
  "nat \<Rightarrow> 's tftp_network \<Rightarrow> bytes \<Rightarrow> u16 \<Rightarrow> u64 \<Rightarrow> 's \<Rightarrow> (tftp_error, bool) outcome \<times> 's" where
  "send_attempts 0 net packet block secs s = (Ok False, s)"
| "send_attempts (Suc n) net packet block secs s =
     (case tn_exchange net secs packet s of
        (Send_Failed, s) \<Rightarrow> (Err Tftp_Io, s)
      | (Silence, s) \<Rightarrow> send_attempts n net packet block secs s
      | (Datagram ack, s) \<Rightarrow>
          if acknowledges block ack then (Ok True, s) else send_attempts n net packet block secs s)"

definition send_tftp_with_ack ::
  "'s tftp_network \<Rightarrow> bytes \<Rightarrow> u16 \<Rightarrow> u64 \<Rightarrow> 's \<Rightarrow> (tftp_error, bool) outcome \<times> 's" where
  "send_tftp_with_ack net packet block secs s = send_attempts 4 net packet block secs s"

definition error_packet :: "u16 \<Rightarrow> string \<Rightarrow> bytes" where
  "error_packet code message = [0, 5] @ be_bytes 2 code @ text_bytes message @ [0]"

definition bound :: "'s tftp_network \<Rightarrow> 's \<Rightarrow> (tftp_error, unit) outcome \<times> 's" where
  "bound net s = (case tn_bind net s of (ok, s) \<Rightarrow> (ensure ok Tftp_Io, s))"

definition send_tftp_error ::
  "'s tftp_network \<Rightarrow> u16 \<Rightarrow> string \<Rightarrow> 's \<Rightarrow> (tftp_error, unit) outcome \<times> 's" where
  "send_tftp_error net code message s =
     then_do (bound net s) (\<lambda>_ s.
     case tn_send net (error_packet code message) s of (ok, s) \<Rightarrow> (ensure ok Tftp_Io, s))"

section \<open>Options of a request\<close>

text \<open>The bytes of a request as its parts: texts between zero bytes.\<close>

definition request_fields :: "bytes \<Rightarrow> string list" where
  "request_fields request = split_on (\<lambda>c. byte c = 0) (bytes_text (drop 2 request))"

definition clamp_u64 :: "u64 \<Rightarrow> u64 \<Rightarrow> u64 \<Rightarrow> u64" where
  "clamp_u64 lo hi v = (if v < lo then lo else if hi < v then hi else v)"

record tftp_options =
  to_block_size :: u64
  to_timeout_secs :: u64
  to_requested :: "(string \<times> string) list"

definition default_tftp_options :: tftp_options where
  "default_tftp_options = \<lparr> to_block_size = 512, to_timeout_secs = 3, to_requested = [] \<rparr>"

definition apply_option :: "u64 \<Rightarrow> string \<Rightarrow> string \<Rightarrow> tftp_options \<Rightarrow> tftp_options" where
  "apply_option file_size key val opts =
     (if key = ''blksize'' then
        (case u64_from_str val of
           None \<Rightarrow> opts
         | Some v \<Rightarrow>
             let chunk = clamp_u64 8 1468 v in
             opts \<lparr> to_block_size := chunk, to_requested := to_requested opts @ [(''blksize'', dec (unat chunk))] \<rparr>)
      else if key = ''timeout'' then
        (case u64_from_str val of
           None \<Rightarrow> opts
         | Some v \<Rightarrow>
             let secs = clamp_u64 1 10 v in
             opts \<lparr> to_timeout_secs := secs, to_requested := to_requested opts @ [(''timeout'', dec (unat secs))] \<rparr>)
      else if key = ''tsize'' then
        opts \<lparr> to_requested := to_requested opts @ [(''tsize'', dec (unat file_size))] \<rparr>
      else opts)"

fun parse_options :: "u64 \<Rightarrow> string list \<Rightarrow> tftp_options \<Rightarrow> tftp_options" where
  "parse_options file_size (key # val # parts) opts =
     parse_options file_size parts
       (apply_option file_size (map to_lower (utf8_lossy key)) (utf8_lossy val) opts)"
| "parse_options file_size parts opts = opts"

definition option_bytes :: "string \<times> string \<Rightarrow> bytes" where
  "option_bytes = (\<lambda>(k, v). text_bytes k @ [0] @ text_bytes v @ [0])"

definition oack :: "(string \<times> string) list \<Rightarrow> bytes" where
  "oack requested = [0, 6] @ concat (map option_bytes requested)"

section \<open>The data blocks\<close>

definition data_packet :: "u16 \<Rightarrow> bytes \<Rightarrow> bytes" where
  "data_packet block payload = [0, 3] @ be_bytes 2 block @ payload"

text \<open>
  \<open>acked\<close> is one exchange that has to end with an acknowledgement.  The loop
  over the rest of the file; a block size of zero, which no request obtains,
  ends it.
\<close>

definition acked ::
  "'s tftp_network \<Rightarrow> string \<Rightarrow> string \<Rightarrow> u64 \<Rightarrow> bytes \<Rightarrow> u16 \<Rightarrow> tftp_stage \<Rightarrow> 's \<Rightarrow>
   (tftp_error, unit) outcome \<times> 's" where
  "acked net name ip secs packet block stage s =
     then_do (send_tftp_with_ack net packet block secs s) (\<lambda>done s.
       (ensure done (Ack_Timeout name ip stage), s))"

function send_blocks ::
  "'s tftp_network \<Rightarrow> string \<Rightarrow> string \<Rightarrow> u64 \<Rightarrow> nat \<Rightarrow> bytes \<Rightarrow> u16 \<Rightarrow> 's \<Rightarrow>
   (tftp_error, u16) outcome \<times> 's" where
  "send_blocks net name ip secs chunk rest block s =
     (if rest = [] \<or> chunk = 0 then (Ok block, s)
      else
        then_do (acked net name ip secs (data_packet block (take chunk rest)) block (Stage_Data block) s) (\<lambda>_ s.
        send_blocks net name ip secs chunk (drop chunk rest) (block + 1) s))"
  by pat_completeness auto
termination by (relation "measure (\<lambda>(net, name, ip, secs, chunk, rest, block, s). length rest)") auto

declare send_blocks.simps [simp del]

definition send_file ::
  "'s tftp_network \<Rightarrow> string \<Rightarrow> string \<Rightarrow> tftp_options \<Rightarrow> bytes \<Rightarrow> 's \<Rightarrow> (tftp_error, unit) outcome \<times> 's" where
  "send_file net name ip opts file s =
     then_do
       (if to_requested opts \<noteq> []
        then acked net name ip (to_timeout_secs opts) (oack (to_requested opts)) 0 Stage_Oack s
        else (Ok (), s)) (\<lambda>_ s.
     then_do (send_blocks net name ip (to_timeout_secs opts) (unat (to_block_size opts)) file 1 s) (\<lambda>block s.
     if length file mod unat (to_block_size opts) = 0
     then acked net name ip (to_timeout_secs opts) (data_packet block []) block (Stage_Final block) s
     else (Ok (), s)))"

section \<open>A request\<close>

text \<open>
  The requested path below the served root, as far as the checks let it through:
  the file's canonical path.
\<close>

datatype served = Served path | Refused u16 string

definition locate_file :: "file_system \<Rightarrow> path \<Rightarrow> string \<Rightarrow> (tftp_error, served) outcome" where
  "locate_file fs base relative_name =
     (if \<not> is_ok (validate_relative_path Unix_Host relative_name)
      then Ok (Refused 2 ''access violation'')
      else
        and_then (ok_or (canonicalize fs base) Tftp_Io) (\<lambda>canonical_root.
        case canonicalize fs (base @ path_of relative_name) of
          None \<Rightarrow> Ok (Refused 1 ''file not found'')
        | Some q \<Rightarrow>
            if \<not> path_within canonical_root q \<or> \<not> is_file fs q
            then Ok (Refused 2 ''access violation'')
            else Ok (Served q)))"

definition serve_read ::
  "'s tftp_network \<Rightarrow> file_system \<Rightarrow> path \<Rightarrow> string \<Rightarrow> (nat \<Rightarrow> instant) \<Rightarrow> string list \<Rightarrow>
   client_table \<times> 's \<Rightarrow> (tftp_error, unit) outcome \<times> client_table \<times> 's" where
  "serve_read net fs base ip clock parts st =
     (case from_utf8 (hd parts) of
        None \<Rightarrow> (Ok (), st)
      | Some name \<Rightarrow>
          let relative_name = dropWhile slash name in
          (case locate_file fs base relative_name of
             Panic \<Rightarrow> (Panic, st)
           | Err e \<Rightarrow> (Err e, st)
           | Ok (Refused code message) \<Rightarrow>
               (case send_tftp_error net code message (snd st) of (r, s) \<Rightarrow> (r, fst st, s))
           | Ok (Served q) \<Rightarrow>
               let clients = update_client_stage_by_ip (clock 0) ip Downloading (fst st) in
               case read_file fs q of
                 None \<Rightarrow> (Err Tftp_Io, clients, snd st)
               | Some file \<Rightarrow>
                   let opts = parse_options (word_of_nat (length file)) (drop 2 parts) default_tftp_options in
                   (case then_do (bound net (snd st)) (\<lambda>_ s. send_file net relative_name ip opts file s) of
                      (Ok _, s) \<Rightarrow>
                        (Ok (), if eq_ignore_case relative_name ''boot/boot.wim''
                          then update_client_stage_by_ip (clock 1) ip Waiting_For_Agent clients else clients, s)
                    | (r, s) \<Rightarrow> (r, clients, s))))"

definition serve_tftp_request ::
  "'s tftp_network \<Rightarrow> file_system \<Rightarrow> path \<Rightarrow> string \<Rightarrow> (nat \<Rightarrow> instant) \<Rightarrow> bytes \<Rightarrow>
   client_table \<times> 's \<Rightarrow> (tftp_error, unit) outcome \<times> client_table \<times> 's" where
  "serve_tftp_request net fs base ip clock request st =
     (if length request < 2 then (Ok (), st)
      else if u16_be 0 request = 2 then
        (case send_tftp_error net 2 ''write requests are not allowed'' (snd st) of (r, s) \<Rightarrow> (r, fst st, s))
      else if u16_be 0 request \<noteq> 1 \<or> length request < 4 then (Ok (), st)
      else serve_read net fs base ip clock (request_fields request) st)"

section \<open>The name in the activity log\<close>

text \<open>\<open>char::escape_default\<close> of one character, given by its bytes.\<close>

fun lower_hex :: "nat \<Rightarrow> string" where
  "lower_hex n =
     (if n < 16 then [] else lower_hex (n div 16)) @
     [if n mod 16 < 10 then char_of (48 + n mod 16) else char_of (87 + n mod 16)]"

declare lower_hex.simps [simp del]

definition escape_char :: "string \<Rightarrow> string" where
  "escape_char s =
     (let n = code_point s in
      if n = 9 then [char_of (92 :: nat), CHR ''t'']
      else if n = 13 then [char_of (92 :: nat), CHR ''r'']
      else if n = 10 then [char_of (92 :: nat), CHR ''n'']
      else if n \<in> {34, 39, 92} then char_of (92 :: nat) # s
      else if 32 \<le> n \<and> n \<le> 126 then s
      else [char_of (92 :: nat)] @ ''u{'' @ lower_hex n @ ''}'')"

definition escape_default :: "string \<Rightarrow> string" where
  "escape_default s = concat (map escape_char (utf8_chars s))"

definition tftp_request_filename :: "bytes \<Rightarrow> string option" where
  "tftp_request_filename request =
     (if length request < 4 \<or> u16_be 0 request \<noteq> 1 then None
      else if 0 \<notin> set (drop 2 request) then None
      else map_option escape_default (from_utf8 (bytes_text (takeWhile (\<lambda>b. b \<noteq> 0) (drop 2 request)))))"

text \<open>A client that waits for its agent falls back when it downloads again.\<close>

lemma waiting_client_falls_back:
  assumes "map_of t mac = Some c" "pc_ip_address c = Some ip"
  shows "map_option pc_stage (map_of (update_client_stage_by_ip now ip Downloading t) mac) = Some Downloading"
proof -
  have "map_of (update_client_stage_by_ip now ip Downloading t) mac = map_option
      (\<lambda>c. if pc_ip_address c = Some ip then c \<lparr> pc_stage := Downloading, pc_last_seen_at := now \<rparr> else c)
      (map_of t mac)"
    unfolding update_client_stage_by_ip_def by (induction t) auto
  then show ?thesis using assms by simp
qed

lemma recorded_client_keeps_stage:
  assumes "map_of t mac = Some c" "pc_stage c \<in> {Downloading, Waiting_For_Agent}"
  shows "map_option pc_stage (map_of (record_client now mac ip arch Discovered t) mac) = Some (pc_stage c)"
  using assms by (auto simp: record_client_def update_conv keeps_stage_def)

section \<open>Packets read back\<close>

lemma data_packet_fields [simp]:
  "4 \<le> length (data_packet block payload)" "u16_be 0 (data_packet block payload) = 3"
  "u16_be 2 (data_packet block payload) = block" "drop 4 (data_packet block payload) = payload"
proof -
  show "u16_be 2 (data_packet block payload) = block"
    using be16.read_first [of block payload] by (simp add: u16_be_def data_packet_def)
  show "u16_be 0 (data_packet block payload) = 3"
    by (simp add: u16_be_def data_packet_def from_be_def from_le_def)
qed (simp_all add: data_packet_def)

lemma split_on_prefix:
  "\<not> list_ex P u \<Longrightarrow> P c \<Longrightarrow> split_on P (u @ c # s) = u # split_on P s"
  by (induction u) auto

definition no_zero :: "string \<Rightarrow> bool" where "no_zero s = (\<not> list_ex (\<lambda>c. byte c = 0) s)"

lemma option_fields:
  "list_all (\<lambda>(k, v). no_zero k \<and> no_zero v) requested \<Longrightarrow>
     split_on (\<lambda>c. byte c = 0) (bytes_text (concat (map option_bytes requested))) =
     concat (map (\<lambda>(k, v). [k, v]) requested) @ [[]]"
  by (induction requested) (auto simp: option_bytes_def no_zero_def split_on_prefix)

section \<open>A receiver behind a lossy network\<close>

text \<open>
  A client of the protocol: it takes its block size from the options the server
  acknowledges, appends the next block and acknowledges it, and acknowledges the
  last block again when it sees it again.  Block numbers wrap.
\<close>

record tftp_receiver =
  rx_next :: u16
  rx_data :: bytes
  rx_size :: nat
  rx_done :: bool

definition fresh_receiver :: tftp_receiver where
  "fresh_receiver = \<lparr> rx_next = 1, rx_data = [], rx_size = 512, rx_done = False \<rparr>"

fun negotiated_size :: "string list \<Rightarrow> nat \<Rightarrow> nat" where
  "negotiated_size (key # val # parts) chunk =
     negotiated_size parts
       (if key = ''blksize'' then case u64_from_str val of Some n \<Rightarrow> unat n | None \<Rightarrow> chunk else chunk)"
| "negotiated_size parts chunk = chunk"

definition ack_packet :: "u16 \<Rightarrow> bytes" where "ack_packet block = [0, 4] @ be_bytes 2 block"

definition receive :: "bytes \<Rightarrow> tftp_receiver \<Rightarrow> bytes option \<times> tftp_receiver" where
  "receive packet r =
     (if u16_be 0 packet = 6 then
        (Some (ack_packet 0),
         if rx_next r = 1 \<and> rx_data r = []
         then r \<lparr> rx_size := negotiated_size (request_fields packet) 512 \<rparr> else r)
      else if u16_be 0 packet \<noteq> 3 then (None, r)
      else
        let block = u16_be 2 packet; payload = drop 4 packet in
        if block = rx_next r \<and> \<not> rx_done r then
          (Some (ack_packet block), r \<lparr> rx_next := block + 1, rx_data := rx_data r @ payload,
             rx_done := length payload < rx_size r \<rparr>)
        else if block = rx_next r - 1 then (Some (ack_packet block), r)
        else (None, r))"

text \<open>What the network does with the exchange of a round.\<close>

datatype loss = Lost_Packet | Lost_Ack | Delivered

definition lossy_network :: "(nat \<Rightarrow> loss) \<Rightarrow> (nat \<times> tftp_receiver) tftp_network" where
  "lossy_network loss = \<lparr>
     tn_bind = (\<lambda>s. (True, s)),
     tn_exchange = (\<lambda>secs packet (n, r).
       case loss n of
         Lost_Packet \<Rightarrow> (Silence, Suc n, r)
       | Lost_Ack \<Rightarrow> (Silence, Suc n, snd (receive packet r))
       | Delivered \<Rightarrow> (case fst (receive packet r) of None \<Rightarrow> Silence | Some ack \<Rightarrow> Datagram ack,
           Suc n, snd (receive packet r))),
     tn_send = (\<lambda>packet s. (True, s)) \<rparr>"

text \<open>Of any four rounds in a row, one gets through.\<close>

definition benign :: "(nat \<Rightarrow> loss) \<Rightarrow> bool" where
  "benign loss = (\<forall>n. \<exists>k < 4. loss (n + k) = Delivered)"

lemma ack_acknowledges [simp]: "acknowledges block (ack_packet block)"
proof -
  have "u16_be 2 (ack_packet block) = block"
    using be16.read_first [of block "[]"] by (simp add: u16_be_def ack_packet_def)
  then show ?thesis
    by (simp add: acknowledges_def) (simp add: ack_packet_def u16_be_def from_be_def from_le_def)
qed

text \<open>A packet that leads the receiver from \<open>r\<close> to \<open>r'\<close>, however often it arrives.\<close>

definition settles :: "bytes \<Rightarrow> u16 \<Rightarrow> tftp_receiver \<Rightarrow> tftp_receiver \<Rightarrow> bool" where
  "settles packet block r r' =
     (receive packet r = (Some (ack_packet block), r') \<and> receive packet r' = (Some (ack_packet block), r'))"

lemma attempts_settle:
  assumes "settles packet block r r'" "x \<in> {r, r'}"
  shows "\<exists>m y. send_attempts k (lossy_network loss) packet block secs (n, x) =
      (Ok (\<exists>i < k. loss (n + i) = Delivered), m, y) \<and> y \<in> {r, r'} \<and>
      ((\<exists>i < k. loss (n + i) = Delivered) \<longrightarrow> y = r')"
  using assms(2)
proof (induction k arbitrary: n x)
  case (Suc k)
  have recv: "receive packet x = (Some (ack_packet block), r')"
    using assms(1) Suc.prems by (auto simp: settles_def)
  have split: "(\<exists>i < Suc k. loss (n + i) = Delivered) \<longleftrightarrow>
      loss n = Delivered \<or> (\<exists>i < k. loss (Suc n + i) = Delivered)"
    by (auto simp: Ex_less_Suc2)
  show ?case
  proof (cases "loss n")
    case Lost_Packet
    with Suc.IH [OF Suc.prems, of "Suc n"] show ?thesis unfolding split by (simp add: lossy_network_def)
  next
    case Lost_Ack
    with Suc.IH [of r' "Suc n"] recv show ?thesis unfolding split by (simp add: lossy_network_def)
  next
    case Delivered
    with recv show ?thesis unfolding split by (simp add: lossy_network_def)
  qed
qed simp

text \<open>
  What a step of a transfer does to the receiver's file: it grows by \<open>part\<close> when
  the step succeeds, and by a prefix of it when the network lost too much.
\<close>

definition transfers ::
  "(nat \<Rightarrow> loss) \<Rightarrow> tftp_receiver \<Rightarrow> bytes \<Rightarrow> (tftp_receiver \<Rightarrow> 'a \<Rightarrow> bool) \<Rightarrow>
   (tftp_error, 'a) outcome \<times> nat \<times> tftp_receiver \<Rightarrow> bool" where
  "transfers loss r part post res =
     (case res of (res, n, y) \<Rightarrow>
        prefix (rx_data y) (rx_data r @ part) \<and>
        (case res of
           Ok x \<Rightarrow> rx_data y = rx_data r @ part \<and> post y x
         | Err e \<Rightarrow> \<not> benign loss
         | Panic \<Rightarrow> False))"

lemma transfers_then:
  assumes "transfers loss r a P m"
    and "\<And>x n y. P y x \<Longrightarrow> rx_data y = rx_data r @ a \<Longrightarrow> transfers loss y b Q (k x (n, y))"
  shows "transfers loss r (a @ b) Q (then_do m k)"
proof -
  obtain res n y where m: "m = (res, n, y)" by (cases m) auto
  show ?thesis
  proof (cases res)
    case (Ok x)
    with assms(1) m have "P y x" "rx_data y = rx_data r @ a" by (simp_all add: transfers_def)
    with assms(2) [of y x n] show ?thesis by (auto simp: m Ok transfers_def split: outcome.splits)
  next
    case (Err e)
    with assms(1) have "prefix (rx_data y) (rx_data r @ a)" by (simp add: m transfers_def)
    then have "prefix (rx_data y) (rx_data r @ a @ b)" by (metis append_assoc prefix_prefix)
    with assms(1) show ?thesis by (simp add: m Err transfers_def)
  next
    case Panic
    with assms(1) show ?thesis by (simp add: m transfers_def)
  qed
qed

lemma acked_transfers:
  assumes "settles packet block r r'" "rx_data r' = rx_data r @ part"
  shows "transfers loss r part (\<lambda>y x. y = r') (acked (lossy_network loss) name ip secs packet block stage (n, r))"
proof -
  from attempts_settle [OF assms(1), of r 4 loss secs n]
  obtain m y where a: "send_attempts 4 (lossy_network loss) packet block secs (n, r) =
      (Ok (\<exists>i < 4. loss (n + i) = Delivered), m, y)" "y \<in> {r, r'}"
    "(\<exists>i < 4. loss (n + i) = Delivered) \<longrightarrow> y = r'" by blast
  then have run: "acked (lossy_network loss) name ip secs packet block stage (n, r) =
      (ensure (\<exists>i < 4. loss (n + i) = Delivered) (Ack_Timeout name ip stage), m, y)"
    by (simp only: acked_def send_tftp_with_ack_def) simp
  show ?thesis
  proof (cases "\<exists>i < 4. loss (n + i) = Delivered")
    case True
    with a assms(2) show ?thesis unfolding run by (auto simp: ensure_def transfers_def)
  next
    case False
    then have "\<not> benign loss" by (auto simp: benign_def)
    with False a assms(2) show ?thesis unfolding run by (auto simp: ensure_def transfers_def)
  qed
qed

definition taken :: "bytes \<Rightarrow> tftp_receiver \<Rightarrow> tftp_receiver" where
  "taken payload r = r \<lparr> rx_next := rx_next r + 1, rx_data := rx_data r @ payload,
     rx_done := length payload < rx_size r \<rparr>"

lemma data_transfers:
  assumes "\<not> rx_done r" "block = rx_next r"
  shows "transfers loss r payload (\<lambda>y x. y = taken payload r)
    (acked (lossy_network loss) name ip secs (data_packet block payload) block stage (n, r))"
  using assms by (intro acked_transfers) (simp_all add: settles_def receive_def taken_def Let_def)

text \<open>The loop over the blocks, from a receiver that waits for the next one.\<close>

lemma blocks_transfer:
  assumes "\<not> rx_done r" "block = rx_next r" "rx_size r = chunk" "0 < chunk"
  shows "transfers loss r rest
    (\<lambda>y b. b = rx_next y \<and> rx_size y = chunk \<and> (rx_done y \<longleftrightarrow> length rest mod chunk \<noteq> 0))
    (send_blocks (lossy_network loss) name ip secs chunk rest block (n, r))"
  using assms
proof (induction rest arbitrary: n r block rule: length_induct)
  case (1 rest)
  show ?case
  proof (cases "rest = []")
    case True
    with "1.prems" show ?thesis by (simp add: send_blocks.simps transfers_def)
  next
    case False
    let ?p = "take chunk rest" and ?rest = "drop chunk rest"
    have "transfers loss r (?p @ ?rest)
        (\<lambda>y b. b = rx_next y \<and> rx_size y = chunk \<and> (rx_done y \<longleftrightarrow> length rest mod chunk \<noteq> 0))
        (then_do (acked (lossy_network loss) name ip secs (data_packet block ?p) block (Stage_Data block) (n, r))
          (\<lambda>_ s. send_blocks (lossy_network loss) name ip secs chunk ?rest (block + 1) s))"
    proof (rule transfers_then [OF data_transfers [OF "1.prems"(1,2)]])
      fix m and y :: tftp_receiver
      assume y: "y = taken ?p r"
      show "transfers loss y ?rest
        (\<lambda>y b. b = rx_next y \<and> rx_size y = chunk \<and> (rx_done y \<longleftrightarrow> length rest mod chunk \<noteq> 0))
        (send_blocks (lossy_network loss) name ip secs chunk ?rest (block + 1) (m, y))"
      proof (cases "length rest < chunk")
        case True
        with False "1.prems" show ?thesis by (simp add: y send_blocks.simps transfers_def taken_def)
      next
        case short: False
        then have "\<not> rx_done y" "block + 1 = rx_next y" "rx_size y = chunk" "length ?rest < length rest"
          using "1.prems" False by (simp_all add: y taken_def)
        with "1.IH" "1.prems"(4) have "transfers loss y ?rest
            (\<lambda>y b. b = rx_next y \<and> rx_size y = chunk \<and> (rx_done y \<longleftrightarrow> length ?rest mod chunk \<noteq> 0))
            (send_blocks (lossy_network loss) name ip secs chunk ?rest (block + 1) (m, y))" by blast
        then show ?thesis using short by (simp add: le_mod_geq)
      qed
    qed
    then show ?thesis using False "1.prems"(4) by (subst send_blocks.simps) simp
  qed
qed

section \<open>The options the server acknowledges\<close>

definition plain_option :: "string \<times> string \<Rightarrow> bool" where
  "plain_option o' = (no_zero (fst o') \<and> no_zero (snd o') \<and> utf8_valid (snd o'))"

lemma dec_no_zero: "no_zero (dec n)"
  using dec_digits [of n] by (auto simp: no_zero_def list_all_iff list_ex_iff is_digit_def)

lemma clamp_u64_bounds: "lo \<le> hi \<Longrightarrow> lo \<le> clamp_u64 lo hi v \<and> clamp_u64 lo hi v \<le> hi"
  by (auto simp: clamp_u64_def)

text \<open>The options as the receiver reads them give the size the server uses.\<close>

definition agreed :: "tftp_options \<Rightarrow> bool" where
  "agreed opts =
     (list_all (\<lambda>(k, v). no_zero k \<and> no_zero v) (to_requested opts) \<and>
      8 \<le> unat (to_block_size opts) \<and>
      negotiated_size (concat (map (\<lambda>(k, v). [k, v]) (to_requested opts)) @ [[]]) 512 = unat (to_block_size opts))"

lemma negotiated_snoc:
  "negotiated_size (concat (map (\<lambda>(k, v). [k, v]) kvs) @ [key, val, []]) start =
     negotiated_size [key, val, []] (negotiated_size (concat (map (\<lambda>(k, v). [k, v]) kvs) @ [[]]) start)"
  by (induction kvs arbitrary: start) (auto split: option.splits)

lemma agreed_apply:
  assumes "agreed opts"
  shows "agreed (apply_option n key val opts)"
proof -
  have plain: "no_zero ''blksize''" "no_zero ''timeout''" "no_zero ''tsize''" by (simp_all add: no_zero_def byte_def)
  have "8 \<le> unat (clamp_u64 8 1468 v)" for v
    using clamp_u64_bounds [of 8 1468 v] by (simp add: word_le_nat_alt)
  with assms plain dec_no_zero show ?thesis
    by (simp add: agreed_def apply_option_def Let_def negotiated_snoc u64_from_dec split: option.split)
qed

lemma agreed_parse: "agreed opts \<Longrightarrow> agreed (parse_options n parts opts)"
  by (induction n parts opts rule: parse_options.induct) (simp_all add: agreed_apply)

lemma agreed_default: "agreed default_tftp_options"
  by (simp add: agreed_def default_tftp_options_def)

lemma oack_settles:
  assumes "agreed opts" "rx_next r = 1" "rx_data r = []"
  shows "settles (oack (to_requested opts)) 0 r (r \<lparr> rx_size := unat (to_block_size opts) \<rparr>)"
proof -
  have "u16_be 0 (oack (to_requested opts)) = 6" by (simp add: u16_be_def oack_def from_be_def from_le_def)
  moreover have "request_fields (oack (to_requested opts)) =
      concat (map (\<lambda>(k, v). [k, v]) (to_requested opts)) @ [[]]"
    using assms(1) option_fields by (simp add: request_fields_def oack_def agreed_def)
  ultimately show ?thesis using assms by (simp add: settles_def receive_def agreed_def)
qed

text \<open>The whole transfer.\<close>

lemma file_transfers:
  assumes "agreed opts"
  shows "transfers loss fresh_receiver file (\<lambda>y x. rx_done y)
    (send_file (lossy_network loss) name ip opts file (n, fresh_receiver))"
proof -
  let ?net = "lossy_network loss" and ?secs = "to_timeout_secs opts" and ?chunk = "unat (to_block_size opts)"
  let ?r = "fresh_receiver \<lparr> rx_size := ?chunk \<rparr>"
  have chunk: "0 < ?chunk" using assms by (simp add: agreed_def)
  have r: "\<not> rx_done ?r" "1 = rx_next ?r" "rx_size ?r = ?chunk" "rx_data ?r = rx_data fresh_receiver @ []"
    by (simp_all add: fresh_receiver_def)
  have settles: "settles (oack (to_requested opts)) 0 fresh_receiver ?r"
    using assms by (intro oack_settles) (simp_all add: fresh_receiver_def)
  have first: "transfers loss fresh_receiver [] (\<lambda>y x. y = ?r)
    (if to_requested opts \<noteq> [] then acked ?net name ip ?secs (oack (to_requested opts)) 0 Stage_Oack (n, fresh_receiver)
     else (Ok (), n, fresh_receiver))"
  proof (cases "to_requested opts = []")
    case True
    with assms show ?thesis by (simp add: transfers_def agreed_def fresh_receiver_def)
  next
    case False
    with acked_transfers [OF settles r(4)] show ?thesis by simp
  qed
  have "transfers loss fresh_receiver ([] @ file @ []) (\<lambda>y x. rx_done y)
    (send_file ?net name ip opts file (n, fresh_receiver))"
    unfolding send_file_def
  proof (rule transfers_then [OF first], rule transfers_then)
    fix m and y :: tftp_receiver assume "y = ?r"
    with blocks_transfer [OF r(1-3) chunk]
    show "transfers loss y file
      (\<lambda>y b. b = rx_next y \<and> rx_size y = ?chunk \<and> (rx_done y \<longleftrightarrow> length file mod ?chunk \<noteq> 0))
      (send_blocks ?net name ip ?secs ?chunk file 1 (m, y))" by simp
  next
    fix b m and y :: tftp_receiver
    assume b: "b = rx_next y \<and> rx_size y = ?chunk \<and> (rx_done y \<longleftrightarrow> length file mod ?chunk \<noteq> 0)"
    show "transfers loss y [] (\<lambda>y x. rx_done y)
      (if length file mod ?chunk = 0
       then acked ?net name ip ?secs (data_packet b []) b (Stage_Final b) (m, y) else (Ok (), m, y))"
    proof (cases "length file mod ?chunk = 0")
      case True
      with b have "\<not> rx_done y" "b = rx_next y" "rx_done (taken [] y)" using chunk by (simp_all add: taken_def)
      with True data_transfers [of y b loss "[]" name ip ?secs "Stage_Final b" m]
      show ?thesis by (auto simp: transfers_def split: prod.splits outcome.splits)
    next
      case False
      with b show ?thesis by (simp add: transfers_def)
    qed
  qed
  then show ?thesis by simp
qed

section \<open>Requests to the server\<close>

text \<open>
  The files the server may hand out: regular files whose canonical path lies
  below the canonical root.
\<close>

definition servable :: "file_system \<Rightarrow> path \<Rightarrow> path \<Rightarrow> bytes \<Rightarrow> bool" where
  "servable fs base q file =
     (\<exists>top. canonicalize fs base = Some top \<and> path_within top q \<and> canonical fs q \<and>
       node_at fs q = Some (Regular file))"

lemma located_servable:
  assumes "locate_file fs base name = Ok (Served q)" "read_file fs q = Some file" "proper_links fs"
    "list_all (\<lambda>c. c \<noteq> []) base"
  shows "servable fs base q file"
proof -
  have valid: "is_ok (validate_relative_path Unix_Host name)"
    using assms(1) by (auto simp: locate_file_def split: if_splits)
  obtain high where high: "canonicalize fs base = Some high"
    using assms(1) valid by (cases "canonicalize fs base") (auto simp: locate_file_def)
  have low: "path_within high q" "canonicalize fs (base @ path_of name) = Some q"
    using assms(1) valid high
    by (cases "canonicalize fs (base @ path_of name)"; auto simp: locate_file_def split: if_splits)+
  have "\<forall>c \<in> set (base @ path_of name). c \<noteq> []"
    using assms(4) path_of_components by (auto simp: list_all_iff)
  then have q: "canonical fs q"
    using follow_canonical [OF _ assms(3)] low(2) by (simp add: canonicalize_def split: if_splits)
  from canonical_follow [OF this] assms(2) have "node_at fs q = Some (Regular file)"
    unfolding read_file_def by (simp split: if_splits option.splits node.splits)
  with high low q show ?thesis by (auto simp: servable_def)
qed

text \<open>
  Any network, with a log of the packets handed to it: what it answers is a
  function of the packets so far.
\<close>

definition logging :: "(u64 \<Rightarrow> bytes list \<Rightarrow> answer) \<Rightarrow> (bytes list \<Rightarrow> bool) \<Rightarrow> bytes list tftp_network" where
  "logging react sends = \<lparr>
     tn_bind = (\<lambda>s. (sends s, s)),
     tn_exchange = (\<lambda>secs packet s. (react secs (s @ [packet]), s @ [packet])),
     tn_send = (\<lambda>packet s. (sends s, s @ [packet])) \<rparr>"

lemma attempts_log:
  "set (snd (send_attempts k (logging react sends) packet block secs s)) \<subseteq> insert packet (set s)"
proof (induction k arbitrary: s)
  case (Suc k)
  show ?case
    using Suc [of "s @ [packet]"] by (auto simp: logging_def split: answer.splits)
qed auto

lemma acked_log:
  "set (snd (acked (logging react sends) name ip secs packet block stage s)) \<subseteq> insert packet (set s)"
proof -
  obtain res s' where r: "send_attempts 4 (logging react sends) packet block secs s = (res, s')" by fastforce
  with attempts_log [of 4 react sends packet block secs s] show ?thesis
    by (cases res) (auto simp: acked_def send_tftp_with_ack_def)
qed

lemma blocks_log:
  "set (snd (send_blocks (logging react sends) name ip secs chunk rest block s)) \<subseteq>
     set s \<union> {data_packet n part | n part. sublist part rest}"
proof (induction rest arbitrary: block s rule: length_induct)
  case (1 rest)
  show ?case
  proof (cases "rest = [] \<or> chunk = 0")
    case False
    let ?p = "data_packet block (take chunk rest)"
    obtain res s' where a: "acked (logging react sends) name ip secs ?p block (Stage_Data block) s = (res, s')" by fastforce
    with acked_log [of react sends name ip secs ?p block "Stage_Data block" s]
    have "set s' \<subseteq> insert ?p (set s)" by simp
    moreover have "sublist (take chunk rest) rest" by (simp add: prefix_imp_sublist take_is_prefix)
    ultimately have first: "set s' \<subseteq> set s \<union> {data_packet n part | n part. sublist part rest}" by blast
    have "length (drop chunk rest) < length rest" using False by simp
    with "1.IH" have "set (snd (send_blocks (logging react sends) name ip secs chunk (drop chunk rest) (block + 1) s')) \<subseteq>
        set s' \<union> {data_packet n part | n part. sublist part (drop chunk rest)}" by blast
    moreover have "sublist part (drop chunk rest) \<Longrightarrow> sublist part rest" for part
      by (metis append_take_drop_id sublist_append sublist_def)
    ultimately have rest: "set (snd (send_blocks (logging react sends) name ip secs chunk (drop chunk rest) (block + 1) s')) \<subseteq>
        set s \<union> {data_packet n part | n part. sublist part rest}" using first by blast
    show ?thesis using False a first rest by (subst send_blocks.simps) (cases res; simp)
  qed (simp add: send_blocks.simps)
qed

text \<open>Packets that tell nothing of a file: errors, and acknowledged options.\<close>

definition data_of :: "file_system \<Rightarrow> path \<Rightarrow> bytes \<Rightarrow> bool" where
  "data_of fs base packet =
     (\<exists>q file block part. servable fs base q file \<and> sublist part file \<and> packet = data_packet block part)"

definition harmless :: "bytes \<Rightarrow> bool" where
  "harmless packet = ((\<exists>code message. packet = error_packet code message) \<or> (\<exists>requested. packet = oack requested))"

lemma error_log:
  "set (snd (send_tftp_error (logging react sends) code message s)) \<subseteq> insert (error_packet code message) (set s)"
  by (auto simp: send_tftp_error_def bound_def logging_def ensure_def)

lemma file_log:
  assumes "servable fs base q file" "\<forall>p \<in> set s. harmless p \<or> data_of fs base p"
    and "p \<in> set (snd (send_file (logging react sends) name ip opts file s))"
  shows "harmless p \<or> data_of fs base p"
proof -
  let ?net = "logging react sends" and ?secs = "to_timeout_secs opts" and ?chunk = "unat (to_block_size opts)"
  define good where "good p = (harmless p \<or> data_of fs base p)" for p
  have data: "sublist part file \<Longrightarrow> good (data_packet n part)" for n part
    using assms(1) by (auto simp: good_def data_of_def)
  have keeps: "\<lbrakk>\<forall>p \<in> set s. good p; good packet\<rbrakk> \<Longrightarrow>
      \<forall>p \<in> set (snd (acked ?net name ip ?secs packet block stage s)). good p" for s packet block stage
    using acked_log [of react sends name ip ?secs packet block stage s] by blast
  obtain r1 s1 where first: "(if to_requested opts \<noteq> []
      then acked ?net name ip ?secs (oack (to_requested opts)) 0 Stage_Oack s else (Ok (), s)) = (r1, s1)"
    by fastforce
  have g: "\<forall>p \<in> set s. good p" using assms(2) by (simp add: good_def)
  have "good (oack (to_requested opts))" by (auto simp: good_def harmless_def)
  with keeps [OF g, of "oack (to_requested opts)" 0 Stage_Oack] g first
  have g1: "\<forall>p \<in> set s1. good p" by (auto split: if_splits)
  obtain r2 s2 where blocks: "send_blocks ?net name ip ?secs ?chunk file 1 s1 = (r2, s2)" by fastforce
  with blocks_log [of react sends name ip ?secs ?chunk "file" 1 s1] g1 data
  have g2: "\<forall>p \<in> set s2. good p" by auto
  have final: "\<forall>p \<in> set (snd (acked ?net name ip ?secs (data_packet n []) n (Stage_Final n) s2)). good p" for n
    by (rule keeps [OF g2 data]) simp
  have "good p"
    using assms(3) g1 g2 final unfolding send_file_def first blocks
    by (cases r1; cases r2; simp add: blocks split: if_splits)
  then show ?thesis by (simp add: good_def)
qed

text \<open>
  C30.  Nothing leaves the server but error packets, acknowledged options, and
  pieces of regular files whose canonical path lies below the canonical root -
  whatever the request holds and however the network answers; and only a
  request to read obtains such a piece.
\<close>

theorem tftp_serves_only_its_root:
  assumes "serve_tftp_request (logging react sends) fs base ip clock request (clients, []) = (res, clients', log)"
    and "proper_links fs" "list_all (\<lambda>c. c \<noteq> []) base" "packet \<in> set log"
  shows "harmless packet \<or> data_of fs base packet \<and> u16_be 0 request = 1"
proof -
  let ?net = "logging react sends"
  have err: "send_tftp_error ?net code message [] = (r, s) \<Longrightarrow> packet \<in> set s \<Longrightarrow> harmless packet"
    for code message r s
    using error_log [of react sends code message "[]"] by (auto simp: harmless_def)
  show ?thesis
  proof (cases "u16_be 0 request = 1 \<and> 4 \<le> length request")
    case False
    with assms(1,4) err show ?thesis
      by (auto simp: serve_tftp_request_def split: if_splits prod.splits)
  next
    case True
    let ?fields = "request_fields request"
    from True have run: "serve_read ?net fs base ip clock ?fields (clients, []) = (res, clients', log)"
      using assms(1) by (simp add: serve_tftp_request_def)
    then obtain name where name: "from_utf8 (hd ?fields) = Some name"
      using assms(4) by (auto simp: serve_read_def split: option.splits)
    let ?name = "dropWhile slash name"
    show ?thesis
    proof (cases "\<exists>q file. locate_file fs base ?name = Ok (Served q) \<and> read_file fs q = Some file")
      case False
      with run assms(4) name err show ?thesis
        by (auto simp: serve_read_def Let_def split: outcome.splits served.splits option.splits prod.splits)
    next
      case True
      then obtain q bs where q: "locate_file fs base ?name = Ok (Served q)" "read_file fs q = Some bs" by blast
      let ?opts = "parse_options (word_of_nat (length bs)) (drop 2 ?fields) default_tftp_options"
      have "log = snd (then_do (bound ?net []) (\<lambda>_ s. send_file ?net ?name ip ?opts bs s))"
        using run name q by (auto simp: serve_read_def Let_def split: outcome.splits prod.splits)
      also have "\<dots> = (if sends [] then snd (send_file ?net ?name ip ?opts bs []) else [])"
        by (simp add: bound_def logging_def ensure_def)
      finally have "packet \<in> set (snd (send_file ?net ?name ip ?opts bs []))"
        using assms(4) by (simp split: if_splits)
      from file_log [OF located_servable [OF q assms(2,3)] _ this] \<open>u16_be 0 request = 1 \<and> 4 \<le> length request\<close>
      show ?thesis by simp
    qed
  qed
qed

text \<open>
  C31.  A client that follows the protocol obtains the file: over a network that
  loses packets and acknowledgements, what it has collected is always a prefix
  of the file; when the server reports success the client has the whole file
  and knows it; and the server does succeed if one of any four exchanges in a
  row gets through - with any options, for files of any number of blocks.
\<close>

theorem tftp_transfer_is_complete:
  assumes "locate_file fs base (dropWhile slash name) = Ok (Served q)" "read_file fs q = Some file"
    and "request_fields request = name # mode # parts" "utf8_valid name"
    and "u16_be 0 request = 1" "4 \<le> length request"
    and "serve_tftp_request (lossy_network loss) fs base ip clock request (clients, n, fresh_receiver) =
      (res, clients', m, client)"
  shows "prefix (rx_data client) file \<and> (res = Ok () \<longrightarrow> rx_data client = file \<and> rx_done client) \<and>
    (benign loss \<longrightarrow> res = Ok ())"
proof -
  let ?opts = "parse_options (word_of_nat (length file)) parts default_tftp_options"
  let ?run = "send_file (lossy_network loss) (dropWhile slash name) ip ?opts file (n, fresh_receiver)"
  have "then_do (bound (lossy_network loss) (n, fresh_receiver))
      (\<lambda>_ s. send_file (lossy_network loss) (dropWhile slash name) ip ?opts file s) = ?run"
    by (simp add: bound_def lossy_network_def ensure_def)
  with assms have "?run = (res, m, client)"
    by (auto simp: serve_tftp_request_def serve_read_def from_utf8_def Let_def split: outcome.splits prod.splits)
  with file_transfers [OF agreed_parse [OF agreed_default], of loss "file" "dropWhile slash name" ip
      "word_of_nat (length file)" parts n]
  have "transfers loss fresh_receiver file (\<lambda>y x. rx_done y) (res, m, client)" by simp
  then show ?thesis by (cases res) (auto simp: transfers_def fresh_receiver_def)
qed

section \<open>A sample transfer\<close>

definition boot_tree :: file_system where
  "boot_tree = \<lparr> fs_nodes = [([root, ''t''], Directory), ([root, ''t'', ''a''], Regular [1, 2, 3])],
     fs_directory = [root], fs_refuses = (\<lambda>c p. False) \<rparr>"

definition boot_request :: bytes where
  "boot_request = [0, 1] @ text_bytes ''/a'' @ [0] @ text_bytes ''octet'' @ [0]"

lemma boot_tree_paths:
  "canonicalize boot_tree [root, ''t''] = Some [root, ''t'']"
  "canonicalize boot_tree [root, ''t'', ''a''] = Some [root, ''t'', ''a'']"
  "is_file boot_tree [root, ''t'', ''a'']" "read_file boot_tree [root, ''t'', ''a''] = Some [1, 2, 3]"
  "proper_links boot_tree"
proof -
  have c: "canonical boot_tree [root, ''t'']" "canonical boot_tree [root, ''t'', ''a'']"
    by (auto simp: canonical_def directories_above_def node_at_def boot_tree_def root_def
        normal_component_def numeral_eq_Suc less_Suc_eq)
  note f = canonical_follow [OF c(1)] canonical_follow [OF c(2)]
  have n: "node_at boot_tree [root, ''t'', ''a''] = Some (Regular [1, 2, 3])" "\<not> fs_refuses boot_tree k p" for k p
    by (simp_all add: node_at_def boot_tree_def root_def)
  show "canonicalize boot_tree [root, ''t''] = Some [root, ''t'']"
    "canonicalize boot_tree [root, ''t'', ''a''] = Some [root, ''t'', ''a'']"
    "is_file boot_tree [root, ''t'', ''a'']" "read_file boot_tree [root, ''t'', ''a''] = Some [1, 2, 3]"
    by (simp_all add: canonicalize_def is_file_def metadata_def read_file_def f n)
  show "proper_links boot_tree" by (simp add: proper_links_def boot_tree_def root_def)
qed

lemma boot_request_parts:
  "request_fields boot_request = [''/a'', ''octet'', []]" "u16_be 0 boot_request = 1" "4 \<le> length boot_request"
  "from_utf8 ''/a'' = Some ''/a''" "utf8_valid ''/a''"
proof -
  have "drop 2 boot_request = text_bytes ''/a'' @ 0 # text_bytes ''octet'' @ [0]" by (simp add: boot_request_def)
  then show "request_fields boot_request = [''/a'', ''octet'', []]"
    by (simp add: request_fields_def) (simp add: byte_def)
  show "u16_be 0 boot_request = 1" "4 \<le> length boot_request"
    by (simp_all add: boot_request_def text_bytes_def u16_be_def from_be_def from_le_def)
  have "list_all is_ascii ''/a''" by (simp add: is_ascii_def byte_def)
  then show "from_utf8 ''/a'' = Some ''/a''" "utf8_valid ''/a''"
    by (rule from_utf8_ascii, rule utf8_valid_ascii)
qed

lemma boot_located: "locate_file boot_tree [root, ''t''] ''a'' = Ok (Served [root, ''t'', ''a''])"
proof -
  have "path_of ''a'' = [''a'']" by (simp add: path_of_def slash_def starts_with_def root_def)
  moreover have "validate_relative_path Unix_Host ''a'' = Ok ()"
    by (simp add: validate_relative_path_def path_separator_def drive_prefix_def byte_def)
  ultimately show ?thesis using boot_tree_paths by (simp add: locate_file_def path_within_def)
qed

lemma boot_name:
  "dropWhile slash ''/a'' = ''a''"
  "locate_file boot_tree [root, ''t''] (dropWhile slash ''/a'') = Ok (Served [root, ''t'', ''a''])"
  using boot_located by (simp_all add: slash_def)

lemma silent_exchange:
  "acked (logging (\<lambda>secs sent. Silence) sends) name ip secs packet block stage s =
     (Err (Ack_Timeout name ip stage), s @ replicate 4 packet)"
  by (simp add: acked_def send_tftp_with_ack_def logging_def ensure_def numeral_eq_Suc)

theorem tftp_serves_only_its_root_witness:
  "\<exists>res clients' log packet.
     serve_tftp_request (logging (\<lambda>secs sent. Silence) (\<lambda>sent. True)) boot_tree [root, ''t''] ''10.0.0.9'' (\<lambda>n. 0)
       boot_request ([], []) = (res, clients', log) \<and>
     packet \<in> set log \<and> (harmless packet \<or> data_of boot_tree [root, ''t''] packet)"
proof -
  let ?net = "logging (\<lambda>secs sent. Silence) (\<lambda>sent. True)"
  obtain res clients' log where run: "serve_tftp_request ?net boot_tree [root, ''t''] ''10.0.0.9'' (\<lambda>n. 0)
      boot_request ([], []) = (res, clients', log)" by (metis prod.collapse)
  have bound: "bound ?net s = (Ok (), s)" for s by (simp add: bound_def logging_def ensure_def)
  have send: "send_file ?net ''a'' ''10.0.0.9'' default_tftp_options [1, 2, 3] [] =
      (Err (Ack_Timeout ''a'' ''10.0.0.9'' (Stage_Data 1)), replicate 4 (data_packet 1 [1, 2, 3]))"
    by (simp add: send_file_def default_tftp_options_def send_blocks.simps silent_exchange)
  have "serve_read ?net boot_tree [root, ''t''] ''10.0.0.9'' (\<lambda>n. 0) [''/a'', ''octet'', []] ([], []) =
      (Err (Ack_Timeout ''a'' ''10.0.0.9'' (Stage_Data 1)), [], replicate 4 (data_packet 1 [1, 2, 3]))"
    unfolding serve_read_def list.sel boot_request_parts option.case Let_def boot_name boot_located
    by (simp add: boot_tree_paths bound send default_tftp_options_def [symmetric] update_client_stage_by_ip_def)
  then have "data_packet 1 [1, 2, 3] \<in> set log"
    using run boot_request_parts(3) unfolding serve_tftp_request_def boot_request_parts(1,2) by auto
  from tftp_serves_only_its_root [OF run boot_tree_paths(5) _ this] this run show ?thesis
    by (auto simp: root_def)
qed

theorem tftp_transfer_is_complete_witness:
  "\<exists>clients' m client.
     serve_tftp_request (lossy_network (\<lambda>n. if even n then Lost_Ack else Delivered)) boot_tree [root, ''t''] ''10.0.0.9''
       (\<lambda>n. 0) boot_request ([], 0, fresh_receiver) = (Ok (), clients', m, client) \<and>
     rx_data client = [1, 2, 3] \<and> rx_done client"
proof -
  let ?loss = "\<lambda>n :: nat. if even n then Lost_Ack else Delivered"
  obtain res clients' m client where run: "serve_tftp_request (lossy_network ?loss) boot_tree [root, ''t''] ''10.0.0.9''
      (\<lambda>n. 0) boot_request ([], 0, fresh_receiver) = (res, clients', m, client)" by (metis prod.collapse)
  have "benign ?loss"
  proof (unfold benign_def, rule allI)
    fix n :: nat
    have "?loss (n + (if even n then 1 else 0)) = Delivered" by simp
    then show "\<exists>k < 4. ?loss (n + k) = Delivered" by (intro exI [of _ "if even n then 1 else 0"]) auto
  qed
  with tftp_transfer_is_complete [OF boot_name(2) boot_tree_paths(4) boot_request_parts(1,5,2,3) run]
  show ?thesis using run by auto
qed

end
