(* ===== verification/Boot_Config.thy ===== *)
theory Boot_Config
  imports Unicode_Text Byte_Codec
begin

text \<open>
  The boot configuration store of a WinPE package (\<open>crates/bcd/src/lib.rs\<close>): the
  values the service writes into a new store, and the check of a store before it
  is published.  The registry file format is the \<open>regf\<close> crate's and so a
  parameter: building a hive from values at paths, opening one, reading a value.
\<close>

section \<open>Registry hives\<close>

datatype data_type = Reg_String | Reg_Dword | Reg_Multi_String | Reg_Binary

text \<open>A value pushed below the key of a path; the code's tree is the list of its values.\<close>

record reg_entry =
  re_path :: string
  re_name :: string
  re_type :: data_type
  re_data :: bytes

text \<open>Where a value lies in the file: the offsets count from the first bin.\<close>

record raw_entry =
  rw_resident :: bool
  rw_data_offset :: u32
  rw_offset :: u32

record 'h regf =
  rg_build :: "string \<Rightarrow> reg_entry list \<Rightarrow> bytes option"
  rg_open :: "bytes \<Rightarrow> 'h option"
  rg_raw :: "'h \<Rightarrow> string \<Rightarrow> string \<Rightarrow> bytes option"
  rg_text :: "'h \<Rightarrow> string \<Rightarrow> string \<Rightarrow> string option"
  rg_entry :: "'h \<Rightarrow> string \<Rightarrow> string \<Rightarrow> raw_entry option"

datatype bcd_error =
    Invalid_Hive_Size | Unsupported_Loader string | Registry_Error | Invalid_Bcd string
  | Setup_Cmdline_Missing | Setup_Cmdline_Capacity

definition max_hive_bytes :: nat where "max_hive_bytes = 64 * 1024 * 1024"

definition checked_hive :: "'h regf \<Rightarrow> bytes \<Rightarrow> (bcd_error, 'h) outcome" where
  "checked_hive rg bs =
     (if bs = [] \<or> max_hive_bytes < length bs then Err Invalid_Hive_Size
      else ok_or (rg_open rg bs) Registry_Error)"

section \<open>Constants\<close>

text \<open>Backslashes of the source are written as slashes here.\<close>

definition windows_text :: "string \<Rightarrow> string" where
  "windows_text s = map (\<lambda>c. if c = CHR ''/'' then CHR 0x5C else c) s"

definition boot_manager_id :: string where "boot_manager_id = ''{9dea862c-5cdd-4e70-acc1-f32b344d4795}''"
definition ramdisk_options_id :: string where "ramdisk_options_id = ''{ae5534e0-a924-466c-b836-758539a3ee3a}''"
definition winpe_loader_id :: string where "winpe_loader_id = ''{9f2f2f90-0f5a-4d8b-9e9f-5decb22bbf0a}''"
definition standard_loader_path :: string where
  "standard_loader_path = windows_text ''/windows/system32/winload.exe''"
definition system32_loader_path :: string where
  "system32_loader_path = windows_text ''/windows/system32/boot/winload.exe''"
definition agent_shell :: string where
  "agent_shell = windows_text ''X:/EasyDeployMesh/easydeploymesh-shell.exe''"

datatype winpe_bcd_policy = Standard | Usm_Legacy

definition validate_loader :: "string \<Rightarrow> (bcd_error, unit) outcome" where
  "validate_loader loader =
     (if eq_ignore_case loader standard_loader_path \<or> eq_ignore_case loader system32_loader_path
      then Ok () else Err (Unsupported_Loader loader))"

section \<open>Values\<close>

definition object_path :: "string \<Rightarrow> string \<Rightarrow> string" where
  "object_path i suffix = ''Objects'' @ [CHR 0x5C] @ i @ [CHR 0x5C] @ suffix"

definition element :: "string \<Rightarrow> string" where
  "element number = ''Elements'' @ [CHR 0x5C] @ number"

definition utf16 :: "string \<Rightarrow> bytes" where
  "utf16 s = concat (map (le_bytes 2) (utf16_units s @ [0]))"

definition put_element :: "string \<Rightarrow> data_type \<Rightarrow> bytes \<Rightarrow> reg_entry" where
  "put_element p t bs = \<lparr> re_path = p, re_name = ''Element'', re_type = t, re_data = bs \<rparr>"

definition describe :: "string \<Rightarrow> u32 \<Rightarrow> reg_entry" where
  "describe i object_type =
     \<lparr> re_path = object_path i ''Description'', re_name = ''Type'', re_type = Reg_Dword,
       re_data = le_bytes 4 object_type \<rparr>"

text \<open>Writing a range of a buffer that holds it.\<close>

definition overwrite :: "nat \<Rightarrow> bytes \<Rightarrow> bytes \<Rightarrow> bytes" where
  "overwrite i new bs = take i bs @ new @ drop (i + length new) bs"

definition boot_device_blob :: bytes where
  "boot_device_blob =
     overwrite 24 (le_bytes 4 (0x48 :: u32)) (overwrite 16 (le_bytes 4 (5 :: u32)) (replicate (16 + 0x48) 0))"

text \<open>Two hexadecimal digits as a byte.\<close>

definition hex_value :: "char \<Rightarrow> nat" where
  "hex_value c =
     (if is_digit c then byte c - 48 else if is_lower c then byte c - 87 else byte c - 55)"

fun hex_pairs :: "string \<Rightarrow> bytes" where
  "hex_pairs (a # b # s) = word_of_nat (16 * hex_value a + hex_value b) # hex_pairs s"
| "hex_pairs s = []"

definition guid_bytes :: "string \<Rightarrow> (bcd_error, bytes) outcome" where
  "guid_bytes guid =
     (let digits = filter is_hex guid in
      if length digits \<noteq> 32 then Err (Invalid_Bcd ''GUID'')
      else
        let bs = hex_pairs digits in
        Ok (rev (take 4 bs) @ rev (take 2 (drop 4 bs)) @ rev (take 2 (drop 6 bs)) @ drop 8 bs))"

definition ramdisk_device_blob :: "(bcd_error, bytes) outcome" where
  "ramdisk_device_blob =
     map_ok (\<lambda>guid.
       let path = utf16 (windows_text ''/Boot/boot.wim'');
           output_len = 134 + length path in
       overwrite 134 path
        (overwrite 76 [0x48]
        (overwrite 68 (le_bytes 4 (5 :: u32))
        (overwrite 67 [5]
        (overwrite 60 (le_bytes 4 (word_of_nat (output_len - 50) :: u32))
        (overwrite 56 (le_bytes 4 (1 :: u32))
        (overwrite 32 (le_bytes 4 (3 :: u32))
        (overwrite 24 (le_bytes 4 (word_of_nat (output_len - 10) :: u32))
        (overwrite 20 (le_bytes 4 (1 :: u32))
        (overwrite 0 guid (replicate output_len 0)))))))))))
     (guid_bytes ramdisk_options_id)"

definition display_order :: bytes where "display_order = utf16 winpe_loader_id @ [0, 0]"

section \<open>A new store\<close>

definition policy_entry :: "winpe_bcd_policy \<Rightarrow> string \<Rightarrow> string \<Rightarrow> reg_entry list" where
  "policy_entry policy i number =
     (if policy = Usm_Legacy then [put_element (object_path i (element number)) Reg_Binary [1]] else [])"

definition winpe_entries :: "string \<Rightarrow> winpe_bcd_policy \<Rightarrow> bytes \<Rightarrow> reg_entry list" where
  "winpe_entries loader policy ramdisk =
     (let manager = (\<lambda>number. object_path boot_manager_id (element number));
          options = (\<lambda>number. object_path ramdisk_options_id (element number));
          winpe = (\<lambda>number. object_path winpe_loader_id (element number)) in
      [\<lparr> re_path = ''Description'', re_name = ''KeyName'', re_type = Reg_String, re_data = utf16 ''BCD00000001'' \<rparr>,
       \<lparr> re_path = ''Description'', re_name = ''System'', re_type = Reg_Dword, re_data = le_bytes 4 (1 :: u32) \<rparr>,
       describe boot_manager_id 0x10100002,
       put_element (manager ''12000004'') Reg_String (utf16 ''EasyDeployMesh Boot Manager''),
       put_element (manager ''23000003'') Reg_String (utf16 winpe_loader_id),
       put_element (manager ''24000001'') Reg_Multi_String display_order,
       put_element (manager ''25000004'') Reg_Binary (le_bytes 8 (0 :: u64))] @
      policy_entry policy boot_manager_id ''16000048'' @
      [describe ramdisk_options_id 0x30000000,
       put_element (options ''12000004'') Reg_String (utf16 ''EasyDeployMesh RAM disk''),
       put_element (options ''31000003'') Reg_Binary boot_device_blob,
       put_element (options ''32000004'') Reg_String (utf16 (windows_text ''/Boot/boot.sdi'')),
       describe winpe_loader_id 0x10200003,
       put_element (winpe ''11000001'') Reg_Binary ramdisk,
       put_element (winpe ''21000001'') Reg_Binary ramdisk,
       put_element (winpe ''12000002'') Reg_String (utf16 loader),
       put_element (winpe ''12000004'') Reg_String (utf16 ''EasyDeployMesh Windows PE''),
       put_element (winpe ''22000002'') Reg_String (utf16 (windows_text ''/windows'')),
       put_element (winpe ''26000010'') Reg_Binary [1],
       put_element (winpe ''26000022'') Reg_Binary [1]] @
      policy_entry policy winpe_loader_id ''16000049'')"

section \<open>The check of a store\<close>

definition expect :: "'h regf \<Rightarrow> 'h \<Rightarrow> string \<times> bytes \<times> string \<Rightarrow> (bcd_error, unit) outcome" where
  "expect rg h = (\<lambda>(path, expected, label).
     ensure (rg_raw rg h path ''Element'' = Some expected) (Invalid_Bcd label))"

definition boot_expectations :: "string \<Rightarrow> (string \<times> bytes \<times> string) list" where
  "boot_expectations loader =
     (let manager = (\<lambda>number. object_path boot_manager_id (element number));
          options = (\<lambda>number. object_path ramdisk_options_id (element number));
          winpe = (\<lambda>number. object_path winpe_loader_id (element number)) in
      [(manager ''12000004'', utf16 ''EasyDeployMesh Boot Manager'', ''boot manager description''),
       (manager ''23000003'', utf16 winpe_loader_id, ''default loader''),
       (manager ''24000001'', display_order, ''display order''),
       (manager ''25000004'', le_bytes 8 (0 :: u64), ''timeout''),
       (options ''31000003'', boot_device_blob, ''boot.sdi device''),
       (options ''32000004'', utf16 (windows_text ''/Boot/boot.sdi''), ''boot.sdi path''),
       (winpe ''12000002'', utf16 loader, ''loader path''),
       (winpe ''22000002'', utf16 (windows_text ''/windows''), ''system root''),
       (winpe ''26000010'', [1], ''detecthal''),
       (winpe ''26000022'', [1], ''WinPE mode'')])"

definition ramdisk_expectations :: "bytes \<Rightarrow> (string \<times> bytes \<times> string) list" where
  "ramdisk_expectations ramdisk =
     map (\<lambda>number. (object_path winpe_loader_id (element number), ramdisk, ''ramdisk device''))
       [''11000001'', ''21000001'']"

fun expect_all :: "'h regf \<Rightarrow> 'h \<Rightarrow> (string \<times> bytes \<times> string) list \<Rightarrow> (bcd_error, unit) outcome" where
  "expect_all rg h [] = Ok ()"
| "expect_all rg h (e # es) = and_then (expect rg h e) (\<lambda>_. expect_all rg h es)"

definition check_policy ::
  "'h regf \<Rightarrow> 'h \<Rightarrow> winpe_bcd_policy \<Rightarrow> string \<Rightarrow> string \<Rightarrow> string \<Rightarrow> (bcd_error, unit) outcome" where
  "check_policy rg h policy i number label =
     (let actual = rg_raw rg h (object_path i (element number)) ''Element'' in
      ensure (case policy of Standard \<Rightarrow> actual = None | Usm_Legacy \<Rightarrow> actual = Some [1]) (Invalid_Bcd label))"

definition validate_winpe_bcd_with_policy ::
  "'h regf \<Rightarrow> bytes \<Rightarrow> string \<Rightarrow> winpe_bcd_policy \<Rightarrow> (bcd_error, unit) outcome" where
  "validate_winpe_bcd_with_policy rg bs loader policy =
     and_then (validate_loader loader) (\<lambda>_.
     and_then (checked_hive rg bs) (\<lambda>h.
     and_then (expect_all rg h (boot_expectations loader)) (\<lambda>_.
     and_then ramdisk_device_blob (\<lambda>ramdisk.
     and_then (expect_all rg h (ramdisk_expectations ramdisk)) (\<lambda>_.
     and_then (check_policy rg h policy boot_manager_id ''16000048'' ''no-integrity-check policy'') (\<lambda>_.
     check_policy rg h policy winpe_loader_id ''16000049'' ''test-signing policy''))))))"

definition validate_winpe_bcd :: "'h regf \<Rightarrow> bytes \<Rightarrow> string \<Rightarrow> (bcd_error, unit) outcome" where
  "validate_winpe_bcd rg bs loader = validate_winpe_bcd_with_policy rg bs loader Standard"

definition create_winpe_bcd_with_policy ::
  "'h regf \<Rightarrow> string \<Rightarrow> winpe_bcd_policy \<Rightarrow> (bcd_error, bytes) outcome" where
  "create_winpe_bcd_with_policy rg loader policy =
     and_then (validate_loader loader) (\<lambda>_.
     and_then ramdisk_device_blob (\<lambda>ramdisk.
     and_then (ok_or (rg_build rg ''BCD00000001'' (winpe_entries loader policy ramdisk)) Registry_Error) (\<lambda>bs.
     map_ok (\<lambda>_. bs) (validate_winpe_bcd_with_policy rg bs loader policy))))"

definition create_winpe_bcd :: "'h regf \<Rightarrow> string \<Rightarrow> (bcd_error, bytes) outcome" where
  "create_winpe_bcd rg loader = create_winpe_bcd_with_policy rg loader Standard"

section \<open>What the hive crate promises\<close>

text \<open>Registry names are compared without regard to case.\<close>

definition fold_case :: "string \<Rightarrow> string" where "fold_case s = map to_lower s"

definition entry_key :: "reg_entry \<Rightarrow> string \<times> string" where
  "entry_key e = (fold_case (re_path e), fold_case (re_name e))"

definition holds :: "'h regf \<Rightarrow> bytes \<Rightarrow> reg_entry list \<Rightarrow> bool" where
  "holds rg bs es =
     (\<exists>h. rg_open rg bs = Some h \<and>
       (\<forall>p n. rg_raw rg h p n = map_of (map (\<lambda>e. (entry_key e, re_data e)) es) (fold_case p, fold_case n)))"

text \<open>A hive built of values at different places holds them and no others.\<close>

definition faithful_builder :: "'h regf \<Rightarrow> bool" where
  "faithful_builder rg =
     (\<forall>name es bs. distinct (map entry_key es) \<and> rg_build rg name es = Some bs \<longrightarrow> holds rg bs es)"

section \<open>A created store passes its check, and no other\<close>

lemma ramdisk_blob: "\<exists>ramdisk. ramdisk_device_blob = Ok ramdisk"
proof -
  have "length (filter is_hex ramdisk_options_id) = 32"
    by (simp add: ramdisk_options_id_def is_hex_def is_digit_def byte_def)
  then show ?thesis by (simp add: ramdisk_device_blob_def guid_bytes_def Let_def)
qed

text \<open>The places of the values, as the crate compares them.\<close>

lemmas place_defs = put_element_def describe_def object_path_def element_def entry_key_def fold_case_def
  boot_manager_id_def ramdisk_options_id_def winpe_loader_id_def to_lower_def byte_def is_upper_def

lemma entries_distinct: "distinct (map entry_key (winpe_entries loader policy ramdisk))"
  by (cases policy) (simp_all add: winpe_entries_def policy_entry_def place_defs)


lemma utf16_inject:
  assumes "list_all is_ascii s" "list_all is_ascii t"
  shows "utf16 s = utf16 t \<longleftrightarrow> s = t"
proof
  have units: "concat (map (le_bytes 2) us) = concat (map (le_bytes 2) vs) \<Longrightarrow> us = vs" for us vs :: "u16 list"
  proof (induction us arbitrary: vs)
    case Nil
    then show ?case by (cases vs) (auto dest: arg_cong [of _ _ length])
  next
    case (Cons u us)
    then obtain v vs' where vs: "vs = v # vs'" by (cases vs) (auto dest: arg_cong [of _ _ length])
    with Cons.prems have "le_bytes 2 u = le_bytes 2 v" "concat (map (le_bytes 2) us) = concat (map (le_bytes 2) vs')"
      by (simp_all add: append_eq_append_conv)
    with Cons.IH vs show ?case by simp
  qed
  assume "utf16 s = utf16 t"
  with units have "map (\<lambda>c. word_of_nat (byte c) :: u16) s = map (\<lambda>c. word_of_nat (byte c)) t"
    by (force simp: utf16_def utf16_ascii assms simp del: map_map)
  moreover have "inj_on (\<lambda>c. word_of_nat (byte c) :: u16) (set s \<union> set t)"
  proof (rule inj_onI)
    fix c d assume "word_of_nat (byte c) = (word_of_nat (byte d) :: u16)"
    then have "unat (word_of_nat (byte c) :: u16) = unat (word_of_nat (byte d) :: u16)" by simp
    moreover have "byte c < 65536" "byte d < 65536" using byte_less [of c] byte_less [of d] by linarith+
    ultimately have "byte c = byte d" by (simp add: unsigned_of_nat take_bit_nat_eq_self)
    then show "c = d" by (simp add: byte_def)
  qed
  ultimately show "s = t" by (rule map_inj_on)
qed simp

lemma supported_ascii:
  assumes "is_ok (validate_loader loader)"
  shows "list_all is_ascii loader"
proof -
  have up: "is_ascii (to_lower c) = is_ascii c" for c by (auto simp: is_ascii_def to_lower_def is_upper_def)
  obtain t where t: "eq_ignore_case loader t" "list_all is_ascii t"
    using assms
    by (fastforce simp: validate_loader_def standard_loader_path_def system32_loader_path_def windows_text_def
        is_ascii_def byte_def split: if_splits)
  then have "map to_lower loader = map to_lower t" "list_all is_ascii (map to_lower t)"
    by (simp_all add: eq_ignore_case_def list.pred_map comp_def up)
  then have "list_all is_ascii (map to_lower loader)" by simp
  then show ?thesis by (simp add: list.pred_map comp_def up)
qed

text \<open>What the values of a new store answer to the checks.\<close>

definition answers :: "(string \<Rightarrow> bytes option) \<Rightarrow> string \<Rightarrow> winpe_bcd_policy \<Rightarrow> bytes \<Rightarrow> bool" where
  "answers raw loader policy ramdisk =
     (list_all (\<lambda>(path, expected, label). raw path = Some expected)
        (boot_expectations loader @ ramdisk_expectations ramdisk) \<and>
      raw (object_path boot_manager_id (element ''16000048'')) = (if policy = Usm_Legacy then Some [1] else None) \<and>
      raw (object_path winpe_loader_id (element ''16000049'')) = (if policy = Usm_Legacy then Some [1] else None))"

lemma entries_answer:
  "answers (\<lambda>p. map_of (map (\<lambda>e. (entry_key e, re_data e)) (winpe_entries loader policy ramdisk))
     (fold_case p, fold_case ''Element'')) loader policy ramdisk"
  by (cases policy)
    (simp_all add: answers_def boot_expectations_def ramdisk_expectations_def winpe_entries_def policy_entry_def place_defs)

lemma answers_pass:
  assumes "answers raw loader policy ramdisk" "ramdisk_device_blob = Ok ramdisk"
    and "is_ok (validate_loader loader')" "checked_hive rg bs = Ok h" "raw = (\<lambda>p. rg_raw rg h p ''Element'')"
    and "is_ok (validate_loader loader)"
  shows "validate_winpe_bcd_with_policy rg bs loader' policy' = Ok () \<longleftrightarrow> loader' = loader \<and> policy' = policy"
proof -
  have ascii: "utf16 loader' = utf16 loader \<longleftrightarrow> loader' = loader"
    using assms(3,6) by (intro utf16_inject supported_ascii)
  have all: "expect_all rg h es = Ok () \<longleftrightarrow> list_all (\<lambda>(p, bs, l). raw p = Some bs) es" for es
    by (induction es) (auto simp: outcome_simps expect_def assms(5) split: prod.splits)
  have loaders: "list_all (\<lambda>(p, bs, l). raw p = Some bs) (boot_expectations loader') \<longleftrightarrow> loader' = loader"
    using assms(1) ascii by (auto simp: answers_def boot_expectations_def Let_def)
  have ramdisk: "list_all (\<lambda>(p, bs, l). raw p = Some bs) (ramdisk_expectations ramdisk)"
    using assms(1) by (simp add: answers_def)
  have policies: "check_policy rg h policy' boot_manager_id ''16000048'' label = Ok () \<longleftrightarrow> policy' = policy"
    "check_policy rg h policy' winpe_loader_id ''16000049'' label = Ok () \<longleftrightarrow> policy' = policy" for label
    using assms(1,5) by (cases policy; cases policy'; auto simp: answers_def check_policy_def outcome_simps Let_def)+
  from assms(3) obtain u where "validate_loader loader' = Ok u" by (auto simp: is_ok_iff)
  then show ?thesis
    by (auto simp: validate_winpe_bcd_with_policy_def outcome_simps assms(2,4) all loaders ramdisk policies)
qed

text \<open>
  C35.  The store the service creates for a loader and a policy is published -
  its own check never refuses it - and the check recognises it exactly: it
  accepts the store for that loader and that policy, and for no other.
\<close>

theorem created_store_is_recognised:
  assumes "faithful_builder rg" "is_ok (validate_loader loader)" "ramdisk_device_blob = Ok ramdisk"
    and "rg_build rg ''BCD00000001'' (winpe_entries loader policy ramdisk) = Some bs"
    and "bs \<noteq> []" "length bs \<le> max_hive_bytes" "is_ok (validate_loader loader')"
  shows "create_winpe_bcd_with_policy rg loader policy = Ok bs \<and>
    (validate_winpe_bcd_with_policy rg bs loader' policy' = Ok () \<longleftrightarrow> loader' = loader \<and> policy' = policy)"
proof -
  from assms(1,4) entries_distinct obtain h where h: "rg_open rg bs = Some h"
    and raw: "\<And>p n. rg_raw rg h p n = map_of (map (\<lambda>e. (entry_key e, re_data e)) (winpe_entries loader policy ramdisk))
      (fold_case p, fold_case n)"
    by (fastforce simp: faithful_builder_def holds_def)
  have opened: "checked_hive rg bs = Ok h" using assms(5,6) h by (simp add: checked_hive_def)
  have "answers (\<lambda>p. rg_raw rg h p ''Element'') loader policy ramdisk"
    unfolding raw by (rule entries_answer)
  note pass = answers_pass [OF this assms(3) _ opened refl assms(2)]
  from assms(2) obtain u where "validate_loader loader = Ok u" by (auto simp: is_ok_iff)
  with pass [OF assms(2), of policy] have "create_winpe_bcd_with_policy rg loader policy = Ok bs"
    by (simp add: create_winpe_bcd_with_policy_def assms(3,4))
  with pass [OF assms(7)] show ?thesis by blast
qed

text \<open>A builder that can build one store.\<close>

definition sample_regf :: "reg_entry list regf" where
  "sample_regf = \<lparr>
     rg_build = (\<lambda>name es. case ramdisk_device_blob of
        Ok ramdisk \<Rightarrow> if es = winpe_entries standard_loader_path Usm_Legacy ramdisk then Some [1] else None
      | _ \<Rightarrow> None),
     rg_open = (\<lambda>bs. case ramdisk_device_blob of
        Ok ramdisk \<Rightarrow> Some (winpe_entries standard_loader_path Usm_Legacy ramdisk) | _ \<Rightarrow> None),
     rg_raw = (\<lambda>es p n. map_of (map (\<lambda>e. (entry_key e, re_data e)) es) (fold_case p, fold_case n)),
     rg_text = (\<lambda>h p n. None), rg_entry = (\<lambda>h p n. None) \<rparr>"

theorem created_store_is_recognised_witness:
  "create_winpe_bcd_with_policy sample_regf standard_loader_path Usm_Legacy = Ok [1] \<and>
   validate_winpe_bcd sample_regf [1] standard_loader_path \<noteq> Ok ()"
proof -
  obtain ramdisk where r: "ramdisk_device_blob = Ok ramdisk" using ramdisk_blob by blast
  have f: "faithful_builder sample_regf"
    by (auto simp: faithful_builder_def holds_def sample_regf_def r split: if_splits)
  have ok: "is_ok (validate_loader standard_loader_path)" by (simp add: validate_loader_def)
  have b: "rg_build sample_regf ''BCD00000001'' (winpe_entries standard_loader_path Usm_Legacy ramdisk) = Some [1]"
    by (simp add: sample_regf_def r)
  from created_store_is_recognised [OF f ok r b _ _ ok, of Standard] show ?thesis
    by (simp add: validate_winpe_bcd_def max_hive_bytes_def)
qed

end
