(* ===== verification/Hive_Patch.thy ===== *)
theory Hive_Patch
  imports Boot_Config
begin

text \<open>
  The one offline change to a registry hive (\<open>replace_setup_cmdline\<close> in
  \<open>crates/bcd/src/lib.rs\<close>): the command line of \<open>Setup\<close> is replaced in the
  file's bytes, in its own cell when the text fits and in a free cell otherwise.
  Offsets are \<open>usize\<close> of 64 bits, so no sum of them wraps; a range outside the
  buffer is a panic.
\<close>

section \<open>Words in a buffer\<close>

definition regf_header_bytes :: nat where "regf_header_bytes = 4096"

definition u32_at :: "nat \<Rightarrow> bytes \<Rightarrow> u32" where
  "u32_at i bs = from_le (take 4 (drop i bs))"

text \<open>The header of a cell: a negative number of bytes is allocated, a positive one free.\<close>

definition i32_at :: "nat \<Rightarrow> bytes \<Rightarrow> int" where "i32_at i bs = sint (u32_at i bs)"

definition unsigned_abs :: "int \<Rightarrow> nat" where "unsigned_abs n = nat \<bar>n\<bar>"

definition i32_bytes :: "int \<Rightarrow> bytes" where "i32_bytes n = le_bytes 4 (word_of_int n :: u32)"

definition write_at :: "nat \<Rightarrow> bytes \<Rightarrow> bytes \<Rightarrow> (bcd_error, bytes) outcome" where
  "write_at i new bs = (if i + length new \<le> length bs then Ok (overwrite i new bs) else Panic)"

section \<open>Free cells\<close>

text \<open>
  The cells of one bin: the offset of a free cell of the size, \<open>None\<close> when the
  cells tile the bin and none is free, and a fault for anything else.
\<close>

function find_in_bin :: "bytes \<Rightarrow> nat \<Rightarrow> nat \<Rightarrow> nat \<Rightarrow> (unit, nat option) outcome" where
  "find_in_bin bs required cell limit =
     (if cell + 4 \<le> limit then
        let signed = i32_at cell bs; cell_size = unsigned_abs signed in
        if signed = - (2 ^ 31) \<or> signed = 0 then Err ()
        else if cell_size < 8 \<or> cell_size mod 8 \<noteq> 0 \<or> cell + cell_size > limit then Err ()
        else if 0 < signed \<and> required \<le> cell_size then Ok (Some cell)
        else find_in_bin bs required (cell + cell_size) limit
      else if cell \<noteq> limit then Err () else Ok None)"
  by pat_completeness auto
termination by (relation "measure (\<lambda>(bs, required, cell, limit). limit - cell)") (auto simp: Let_def)

declare find_in_bin.simps [simp del]

definition hbin_mark :: bytes where "hbin_mark = [104, 98, 105, 110]"

function find_in_bins :: "bytes \<Rightarrow> nat \<Rightarrow> nat \<Rightarrow> nat option" where
  "find_in_bins bs required bin =
     (if bin + 32 \<le> length bs then
        let bin_size = unat (u32_at (bin + 8) bs); limit = bin + bin_size in
        if take 4 (drop bin bs) \<noteq> hbin_mark \<or> bin_size < 32 \<or> limit > length bs then None
        else case find_in_bin bs required (bin + 32) limit of
            Ok (Some cell) \<Rightarrow> Some cell
          | Ok None \<Rightarrow> find_in_bins bs required limit
          | _ \<Rightarrow> None
      else None)"
  by pat_completeness auto
termination by (relation "measure (\<lambda>(bs, required, bin). length bs - bin)") (auto simp: Let_def)

declare find_in_bins.simps [simp del]

definition find_free_cell :: "bytes \<Rightarrow> nat \<Rightarrow> nat option" where
  "find_free_cell bs required = find_in_bins bs required regf_header_bytes"

section \<open>The header's checksum\<close>

fun xor_words :: "bytes \<Rightarrow> u32" where
  "xor_words (a # b # c # d # bs) = xor (from_le [a, b, c, d]) (xor_words bs)"
| "xor_words bs = 0"

definition header_checksum :: "bytes \<Rightarrow> u32" where
  "header_checksum bs =
     (let x = xor_words (take 508 bs) in if x = 0 then 1 else if x = - 1 then - 2 else x)"

definition update_checksum :: "bytes \<Rightarrow> (bcd_error, bytes) outcome" where
  "update_checksum bs =
     (if length bs < 8 then Panic
      else
        let sequence = u32_at 4 bs + 1 in
        and_then (write_at 4 (le_bytes 4 sequence) bs) (\<lambda>bs.
        and_then (write_at 8 (le_bytes 4 sequence) bs) (\<lambda>bs.
        and_then (write_at 508 [0, 0, 0, 0] bs) (\<lambda>bs.
        write_at 508 (le_bytes 4 (header_checksum bs)) bs))))"

section \<open>The command line\<close>

definition setup_cmdline :: "'h regf \<Rightarrow> bytes \<Rightarrow> (bcd_error, string) outcome" where
  "setup_cmdline rg bs =
     and_then (checked_hive rg bs) (\<lambda>h.
     case rg_text rg h ''Setup'' ''CmdLine'' of
       Some v \<Rightarrow> if trim v \<noteq> [] then Ok v else Err Setup_Cmdline_Missing
     | None \<Rightarrow> Err Setup_Cmdline_Missing)"

definition replacement_text :: bytes where "replacement_text = utf16 agent_shell"

text \<open>The cell the text goes to, and the buffer with that cell taken.\<close>

definition choose_cell :: "nat \<Rightarrow> nat \<Rightarrow> nat \<Rightarrow> bytes \<Rightarrow> (bcd_error, nat \<times> bytes) outcome" where
  "choose_cell data_cell value_cell allocated bs =
     (if length replacement_text \<le> allocated - 4 then Ok (data_cell, bs)
      else
        let required = (length replacement_text + 4 + 7) div 8 * 8 in
        and_then (ok_or (find_free_cell bs required) Setup_Cmdline_Capacity) (\<lambda>free.
        let free_size = nat (i32_at free bs) in
        and_then (write_at free (i32_bytes (- int required)) bs) (\<lambda>bs.
        and_then (if required < free_size
            then write_at (free + required) (i32_bytes (int (free_size - required))) bs else Ok bs) (\<lambda>bs.
        and_then (write_at data_cell (i32_bytes (int allocated)) bs) (\<lambda>bs.
        map_ok (\<lambda>bs. (free, bs))
          (write_at (value_cell + 12) (le_bytes 4 (word_of_nat (free - regf_header_bytes) :: u32)) bs))))))"

definition fill_cell :: "nat \<Rightarrow> nat \<Rightarrow> bytes \<Rightarrow> (bcd_error, bytes) outcome" where
  "fill_cell target value_cell bs =
     (let target_size = unsigned_abs (i32_at target bs) in
      if target_size < 4 then Panic
      else
        and_then (write_at (target + 4) (replicate (target_size - 4) 0) bs) (\<lambda>bs.
        and_then (write_at (target + 4) replacement_text bs) (\<lambda>bs.
        write_at (value_cell + 8) (le_bytes 4 (word_of_nat (length replacement_text) :: u32)) bs)))"

definition patch_cells :: "raw_entry \<Rightarrow> bytes \<Rightarrow> (bcd_error, bytes) outcome" where
  "patch_cells raw bs =
     (if rw_resident raw then Err Setup_Cmdline_Capacity
      else
        let data_cell = regf_header_bytes + unat (rw_data_offset raw);
            value_cell = regf_header_bytes + unat (rw_offset raw) in
        if data_cell + 4 > length bs \<or> value_cell + 16 > length bs then Err Setup_Cmdline_Capacity
        else
          let allocated = unsigned_abs (i32_at data_cell bs) in
          if allocated < 4 \<or> data_cell + allocated > length bs then Err Setup_Cmdline_Capacity
          else
            and_then (choose_cell data_cell value_cell allocated bs) (\<lambda>(target, bs).
            and_then (fill_cell target value_cell bs) update_checksum))"

definition replace_setup_cmdline :: "'h regf \<Rightarrow> bytes \<Rightarrow> (bcd_error, string \<times> bytes) outcome" where
  "replace_setup_cmdline rg bs =
     and_then (checked_hive rg bs) (\<lambda>h.
     and_then (setup_cmdline rg bs) (\<lambda>original.
     if eq_ignore_case original agent_shell then Ok (original, bs)
     else
       and_then (ok_or (rg_entry rg h ''Setup'' ''CmdLine'') Registry_Error) (\<lambda>raw.
       and_then (patch_cells raw bs) (\<lambda>out.
       and_then (setup_cmdline rg out) (\<lambda>text.
       if text \<noteq> agent_shell then Err (Invalid_Bcd (''Setup'' @ [CHR 0x5C] @ ''CmdLine verification''))
       else Ok (original, out))))))"

section \<open>Writing a range\<close>

lemma write_at_Ok [outcome_simps]:
  "write_at i new bs = Ok out \<longleftrightarrow> i + length new \<le> length bs \<and> out = overwrite i new bs"
  by (auto simp: write_at_def)

lemma length_overwrite [simp]: "i + length new \<le> length bs \<Longrightarrow> length (overwrite i new bs) = length bs"
  by (simp add: overwrite_def)

text \<open>Two buffers with the same bytes in a range.\<close>

definition agrees :: "nat \<Rightarrow> nat \<Rightarrow> bytes \<Rightarrow> bytes \<Rightarrow> bool" where
  "agrees c k bs out = (take k (drop c out) = take k (drop c bs))"

lemma agrees_refl [simp]: "agrees c k bs bs" by (simp add: agrees_def)

lemma agrees_trans [trans]: "agrees c k a b \<Longrightarrow> agrees c k b d \<Longrightarrow> agrees c k a d"
  by (simp add: agrees_def)

lemma agrees_part:
  assumes "agrees c k a b" "c \<le> d" "d + j \<le> c + k"
  shows "agrees d j a b"
proof -
  have "take j (drop d bs) = take j (drop (d - c) (take k (drop c bs)))" for bs :: bytes
    using assms(2,3) by (simp add: drop_take min_def)
  then show ?thesis using assms(1) by (simp add: agrees_def)
qed

lemma agrees_overwrite:
  assumes "i + length new \<le> length bs" "c + k \<le> i \<or> i + length new \<le> c"
  shows "agrees c k bs (overwrite i new bs)"
proof (cases "c + k \<le> i")
  case True
  then have "take k (drop c (overwrite i new bs)) = take k (drop c (take i bs))"
    using assms(1) by (simp add: overwrite_def)
  also have "\<dots> = take k (drop c bs)" using True by (simp add: drop_take min_def)
  finally show ?thesis by (simp add: agrees_def)
next
  case False
  with assms obtain e where c: "c = i + length new + e" by (auto simp: le_iff_add)
  have "drop c (overwrite i new bs) = drop c bs"
    using assms(1) by (simp add: c overwrite_def add.commute add.left_commute)
  then show ?thesis by (simp add: agrees_def)
qed

lemma overwritten: "i + length new \<le> length bs \<Longrightarrow> take (length new) (drop i (overwrite i new bs)) = new"
  by (simp add: overwrite_def)

lemma words_agree:
  "agrees i 4 bs out \<Longrightarrow> u32_at i out = u32_at i bs" "agrees i 4 bs out \<Longrightarrow> i32_at i out = i32_at i bs"
  by (simp_all add: agrees_def u32_at_def i32_at_def)

lemma u32_overwritten: "i + 4 \<le> length bs \<Longrightarrow> u32_at i (overwrite i (le_bytes 4 w) bs) = w"
  using overwritten [of i "le_bytes 4 w" bs] by (simp add: u32_at_def)

lemma i32_overwritten:
  "i + 4 \<le> length bs \<Longrightarrow> - (2 ^ 31) \<le> n \<Longrightarrow> n < 2 ^ 31 \<Longrightarrow> i32_at i (overwrite i (i32_bytes n) bs) = n"
  by (simp add: i32_at_def i32_bytes_def u32_overwritten signed_of_int signed_take_bit_int_eq_self)

text \<open>The size of a cell above 96 is 104 at least.\<close>

lemma next_size: "k mod 8 = 0 \<Longrightarrow> 96 < k \<Longrightarrow> 104 \<le> k" for k :: nat by presburger

section \<open>The cells of a hive\<close>

text \<open>Cells that tile a range: their offsets with the numbers in their headers.\<close>

fun tiled :: "bytes \<Rightarrow> nat \<Rightarrow> nat \<Rightarrow> (nat \<times> int) list \<Rightarrow> bool" where
  "tiled bs cell limit [] = (cell = limit)"
| "tiled bs cell limit ((c, n) # cs) =
     (c = cell \<and> i32_at cell bs = n \<and> - (2 ^ 31) < n \<and> 8 \<le> unsigned_abs n \<and> unsigned_abs n mod 8 = 0 \<and>
      cell + unsigned_abs n \<le> limit \<and> tiled bs (cell + unsigned_abs n) limit cs)"

fun binned :: "bytes \<Rightarrow> nat \<Rightarrow> (nat \<times> int) list list \<Rightarrow> bool" where
  "binned bs bin [] = (length bs < bin + 32)"
| "binned bs bin (cs # css) =
     (let limit = bin + unat (u32_at (bin + 8) bs) in
      bin + 32 \<le> limit \<and> limit \<le> length bs \<and> take 4 (drop bin bs) = hbin_mark \<and>
      tiled bs (bin + 32) limit cs \<and> binned bs limit css)"

definition heap :: "bytes \<Rightarrow> (nat \<times> int) list list \<Rightarrow> bool" where
  "heap bs css = binned bs regf_header_bytes css"

lemma tiled_bounds:
  "tiled bs cell limit cs \<Longrightarrow> (c, n) \<in> set cs \<Longrightarrow>
     cell \<le> c \<and> c + unsigned_abs n \<le> limit \<and> i32_at c bs = n \<and> - (2 ^ 31) < n \<and>
     8 \<le> unsigned_abs n \<and> unsigned_abs n mod 8 = 0"
  by (induction bs cell limit cs rule: tiled.induct) fastforce+

lemma tiled_disjoint:
  "tiled bs cell limit cs \<Longrightarrow> (c, n) \<in> set cs \<Longrightarrow> (d, m) \<in> set cs \<Longrightarrow>
     c = d \<and> n = m \<or> c + unsigned_abs n \<le> d \<or> d + unsigned_abs m \<le> c"
proof (induction bs cell limit cs rule: tiled.induct)
  case (2 bs cell limit a k cs)
  then have rest: "tiled bs (cell + unsigned_abs k) limit cs" by simp
  from 2 show ?case using tiled_bounds [OF rest] by fastforce
qed simp

lemma tiled_le: "tiled bs cell limit cs \<Longrightarrow> cell \<le> limit"
  by (induction bs cell limit cs rule: tiled.induct) auto

lemma tiled_append:
  "tiled bs cell mid cs \<Longrightarrow> tiled bs mid limit ds \<Longrightarrow> tiled bs cell limit (cs @ ds)"
  using tiled_le by (induction bs cell mid cs rule: tiled.induct) fastforce+

lemma binned_bounds:
  "binned bs bin css \<Longrightarrow> (c, n) \<in> set (concat css) \<Longrightarrow>
     bin + 32 \<le> c \<and> c + unsigned_abs n \<le> length bs \<and> i32_at c bs = n \<and> - (2 ^ 31) < n \<and>
     8 \<le> unsigned_abs n \<and> unsigned_abs n mod 8 = 0"
proof (induction bs bin css rule: binned.induct)
  case (2 bs bin cs css)
  let ?limit = "bin + unat (u32_at (bin + 8) bs)"
  from "2.prems"(1) have b: "bin + 32 \<le> ?limit" "?limit \<le> length bs" "tiled bs (bin + 32) ?limit cs" "binned bs ?limit css"
    by (simp_all add: Let_def)
  show ?case
  proof (cases "(c, n) \<in> set cs")
    case True
    with tiled_bounds [OF b(3)] b show ?thesis by fastforce
  next
    case False
    with "2.prems"(2) have "(c, n) \<in> set (concat css)" by simp
    from "2.IH" [OF refl b(4) this] b(1) show ?thesis by auto
  qed
qed simp

lemma binned_disjoint:
  "binned bs bin css \<Longrightarrow> (c, n) \<in> set (concat css) \<Longrightarrow> (d, m) \<in> set (concat css) \<Longrightarrow>
     c = d \<and> n = m \<or> c + unsigned_abs n \<le> d \<or> d + unsigned_abs m \<le> c"
proof (induction bs bin css rule: binned.induct)
  case (2 bs bin cs css)
  let ?limit = "bin + unat (u32_at (bin + 8) bs)"
  from "2.prems"(1) have b: "tiled bs (bin + 32) ?limit cs" "binned bs ?limit css" by (simp_all add: Let_def)
  note first = tiled_bounds [OF b(1)] and rest = binned_bounds [OF b(2)]
  consider "(c, n) \<in> set cs" "(d, m) \<in> set cs" | "(c, n) \<in> set cs" "(d, m) \<in> set (concat css)"
    | "(c, n) \<in> set (concat css)" "(d, m) \<in> set cs" | "(c, n) \<in> set (concat css)" "(d, m) \<in> set (concat css)"
    using "2.prems"(2,3) by (simp only: concat.simps set_append Un_iff) blast
  then show ?case
  proof cases
    case 1
    then show ?thesis by (rule tiled_disjoint [OF b(1)])
  next
    case 2
    then show ?thesis using first [of c n] rest [of d m] by linarith
  next
    case 3
    then show ?thesis using first [of d m] rest [of c n] by linarith
  next
    case 4
    then show ?thesis by (rule "2.IH" [OF refl b(2)])
  qed
qed simp

text \<open>A buffer that retiles every cell and keeps the headers of the bins.\<close>

lemma tiled_retiled:
  assumes "tiled bs cell limit cs" "\<And>c n. (c, n) \<in> set cs \<Longrightarrow> tiled out c (c + unsigned_abs n) (f (c, n))"
  shows "tiled out cell limit (concat (map f cs))"
  using assms
proof (induction bs cell limit cs rule: tiled.induct)
  case (2 bs cell limit c n cs)
  then have "tiled out c (c + unsigned_abs n) (f (c, n))" "c = cell" by simp_all
  moreover have "tiled out (cell + unsigned_abs n) limit (concat (map f cs))" using 2 by simp
  ultimately show ?case by (simp add: tiled_append)
qed simp

lemma binned_retiled:
  assumes "binned bs bin css" "length out = length bs"
    and "\<And>b. bin \<le> b \<Longrightarrow> (\<And>c n. (c, n) \<in> set (concat css) \<Longrightarrow> b + 32 \<le> c \<or> c + unsigned_abs n \<le> b) \<Longrightarrow> agrees b 32 bs out"
    and "\<And>c n. (c, n) \<in> set (concat css) \<Longrightarrow> tiled out c (c + unsigned_abs n) (f (c, n))"
  shows "binned out bin (map (\<lambda>cs. concat (map f cs)) css)"
  using assms
proof (induction bs bin css rule: binned.induct)
  case (2 bs bin cs css)
  let ?limit = "bin + unat (u32_at (bin + 8) bs)"
  from "2.prems"(1) have b: "bin + 32 \<le> ?limit" "?limit \<le> length bs" "take 4 (drop bin bs) = hbin_mark"
      "tiled bs (bin + 32) ?limit cs" "binned bs ?limit css" by (simp_all add: Let_def)
  have "agrees bin 32 bs out"
  proof (rule "2.prems"(3))
    fix c n assume "(c, n) \<in> set (concat (cs # css))"
    with binned_bounds [OF "2.prems"(1)] show "bin + 32 \<le> c \<or> c + unsigned_abs n \<le> bin" by blast
  qed simp
  then have a: "agrees (bin + 8) 4 bs out" "agrees bin 4 bs out" by (auto intro: agrees_part)
  have header: "u32_at (bin + 8) out = u32_at (bin + 8) bs" "take 4 (drop bin out) = take 4 (drop bin bs)"
    by (rule words_agree [OF a(1)], use a(2) in \<open>simp only: agrees_def\<close>)
  have cells: "tiled out (bin + 32) ?limit (concat (map f cs))"
    using "2.prems"(4) by (intro tiled_retiled [OF b(4)]) simp
  have rest: "binned out ?limit (map (\<lambda>cs. concat (map f cs)) css)"
  proof (rule "2.IH" [OF refl b(5) "2.prems"(2)])
    fix at' assume at': "?limit \<le> at'" "\<And>c n. (c, n) \<in> set (concat css) \<Longrightarrow> at' + 32 \<le> c \<or> c + unsigned_abs n \<le> at'"
    show "agrees at' 32 bs out"
    proof (rule "2.prems"(3))
      fix c n assume "(c, n) \<in> set (concat (cs # css))"
      then show "at' + 32 \<le> c \<or> c + unsigned_abs n \<le> at'"
        using tiled_bounds [OF b(4), of c n] at' by auto
    qed (use at' b(1) in simp)
  qed (use "2.prems"(4) in simp)
  show ?case using b(1-3) cells rest header "2.prems"(2) by (simp add: Let_def)
qed simp

section \<open>The search is a first fit\<close>

definition fits :: "nat \<Rightarrow> nat \<times> int \<Rightarrow> bool" where
  "fits required = (\<lambda>(c, n). 0 < n \<and> required \<le> unsigned_abs n)"

lemma find_in_tiled:
  "tiled bs cell limit cs \<Longrightarrow> find_in_bin bs required cell limit = Ok (map_option fst (find (fits required) cs))"
proof (induction bs cell limit cs rule: tiled.induct)
  case (1 bs cell limit)
  then show ?case by (simp add: find_in_bin.simps)
next
  case (2 bs cell limit c n cs)
  then have h: "c = cell" "i32_at cell bs = n" "8 \<le> unsigned_abs n" "unsigned_abs n mod 8 = 0" "n \<noteq> - (2 ^ 31)" "n \<noteq> 0"
    "cell + unsigned_abs n \<le> limit" by (auto simp: unsigned_abs_def)
  with 2 show ?case by (subst find_in_bin.simps) (auto simp: fits_def Let_def)
qed

lemma find_append: "find P (xs @ ys) = (case find P xs of Some x \<Rightarrow> Some x | None \<Rightarrow> find P ys)"
  by (induction xs) auto

lemma find_in_heap:
  "binned bs bin css \<Longrightarrow> find_in_bins bs required bin = map_option fst (find (fits required) (concat css))"
proof (induction bs bin css rule: binned.induct)
  case (1 bs bin)
  then show ?case by (simp add: find_in_bins.simps)
next
  case (2 bs bin cs css)
  let ?limit = "bin + unat (u32_at (bin + 8) bs)"
  from "2.prems" have b: "bin + 32 \<le> ?limit" "?limit \<le> length bs" "take 4 (drop bin bs) = hbin_mark"
      "tiled bs (bin + 32) ?limit cs" "binned bs ?limit css" by (simp_all add: Let_def)
  show ?case
    using b(1-3) find_in_tiled [OF b(4), of required] "2.IH" [OF refl b(5)]
    by (subst find_in_bins.simps) (auto simp: Let_def find_append split: option.splits)
qed

lemma found_free:
  assumes "heap bs css" "find_free_cell bs required = Some free"
  shows "\<exists>n. (free, n) \<in> set (concat css) \<and> 0 < n \<and> required \<le> unsigned_abs n"
proof -
  from assms find_in_heap obtain n where "find (fits required) (concat css) = Some (free, n)"
    unfolding heap_def find_free_cell_def by fastforce
  from find_Some_in [OF this] show ?thesis by (auto simp: fits_def)
qed

section \<open>The writes\<close>

lemma length_replacement: "length replacement_text = 86"
proof -
  have "list_all is_ascii agent_shell" by (simp add: agent_shell_def windows_text_def is_ascii_def byte_def)
  moreover have "length agent_shell = 42" by (simp add: agent_shell_def windows_text_def)
  ultimately have "length (utf16_units agent_shell) = 42" by (simp add: utf16_ascii)
  moreover have "length (concat (map (le_bytes 2) us)) = 2 * length us" for us :: "u16 list"
    by (induction us) auto
  ultimately show ?thesis by (simp add: replacement_text_def utf16_def)
qed

text \<open>Ranges apart from each other.\<close>

definition apart :: "nat \<Rightarrow> nat \<Rightarrow> nat \<Rightarrow> nat \<Rightarrow> bool" where
  "apart c k d j = (c + k \<le> d \<or> d + j \<le> c)"

lemma agrees_write:
  "write_at i new bs = Ok out \<Longrightarrow> apart c k i (length new) \<Longrightarrow> agrees c k bs out"
  by (auto simp: outcome_simps apart_def intro: agrees_overwrite)

lemma filled:
  assumes "fill_cell target value_cell bs = Ok out" "unsigned_abs (i32_at target bs) = len" "90 \<le> len"
  shows "length out = length bs"
    and "apart c k (target + 4) (len - 4) \<Longrightarrow> apart c k (value_cell + 8) 4 \<Longrightarrow> agrees c k bs out"
    and "apart (target + 4) (len - 4) (value_cell + 8) 4 \<Longrightarrow>
      take (len - 4) (drop (target + 4) out) = replacement_text @ replicate (len - 90) 0 \<and>
      u32_at (value_cell + 8) out = 86"
proof -
  from assms obtain b1 b2 where w: "write_at (target + 4) (replicate (len - 4) 0) bs = Ok b1"
    "write_at (target + 4) replacement_text b1 = Ok b2"
    "write_at (value_cell + 8) (le_bytes 4 (word_of_nat (length replacement_text) :: u32)) b2 = Ok out"
    by (auto simp: fill_cell_def Let_def and_then_Ok_iff)
  note w' = w [unfolded write_at_Ok, simplified length_replacement]
  show "length out = length bs" using w' by (auto simp: length_replacement)
  show "agrees c k bs out" if a: "apart c k (target + 4) (len - 4)" "apart c k (value_cell + 8) 4"
  proof -
    have "agrees c k bs b1" by (rule agrees_write [OF w(1)]) (use a in simp)
    also have "agrees c k b1 b2"
      by (rule agrees_write [OF w(2)]) (use a assms(3) in \<open>auto simp: apart_def length_replacement\<close>)
    also have "agrees c k b2 out" by (rule agrees_write [OF w(3)]) (use a in simp)
    finally show ?thesis .
  qed
  show "take (len - 4) (drop (target + 4) out) = replacement_text @ replicate (len - 90) 0 \<and>
      u32_at (value_cell + 8) out = 86" if a: "apart (target + 4) (len - 4) (value_cell + 8) 4"
  proof
    have "agrees (target + 4) (len - 4) b2 out" by (rule agrees_write [OF w(3)]) (use a in simp)
    then have "take (len - 4) (drop (target + 4) out) = take (len - 4) (drop (target + 4) b2)"
      by (simp add: agrees_def)
    also have "\<dots> = replacement_text @ take (len - 90) (drop (target + 90) b1)"
      using w' assms(3) by (simp add: overwrite_def length_replacement)
    also have "take (len - 90) (drop (target + 90) b1) = replicate (len - 90) 0"
    proof -
      have "drop (target + 90) b1 = replicate (len - 90) 0 @ drop (target + len) bs"
        using w'(1) assms(3) by (simp add: overwrite_def)
      then show ?thesis by simp
    qed
    finally show "take (len - 4) (drop (target + 4) out) = replacement_text @ replicate (len - 90) 0" .
    show "u32_at (value_cell + 8) out = 86"
      using w'(3) by (simp add: u32_overwritten length_replacement)
  qed
qed

lemma checksummed:
  assumes "update_checksum bs = Ok out"
  shows "length out = length bs" "512 \<le> c \<Longrightarrow> agrees c k bs out"
    "u32_at 4 out = u32_at 4 bs + 1" "u32_at 8 out = u32_at 4 bs + 1" "u32_at 508 out = header_checksum out"
proof -
  let ?n = "le_bytes 4 (u32_at 4 bs + 1)"
  from assms obtain b1 b2 b3 where w: "write_at 4 ?n bs = Ok b1" "write_at 8 ?n b1 = Ok b2"
    "write_at 508 [0, 0, 0, 0] b2 = Ok b3" "write_at 508 (le_bytes 4 (header_checksum b3)) b3 = Ok out"
    by (auto simp: update_checksum_def Let_def and_then_Ok_iff split: if_splits)
  note w' = w [unfolded write_at_Ok]
  show len: "length out = length bs" using w' by auto
  have first: "agrees 0 508 b3 out" by (rule agrees_write [OF w(4)]) (simp add: apart_def)
  have second: "agrees 0 508 b2 b3" by (rule agrees_write [OF w(3)]) (simp add: apart_def)
  have both: "agrees 0 508 b2 out" using second first by (rule agrees_trans)
  show "agrees c k bs out" if "512 \<le> c"
  proof -
    have "agrees c k bs b1" by (rule agrees_write [OF w(1)]) (use that in \<open>simp add: apart_def\<close>)
    also have "agrees c k b1 b2" by (rule agrees_write [OF w(2)]) (use that in \<open>simp add: apart_def\<close>)
    also have "agrees c k b2 b3" by (rule agrees_write [OF w(3)]) (use that in \<open>simp add: apart_def\<close>)
    also have "agrees c k b3 out" by (rule agrees_write [OF w(4)]) (use that in \<open>simp add: apart_def\<close>)
    finally show ?thesis .
  qed
  have "agrees 8 4 b2 out" "agrees 4 4 b2 out" by (auto intro: agrees_part [OF both])
  moreover have "agrees 4 4 b1 b2" by (rule agrees_write [OF w(2)]) (simp add: apart_def)
  moreover have "u32_at 8 b2 = u32_at 4 bs + 1" "u32_at 4 b1 = u32_at 4 bs + 1"
    using w'(1,2) by (simp_all add: u32_overwritten)
  ultimately show "u32_at 8 out = u32_at 4 bs + 1" "u32_at 4 out = u32_at 4 bs + 1"
    by (simp_all only: words_agree(1))
  have "take 508 out = take 508 b3" using first by (simp add: agrees_def)
  then have "header_checksum out = header_checksum b3" by (simp add: header_checksum_def)
  then show "u32_at 508 out = header_checksum out"
    using w'(4) by (simp add: u32_overwritten)
qed

lemma taken_cell:
  assumes "choose_cell data_cell value_cell allocated bs = Ok (target, out)" "allocated - 4 < 86"
  shows "\<exists>n. find_free_cell bs 96 = Some target \<and> n = nat (i32_at target bs) \<and>
    (apart target 4 data_cell 4 \<and> apart target 4 (value_cell + 12) 4 \<longrightarrow> i32_at target out = - 96) \<and>
    (96 < n \<and> n < 2 ^ 31 \<and> apart (target + 96) 4 data_cell 4 \<and> apart (target + 96) 4 (value_cell + 12) 4 \<longrightarrow>
       i32_at (target + 96) out = int (n - 96)) \<and>
    (allocated < 2 ^ 31 \<and> apart data_cell 4 (value_cell + 12) 4 \<longrightarrow> i32_at data_cell out = int allocated) \<and>
    u32_at (value_cell + 12) out = word_of_nat (target - regf_header_bytes) \<and> length out = length bs \<and>
    (\<forall>c k. apart c k target 4 \<and> (96 < n \<longrightarrow> apart c k (target + 96) 4) \<and> apart c k data_cell 4 \<and>
       apart c k (value_cell + 12) 4 \<longrightarrow> agrees c k bs out)"
proof -
  define n where "n = nat (i32_at target bs)"
  have required: "(length replacement_text + 4 + 7) div 8 * 8 = 96" by (simp add: length_replacement)
  from assms obtain b1 b2 b3 where free: "find_free_cell bs 96 = Some target"
    and w: "write_at target (i32_bytes (- 96)) bs = Ok b1"
      "(if 96 < n then write_at (target + 96) (i32_bytes (int (n - 96))) b1 else Ok b1) = Ok b2"
      "write_at data_cell (i32_bytes (int allocated)) b2 = Ok b3"
      "write_at (value_cell + 12) (le_bytes 4 (word_of_nat (target - regf_header_bytes) :: u32)) b3 = Ok out"
    unfolding choose_cell_def required n_def Let_def
    by (auto simp: length_replacement and_then_Ok_iff ok_or_iffs map_ok_iffs)
  have len4: "length (i32_bytes k) = 4" for k by (simp add: i32_bytes_def)
  note w' = w(1,3,4) [unfolded write_at_Ok len4 length_le_bytes]
  have w2: "b2 = (if 96 < n then overwrite (target + 96) (i32_bytes (int (n - 96))) b1 else b1)"
    "96 < n \<Longrightarrow> target + 100 \<le> length b1"
    using w(2) by (auto simp: write_at_Ok len4 split: if_splits)
  have len: "length b1 = length bs" "length b2 = length bs" "length b3 = length bs" "length out = length bs"
    using w' w2 by (auto simp: len4)
  have step: "agrees c k b1 b2" if "96 < n \<longrightarrow> apart c k (target + 96) 4" for c k
    using that agrees_write [of "target + 96" _ b1 b2 c k] w(2) by (auto simp: len4 split: if_splits)
  have late: "agrees c k b2 out" if "apart c k data_cell 4" "apart c k (value_cell + 12) 4" for c k
    using agrees_trans [OF agrees_write [OF w(3), of c k] agrees_write [OF w(4), of c k]] that by (simp add: len4)
  have "agrees c k bs out" if "apart c k target 4" "96 < n \<longrightarrow> apart c k (target + 96) 4" "apart c k data_cell 4"
      "apart c k (value_cell + 12) 4" for c k
    using agrees_trans [OF agrees_trans [OF agrees_write [OF w(1), of c k] step] late] that by (simp add: len4)
  moreover have "i32_at target out = - 96" if "apart target 4 data_cell 4" "apart target 4 (value_cell + 12) 4"
  proof -
    have "i32_at target out = i32_at target b2" by (rule words_agree [OF late [OF that]])
    also have "\<dots> = i32_at target b1" by (rule words_agree [OF step]) (simp add: apart_def)
    also have "\<dots> = - 96" using w'(1) by (simp add: i32_overwritten)
    finally show ?thesis .
  qed
  moreover have "i32_at (target + 96) out = int (n - 96)"
    if "96 < n" "n < 2 ^ 31" "apart (target + 96) 4 data_cell 4" "apart (target + 96) 4 (value_cell + 12) 4"
    using words_agree(2) [OF late [OF that(3,4)]] w2 that(1,2) by (simp add: i32_overwritten)
  moreover have "i32_at data_cell out = int allocated"
    if "allocated < 2 ^ 31" "apart data_cell 4 (value_cell + 12) 4"
    using words_agree(2) [OF agrees_write [OF w(4), of data_cell 4]] w'(2) that by (simp add: i32_overwritten)
  moreover have "u32_at (value_cell + 12) out = word_of_nat (target - regf_header_bytes)"
    using w'(3) by (simp add: u32_overwritten)
  ultimately show ?thesis using free len(4) by (auto simp: n_def)
qed

text \<open>
  The cells after the patch: the old data cell is freed, the first free cell that
  is large enough is taken, the rest of it stays free.
\<close>

definition recelled :: "nat \<Rightarrow> nat \<Rightarrow> nat \<times> int \<Rightarrow> (nat \<times> int) list" where
  "recelled data_cell target = (\<lambda>(c, n).
     if data_cell = target then [(c, n)]
     else if c = data_cell then [(c, \<bar>n\<bar>)]
     else if c = target then (if 96 < n then [(c, - 96), (c + 96, n - 96)] else [(c, - 96)])
     else [(c, n)])"

definition recelled_heap :: "nat \<Rightarrow> nat \<Rightarrow> (nat \<times> int) list list \<Rightarrow> (nat \<times> int) list list" where
  "recelled_heap data_cell target = map (\<lambda>cs. concat (map (recelled data_cell target) cs))"

text \<open>
  What is known of a patch: the cell it targets with its length, the room that
  cell had, and what each range of the file holds.
\<close>

definition patched :: "nat \<Rightarrow> nat \<Rightarrow> nat \<Rightarrow> nat \<Rightarrow> nat \<Rightarrow> bytes \<Rightarrow> bytes \<Rightarrow> bool" where
  "patched data_cell value_cell target len room bs out =
     (length out = length bs \<and> 90 \<le> len \<and>
      u32_at 4 out = u32_at 4 bs + 1 \<and> u32_at 8 out = u32_at 4 out \<and> u32_at 508 out = header_checksum out \<and>
      take (len - 4) (drop (target + 4) out) = replacement_text @ replicate (len - 90) 0 \<and>
      u32_at (value_cell + 8) out = 86 \<and>
      (\<forall>c k. 512 \<le> c \<and> apart c k target room \<and> apart c k data_cell 4 \<and> apart c k (value_cell + 8) 8 \<longrightarrow>
         agrees c k bs out))"

lemma patched_in_place:
  assumes "patch_cells raw bs = Ok out" "data_cell = regf_header_bytes + unat (rw_data_offset raw)"
    and "value_cell = regf_header_bytes + unat (rw_offset raw)" "len = unsigned_abs (i32_at data_cell bs)" "90 \<le> len"
    and "apart (data_cell + 4) (len - 4) (value_cell + 8) 8" "apart data_cell 4 (value_cell + 8) 8"
  shows "patched data_cell value_cell data_cell len len bs out \<and> i32_at data_cell out = i32_at data_cell bs \<and>
    u32_at (value_cell + 12) out = u32_at (value_cell + 12) bs"
proof -
  have "86 \<le> len - 4" using assms(5) by simp
  then have choice: "choose_cell data_cell value_cell len bs = Ok (data_cell, bs)"
    by (simp add: choose_cell_def length_replacement)
  from assms(1) choice obtain b where b: "fill_cell data_cell value_cell bs = Ok b" "update_checksum b = Ok out"
    by (auto simp: patch_cells_def Let_def and_then_Ok_iff assms(2-4) [symmetric] split: if_splits)
  note f = filled [OF b(1) assms(4) [symmetric] assms(5)] and u = checksummed [OF b(2)]
  have low: "512 \<le> data_cell" "512 \<le> value_cell" by (simp_all add: assms(2,3) regf_header_bytes_def)
  have away: "agrees c k bs out" if "512 \<le> c" "apart c k (data_cell + 4) (len - 4)" "apart c k (value_cell + 8) 4" for c k
    using agrees_trans [OF f(2) u(2)] that by blast
  have late: "agrees (data_cell + 4) (len - 4) b out" "agrees (value_cell + 8) 4 b out" using u(2) low by simp_all
  have sep: "apart (data_cell + 4) (len - 4) (value_cell + 8) 4" using assms(6) by (auto simp: apart_def)
  have body: "take (len - 4) (drop (data_cell + 4) out) = replacement_text @ replicate (len - 90) 0"
    using f(3) [OF sep] late(1) by (simp add: agrees_def)
  have count: "u32_at (value_cell + 8) out = 86"
    using f(3) [OF sep] words_agree(1) [OF late(2)] by simp
  have header: "agrees data_cell 4 bs out" "agrees (value_cell + 12) 4 bs out"
    by (rule away; use low assms(6,7) in \<open>auto simp: apart_def\<close>)+
  have first: "u32_at 4 b = u32_at 4 bs"
    by (rule words_agree [OF f(2)]) (use low in \<open>auto simp: apart_def\<close>)
  have "agrees c k bs out" if "512 \<le> c" "apart c k data_cell len" "apart c k (value_cell + 8) 8" for c k
    by (rule away) (use that assms(5) in \<open>auto simp: apart_def\<close>)
  then have "patched data_cell value_cell data_cell len len bs out"
    using f(1) u(1,3-5) assms(5) body count first by (simp add: patched_def)
  with words_agree(2) [OF header(1)] words_agree(1) [OF header(2)] show ?thesis by simp
qed

lemma patched_elsewhere:
  assumes "patch_cells raw bs = Ok out" "data_cell = regf_header_bytes + unat (rw_data_offset raw)"
    and "value_cell = regf_header_bytes + unat (rw_offset raw)" "len = unsigned_abs (i32_at data_cell bs)" "len < 90"
    and free: "\<And>target. find_free_cell bs 96 = Some target \<Longrightarrow>
      96 \<le> i32_at target bs \<and> nat (i32_at target bs) mod 8 = 0 \<and> regf_header_bytes \<le> target \<and>
      apart target (nat (i32_at target bs)) data_cell 4 \<and> apart target (nat (i32_at target bs)) (value_cell + 8) 8"
    and "apart data_cell 4 (value_cell + 8) 8"
  shows "\<exists>target n. find_free_cell bs 96 = Some target \<and> n = nat (i32_at target bs) \<and>
    patched data_cell value_cell target 96 n bs out \<and> i32_at target out = - 96 \<and>
    (96 < n \<longrightarrow> i32_at (target + 96) out = int (n - 96)) \<and> i32_at data_cell out = int len \<and>
    u32_at (value_cell + 12) out = word_of_nat (target - regf_header_bytes)"
proof -
  from assms(1) obtain target b0 b where
    b: "choose_cell data_cell value_cell len bs = Ok (target, b0)" "fill_cell target value_cell b0 = Ok b"
      "update_checksum b = Ok out"
    by (auto simp: patch_cells_def Let_def and_then_Ok_iff assms(2-4) [symmetric] split: if_splits)
  define n where "n = nat (i32_at target bs)"
  have small: "len - 4 < 86" using assms(5) by simp
  obtain m where "find_free_cell bs 96 = Some target" "m = n"
    and t: "apart target 4 data_cell 4 \<and> apart target 4 (value_cell + 12) 4 \<longrightarrow> i32_at target b0 = - 96"
      "96 < n \<and> n < 2 ^ 31 \<and> apart (target + 96) 4 data_cell 4 \<and> apart (target + 96) 4 (value_cell + 12) 4 \<longrightarrow>
         i32_at (target + 96) b0 = int (n - 96)"
      "len < 2 ^ 31 \<and> apart data_cell 4 (value_cell + 12) 4 \<longrightarrow> i32_at data_cell b0 = int len"
      "u32_at (value_cell + 12) b0 = word_of_nat (target - regf_header_bytes)" "length b0 = length bs"
      "\<And>c k. apart c k target 4 \<and> (96 < n \<longrightarrow> apart c k (target + 96) 4) \<and> apart c k data_cell 4 \<and>
         apart c k (value_cell + 12) 4 \<Longrightarrow> agrees c k bs b0"
    using taken_cell [OF b(1) small] unfolding n_def by blast
  from free [OF this(1)] have sep: "96 \<le> n" "regf_header_bytes \<le> target" "apart target n data_cell 4"
    "apart target n (value_cell + 8) 8" and "n mod 8 = 0" by (simp_all add: n_def nat_le_iff le_nat_iff)
  have room: "96 < n \<Longrightarrow> 104 \<le> n" using \<open>n mod 8 = 0\<close> by (rule next_size)
  have bound: "n < 2 ^ 31" using sint_lt [of "u32_at target bs"] by (simp add: n_def i32_at_def)
  have low: "512 \<le> data_cell" "512 \<le> value_cell" "512 \<le> target"
    using sep(2) by (simp_all add: assms(2,3) regf_header_bytes_def)
  have "len < 2 ^ 31" using assms(5) by simp
  have h: "i32_at target b0 = - 96" "96 < n \<Longrightarrow> i32_at (target + 96) b0 = int (n - 96)" "i32_at data_cell b0 = int len"
  proof -
    have a: "apart target 4 data_cell 4 \<and> apart target 4 (value_cell + 12) 4" "apart data_cell 4 (value_cell + 12) 4"
      using sep assms(7) by (auto simp: apart_def)
    then show "i32_at target b0 = - 96" "i32_at data_cell b0 = int len" using t(1,3) assms(5) by simp_all
    assume "96 < n"
    with room sep have "apart (target + 96) 4 data_cell 4 \<and> apart (target + 96) 4 (value_cell + 12) 4"
      by (auto simp: apart_def)
    with t(2) bound \<open>96 < n\<close> show "i32_at (target + 96) b0 = int (n - 96)" by simp
  qed
  then have size: "unsigned_abs (i32_at target b0) = 96" by (simp add: unsigned_abs_def)
  note f = filled [OF b(2) size] and u = checksummed [OF b(3)]
  have late: "agrees c k b0 out" if "512 \<le> c" "apart c k (target + 4) 92" "apart c k (value_cell + 8) 4" for c k
    using agrees_trans [OF f(2) u(2)] that by simp
  have text_sep: "apart (target + 4) 92 (value_cell + 8) 4" using sep(1,4) by (auto simp: apart_def)
  have kept: "agrees (target + 4) 92 b out" "agrees (value_cell + 8) 4 b out" using u(2) low by simp_all
  have body: "take 92 (drop (target + 4) out) = replacement_text @ replicate 6 0"
    using f(3) text_sep kept(1) by (simp add: agrees_def)
  have count: "u32_at (value_cell + 8) out = 86"
    using f(3) text_sep words_agree(1) [OF kept(2)] by simp
  have headers: "agrees target 4 b0 out" "96 < n \<Longrightarrow> agrees (target + 96) 4 b0 out" "agrees data_cell 4 b0 out"
    "agrees (value_cell + 12) 4 b0 out"
    by (rule late; use low sep room assms(7) in \<open>auto simp: apart_def\<close>)+
  have first: "u32_at 4 b = u32_at 4 bs"
  proof -
    have "agrees 4 4 bs b0" by (rule t(6)) (use low in \<open>auto simp: apart_def\<close>)
    also have "agrees 4 4 b0 b" by (rule f(2)) (use low in \<open>auto simp: apart_def\<close>)
    finally show ?thesis by (rule words_agree)
  qed
  have "agrees c k bs out"
    if a: "512 \<le> c" "apart c k target n" "apart c k data_cell 4" "apart c k (value_cell + 8) 8" for c k
  proof -
    have "agrees c k bs b0" by (rule t(6)) (use a sep room in \<open>auto simp: apart_def\<close>)
    also have "agrees c k b0 out" by (rule late) (use a sep in \<open>auto simp: apart_def\<close>)
    finally show ?thesis .
  qed
  then have "patched data_cell value_cell target 96 n bs out"
    using f(1) t(5) u(1,3-5) body count first by (simp add: patched_def)
  moreover have "i32_at target out = - 96" "96 < n \<Longrightarrow> i32_at (target + 96) out = int (n - 96)"
    "i32_at data_cell out = int len" "u32_at (value_cell + 12) out = word_of_nat (target - regf_header_bytes)"
    using h t(4) words_agree headers by metis+
  ultimately show ?thesis using \<open>find_free_cell bs 96 = Some target\<close> by (auto simp: n_def)
qed

section \<open>The hive stays a hive\<close>

definition cells_of :: "(nat \<times> int) list list \<Rightarrow> (nat \<times> int) set" where "cells_of css = set (concat css)"

definition allocated_cells :: "(nat \<times> int) list list \<Rightarrow> nat set" where
  "allocated_cells css = fst ` {cell \<in> cells_of css. snd cell < 0}"

text \<open>
  A hive whose value \<open>CmdLine\<close> lies in allocated cells of its own, as the crate
  reports them.
\<close>

definition value_in_cells :: "raw_entry \<Rightarrow> bytes \<Rightarrow> (nat \<times> int) list list \<Rightarrow> nat \<Rightarrow> int \<Rightarrow> nat \<Rightarrow> int \<Rightarrow> bool" where
  "value_in_cells raw bs css data_cell n value_cell v =
     (heap bs css \<and> length bs < 2 ^ 32 \<and>
      data_cell = regf_header_bytes + unat (rw_data_offset raw) \<and> (data_cell, n) \<in> cells_of css \<and> n < 0 \<and>
      value_cell = regf_header_bytes + unat (rw_offset raw) \<and> (value_cell, v) \<in> cells_of css \<and> v < 0 \<and>
      16 \<le> unsigned_abs v \<and> value_cell \<noteq> data_cell \<and> u32_at (value_cell + 12) bs = rw_data_offset raw)"

lemma heap_cells:
  assumes "heap bs css" "(c, n) \<in> cells_of css"
  shows "regf_header_bytes + 32 \<le> c" "c + unsigned_abs n \<le> length bs" "i32_at c bs = n" "- (2 ^ 31) < n"
    "8 \<le> unsigned_abs n" "unsigned_abs n mod 8 = 0"
  using binned_bounds [of bs regf_header_bytes css c n] assms by (simp_all add: heap_def cells_of_def)

lemma heap_apart:
  assumes "heap bs css" "(c, n) \<in> cells_of css" "(d, m) \<in> cells_of css" "c \<noteq> d"
  shows "apart c (unsigned_abs n) d (unsigned_abs m)"
  using binned_disjoint [of bs regf_header_bytes css c n d m] assms
  by (auto simp: heap_def cells_of_def apart_def)

lemma heap_unique:
  assumes "heap bs css" "(c, n) \<in> cells_of css" "(c, m) \<in> cells_of css"
  shows "n = m"
  using heap_cells(3) [OF assms(1,2)] heap_cells(3) [OF assms(1,3)] by simp

lemma apart_within: "apart c k d j \<Longrightarrow> c \<le> c' \<Longrightarrow> c' + k' \<le> c + k \<Longrightarrow> d \<le> d' \<Longrightarrow> d' + j' \<le> d + j \<Longrightarrow> apart c' k' d' j'"
  by (auto simp: apart_def)

lemma patch_result:
  assumes "patch_cells raw bs = Ok out" "value_in_cells raw bs css data_cell n value_cell v"
  shows "\<exists>target m len. (target, m) \<in> cells_of css \<and> (target = data_cell \<or> 96 \<le> m) \<and>
    patched data_cell value_cell target len (unsigned_abs m) bs out \<and> len \<le> unsigned_abs m \<and>
    regf_header_bytes + unat (u32_at (value_cell + 12) out) = target \<and>
    i32_at target out = (if target = data_cell then n else - 96) \<and>
    (target \<noteq> data_cell \<longrightarrow> i32_at data_cell out = \<bar>n\<bar> \<and> (96 < m \<longrightarrow> i32_at (target + 96) out = m - 96))"
proof -
  from assms(2) have h: "heap bs css" "length bs < 2 ^ 32" "data_cell = regf_header_bytes + unat (rw_data_offset raw)"
    "(data_cell, n) \<in> cells_of css" "n < 0" "value_cell = regf_header_bytes + unat (rw_offset raw)"
    "(value_cell, v) \<in> cells_of css" "v < 0" "16 \<le> unsigned_abs v" "value_cell \<noteq> data_cell"
    "u32_at (value_cell + 12) bs = rw_data_offset raw" unfolding value_in_cells_def by blast+
  note data = heap_cells [OF h(1,4)]
  have len: "unsigned_abs n = unsigned_abs (i32_at data_cell bs)" using data(3) by simp
  have sep: "apart data_cell (unsigned_abs n) value_cell (unsigned_abs v)"
    by (rule heap_apart [OF h(1,4,7)]) (use h(10) in simp)
  have near: "apart data_cell 4 (value_cell + 8) 8"
    by (rule apart_within [OF sep]) (use data(5) h(9) in simp_all)
  show ?thesis
  proof (cases "90 \<le> unsigned_abs n")
    case True
    have "apart (data_cell + 4) (unsigned_abs n - 4) (value_cell + 8) 8"
      by (rule apart_within [OF sep]) (use h(9) True in simp_all)
    from patched_in_place [OF assms(1) h(3,6) len True this near] data(3) h(3,4,11)
    show ?thesis by fastforce
  next
    case False
    have found: "96 \<le> i32_at target bs \<and> nat (i32_at target bs) mod 8 = 0 \<and> regf_header_bytes \<le> target \<and>
        apart target (nat (i32_at target bs)) data_cell 4 \<and>
        apart target (nat (i32_at target bs)) (value_cell + 8) 8 \<and> (target, i32_at target bs) \<in> cells_of css"
      if free: "find_free_cell bs 96 = Some target" for target
    proof -
      from found_free [OF h(1) free] obtain m where m: "(target, m) \<in> cells_of css" "0 < m" "96 \<le> unsigned_abs m"
        by (auto simp: cells_of_def)
      note t = heap_cells [OF h(1) m(1)]
      have "target \<noteq> data_cell" "target \<noteq> value_cell"
        using heap_unique [OF h(1) m(1)] h(4,5,7,8) m(2) by force+
      then have "apart target (unsigned_abs m) data_cell (unsigned_abs n)" "apart target (unsigned_abs m) value_cell (unsigned_abs v)"
        using heap_apart [OF h(1) m(1)] h(4,7) by blast+
      then have "apart target (unsigned_abs m) data_cell 4" "apart target (unsigned_abs m) (value_cell + 8) 8"
        using data(5) h(9) by (auto simp: apart_def)
      with t m show ?thesis by (simp add: unsigned_abs_def)
    qed
    from patched_elsewhere [OF assms(1) h(3,6) len _ _ near] False found
    obtain target k where k: "find_free_cell bs 96 = Some target" "k = nat (i32_at target bs)"
      "patched data_cell value_cell target 96 k bs out" "i32_at target out = - 96"
      "96 < k \<longrightarrow> i32_at (target + 96) out = int (k - 96)" "i32_at data_cell out = int (unsigned_abs n)"
      "u32_at (value_cell + 12) out = word_of_nat (target - regf_header_bytes)" by auto
    note t = found [OF k(1)]
    have "target - regf_header_bytes < 2 ^ 32"
      using heap_cells(2) [OF h(1), of target "i32_at target bs"] t h(2) by simp
    moreover obtain d where "target = regf_header_bytes + d" using t by (auto simp: le_iff_add)
    ultimately have "regf_header_bytes + unat (u32_at (value_cell + 12) out) = target"
      by (simp add: k(7) unsigned_of_nat take_bit_nat_eq_self)
    moreover have "target \<noteq> data_cell" using heap_unique [OF h(1,4)] t h(5) by force
    moreover have "unsigned_abs (i32_at target bs) = k" using t k(2) by (simp add: unsigned_abs_def)
    ultimately show ?thesis using t k(2-6) by (fastforce simp: unsigned_abs_def of_nat_diff)
  qed
qed

lemma recelled_cells: "cells_of (recelled_heap data_cell target css) = (\<Union>x \<in> cells_of css. set (recelled data_cell target x))"
  by (auto simp: cells_of_def recelled_heap_def)

lemma patched_heap:
  assumes "value_in_cells raw bs css data_cell n value_cell v" "(target, m) \<in> cells_of css"
    and "target = data_cell \<or> 96 \<le> m" "patched data_cell value_cell target len (unsigned_abs m) bs out"
    and "i32_at target out = (if target = data_cell then n else - 96)"
    and "target \<noteq> data_cell \<longrightarrow> i32_at data_cell out = \<bar>n\<bar> \<and> (96 < m \<longrightarrow> i32_at (target + 96) out = m - 96)"
  shows "heap out (recelled_heap data_cell target css)"
    and "\<And>c k. (c, k) \<in> cells_of css \<Longrightarrow> c \<noteq> data_cell \<Longrightarrow> c \<noteq> target \<Longrightarrow> c \<noteq> value_cell \<Longrightarrow> agrees c (unsigned_abs k) bs out"
proof -
  from assms(1) have h: "heap bs css" "(data_cell, n) \<in> cells_of css" "n < 0" "(value_cell, v) \<in> cells_of css" "v < 0"
    "16 \<le> unsigned_abs v" "value_cell \<noteq> data_cell" unfolding value_in_cells_def by blast+
  note data = heap_cells [OF h(1,2)] and goal = heap_cells [OF h(1) assms(2)]
  have value_target: "value_cell \<noteq> target" using heap_unique [OF h(1,4), of m] assms(2,3) h(5,7) by auto
  have away: "agrees c k bs out"
    if "regf_header_bytes \<le> c" "apart c k target (unsigned_abs m)" "apart c k data_cell (unsigned_abs n)"
      "apart c k (value_cell + 8) 8" for c k
  proof -
    have "apart c k data_cell 4" "512 \<le> c" using that data(5) by (auto simp: apart_def regf_header_bytes_def)
    with that assms(4) show ?thesis by (simp add: patched_def)
  qed
  show other: "agrees c (unsigned_abs k) bs out"
    if c: "(c, k) \<in> cells_of css" "c \<noteq> data_cell" "c \<noteq> target" "c \<noteq> value_cell" for c k
  proof (rule away)
    show "apart c (unsigned_abs k) (value_cell + 8) 8"
      using heap_apart [OF h(1) c(1) h(4) c(4)] h(6) by (auto simp: apart_def)
  qed (use heap_cells(1) [OF h(1) c(1)] heap_apart [OF h(1) c(1)] c assms(2) h(2) in auto)
  have header: "i32_at c out = k" if c: "(c, k) \<in> cells_of css" "c \<noteq> data_cell" "c \<noteq> target" for c k
  proof -
    note b = heap_cells [OF h(1) c(1)]
    have "agrees c 4 bs out"
    proof (rule away)
      show "apart c 4 (value_cell + 8) 8"
        using heap_apart [OF h(1) c(1) h(4)] h(6) b(5) by (cases "c = value_cell") (auto simp: apart_def)
      show "apart c 4 target (unsigned_abs m)" "apart c 4 data_cell (unsigned_abs n)"
        using heap_apart [OF h(1) c(1) assms(2) c(3)] heap_apart [OF h(1) c(1) h(2) c(2)] b(5)
        by (auto simp: apart_def)
    qed (use b(1) in simp)
    from words_agree(2) [OF this] b(3) show ?thesis by simp
  qed
  show "heap out (recelled_heap data_cell target css)"
    unfolding heap_def recelled_heap_def
  proof (rule binned_retiled)
    show "binned bs regf_header_bytes css" using h(1) by (simp add: heap_def)
    show "length out = length bs" using assms(4) by (simp add: patched_def)
  next
    fix b assume b: "regf_header_bytes \<le> b" "\<And>c n. (c, n) \<in> set (concat css) \<Longrightarrow> b + 32 \<le> c \<or> c + unsigned_abs n \<le> b"
    then have gap: "apart b 32 c (unsigned_abs k)" if "(c, k) \<in> cells_of css" for c k
      using that unfolding apart_def cells_of_def by blast
    have "apart b 32 (value_cell + 8) 8" using gap [OF h(4)] h(6) by (auto simp: apart_def)
    with gap h(2) assms(2) b(1) show "agrees b 32 bs out" by (intro away) blast+
  next
    fix c k assume c: "(c, k) \<in> set (concat css)"
    then have c: "(c, k) \<in> cells_of css" by (simp add: cells_of_def)
    note b = heap_cells [OF h(1) c]
    show "tiled out c (c + unsigned_abs k) (recelled data_cell target (c, k))"
    proof (cases "target = data_cell \<or> c \<noteq> target \<and> c \<noteq> data_cell")
      case True
      then have "i32_at c out = k"
        using header [OF c] assms(5) heap_unique [OF h(1) c, of n] h(2) by (cases "c = data_cell") auto
      with True b show ?thesis by (auto simp: recelled_def)
    next
      case False
      then have t: "target \<noteq> data_cell" "96 \<le> m" using assms(3) by auto
      show ?thesis
      proof (cases "c = data_cell")
        case True
        then have "k = n" using heap_unique [OF h(1) c, of n] h(2) by simp
        with True t b assms(6) h(3) show ?thesis by (auto simp: recelled_def unsigned_abs_def)
      next
        case c': False
        with False have "c = target" by simp
        then have "k = m" using heap_unique [OF h(1) c, of m] assms(2) by simp
        have abs_m: "unsigned_abs m = nat m" "unsigned_abs (m - 96) = nat m - 96"
          using t by (simp_all add: unsigned_abs_def nat_diff_distrib)
        have rest: "(k - 96) mod 8 = 0" if "k mod 8 = 0" "96 \<le> k" for k :: nat using that by presburger
        have "nat m mod 8 = 0" "96 \<le> nat m" using goal(6) t by (simp_all add: abs_m)
        then have step: "96 < m \<Longrightarrow> 8 \<le> nat m - 96" "(nat m - 96) mod 8 = 0" "96 < m \<Longrightarrow> 96 + (nat m - 96) = nat m"
          using next_size [of "nat m"] rest [of "nat m"] zless_nat_eq_int_zless [of 96 m] by simp_all
        have low: "unsigned_abs (- 96) = 96" by (simp add: unsigned_abs_def)
        show ?thesis
        proof (cases "96 < m")
          case True
          have "recelled data_cell target (c, k) = [(target, - 96), (target + 96, m - 96)]"
            using True t \<open>c = target\<close> \<open>k = m\<close> by (simp add: recelled_def)
          with True t step assms(5,6) show ?thesis
            by (simp add: \<open>c = target\<close> \<open>k = m\<close> abs_m low)
        next
          case False
          then have "recelled data_cell target (c, k) = [(target, - 96)]" "m = 96"
            using t \<open>c = target\<close> \<open>k = m\<close> by (simp_all add: recelled_def)
          with t assms(5) show ?thesis by (simp add: \<open>c = target\<close> \<open>k = m\<close> unsigned_abs_def)
        qed
      qed
    qed
  qed
qed

lemma recelled_in_use:
  assumes "heap bs css" "(data_cell, n) \<in> cells_of css" "n < 0" "(target, m) \<in> cells_of css"
    and "target = data_cell \<or> 96 \<le> m"
  shows "allocated_cells (recelled_heap data_cell target css) = insert target (allocated_cells css - {data_cell})"
    and "target = data_cell \<or> target \<notin> allocated_cells css"
    and "\<lbrakk>(c, k) \<in> cells_of css; k < 0; c \<noteq> data_cell\<rbrakk> \<Longrightarrow>
      c \<noteq> target \<and> (c, k) \<in> cells_of (recelled_heap data_cell target css)"
proof -
  let ?css = "recelled_heap data_cell target css"
  have free: "target \<noteq> data_cell \<Longrightarrow> (target, k) \<in> cells_of css \<Longrightarrow> 0 < k" for k
    using heap_unique [OF assms(1,4), of k] assms(5) by auto
  have old: "(data_cell, k) \<in> cells_of css \<Longrightarrow> k = n" for k using heap_unique [OF assms(1,2)] by blast
  show "target = data_cell \<or> target \<notin> allocated_cells css"
    using free by (force simp: allocated_cells_def)
  show kept: "c \<noteq> target \<and> (c, k) \<in> cells_of ?css" if c: "(c, k) \<in> cells_of css" "k < 0" "c \<noteq> data_cell" for c k
  proof
    show other: "c \<noteq> target" using c free [of k] by auto
    with c have "(c, k) \<in> set (recelled data_cell target (c, k))" by (simp add: recelled_def)
    with c(1) show "(c, k) \<in> cells_of ?css" unfolding recelled_cells by blast
  qed
  have "target \<in> allocated_cells ?css"
  proof (cases "target = data_cell")
    case True
    then have "(target, n) \<in> set (recelled data_cell target (data_cell, n))" by (simp add: recelled_def)
    with assms(2) have "(target, n) \<in> cells_of ?css" unfolding recelled_cells by blast
    with assms(3) show ?thesis by (force simp: allocated_cells_def)
  next
    case False
    then have "(target, - 96) \<in> set (recelled data_cell target (target, m))" by (simp add: recelled_def)
    with assms(4) have "(target, - 96) \<in> cells_of ?css" unfolding recelled_cells by blast
    then show ?thesis by (force simp: allocated_cells_def)
  qed
  moreover have "c \<in> allocated_cells ?css" if "c \<in> allocated_cells css - {data_cell}" for c
    using that kept by (force simp: allocated_cells_def)
  moreover have "c = target \<or> c \<in> allocated_cells css - {data_cell}" if c: "c \<in> allocated_cells ?css" for c
  proof -
    from c obtain k d j where k: "(d, j) \<in> cells_of css" "(c, k) \<in> set (recelled data_cell target (d, j))" "k < 0"
      by (auto simp: allocated_cells_def recelled_cells)
    show ?thesis
    proof (cases "c = target")
      case False
      with k old assms(3) have "(c, k) \<in> cells_of css \<and> c \<noteq> data_cell"
        by (auto simp: recelled_def split: if_splits)
      with k(3) show ?thesis by (force simp: allocated_cells_def)
    qed simp
  qed
  ultimately show "allocated_cells ?css = insert target (allocated_cells css - {data_cell})" by blast
qed

text \<open>
  C34.  The patched file is a hive again: its cells tile its bins; the cells in
  use are those before, less the value's old data cell and with the cell that
  holds the new text; every other cell in use keeps its bytes; the value points
  to the text and has its length, the rest of its cell is zero; and the header's
  checksum and sequence numbers are right.
\<close>

theorem patch_keeps_the_hive:
  assumes "patch_cells raw bs = Ok out" "value_in_cells raw bs css data_cell n value_cell v"
  shows "\<exists>target len css'. heap out css' \<and> length out = length bs \<and>
    allocated_cells css' = insert target (allocated_cells css - {data_cell}) \<and>
    (target = data_cell \<or> target \<notin> allocated_cells css) \<and>
    (\<forall>(c, k) \<in> cells_of css. k < 0 \<and> c \<notin> {data_cell, value_cell} \<longrightarrow>
       (c, k) \<in> cells_of css' \<and> agrees c (unsigned_abs k) bs out) \<and>
    regf_header_bytes + unat (u32_at (value_cell + 12) out) = target \<and>
    u32_at (value_cell + 8) out = word_of_nat (length (utf16 agent_shell)) \<and>
    take (len - 4) (drop (target + 4) out) = utf16 agent_shell @ replicate (len - 90) 0 \<and> 90 \<le> len \<and>
    u32_at 4 out = u32_at 4 bs + 1 \<and> u32_at 8 out = u32_at 4 out \<and> u32_at 508 out = header_checksum out"
proof -
  from patch_result [OF assms] obtain target m len where
    t: "(target, m) \<in> cells_of css" "target = data_cell \<or> 96 \<le> m"
      "patched data_cell value_cell target len (unsigned_abs m) bs out"
      "regf_header_bytes + unat (u32_at (value_cell + 12) out) = target"
      "i32_at target out = (if target = data_cell then n else - 96)"
    and moved: "target \<noteq> data_cell \<longrightarrow> i32_at data_cell out = \<bar>n\<bar> \<and> (96 < m \<longrightarrow> i32_at (target + 96) out = m - 96)"
    by blast
  note hive = patched_heap [OF assms(2) t(1-3,5) moved]
  from assms(2) have h: "heap bs css" "(data_cell, n) \<in> cells_of css" "n < 0" unfolding value_in_cells_def by blast+
  let ?css = "recelled_heap data_cell target css"
  note use = recelled_in_use [OF h t(1,2)]
  have "(c, k) \<in> cells_of ?css \<and> agrees c (unsigned_abs k) bs out"
    if c: "(c, k) \<in> cells_of css" "k < 0" "c \<notin> {data_cell, value_cell}" for c k
    using use(3) [OF c(1,2)] hive(2) [OF c(1)] c(3) by auto
  moreover have "word_of_nat (length (utf16 agent_shell)) = (86 :: u32)"
    using length_replacement by (simp add: replacement_text_def)
  ultimately show ?thesis
    using hive(1) use(1,2) t(3,4) by (intro exI [of _ target] exI [of _ len] exI [of _ ?css])
      (auto simp: patched_def replacement_text_def)
qed

lemma patch_outcome:
  assumes "value_in_cells raw bs css data_cell n value_cell v"
  shows "(\<exists>out. patch_cells raw bs = Ok out) \<and> \<not> rw_resident raw \<and>
      (90 \<le> unsigned_abs n \<or> (\<exists>(c, m) \<in> cells_of css. 96 \<le> m)) \<or>
    patch_cells raw bs = Err Setup_Cmdline_Capacity \<and>
      (rw_resident raw \<or> unsigned_abs n < 90 \<and> (\<forall>(c, m) \<in> cells_of css. m < 96))"
proof -
  from assms have h: "heap bs css" "length bs < 2 ^ 32" "data_cell = regf_header_bytes + unat (rw_data_offset raw)"
    "(data_cell, n) \<in> cells_of css" "n < 0" "value_cell = regf_header_bytes + unat (rw_offset raw)"
    "(value_cell, v) \<in> cells_of css" "16 \<le> unsigned_abs v" unfolding value_in_cells_def by blast+
  note data = heap_cells [OF h(1,4)] and val = heap_cells [OF h(1,7)]
  have run: "patch_cells raw bs = and_then (choose_cell data_cell value_cell (unsigned_abs n) bs) (\<lambda>(target, bs).
      and_then (fill_cell target value_cell bs) update_checksum)" if "\<not> rw_resident raw"
    using that data val(2) h(8) by (simp add: patch_cells_def Let_def h(3,6) [symmetric])
  have fills: "\<exists>out. and_then (fill_cell target value_cell b) update_checksum = Ok out"
    if b: "length b = length bs" "unsigned_abs (i32_at target b) = len" "90 \<le> len" "target + len \<le> length bs"
    for target b len
  proof -
    let ?b1 = "overwrite (target + 4) (replicate (len - 4) 0) b"
    let ?b2 = "overwrite (target + 4) replacement_text ?b1"
    let ?b3 = "overwrite (value_cell + 8) (le_bytes 4 (word_of_nat (length replacement_text) :: u32)) ?b2"
    have "length ?b1 = length bs" "length ?b2 = length bs" "length ?b3 = length bs"
      using b val(2) h(8) by (simp_all add: length_replacement)
    moreover from this have "fill_cell target value_cell b = Ok ?b3"
      using b val(2) h(8) by (simp add: fill_cell_def Let_def write_at_def length_replacement)
    moreover have "\<exists>out. update_checksum c = Ok out" if "512 \<le> length c" for c
      using that by (simp add: update_checksum_def write_at_def Let_def)
    moreover have "512 \<le> length bs" using val(1,2) by (simp add: regf_header_bytes_def)
    ultimately show ?thesis by simp
  qed
  consider "rw_resident raw" | "\<not> rw_resident raw" "90 \<le> unsigned_abs n"
    | target where "\<not> rw_resident raw" "unsigned_abs n < 90" "find_free_cell bs 96 = Some target"
    | "\<not> rw_resident raw" "unsigned_abs n < 90" "find_free_cell bs 96 = None"
    by (metis not_le option.exhaust)
  then show ?thesis
  proof cases
    case 1
    then show ?thesis by (simp add: patch_cells_def)
  next
    case 2
    then have "86 \<le> unsigned_abs n - 4" by simp
    then have "choose_cell data_cell value_cell (unsigned_abs n) bs = Ok (data_cell, bs)"
      by (simp add: choose_cell_def length_replacement)
    with fills [OF refl _ 2(2), of data_cell] run [OF 2(1)] data show ?thesis using 2 by simp
  next
    case 3
    from found_free [OF h(1) 3(3)] obtain m where m: "(target, m) \<in> cells_of css" "0 < m" "96 \<le> unsigned_abs m"
      by (auto simp: cells_of_def)
    note t = heap_cells [OF h(1) m(1)]
    have "96 \<le> m" using m(2,3) by (simp add: unsigned_abs_def)
    have small: "\<not> 86 \<le> unsigned_abs n - 4" "unsigned_abs n - 4 < 86" using 3(2) by simp_all
    have required: "(length replacement_text + 4 + 7) div 8 * 8 = 96" by (simp add: length_replacement)
    have room: "96 < nat m \<Longrightarrow> target + 100 \<le> length bs"
    proof -
      assume "96 < nat m"
      moreover have "unsigned_abs m = nat m" using m(2) by (simp add: unsigned_abs_def)
      ultimately have "nat m mod 8 = 0" "target + nat m \<le> length bs" "96 < nat m" using t(2,6) by simp_all
      then show "target + 100 \<le> length bs" using next_size [of "nat m"] by simp
    qed
    have fit: "target + 4 \<le> length bs" "data_cell + 4 \<le> length bs" "value_cell + 16 \<le> length bs"
      using t(2,5) data(2,5) val(2) h(8) by simp_all
    have "\<exists>b. choose_cell data_cell value_cell (unsigned_abs n) bs = Ok (target, b)"
      using small(1) fit room
      by (cases "96 < nat m")
        (simp_all add: choose_cell_def required 3(3) t(3) write_at_def i32_bytes_def length_replacement Let_def)
    then obtain b where b: "choose_cell data_cell value_cell (unsigned_abs n) bs = Ok (target, b)" ..
    have "target \<noteq> data_cell" "target \<noteq> value_cell"
      using heap_unique [OF h(1) m(1)] h(4,5,7) m(2) assms by (force simp: value_in_cells_def)+
    then have "apart target 4 data_cell 4 \<and> apart target 4 (value_cell + 12) 4"
      using heap_apart [OF h(1) m(1) h(4)] heap_apart [OF h(1) m(1) h(7)] t(5) data(5) h(8) by (auto simp: apart_def)
    with taken_cell [OF b small(2)] have "length b = length bs" "unsigned_abs (i32_at target b) = 96"
      by (auto simp: unsigned_abs_def)
    with fills [of b target 96] t(2) m(3) obtain out where
      "and_then (fill_cell target value_cell b) update_checksum = Ok out" by auto
    with run [OF 3(1)] b have "patch_cells raw bs = Ok out" by simp
    with 3(1) m(1) \<open>96 \<le> m\<close> show ?thesis by blast
  next
    case 4
    then have "choose_cell data_cell value_cell (unsigned_abs n) bs = Err Setup_Cmdline_Capacity"
      by (simp add: choose_cell_def length_replacement)
    moreover have "\<forall>(c, m) \<in> cells_of css. m < 96"
    proof -
      have "find (fits 96) (concat css) = None"
        using find_in_heap [of bs regf_header_bytes css 96] h(1) 4(3) by (simp add: heap_def find_free_cell_def)
      then have "\<forall>x \<in> cells_of css. \<not> fits 96 x" by (simp only: find_None_all cells_of_def) 
      then show ?thesis by (fastforce simp: fits_def unsigned_abs_def)
    qed
    ultimately show ?thesis using run [OF 4(1)] 4(2) by simp
  qed
qed

text \<open>
  The patch never panics, and it fails only for lack of room: the value is
  kept in its own cell, or neither the old data cell nor any free cell can hold
  the text.
\<close>

theorem patch_fails_only_for_room:
  assumes "value_in_cells raw bs css data_cell n value_cell v"
  shows "(\<exists>out. patch_cells raw bs = Ok out) \<and> \<not> rw_resident raw \<and>
      (90 \<le> unsigned_abs n \<or> (\<exists>(c, m) \<in> cells_of css. 96 \<le> m)) \<or>
    patch_cells raw bs = Err Setup_Cmdline_Capacity \<and>
      (rw_resident raw \<or> unsigned_abs n < 90 \<and> (\<forall>(c, m) \<in> cells_of css. m < 96))"
  by (rule patch_outcome [OF assms])

section \<open>A small hive\<close>

definition sample_bin :: bytes where
  "sample_bin = hbin_mark @ [0, 0, 0, 0] @ le_bytes 4 (176 :: u32) @ replicate 20 0 @
     i32_bytes (- 16) @ replicate 12 0 @
     i32_bytes (- 24) @ replicate 8 0 @ le_bytes 4 (32 :: u32) @ replicate 8 0 @
     i32_bytes 104 @ replicate 100 0"

definition sample_hive :: bytes where "sample_hive = replicate regf_header_bytes 0 @ sample_bin"

definition sample_raw :: raw_entry where
  "sample_raw = \<lparr> rw_resident = False, rw_data_offset = 32, rw_offset = 48 \<rparr>"

definition sample_cells :: "(nat \<times> int) list list" where
  "sample_cells = [[(regf_header_bytes + 32, - 16), (regf_header_bytes + 48, - 24), (regf_header_bytes + 72, 104)]]"

lemma sample_drop: "drop (regf_header_bytes + k) sample_hive = drop k sample_bin"
  "length sample_hive = regf_header_bytes + 176"
  by (simp_all add: sample_hive_def sample_bin_def hbin_mark_def i32_bytes_def)

lemma sample_words:
  "u32_at 8 sample_bin = 176" "i32_at 32 sample_bin = - 16" "i32_at 48 sample_bin = - 24" "i32_at 72 sample_bin = 104"
  "u32_at 60 sample_bin = 32" "take 4 sample_bin = hbin_mark"
  by (simp_all add: u32_at_def i32_at_def sample_bin_def hbin_mark_def i32_bytes_def)

lemma sample_value: "value_in_cells sample_raw sample_hive sample_cells
    (regf_header_bytes + 32) (- 16) (regf_header_bytes + 48) (- 24)"
proof -
  have at: "u32_at (regf_header_bytes + k) sample_hive = u32_at k sample_bin"
    "i32_at (regf_header_bytes + k) sample_hive = i32_at k sample_bin" for k
    by (simp_all add: u32_at_def i32_at_def sample_drop)
  have "take 4 (drop regf_header_bytes sample_hive) = hbin_mark"
    using sample_drop(1) [of 0] sample_words(6) by simp
  then have "heap sample_hive sample_cells"
    by (simp add: heap_def sample_cells_def at sample_words sample_drop unsigned_abs_def add.assoc Let_def)
  moreover have "u32_at (regf_header_bytes + 48 + 12) sample_hive = 32"
    using at(1) [of 60] sample_words(5) by (simp add: add.assoc)
  ultimately show ?thesis
    by (simp add: value_in_cells_def sample_raw_def sample_cells_def cells_of_def unsigned_abs_def sample_drop
        regf_header_bytes_def)
qed

lemma sample_patch: "\<exists>out. patch_cells sample_raw sample_hive = Ok out"
  using patch_outcome [OF sample_value]
  by (auto simp: sample_raw_def sample_cells_def cells_of_def)

theorem patch_keeps_the_hive_witness:
  "\<exists>out target css'. patch_cells sample_raw sample_hive = Ok out \<and> heap out css' \<and>
     regf_header_bytes + unat (u32_at (regf_header_bytes + 48 + 12) out) = target \<and> target \<in> allocated_cells css'"
proof -
  obtain out where out: "patch_cells sample_raw sample_hive = Ok out" using sample_patch by blast
  from patch_keeps_the_hive [OF this sample_value] out show ?thesis by fastforce
qed

theorem patch_fails_only_for_room_witness:
  "\<exists>out. patch_cells sample_raw sample_hive = Ok out"
  using patch_fails_only_for_room [OF sample_value]
  by (auto simp: sample_raw_def sample_cells_def cells_of_def)

end
