(* ===== verification/Desktop_Jobs.thy ===== *)
theory Desktop_Jobs
  imports Image_Preparation Installer_Safety
begin

text \<open>
  The commands of the desktop application that create and remove references to
  images (\<open>apps/desktop/src-tauri/src/lib.rs\<close>): the coordinator under whose lock
  an image is checked, a job queued, an image or a job removed, and the other
  commands that touch jobs and devices.  The services the application holds are
  those of the other theories.
\<close>

datatype desktop_error =
    Image_In_Use
  | Device_In_Use
  | Desk_Images image_library_error
  | Desk_Jobs job_repository_error
  | Desk_Devices device_registry_error
  | No_Such_Image uuid
  | Image_Unverified uuid
  | Capture_Unsupported
  | Unsupported_Installer_Iso
  | Operation_Mismatch operation image_format
  | Swm_Unsupported
  | Linux_Needs_One_Target
  | No_Dispatcher
  | No_Linux_Options
  | Bad_Linux_Options linux_install_options_error
  | No_Installer_Capability
  | No_Such_Device uuid
  | Stale_Inventory
  | Unsupported_Firmware
  | Too_Little_Memory u64
  | Disk_Absent
  | No_Stable_Serial
  | Ambiguous_Disk
  | Disk_Too_Small u64
  | Linux_Options_On_Windows
  | Disk_Capacity deployment_target partition_capacity_error
  | Payload_Capacity deployment_target windows_payload_capacity_error
  | Iso_Preflight image_library_error
  | Image_Preflight image_library_error
  | Task_Panicked
  | No_Such_Job uuid
  | Installer_Not_Interruptible

text \<open>The state the commands share; the files are those of the machine the application runs on.\<close>

record desktop =
  dk_devices :: device_registry
  dk_images :: image_library
  dk_jobs :: job_repository
  dk_files :: file_system

text \<open>\<open>spawn_blocking\<close> turns a panic of the task into an error of its caller.\<close>

fun blocking :: "('e \<Rightarrow> desktop_error) \<Rightarrow> ('e, 'a) outcome \<Rightarrow> (desktop_error, 'a) outcome" where
  "blocking f (Ok x) = Ok x"
| "blocking f (Err e) = Err (f e)"
| "blocking f Panic = Err Task_Panicked"

lemma blocking_Ok [outcome_simps]: "blocking f r = Ok x \<longleftrightarrow> r = Ok x"
  by (cases r) auto

lemma blocking_no_panic [simp]: "blocking f r \<noteq> Panic"
  by (cases r) auto

section \<open>The boot package\<close>

definition dynamic_boot_layout_marker :: string where
  "dynamic_boot_layout_marker = ''.easydeploymesh-dynamic-boot-v1''"

definition dynamic_boot_script_header :: string where
  "dynamic_boot_script_header =
     ''#!ipxe'' @ [CHR 0x0A] @ ''# EasyDeployMesh dynamic installer dispatcher v1'' @ [CHR 0x0A]"

definition windows_fallback_ipxe_path :: "path \<Rightarrow> path" where
  "windows_fallback_ipxe_path root_path = join_name (join_name root_path ''boot'') ''easydeploymesh-winpe.ipxe''"

definition has_control_dispatcher :: "file_system \<Rightarrow> path \<Rightarrow> bool" where
  "has_control_dispatcher fs root_path =
     (is_file fs (join_name root_path dynamic_boot_layout_marker) \<and>
      is_file fs (windows_fallback_ipxe_path root_path) \<and>
      (case read_file fs (join_name root_path ''boot.ipxe'') of
         None \<Rightarrow> False
       | Some script \<Rightarrow> take (length dynamic_boot_script_header) script = text_bytes dynamic_boot_script_header))"

section \<open>Admission\<close>

definition validate_deployment_compatibility :: "operation \<Rightarrow> image_artifact \<Rightarrow> (desktop_error, unit) outcome" where
  "validate_deployment_compatibility op img =
     (if \<not> img_verified img then Err (Image_Unverified (img_id img))
      else if op = Capture_Gho then Err Capture_Unsupported
      else case img_format img of
        Iso \<Rightarrow> if op = Install_Linux \<and> supported_installer img \<noteq> None then Ok ()
                else Err Unsupported_Installer_Iso
      | Gho \<Rightarrow> if op = Deploy_Gho then Ok () else Err (Operation_Mismatch op Gho)
      | Swm \<Rightarrow> Err Swm_Unsupported
      | f \<Rightarrow> if op \<noteq> Deploy_Wim then Err (Operation_Mismatch op f) else Ok ())"

text \<open>The disks of the inventory that carry the fingerprint of the selected one.\<close>

definition same_fingerprint :: "disk \<Rightarrow> string \<Rightarrow> disk \<Rightarrow> bool" where
  "same_fingerprint selected serial d =
     (eq_ignore_case (trim (disk_model d)) (trim (disk_model selected)) \<and>
      abs_diff (disk_size_bytes d) (disk_size_bytes selected) \<le> 1024 * 1024 \<and>
      (case disk_serial d of None \<Rightarrow> False | Some actual \<Rightarrow> eq_ignore_case (trim actual) serial))"

definition resolve_linux_deployment_target ::
  "deployment_target \<Rightarrow> registered_device \<Rightarrow> installer_capability \<Rightarrow> (desktop_error, deployment_target) outcome" where
  "resolve_linux_deployment_target requested registered c =
     (let d = rd_device registered in
      and_then (ensure (rd_online registered) Stale_Inventory) (\<lambda>_.
      and_then (ensure (dev_architecture d = X86_64 \<and> dev_boot_mode d = Uefi) Unsupported_Firmware) (\<lambda>_.
      and_then (ensure (cap_minimum_memory_bytes c \<le> dev_memory_bytes d)
        (Too_Little_Memory (cap_minimum_memory_bytes c))) (\<lambda>_.
      and_then (ok_or (find (\<lambda>x. eq_ignore_case (disk_id x) (tgt_disk_id requested)) (dev_disks d)) Disk_Absent)
        (\<lambda>selected.
      and_then (ok_or (Option.bind (map_option trim (disk_serial selected)) non_empty) No_Stable_Serial) (\<lambda>serial.
      and_then (ensure (length (filter (same_fingerprint selected serial) (dev_disks d)) = 1) Ambiguous_Disk) (\<lambda>_.
      and_then (ensure (cap_minimum_disk_bytes c \<le> disk_size_bytes selected)
        (Disk_Too_Small (cap_minimum_disk_bytes c))) (\<lambda>_.
      Ok \<lparr> tgt_device_id = dev_id d, tgt_disk_id = disk_id selected,
           tgt_disk_model = trim (disk_model selected), tgt_disk_serial = Some serial,
           tgt_disk_size_bytes = disk_size_bytes selected \<rparr>))))))))"

definition admit_linux ::
  "library_world \<Rightarrow> path \<Rightarrow> instant \<Rightarrow> image_artifact \<Rightarrow> create_deployment_job \<Rightarrow> desktop \<Rightarrow>
   (desktop_error, create_deployment_job) outcome" where
  "admit_linux w boot_root now img req st =
     (case req_targets req of
        [requested] \<Rightarrow>
          and_then (ensure (has_control_dispatcher (dk_files st) boot_root) No_Dispatcher) (\<lambda>_.
          and_then (ok_or (opt_linux_install (req_options req)) No_Linux_Options) (\<lambda>install.
          and_then (map_err Bad_Linux_Options (validate_linux_options install)) (\<lambda>_.
          and_then (ok_or (supported_installer img) No_Installer_Capability) (\<lambda>c.
          and_then (ok_or (find (\<lambda>r. dev_id (rd_device r) = tgt_device_id requested)
              (list_devices (dk_devices st) now)) (No_Such_Device (tgt_device_id requested))) (\<lambda>registered.
          and_then (resolve_linux_deployment_target requested registered c) (\<lambda>resolved.
          and_then (blocking Iso_Preflight (prepare_linux_iso w (dk_files st) (req_image_id req) (dk_images st))) (\<lambda>_.
          Ok (req \<lparr> req_targets := [resolved] \<rparr>))))))))
      | _ \<Rightarrow> Err Linux_Needs_One_Target)"

fun each_target :: "(deployment_target \<Rightarrow> (desktop_error, unit) outcome) \<Rightarrow> deployment_target list \<Rightarrow>
    (desktop_error, unit) outcome" where
  "each_target check [] = Ok ()"
| "each_target check (t # ts) = and_then (check t) (\<lambda>_. each_target check ts)"

text \<open>The preflight gives the size of the raw payload, which only a Ghost image has.\<close>

definition windows_preflight ::
  "library_world \<Rightarrow> file_system \<Rightarrow> create_deployment_job \<Rightarrow> image_library \<Rightarrow>
   (image_library_error, u64 option) outcome" where
  "windows_preflight w fs req lib =
     (let i = req_image_id req; n = opt_image_index (req_options req) in
      case req_operation req of
        Deploy_Wim \<Rightarrow> map_ok (\<lambda>_. None) (revalidate_for_deployment w fs i n lib)
      | Deploy_Gho \<Rightarrow> map_ok (\<lambda>d. gic_expanded_size_bytes (pgd_capability d))
          (prepare_gho_partition_deployment w fs i n lib)
      | Capture_Gho \<Rightarrow> Err Unsupported_Format
      | Install_Linux \<Rightarrow> Panic)"

definition admit_windows ::
  "library_world \<Rightarrow> image_artifact \<Rightarrow> create_deployment_job \<Rightarrow> desktop \<Rightarrow>
   (desktop_error, create_deployment_job) outcome" where
  "admit_windows w img req st =
     (let plan = opt_partition_plan (req_options req) in
      and_then (ensure (opt_linux_install (req_options req) = None) Linux_Options_On_Windows) (\<lambda>_.
      and_then (each_target (\<lambda>t. map_err (Disk_Capacity t)
          (validate_capacity plan (tgt_disk_size_bytes t) (img_size_bytes img))) (req_targets req)) (\<lambda>_.
      and_then (blocking Image_Preflight (windows_preflight w (dk_files st) req (dk_images st))) (\<lambda>payload.
      and_then (case payload of
          None \<Rightarrow> Ok ()
        | Some payload_size \<Rightarrow> each_target (\<lambda>t. map_err (Payload_Capacity t)
            (validate_windows_payload_capacity plan (tgt_disk_size_bytes t) (img_size_bytes img) payload_size))
            (req_targets req)) (\<lambda>_.
      Ok req)))))"

definition admit_job ::
  "library_world \<Rightarrow> path \<Rightarrow> instant \<Rightarrow> create_deployment_job \<Rightarrow> desktop \<Rightarrow>
   (desktop_error, create_deployment_job) outcome" where
  "admit_job w boot_root now req st =
     and_then (ok_or (get_image (req_image_id req) (dk_images st)) (No_Such_Image (req_image_id req))) (\<lambda>img.
     and_then (validate_deployment_compatibility (req_operation req) img) (\<lambda>_.
     if req_operation req = Install_Linux then admit_linux w boot_root now img req st
     else admit_windows w img req st))"

section \<open>The commands of the coordinator\<close>

definition queue_admitted ::
  "create_deployment_job \<Rightarrow> job_env \<Rightarrow> desktop \<Rightarrow> (desktop_error, deployment_job) outcome \<times> desktop" where
  "queue_admitted req e st =
     (let (r, jobs) = enqueue_job req (env_fresh e) (env_clock e) (env_write e) (dk_jobs st) in
      (map_err Desk_Jobs r, st \<lparr> dk_jobs := jobs \<rparr>))"

definition create_deployment ::
  "library_world \<Rightarrow> path \<Rightarrow> instant \<Rightarrow> create_deployment_job \<Rightarrow> job_env \<Rightarrow> desktop \<Rightarrow>
   (desktop_error, deployment_job) outcome \<times> desktop" where
  "create_deployment w boot_root now req e st =
     then_do (admit_job w boot_root now req st, st) (\<lambda>admitted. queue_admitted admitted e)"

definition remove_deployment_image ::
  "library_world \<Rightarrow> image_artifact list write_result \<Rightarrow> uuid \<Rightarrow> desktop \<Rightarrow>
   (desktop_error, bool) outcome \<times> desktop" where
  "remove_deployment_image w write i st =
     (if references_image (dk_jobs st) i then (Err Image_In_Use, st)
      else
        let (r, lib, fs) = remove_image w write i (dk_images st) (dk_files st) in
        (map_err Desk_Images r, st \<lparr> dk_images := lib, dk_files := fs \<rparr>))"

definition remove_deployment ::
  "job_manifest write_result \<Rightarrow> uuid \<Rightarrow> desktop \<Rightarrow> (desktop_error, bool) outcome \<times> desktop" where
  "remove_deployment write i st =
     (let (r, jobs) = remove_job i write (dk_jobs st) in
      (map_err Desk_Jobs r, st \<lparr> dk_jobs := jobs \<rparr>))"

section \<open>Commands outside the coordinator\<close>

definition import_deployment_image ::
  "library_world \<Rightarrow> import_env \<Rightarrow> path \<Rightarrow> desktop \<Rightarrow> (desktop_error, image_artifact) outcome \<times> desktop" where
  "import_deployment_image w e p st =
     (let (r, lib, fs) = import_image w e p (dk_images st) (dk_files st) in
      (blocking Desk_Images r, st \<lparr> dk_images := lib, dk_files := fs \<rparr>))"

definition verify_deployment_image ::
  "library_world \<Rightarrow> image_artifact list write_result \<Rightarrow> uuid \<Rightarrow> desktop \<Rightarrow>
   (desktop_error, image_artifact) outcome \<times> desktop" where
  "verify_deployment_image w write i st =
     (let (r, lib) = verify_gho_image w write (dk_files st) i (dk_images st) in
      (blocking Desk_Images r, st \<lparr> dk_images := lib \<rparr>))"

text \<open>The host's command to move a job: looked up before, changed by the repository after.\<close>

definition transition_deployment ::
  "uuid \<Rightarrow> job_state \<Rightarrow> job_env \<Rightarrow> desktop \<Rightarrow> (desktop_error, deployment_job) outcome \<times> desktop" where
  "transition_deployment i next e st =
     (case find (\<lambda>j. job_id j = i) (list_jobs (dk_jobs st)) of
        None \<Rightarrow> (Err (No_Such_Job i), st)
      | Some current \<Rightarrow>
          if job_operation current = Install_Linux \<and> job_state current = Running \<and> next \<in> {Paused, Cancelled}
          then (Err Installer_Not_Interruptible, st)
          else
            let (r, jobs) = transition_job i next (env_clock e) (env_write e) (dk_jobs st) in
            (map_err Desk_Jobs r, st \<lparr> dk_jobs := jobs \<rparr>))"

fun transition_event :: "job_state \<Rightarrow> string \<times> activity_severity" where
  "transition_event Waiting = (''job_queued'', Sev_Info)"
| "transition_event Running = (''job_resumed'', Sev_Info)"
| "transition_event Paused = (''job_paused'', Sev_Warning)"
| "transition_event Cancelled = (''job_cancelled'', Sev_Warning)"
| "transition_event Succeeded = (''job_succeeded'', Sev_Success)"
| "transition_event Failed = (''job_failed'', Sev_Error)"
| "transition_event Draft = (''job_created'', Sev_Info)"

definition remove_deployment_device ::
  "uuid \<Rightarrow> device_env \<Rightarrow> desktop \<Rightarrow> (desktop_error, bool) outcome \<times> desktop" where
  "remove_deployment_device i e st =
     (if references_device (dk_jobs st) i then (Err Device_In_Use, st)
      else
        let (r, reg) = remove_device i e (dk_devices st) in
        (map_err Desk_Devices r, st \<lparr> dk_devices := reg \<rparr>))"

section \<open>What an admitted job promises\<close>

lemma each_target_Ok [outcome_simps]: "each_target check ts = Ok u \<longleftrightarrow> (\<forall>t \<in> set ts. check t = Ok ())"
  by (induction ts) (auto simp: outcome_simps)

lemma admit_job_Ok:
  assumes "admit_job w boot_root now req st = Ok r"
  obtains img where "get_image (req_image_id req) (dk_images st) = Some img"
    "validate_deployment_compatibility (req_operation req) img = Ok ()"
    "(if req_operation req = Install_Linux then admit_linux w boot_root now img req st
      else admit_windows w img req st) = Ok r"
  using assms by (auto simp: admit_job_def outcome_simps)

lemma compatible_image:
  assumes "validate_deployment_compatibility op img = Ok u"
  shows "img_verified img \<and> op \<noteq> Capture_Gho \<and>
    (op = Deploy_Wim \<longrightarrow> img_format img \<in> {Wim, Esd}) \<and> (op = Deploy_Gho \<longrightarrow> img_format img = Gho) \<and>
    (op = Install_Linux \<longrightarrow> img_format img = Iso)"
  using assms by (cases op)
    (auto simp: validate_deployment_compatibility_def split: if_splits image_format.splits)

text \<open>A plan fits a disk with an image: the sizes of the plan, the cache and the reserves, as numbers.\<close>

definition plan_fits :: "partition_plan \<Rightarrow> deployment_target \<Rightarrow> u64 \<Rightarrow> bool" where
  "plan_fits plan t image_size =
     (fixed_total (plan_partitions plan) + cache_total image_size +
      unat (remaining_minimum_mib (plan_partitions plan)) + 32 \<le> unat (tgt_disk_size_bytes t) div 1048576)"

lemma admit_windows_Ok:
  assumes "admit_windows w img req st = Ok r"
  shows "r = req" "opt_linux_install (req_options req) = None"
    and "\<forall>t \<in> set (req_targets req). plan_fits (opt_partition_plan (req_options req)) t (img_size_bytes img)"
    and "\<exists>payload. windows_preflight w (dk_files st) req (dk_images st) = Ok payload \<and>
      (\<forall>n t. payload = Some n \<longrightarrow> t \<in> set (req_targets req) \<longrightarrow>
        validate_windows_payload_capacity (opt_partition_plan (req_options req)) (tgt_disk_size_bytes t)
          (img_size_bytes img) n = Ok ())"
  using assms
  by (auto simp: admit_windows_def outcome_simps Let_def validate_capacity_Ok plan_fits_def split: option.splits)

text \<open>The device a Linux target was resolved on, as the registry lists it.\<close>

definition linux_ready :: "registered_device \<Rightarrow> installer_capability \<Rightarrow> bool" where
  "linux_ready r c =
     (rd_online r \<and> dev_architecture (rd_device r) = X86_64 \<and> dev_boot_mode (rd_device r) = Uefi \<and>
      cap_minimum_memory_bytes c \<le> dev_memory_bytes (rd_device r))"

lemma stable_serial: "Option.bind (map_option trim m) non_empty = Some x \<longleftrightarrow> map_option trim m = Some x \<and> x \<noteq> []"
  by (cases m) (auto simp: non_empty_def)

lemma resolve_Ok:
  assumes "resolve_linux_deployment_target requested r c = Ok t"
  shows "linux_ready r c" "tgt_device_id t = dev_id (rd_device r)"
    and "\<exists>d serial. d \<in> set (dev_disks (rd_device r)) \<and> eq_ignore_case (disk_id d) (tgt_disk_id requested) \<and>
      map_option trim (disk_serial d) = Some serial \<and> serial \<noteq> [] \<and>
      cap_minimum_disk_bytes c \<le> disk_size_bytes d \<and>
      length (filter (same_fingerprint d serial) (dev_disks (rd_device r))) = 1 \<and>
      t = \<lparr> tgt_device_id = dev_id (rd_device r), tgt_disk_id = disk_id d,
            tgt_disk_model = trim (disk_model d), tgt_disk_serial = Some serial,
            tgt_disk_size_bytes = disk_size_bytes d \<rparr>"
  using assms
  by (auto simp: resolve_linux_deployment_target_def Let_def outcome_simps linux_ready_def stable_serial
      dest!: find_Some_in)

lemma admit_linux_Ok:
  assumes "admit_linux w boot_root now img req st = Ok r"
  obtains requested c registered t p where "req_targets req = [requested]"
    "has_control_dispatcher (dk_files st) boot_root" "supported_installer img = Some c"
    "registered \<in> set (list_devices (dk_devices st) now)" "dev_id (rd_device registered) = tgt_device_id requested"
    "resolve_linux_deployment_target requested registered c = Ok t"
    "prepare_linux_iso w (dk_files st) (req_image_id req) (dk_images st) = Ok p"
    "r = req \<lparr> req_targets := [t] \<rparr>"
  using assms by (auto simp: admit_linux_def outcome_simps split: list.splits dest!: find_Some_in)

lemma enqueued:
  assumes "enqueue_job req fresh clk w repo = (Ok j, repo')"
  shows "j = new_job req Waiting fresh (clk 0)" "jr_jobs repo' = jr_jobs repo @ [j]" "length (req_targets req) = 1"
  using assms
  by (auto simp: enqueue_job_def insert_job_def commit_jobs_def Let_def
      split: outcome.splits if_splits write_result.splits)

lemma created:
  assumes "create_deployment w boot_root now req e st = (Ok j, st')"
  obtains r where "admit_job w boot_root now req st = Ok r"
    "j = new_job r Waiting (env_fresh e) (env_clock e 0)" "jr_jobs (dk_jobs st') = jr_jobs (dk_jobs st) @ [j]"
    "length (req_targets r) = 1" "dk_images st' = dk_images st" "dk_files st' = dk_files st"
proof -
  obtain r jobs where r: "admit_job w boot_root now req st = Ok r"
    "enqueue_job r (env_fresh e) (env_clock e) (env_write e) (dk_jobs st) = (Ok j, jobs)"
    "st' = st \<lparr> dk_jobs := jobs \<rparr>"
    using assms by (cases "admit_job w boot_root now req st")
      (auto simp: create_deployment_def queue_admitted_def outcome_simps split: prod.splits)
  from enqueued [OF r(2)] r show thesis by (intro that [of r]) simp_all
qed

text \<open>
  C3.  A job the desktop queues can be deployed: its image is in the library
  and verified, and fits its operation; the plan fits the disk of its only
  target.  A WIM or ESD image was just checked again, a Ghost image prepared
  with a payload that fits the Windows volume, and a Linux installer prepared
  for a target that is online, has the firmware and the memory it needs, and
  was resolved from the registry's inventory.
\<close>

theorem created_job_is_deployable:
  assumes "create_deployment w boot_root now req e st = (Ok j, st')"
  shows "jr_jobs (dk_jobs st') = jr_jobs (dk_jobs st) @ [j] \<and> job_state j = Waiting \<and>
    (let i = job_image_id j; n = opt_image_index (job_options j); plan = opt_partition_plan (job_options j);
         lib = dk_images st'; fs = dk_files st'; t = hd (job_targets j) in
     \<exists>img. get_image i lib = Some img \<and> img_verified img \<and> job_targets j = [t] \<and>
       (case job_operation j of
          Deploy_Wim \<Rightarrow> plan_fits plan t (img_size_bytes img) \<and>
            is_ok (revalidate_for_deployment w fs i n lib) \<and> img_format img \<in> {Wim, Esd}
        | Deploy_Gho \<Rightarrow> plan_fits plan t (img_size_bytes img) \<and> img_format img = Gho \<and>
            (\<exists>d. prepare_gho_partition_deployment w fs i n lib = Ok d \<and>
              (\<forall>size. gic_expanded_size_bytes (pgd_capability d) = Some size \<longrightarrow>
                 validate_windows_payload_capacity plan (tgt_disk_size_bytes t) (img_size_bytes img) size = Ok ()))
        | Capture_Gho \<Rightarrow> False
        | Install_Linux \<Rightarrow> is_ok (prepare_linux_iso w fs i lib) \<and> img_format img = Iso \<and>
            (\<exists>c r requested. supported_installer img = Some c \<and> r \<in> set (list_devices (dk_devices st) now) \<and>
               linux_ready r c \<and> resolve_linux_deployment_target requested r c = Ok t)))"
  using assms
proof (cases rule: created)
  case (1 r)
  obtain img where img: "get_image (req_image_id req) (dk_images st) = Some img"
    and ok: "validate_deployment_compatibility (req_operation req) img = Ok ()"
    and adm: "(if req_operation req = Install_Linux then admit_linux w boot_root now img req st
      else admit_windows w img req st) = Ok r"
    using admit_job_Ok [OF 1(1)] by blast
  note c = compatible_image [OF ok]
  show ?thesis
  proof (cases "req_operation req = Install_Linux")
    case True
    with adm obtain requested cap registered t p where
      l: "supported_installer img = Some cap" "registered \<in> set (list_devices (dk_devices st) now)"
        "resolve_linux_deployment_target requested registered cap = Ok t"
        "prepare_linux_iso w (dk_files st) (req_image_id req) (dk_images st) = Ok p"
        "r = req \<lparr> req_targets := [t] \<rparr>"
      by (auto elim: admit_linux_Ok)
    with True 1 img c resolve_Ok(1) [OF l(3)] show ?thesis by (auto simp: new_job_def)
  next
    case False
    with adm have w: "admit_windows w img req st = Ok r" by simp
    note a = admit_windows_Ok [OF w]
    from 1(4) obtain t where t: "req_targets r = [t]" by (auto simp: length_Suc_conv)
    with a(1) have "t \<in> set (req_targets req)" by simp
    with a(3,4) 1 img c False t a(1) show ?thesis
      by (cases "req_operation req")
        (auto simp: new_job_def windows_preflight_def is_ok_iff outcome_simps)
  qed
qed

section \<open>A resolved Linux target\<close>

text \<open>The installer sees a disk of the inventory under any path.\<close>

definition sees :: "disk \<Rightarrow> linux_installer_observed_disk \<Rightarrow> bool" where
  "sees d ob =
     (trim (obs_model ob) = trim (disk_model d) \<and> obs_size_bytes ob = disk_size_bytes d \<and>
      map_option trim (obs_serial ob) = map_option trim (disk_serial d))"

lemma list_all2_filtered:
  "list_all2 R xs ys \<Longrightarrow> (\<And>x y. R x y \<Longrightarrow> P x = Q y) \<Longrightarrow> list_all2 R (filter P xs) (filter Q ys)"
  by (induction rule: list_all2_induct) auto

lemma sole_filtered:
  assumes "length (filter P xs) = 1" "x \<in> set xs" "P x"
  shows "filter P xs = [x]"
proof -
  have "x \<in> set (filter P xs)" using assms by simp
  with assms(1) show ?thesis by (cases "filter P xs") auto
qed

lemma seen_fingerprint:
  assumes "sees d ob" "tgt_disk_model t = trim (disk_model selected)"
    "tgt_disk_size_bytes t = disk_size_bytes selected"
  shows "same_fingerprint selected serial d = disk_matches_target t serial ob"
  using assms by (cases "disk_serial d"; cases "obs_serial ob")
    (auto simp: sees_def same_fingerprint_def disk_matches_target_def disk_size_tolerance_bytes_def)

text \<open>
  The target a Linux job is queued with is one the installer's guard
  can authorize: while the machine's disks are those of its inventory,
  under whatever paths, the guard finds exactly one disk for the target,
  and that disk is as large as the installer needs.
\<close>

theorem resolved_target_is_authorizable:
  assumes "resolve_linux_deployment_target requested r c = Ok t"
    and "list_all2 sees (dev_disks (rd_device r)) obs"
  shows "tgt_device_id t = dev_id (rd_device r) \<and>
    (\<exists>ob \<in> set obs. uniquely_matching_disk t obs = Ok ob \<and> cap_minimum_disk_bytes c \<le> obs_size_bytes ob)"
proof -
  obtain d serial where d: "d \<in> set (dev_disks (rd_device r))" "map_option trim (disk_serial d) = Some serial"
      "serial \<noteq> []" "cap_minimum_disk_bytes c \<le> disk_size_bytes d"
      "length (filter (same_fingerprint d serial) (dev_disks (rd_device r))) = 1"
    and t: "t = \<lparr> tgt_device_id = dev_id (rd_device r), tgt_disk_id = disk_id d,
      tgt_disk_model = trim (disk_model d), tgt_disk_serial = Some serial,
      tgt_disk_size_bytes = disk_size_bytes d \<rparr>"
    using resolve_Ok(3) [OF assms(1)] by blast
  have trimmed: "trim serial = serial" using d(2) by auto
  have "same_fingerprint d serial d" using d(2) by (auto simp: same_fingerprint_def eq_ignore_case_def abs_diff_def)
  with d(1,5) have only: "filter (same_fingerprint d serial) (dev_disks (rd_device r)) = [d]"
    by (intro sole_filtered)
  have "list_all2 sees [d] (filter (disk_matches_target t serial) obs)"
    using list_all2_filtered [OF assms(2), of "same_fingerprint d serial" "disk_matches_target t serial"]
      seen_fingerprint [of _ _ t d serial] only by (simp add: t)
  then obtain ob where ob: "filter (disk_matches_target t serial) obs = [ob]" "sees d ob"
    by (auto simp: list_all2_Cons1)
  then have "ob \<in> set obs" by (metis filter_is_subset list.set_intros(1) subsetD)
  with ob d(3,4) trimmed show ?thesis by (auto simp: t uniquely_matching_disk_def sees_def)
qed

section \<open>Images stay while jobs refer to them\<close>

text \<open>
  The coordinator's lock: a creation holds it from its checks until the job is
  queued, with what it admitted; between the two, commands that do not take the
  lock, the agents and the machine go on.
\<close>

record coordinator =
  co_desk :: desktop
  co_admitted :: "create_deployment_job option"

fun creates_job :: "job_call \<Rightarrow> bool" where
  "creates_job (Create req) = True"
| "creates_job (Enqueue req) = True"
| "creates_job q = False"

inductive desk_step :: "library_world \<Rightarrow> path \<Rightarrow> coordinator \<Rightarrow> coordinator \<Rightarrow> bool"
  for w :: library_world and boot_root :: path where
  admit: "co_admitted c = None \<Longrightarrow> admit_job w boot_root now req (co_desk c) = Ok r \<Longrightarrow>
     desk_step w boot_root c (c \<lparr> co_admitted := Some r \<rparr>)"
| queue: "co_admitted c = Some r \<Longrightarrow> fresh_env (Enqueue r, e) (dk_jobs (co_desk c)) \<Longrightarrow>
     desk_step w boot_root c \<lparr> co_desk = snd (queue_admitted r e (co_desk c)), co_admitted = None \<rparr>"
| give_up: "desk_step w boot_root c (c \<lparr> co_admitted := None \<rparr>)"
| remove_img: "co_admitted c = None \<Longrightarrow>
     desk_step w boot_root c (c \<lparr> co_desk := snd (remove_deployment_image w write i (co_desk c)) \<rparr>)"
| remove_job: "co_admitted c = None \<Longrightarrow>
     desk_step w boot_root c (c \<lparr> co_desk := snd (remove_deployment jobs_write i (co_desk c)) \<rparr>)"
| import_img: "desk_step w boot_root c (c \<lparr> co_desk := snd (import_deployment_image w ie p (co_desk c)) \<rparr>)"
| verify_img: "desk_step w boot_root c (c \<lparr> co_desk := snd (verify_deployment_image w write i (co_desk c)) \<rparr>)"
| move_job: "desk_step w boot_root c (c \<lparr> co_desk := snd (transition_deployment i next e (co_desk c)) \<rparr>)"
| remove_device: "desk_step w boot_root c (c \<lparr> co_desk := snd (remove_deployment_device i de (co_desk c)) \<rparr>)"
| device_call: "desk_step w boot_root c (c \<lparr> co_desk := co_desk c \<lparr> dk_devices := reg \<rparr> \<rparr>)"
| job_call: "\<not> creates_job (fst q) \<Longrightarrow> fresh_env q (dk_jobs (co_desk c)) \<Longrightarrow>
     desk_step w boot_root c (c \<lparr> co_desk := co_desk c \<lparr> dk_jobs := snd (run_job_call q (dk_jobs (co_desk c))) \<rparr> \<rparr>)"
| machine: "desk_step w boot_root c (c \<lparr> co_desk := co_desk c \<lparr> dk_files := fs \<rparr> \<rparr>)"

text \<open>Every job, and the request admitted while the lock is held, has its image in the library.\<close>

definition images_kept :: "coordinator \<Rightarrow> bool" where
  "images_kept c =
     (let st = co_desk c in
      jobs_inv (jr_jobs (dk_jobs st)) \<and>
      (\<forall>j \<in> set (jr_jobs (dk_jobs st)). contains_image (job_image_id j) (dk_images st)) \<and>
      (\<forall>r. co_admitted c = Some r \<longrightarrow> contains_image (req_image_id r) (dk_images st)))"

lemma contains_image_set: "contains_image i lib \<longleftrightarrow> i \<in> img_id ` set (lib_images lib)"
  by (auto simp: contains_image_def list_ex_iff)

lemma persisted_lib:
  "lib_images (snd (persist wr images lib)) \<in> {lib_images lib, images}"
  by (cases wr) (simp_all add: persist_def persist_manifest_def split: unit.split)

lemma after_persist:
  "fst (snd (case p of (Ok (), l) \<Rightarrow> (r, l, f) | (Err x, l) \<Rightarrow> (Err x, l, g) | (Panic, l) \<Rightarrow> (Panic, l, f))) = snd p"
proof (cases p)
  case (Pair a l)
  then show ?thesis by (cases a) (simp_all split: unit.split)
qed

lemma after_persist_lib:
  "snd (case p of (Ok (), l) \<Rightarrow> (r, l) | (Err x, l) \<Rightarrow> (Err x, l) | (Panic, l) \<Rightarrow> (Panic, l)) = snd p"
proof (cases p)
  case (Pair a l)
  then show ?thesis by (cases a) (simp_all split: unit.split)
qed

lemma register_keeps:
  assumes "contains_image i lib"
  shows "contains_image i (fst (snd (register_image w e source format s facts lib fs)))"
proof -
  have kept: "contains_image i (snd (persist wr
      (filter (\<lambda>b. img_id b \<noteq> k) (lib_images lib) @ [new_artifact k name format facts m t]) lib))" for wr k name m t
    using persisted_lib [of wr "filter (\<lambda>b. img_id b \<noteq> k) (lib_images lib) @ [new_artifact k name format facts m t]" lib]
      assms by (auto simp: contains_image_set new_artifact_def Let_def)
  obtain m fs1 where c: "commit_staged (ie_object_id e) (lib_objects_dir lib) s fs = (m, fs1)" by fastforce
  consider a where "matching_image w fs format s facts lib = Some (a, True)"
    | a where "matching_image w fs format s facts lib = Some (a, False)"
    | "matching_image w fs format s facts lib = None"
    by (metis (full_types) option.exhaust surj_pair)
  then show ?thesis
    by cases (cases m; simp add: register_image_def c Let_def after_persist kept assms)+
qed

lemma import_keeps:
  assumes "contains_image i lib"
  shows "contains_image i (fst (snd (import_image w e p lib fs)))"
  using assms register_keeps [OF assms]
  by (auto simp: import_image_def split: outcome.splits prod.splits)

lemma verify_keeps:
  assumes "contains_image i lib"
  shows "contains_image i (snd (verify_gho_image w wr fs k lib))"
proof -
  have kept: "contains_image i (snd (persist wr (update_first (\<lambda>a. img_id a = k)
      (\<lambda>_. a \<lparr> img_verified := v, img_gho_capability := c \<rparr>) (lib_images lib)) lib))"
    if "image_of k lib = Ok a" for a v c
  proof -
    from that have a: "find (\<lambda>a. img_id a = k) (lib_images lib) = Some a"
      by (simp add: image_of_def get_image_def outcome_simps)
    from update_first_split [OF this, of "\<lambda>_. a \<lparr> img_verified := v, img_gho_capability := c \<rparr>"]
    obtain us vs where "lib_images lib = us @ a # vs" "update_first (\<lambda>a. img_id a = k)
      (\<lambda>_. a \<lparr> img_verified := v, img_gho_capability := c \<rparr>) (lib_images lib) =
        us @ a \<lparr> img_verified := v, img_gho_capability := c \<rparr> # vs" by auto
      with persisted_lib [of wr "update_first (\<lambda>a. img_id a = k)
      (\<lambda>_. a \<lparr> img_verified := v, img_gho_capability := c \<rparr>) (lib_images lib)" lib] assms
    show ?thesis by (auto simp: contains_image_set)
  qed
  define r where "r = and_then (image_of k lib) (\<lambda>a.
     and_then (ensure (img_format a = Gho) Unsupported_Format) (\<lambda>_.
     and_then (resolve_managed_file fs (lib_objects_dir lib) k (img_source_path a)) (\<lambda>managed.
     map_ok (\<lambda>c. a \<lparr> img_verified := gic_deployable c, img_gho_capability := Some c \<rparr>)
       (inspect_native_gho w fs managed (map path_of (img_spans a))))))"
  show ?thesis
  proof (cases r)
    case (Ok updated)
    then have "\<exists>a v c. image_of k lib = Ok a \<and> updated = a \<lparr> img_verified := v, img_gho_capability := c \<rparr>"
      unfolding r_def outcome_simps by blast
    moreover have "snd (verify_gho_image w wr fs k lib) =
        snd (persist wr (update_first (\<lambda>a. img_id a = k) (\<lambda>_. updated) (lib_images lib)) lib)"
      unfolding verify_gho_image_def r_def [symmetric] Ok by (simp add: after_persist_lib)
    ultimately show ?thesis using kept by auto
  qed (simp_all add: verify_gho_image_def r_def [symmetric] assms)
qed

lemma remove_image_keeps:
  assumes "contains_image i lib" "i \<noteq> k"
  shows "contains_image i (fst (snd (remove_image w wr k lib fs)))"
proof -
  let ?images = "filter (\<lambda>a. img_id a \<noteq> k) (lib_images lib)"
  have "contains_image i (snd (persist wr ?images lib))"
    using persisted_lib [of wr ?images lib] assms by (auto simp: contains_image_set)
  moreover have "fst (snd (remove_image w wr k lib fs)) \<in> {lib, snd (persist wr ?images lib)}"
    by (cases "get_image k lib"; cases "persist wr ?images lib"; cases "fst (persist wr ?images lib)")
      (simp_all add: remove_image_def Let_def split: option.split unit.split)
  ultimately show ?thesis using assms(1) by auto
qed

section \<open>Every step keeps the images\<close>

lemma call_keeps_length:
  "\<not> creates_job (fst q) \<Longrightarrow> length (jr_jobs (snd (run_job_call q repo))) \<le> length (jr_jobs repo)"
  by (cases q rule: run_job_call.cases)
    (auto simp: job_call_defs Let_def modify_job_def lease_for_device_if_def renew_control_lease_def remove_job_def
      commit_jobs_snd simp del: map_ok.simps split: option.splits outcome.splits)

lemma shrinking_step_images:
  assumes "job_step js js'" "length js' \<le> length js"
  shows "job_image_id ` set js' \<subseteq> job_image_id ` set js"
  using assms by (cases rule: job_step.cases) (auto simp: evolves_def)

lemma queued_images:
  "job_image_id ` set (jr_jobs (snd (run_job_call (Enqueue r, e) repo))) \<subseteq>
     insert (req_image_id r) (job_image_id ` set (jr_jobs repo))"
  by (auto simp: enqueue_job_def reply_with_def insert_job_def commit_jobs_snd Let_def new_job_def
      split: outcome.splits if_splits)

lemma jobs_moved:
  assumes "images_kept c" "job_step (jr_jobs (dk_jobs (co_desk c))) (jr_jobs jobs)"
    and "length (jr_jobs jobs) \<le> length (jr_jobs (dk_jobs (co_desk c)))"
  shows "images_kept (c \<lparr> co_desk := co_desk c \<lparr> dk_jobs := jobs \<rparr> \<rparr>)"
  using assms(1) job_step_inv [OF assms(2)] shrinking_step_images [OF assms(2,3)]
  by (auto simp: images_kept_def Let_def)

lemma library_moved:
  assumes "images_kept c"
    and "\<And>i. contains_image i (dk_images (co_desk c)) \<Longrightarrow> i \<in> req_image_id ` set_option (co_admitted c) \<union>
      job_image_id ` set (jr_jobs (dk_jobs (co_desk c))) \<Longrightarrow> contains_image i lib"
  shows "images_kept (c \<lparr> co_desk := co_desk c \<lparr> dk_images := lib, dk_files := fs \<rparr> \<rparr>)"
  using assms by (auto simp: images_kept_def Let_def)

lemma desk_step_keeps:
  assumes "desk_step w boot_root c c'" "images_kept c"
  shows "images_kept c'"
  using assms
proof (cases rule: desk_step.cases)
  case (admit now req r)
  obtain img where "get_image (req_image_id req) (dk_images (co_desk c)) = Some img"
    "req_image_id r = req_image_id req"
    using admit(3) by (elim admit_job_Ok) (auto split: if_splits elim!: admit_linux_Ok dest: admit_windows_Ok(1))
  then have "contains_image (req_image_id r) (dk_images (co_desk c))"
    by (auto simp: get_image_def contains_image_def list_ex_iff dest!: find_Some_in)
  with admit(1) assms(2) show ?thesis by (simp add: images_kept_def Let_def)
next
  case (queue r e)
  let ?jobs = "dk_jobs (co_desk c)"
  have inv: "jobs_inv (jr_jobs (snd (run_job_call (Enqueue r, e) ?jobs)))"
    using assms(2) queue(3) by (intro job_step_inv [OF run_job_call_step]) (simp_all add: images_kept_def Let_def)
  have "snd (queue_admitted r e (co_desk c)) = co_desk c \<lparr> dk_jobs := snd (run_job_call (Enqueue r, e) ?jobs) \<rparr>"
    by (simp add: queue_admitted_def reply_with_def split: prod.split)
  with queue(1,2) assms(2) inv queued_images [of r e ?jobs] show ?thesis
    by (auto simp: images_kept_def Let_def simp del: run_job_call.simps)
next
  case (remove_img wr i)
  let ?st = "co_desk c"
  show ?thesis
  proof (cases "references_image (dk_jobs ?st) i")
    case True
    with remove_img assms(2) show ?thesis by (simp add: remove_deployment_image_def)
  next
    case False
    then have "i \<notin> job_image_id ` set (jr_jobs (dk_jobs ?st))"
      by (auto simp: references_image_def list_ex_iff)
    with assms(2) remove_img(2) have "images_kept (c \<lparr> co_desk := ?st \<lparr>
        dk_images := fst (snd (remove_image w wr i (dk_images ?st) (dk_files ?st))), dk_files := fs \<rparr> \<rparr>)" for fs
      by (intro library_moved remove_image_keeps) auto
    with remove_img False show ?thesis by (simp add: remove_deployment_image_def split: prod.splits)
  qed
next
  case (remove_job wr i)
  have "length (jr_jobs (snd (Job_Repository.remove_job i wr jobs))) \<le> length (jr_jobs jobs)" for jobs
    by (auto simp: remove_job_def commit_jobs_snd split: option.splits)
  then have "images_kept (c \<lparr> co_desk := co_desk c \<lparr> dk_jobs :=
      snd (Job_Repository.remove_job i wr (dk_jobs (co_desk c))) \<rparr> \<rparr>)"
    by (intro jobs_moved [OF assms(2) remove_job_step(1)])
  with remove_job show ?thesis by (simp add: remove_deployment_def split: prod.splits)
next
  case (import_img ie p)
  have "images_kept (c \<lparr> co_desk := co_desk c \<lparr> dk_images :=
      fst (snd (import_image w ie p (dk_images (co_desk c)) (dk_files (co_desk c)))), dk_files := fs \<rparr> \<rparr>)" for fs
    by (rule library_moved [OF assms(2) import_keeps])
  with import_img show ?thesis by (simp add: import_deployment_image_def split: prod.splits)
next
  case (verify_img wr i)
  have "images_kept (c \<lparr> co_desk := co_desk c \<lparr> dk_images :=
      snd (verify_gho_image w wr (dk_files (co_desk c)) i (dk_images (co_desk c))), dk_files := fs \<rparr> \<rparr>)" for fs
    by (rule library_moved [OF assms(2) verify_keeps])
  from this [of "dk_files (co_desk c)"] verify_img show ?thesis
    by (simp add: verify_deployment_image_def split: prod.splits)
next
  case (move_job i s e)
  have "length (jr_jobs (snd (transition_job i s (env_clock e) (env_write e) jobs))) \<le> length (jr_jobs jobs)" for jobs
    by (auto simp: transition_job_def modify_job_def commit_jobs_snd split: option.splits outcome.splits)
  moreover have "job_step (jr_jobs jobs) (jr_jobs (snd (transition_job i s (env_clock e) (env_write e) jobs)))"
    if "jobs_inv (jr_jobs jobs)" for jobs
    unfolding transition_job_def by (rule modify_job_step(1) [OF good_transition that])
  ultimately have "images_kept (c \<lparr> co_desk := co_desk c \<lparr> dk_jobs :=
      snd (transition_job i s (env_clock e) (env_write e) (dk_jobs (co_desk c))) \<rparr> \<rparr>)"
    using assms(2) by (intro jobs_moved) (simp_all add: images_kept_def Let_def)
  with move_job assms(2) show ?thesis
    by (auto simp: transition_deployment_def split: prod.splits option.splits)
next
  case (job_call q)
  then show ?thesis
    using assms(2) jobs_moved [OF assms(2) run_job_call_step call_keeps_length]
    by (simp add: images_kept_def Let_def)
qed (use assms(2) in \<open>auto simp: images_kept_def Let_def remove_deployment_device_def split: prod.splits\<close>)

text \<open>
  C4.  No image is lost under a job: in every interleaving of the desktop's
  commands with the agents, the installers and the machine, every stored job,
  and the request a creation has admitted but not yet queued, has its image in
  the library, and the jobs keep their own invariant.
\<close>

theorem jobs_keep_their_images:
  assumes "(desk_step w boot_root)\<^sup>*\<^sup>* c c'" "images_kept c"
  shows "images_kept c'"
  using assms by (induction rule: rtranclp_induct) (auto intro: desk_step_keeps)

section \<open>Looking at the devices\<close>

text \<open>
  How long a refresh waits: until the last of the online devices must have
  reported again, and no longer than the window.  A deadline in the past is no
  duration and is dropped.
\<close>

definition longest :: "int list \<Rightarrow> int" where
  "longest ds = foldr max (filter (\<lambda>d. 0 \<le> d) ds) 0"

definition refresh_wait :: "device_registry \<Rightarrow> instant \<Rightarrow> instant \<Rightarrow> int" where
  "refresh_wait reg now listed_at =
     (let deadlines = map (\<lambda>r. dev_last_seen_at (rd_device r) + device_verification_window - now)
            (filter rd_online (list_devices reg listed_at)) in
      min (longest deadlines) device_verification_window)"

definition refreshed_devices :: "device_registry \<Rightarrow> instant \<Rightarrow> registered_device list" where
  "refreshed_devices reg = list_with_online_window reg device_verification_window"

text \<open>
  The offline devices that were not logged yet, and the set of those that are
  logged now; a device that is back online leaves the set.
\<close>

abbreviation device_of :: "registered_device \<Rightarrow> uuid" where "device_of r \<equiv> dev_id (rd_device r)"

fun note_offline :: "registered_device list \<Rightarrow> uuid set \<Rightarrow> registered_device list \<times> uuid set" where
  "note_offline [] logged = ([], logged)"
| "note_offline (r # rs) logged =
     (let i = dev_id (rd_device r) in
      if rd_online r then note_offline rs (logged - {i})
      else if i \<in> logged then note_offline rs logged
      else let (events, logged') = note_offline rs (insert i logged) in (r # events, logged'))"

definition offline_draft :: "registered_device \<Rightarrow> detail activity_draft" where
  "offline_draft r =
     (let d = rd_device r in
      \<lparr> ad_source = Src_Device, ad_kind = ''device_offline'', ad_severity = Sev_Warning,
        ad_subject = Some \<lparr> subj_id = uuid_text (dev_id d),
          subj_name = (case dev_hostname d of None \<Rightarrow> dev_mac_address d | Some h \<Rightarrow> h) \<rparr>,
        ad_details = [(''ipAddress'', Detail_Text (dev_ip_address d)),
          (''macAddress'', Detail_Text (dev_mac_address d))],
        ad_raw_message = None \<rparr>)"

lemma longest_bounds: "0 \<le> longest ds" "d \<in> set ds \<Longrightarrow> d \<le> longest ds"
  by (induction ds) (auto simp: longest_def)

text \<open>
  A refresh shows only devices that are alive: a device that was online
  when the refresh began and has not reported since is shown offline once the
  computed wait has passed.
\<close>

theorem refresh_shows_only_live_devices:
  assumes "r \<in> set (dr_devices reg)" "dev_last_seen_at (rec_device r) \<le> listed_at"
    and "listed_at \<le> now" "now + refresh_wait reg now listed_at < later"
    and "presence_of r listed_at device_online_window = before" "rd_online before"
    and "r \<in> set (dr_devices reg')"
  shows "\<exists>after \<in> set (refreshed_devices reg' later). rd_device after = rec_device r \<and> \<not> rd_online after"
proof -
  let ?d = "dev_last_seen_at (rec_device r) + device_verification_window - now"
  have listed: "before \<in> set (list_devices reg listed_at)"
    using assms(1,5) by (auto simp: list_devices_def list_with_online_window_def)
  have "rd_device before = rec_device r" using assms(5) by (auto simp: presence_of_def)
  with listed assms(6) have d: "?d \<in> set (map (\<lambda>r. dev_last_seen_at (rd_device r) + device_verification_window - now)
      (filter rd_online (list_devices reg listed_at)))" by force
  have "?d \<le> refresh_wait reg now listed_at"
    using longest_bounds(2) [OF d] assms(2,3) by (simp add: refresh_wait_def)
  with assms(4) have "\<not> rd_online (presence_of r later device_verification_window)"
    by (simp add: presence_of_def device_verification_window_def)
  moreover have "presence_of r later device_verification_window \<in> set (refreshed_devices reg' later)"
    using assms(7) by (simp add: refreshed_devices_def list_with_online_window_def)
  ultimately show ?thesis by (intro bexI) (auto simp: presence_of_def)
qed

lemma distinct_head: "distinct (map f (x # xs)) \<Longrightarrow> y \<in> set xs \<Longrightarrow> f y \<noteq> f x"
  by (metis distinct.simps(2) image_eqI list.simps(9) set_map)

text \<open>An event is recorded for each device that is offline and was not logged as such.\<close>

lemma note_offline_events:
  "distinct (map device_of rs) \<Longrightarrow>
   fst (note_offline rs logged) = filter (\<lambda>r. \<not> rd_online r \<and> device_of r \<notin> logged) rs"
proof (induction rs arbitrary: logged)
  case (Cons r rs)
  have same: "filter (\<lambda>x. \<not> rd_online x \<and> device_of x \<notin> L) rs =
      filter (\<lambda>x. \<not> rd_online x \<and> device_of x \<notin> logged) rs"
    if "\<And>i. i \<noteq> device_of r \<Longrightarrow> i \<in> L \<longleftrightarrow> i \<in> logged" for L
  proof (rule filter_cong [OF refl])
    fix x assume "x \<in> set rs"
    from distinct_head [OF Cons.prems this] have "device_of x \<noteq> device_of r" .
    then show "(\<not> rd_online x \<and> device_of x \<notin> L) = (\<not> rd_online x \<and> device_of x \<notin> logged)"
      using that by simp
  qed
  have IH: "fst (note_offline rs L) = filter (\<lambda>r. \<not> rd_online r \<and> device_of r \<notin> L) rs" for L
    using Cons by simp
  have "filter (\<lambda>x. \<not> rd_online x \<and> device_of x \<notin> logged - {device_of r}) rs =
      filter (\<lambda>x. \<not> rd_online x \<and> device_of x \<notin> logged) rs"
    "filter (\<lambda>x. \<not> rd_online x \<and> device_of x \<notin> insert (device_of r) logged) rs =
      filter (\<lambda>x. \<not> rd_online x \<and> device_of x \<notin> logged) rs"
    by (rule same; simp)+
  then show ?case
    unfolding note_offline.simps Let_def case_prod_beta by (simp only: IH filter.simps split: if_split) simp
qed simp

lemma note_offline_set:
  "distinct (map device_of rs) \<Longrightarrow> k \<in> snd (note_offline rs logged) \<longleftrightarrow>
     (case find (\<lambda>r. device_of r = k) rs of None \<Rightarrow> k \<in> logged | Some r \<Rightarrow> \<not> rd_online r)"
proof (induction rs arbitrary: logged)
  case (Cons r rs)
  have "find (\<lambda>x. device_of x = device_of r) rs = None"
    using distinct_head [OF Cons.prems] by (simp add: find_None_iff)
  with Cons show ?case by (auto simp: Let_def case_prod_beta split: option.splits)
qed simp

section \<open>A sample desktop\<close>

definition sample_desktop :: desktop where
  "sample_desktop = \<lparr> dk_devices = empty_registry, dk_images = sample_image_library,
     dk_jobs = empty_repository, dk_files = sample_disk \<rparr>"

definition sample_ghost_request :: create_deployment_job where
  "sample_ghost_request = sample_windows_request \<lparr> req_operation := Deploy_Gho \<rparr>"

lemma sample_ghost [simp]:
  "req_operation sample_ghost_request = Deploy_Gho" "req_image_id sample_ghost_request = 3"
  "req_targets sample_ghost_request = [sample_target]" "req_options sample_ghost_request = default_options"
  by (simp_all add: sample_ghost_request_def sample_windows_request_def)

lemma sample_ghost_valid: "validate_request sample_ghost_request = Ok ()"
  by (simp add: validate_request_def sample_ghost_request_def sample_windows_request_def sample_target_def
      default_options_def sample_trims legacy_bios_mbr_valid fingerprint_incomplete_def)

lemma sample_capacity:
  "validate_capacity legacy_bios_mbr 274877906944 1081 = Ok ()"
  "validate_windows_payload_capacity legacy_bios_mbr 274877906944 1081 11 = Ok ()"
  by (simp_all add: validate_capacity_Ok fixed_total_def cache_total_def remaining_minimum_mib_def legacy_bios_mbr_def
      minimum_windows_mib_def validate_windows_payload_capacity_def List.map_filter_def Let_def word_less_nat_alt
      word_nat unat_disk_mib)

lemma sample_payload:
  "windows_preflight ntfs_world sample_disk sample_ghost_request sample_image_library = Ok (Some 11)"
proof -
  obtain d where d: "prepare_gho_partition_deployment ntfs_world sample_disk 3 1 sample_image_library = Ok d"
    using sample_preparation by blast
  then have "gic_expanded_size_bytes (pgd_capability d) = Some 11"
    using ntfs_deployable
    by (auto simp: prepare_gho_partition_deployment_def outcome_simps deployable_capability_def image_of_def
        get_image_def sample_image_library_def ntfs_artifact_def Let_def ntfs_partition_def
        split: if_splits)
  with d show ?thesis by (simp add: windows_preflight_def default_options_def)
qed

lemma sample_admitted:
  "admit_job ntfs_world [root] 0 sample_ghost_request sample_desktop = Ok sample_ghost_request"
  by (simp add: admit_job_def sample_desktop_def sample_image_library_def get_image_def ntfs_artifact_def
      validate_deployment_compatibility_def admit_windows_def ensure_def default_options_def sample_target_def
      sample_capacity sample_payload [unfolded sample_image_library_def ntfs_artifact_def])

definition queued_desktop :: desktop where
  "queued_desktop = sample_desktop \<lparr> dk_jobs := snd (run_job_call (Enqueue sample_ghost_request, sample_env 5 0) empty_repository) \<rparr>"

lemma sample_queued:
  "queue_admitted sample_ghost_request (sample_env 5 0) sample_desktop =
     (Ok (new_job sample_ghost_request Waiting 5 0), queued_desktop)"
  by (simp add: queue_admitted_def enqueue_job_def insert_job_def sample_ghost_valid Let_def empty_repository_def
      sample_env_def commit_jobs_def queued_desktop_def sample_desktop_def reply_with_def)

lemma queued_jobs: "jr_jobs (dk_jobs queued_desktop) = [new_job sample_ghost_request Waiting 5 0]"
  using enqueued(2) [of sample_ghost_request 5 "env_clock (sample_env 5 0)" Written empty_repository]
  by (simp add: queued_desktop_def sample_desktop_def enqueue_job_def insert_job_def sample_ghost_valid Let_def
      empty_repository_def sample_env_def commit_jobs_def reply_with_def)

theorem created_job_is_deployable_witness:
  "\<exists>j st' img d. create_deployment ntfs_world [root] 0 sample_ghost_request (sample_env 5 0) sample_desktop = (Ok j, st') \<and>
     jr_jobs (dk_jobs st') = [j] \<and> get_image 3 (dk_images st') = Some img \<and> img_verified img \<and> img_format img = Gho \<and>
     prepare_gho_partition_deployment ntfs_world sample_disk 3 1 (dk_images st') = Ok d"
proof -
  have run: "create_deployment ntfs_world [root] 0 sample_ghost_request (sample_env 5 0) sample_desktop =
      (Ok (new_job sample_ghost_request Waiting 5 0), queued_desktop)"
    by (simp add: create_deployment_def sample_admitted sample_queued)
  from created_job_is_deployable [OF this] run show ?thesis
    by (auto simp: Let_def new_job_def default_options_def sample_desktop_def empty_repository_def queued_desktop_def)
qed

definition sample_seen_disk :: disk where
  "sample_seen_disk = \<lparr> disk_id = ''0'', disk_model = ''M'', disk_serial = Some ''S1'',
     disk_size_bytes = 274877906944, disk_is_system = False \<rparr>"

definition sample_registered :: registered_device where
  "sample_registered = presence_of \<lparr> rec_device = (device_from sample_inventory 7 ''10.0.0.9'' 0)
      \<lparr> dev_memory_bytes := 4294967296, dev_disks := [sample_seen_disk] \<rparr>,
     rec_agent_version = ''1.0'', rec_first_seen_at = 0, rec_token_digest = ''t'' \<rparr> 0 device_online_window"

definition sample_installer :: installer_capability where
  "sample_installer = \<lparr> cap_deployable = True, cap_distribution = Ubuntu, cap_release = ''24.04'',
     cap_architecture = X86_64, cap_profile = Ubuntu_Autoinstall, cap_profile_version = 1,
     cap_kernel = \<lparr> asset_path = ''k'', asset_size_bytes = 1, asset_sha256 = ''c'' \<rparr>,
     cap_initrd = \<lparr> asset_path = ''i'', asset_size_bytes = 1, asset_sha256 = ''c'' \<rparr>,
     cap_minimum_memory_bytes = 2147483648, cap_minimum_disk_bytes = 26843545600, cap_blocked_reason = None \<rparr>"

theorem resolved_target_is_authorizable_witness:
  "resolve_linux_deployment_target sample_target sample_registered sample_installer = Ok sample_target \<and>
   uniquely_matching_disk sample_target
     [\<lparr> obs_path = ''/dev/sda'', obs_model = ''M'', obs_serial = Some ''S1'', obs_size_bytes = 274877906944 \<rparr>] =
   Ok \<lparr> obs_path = ''/dev/sda'', obs_model = ''M'', obs_serial = Some ''S1'', obs_size_bytes = 274877906944 \<rparr>"
proof -
  let ?ob = "\<lparr> obs_path = ''/dev/sda'', obs_model = ''M'', obs_serial = Some ''S1'', obs_size_bytes = 274877906944 \<rparr>"
  have r: "resolve_linux_deployment_target sample_target sample_registered sample_installer = Ok sample_target"
    by (simp add: resolve_linux_deployment_target_def sample_registered_def presence_of_def device_from_def
        sample_inventory_def sample_installer_def sample_seen_disk_def sample_target_def ensure_def
        device_online_window_def eq_ignore_case_def sample_trims same_fingerprint_def abs_diff_def non_empty_def)
  have "list_all2 sees (dev_disks (rd_device sample_registered)) [?ob]"
    by (simp add: sees_def sample_registered_def presence_of_def sample_seen_disk_def)
  from resolved_target_is_authorizable [OF r this] r show ?thesis by auto
qed

theorem jobs_keep_their_images_witness:
  "\<exists>c. (desk_step ntfs_world [root])\<^sup>*\<^sup>* \<lparr> co_desk = sample_desktop, co_admitted = None \<rparr> c \<and>
     images_kept c \<and> jr_jobs (dk_jobs (co_desk c)) = [new_job sample_ghost_request Waiting 5 0]"
proof -
  let ?c0 = "\<lparr> co_desk = sample_desktop, co_admitted = None \<rparr>"
  let ?c2 = "\<lparr> co_desk = queued_desktop, co_admitted = None \<rparr>"
  have "desk_step ntfs_world [root] ?c0 (?c0 \<lparr> co_admitted := Some sample_ghost_request \<rparr>)"
    by (rule desk_step.admit) (simp, use sample_admitted in simp)
  moreover have "desk_step ntfs_world [root] (?c0 \<lparr> co_admitted := Some sample_ghost_request \<rparr>)
      \<lparr> co_desk = snd (queue_admitted sample_ghost_request (sample_env 5 0)
          (co_desk (?c0 \<lparr> co_admitted := Some sample_ghost_request \<rparr>))), co_admitted = None \<rparr>"
    by (rule desk_step.queue) (simp_all add: fresh_env_def sample_desktop_def empty_repository_def)
  ultimately have run: "(desk_step ntfs_world [root])\<^sup>*\<^sup>* ?c0 ?c2"
    by (simp add: sample_queued)
  moreover have "images_kept ?c0"
    by (simp add: images_kept_def sample_desktop_def empty_repository_def jobs_inv_def)
  moreover have "jr_jobs (dk_jobs (co_desk ?c2)) = [new_job sample_ghost_request Waiting 5 0]"
    by (simp add: queued_jobs)
  ultimately show ?thesis using jobs_keep_their_images by blast
qed

theorem refresh_shows_only_live_devices_witness:
  "\<exists>r reg. dr_devices reg = [r] \<and> rd_online (presence_of r 5 device_online_window) \<and>
     refresh_wait reg 5 5 = 11999999995 \<and>
     (\<exists>after \<in> set (refreshed_devices reg 12000000001). rd_device after = rec_device r \<and> \<not> rd_online after)"
proof -
  let ?r = "\<lparr> rec_device = device_from sample_inventory 7 ''10.0.0.9'' 0, rec_agent_version = ''1.0'',
    rec_first_seen_at = 0, rec_token_digest = ''t'' \<rparr>"
  let ?reg = "\<lparr> dr_manifest = Absent, dr_devices = [?r] \<rparr>"
  have on: "rd_online (presence_of ?r 5 device_online_window)"
    by (simp add: presence_of_def device_from_def device_online_window_def)
  have wait: "refresh_wait ?reg 5 5 = 11999999995"
    by (simp add: refresh_wait_def list_devices_def list_with_online_window_def presence_of_def device_from_def
        device_online_window_def device_verification_window_def longest_def)
  from refresh_shows_only_live_devices [of ?r ?reg 5 5 12000000001 _ ?reg, OF _ _ _ _ refl on] on wait
  show ?thesis by (intro exI [of _ ?r] exI [of _ ?reg]) (auto simp: device_from_def)
qed

end
