(* ===== verification/Text_Search.thy ===== *)
theory Text_Search
  imports Text_Lines
begin

text \<open>
  Searching and trimming as the parsers of tool output and of configuration files
  share it: \<open>Iterator::position\<close>, \<open>trim_ascii\<close> and the lines of a file with their
  line breaks.
\<close>

section \<open>Positions\<close>

fun position :: "('a \<Rightarrow> bool) \<Rightarrow> 'a list \<Rightarrow> nat option" where
  "position P [] = None"
| "position P (x # xs) = (if P x then Some 0 else map_option Suc (position P xs))"

lemma position_append: "\<not> list_ex P xs \<Longrightarrow> position P (xs @ ys) = map_option (\<lambda>i. i + length xs) (position P ys)"
  by (induction xs) (auto simp: option.map_comp comp_def option.map_ident)

lemma position_None: "\<not> list_ex P xs \<Longrightarrow> position P xs = None"
  by (induction xs) auto

lemma position_Some:
  "position P xs = Some i \<Longrightarrow> i < length xs \<and> P (xs ! i) \<and> (\<forall>j < i. \<not> P (xs ! j))"
proof (induction xs arbitrary: i)
  case (Cons x xs)
  then show ?case by (cases i) (auto simp: nth_Cons split: if_splits nat.splits)
qed simp

lemma position_None_iff: "position P xs = None \<longleftrightarrow> (\<forall>x \<in> set xs. \<not> P x)"
  by (induction xs) auto

lemma position_eqI: "i < length xs \<Longrightarrow> P (xs ! i) \<Longrightarrow> (\<And>j. j < i \<Longrightarrow> \<not> P (xs ! j)) \<Longrightarrow> position P xs = Some i"
proof (induction xs arbitrary: i)
  case (Cons x xs)
  show ?case
  proof (cases i)
    case (Suc k)
    have "position P xs = Some k"
      using Cons.prems(1,2) Cons.prems(3) [of "Suc j" for j] Suc by (intro Cons.IH) auto
    with Suc Cons.prems(3) [of 0] show ?thesis by simp
  qed (use Cons.prems in simp)
qed simp

section \<open>Trimming\<close>

definition trim_ascii :: "string \<Rightarrow> string" where
  "trim_ascii s = rev (dropWhile is_ascii_space (rev (dropWhile is_ascii_space s)))"

section \<open>Lines with their breaks\<close>

fun source_lines :: "string \<Rightarrow> string list" where
  "source_lines [] = []"
| "source_lines (c # s) =
     (if c = newline then [newline] # source_lines s
      else case source_lines s of [] \<Rightarrow> [[c]] | l # ls \<Rightarrow> (c # l) # ls)"

text \<open>A line whose break is there, and a list of lines of which only the last may lack it.\<close>

definition broken_line :: "string \<Rightarrow> bool" where
  "broken_line l = (l \<noteq> [] \<and> last l = newline \<and> newline \<notin> set (butlast l))"

fun line_list :: "string list \<Rightarrow> bool" where
  "line_list [] = True"
| "line_list [l] = (l \<noteq> [] \<and> newline \<notin> set (butlast l))"
| "line_list (l # ls) = (broken_line l \<and> line_list ls)"

lemma concat_source_lines [simp]: "concat (source_lines s) = s"
  by (induction s) (auto split: list.splits)

lemma line_list_cases: "line_list (l # ls) \<longleftrightarrow> l \<noteq> [] \<and> newline \<notin> set (butlast l) \<and> (ls = [] \<or> last l = newline) \<and> line_list ls"
  by (cases ls) (auto simp: broken_line_def)

declare line_list.simps(2,3) [simp del]

lemma line_list_source [simp]: "line_list (source_lines s)"
  by (induction s) (auto simp: line_list_cases split: list.splits)

lemma source_lines_line: "newline \<notin> set l \<Longrightarrow> source_lines (l @ newline # s) = (l @ [newline]) # source_lines s"
  by (induction l) (auto split: list.splits)

lemma source_lines_last: "newline \<notin> set l \<Longrightarrow> l \<noteq> [] \<Longrightarrow> source_lines l = [l]"
proof (induction l)
  case (Cons c l)
  then show ?case by (cases l) auto
qed simp

lemma source_lines_concat [simp]: "line_list ls \<Longrightarrow> source_lines (concat ls) = ls"
proof (induction ls)
  case (Cons l ls)
  obtain p c where l: "l = p @ [c]" using Cons.prems by (cases l rule: rev_cases) (auto simp: line_list_cases)
  show ?case
  proof (cases "c = newline")
    case True
    with Cons l show ?thesis using source_lines_line [of p "concat ls"] by (simp add: line_list_cases)
  next
    case False
    with Cons.prems l have "ls = []" "newline \<notin> set l" by (auto simp: line_list_cases)
    then show ?thesis using source_lines_last [of l] l by simp
  qed
qed simp

lemma line_list_append: "line_list (ls @ ms) \<longleftrightarrow> line_list ls \<and> line_list ms \<and> (ls \<noteq> [] \<and> ms \<noteq> [] \<longrightarrow> last (last ls) = newline)"
  by (induction ls) (auto simp: line_list_cases)

lemma line_list_update:
  assumes "line_list ls" "i < length ls" "broken_line l"
  shows "line_list (ls[i := l])"
proof -
  have "ls = take i ls @ ls ! i # drop (Suc i) ls" using assms(2) by (rule id_take_nth_drop)
  with assms(1) have "line_list (take i ls @ ls ! i # drop (Suc i) ls)" by simp
  with assms(3) show ?thesis
    by (auto simp: upd_conv_take_nth_drop [OF assms(2)] line_list_append line_list_cases broken_line_def)
qed

end
