(* ===== verification/Winpe_Patch.thy ===== *)
theory Winpe_Patch
  imports Text_Search Unicode_Text
begin

text \<open>
  How the shell of a WinPE image is made to start the agent
  (\<open>crates/service/src/pxe.rs\<close>): the change to \<open>winpeshl.ini\<close>, the readers of the
  output of the registry and imaging tools, and the search for texts in a boot
  store.  A file is a \<open>string\<close> with one \<open>char\<close> per byte.
\<close>

section \<open>The shell configuration\<close>

definition crlf :: string where "crlf = [return, newline]"

definition agent_shell_path :: string where
  "agent_shell_path = ''X:'' @ [CHR 0x5C] @ ''EasyDeployMesh'' @ [CHR 0x5C] @ ''easydeploymesh-shell.exe''"

definition easydeploymesh_shell_launcher :: string where
  "easydeploymesh_shell_launcher = agent_shell_path @ crlf"

definition app_path_line :: string where
  "app_path_line = ''AppPath = '' @ agent_shell_path @ crlf"

definition script_header :: string where "script_header = ''@echo off'' @ crlf"

record patched_winpeshl =
  pw_ini :: string
  pw_original_shell_script :: "string option"

datatype winpeshl_error = No_Launch_Section | No_App_Path | Empty_App_Path

definition blank_byte :: "char \<Rightarrow> bool" where
  "blank_byte c = (c = CHR '' '' \<or> c = CHR 0x09 \<or> c = return \<or> c = newline)"

definition normalized :: "string \<Rightarrow> string" where
  "normalized l = map to_lower (filter (\<lambda>c. \<not> blank_byte c) l)"

text \<open>The lines of the section that opens at line \<open>k\<close>.\<close>

definition section_lines :: "nat \<Rightarrow> string list \<Rightarrow> string list" where
  "section_lines k ls = takeWhile (\<lambda>l. \<not> starts_with ''['' (normalized l)) (drop (k + 1) ls)"

definition runs_agent :: "string \<Rightarrow> bool" where
  "runs_agent l = (normalized l = normalized agent_shell_path)"

definition launch_apps :: "string \<Rightarrow> bool" where "launch_apps l = (normalized l = ''[launchapps]'')"
definition launch_app :: "string \<Rightarrow> bool" where "launch_app l = (normalized l = ''[launchapp]'')"
definition names_app :: "string \<Rightarrow> bool" where "names_app l = starts_with ''apppath='' (normalized l)"

text \<open>The command of an \<open>AppPath\<close> line, from its equals sign on, without the blanks around it.\<close>

definition app_command :: "string \<Rightarrow> nat \<Rightarrow> string" where
  "app_command l equals =
     rev (dropWhile blank_byte (rev (dropWhile (\<lambda>c. c = CHR '' '' \<or> c = CHR 0x09) (drop (equals + 1) l))))"

definition patch_launch_apps :: "string \<Rightarrow> string list \<Rightarrow> nat \<Rightarrow> patched_winpeshl" where
  "patch_launch_apps input ls k =
     (if list_ex runs_agent (section_lines k ls)
      then \<lparr> pw_ini = input, pw_original_shell_script = None \<rparr>
      else \<lparr> pw_ini = concat (ls[k := ls ! k @ easydeploymesh_shell_launcher]), pw_original_shell_script = None \<rparr>)"

definition patch_launch_app :: "string \<Rightarrow> string list \<Rightarrow> nat \<Rightarrow> (winpeshl_error, patched_winpeshl) outcome" where
  "patch_launch_app input ls k =
     (case position names_app (section_lines k ls) of
        None \<Rightarrow> Err No_App_Path
      | Some offset \<Rightarrow>
          (case position (\<lambda>c. c = CHR ''='') (ls ! (k + 1 + offset)) of
             None \<Rightarrow> Panic
           | Some equals \<Rightarrow>
               (let command = app_command (ls ! (k + 1 + offset)) equals in
                if command = [] then Err Empty_App_Path
                else if runs_agent command then Ok \<lparr> pw_ini = input, pw_original_shell_script = None \<rparr>
                else Ok \<lparr> pw_ini = concat (ls[k + 1 + offset := app_path_line]),
                    pw_original_shell_script = Some (script_header @ command @ crlf) \<rparr>)))"

definition patch_winpeshl_for_agent :: "string \<Rightarrow> (winpeshl_error, patched_winpeshl) outcome" where
  "patch_winpeshl_for_agent input =
     (let ls = source_lines input in
      case position launch_apps ls of
        Some k \<Rightarrow> Ok (patch_launch_apps input ls k)
      | None \<Rightarrow>
          (case position launch_app ls of
             None \<Rightarrow> Err No_Launch_Section
           | Some k \<Rightarrow> patch_launch_app input ls k))"

section \<open>The output of tools\<close>

text \<open>\<open>str::split_whitespace\<close>, over the characters of the text.\<close>

definition keep_word :: "string \<Rightarrow> string list" where
  "keep_word w = (if w = [] then [] else [w])"

fun white_words :: "string list \<Rightarrow> string \<Rightarrow> string list" where
  "white_words [] w = keep_word w"
| "white_words (c # cs) w = (if c \<in> set white_space then keep_word w @ white_words cs [] else white_words cs (w @ c))"

definition split_whitespace :: "string \<Rightarrow> string list" where
  "split_whitespace s = white_words (utf8_chars s) []"

fun join_blank :: "string list \<Rightarrow> string" where
  "join_blank [] = []"
| "join_blank [w] = w"
| "join_blank (w # ws) = w @ CHR '' '' # join_blank ws"

definition reg_sz_line :: "string \<Rightarrow> string \<Rightarrow> string option" where
  "reg_sz_line name l =
     (case split_whitespace l of
        key # kind # words \<Rightarrow>
          if eq_ignore_case key name \<and> eq_ignore_case kind ''REG_SZ'' then non_empty (join_blank words) else None
      | _ \<Rightarrow> None)"

fun find_map :: "('a \<Rightarrow> 'b option) \<Rightarrow> 'a list \<Rightarrow> 'b option" where
  "find_map f [] = None"
| "find_map f (x # xs) = (case f x of None \<Rightarrow> find_map f xs | Some y \<Rightarrow> Some y)"

definition reg_sz_value :: "string \<Rightarrow> string \<Rightarrow> string option" where
  "reg_sz_value output name = find_map (reg_sz_line name) (text_lines (utf8_lossy output))"

definition output_lines :: "string \<Rightarrow> string list" where
  "output_lines output = split_on (\<lambda>c. c = newline) (map to_lower (filter (\<lambda>c. byte c \<noteq> 0) output))"

definition winpe_standard_loader_path :: string where
  "winpe_standard_loader_path = [CHR 0x5C] @ ''windows'' @ [CHR 0x5C] @ ''system32'' @ [CHR 0x5C] @ ''winload.exe''"

definition winpe_system32_boot_loader_path :: string where
  "winpe_system32_boot_loader_path =
     [CHR 0x5C] @ ''windows'' @ [CHR 0x5C] @ ''system32'' @ [CHR 0x5C] @ ''boot'' @ [CHR 0x5C] @ ''winload.exe''"

definition output_has_ascii_line_case_insensitive :: "string \<Rightarrow> string \<Rightarrow> bool" where
  "output_has_ascii_line_case_insensitive output expected =
     list_ex (\<lambda>l. trim_ascii l = map to_lower expected) (output_lines output)"

definition winpe_loader_path_from_listing :: "string \<Rightarrow> string option" where
  "winpe_loader_path_from_listing listing =
     (if output_has_ascii_line_case_insensitive listing winpe_standard_loader_path then Some winpe_standard_loader_path
      else if output_has_ascii_line_case_insensitive listing winpe_system32_boot_loader_path
      then Some winpe_system32_boot_loader_path
      else None)"

section \<open>Texts in a boot store\<close>

text \<open>Printable UTF-16 texts of at least four characters, at even and then at odd offsets.\<close>

definition keep_text :: "string \<Rightarrow> string list" where
  "keep_text current = (if 4 \<le> length current then [current] else [])"

fun utf16_scan :: "string \<Rightarrow> string \<Rightarrow> string list" where
  "utf16_scan (low # high # rest) current =
     (if byte high = 0 \<and> 0x20 \<le> byte low \<and> byte low \<le> 0x7E
      then utf16_scan rest (current @ [low])
      else keep_text current @ utf16_scan rest [])"
| "utf16_scan rest current = keep_text current"

definition utf16le_ascii_strings :: "string \<Rightarrow> string list" where
  "utf16le_ascii_strings contents = utf16_scan contents [] @ utf16_scan (drop 1 contents) []"

section \<open>Normalised lines\<close>

lemma normalized_simps [simp]:
  "normalized [] = []" "normalized (s @ t) = normalized s @ normalized t"
  by (simp_all add: normalized_def)

lemma normalized_blank [simp]: "list_all blank_byte s \<Longrightarrow> normalized s = []"
  by (auto simp: normalized_def list_all_iff)

lemma blank_line_break [simp]: "blank_byte newline" "blank_byte return" "normalized crlf = []" "normalized [newline] = []"
  by (simp_all add: blank_byte_def crlf_def normalized_def)

lemma runs_agent_path [simp]: "runs_agent agent_shell_path"
  by (simp add: runs_agent_def)

lemma launcher_line:
  "broken_line easydeploymesh_shell_launcher" "runs_agent easydeploymesh_shell_launcher"
  "\<not> starts_with ''['' (normalized easydeploymesh_shell_launcher)"
  by code_simp+

lemma app_line:
  "broken_line app_path_line" "names_app app_path_line" "\<not> launch_apps app_path_line" "\<not> launch_app app_path_line"
  "\<not> starts_with ''['' (normalized app_path_line)"
  by code_simp+

lemma app_line_command:
  "position (\<lambda>c. c = CHR ''='') app_path_line = Some 8" "app_command app_path_line 8 = agent_shell_path"
  by code_simp+

lemma to_lower_equals: "to_lower c = CHR ''='' \<Longrightarrow> c = CHR ''=''"
proof (rule ccontr)
  assume e: "to_lower c = CHR ''=''" and "c \<noteq> CHR ''=''"
  then have "is_upper c" by (auto simp: to_lower_def split: if_splits)
  then have "byte (to_lower c) = byte c + 32" "65 \<le> byte c" by (auto simp: to_lower_def is_upper_def)
  with e show False by (simp add: byte_def)
qed

lemma equals_present: "names_app l \<Longrightarrow> position (\<lambda>c. c = CHR ''='') l \<noteq> None"
proof
  assume "names_app l" and none: "position (\<lambda>c. c = CHR ''='') l = None"
  then obtain t where "normalized l = ''apppath='' @ t" by (auto simp: names_app_def starts_with_iff)
  then have "CHR ''='' \<in> set (normalized l)" by simp
  then obtain c where "c \<in> set l" "to_lower c = CHR ''=''" by (auto simp: normalized_def)
  moreover from this(2) have "c = CHR ''=''" by (rule to_lower_equals)
  ultimately show False using none by (auto simp: position_None_iff)
qed

lemma position_takeWhile_update:
  "position Q (takeWhile P xs) = Some i \<Longrightarrow> P y \<Longrightarrow> Q y \<Longrightarrow> position Q (takeWhile P (xs[i := y])) = Some i"
proof (induction xs arbitrary: i)
  case (Cons x xs)
  then show ?case by (cases i) (auto split: if_splits)
qed simp

lemma position_takeWhile:
  "position Q (takeWhile P xs) = Some i \<Longrightarrow> i < length xs \<and> Q (xs ! i) \<and> P (xs ! i)"
proof (induction xs arbitrary: i)
  case (Cons x xs)
  then show ?case by (cases i) (auto split: if_splits)
qed simp

lemma section_position:
  assumes "position names_app (section_lines k ls) = Some i"
  shows "k + 1 + i < length ls" "names_app (ls ! (k + 1 + i))"
proof -
  have a: "i < length ls - (k + 1)" "names_app (drop (k + 1) ls ! i)"
    using position_takeWhile [OF assms [unfolded section_lines_def]] by auto
  from a(1) show "k + 1 + i < length ls" by linarith
  with a(2) show "names_app (ls ! (k + 1 + i))" by (simp add: nth_drop)
qed

section \<open>Patching the shell configuration\<close>

definition keeps_lines :: "string \<Rightarrow> patched_winpeshl \<Rightarrow> bool" where
  "keeps_lines input p =
     list_all (\<lambda>l. l \<in> set (source_lines (pw_ini p)) \<or>
       (\<exists>e. position (\<lambda>c. c = CHR ''='') l = Some e \<and>
          pw_original_shell_script p = Some (script_header @ app_command l e @ crlf))) (source_lines input)"

lemma unchanged_keeps_lines [simp]: "pw_ini p = input \<Longrightarrow> keeps_lines input p"
  by (simp add: keeps_lines_def list_all_iff)

lemma patched_apps:
  assumes k: "position launch_apps (source_lines input) = Some k" and nl: "last (source_lines input ! k) = newline"
    and p: "p = patch_launch_apps input (source_lines input) k"
  shows "patch_winpeshl_for_agent (pw_ini p) = Ok \<lparr> pw_ini = pw_ini p, pw_original_shell_script = None \<rparr>" "keeps_lines input p"
proof -
  define ls where "ls = source_lines input"
  define ms where "ms = take k ls @ ls ! k # easydeploymesh_shell_launcher # drop (k + 1) ls"
  note k = k [folded ls_def] and nl = nl [folded ls_def] and p = p [folded ls_def]
  have kl: "k < length ls" "launch_apps (ls ! k)" "\<forall>j < k. \<not> launch_apps (ls ! j)" using position_Some [OF k] by auto
  have split: "ls = take k ls @ ls ! k # drop (k + 1) ls" using kl(1) by (simp add: Cons_nth_drop_Suc)
  have "line_list (take k ls @ ls ! k # drop (k + 1) ls)" using split by (simp add: ls_def)
  then have lines: "line_list ms"
    using nl launcher_line(1) by (auto simp: ms_def line_list_append line_list_cases broken_line_def)
  have "(patch_winpeshl_for_agent (pw_ini p) = Ok \<lparr> pw_ini = pw_ini p, pw_original_shell_script = None \<rparr>) \<and> keeps_lines input p"
  proof (cases "list_ex runs_agent (section_lines k ls)")
    case True
    with k p show ?thesis by (simp add: patch_winpeshl_for_agent_def patch_launch_apps_def Let_def flip: ls_def)
  next
    case False
    then have "pw_ini p = concat ms"
      using kl(1) by (simp add: p patch_launch_apps_def ms_def upd_conv_take_nth_drop)
    then have src: "source_lines (pw_ini p) = ms" using lines by simp
    have "position launch_apps ms = Some k"
      using kl by (intro position_eqI) (auto simp: ms_def nth_append)
    moreover have "list_ex runs_agent (section_lines k ms)"
      using kl(1) launcher_line by (simp add: section_lines_def ms_def)
    ultimately have "patch_winpeshl_for_agent (pw_ini p) = Ok \<lparr> pw_ini = pw_ini p, pw_original_shell_script = None \<rparr>"
      using src by (simp add: patch_winpeshl_for_agent_def patch_launch_apps_def Let_def)
    moreover have "set ls \<subseteq> set ms" by (subst split) (auto simp: ms_def)
    then have "keeps_lines input p" using src by (auto simp: keeps_lines_def list_all_iff ls_def)
    ultimately show ?thesis by simp
  qed
  then show "patch_winpeshl_for_agent (pw_ini p) = Ok \<lparr> pw_ini = pw_ini p, pw_original_shell_script = None \<rparr>" "keeps_lines input p"
    by auto
qed

lemma patched_app:
  assumes none: "position launch_apps (source_lines input) = None" and k: "position launch_app (source_lines input) = Some k"
    and p: "patch_launch_app input (source_lines input) k = Ok p"
  shows "patch_winpeshl_for_agent (pw_ini p) = Ok \<lparr> pw_ini = pw_ini p, pw_original_shell_script = None \<rparr>" "keeps_lines input p"
proof -
  define ls where "ls = source_lines input"
  note none = none [folded ls_def] and k = k [folded ls_def] and p = p [folded ls_def]
  have kl: "k < length ls" "launch_app (ls ! k)" "\<forall>j < k. \<not> launch_app (ls ! j)" using position_Some [OF k] by auto
  from p obtain off e where o: "position names_app (section_lines k ls) = Some off"
    "position (\<lambda>c. c = CHR ''='') (ls ! (k + 1 + off)) = Some e"
    by (auto simp: patch_launch_app_def split: option.splits)
  let ?i = "k + 1 + off"
  have i: "?i < length ls" using section_position(1) [OF o(1)] .
  let ?ms = "ls[?i := app_path_line]"
  have src: "source_lines (concat ?ms) = ?ms"
    using i app_line(1) by (intro source_lines_concat line_list_update) (simp_all add: ls_def)
  have second: "patch_winpeshl_for_agent (concat ?ms) = Ok \<lparr> pw_ini = concat ?ms, pw_original_shell_script = None \<rparr>"
  proof -
    have "position launch_apps ?ms = None"
      using none app_line(3) by (auto simp: position_None_iff dest!: set_update_subset_insert [THEN subsetD])
    moreover have "position launch_app ?ms = Some k"
      using kl by (intro position_eqI) auto
    moreover have "position names_app (section_lines k ?ms) = Some off"
      using position_takeWhile_update [OF o(1) [unfolded section_lines_def], of app_path_line] app_line
      by (simp add: section_lines_def drop_update_swap)
    moreover have "agent_shell_path \<noteq> []" by (simp add: agent_shell_path_def)
    ultimately show ?thesis
      using i app_line_command src by (simp add: patch_winpeshl_for_agent_def patch_launch_app_def Let_def)
  qed
  consider "p = \<lparr> pw_ini = input, pw_original_shell_script = None \<rparr>"
    | "pw_ini p = concat ?ms" "pw_original_shell_script p = Some (script_header @ app_command (ls ! ?i) e @ crlf)"
    using p o by (auto simp: patch_launch_app_def Let_def split: if_splits)
  then have "patch_winpeshl_for_agent (pw_ini p) = Ok \<lparr> pw_ini = pw_ini p, pw_original_shell_script = None \<rparr> \<and> keeps_lines input p"
  proof cases
    case 1
    with p none k show ?thesis by (simp add: patch_winpeshl_for_agent_def Let_def flip: ls_def)
  next
    case 2
    have "x \<in> set ?ms \<or> x = ls ! ?i" if x: "x \<in> set ls" for x
    proof -
      from x obtain j where j: "j < length ls" "x = ls ! j" by (auto simp: in_set_conv_nth)
      then show ?thesis by (cases "j = ?i") (auto simp: in_set_conv_nth nth_list_update intro!: exI [of _ j])
    qed
    with 2 o(2) src have "keeps_lines input p" by (auto simp: keeps_lines_def list_all_iff simp flip: ls_def)
    with 2(1) second show ?thesis by simp
  qed
  then show "patch_winpeshl_for_agent (pw_ini p) = Ok \<lparr> pw_ini = pw_ini p, pw_original_shell_script = None \<rparr>" "keeps_lines input p"
    by auto
qed

lemma shell_patch_never_panics: "patch_winpeshl_for_agent input \<noteq> Panic"
proof
  assume "patch_winpeshl_for_agent input = Panic"
  then obtain k off where "position names_app (section_lines k (source_lines input)) = Some off"
    "position (\<lambda>c. c = CHR ''='') (source_lines input ! (k + 1 + off)) = None"
    by (auto simp: patch_winpeshl_for_agent_def patch_launch_app_def Let_def split: option.splits if_splits)
  then show False using section_position(2) equals_present by blast
qed

lemma shell_patch_twice_keeps:
  assumes "patch_winpeshl_for_agent input = Ok p"
    and "\<forall>l \<in> set (source_lines input). launch_apps l \<longrightarrow> last l = newline"
  shows "patch_winpeshl_for_agent (pw_ini p) = Ok \<lparr> pw_ini = pw_ini p, pw_original_shell_script = None \<rparr> \<and> keeps_lines input p"
proof (cases "position launch_apps (source_lines input)")
  case (Some k)
  with position_Some [OF Some] assms(2) have "last (source_lines input ! k) = newline" by auto
  moreover have "p = patch_launch_apps input (source_lines input) k"
    using assms(1) Some by (simp add: patch_winpeshl_for_agent_def Let_def)
  ultimately show ?thesis using patched_apps [OF Some] by blast
next
  case None
  with assms(1) obtain k where "position launch_app (source_lines input) = Some k"
    "patch_launch_app input (source_lines input) k = Ok p"
    by (auto simp: patch_winpeshl_for_agent_def Let_def split: option.splits)
  with None show ?thesis using patched_app by blast
qed

lemmas shell_patch_twice = shell_patch_twice_keeps [THEN conjunct1]

text \<open>
  A \<open>[LaunchApps]\<close> header on the last line of the file, without its line break,
  gets the agent's command appended to itself, so its own line is gone.
\<close>

lemma unfinished_header_loses_line:
  assumes k: "position launch_apps (source_lines input) = Some k" and nl: "last (source_lines input ! k) \<noteq> newline"
    and p: "p = patch_launch_apps input (source_lines input) k"
  shows "\<not> keeps_lines input p"
proof -
  define ls where "ls = source_lines input"
  note k = k [folded ls_def] and nl = nl [folded ls_def] and p = p [folded ls_def]
  have kl: "k < length ls" using position_Some [OF k] by auto
  then have split: "ls = take k ls @ ls ! k # drop (k + 1) ls" by (simp add: Cons_nth_drop_Suc)
  have "line_list (take k ls @ ls ! k # drop (k + 1) ls)" using split by (simp add: ls_def)
  then have cut: "drop (k + 1) ls = []" and init: "line_list (take k ls)" "take k ls \<noteq> [] \<longrightarrow> last (last (take k ls)) = newline"
    and header: "ls ! k \<noteq> []" "newline \<notin> set (butlast (ls ! k))"
    using nl by (auto simp: line_list_append line_list_cases)
  have visible: "newline \<notin> set (ls ! k)"
  proof
    assume "newline \<in> set (ls ! k)"
    then have "newline \<in> set (butlast (ls ! k) @ [last (ls ! k)])" by (subst append_butlast_last_id) (simp_all add: header)
    with header(2) nl show False by auto
  qed
  let ?l = "ls ! k @ easydeploymesh_shell_launcher"
  have ini: "pw_ini p = concat (take k ls @ [?l])" "pw_original_shell_script p = None"
    using kl cut by (auto simp: p patch_launch_apps_def section_lines_def upd_conv_take_nth_drop)
  have "broken_line ?l"
    using launcher_line(1) visible by (auto simp: broken_line_def butlast_append)
  then have "line_list (take k ls @ [?l])"
    using init by (auto simp: line_list_append line_list_cases broken_line_def)
  then have src: "source_lines (pw_ini p) = take k ls @ [?l]" unfolding ini(1) by (rule source_lines_concat)
  have "ls ! k \<noteq> x" if "x \<in> set (take k ls)" for x
    using that position_Some [OF k] by (auto simp: in_set_conv_nth)
  moreover have "ls ! k \<noteq> ?l" by (simp add: easydeploymesh_shell_launcher_def crlf_def)
  ultimately have "ls ! k \<notin> set (source_lines (pw_ini p))" using src by auto
  moreover have "ls ! k \<in> set (source_lines input)" using kl by (simp add: ls_def)
  ultimately show ?thesis using ini(2) by (auto simp: keeps_lines_def list_all_iff)
qed

definition finished_header :: "string \<Rightarrow> bool" where
  "finished_header input =
     (case position launch_apps (source_lines input) of
        None \<Rightarrow> True
      | Some k \<Rightarrow> last (source_lines input ! k) = newline)"

text \<open>
  C22. Patching the shell configuration of a WinPE image whose \<open>[LaunchApps]\<close> header,
  if it has one, ends with a line break: patching it twice is patching it once, so
  the patched file is accepted as it is, no vendor command is saved again, and a
  refresh never replaces the saved command by the agent's own; and the patch loses
  no line: each is in the result, except the \<open>AppPath\<close> line whose command is the
  saved script.  On the excluded files, whose header is an unfinished last line,
  the patch does lose a line, the header itself: the condition is exact.
\<close>

theorem shell_patch_is_idempotent:
  assumes "patch_winpeshl_for_agent input = Ok p"
  shows "if finished_header input
    then patch_winpeshl_for_agent (pw_ini p) = Ok \<lparr> pw_ini = pw_ini p, pw_original_shell_script = None \<rparr> \<and> keeps_lines input p
    else \<not> keeps_lines input p"
proof (cases "position launch_apps (source_lines input)")
  case (Some k)
  then have p: "p = patch_launch_apps input (source_lines input) k"
    using assms by (simp add: patch_winpeshl_for_agent_def Let_def)
  show ?thesis
    using patched_apps [OF Some _ p] unfinished_header_loses_line [OF Some _ p] by (simp add: finished_header_def Some)
next
  case None
  with assms obtain k where "position launch_app (source_lines input) = Some k"
    "patch_launch_app input (source_lines input) k = Ok p"
    by (auto simp: patch_winpeshl_for_agent_def Let_def split: option.splits)
  then show ?thesis using patched_app [OF None] by (simp add: finished_header_def None)
qed

definition sample_winpeshl :: string where
  "sample_winpeshl = ''[LaunchApp]'' @ crlf @ ''AppPath = X:/pecmd.exe'' @ crlf"

definition sample_patched :: patched_winpeshl where
  "sample_patched = \<lparr> pw_ini = ''[LaunchApp]'' @ crlf @ app_path_line,
     pw_original_shell_script = Some (script_header @ ''X:/pecmd.exe'' @ crlf) \<rparr>"

lemma sample_winpeshl_patched: "patch_winpeshl_for_agent sample_winpeshl = Ok sample_patched"
  by code_simp

lemma sample_winpeshl_complete: "\<forall>l \<in> set (source_lines sample_winpeshl). launch_apps l \<longrightarrow> last l = newline"
proof -
  have "list_all (\<lambda>l. launch_apps l \<longrightarrow> last l = newline) (source_lines sample_winpeshl)" by code_simp
  then show ?thesis by (simp add: list_all_iff)
qed

lemma sample_winpeshl_patches:
  "\<exists>p. patch_winpeshl_for_agent sample_winpeshl = Ok p \<and>
     patch_winpeshl_for_agent (pw_ini p) = Ok \<lparr> pw_ini = pw_ini p, pw_original_shell_script = None \<rparr>"
  using sample_winpeshl_patched shell_patch_twice [OF sample_winpeshl_patched sample_winpeshl_complete] by blast

lemma finished_samples:
  "finished_header sample_winpeshl" "finished_header (''[LaunchApps]'' @ crlf)" "\<not> finished_header ''[LaunchApps]''"
  by code_simp+

lemma launch_apps_patched:
  "patch_winpeshl_for_agent (''[LaunchApps]'' @ crlf) =
     Ok \<lparr> pw_ini = ''[LaunchApps]'' @ crlf @ easydeploymesh_shell_launcher, pw_original_shell_script = None \<rparr>"
  "patch_winpeshl_for_agent ''[LaunchApps]'' =
     Ok \<lparr> pw_ini = ''[LaunchApps]'' @ easydeploymesh_shell_launcher, pw_original_shell_script = None \<rparr>"
  by code_simp+

theorem shell_patch_is_idempotent_witness:
  "patch_winpeshl_for_agent (pw_ini sample_patched) = Ok \<lparr> pw_ini = pw_ini sample_patched, pw_original_shell_script = None \<rparr> \<and>
   keeps_lines sample_winpeshl sample_patched \<and>
   patch_winpeshl_for_agent (''[LaunchApps]'' @ crlf @ easydeploymesh_shell_launcher) =
     Ok \<lparr> pw_ini = ''[LaunchApps]'' @ crlf @ easydeploymesh_shell_launcher, pw_original_shell_script = None \<rparr> \<and>
   \<not> keeps_lines ''[LaunchApps]''
     \<lparr> pw_ini = ''[LaunchApps]'' @ easydeploymesh_shell_launcher, pw_original_shell_script = None \<rparr>"
  using shell_patch_is_idempotent [OF sample_winpeshl_patched] shell_patch_is_idempotent [OF launch_apps_patched(1)]
    shell_patch_is_idempotent [OF launch_apps_patched(2)] finished_samples
  by simp

text \<open>
  A header on the last line of the file, without its line break: the agent's
  command is appended to the header itself, and the section is gone.
\<close>

lemma unfinished_header_is_lost:
  "patch_winpeshl_for_agent ''[LaunchApps]'' =
     Ok \<lparr> pw_ini = ''[LaunchApps]'' @ easydeploymesh_shell_launcher, pw_original_shell_script = None \<rparr>"
  "patch_winpeshl_for_agent (''[LaunchApps]'' @ easydeploymesh_shell_launcher) = Err No_Launch_Section"
  by code_simp+

text \<open>The command of the registry is read word by word: runs of blanks in it become one.\<close>

lemma white_words_visible:
  "list_all visible w \<Longrightarrow> white_words (map (\<lambda>c. [c]) w @ cs) current = white_words cs (current @ w)"
proof (induction w arbitrary: current)
  case (Cons c w)
  then have "[c] \<notin> set white_space" using white_space_invisible(1) by (auto simp: list_all_iff)
  with Cons show ?case by simp
qed simp

lemma registry_blanks_collapse: "reg_sz_line ''CmdLine'' ''CmdLine REG_SZ a  b'' = Some ''a b''"
proof -
  have "list_all is_ascii ''CmdLine REG_SZ a  b''" by code_simp
  then have "utf8_chars ''CmdLine REG_SZ a  b'' = map (\<lambda>c. [c]) ''CmdLine REG_SZ a  b''" by (rule utf8_chars_ascii)
  also have "\<dots> = map (\<lambda>c. [c]) ''CmdLine'' @ ['' ''] @ map (\<lambda>c. [c]) ''REG_SZ'' @ ['' ''] @ map (\<lambda>c. [c]) ''a'' @
      ['' '', '' ''] @ map (\<lambda>c. [c]) ''b'' @ []"
    by (simp only: list.map append.simps)
  finally have chars: "utf8_chars ''CmdLine REG_SZ a  b'' = \<dots>" .
  have "'' '' \<in> set white_space" by code_simp
  moreover have "list_all visible ''CmdLine''" "list_all visible ''REG_SZ''" "list_all visible ''a''" "list_all visible ''b''"
    by code_simp+
  ultimately have "split_whitespace ''CmdLine REG_SZ a  b'' = [''CmdLine'', ''REG_SZ'', ''a'', ''b'']"
    unfolding split_whitespace_def chars
    by (simp only: white_words_visible append.simps white_words.simps keep_word_def if_True if_False append_Nil list.distinct simp_thms)
  then show ?thesis by (simp add: reg_sz_line_def non_empty_def)
qed

lemma utf16_scan_texts:
  assumes "list_all (\<lambda>c. 0x20 \<le> byte c \<and> byte c \<le> 0x7E) current" "t \<in> set (utf16_scan s current)"
  shows "4 \<le> length t \<and> list_all (\<lambda>c. 0x20 \<le> byte c \<and> byte c \<le> 0x7E) t"
  using assms by (induction s current rule: utf16_scan.induct) (auto simp: keep_text_def split: if_splits)

lemma utf16_texts_printable:
  "t \<in> set (utf16le_ascii_strings s) \<Longrightarrow> 4 \<le> length t \<and> list_all (\<lambda>c. 0x20 \<le> byte c \<and> byte c \<le> 0x7E) t"
  using utf16_scan_texts [of "[]"] by (auto simp: utf16le_ascii_strings_def)

end
