(* ===== verification/Udf_Media.thy ===== *)
theory Udf_Media
  imports File_System Linux_Iso "HOL-Library.Multiset"
begin

text \<open>
  The extraction of boot media (\<open>crates/service/src/pxe.rs\<close>): recognising a UDF
  file system, checking the tree its parser returned before anything is written,
  the extraction of that tree, and the one of an ISO 9660 volume where there is
  no UDF.  The two parsers and the copy of a file's data are crates: the tree,
  the directories and what the host refuses are arguments.
\<close>

section \<open>The tree\<close>

datatype udf_node = Udf_Node
  (un_name: string) (un_is_directory: bool) (un_children: "udf_node list")
  (un_location: "u64 option") (un_length: "u64 option") (un_size: u64)

datatype udf_error =
    Media_Too_Large
  | Too_Many_Entries
  | Too_Deep
  | Unsafe_Name nat
  | Conflicting_Name nat
  | No_Data_Extent
  | Invalid_Data_Extent
  | Extracted_Too_Large

section \<open>Recognition\<close>

fun udf_sequence :: "bytes \<Rightarrow> nat list \<Rightarrow> bool" where
  "udf_sequence media [] = False"
| "udf_sequence media (sector # sectors) =
     (case get_range (sector * 2048 + 1) (sector * 2048 + 6) media of
        None \<Rightarrow> False
      | Some identifier \<Rightarrow>
          if identifier \<in> {text_bytes ''NSR02'', text_bytes ''NSR03''} then True
          else if identifier = text_bytes ''TEA01'' then False
          else udf_sequence media sectors)"

definition has_udf_volume_recognition_sequence :: "bytes \<Rightarrow> bool" where
  "has_udf_volume_recognition_sequence media = udf_sequence media [16..<32]"

section \<open>Checking the tree\<close>

definition max_udf_entries :: nat where "max_udf_entries = 100000"
definition max_udf_depth :: nat where "max_udf_depth = 32"

definition safe_entry_name :: "string \<Rightarrow> bool" where
  "safe_entry_name n =
     (n \<noteq> [] \<and> n \<noteq> ''.'' \<and> n \<noteq> ''..'' \<and> CHR ''/'' \<notin> set n \<and> CHR 0x5C \<notin> set n \<and> CHR 0x00 \<notin> set n)"

definition check_children :: "udf_node list \<Rightarrow> (udf_error, unit) outcome" where
  "check_children cs =
     check_each (\<lambda>c. safe_entry_name (un_name c)) (\<lambda>c. map to_lower (un_name c)) Unsafe_Name Conflicting_Name 0 [] cs"

definition file_extent :: "u64 \<Rightarrow> udf_node \<Rightarrow> (udf_error, u64) outcome" where
  "file_extent media_len n =
     (case (un_location n, un_length n) of
        (Some offset, Some len) \<Rightarrow>
          if len \<noteq> un_size n \<or> (case checked_add offset len of None \<Rightarrow> True | Some e \<Rightarrow> media_len < e)
          then Err Invalid_Data_Extent else Ok len
      | _ \<Rightarrow> Err No_Data_Extent)"

lemma child_smaller: "sum_list (map (\<lambda>c. Suc (size c)) cs) = size_list size cs"
  by (induction cs) simp_all

text \<open>
  The loop over the entries still to visit, the next one first: the code pops
  the last of a vector, to which it appends the children in order.
\<close>

function visit_udf ::
  "u64 \<Rightarrow> u64 \<Rightarrow> (udf_node \<times> nat) list \<Rightarrow> nat \<Rightarrow> u64 \<Rightarrow> (udf_error, unit) outcome" where
  "visit_udf media_len max_bytes [] entries extracted = Ok ()"
| "visit_udf media_len max_bytes ((n, depth) # pending) entries extracted =
     (if max_udf_entries < entries + 1 then Err Too_Many_Entries
      else if max_udf_depth < depth then Err Too_Deep
      else if un_is_directory n then
        (case check_children (un_children n) of
           Err e \<Rightarrow> Err e
         | Panic \<Rightarrow> Panic
         | Ok _ \<Rightarrow> visit_udf media_len max_bytes
             (rev (map (\<lambda>c. (c, depth + 1)) (un_children n)) @ pending) (entries + 1) extracted)
      else
        (case file_extent media_len n of
           Err e \<Rightarrow> Err e
         | Panic \<Rightarrow> Panic
         | Ok len \<Rightarrow>
             (case checked_add extracted len of
                None \<Rightarrow> Err Extracted_Too_Large
              | Some next \<Rightarrow>
                  if max_bytes < next then Err Extracted_Too_Large
                  else visit_udf media_len max_bytes pending (entries + 1) next)))"
  by pat_completeness auto
termination
proof (relation "measure (\<lambda>(media_len, max_bytes, pending, entries, extracted). sum_list (map (\<lambda>(n, d). Suc (size n)) pending))")
  fix media_len max_bytes extracted :: u64 and n :: udf_node and depth entries :: nat and pending u
  have "sum_list (map (\<lambda>(n, d). Suc (size n)) (rev (map (\<lambda>c. (c, depth + 1)) (un_children n)))) = size_list size (un_children n)"
    by (simp add: rev_map [symmetric] comp_def sum_list_rev child_smaller)
  moreover have "size_list size (un_children n) < Suc (size n)" by (cases n) simp
  ultimately show "((media_len, max_bytes, rev (map (\<lambda>c. (c, depth + 1)) (un_children n)) @ pending, entries + 1, extracted),
      media_len, max_bytes, (n, depth) # pending, entries, extracted)
    \<in> measure (\<lambda>(media_len, max_bytes, pending, entries, extracted). sum_list (map (\<lambda>(n, d). Suc (size n)) pending))"
    by simp
qed auto

definition validate_udf_tree :: "udf_node \<Rightarrow> u64 \<Rightarrow> (udf_error, unit) outcome" where
  "validate_udf_tree t media_len =
     and_then (ok_or (checked_mul media_len 2) Media_Too_Large) (\<lambda>max_bytes.
     visit_udf media_len max_bytes [(t, 0)] 0 0)"

section \<open>Extraction\<close>

datatype media_write = Make_Dir path | Copy_Udf path udf_node | Copy_Iso path iso_entry

datatype progress = Done | Refused | Deeper

text \<open>\<open>Path::join\<close> with text: an absolute name replaces the path.\<close>

definition join_text :: "path \<Rightarrow> string \<Rightarrow> path" where
  "join_text p name =
     (if starts_with root name then path_of name else p @ filter (\<lambda>c. c \<noteq> ''.'') (path_of name))"

text \<open>Works through a list until one fails; what was attempted stays.\<close>

fun run_all :: "('a \<Rightarrow> media_write list \<times> progress) \<Rightarrow> 'a list \<Rightarrow> media_write list \<times> progress" where
  "run_all f [] = ([], Done)"
| "run_all f (x # xs) =
     (case f x of (ws, r) \<Rightarrow>
        if r = Done then (case run_all f xs of (vs, q) \<Rightarrow> (ws @ vs, q)) else (ws, r))"

lemma run_all_cong [fundef_cong]:
  "xs = ys \<Longrightarrow> (\<And>x. x \<in> set ys \<Longrightarrow> f x = g x) \<Longrightarrow> run_all f xs = run_all g ys"
proof -
  assume "xs = ys" "\<And>x. x \<in> set ys \<Longrightarrow> f x = g x"
  moreover have "(\<And>x. x \<in> set ys \<Longrightarrow> f x = g x) \<Longrightarrow> run_all f ys = run_all g ys"
    by (induction ys) (auto split: prod.splits if_splits)
  ultimately show ?thesis by simp
qed

definition attempt :: "(path \<Rightarrow> bool) \<Rightarrow> path \<Rightarrow> media_write \<Rightarrow> media_write list \<times> progress" where
  "attempt refuses p w = ([w], if refuses p then Refused else Done)"

fun extract_udf_tree :: "(path \<Rightarrow> bool) \<Rightarrow> path \<Rightarrow> udf_node \<Rightarrow> media_write list \<times> progress" where
  "extract_udf_tree refuses target (Udf_Node name is_dir children location len sz) =
     (if is_dir then
        (if refuses target then ([Make_Dir target], Refused)
         else (case run_all (\<lambda>c. extract_udf_tree refuses (join_text target (un_name c)) c) children of
             (ws, r) \<Rightarrow> (Make_Dir target # ws, r)))
      else attempt refuses target (Copy_Udf target (Udf_Node name is_dir children location len sz)))"

text \<open>The directories of an ISO 9660 volume may refer to themselves: \<open>k\<close> bounds the depth.\<close>

fun copy_iso_directory ::
  "nat \<Rightarrow> iso9660 \<Rightarrow> bytes \<Rightarrow> (path \<Rightarrow> bool) \<Rightarrow> u32 \<Rightarrow> u32 \<Rightarrow> path \<Rightarrow> media_write list \<times> progress" where
  "copy_iso_directory 0 fmt media refuses lba len target = ([], Deeper)"
| "copy_iso_directory (Suc k) fmt media refuses lba len target =
     (let entries = iso_entries fmt media lba len in
      if refuses target \<or> None \<in> set entries then ([Make_Dir target], Refused)
      else (case run_all (\<lambda>e.
              if ise_name e \<in> {''.'', ''..''} then ([], Done)
              else if ise_directory e
              then copy_iso_directory k fmt media refuses (ise_extent_lba e) (ise_data_length e) (join_text target (ise_name e))
              else attempt refuses (join_text target (ise_name e)) (Copy_Iso (join_text target (ise_name e)) e))
            (map the entries) of (ws, r) \<Rightarrow> (Make_Dir target # ws, r)))"

datatype extraction =
    Extracted "media_write list"
  | Udf_Unreadable
  | Udf_Rejected udf_error
  | Write_Failed "media_write list"
  | Iso_Unreadable
  | Endless

text \<open>What \<open>extract_iso\<close> does with a medium: UDF first, and ISO 9660 only without it.\<close>

definition extract_iso ::
  "(bytes \<Rightarrow> udf_node option) \<Rightarrow> iso9660 \<Rightarrow> nat \<Rightarrow> (path \<Rightarrow> bool) \<Rightarrow> bytes \<Rightarrow> path \<Rightarrow> extraction" where
  "extract_iso parse_udf fmt k refuses media target =
     (if has_udf_volume_recognition_sequence media then
        (case parse_udf media of
           None \<Rightarrow> Udf_Unreadable
         | Some t \<Rightarrow>
             (case validate_udf_tree t (word_of_nat (length media)) of
                Ok _ \<Rightarrow>
                  (case extract_udf_tree refuses target t of
                     (ws, r) \<Rightarrow> if r = Done then Extracted ws else Write_Failed ws)
              | Err e \<Rightarrow> Udf_Rejected e
              | Panic \<Rightarrow> Udf_Unreadable))
      else
        (case iso_mount fmt media of
           None \<Rightarrow> Iso_Unreadable
         | Some v \<Rightarrow>
             (case copy_iso_directory k fmt media refuses (isv_root_extent_lba v) (isv_root_extent_len v) target of
                (ws, Done) \<Rightarrow> Extracted ws
              | (ws, Refused) \<Rightarrow> Write_Failed ws
              | (ws, Deeper) \<Rightarrow> Endless)))"

fun attempted :: "extraction \<Rightarrow> media_write list" where
  "attempted (Extracted ws) = ws"
| "attempted (Write_Failed ws) = ws"
| "attempted other = []"

text \<open>All the writes of an extraction nothing refuses, a directory before its entries.\<close>

fun udf_writes :: "path \<Rightarrow> udf_node \<Rightarrow> media_write list" where
  "udf_writes target (Udf_Node name is_dir children location len sz) =
     (if is_dir
      then Make_Dir target # concat (map (\<lambda>c. udf_writes (join_text target (un_name c)) c) children)
      else [Copy_Udf target (Udf_Node name is_dir children location len sz)])"

fun write_path :: "media_write \<Rightarrow> path" where
  "write_path (Make_Dir p) = p"
| "write_path (Copy_Udf p n) = p"
| "write_path (Copy_Iso p e) = p"

fun written_bytes :: "media_write \<Rightarrow> nat" where
  "written_bytes (Copy_Udf p n) = (case un_length n of None \<Rightarrow> 0 | Some len \<Rightarrow> unat len)"
| "written_bytes other = 0"

lemma run_all_attempts:
  assumes "\<And>x. x \<in> set xs \<Longrightarrow> \<exists>rest. g x = fst (f x) @ rest \<and> (snd (f x) = Done \<longrightarrow> rest = [])"
  shows "\<exists>rest. concat (map g xs) = fst (run_all f xs) @ rest \<and> (snd (run_all f xs) = Done \<longrightarrow> rest = [])"
  using assms
proof (induction xs)
  case (Cons x xs)
  obtain a where a: "g x = fst (f x) @ a" "snd (f x) = Done \<longrightarrow> a = []" using Cons.prems by auto
  obtain b where b: "concat (map g xs) = fst (run_all f xs) @ b" "snd (run_all f xs) = Done \<longrightarrow> b = []"
    using Cons by auto
  from a b show ?case by (auto split: prod.splits)
qed simp

lemma extraction_attempts:
  "\<exists>rest. udf_writes target n = fst (extract_udf_tree refuses target n) @ rest \<and>
     (snd (extract_udf_tree refuses target n) = Done \<longrightarrow> rest = [])"
proof (induction n arbitrary: target)
  case (Udf_Node name is_dir children location len sz)
  show ?case
  proof (cases is_dir)
    case True
    have "\<exists>rest. concat (map (\<lambda>c. udf_writes (join_text target (un_name c)) c) children) =
        fst (run_all (\<lambda>c. extract_udf_tree refuses (join_text target (un_name c)) c) children) @ rest \<and>
      (snd (run_all (\<lambda>c. extract_udf_tree refuses (join_text target (un_name c)) c) children) = Done \<longrightarrow> rest = [])"
      by (rule run_all_attempts) (rule Udf_Node.IH)
    with True show ?thesis by (auto split: prod.splits)
  qed (simp add: attempt_def)
qed

text \<open>With enough depth the copy of an ISO 9660 volume comes to an end.\<close>

lemma run_all_ends: "(\<And>x. x \<in> set xs \<Longrightarrow> snd (f x) \<noteq> Deeper) \<Longrightarrow> snd (run_all f xs) \<noteq> Deeper"
  by (induction xs) (fastforce split: prod.splits if_splits)+

lemma iso_copy_ends:
  assumes "\<And>lba len e. Some e \<in> set (iso_entries fmt media lba len) \<Longrightarrow> ise_directory e \<Longrightarrow>
      ise_name e \<notin> {''.'', ''..''} \<Longrightarrow> rank (ise_extent_lba e) (ise_data_length e) < rank lba len"
  shows "rank lba len < k \<Longrightarrow> snd (copy_iso_directory k fmt media refuses lba len target) \<noteq> Deeper"
proof (induction k arbitrary: lba len target)
  case (Suc k)
  have "snd (run_all (\<lambda>e.
              if ise_name e \<in> {''.'', ''..''} then ([], Done)
              else if ise_directory e
              then copy_iso_directory k fmt media refuses (ise_extent_lba e) (ise_data_length e) (join_text target (ise_name e))
              else attempt refuses (join_text target (ise_name e)) (Copy_Iso (join_text target (ise_name e)) e))
            (map the (iso_entries fmt media lba len))) \<noteq> Deeper" if "None \<notin> set (iso_entries fmt media lba len)"
  proof (rule run_all_ends)
    fix e assume "e \<in> set (map the (iso_entries fmt media lba len))"
    with that have "Some e \<in> set (iso_entries fmt media lba len)" by (metis (no_types) image_iff list.set_map option.collapse)
    with assms [of e lba len] Suc
    show "snd (if ise_name e \<in> {''.'', ''..''} then ([], Done)
              else if ise_directory e
              then copy_iso_directory k fmt media refuses (ise_extent_lba e) (ise_data_length e) (join_text target (ise_name e))
              else attempt refuses (join_text target (ise_name e)) (Copy_Iso (join_text target (ise_name e)) e)) \<noteq> Deeper"
      by (auto simp: attempt_def)
  qed
  then show ?case by (auto simp: Let_def split: prod.splits)
qed simp

section \<open>What a checked tree promises\<close>

text \<open>All entries below a node, with their depths; the checks of one of them.\<close>

fun entries_below :: "nat \<Rightarrow> udf_node \<Rightarrow> (udf_node \<times> nat) list" where
  "entries_below d (Udf_Node name is_dir children location len sz) =
     (Udf_Node name is_dir children location len sz, d) #
     (if is_dir then concat (map (entries_below (Suc d)) children) else [])"

definition entry_ok :: "u64 \<Rightarrow> udf_node \<times> nat \<Rightarrow> bool" where
  "entry_ok media_len e =
     (snd e \<le> max_udf_depth \<and>
      (if un_is_directory (fst e)
       then list_all (\<lambda>c. safe_entry_name (un_name c)) (un_children (fst e)) \<and>
         distinct (map (\<lambda>c. map to_lower (un_name c)) (un_children (fst e)))
       else is_ok (file_extent media_len (fst e))))"

definition entry_bytes :: "udf_node \<times> nat \<Rightarrow> nat" where
  "entry_bytes e = (if un_is_directory (fst e) then 0 else case un_length (fst e) of None \<Rightarrow> 0 | Some len \<Rightarrow> unat len)"

definition all_below :: "(udf_node \<times> nat) list \<Rightarrow> (udf_node \<times> nat) list" where
  "all_below pending = concat (map (\<lambda>(n, d). entries_below d n) pending)"

lemma all_below_simps [simp]:
  "all_below [] = []" "all_below ((n, d) # ps) = entries_below d n @ all_below ps"
  "all_below (ps @ qs) = all_below ps @ all_below qs"
  by (simp_all add: all_below_def)

lemma entries_below_cases:
  "entries_below d n = (n, d) # (if un_is_directory n then all_below (map (\<lambda>c. (c, Suc d)) (un_children n)) else [])"
  by (cases n) (simp add: all_below_def comp_def)

lemma mset_all_below_rev: "mset (all_below (rev ps)) = mset (all_below ps)"
  by (induction ps) (auto simp: all_below_def add.commute)

lemma file_extent_Ok: "file_extent m n = Ok len \<Longrightarrow> un_length n = Some len"
  by (auto simp: file_extent_def split: option.splits if_splits)

lemma checked_add_Some: "checked_add a b = Some c \<longleftrightarrow> unat a + unat b < 2 ^ LENGTH('n) \<and> c = a + b"
  for a b :: "'n::len word"
  by (auto simp: checked_add_def)

lemma visit_accepts:
  "visit_udf m mx ps k x = Ok u \<Longrightarrow>
     (\<forall>e \<in> set (all_below ps). entry_ok m e) \<and> k + length (all_below ps) \<le> max max_udf_entries k \<and>
     unat x + sum_list (map entry_bytes (all_below ps)) \<le> max (unat mx) (unat x)"
proof (induction m mx ps k x arbitrary: u rule: visit_udf.induct)
  case (2 m mx n d ps k x)
  show ?case
  proof (cases "un_is_directory n")
    case True
    let ?cs = "map (\<lambda>c. (c, d + 1)) (un_children n)"
    from "2.prems" True have v: "visit_udf m mx (rev ?cs @ ps) (k + 1) x = Ok u"
      and b: "k + 1 \<le> max_udf_entries" "d \<le> max_udf_depth" "check_children (un_children n) = Ok ()"
      by (auto split: if_splits outcome.splits)
    have m1: "set (all_below (rev ?cs)) = set (all_below ?cs)" "length (all_below (rev ?cs)) = length (all_below ?cs)"
      "sum_list (map entry_bytes (all_below (rev ?cs))) = sum_list (map entry_bytes (all_below ?cs))"
      using mset_all_below_rev [of ?cs]
      by (metis set_mset_mset, metis size_mset, metis mset_map sum_mset_sum_list)
    have "entry_ok m (n, d)" using b True by (simp add: entry_ok_def check_children_def)
    moreover have "entry_bytes (n, d) = 0" using True by (simp add: entry_bytes_def)
    moreover have "entries_below d n = (n, d) # all_below ?cs" using True by (simp add: entries_below_cases [of d n])
    ultimately show ?thesis
      using "2.IH"(1) [of "()" u] b v True m1 by (auto simp: max_def split: if_splits)
  next
    case False
    from "2.prems" False obtain len where
      b: "k + 1 \<le> max_udf_entries" "d \<le> max_udf_depth" "file_extent m n = Ok len"
        "unat x + unat len < 2 ^ 64" "x + len \<le> mx" "visit_udf m mx ps (k + 1) (x + len) = Ok u"
      by (auto simp: checked_add_Some not_less split: if_splits outcome.splits option.splits)
    have s: "unat (x + len) = unat x + unat len" using b(4) by (simp add: unat_word_ariths)
    have "entry_ok m (n, d)" using b False by (simp add: entry_ok_def)
    moreover have "unat x + unat len \<le> unat mx" using b(5) s by (simp add: word_le_nat_alt)
    moreover from this have mx: "max (unat mx) (unat x) = unat mx" "max (unat mx) (unat x + unat len) = unat mx" "\<not> mx < x + len"
      using b(5) by (auto simp: max_def)
    moreover have "checked_add x len = Some (x + len)" using b(4) by (simp add: checked_add_Some)
    moreover have "entries_below d n = [(n, d)]" using False by (simp add: entries_below_cases [of d n])
    moreover have "entry_bytes (n, d) = unat len" using False file_extent_Ok [OF b(3)] by (simp add: entry_bytes_def)
    ultimately show ?thesis
      using "2.IH"(2) [of len "x + len" u] b False s mx by auto
  qed
qed simp

lemma writes_bytes: "sum_list (map written_bytes (udf_writes target n)) = sum_list (map entry_bytes (entries_below d n))"
proof (induction n arbitrary: target d)
  case (Udf_Node name is_dir children location len sz)
  have "sum_list (map written_bytes (concat (map (\<lambda>c. udf_writes (join_text target (un_name c)) c) cs))) =
      sum_list (map entry_bytes (concat (map (entries_below (Suc d)) cs)))" if "set cs \<subseteq> set children" for cs
    using that Udf_Node by (induction cs) auto
  moreover have "entry_bytes (Udf_Node name is_dir children location len sz, d) =
      (if is_dir then 0 else case len of None \<Rightarrow> 0 | Some l \<Rightarrow> unat l)"
    by (simp add: entry_bytes_def)
  ultimately show ?case by simp
qed

lemma split_on_none: "list_all (\<lambda>c. \<not> P c) s \<Longrightarrow> split_on P s = [s]"
  by (induction s) auto

lemma safe_entry_joins:
  assumes "safe_entry_name n"
  shows "normal_component n" "join_text target n = target @ [n]"
proof -
  from assms have n: "n \<noteq> []" "n \<noteq> ''.''" "n \<noteq> ''..''" "CHR ''/'' \<notin> set n" by (auto simp: safe_entry_name_def)
  then have "split_on slash n = [n]" by (intro split_on_none) (auto simp: list_all_iff slash_def)
  moreover have "\<not> starts_with root n" using n(1,4) by (cases n) (auto simp: root_def starts_with_def)
  ultimately show "join_text target n = target @ [n]" using n by (simp add: join_text_def path_of_def)
  show "normal_component n" using n by (auto simp: normal_component_def root_def)
qed

lemma writes_inside:
  assumes "\<forall>e \<in> set (entries_below d n). entry_ok m e" "w \<in> set (udf_writes target n)"
  shows "\<exists>r. write_path w = target @ r \<and> list_all normal_component r \<and> length r \<le> max_udf_depth"
proof -
  have "\<exists>r. write_path w = target @ r \<and> list_all normal_component r \<and> d + length r \<le> max_udf_depth"
    using assms
  proof (induction n arbitrary: target d)
    case (Udf_Node name is_dir children location len sz)
    have deep: "d \<le> max_udf_depth" using Udf_Node.prems(1) by (simp add: entry_ok_def)
    show ?case
    proof (cases "is_dir \<and> w \<noteq> Make_Dir target")
      case False
      with Udf_Node.prems(2) deep show ?thesis by (auto split: if_splits)
    next
      case True
      with Udf_Node.prems(2) obtain c where c: "c \<in> set children" "w \<in> set (udf_writes (join_text target (un_name c)) c)"
        by auto
      with True Udf_Node.prems(1) have below: "\<forall>e \<in> set (entries_below (Suc d) c). entry_ok m e" by auto
      have "safe_entry_name (un_name c)" using True Udf_Node.prems(1) c(1) by (auto simp: entry_ok_def list_all_iff)
      then have "normal_component (un_name c)" "join_text target (un_name c) = target @ [un_name c]"
        by (rule safe_entry_joins)+
      with Udf_Node.IH [OF c(1) below c(2)] show ?thesis by auto
    qed
  qed
  then show ?thesis by auto
qed

text \<open>No two writes go to the same path, on a host that ignores case as on one that does not.\<close>

abbreviation folded :: "path \<Rightarrow> path" where "folded \<equiv> map (map to_lower)"

lemma distinct_concat_map:
  assumes "distinct (map key xs)" "\<And>x. x \<in> set xs \<Longrightarrow> distinct (f x)"
    and "\<And>x z. x \<in> set xs \<Longrightarrow> z \<in> set (f x) \<Longrightarrow> owner z = key x"
  shows "distinct (concat (map f xs))"
  using assms
proof (induction xs)
  case (Cons x xs)
  have "set (f x) \<inter> set (concat (map f xs)) = {}"
  proof (rule ccontr)
    assume "set (f x) \<inter> set (concat (map f xs)) \<noteq> {}"
    then obtain z y where z: "z \<in> set (f x)" "y \<in> set xs" "z \<in> set (f y)" by auto
    then have "key x = key y" using Cons.prems(3) [of x z] Cons.prems(3) [of y z] by simp
    with z(2) Cons.prems(1) show False by auto
  qed
  with Cons show ?case by simp
qed simp

lemma writes_apart:
  assumes "\<forall>e \<in> set (entries_below d n). entry_ok m e"
  shows "distinct (map (\<lambda>w. folded (write_path w)) (udf_writes target n))"
  using assms
proof (induction n arbitrary: target d)
  case (Udf_Node name is_dir children location len sz)
  show ?case
  proof (cases is_dir)
    case True
    define ws where "ws = (\<lambda>c. map (\<lambda>w. folded (write_path w)) (udf_writes (join_text target (un_name c)) c))"
    have names: "list_all (\<lambda>c. safe_entry_name (un_name c)) children" "distinct (map (\<lambda>c. map to_lower (un_name c)) children)"
      using True Udf_Node.prems by (auto simp: entry_ok_def)
    have below: "\<forall>e \<in> set (entries_below (Suc d) c). entry_ok m e" if "c \<in> set children" for c
      using True that Udf_Node.prems by auto
    have inside: "\<exists>r. z = folded target @ map to_lower (un_name c) # r" if c: "c \<in> set children" "z \<in> set (ws c)" for c z
    proof -
      from c obtain w where "w \<in> set (udf_writes (join_text target (un_name c)) c)" "z = folded (write_path w)"
        by (auto simp: ws_def)
      moreover from this obtain r where "write_path w = join_text target (un_name c) @ r"
        using writes_inside [OF below [OF c(1)]] by blast
      moreover have "join_text target (un_name c) = target @ [un_name c]"
        using names(1) c(1) by (intro safe_entry_joins) (auto simp: list_all_iff)
      ultimately show ?thesis by auto
    qed
    have "distinct (concat (map ws children))"
    proof (rule distinct_concat_map [OF names(2)])
      show "distinct (ws c)" if "c \<in> set children" for c
        unfolding ws_def using Udf_Node.IH [OF that below [OF that]] .
      show "z ! length target = map to_lower (un_name c)" if "c \<in> set children" "z \<in> set (ws c)" for c z
        using inside [OF that] by (auto simp: nth_append)
    qed
    moreover have "folded target \<notin> set (concat (map ws children))"
    proof
      assume "folded target \<in> set (concat (map ws children))"
      then obtain c where "c \<in> set children" "folded target \<in> set (ws c)" by auto
      then show False using inside by (metis append_self_conv list.distinct(1))
    qed
    moreover have "map (\<lambda>w. folded (write_path w)) (udf_writes target (Udf_Node name is_dir children location len sz)) =
        folded target # concat (map ws children)"
      using True by (simp add: ws_def map_concat comp_def)
    ultimately show ?thesis by simp
  qed simp
qed

lemma writes_entries: "length (udf_writes target n) = length (entries_below d n)"
proof (induction n arbitrary: target d)
  case (Udf_Node name is_dir children location len sz)
  have "length (concat (map (\<lambda>c. udf_writes (join_text target (un_name c)) c) cs)) =
      length (concat (map (entries_below (Suc d)) cs))" if "set cs \<subseteq> set children" for cs
    using that Udf_Node by (induction cs) auto
  then show ?case by simp
qed

definition well_extracted :: "nat \<Rightarrow> path \<Rightarrow> media_write list \<Rightarrow> bool" where
  "well_extracted media_bytes target ws =
     (list_all (\<lambda>w. path_within target (write_path w) \<and>
        list_all normal_component (drop (length target) (write_path w)) \<and>
        length (write_path w) \<le> length target + max_udf_depth) ws \<and>
      distinct (map (\<lambda>w. folded (write_path w)) ws) \<and>
      length ws \<le> max_udf_entries \<and>
      sum_list (map written_bytes ws) \<le> 2 * media_bytes)"

lemma valid_tree_writes:
  assumes "validate_udf_tree t media_len = Ok u"
  shows "well_extracted (unat media_len) target (udf_writes target t)"
proof -
  from assms obtain mx where mx: "checked_mul media_len 2 = Some mx" "visit_udf media_len mx [(t, 0)] 0 0 = Ok u"
    by (auto simp: validate_udf_tree_def outcome_simps simp del: visit_udf.simps)
  from visit_accepts [OF mx(2)] have v: "\<forall>e \<in> set (entries_below 0 t). entry_ok media_len e"
    "length (entries_below 0 t) \<le> max_udf_entries" "sum_list (map entry_bytes (entries_below 0 t)) \<le> unat mx"
    by simp_all
  have "unat mx = 2 * unat media_len"
    using mx(1) by (auto simp: checked_mul_def unat_word_ariths split: if_splits)
  moreover have "path_within target (write_path w) \<and> list_all normal_component (drop (length target) (write_path w)) \<and>
      length (write_path w) \<le> length target + max_udf_depth" if "w \<in> set (udf_writes target t)" for w
    using writes_inside [OF v(1) that] by (auto simp: path_within_def)
  ultimately show ?thesis
    using v writes_apart [OF v(1), of target] writes_bytes [of target t 0] writes_entries [of target t 0]
    by (simp add: well_extracted_def list_all_iff)
qed

lemma well_extracted_prefix: "well_extracted b target (ws @ rest) \<Longrightarrow> well_extracted b target ws"
  by (simp add: well_extracted_def)

text \<open>
  C19. The extraction of a boot medium with a UDF file system, whatever tree its
  parser answers and wherever the host refuses: every directory and file it
  attempts lies below the target on a path of normal components and at most 32
  levels deep, no two go to the same path even where case is ignored, they are at
  most 100,000, and the files hold at most twice the bytes of the medium.  A
  finished extraction attempted the whole tree.
\<close>

theorem udf_extraction_is_confined:
  assumes "has_udf_volume_recognition_sequence media" "length media < 2 ^ 64"
  shows "well_extracted (length media) target (attempted (extract_iso parse_udf fmt k refuses media target)) \<and>
    (\<forall>ws. extract_iso parse_udf fmt k refuses media target = Extracted ws \<longrightarrow>
       (\<exists>t. parse_udf media = Some t \<and> ws = udf_writes target t))"
proof (cases "\<exists>t. parse_udf media = Some t \<and> is_ok (validate_udf_tree t (word_of_nat (length media)))")
  case False
  then show ?thesis using assms(1)
    by (auto simp: extract_iso_def well_extracted_def split: option.splits outcome.splits)
next
  case True
  then obtain t u where t: "parse_udf media = Some t" "validate_udf_tree t (word_of_nat (length media)) = Ok u"
    by (auto elim: is_ok.elims)
  obtain rest where r: "udf_writes target t = fst (extract_udf_tree refuses target t) @ rest"
    "snd (extract_udf_tree refuses target t) = Done \<Longrightarrow> rest = []"
    using extraction_attempts by blast
  have "well_extracted (length media) target (udf_writes target t)"
    using valid_tree_writes [OF t(2), of target] assms(2) by (simp add: unat_of_nat)
  then have "well_extracted (length media) target (fst (extract_udf_tree refuses target t))"
    unfolding r(1) by (rule well_extracted_prefix)
  then show ?thesis using assms(1) t r by (auto simp: extract_iso_def split: prod.splits)
qed

text \<open>
  The copy of an ISO 9660 volume has no such check: an entry whose name leads
  out of its directory is written there.
\<close>

lemma iso_names_are_trusted:
  assumes "iso_entries fmt media lba len = [Some e]" "\<not> ise_directory e" "ise_name e = ''../startup''" "\<not> refuses target"
  shows "copy_iso_directory 1 fmt media refuses lba len target =
    ([Make_Dir target, Copy_Iso (target @ [''..'', ''startup'']) e],
     if refuses (target @ [''..'', ''startup'']) then Refused else Done)"
proof -
  have "join_text target ''../startup'' = target @ [''..'', ''startup'']"
    by (simp add: join_text_def starts_with_def path_of_def root_def slash_def)
  with assms show ?thesis by (simp add: attempt_def)
qed

section \<open>A medium\<close>

definition sample_tree :: udf_node where
  "sample_tree = Udf_Node ''root'' True
     [Udf_Node ''boot'' True [Udf_Node ''boot.sdi'' False [] (Some 38000) (Some 3) 3] None None 0,
      Udf_Node ''bootmgr'' False [] (Some 39000) (Some 4) 4] None None 0"

definition sample_udf_medium :: bytes where
  "sample_udf_medium = replicate 32769 0 @ text_bytes ''NSR02'' @ replicate 7226 0"

lemma sample_udf: "has_udf_volume_recognition_sequence sample_udf_medium" "length sample_udf_medium = 40000"
proof -
  have l: "length (text_bytes ''NSR02'') = 5" by (simp add: text_bytes_def)
  then show "length sample_udf_medium = 40000" by (simp add: sample_udf_medium_def)
  have "get_range (16 * 2048 + 1) (16 * 2048 + 6) sample_udf_medium = Some (text_bytes ''NSR02'')"
    using l by (simp add: get_range_def sample_udf_medium_def)
  moreover have "[16..<32] = 16 # [17..<32]" by (simp add: upt_rec)
  ultimately show "has_udf_volume_recognition_sequence sample_udf_medium"
    by (simp add: has_udf_volume_recognition_sequence_def)
qed

theorem udf_extraction_is_confined_witness:
  "well_extracted 40000 [root, ''staging'']
     (attempted (extract_iso (\<lambda>media. Some sample_tree) \<lparr> iso_mount = \<lambda>media. None, iso_entries = \<lambda>media lba len. [],
        iso_chunk = \<lambda>media e n len. None \<rparr> 0 (\<lambda>p. False) sample_udf_medium [root, ''staging'']))"
  using udf_extraction_is_confined [OF sample_udf(1), of "[root, ''staging'']" "\<lambda>media. Some sample_tree"
      "\<lparr> iso_mount = \<lambda>media. None, iso_entries = \<lambda>media lba len. [], iso_chunk = \<lambda>media e n len. None \<rparr>" 0 "\<lambda>p. False"]
  unfolding sample_udf(2) by simp

lemma sample_extraction:
  "fst (extract_udf_tree (\<lambda>p. False) [root, ''staging''] sample_tree) =
    [Make_Dir [root, ''staging''], Make_Dir [root, ''staging'', ''boot''],
     Copy_Udf [root, ''staging'', ''boot'', ''boot.sdi''] (Udf_Node ''boot.sdi'' False [] (Some 38000) (Some 3) 3),
     Copy_Udf [root, ''staging'', ''bootmgr''] (Udf_Node ''bootmgr'' False [] (Some 39000) (Some 4) 4)]"
  by (simp add: sample_tree_def attempt_def join_text_def starts_with_def path_of_def root_def slash_def)

end
