(* ===== verification/Boot_Media.thy ===== *)
theory Boot_Media
  imports Udf_Media
begin

text \<open>
  What the import reads out of the bytes of boot media
  (\<open>crates/service/src/pxe.rs\<close>): the two boot images of an El Torito catalogue, the
  sz of a FAT image, the reader that confines a FAT file system to its
  partition, and the boot index of a WIM header.
\<close>

datatype media_fault =
    Short_Read
  | Invalid_Volume_Descriptor
  | No_Boot_Catalog
  | Invalid_Validation_Entry
  | Not_Bootable
  | Empty_Boot_Image
  | Truncated_Catalog
  | No_Uefi_Image
  | Invalid_Fat_Sector
  | Size_Overflows
  | Invalid_Fat_Size
  | Offset_Overflows
  | Outside_Media
  | Invalid_Mbr
  | Not_Fat

section \<open>Reading an exact range\<close>

definition read_exact_at :: "nat \<Rightarrow> nat \<Rightarrow> bytes \<Rightarrow> (media_fault, bytes) outcome" where
  "read_exact_at offset n media = ok_or (get_range offset (offset + n) media) Short_Read"

lemma read_exact_at_Ok:
  "read_exact_at offset n media = Ok bs \<longleftrightarrow> offset + n \<le> length media \<and> bs = take n (drop offset media)"
  by (auto simp: read_exact_at_def get_range_def outcome_simps)

section \<open>The boot catalogue\<close>

definition iso_sector :: nat where "iso_sector = 2048"
definition el_torito_name :: bytes where "el_torito_name = text_bytes ''EL TORITO SPECIFICATION''"

definition descriptor_sectors :: "nat list" where "descriptor_sectors = [16..<64]"

fun find_catalog :: "bytes \<Rightarrow> nat list \<Rightarrow> (media_fault, u32) outcome" where
  "find_catalog media [] = Err No_Boot_Catalog"
| "find_catalog media (lba # lbas) =
     and_then (read_exact_at (lba * iso_sector) 2048 media) (\<lambda>descriptor.
     if take 5 (drop 1 descriptor) \<noteq> text_bytes ''CD001'' then Err Invalid_Volume_Descriptor
     else if descriptor ! 0 = 0 \<and> take (length el_torito_name) (drop 7 descriptor) = el_torito_name
     then Ok (from_le (take 4 (drop 71 descriptor)))
     else if descriptor ! 0 = 255 then Err No_Boot_Catalog
     else find_catalog media lbas)"

fun sum_words :: "bytes \<Rightarrow> u16" where
  "sum_words (a # b # bs) = from_le [a, b] + sum_words bs"
| "sum_words bs = 0"

definition valid_entry :: "bytes \<Rightarrow> bool" where
  "valid_entry catalog =
     (catalog ! 0 = 1 \<and> take 2 (drop 30 catalog) = [0x55, 0xAA] \<and> sum_words (take 32 catalog) = 0)"

definition parse_el_torito_entry :: "bytes \<Rightarrow> (media_fault, u16 \<times> u32) outcome" where
  "parse_el_torito_entry entry =
     (if length entry \<noteq> 32 \<or> entry ! 0 \<noteq> 0x88 \<or> entry ! 1 \<noteq> 0 then Err Not_Bootable
      else
        (let sectors = from_le [entry ! 6, entry ! 7]; lba = from_le (take 4 (drop 8 entry)) in
         if sectors = 0 \<or> lba = 0 then Err Empty_Boot_Image else Ok (sectors, lba)))"

text \<open>The entries of a section: \<open>k\<close> of them are left, the first at \<open>start\<close>.\<close>

fun section_entries ::
  "bytes \<Rightarrow> u8 \<Rightarrow> nat \<Rightarrow> nat \<Rightarrow> (u16 \<times> u32) option \<Rightarrow> (media_fault, (u16 \<times> u32) option) outcome" where
  "section_entries catalog platform start 0 uefi = Ok uefi"
| "section_entries catalog platform start (Suc k) uefi =
     (if length catalog < start + 32 then Err Truncated_Catalog
      else if platform = 0xEF then
        and_then (parse_el_torito_entry (take 32 (drop start catalog))) (\<lambda>image.
        section_entries catalog platform (start + 32) k (Some image))
      else section_entries catalog platform (start + 32) k uefi)"

function catalog_sections ::
  "bytes \<Rightarrow> nat \<Rightarrow> (u16 \<times> u32) option \<Rightarrow> (media_fault, (u16 \<times> u32) option) outcome" where
  "catalog_sections catalog offset uefi =
     (if length catalog < offset + 32 then Ok uefi
      else
        (let entry = take 32 (drop offset catalog) in
         if entry ! 0 = 0x90 \<or> entry ! 0 = 0x91 then
           (let count = unat (from_le [entry ! 2, entry ! 3] :: u16) in
            case section_entries catalog (entry ! 1) (offset + 32) count uefi of
              Ok uefi \<Rightarrow>
                if entry ! 0 = 0x91 then Ok uefi
                else catalog_sections catalog (offset + 32 * (count + 1)) uefi
            | Err e \<Rightarrow> Err e
            | Panic \<Rightarrow> Panic)
         else catalog_sections catalog (offset + 32) uefi))"
  by pat_completeness auto
termination
  by (relation "measure (\<lambda>(catalog, offset, uefi). length catalog - offset)") auto

declare catalog_sections.simps [simp del]

section \<open>The boot images\<close>

definition max_boot_image :: u64 where "max_boot_image = 64 * 1024 * 1024"

definition fat_image_size :: "bytes \<Rightarrow> (media_fault, u64) outcome" where
  "fat_image_size sector =
     (if length sector < 512 \<or> take 2 (drop 510 sector) \<noteq> [0x55, 0xAA] then Err Invalid_Fat_Sector
      else
        (let bytes_per_sector = ucast (from_le [sector ! 11, sector ! 12] :: u16) :: u64;
             short_sectors = ucast (from_le [sector ! 19, sector ! 20] :: u16) :: u64;
             long_sectors = ucast (from_le (take 4 (drop 32 sector)) :: u32) :: u64;
             sectors = if short_sectors \<noteq> 0 then short_sectors else long_sectors in
         case checked_mul bytes_per_sector sectors of
           None \<Rightarrow> Err Size_Overflows
         | Some sz \<Rightarrow>
             if bytes_per_sector \<notin> {512, 1024, 2048, 4096} \<or> sz < 512 \<or> max_boot_image < sz
             then Err Invalid_Fat_Size else Ok sz))"

definition read_iso_extent :: "bytes \<Rightarrow> u64 \<Rightarrow> u32 \<Rightarrow> u64 \<Rightarrow> (media_fault, bytes) outcome" where
  "read_iso_extent media media_len lba sz =
     (case checked_mul (ucast lba) 2048 of
        None \<Rightarrow> Err Offset_Overflows
      | Some offset \<Rightarrow>
          (case checked_add offset sz of
             None \<Rightarrow> Err Offset_Overflows
           | Some stop \<Rightarrow>
               if media_len < stop \<or> max_boot_image < sz then Err Outside_Media
               else read_exact_at (unat offset) (unat sz) media))"

record el_torito_boot_images =
  et_bios :: bytes
  et_bios_load_sectors :: u16
  et_uefi :: bytes
  et_uefi_load_sectors :: u16

definition read_el_torito_boot_images :: "bytes \<Rightarrow> (media_fault, el_torito_boot_images) outcome" where
  "read_el_torito_boot_images media =
     (let media_len = word_of_nat (length media) in
     and_then (find_catalog media descriptor_sectors) (\<lambda>catalog_lba.
     and_then (read_exact_at (unat catalog_lba * iso_sector) 2048 media) (\<lambda>catalog.
     and_then (ensure (valid_entry catalog) Invalid_Validation_Entry) (\<lambda>_.
     and_then (parse_el_torito_entry (take 32 (drop 32 catalog))) (\<lambda>bios.
     and_then (catalog_sections catalog 64 None) (\<lambda>found.
     and_then (ok_or found No_Uefi_Image) (\<lambda>uefi.
     and_then (read_iso_extent media media_len (snd bios) (ucast (fst bios) * 512)) (\<lambda>bios_bytes.
     and_then (read_iso_extent media media_len (snd uefi) 512) (\<lambda>uefi_prefix.
     and_then (fat_image_size uefi_prefix) (\<lambda>uefi_size.
     and_then (read_iso_extent media media_len (snd uefi) uefi_size) (\<lambda>uefi_bytes.
     Ok \<lparr> et_bios = bios_bytes, et_bios_load_sectors = fst bios,
          et_uefi = uefi_bytes, et_uefi_load_sectors = fst uefi \<rparr>)))))))))))"

section \<open>The partition of a disk image\<close>

record partition_reader =
  pr_start :: u64
  pr_length :: u64
  pr_position :: u64

datatype media_seek = Seek_Start u64 | Seek_Current "64 word" | Seek_End "64 word"

text \<open>\<open>Read::read\<close> into a buffer of \<open>n\<close> bytes, of which the file delivers at most \<open>k\<close>.\<close>

definition partition_read :: "bytes \<Rightarrow> nat \<Rightarrow> nat \<Rightarrow> partition_reader \<Rightarrow> bytes \<times> partition_reader" where
  "partition_read media n k r =
     (if pr_length r \<le> pr_position r then ([], r)
      else
        (let count = min n (unat (pr_length r - pr_position r));
             got = take (min count k) (drop (unat (pr_start r + pr_position r)) media) in
         (got, r \<lparr> pr_position := pr_position r + word_of_nat (length got) \<rparr>)))"

definition seek_target :: "partition_reader \<Rightarrow> media_seek \<Rightarrow> int" where
  "seek_target r s =
     (case s of
        Seek_Start v \<Rightarrow> uint v
      | Seek_Current v \<Rightarrow> uint (pr_position r) + sint v
      | Seek_End v \<Rightarrow> uint (pr_length r) + sint v)"

definition partition_seek :: "partition_reader \<Rightarrow> media_seek \<Rightarrow> (partition_reader \<times> u64) option" where
  "partition_seek r s =
     (let next = seek_target r s in
      if next < 0 \<or> uint (pr_length r) < next then None
      else Some (r \<lparr> pr_position := word_of_int next \<rparr>, word_of_int next))"

definition open_fat_partition :: "bytes \<Rightarrow> (media_fault, partition_reader) outcome" where
  "open_fat_partition media =
     and_then (read_exact_at 0 512 media) (\<lambda>mbr.
     if take 2 (drop 510 mbr) \<noteq> [0x55, 0xAA] then Err Invalid_Mbr
     else
       (let partition = take 16 (drop 446 mbr) in
        if partition ! 4 \<notin> {0x0B, 0x0C, 0x0E} then Err Not_Fat
        else Ok \<lparr> pr_start = ucast (from_le (take 4 (drop 8 partition)) :: u32) * 512,
                  pr_length = ucast (from_le (take 4 (drop 12 partition)) :: u32) * 512,
                  pr_position = 0 \<rparr>))"

section \<open>The header of a WIM image\<close>

definition wim_magic :: bytes where "wim_magic = text_bytes ''MSWIM'' @ [0, 0, 0]"
definition wim_header_size_offset :: nat where "wim_header_size_offset = 0x08"
definition wim_part_number_offset :: nat where "wim_part_number_offset = 0x28"
definition wim_total_parts_offset :: nat where "wim_total_parts_offset = 0x2A"
definition wim_image_count_offset :: nat where "wim_image_count_offset = 0x2C"
definition wim_boot_index_offset :: nat where "wim_boot_index_offset = 0x78"

definition wim_boot_index_from_header :: "bytes \<Rightarrow> u32 option" where
  "wim_boot_index_from_header header =
     (if length header < wim_boot_index_offset + 4 \<or> take 8 header \<noteq> wim_magic then None
      else
        (let header_size = from_le (take 4 (drop wim_header_size_offset header)) :: u32;
             part_number = from_le (take 2 (drop wim_part_number_offset header)) :: u16;
             total_parts = from_le (take 2 (drop wim_total_parts_offset header)) :: u16;
             image_count = from_le (take 4 (drop wim_image_count_offset header)) :: u32;
             boot_index = from_le (take 4 (drop wim_boot_index_offset header)) :: u32 in
         if wim_boot_index_offset + 4 \<le> unat header_size \<and> part_number = 1 \<and> total_parts = 1 \<and>
            0 < boot_index \<and> boot_index \<le> image_count
         then Some boot_index else None))"

definition wim_has_boot_image :: "bytes \<Rightarrow> bool" where
  "wim_has_boot_image wim =
     (case read_exact_at 0 (wim_boot_index_offset + 4) wim of
        Ok header \<Rightarrow> wim_boot_index_from_header header \<noteq> None
      | _ \<Rightarrow> False)"

section \<open>Boot images and where they lie\<close>

definition lies_at :: "bytes \<Rightarrow> u32 \<Rightarrow> bytes \<Rightarrow> bool" where
  "lies_at media lba bs =
     (unat lba * 2048 + length bs \<le> length media \<and> bs = take (length bs) (drop (unat lba * 2048) media))"

lemma unat_widened [simp]: "unat (ucast (s :: u16) :: u64) = unat s" "unat (ucast (l :: u32) :: u64) = unat l"
  using unsigned_less [of s, where 'a = nat] unsigned_less [of l, where 'a = nat]
  by (simp_all add: unsigned_ucast_eq take_bit_nat_eq_self)

lemma unat_sectors [simp]: "unat (ucast (s :: u16) * 512 :: u64) = unat s * 512"
  using unsigned_less [of s, where 'a = nat] by (simp add: unat_word_ariths)

lemma unat_lba [simp]:
  "unat (ucast (l :: u32) * 2048 :: u64) = unat l * 2048" "unat (ucast (l :: u32) * 512 :: u64) = unat l * 512"
  using unsigned_less [of l, where 'a = nat] by (simp_all add: unat_word_ariths)

lemma read_iso_extent_Ok:
  assumes "read_iso_extent media media_len lba sz = Ok bs"
  shows "lies_at media lba bs" "length bs = unat sz" "sz \<le> max_boot_image"
proof -
  from assms obtain stop where "unat lba * 2048 + unat sz \<le> length media"
      "bs = take (unat sz) (drop (unat lba * 2048) media)" "sz \<le> max_boot_image"
    by (auto simp: read_iso_extent_def read_exact_at_Ok checked_mul_def not_less split: option.splits if_splits)
  then show "lies_at media lba bs" "length bs = unat sz" "sz \<le> max_boot_image" by (auto simp: lies_at_def)
qed

definition loadable :: "(u16 \<times> u32) option \<Rightarrow> bool" where
  "loadable e = (case e of None \<Rightarrow> True | Some (sectors, lba) \<Rightarrow> sectors \<noteq> 0 \<and> lba \<noteq> 0)"

lemma parse_entry_Ok: "parse_el_torito_entry e = Ok i \<Longrightarrow> loadable (Some i)"
  by (auto simp: parse_el_torito_entry_def loadable_def Let_def split: if_splits)

lemma section_entries_Ok: "section_entries c pl start k uefi = Ok r \<Longrightarrow> loadable uefi \<Longrightarrow> loadable r"
proof (induction c pl start k uefi rule: section_entries.induct)
  case (2 c pl start k uefi)
  then show ?case
    by (cases "length c < start + 32"; cases "pl = 0xEF") (auto simp: outcome_simps dest: parse_entry_Ok)
qed simp

lemma catalog_sections_Ok: "catalog_sections c offset uefi = Ok r \<Longrightarrow> loadable uefi \<Longrightarrow> loadable r"
proof (induction c offset uefi rule: catalog_sections.induct)
  case (1 c offset uefi)
  note prems = "1.prems"(1) [unfolded catalog_sections.simps [of c offset uefi]]
  show ?case
  proof (cases "length c < offset + 32")
    case True
    then show ?thesis using prems "1.prems"(2) by simp
  next
    case False
    let ?e = "take 32 (drop offset c)"
    show ?thesis
    proof (cases "?e ! 0 = 0x90 \<or> ?e ! 0 = 0x91")
      case other: False
      then show ?thesis using prems False "1.IH"(2) [OF False refl other] "1.prems"(2) by (simp add: Let_def)
    next
      case True
      with prems False obtain u where u: "section_entries c (?e ! 1) (offset + 32) (unat (from_le [?e ! 2, ?e ! 3] :: u16)) uefi = Ok u"
        "if ?e ! 0 = 0x91 then r = u else catalog_sections c (offset + 32 * (unat (from_le [?e ! 2, ?e ! 3] :: u16) + 1)) u = Ok r"
        by (auto simp: Let_def split: outcome.splits if_splits)
      note step = section_entries_Ok [OF u(1) "1.prems"(2)]
      show ?thesis
        using u(2) step "1.IH"(1) [OF False refl True refl u(1)] by (auto split: if_splits)
    qed
  qed
qed

lemma fat_size_prefix:
  assumes "512 \<le> length bs"
  shows "fat_image_size (take 512 bs) = fat_image_size bs"
proof -
  have "take 4 (drop 32 (take 512 bs)) = take 4 (drop 32 bs)" "take 2 (drop 510 (take 512 bs)) = take 2 (drop 510 bs)"
    by (simp_all add: drop_take)
  with assms show ?thesis by (simp add: fat_image_size_def min_def)
qed

lemma fat_image_size_Ok: "fat_image_size bs = Ok sz \<Longrightarrow> 512 \<le> unat sz \<and> sz \<le> max_boot_image"
  by (auto simp: fat_image_size_def Let_def not_less word_le_nat_alt split: if_splits option.splits)

text \<open>
  C25. The two boot images read from a medium are ranges of it: the BIOS image is
  the whole sectors its catalogue entry loads, and the UEFI image is a FAT volume
  of the sz its own boot sector states, at least a sector and at most 64 MiB.
\<close>

theorem boot_images_lie_in_media:
  assumes "read_el_torito_boot_images media = Ok im"
  shows "\<exists>bios uefi. bios \<noteq> 0 \<and> uefi \<noteq> 0 \<and> lies_at media bios (et_bios im) \<and> lies_at media uefi (et_uefi im) \<and>
    et_bios_load_sectors im \<noteq> 0 \<and> length (et_bios im) = 512 * unat (et_bios_load_sectors im) \<and>
    et_uefi_load_sectors im \<noteq> 0 \<and> fat_image_size (et_uefi im) = Ok (word_of_nat (length (et_uefi im))) \<and>
    512 \<le> length (et_uefi im) \<and> length (et_uefi im) \<le> 64 * 1024 * 1024"
proof -
  from assms obtain catalog bs bl us ul prefix sz where
    c: "parse_el_torito_entry (take 32 (drop 32 catalog)) = Ok (bs, bl)" "catalog_sections catalog 64 None = Ok (Some (us, ul))"
      "read_iso_extent media (word_of_nat (length media)) bl (ucast bs * 512) = Ok (et_bios im)"
      "read_iso_extent media (word_of_nat (length media)) ul 512 = Ok prefix" "fat_image_size prefix = Ok sz"
      "read_iso_extent media (word_of_nat (length media)) ul sz = Ok (et_uefi im)"
      "et_bios_load_sectors im = bs" "et_uefi_load_sectors im = us"
    by (auto simp: read_el_torito_boot_images_def Let_def outcome_simps)
  note bios = read_iso_extent_Ok [OF c(3)] and uefi = read_iso_extent_Ok [OF c(6)] and pre = read_iso_extent_Ok [OF c(4)]
  have sz: "512 \<le> unat sz" "unat sz \<le> 64 * 1024 * 1024"
    using fat_image_size_Ok [OF c(5)] by (simp_all add: word_le_nat_alt max_boot_image_def)
  have "prefix = take 512 (et_uefi im)"
  proof -
    have "length prefix = 512" using pre(2) by simp
    with pre(1) have "prefix = take 512 (drop (unat ul * 2048) media)" by (simp add: lies_at_def)
    moreover have "et_uefi im = take (unat sz) (drop (unat ul * 2048) media)" using uefi(1,2) by (simp add: lies_at_def)
    ultimately show ?thesis using sz(1) by (simp add: min_def)
  qed
  then have "fat_image_size (et_uefi im) = Ok sz" using c(5) uefi(2) sz(1) fat_size_prefix by metis
  moreover have "sz = word_of_nat (length (et_uefi im))" using uefi(2) by simp
  moreover have "ul \<noteq> 0" "us \<noteq> 0" using catalog_sections_Ok [OF c(2)] by (auto simp: loadable_def)
  moreover have "bl \<noteq> 0" "bs \<noteq> 0" using parse_entry_Ok [OF c(1)] by (auto simp: loadable_def)
  moreover have "length (et_bios im) = 512 * unat bs" using bios(2) by simp
  moreover have "512 \<le> length (et_uefi im)" "length (et_uefi im) \<le> 64 * 1024 * 1024" using uefi(2) sz by simp_all
  ultimately show ?thesis using bios(1) uefi(1) c(7,8) by blast
qed

text \<open>A medium with one descriptor, its catalogue, a BIOS sector and a UEFI volume of one sector.\<close>

definition sample_descriptor :: bytes where
  "sample_descriptor = 0 # text_bytes ''CD001'' @ [1] @ el_torito_name @ replicate 41 0 @ [17, 0, 0, 0] @ replicate 1973 0"

definition sample_catalog :: bytes where
  "sample_catalog = [1, 0] @ replicate 26 0 @ [0xAA, 0x55, 0x55, 0xAA] @
     [0x88, 0, 0, 0, 0, 0, 1, 0, 18, 0, 0, 0] @ replicate 20 0 @ [0x91, 0xEF, 1, 0] @ replicate 28 0 @
     [0x88, 0, 0, 0, 0, 0, 1, 0, 19, 0, 0, 0] @ replicate 20 0 @ replicate 1920 0"

definition sample_volume :: bytes where
  "sample_volume = replicate 11 0 @ [0, 2] @ replicate 6 0 @ [1, 0] @ replicate 489 0 @ [0x55, 0xAA]"

definition sample_boot_medium :: bytes where
  "sample_boot_medium = replicate 32768 0 @ sample_descriptor @ sample_catalog @ replicate 2048 7 @ sample_volume"

lemma sample_part_lengths: "length sample_descriptor = 2048" "length sample_catalog = 2048" "length sample_volume = 512"
  by (simp_all add: sample_descriptor_def sample_catalog_def sample_volume_def text_bytes_def el_torito_name_def)

lemma sample_reads:
  "read_exact_at 32768 2048 sample_boot_medium = Ok sample_descriptor"
  "read_exact_at 34816 2048 sample_boot_medium = Ok sample_catalog"
  "read_exact_at 36864 512 sample_boot_medium = Ok (replicate 512 7)"
  "read_exact_at 38912 512 sample_boot_medium = Ok sample_volume"
  using sample_part_lengths by (simp_all add: read_exact_at_Ok sample_boot_medium_def)

lemma sample_length: "length sample_boot_medium = 39424"
  using sample_part_lengths by (simp add: sample_boot_medium_def)

lemma sample_descriptor_fields:
  "sample_descriptor ! 0 = 0" "take 5 (drop 1 sample_descriptor) = text_bytes ''CD001''"
  "take (length el_torito_name) (drop 7 sample_descriptor) = el_torito_name" "take 4 (drop 71 sample_descriptor) = [17, 0, 0, 0]"
proof -
  have l: "length el_torito_name = 23" "length (text_bytes ''CD001'') = 5" by (simp_all add: el_torito_name_def text_bytes_def)
  show "sample_descriptor ! 0 = 0" by (simp add: sample_descriptor_def)
  show "take 5 (drop 1 sample_descriptor) = text_bytes ''CD001''" using l by (simp add: sample_descriptor_def)
  show "take (length el_torito_name) (drop 7 sample_descriptor) = el_torito_name"
    using l by (simp add: sample_descriptor_def drop_Cons')
  show "take 4 (drop 71 sample_descriptor) = [17, 0, 0, 0]" using l by (simp add: sample_descriptor_def drop_Cons')
qed

lemma sample_catalog_lba: "find_catalog sample_boot_medium descriptor_sectors = Ok 17"
proof -
  obtain lbas where "descriptor_sectors = 16 # lbas" using upt_conv_Cons [of 16 64] by (auto simp: descriptor_sectors_def)
  moreover have "find_catalog sample_boot_medium (16 # lbas) = Ok 17"
    using sample_reads(1) sample_descriptor_fields by (simp add: iso_sector_def from_le_def)
  ultimately show ?thesis by simp
qed

lemma sample_entries:
  "valid_entry sample_catalog" "parse_el_torito_entry (take 32 (drop 32 sample_catalog)) = Ok (1, 18)"
  "catalog_sections sample_catalog 64 None = Ok (Some (1, 19))" "fat_image_size sample_volume = Ok 512"
proof -
  have "replicate 26 (0 :: u8) = [0, 0, 0, 0, 0, 0, 0, 0, 0, 0, 0, 0, 0, 0, 0, 0, 0, 0, 0, 0, 0, 0, 0, 0, 0, 0]"
    by (simp add: numeral_eq_Suc)
  moreover have "take 32 sample_catalog = [1, 0] @ replicate 26 0 @ [0xAA, 0x55, 0x55, 0xAA]"
    "take 2 (drop 30 sample_catalog) = [0x55, 0xAA]" "sample_catalog ! 0 = 1"
    by (simp_all add: sample_catalog_def)
  ultimately show "valid_entry sample_catalog" by (simp add: valid_entry_def from_le_def)
  show "parse_el_torito_entry (take 32 (drop 32 sample_catalog)) = Ok (1, 18)"
    by (simp add: parse_el_torito_entry_def sample_catalog_def from_le_def nth_append)
  have "take 32 (drop 64 sample_catalog) = [0x91, 0xEF, 1, 0] @ replicate 28 0"
    "take 32 (drop 96 sample_catalog) = [0x88, 0, 0, 0, 0, 0, 1, 0, 19, 0, 0, 0] @ replicate 20 0"
    by (simp_all add: sample_catalog_def)
  then show "catalog_sections sample_catalog 64 None = Ok (Some (1, 19))"
    using sample_part_lengths unfolding catalog_sections.simps [of sample_catalog 64 None]
    by (simp add: from_le_def parse_el_torito_entry_def)
  show "fat_image_size sample_volume = Ok 512"
    by (simp add: fat_image_size_def sample_volume_def from_le_def nth_append checked_mul_def max_boot_image_def)
qed

theorem boot_images_lie_in_media_witness:
  "\<exists>im. read_el_torito_boot_images sample_boot_medium = Ok im \<and> et_bios im = replicate 512 7 \<and> et_uefi im = sample_volume \<and>
     (\<exists>uefi. uefi \<noteq> 0 \<and> lies_at sample_boot_medium uefi (et_uefi im))"
proof -
  define im where "im = \<lparr> et_bios = replicate 512 7, et_bios_load_sectors = 1, et_uefi = sample_volume, et_uefi_load_sectors = 1 \<rparr>"
  have extents: "read_iso_extent sample_boot_medium 39424 18 512 = Ok (replicate 512 7)"
    "read_iso_extent sample_boot_medium 39424 19 512 = Ok sample_volume"
    using sample_reads(3,4) by (simp_all add: read_iso_extent_def checked_mul_def checked_add_def max_boot_image_def)
  then have "read_el_torito_boot_images sample_boot_medium = Ok im"
    using sample_reads(2) sample_length sample_catalog_lba sample_entries
    by (simp add: read_el_torito_boot_images_def iso_sector_def ensure_def im_def)
  then show ?thesis using boot_images_lie_in_media [of sample_boot_medium im] by (auto simp: im_def)
qed

section \<open>The partition is all that is read\<close>

datatype reader_call = Read_Call nat nat | Seek_Call media_seek
datatype reader_answer = Got bytes | Sought "u64 option"

fun run_reader :: "bytes \<Rightarrow> reader_call list \<Rightarrow> partition_reader \<Rightarrow> reader_answer list" where
  "run_reader media [] r = []"
| "run_reader media (Read_Call n k # calls) r =
     (case partition_read media n k r of (got, r') \<Rightarrow> Got got # run_reader media calls r')"
| "run_reader media (Seek_Call s # calls) r =
     (case partition_seek r s of
        None \<Rightarrow> Sought None # run_reader media calls r
      | Some (r', p) \<Rightarrow> Sought (Some p) # run_reader media calls r')"

text \<open>The reference: a cursor over the bytes of the partition alone, of which a medium cut short has fewer than \<open>len\<close>.\<close>

fun run_cursor :: "bytes \<Rightarrow> nat \<Rightarrow> reader_call list \<Rightarrow> nat \<Rightarrow> reader_answer list" where
  "run_cursor part len [] p = []"
| "run_cursor part len (Read_Call n k # calls) p =
     (let got = take (min n k) (drop p part) in Got got # run_cursor part len calls (p + length got))"
| "run_cursor part len (Seek_Call s # calls) p =
     (let next = (case s of Seek_Start v \<Rightarrow> uint v | Seek_Current v \<Rightarrow> int p + sint v | Seek_End v \<Rightarrow> int len + sint v) in
      if next < 0 \<or> int len < next then Sought None # run_cursor part len calls p
      else Sought (Some (word_of_int next)) # run_cursor part len calls (nat next))"

definition partition_bytes :: "bytes \<Rightarrow> partition_reader \<Rightarrow> bytes" where
  "partition_bytes media r = take (unat (pr_length r)) (drop (unat (pr_start r)) media)"

definition reader_ok :: "partition_reader \<Rightarrow> bool" where
  "reader_ok r = (unat (pr_start r) + unat (pr_length r) < 2 ^ 64 \<and> pr_position r \<le> pr_length r)"

lemma read_step:
  assumes "reader_ok r" "partition_read media n k r = (got, r')"
  shows "got = take (min n k) (drop (unat (pr_position r)) (partition_bytes media r))" "reader_ok r'"
    "pr_start r' = pr_start r" "pr_length r' = pr_length r" "unat (pr_position r') = unat (pr_position r) + length got"
proof -
  let ?p = "unat (pr_position r)" and ?l = "unat (pr_length r)" and ?s = "unat (pr_start r)"
  have ok: "?s + ?l < 2 ^ 64" "?p \<le> ?l" using assms(1) by (auto simp: reader_ok_def word_le_nat_alt)
  then have sum: "unat (pr_start r + pr_position r) = ?s + ?p" by (simp add: unat_word_ariths)
  have rest: "unat (pr_length r - pr_position r) = ?l - ?p" using ok(2) by (simp add: unat_sub word_le_nat_alt)
  have "got = take (min n k) (drop ?p (partition_bytes media r)) \<and> reader_ok r' \<and> pr_start r' = pr_start r \<and>
      pr_length r' = pr_length r \<and> unat (pr_position r') = ?p + length got"
  proof (cases "pr_length r \<le> pr_position r")
    case True
    with ok(2) assms show ?thesis by (auto simp: partition_read_def partition_bytes_def word_le_nat_alt)
  next
    case False
    with assms(2) have g: "got = take (min (min n (?l - ?p)) k) (drop (?s + ?p) media)"
        and r': "r' = r \<lparr> pr_position := pr_position r + word_of_nat (length got) \<rparr>"
      by (auto simp: partition_read_def Let_def rest sum)
    have "drop ?p (partition_bytes media r) = take (?l - ?p) (drop (?s + ?p) media)"
      by (simp add: partition_bytes_def drop_take add.commute)
    with g have "got = take (min n k) (drop ?p (partition_bytes media r))"
      by (simp add: take_take min.assoc min.left_commute min.commute)
    moreover have len: "?p + length got \<le> ?l" using g ok(2) by simp
    then have "unat (pr_position r') = ?p + length got"
      using r' ok(1) by (simp add: unat_word_ariths unat_of_nat)
    ultimately show ?thesis using assms(1) r' len by (simp add: reader_ok_def word_le_nat_alt)
  qed
  then show "got = take (min n k) (drop ?p (partition_bytes media r))" "reader_ok r'"
    "pr_start r' = pr_start r" "pr_length r' = pr_length r" "unat (pr_position r') = ?p + length got" by auto
qed

lemma seek_step:
  assumes "reader_ok r"
  shows "(case partition_seek r s of
      None \<Rightarrow> seek_target r s < 0 \<or> uint (pr_length r) < seek_target r s
    | Some (r', p) \<Rightarrow> 0 \<le> seek_target r s \<and> seek_target r s \<le> uint (pr_length r) \<and> p = word_of_int (seek_target r s) \<and>
        reader_ok r' \<and> pr_start r' = pr_start r \<and> pr_length r' = pr_length r \<and>
        unat (pr_position r') = nat (seek_target r s))"
proof (cases "seek_target r s < 0 \<or> uint (pr_length r) < seek_target r s")
  case True
  then show ?thesis by (auto simp: partition_seek_def Let_def)
next
  case False
  then have "0 \<le> seek_target r s" "seek_target r s < 2 ^ 64"
    using uint_lt2p [of "pr_length r"] by auto
  then have "uint (word_of_int (seek_target r s) :: u64) = seek_target r s"
    by (simp add: uint_word_of_int)
  then have "unat (word_of_int (seek_target r s) :: u64) = nat (seek_target r s)"
      "(word_of_int (seek_target r s) :: u64) \<le> pr_length r"
    using False by (simp_all add: unat_eq_nat_uint word_le_def)
  with False assms show ?thesis by (auto simp: partition_seek_def Let_def reader_ok_def)
qed

lemma cursor_seek:
  "run_cursor part (unat (pr_length r)) (Seek_Call s # calls) (unat (pr_position r)) =
     (if seek_target r s < 0 \<or> uint (pr_length r) < seek_target r s
      then Sought None # run_cursor part (unat (pr_length r)) calls (unat (pr_position r))
      else Sought (Some (word_of_int (seek_target r s))) #
        run_cursor part (unat (pr_length r)) calls (nat (seek_target r s)))"
  by (cases s) (simp_all add: seek_target_def Let_def)

declare run_cursor.simps(3) [simp del]

lemma reader_refines_cursor:
  assumes "reader_ok r"
  shows "run_reader media calls r = run_cursor (partition_bytes media r) (unat (pr_length r)) calls (unat (pr_position r))"
  using assms
proof (induction calls arbitrary: r)
  case (Cons c calls)
  show ?case
  proof (cases c)
    case (Read_Call n k)
    obtain got r' where g: "partition_read media n k r = (got, r')" by fastforce
    note step = read_step [OF Cons.prems g]
    have "partition_bytes media r' = partition_bytes media r" using step(3,4) by (simp add: partition_bytes_def)
    with Cons.IH [OF step(2)] step Read_Call g show ?thesis by (simp add: Let_def)
  next
    case (Seek_Call s)
    show ?thesis
    proof (cases "partition_seek r s")
      case None
      with seek_step [OF Cons.prems, of s] Seek_Call Cons.IH [OF Cons.prems] show ?thesis by (auto simp: cursor_seek)
    next
      case (Some a)
      obtain r' p where a: "a = (r', p)" by fastforce
      with Some seek_step [OF Cons.prems, of s] have step: "0 \<le> seek_target r s" "seek_target r s \<le> uint (pr_length r)"
          "p = word_of_int (seek_target r s)" "reader_ok r'" "pr_start r' = pr_start r" "pr_length r' = pr_length r"
          "unat (pr_position r') = nat (seek_target r s)"
        by auto
      have "partition_bytes media r' = partition_bytes media r" using step(5,6) by (simp add: partition_bytes_def)
      with Cons.IH [OF step(4)] step Some a Seek_Call show ?thesis by (simp add: cursor_seek)
    qed
  qed
qed simp

lemma opened_partition: "open_fat_partition media = Ok r \<Longrightarrow> reader_ok r \<and> pr_position r = 0"
proof -
  assume "open_fat_partition media = Ok r"
  then obtain a b :: u32 where r: "r = \<lparr> pr_start = ucast a * 512, pr_length = ucast b * 512, pr_position = 0 \<rparr>"
    by (auto simp: open_fat_partition_def outcome_simps Let_def split: if_splits)
  have "unat a < 2 ^ 32" "unat b < 2 ^ 32" using unsigned_less [of a, where 'a = nat] unsigned_less [of b, where 'a = nat] by simp_all
  then show ?thesis unfolding r by (simp add: reader_ok_def)
qed

text \<open>
  C26. The reader over the first partition of a disk image answers every sequence of
  reads and seeks as a cursor over the bytes of that partition alone would: the FAT
  code never sees a byte outside it, and no sum of the offsets wraps.
\<close>

theorem partition_reader_is_confined:
  assumes "open_fat_partition media = Ok r"
  shows "run_reader media calls r = run_cursor (partition_bytes media r) (unat (pr_length r)) calls 0"
  using opened_partition [OF assms] reader_refines_cursor [of r media calls] by simp

definition sample_fat_disk :: bytes where
  "sample_fat_disk = replicate 446 0 @ [0x80, 0, 0, 0, 0x0C, 0, 0, 0, 1, 0, 0, 0, 1, 0, 0, 0] @ replicate 48 0 @ [0x55, 0xAA] @
     [1, 2, 3] @ replicate 509 0 @ replicate 512 9"

lemma sample_partition: "open_fat_partition sample_fat_disk = Ok \<lparr> pr_start = 512, pr_length = 512, pr_position = 0 \<rparr>"
proof -
  have "read_exact_at 0 512 sample_fat_disk = Ok (take 512 sample_fat_disk)" by (simp add: read_exact_at_Ok sample_fat_disk_def)
  moreover have "take 2 (drop 510 (take 512 sample_fat_disk)) = [0x55, 0xAA]"
    "take 16 (drop 446 (take 512 sample_fat_disk)) = [0x80, 0, 0, 0, 0x0C, 0, 0, 0, 1, 0, 0, 0, 1, 0, 0, 0]"
    by (simp_all add: sample_fat_disk_def)
  ultimately show ?thesis by (simp add: open_fat_partition_def from_le_def)
qed

theorem partition_reader_is_confined_witness:
  "run_reader sample_fat_disk [Read_Call 2 8, Seek_Call (Seek_Start 513), Read_Call 9 1] \<lparr> pr_start = 512, pr_length = 512, pr_position = 0 \<rparr> =
     [Got [1, 2], Sought None, Got [3]]"
proof -
  have "take 512 (drop 512 sample_fat_disk) = [1, 2, 3] @ replicate 509 0" by (simp add: sample_fat_disk_def)
  then show ?thesis
    using partition_reader_is_confined [OF sample_partition, of "[Read_Call 2 8, Seek_Call (Seek_Start 513), Read_Call 9 1]"]
    by (simp add: partition_bytes_def run_cursor.simps(3))
qed

section \<open>The boot index\<close>

lemma wim_boot_index_bounds:
  "wim_boot_index_from_header header = Some i \<Longrightarrow>
     0 < i \<and> i \<le> from_le (take 4 (drop wim_image_count_offset header)) \<and> 124 \<le> length header"
  by (auto simp: wim_boot_index_from_header_def Let_def wim_boot_index_offset_def split: if_splits)

end
