(* ===== verification/Winpe_Image.thy ===== *)
theory Winpe_Image
  imports Winpe_Patch Boot_Media Hive_Patch
begin

text \<open>
  Putting the agent into a WinPE boot image (\<open>inject_agent_into_winpe\<close> and the
  functions it calls in \<open>crates/service/src/pxe.rs\<close>), on Windows in the mounted
  image and on macOS in a tree laid over it, and the markers by which a refresh is
  decided.  The imaging and registry tools and what the host refuses are
  arguments; an image is its header and its files by path.  On Windows the state
  of the host is the image file, whether it is mounted and whether the directory
  of the mount is there.
\<close>

section \<open>Images\<close>

type_synonym image_files = "string \<Rightarrow> string option"

record wim_image =
  wi_header :: bytes
  wi_files :: image_files

datatype inject_error =
    Missing_File
  | No_Boot_Index
  | Tool_Failed
  | Inject_Io
  | Payload_Link
  | Bad_Shell winpeshl_error
  | Bad_Hive bcd_error
  | Broken_Image

datatype file_action = Make | Put | Get | Move | Drop

text \<open>
  One injection: the agent's bytes when its file is there, the collector script,
  what the walk of the medium's payload found (a link has no bytes), and the
  file operations that fail.
\<close>

record injection =
  in_agent :: "string option"
  in_collector :: string
  in_payload :: "(string \<times> string option) list option"
  in_refuses :: "file_action \<Rightarrow> string \<Rightarrow> bool"

definition agent_exe :: string where "agent_exe = ''EasyDeployMesh/easydeploymesh-agent.exe''"
definition shell_exe :: string where "shell_exe = ''EasyDeployMesh/easydeploymesh-shell.exe''"
definition collector_cmd :: string where "collector_cmd = ''EasyDeployMesh/collect-winpe-runtime.cmd''"
definition original_shell :: string where "original_shell = ''EasyDeployMesh/easydeploymesh-original-shell.cmd''"
definition shell_hook :: string where "shell_hook = ''EasyDeployMesh/shell-hook.enabled''"
definition winpeshl_ini :: string where "winpeshl_ini = ''Windows/System32/winpeshl.ini''"
definition system_hive :: string where "system_hive = ''Windows/System32/config/SYSTEM''"
definition startnet_cmd :: string where "startnet_cmd = ''Windows/System32/startnet.cmd''"
definition original_startnet :: string where
  "original_startnet = ''Windows/System32/startnet.easydeploymesh-original.cmd''"
definition payload_dir :: string where "payload_dir = ''Edgeless/''"
definition edm_dir :: string where "edm_dir = ''EasyDeployMesh''"
definition system_dir :: string where "system_dir = ''Windows/System32''"
definition inspection_dir :: string where "inspection_dir = ''.inspection''"
definition mount_dir :: string where "mount_dir = []"

lemmas image_paths = agent_exe_def shell_exe_def collector_cmd_def original_shell_def shell_hook_def
  winpeshl_ini_def system_hive_def startnet_cmd_def original_startnet_def

section \<open>The start script\<close>

definition dos :: "string \<Rightarrow> string" where
  "dos s = map (\<lambda>c. if c = CHR ''|'' then CHR 0x5C else if c = CHR ''`'' then CHR 0x22 else c) s"

definition easydeploymesh_startnet :: string where
  "easydeploymesh_startnet = ''@echo off'' @ crlf @ ''wpeinit'' @ crlf @
     dos ''if not exist X:|EasyDeployMesh|shell-hook.enabled start `` /b cmd.exe /d /c `X:|EasyDeployMesh|easydeploymesh-agent.exe --bootstrap X:|EasyDeployMesh|easydeploymesh-bootstrap.json >> X:|EasyDeployMesh|easydeploymesh-agent.log 2>&1`'' @ crlf @
     dos ''if exist X:|Windows|System32|startnet.easydeploymesh-original.cmd call X:|Windows|System32|startnet.easydeploymesh-original.cmd'' @ crlf"

section \<open>The agent and the payload\<close>

definition put_file :: "injection \<Rightarrow> string \<Rightarrow> string \<Rightarrow> image_files \<Rightarrow> (inject_error, image_files) outcome" where
  "put_file j p c tree = (if in_refuses j Put p then Err Inject_Io else Ok (tree(p \<mapsto> c)))"

definition attempt_io :: "injection \<Rightarrow> file_action \<Rightarrow> string \<Rightarrow> (inject_error, unit) outcome" where
  "attempt_io j a p = (if in_refuses j a p then Err Inject_Io else Ok ())"

fun copy_payload_files ::
  "injection \<Rightarrow> (string \<times> string option) list \<Rightarrow> image_files \<Rightarrow> (inject_error, image_files) outcome" where
  "copy_payload_files j [] tree = Ok tree"
| "copy_payload_files j ((rel, None) # ps) tree = Err Payload_Link"
| "copy_payload_files j ((rel, Some c) # ps) tree =
     and_then (attempt_io j Make (payload_dir @ rel)) (\<lambda>_.
     and_then (put_file j (payload_dir @ rel) c tree) (copy_payload_files j ps))"

definition copy_winpe_media_payload :: "injection \<Rightarrow> image_files \<Rightarrow> (inject_error, image_files) outcome" where
  "copy_winpe_media_payload j tree =
     (case in_payload j of
        None \<Rightarrow> Ok tree
      | Some ps \<Rightarrow>
          and_then (attempt_io j Make payload_dir) (\<lambda>_.
          and_then (attempt_io j Get payload_dir) (\<lambda>_. copy_payload_files j ps tree)))"

definition install_agent :: "injection \<Rightarrow> string \<Rightarrow> image_files \<Rightarrow> (inject_error, image_files) outcome" where
  "install_agent j agent tree =
     and_then (attempt_io j Make edm_dir) (\<lambda>_.
     and_then (put_file j agent_exe agent tree) (\<lambda>tree.
     and_then (put_file j shell_exe agent tree) (\<lambda>tree.
     and_then (put_file j collector_cmd (in_collector j) tree) (copy_winpe_media_payload j))))"

text \<open>The hook into \<open>winpeshl.ini\<close>, given the file found.\<close>

definition save_script :: "injection \<Rightarrow> string option \<Rightarrow> image_files \<Rightarrow> (inject_error, image_files) outcome" where
  "save_script j s tree = (case s of None \<Rightarrow> Ok tree | Some script \<Rightarrow> put_file j original_shell script tree)"

definition hook_winpeshl :: "injection \<Rightarrow> string \<Rightarrow> image_files \<Rightarrow> (inject_error, bool \<times> image_files) outcome" where
  "hook_winpeshl j ini tree =
     and_then (map_err Bad_Shell (patch_winpeshl_for_agent ini)) (\<lambda>p.
     and_then (put_file j winpeshl_ini (pw_ini p) tree) (\<lambda>tree.
     map_ok (\<lambda>tree. (True, tree)) (save_script j (pw_original_shell_script p) tree)))"

definition enable_hook :: "injection \<Rightarrow> bool \<Rightarrow> image_files \<Rightarrow> (inject_error, image_files) outcome" where
  "enable_hook j hooked tree = (if hooked then put_file j shell_hook (''enabled'' @ crlf) tree else Ok tree)"

section \<open>On Windows\<close>

text \<open>
  The registry tool: what each of its commands answers, and the hive after the
  value was set.
\<close>

record registry_tool =
  rt_load :: bool
  rt_query :: "(bool \<times> string) option"
  rt_add :: bool
  rt_unload :: bool
  rt_set :: "string \<Rightarrow> string"

datatype reg_step = Load_Hive | Query_Value | Save_Script | Add_Value | Unload_Hive

definition edit_setup ::
  "registry_tool \<Rightarrow> injection \<Rightarrow> image_files \<Rightarrow> reg_step list \<times> (inject_error, bool \<times> image_files) outcome" where
  "edit_setup rt j tree =
     (case rt_query rt of
        None \<Rightarrow> ([Query_Value], Err Inject_Io)
      | Some (success, output) \<Rightarrow>
          if \<not> success then ([Query_Value], Ok (False, tree))
          else
            (case reg_sz_value output ''CmdLine'' of
               None \<Rightarrow> ([Query_Value], Ok (False, tree))
             | Some command \<Rightarrow>
                 if eq_ignore_case command agent_shell_path then ([Query_Value], Ok (True, tree))
                 else
                   (case put_file j original_shell (script_header @ command @ crlf) tree of
                      Err e \<Rightarrow> ([Query_Value, Save_Script], Err e)
                    | Panic \<Rightarrow> ([Query_Value, Save_Script], Panic)
                    | Ok tree \<Rightarrow>
                        if rt_add rt
                        then ([Query_Value, Save_Script, Add_Value],
                          Ok (True, tree(system_hive := map_option (rt_set rt) (tree system_hive))))
                        else ([Query_Value, Save_Script, Add_Value], Err Tool_Failed))))"

definition patch_setup_cmdline_for_agent ::
  "registry_tool \<Rightarrow> injection \<Rightarrow> image_files \<Rightarrow> reg_step list \<times> (inject_error, bool \<times> image_files) outcome" where
  "patch_setup_cmdline_for_agent rt j tree =
     (if tree system_hive = None then ([], Ok (False, tree))
      else if \<not> rt_load rt then ([Load_Hive], Err Tool_Failed)
      else
        (case edit_setup rt j tree of
           (steps, result) \<Rightarrow>
             (Load_Hive # steps @ [Unload_Hive],
              and_then result (\<lambda>installed. if rt_unload rt then Ok installed else Err Tool_Failed))))"

definition should_patch_setup_cmdline :: "bool \<Rightarrow> bool" where
  "should_patch_setup_cmdline winpeshl_hook_installed = (\<not> winpeshl_hook_installed)"

definition hook_windows ::
  "registry_tool \<Rightarrow> injection \<Rightarrow> image_files \<Rightarrow> (inject_error, bool \<times> image_files) outcome" where
  "hook_windows rt j tree =
     and_then
       (case tree winpeshl_ini of
          None \<Rightarrow> Ok (False, tree)
        | Some ini \<Rightarrow> and_then (attempt_io j Get winpeshl_ini) (\<lambda>_. hook_winpeshl j ini tree))
       (\<lambda>(hooked, tree).
          if should_patch_setup_cmdline hooked then snd (patch_setup_cmdline_for_agent rt j tree)
          else Ok (hooked, tree))"

definition keep_startnet :: "injection \<Rightarrow> image_files \<Rightarrow> (inject_error, image_files) outcome" where
  "keep_startnet j tree =
     (case tree startnet_cmd of
        None \<Rightarrow> Ok tree
      | Some s \<Rightarrow>
          if tree original_startnet \<noteq> None then Ok tree
          else and_then (attempt_io j Move startnet_cmd) (\<lambda>_.
            Ok (tree(startnet_cmd := None, original_startnet \<mapsto> s))))"

definition populate_mount ::
  "registry_tool \<Rightarrow> injection \<Rightarrow> string \<Rightarrow> image_files \<Rightarrow> (inject_error, image_files) outcome" where
  "populate_mount rt j agent tree =
     and_then (install_agent j agent tree) (\<lambda>tree.
     and_then (hook_windows rt j tree) (\<lambda>(hooked, tree).
     and_then (enable_hook j hooked tree) (\<lambda>tree.
     and_then (keep_startnet j tree) (\<lambda>tree.
     put_file j startnet_cmd easydeploymesh_startnet tree))))"

text \<open>
  The imaging tool: the status of a mount, a commit, a discard and of the removal of
  the mount's directory; whether a mount that failed is left behind; the header that
  a commit writes; and what a commit that failed leaves of the image, and whether
  it is still mounted.
\<close>

record imaging_tool =
  im_mount :: bool
  im_half_mounted :: bool
  im_commit :: bool
  im_committed_header :: "image_files \<Rightarrow> bytes \<Rightarrow> bytes"
  im_failed_commit :: "image_files \<Rightarrow> wim_image \<Rightarrow> wim_image \<times> bool"
  im_discard :: bool
  im_cleanup :: bool

record mount_host =
  mt_image :: wim_image
  mt_mounted :: bool
  mt_dir :: bool

definition idle :: "wim_image \<Rightarrow> mount_host" where
  "idle w = \<lparr> mt_image = w, mt_mounted = False, mt_dir = False \<rparr>"

definition mount_image :: "imaging_tool \<Rightarrow> mount_host \<Rightarrow> (inject_error, unit) outcome \<times> mount_host" where
  "mount_image im h =
     (if im_mount im then (Ok (), h \<lparr> mt_mounted := True \<rparr>)
      else (Err Tool_Failed, h \<lparr> mt_mounted := im_half_mounted im \<rparr>))"

definition commit_image ::
  "imaging_tool \<Rightarrow> image_files \<Rightarrow> mount_host \<Rightarrow> (inject_error, unit) outcome \<times> mount_host" where
  "commit_image im tree h =
     (if im_commit im
      then (Ok (), h \<lparr> mt_mounted := False, mt_image :=
        \<lparr> wi_header = im_committed_header im tree (wi_header (mt_image h)), wi_files = tree \<rparr> \<rparr>)
      else
        (let (left, mounted) = im_failed_commit im tree (mt_image h) in
         (Err Tool_Failed, h \<lparr> mt_image := left, mt_mounted := mounted \<rparr>)))"

text \<open>Discarding leaves the image file as it is; its status is not looked at.\<close>

definition discard_image :: "imaging_tool \<Rightarrow> mount_host \<Rightarrow> mount_host" where
  "discard_image im h = h \<lparr> mt_mounted := mt_mounted h \<and> \<not> im_discard im \<rparr>"

definition remove_mount_dir :: "imaging_tool \<Rightarrow> mount_host \<Rightarrow> mount_host" where
  "remove_mount_dir im h = h \<lparr> mt_dir := mt_dir h \<and> \<not> im_cleanup im \<rparr>"

text \<open>
  What both injections do around their edits: make the directory, mount, edit, commit;
  discard when any of it failed; remove the directory.  A panic unwinds past the last
  two.
\<close>

definition edit_mounted ::
  "imaging_tool \<Rightarrow> (image_files \<Rightarrow> (inject_error, image_files) outcome) \<Rightarrow> mount_host \<Rightarrow>
   (inject_error, unit) outcome \<times> mount_host" where
  "edit_mounted im edit h =
     then_do (mount_image im h) (\<lambda>_ h.
     then_do (edit (wi_files (mt_image h)), h) (\<lambda>tree h. commit_image im tree h))"

definition with_mount ::
  "imaging_tool \<Rightarrow> injection \<Rightarrow> (image_files \<Rightarrow> (inject_error, image_files) outcome) \<Rightarrow> mount_host \<Rightarrow>
   (inject_error, unit) outcome \<times> mount_host" where
  "with_mount im j edit h =
     then_do (attempt_io j Make mount_dir, h) (\<lambda>_ h.
       case edit_mounted im edit (h \<lparr> mt_dir := True \<rparr>) of
         (Ok u, h) \<Rightarrow> (Ok u, remove_mount_dir im h)
       | (Err e, h) \<Rightarrow> (Err e, remove_mount_dir im (discard_image im h))
       | (Panic, h) \<Rightarrow> (Panic, h))"

definition boot_index_of :: "wim_image \<Rightarrow> (inject_error, u32) outcome" where
  "boot_index_of w =
     (if length (wi_header w) < wim_boot_index_offset + 4 then Err Inject_Io
      else ok_or (wim_boot_index_from_header (wi_header w)) No_Boot_Index)"

text \<open>
  \<open>inject_agent_into_winpe\<close> on Windows, on the host and as what becomes of the image
  file.
\<close>

definition inject_mounted ::
  "imaging_tool \<Rightarrow> registry_tool \<Rightarrow> injection \<Rightarrow> mount_host \<Rightarrow> (inject_error, unit) outcome \<times> mount_host" where
  "inject_mounted im rt j h =
     then_do (ok_or (in_agent j) Missing_File, h) (\<lambda>agent h.
     then_do (boot_index_of (mt_image h), h) (\<lambda>_ h.
     with_mount im j (populate_mount rt j agent) h))"

definition inject_windows ::
  "imaging_tool \<Rightarrow> registry_tool \<Rightarrow> injection \<Rightarrow> wim_image \<Rightarrow> wim_image \<times> (inject_error, unit) outcome" where
  "inject_windows im rt j w = (let (r, h) = inject_mounted im rt j (idle w) in (mt_image h, r))"

section \<open>On macOS\<close>

text \<open>
  The imaging library: which files it extracts, the header of the image after the
  tree was laid over it, and whether the two renames of the swap and the one that
  undoes the first succeed.
\<close>

record imaging_library =
  il_extracts :: "string \<Rightarrow> bool"
  il_added :: "bytes option"
  il_moves_old :: bool
  il_moves_new :: bool
  il_restores :: bool

definition extracted :: "imaging_library \<Rightarrow> image_files \<Rightarrow> string \<Rightarrow> string option" where
  "extracted il files p = (if il_extracts il p then files p else None)"

definition hook_hive ::
  "'h regf \<Rightarrow> injection \<Rightarrow> string \<Rightarrow> image_files \<Rightarrow> (inject_error, bool \<times> image_files) outcome" where
  "hook_hive rg j hive tree =
     and_then (attempt_io j Get system_hive) (\<lambda>_.
     and_then (map_err Bad_Hive (replace_setup_cmdline rg (text_bytes hive))) (\<lambda>(original, patched).
     and_then (save_script j
       (if eq_ignore_case original agent_shell then None else Some (script_header @ original @ crlf)) tree) (\<lambda>tree.
     and_then (attempt_io j Make system_hive) (\<lambda>_.
     map_ok (\<lambda>tree. (True, tree)) (put_file j system_hive (bytes_text patched) tree)))))"

definition hook_tree ::
  "'h regf \<Rightarrow> imaging_library \<Rightarrow> injection \<Rightarrow> image_files \<Rightarrow> image_files \<Rightarrow> (inject_error, bool \<times> image_files) outcome" where
  "hook_tree rg il j files tree =
     and_then
       (case extracted il files winpeshl_ini of
          None \<Rightarrow> Ok (False, tree)
        | Some ini \<Rightarrow> and_then (attempt_io j Get winpeshl_ini) (\<lambda>_. hook_winpeshl j ini tree))
       (\<lambda>(hooked, tree).
          if hooked then Ok (hooked, tree)
          else (case extracted il files system_hive of
                  None \<Rightarrow> Ok (False, tree)
                | Some hive \<Rightarrow> hook_hive rg j hive tree))"

definition populate_tree ::
  "'h regf \<Rightarrow> imaging_library \<Rightarrow> injection \<Rightarrow> string \<Rightarrow> image_files \<Rightarrow> (inject_error, image_files) outcome" where
  "populate_tree rg il j agent files =
     and_then (install_agent j agent Map.empty) (\<lambda>tree.
     and_then (attempt_io j Make system_dir) (\<lambda>_.
     and_then (attempt_io j Make inspection_dir) (\<lambda>_.
     and_then (hook_tree rg il j files tree) (\<lambda>(hooked, tree).
     and_then (enable_hook j hooked tree) (\<lambda>tree.
     and_then (case extracted il files startnet_cmd of
         None \<Rightarrow> Ok tree
       | Some s \<Rightarrow> put_file j original_startnet s tree) (\<lambda>tree.
     and_then (put_file j startnet_cmd easydeploymesh_startnet tree) (\<lambda>tree.
     and_then (attempt_io j Drop inspection_dir) (\<lambda>_. Ok tree))))))))"

text \<open>
  \<open>mutate_wim_with_tree\<close>: the tree is laid over a copy, and the copy takes the
  image's place.  \<open>None\<close> is an image that is gone.
\<close>

definition mutate_wim_with_tree ::
  "imaging_library \<Rightarrow> injection \<Rightarrow> (inject_error, image_files) outcome \<Rightarrow> wim_image \<Rightarrow>
   wim_image option \<times> (inject_error, unit) outcome" where
  "mutate_wim_with_tree il j populated w =
     (case
        and_then (boot_index_of w) (\<lambda>index.
        and_then (attempt_io j Make mount_dir) (\<lambda>_.
        and_then (attempt_io j Put mount_dir) (\<lambda>_.
        and_then populated (\<lambda>tree.
        and_then (ok_or (il_added il) Tool_Failed) (\<lambda>header.
        and_then (ensure (wim_boot_index_from_header header = Some index) Broken_Image) (\<lambda>_.
        Ok \<lparr> wi_header = header, wi_files = wi_files w ++ tree \<rparr>)))))) of
        Err e \<Rightarrow> (Some w, Err e)
      | Panic \<Rightarrow> (Some w, Panic)
      | Ok new \<Rightarrow>
          if \<not> il_moves_old il then (Some w, Err Inject_Io)
          else if il_moves_new il then (Some new, Ok ())
          else (if il_restores il then Some w else None, Err Inject_Io))"

definition inject_macos ::
  "'h regf \<Rightarrow> imaging_library \<Rightarrow> injection \<Rightarrow> wim_image \<Rightarrow> wim_image option \<times> (inject_error, unit) outcome" where
  "inject_macos rg il j w =
     (case in_agent j of
        None \<Rightarrow> (Some w, Err Missing_File)
      | Some agent \<Rightarrow> mutate_wim_with_tree il j (populate_tree rg il j agent (wi_files w)) w)"

section \<open>The bootstrap\<close>

text \<open>\<open>inject_bootstrap_into_winpe\<close>: the configuration of the control plane and the collector, in the same two ways.\<close>

definition bootstrap_json :: string where "bootstrap_json = ''EasyDeployMesh/easydeploymesh-bootstrap.json''"

definition bootstrap_tree :: "injection \<Rightarrow> string \<Rightarrow> image_files \<Rightarrow> (inject_error, image_files) outcome" where
  "bootstrap_tree j bootstrap tree =
     and_then (attempt_io j Make edm_dir) (\<lambda>_.
     and_then (put_file j bootstrap_json bootstrap tree) (put_file j collector_cmd (in_collector j)))"

definition inject_bootstrap_mounted ::
  "imaging_tool \<Rightarrow> injection \<Rightarrow> string \<Rightarrow> mount_host \<Rightarrow> (inject_error, unit) outcome \<times> mount_host" where
  "inject_bootstrap_mounted im j bootstrap h =
     then_do (boot_index_of (mt_image h), h) (\<lambda>_ h. with_mount im j (bootstrap_tree j bootstrap) h)"

definition inject_bootstrap_windows ::
  "imaging_tool \<Rightarrow> injection \<Rightarrow> string \<Rightarrow> wim_image \<Rightarrow> wim_image \<times> (inject_error, unit) outcome" where
  "inject_bootstrap_windows im j bootstrap w =
     (let (r, h) = inject_bootstrap_mounted im j bootstrap (idle w) in (mt_image h, r))"

definition inject_bootstrap_macos ::
  "imaging_library \<Rightarrow> injection \<Rightarrow> string \<Rightarrow> wim_image \<Rightarrow> wim_image option \<times> (inject_error, unit) outcome" where
  "inject_bootstrap_macos il j bootstrap w = mutate_wim_with_tree il j (bootstrap_tree j bootstrap Map.empty) w"

section \<open>What each step leaves\<close>

definition same_outside :: "string set \<Rightarrow> image_files \<Rightarrow> image_files \<Rightarrow> bool" where
  "same_outside S t t' = (\<forall>p. p \<notin> S \<longrightarrow> t' p = t p)"

lemma same_outside_refl [simp]: "same_outside S t t"
  by (simp add: same_outside_def)

lemma same_outside_trans: "same_outside S t u \<Longrightarrow> same_outside S' u v \<Longrightarrow> same_outside (S \<union> S') t v"
  by (simp add: same_outside_def)

lemma same_outside_at: "same_outside S t t' \<Longrightarrow> p \<notin> S \<Longrightarrow> t' p = t p"
  by (simp add: same_outside_def)

lemma attempt_io_Ok [simp]: "attempt_io j a p = Ok u \<longleftrightarrow> \<not> in_refuses j a p"
  by (simp add: attempt_io_def)

lemma put_file_Ok: "put_file j p c t = Ok t' \<longleftrightarrow> \<not> in_refuses j Put p \<and> t' = t(p \<mapsto> c)"
  by (auto simp: put_file_def)

lemma save_script_Ok: "save_script j s t = Ok t' \<Longrightarrow> t' = (case s of None \<Rightarrow> t | Some c \<Rightarrow> t(original_shell \<mapsto> c))"
  by (auto simp: save_script_def put_file_Ok split: option.splits)

definition payload_paths :: "string set" where "payload_paths = {p. starts_with payload_dir p}"

definition fixed_paths :: "string list" where
  "fixed_paths = [agent_exe, shell_exe, collector_cmd, original_shell, shell_hook, winpeshl_ini, system_hive, startnet_cmd,
     original_startnet]"

lemma path_distinct: "distinct fixed_paths" "distinct (rev fixed_paths)" "set fixed_paths \<inter> payload_paths = {}"
proof -
  show "distinct fixed_paths" by (simp add: fixed_paths_def image_paths)
  then show "distinct (rev fixed_paths)" by simp
  show "set fixed_paths \<inter> payload_paths = {}"
    by (simp add: fixed_paths_def image_paths payload_paths_def payload_dir_def starts_with_def)
qed

lemmas path_facts = path_distinct(1) [unfolded fixed_paths_def, simplified]
  path_distinct(2) [unfolded fixed_paths_def rev.simps append.simps, simplified]
  path_distinct(3) [unfolded fixed_paths_def, simplified]

lemma payload_copied: "copy_payload_files j ps t = Ok t' \<Longrightarrow> same_outside payload_paths t t'"
proof (induction j ps t rule: copy_payload_files.induct)
  case (3 j rel c ps t)
  then show ?case
    by (auto simp: outcome_simps put_file_Ok same_outside_def payload_paths_def starts_with_iff)
qed simp_all

lemma install_agent_Ok:
  assumes "install_agent j agent t = Ok t'"
  shows "t' agent_exe = Some agent" "t' shell_exe = Some agent" "t' collector_cmd = Some (in_collector j)"
    "same_outside ({agent_exe, shell_exe, collector_cmd} \<union> payload_paths) t t'"
proof -
  from assms have s: "same_outside payload_paths (t(agent_exe \<mapsto> agent, shell_exe \<mapsto> agent, collector_cmd \<mapsto> in_collector j)) t'"
    by (auto simp: install_agent_def copy_winpe_media_payload_def put_file_Ok outcome_simps payload_copied split: option.splits)
  show "t' agent_exe = Some agent" "t' shell_exe = Some agent" "t' collector_cmd = Some (in_collector j)"
    using same_outside_at [OF s] path_facts by simp_all
  show "same_outside ({agent_exe, shell_exe, collector_cmd} \<union> payload_paths) t t'"
    using s by (auto simp: same_outside_def)
qed

lemma hook_winpeshl_Ok:
  assumes "hook_winpeshl j ini t = Ok (h, t')"
  shows "\<exists>p. patch_winpeshl_for_agent ini = Ok p \<and> h \<and>
    t' = (case pw_original_shell_script p of None \<Rightarrow> t(winpeshl_ini \<mapsto> pw_ini p)
      | Some c \<Rightarrow> t(winpeshl_ini \<mapsto> pw_ini p, original_shell \<mapsto> c))"
  using assms by (auto simp: hook_winpeshl_def outcome_simps put_file_Ok dest!: save_script_Ok)

lemma hook_winpeshl_same: "hook_winpeshl j ini t = Ok (h, t') \<Longrightarrow> same_outside {winpeshl_ini, original_shell} t t'"
  by (drule hook_winpeshl_Ok) (auto simp: same_outside_def split: option.splits)

lemma edit_setup_same: "snd (edit_setup rt j t) = Ok (h, t') \<Longrightarrow> same_outside {original_shell, system_hive} t t'"
  by (auto simp: edit_setup_def put_file_Ok same_outside_def split: option.splits prod.splits outcome.splits if_splits)

lemma setup_same:
  "snd (patch_setup_cmdline_for_agent rt j t) = Ok (h, t') \<Longrightarrow> same_outside {original_shell, system_hive} t t'"
  using edit_setup_same [of rt j t]
  by (auto simp: patch_setup_cmdline_for_agent_def outcome_simps split: prod.splits if_splits)

lemma hook_windows_same:
  assumes "hook_windows rt j t = Ok (h, t')"
  shows "same_outside {winpeshl_ini, original_shell, system_hive} t t'"
proof -
  from assms obtain h1 t1 where
    a: "(case t winpeshl_ini of None \<Rightarrow> Ok (False, t)
      | Some ini \<Rightarrow> and_then (attempt_io j Get winpeshl_ini) (\<lambda>_. hook_winpeshl j ini t)) = Ok (h1, t1)" and
    b: "(if should_patch_setup_cmdline h1 then snd (patch_setup_cmdline_for_agent rt j t1) else Ok (h1, t1)) = Ok (h, t')"
    by (auto simp: hook_windows_def outcome_simps)
  have "same_outside {winpeshl_ini, original_shell} t t1"
    using a by (auto simp: outcome_simps split: option.splits dest: hook_winpeshl_same)
  moreover have "same_outside {original_shell, system_hive} t1 t'"
    using b by (auto split: if_splits dest: setup_same)
  ultimately show ?thesis by (auto simp: same_outside_def)
qed

lemma keep_startnet_Ok:
  assumes "keep_startnet j t = Ok t'"
  shows "t' original_startnet = (case t original_startnet of None \<Rightarrow> t startnet_cmd | Some s \<Rightarrow> Some s)"
    "same_outside {startnet_cmd, original_startnet} t t'"
  using assms path_facts
  by (auto simp: keep_startnet_def outcome_simps same_outside_def split: option.splits if_splits)

definition managed_paths :: "string set" where
  "managed_paths = set fixed_paths \<union> payload_paths"

definition installed :: "string \<Rightarrow> string \<Rightarrow> image_files \<Rightarrow> bool" where
  "installed agent collector files =
     (files agent_exe = Some agent \<and> files shell_exe = Some agent \<and> files collector_cmd = Some collector \<and>
      files startnet_cmd = Some easydeploymesh_startnet)"

lemma populate_mount_Ok:
  assumes "populate_mount rt j agent t = Ok t'"
  shows "installed agent (in_collector j) t'" "same_outside managed_paths t t'"
    "t' original_startnet = (case t original_startnet of None \<Rightarrow> t startnet_cmd | Some s \<Rightarrow> Some s)"
proof -
  from assms obtain t1 h t2 t3 t4 where s: "install_agent j agent t = Ok t1" "hook_windows rt j t1 = Ok (h, t2)"
    "enable_hook j h t2 = Ok t3" "keep_startnet j t3 = Ok t4" "t' = t4(startnet_cmd \<mapsto> easydeploymesh_startnet)"
    by (auto simp: populate_mount_def outcome_simps put_file_Ok)
  note i = install_agent_Ok [OF s(1)] and h = hook_windows_same [OF s(2)] and k = keep_startnet_Ok [OF s(4)]
  have e: "same_outside {shell_hook} t2 t3"
    using s(3) by (auto simp: enable_hook_def put_file_Ok same_outside_def split: if_splits)
  have at: "t3 p = t1 p" if "p \<notin> {shell_hook, winpeshl_ini, original_shell, system_hive}" for p
    using same_outside_at [OF e, of p] same_outside_at [OF h, of p] that by simp
  show "installed agent (in_collector j) t'"
    using i(1-3) at same_outside_at [OF k(2)] path_facts by (simp add: installed_def s(5))
  show "same_outside managed_paths t t'"
    using i(4) h e k(2) by (simp add: s(5) same_outside_def managed_paths_def fixed_paths_def)
  show "t' original_startnet = (case t original_startnet of None \<Rightarrow> t startnet_cmd | Some s \<Rightarrow> Some s)"
    using k(1) at same_outside_at [OF i(4)] path_facts by (simp add: s(5) split: option.split)
qed

text \<open>What an injection in the mount leaves of the host, whatever its edits are.\<close>

definition tidied :: "imaging_tool \<Rightarrow> mount_host \<Rightarrow> bool" where
  "tidied im h = ((mt_mounted h \<longrightarrow> \<not> im_discard im) \<and> (mt_dir h \<longrightarrow> \<not> im_cleanup im))"

lemma with_mount_cases:
  assumes "with_mount im j edit h = (r, h')" "\<not> mt_mounted h" "\<not> mt_dir h"
  obtains (finished) tree where "r = Ok ()" "edit (wi_files (mt_image h)) = Ok tree" "wi_files (mt_image h') = tree"
      "\<not> mt_mounted h'" "tidied im h'"
    | (uncommitted) e tree where "r = Err e" "edit (wi_files (mt_image h)) = Ok tree" "\<not> im_commit im"
      "mt_image h' = fst (im_failed_commit im tree (mt_image h))" "tidied im h'"
    | (untouched) e where "r = Err e" "mt_image h' = mt_image h" "tidied im h'"
    | (panicked) "r = Panic" "edit (wi_files (mt_image h)) = Panic"
proof (cases "attempt_io j Make mount_dir")
  case (Ok u)
  let ?h = "h \<lparr> mt_dir := True \<rparr>"
  show thesis
  proof (cases "im_mount im")
    case False
    with assms Ok show thesis
      by (intro untouched)
        (auto simp: with_mount_def edit_mounted_def mount_image_def discard_image_def remove_mount_dir_def tidied_def)
  next
    case True
    show thesis
    proof (cases "edit (wi_files (mt_image h))")
      case e: (Ok tree)
      show thesis
      proof (cases "im_commit im")
        case c: True
        with assms Ok True e show thesis
          by (intro finished [of tree])
            (auto simp: with_mount_def edit_mounted_def mount_image_def commit_image_def remove_mount_dir_def tidied_def)
      next
        case c: False
        with assms Ok True e show thesis
          by (intro uncommitted [of Tool_Failed tree])
            (auto simp: with_mount_def edit_mounted_def mount_image_def commit_image_def discard_image_def
              remove_mount_dir_def tidied_def split_beta Let_def)
      qed
    next
      case (Err e)
      with assms Ok True show thesis
        by (intro untouched [of e])
          (auto simp: with_mount_def edit_mounted_def mount_image_def discard_image_def remove_mount_dir_def tidied_def)
    next
      case Panic
      with assms Ok True show thesis
        by (intro panicked) (auto simp: with_mount_def edit_mounted_def mount_image_def)
    qed
  qed
next
  case (Err e)
  with assms show thesis by (intro untouched [of e]) (auto simp: with_mount_def tidied_def)
next
  case Panic
  then show thesis by (simp add: attempt_io_def split: if_splits)
qed

lemma populate_mount_no_panic: "populate_mount rt j agent t \<noteq> Panic"
proof -
  have "copy_payload_files j ps t \<noteq> Panic" for ps t
    by (induction j ps t rule: copy_payload_files.induct)
      (auto simp: outcome_simps attempt_io_def put_file_def split: if_splits)
  then have "install_agent j agent t \<noteq> Panic"
    by (auto simp: install_agent_def copy_winpe_media_payload_def attempt_io_def put_file_def outcome_simps
        split: option.splits if_splits)
  moreover have "hook_winpeshl j ini t \<noteq> Panic" for ini t
    by (auto simp: hook_winpeshl_def save_script_def put_file_def outcome_simps shell_patch_never_panics
        split: option.splits if_splits)
  moreover have "snd (edit_setup rt j t) \<noteq> Panic" for t
    by (auto simp: edit_setup_def put_file_def split: option.splits prod.splits outcome.splits if_splits)
  then have "snd (patch_setup_cmdline_for_agent rt j t) \<noteq> Panic" for t
    by (auto simp: patch_setup_cmdline_for_agent_def outcome_simps split: prod.splits if_splits)
      (metis snd_conv)
  ultimately show ?thesis
    by (auto simp: populate_mount_def hook_windows_def enable_hook_def keep_startnet_def attempt_io_def put_file_def
        outcome_simps split: option.splits if_splits)
qed

text \<open>
  C20. Injecting the agent into an image on Windows is atomic as far as the imaging
  tool is.  When it succeeds the image holds the agent, its shell, the collector and
  the start script, keeps the vendor's start script beside it, differs from the old
  one in the managed files and the payload directory only, and is no longer mounted.
  When it fails the image file is untouched, unless the commit itself failed, which
  leaves what the tool leaves; it stays mounted only if the discard failed, and the
  directory of the mount stays only if its removal failed.  It does not panic.
\<close>

theorem windows_injection_is_atomic:
  "case inject_mounted im rt j (idle w) of
     (Ok u, h) \<Rightarrow> (\<exists>agent. in_agent j = Some agent \<and> installed agent (in_collector j) (wi_files (mt_image h))) \<and>
       {p. wi_files (mt_image h) p \<noteq> wi_files w p} \<subseteq> managed_paths \<and>
       wi_files (mt_image h) original_startnet =
         (case wi_files w original_startnet of None \<Rightarrow> wi_files w startnet_cmd | Some s \<Rightarrow> Some s) \<and>
       \<not> mt_mounted h \<and> (mt_dir h \<longrightarrow> \<not> im_cleanup im)
   | (Err e, h) \<Rightarrow>
       (mt_image h = w \<or>
        \<not> im_commit im \<and> (\<exists>agent tree. populate_mount rt j agent (wi_files w) = Ok tree \<and>
          mt_image h = fst (im_failed_commit im tree w))) \<and>
       (mt_mounted h \<longrightarrow> \<not> im_discard im) \<and> (mt_dir h \<longrightarrow> \<not> im_cleanup im)
   | (Panic, h) \<Rightarrow> False"
proof (cases "in_agent j")
  case None
  then show ?thesis by (simp add: inject_mounted_def idle_def)
next
  case (Some agent)
  show ?thesis
  proof (cases "boot_index_of w")
    case (Ok index)
    obtain r h where m: "with_mount im j (populate_mount rt j agent) (idle w) = (r, h)" by fastforce
    have i: "inject_mounted im rt j (idle w) = (r, h)"
      using Some Ok m by (simp add: inject_mounted_def idle_def)
    have start: "\<not> mt_mounted (idle w)" "\<not> mt_dir (idle w)" "mt_image (idle w) = w" by (simp_all add: idle_def)
    from m start(1,2) show ?thesis
    proof (cases rule: with_mount_cases)
      case (finished tree)
      with populate_mount_Ok [of rt j agent "wi_files w" tree] Some start(3) i show ?thesis
        by (auto simp: tidied_def same_outside_def)
    qed (use i start(3) populate_mount_no_panic [of rt j agent] in \<open>auto simp: tidied_def\<close>)
  next
    case (Err e)
    with Some show ?thesis by (simp add: inject_mounted_def idle_def)
  next
    case Panic
    then show ?thesis by (auto simp: boot_index_of_def outcome_simps split: if_splits)
  qed
qed

text \<open>
  The registry hive a load took is unloaded by every path, and the vendor's command
  is saved before the value is replaced.
\<close>

lemma loaded_hive_is_unloaded:
  assumes "rt_load rt"
  shows "case fst (patch_setup_cmdline_for_agent rt j t) of
      [] \<Rightarrow> t system_hive = None
    | s # steps \<Rightarrow> s = Load_Hive \<and> last steps = Unload_Hive \<and>
        (Add_Value \<in> set steps \<longrightarrow> Save_Script \<in> set (takeWhile (\<lambda>s. s \<noteq> Add_Value) steps))"
proof -
  have "fst (edit_setup rt j t) \<in> {[Query_Value], [Query_Value, Save_Script], [Query_Value, Save_Script, Add_Value]}"
    by (auto simp: edit_setup_def split: option.splits prod.splits outcome.splits)
  with assms show ?thesis
    by (auto simp: patch_setup_cmdline_for_agent_def split: prod.splits)
qed

section \<open>Refreshing an image on Windows\<close>

lemma populate_mount_shell:
  assumes "populate_mount rt j agent t = Ok t'" "t winpeshl_ini = Some ini"
  shows "\<exists>p. patch_winpeshl_for_agent ini = Ok p \<and> t' winpeshl_ini = Some (pw_ini p) \<and>
    t' original_shell = (case pw_original_shell_script p of None \<Rightarrow> t original_shell | Some c \<Rightarrow> Some c)"
proof -
  from assms(1) obtain t1 h t2 t3 t4 where s: "install_agent j agent t = Ok t1" "hook_windows rt j t1 = Ok (h, t2)"
    "enable_hook j h t2 = Ok t3" "keep_startnet j t3 = Ok t4" "t' = t4(startnet_cmd \<mapsto> easydeploymesh_startnet)"
    by (auto simp: populate_mount_def outcome_simps put_file_Ok)
  have t1: "t1 winpeshl_ini = Some ini" "t1 original_shell = t original_shell"
    using same_outside_at [OF install_agent_Ok(4) [OF s(1)]] assms(2) path_facts by simp_all
  with s(2) obtain h1 t2' where b: "hook_winpeshl j ini t1 = Ok (h1, t2')"
    "(if should_patch_setup_cmdline h1 then snd (patch_setup_cmdline_for_agent rt j t2') else Ok (h1, t2')) = Ok (h, t2)"
    by (auto simp: hook_windows_def outcome_simps)
  from hook_winpeshl_Ok [OF b(1)] obtain p where p: "patch_winpeshl_for_agent ini = Ok p" "h1"
    "t2' = (case pw_original_shell_script p of None \<Rightarrow> t1(winpeshl_ini \<mapsto> pw_ini p)
      | Some c \<Rightarrow> t1(winpeshl_ini \<mapsto> pw_ini p, original_shell \<mapsto> c))" by blast
  with b(2) have t2: "t2 = t2'" by (simp add: should_patch_setup_cmdline_def)
  have "same_outside {shell_hook} t2 t3"
    using s(3) by (auto simp: enable_hook_def put_file_Ok same_outside_def split: if_splits)
  then have "t' winpeshl_ini = t2 winpeshl_ini" "t' original_shell = t2 original_shell"
    using same_outside_at [OF keep_startnet_Ok(2) [OF s(4)]] same_outside_at [of "{shell_hook}" t2 t3] path_facts
    by (simp_all add: s(5))
  then show ?thesis using p t1 path_facts unfolding t2 by (auto split: option.splits)
qed

lemma injected_populates:
  "inject_windows im rt j w = (w', Ok u) \<Longrightarrow>
     \<exists>agent. in_agent j = Some agent \<and> populate_mount rt j agent (wi_files w) = Ok (wi_files w')"
  by (cases "in_agent j"; cases "boot_index_of w")
    (auto simp: inject_windows_def inject_mounted_def idle_def split: prod.splits elim: with_mount_cases)

text \<open>
  C21. Refreshing an image on Windows - a second injection, with whatever agent - keeps
  what the first one kept of the vendor's: the original start script, the script
  with the original shell command, and the patched shell configuration, provided the
  image had a start script and its configuration no unfinished header.
\<close>

theorem refresh_keeps_vendor_startup:
  assumes "inject_windows im rt j w = (w1, Ok ())" "inject_windows im' rt' j' w1 = (w2, Ok ())"
    and "wi_files w winpeshl_ini = Some ini" "wi_files w startnet_cmd = Some vendor"
    and "\<forall>l \<in> set (source_lines ini). launch_apps l \<longrightarrow> last l = newline"
  shows "wi_files w2 original_startnet = wi_files w1 original_startnet \<and>
    wi_files w2 original_shell = wi_files w1 original_shell \<and> wi_files w2 winpeshl_ini = wi_files w1 winpeshl_ini"
proof -
  from assms(1,2) injected_populates obtain a1 a2 where
    p1: "populate_mount rt j a1 (wi_files w) = Ok (wi_files w1)" and
    p2: "populate_mount rt' j' a2 (wi_files w1) = Ok (wi_files w2)" by blast
  have "wi_files w1 original_startnet \<noteq> None"
    using populate_mount_Ok(3) [OF p1] assms(4) by (auto split: option.splits)
  then have "wi_files w2 original_startnet = wi_files w1 original_startnet"
    using populate_mount_Ok(3) [OF p2] by (auto split: option.splits)
  moreover from populate_mount_shell [OF p1 assms(3)] obtain p where p:
    "patch_winpeshl_for_agent ini = Ok p" "wi_files w1 winpeshl_ini = Some (pw_ini p)" by blast
  from populate_mount_shell [OF p2 p(2)] shell_patch_twice [OF p(1) assms(5)]
  have "wi_files w2 winpeshl_ini = wi_files w1 winpeshl_ini" "wi_files w2 original_shell = wi_files w1 original_shell"
    using p(2) by auto
  ultimately show ?thesis by blast
qed

text \<open>
  Without a start script of the vendor's, the refresh saves the one of the first
  injection, which then calls itself.
\<close>

lemma refresh_saves_its_own_startnet:
  assumes "inject_windows im rt j w = (w1, Ok ())" "inject_windows im' rt' j' w1 = (w2, Ok ())"
    and "wi_files w startnet_cmd = None" "wi_files w original_startnet = None"
  shows "wi_files w2 original_startnet = Some easydeploymesh_startnet"
proof -
  from assms(1,2) injected_populates obtain a1 a2 where
    p1: "populate_mount rt j a1 (wi_files w) = Ok (wi_files w1)" and
    p2: "populate_mount rt' j' a2 (wi_files w1) = Ok (wi_files w2)" by blast
  have "wi_files w1 original_startnet = None" "wi_files w1 startnet_cmd = Some easydeploymesh_startnet"
    using populate_mount_Ok [OF p1] assms(3,4) by (simp_all add: installed_def)
  then show ?thesis using populate_mount_Ok(3) [OF p2] by simp
qed

section \<open>Injection on macOS\<close>

lemma hook_hive_same: "hook_hive rg j hive t = Ok (h, t') \<Longrightarrow> same_outside {original_shell, system_hive} t t'"
  by (auto simp: hook_hive_def outcome_simps put_file_Ok same_outside_def split: if_splits option.splits dest!: save_script_Ok)

lemma hook_tree_same:
  assumes "hook_tree rg il j files t = Ok (h, t')"
  shows "same_outside {winpeshl_ini, original_shell, system_hive} t t'"
proof -
  from assms obtain h1 t1 where
    a: "(case extracted il files winpeshl_ini of None \<Rightarrow> Ok (False, t)
      | Some ini \<Rightarrow> and_then (attempt_io j Get winpeshl_ini) (\<lambda>_. hook_winpeshl j ini t)) = Ok (h1, t1)" and
    b: "(if h1 then Ok (h1, t1) else (case extracted il files system_hive of None \<Rightarrow> Ok (False, t1)
      | Some hive \<Rightarrow> hook_hive rg j hive t1)) = Ok (h, t')"
    by (auto simp: hook_tree_def outcome_simps)
  have "same_outside {winpeshl_ini, original_shell} t t1"
    using a by (auto simp: outcome_simps split: option.splits dest: hook_winpeshl_same)
  moreover have "same_outside {original_shell, system_hive} t1 t'"
    using b by (auto split: option.splits if_splits dest: hook_hive_same)
  ultimately show ?thesis by (auto simp: same_outside_def)
qed

lemma populate_tree_Ok:
  assumes "populate_tree rg il j agent files = Ok t'"
  shows "installed agent (in_collector j) t'" "same_outside managed_paths Map.empty t'"
    "t' original_startnet = extracted il files startnet_cmd"
proof -
  from assms obtain t1 h t2 t3 t4 where s: "install_agent j agent Map.empty = Ok t1" "hook_tree rg il j files t1 = Ok (h, t2)"
    "enable_hook j h t2 = Ok t3"
    "t4 = (case extracted il files startnet_cmd of None \<Rightarrow> t3 | Some s \<Rightarrow> t3(original_startnet \<mapsto> s))"
    "t' = t4(startnet_cmd \<mapsto> easydeploymesh_startnet)"
    by (auto simp: populate_tree_def outcome_simps put_file_Ok split: option.splits)
  note i = install_agent_Ok [OF s(1)] and h = hook_tree_same [OF s(2)]
  have e: "same_outside {shell_hook} t2 t3"
    using s(3) by (auto simp: enable_hook_def put_file_Ok same_outside_def split: if_splits)
  have at: "t3 p = t1 p" if "p \<notin> {shell_hook, winpeshl_ini, original_shell, system_hive}" for p
    using same_outside_at [OF e, of p] same_outside_at [OF h, of p] that by simp
  have k: "same_outside {original_startnet} t3 t4" by (auto simp: s(4) same_outside_def split: option.split)
  show "installed agent (in_collector j) t'"
    using i(1-3) at same_outside_at [OF k] path_facts by (simp add: installed_def s(5))
  show "same_outside managed_paths Map.empty t'"
    using i(4) h e k by (simp add: s(5) same_outside_def managed_paths_def fixed_paths_def)
  have "t3 original_startnet = None" using at [of original_startnet] same_outside_at [OF i(4), of original_startnet] path_facts by simp
  then show "t' original_startnet = extracted il files startnet_cmd"
    using path_facts by (simp add: s(4,5) split: option.split)
qed

lemma mutate_cases:
  "case mutate_wim_with_tree il j populated w of
     (Some w', Ok u) \<Rightarrow> (\<exists>t. populated = Ok t \<and> wi_files w' = wi_files w ++ t) \<and>
       wim_boot_index_from_header (wi_header w') = wim_boot_index_from_header (wi_header w)
   | (Some w', failed) \<Rightarrow> w' = w
   | (None, failed) \<Rightarrow> \<not> is_ok failed \<and> il_moves_old il \<and> \<not> il_moves_new il \<and> \<not> il_restores il"
  by (auto simp: mutate_wim_with_tree_def boot_index_of_def outcome_simps split: outcome.splits option.splits if_splits)

lemma mutate_done:
  "mutate_wim_with_tree il j populated w = (Some w', Ok u) \<Longrightarrow> \<exists>t. populated = Ok t \<and> wi_files w' = wi_files w ++ t"
  using mutate_cases [where il = il and j = j and populated = populated and w = w] by simp

text \<open>
  Injecting the agent on macOS leaves the image as it was or replaces it by one
  that boots the same entry, holds the agent, its shell, the collector and the start
  script and differs in the managed files and the payload directory only; it is gone
  only where the rename that takes its place and the one that restores it both fail.
\<close>

theorem macos_injection_replaces_or_keeps:
  "case inject_macos rg il j w of
     (Some w', Ok u) \<Rightarrow> (\<exists>agent. in_agent j = Some agent \<and> installed agent (in_collector j) (wi_files w')) \<and>
       wim_boot_index_from_header (wi_header w') = wim_boot_index_from_header (wi_header w) \<and>
       {p. wi_files w' p \<noteq> wi_files w p} \<subseteq> managed_paths
   | (Some w', failed) \<Rightarrow> w' = w
   | (None, failed) \<Rightarrow> \<not> is_ok failed \<and> il_moves_old il \<and> \<not> il_moves_new il \<and> \<not> il_restores il"
proof (cases "in_agent j")
  case (Some agent)
  have over: "installed agent (in_collector j) (files ++ t)" "(files ++ t) p \<noteq> files p \<Longrightarrow> p \<in> managed_paths"
    if "populate_tree rg il j agent (wi_files w) = Ok t" for t files p
    using populate_tree_Ok [OF that] by (auto simp: installed_def same_outside_def map_add_def)
  show ?thesis
    using mutate_cases [where il = il and j = j and populated = "populate_tree rg il j agent (wi_files w)" and w = w] Some over
    by (auto simp: inject_macos_def split: prod.splits option.splits outcome.splits)
qed (simp add: inject_macos_def)

lemma macos_result:
  assumes "inject_macos rg il j w = (Some w', Ok u)"
  shows "\<exists>agent. installed agent (in_collector j) (wi_files w')"
    "wi_files w' original_startnet =
       (case extracted il (wi_files w) startnet_cmd of None \<Rightarrow> wi_files w original_startnet | Some s \<Rightarrow> Some s)"
proof -
  from assms obtain agent where "mutate_wim_with_tree il j (populate_tree rg il j agent (wi_files w)) w = (Some w', Ok u)"
    by (auto simp: inject_macos_def split: option.splits)
  from mutate_done [OF this] obtain t where t: "populate_tree rg il j agent (wi_files w) = Ok t" "wi_files w' = wi_files w ++ t"
    by blast
  note p = populate_tree_Ok [OF t(1)]
  show "\<exists>agent. installed agent (in_collector j) (wi_files w')" using p(1) by (auto simp: installed_def t(2))
  show "wi_files w' original_startnet =
       (case extracted il (wi_files w) startnet_cmd of None \<Rightarrow> wi_files w original_startnet | Some s \<Rightarrow> Some s)"
    using p(3) by (simp add: t(2) map_add_def)
qed

text \<open>
  C40. A refresh on macOS loses the vendor's start script: the script of the first
  injection is saved over it, and from then on calls itself.
\<close>

theorem macos_refresh_loses_vendor_startnet:
  assumes "inject_macos rg il j w = (Some w1, Ok ())" "inject_macos rg il' j' w1 = (Some w2, Ok ())" "il_extracts il' startnet_cmd"
  shows "wi_files w2 original_startnet = Some easydeploymesh_startnet \<and> wi_files w2 startnet_cmd = Some easydeploymesh_startnet"
proof -
  have start: "wi_files w1 startnet_cmd = Some easydeploymesh_startnet"
    using macos_result(1) [OF assms(1)] by (auto simp: installed_def)
  have "wi_files w2 startnet_cmd = Some easydeploymesh_startnet"
    using macos_result(1) [OF assms(2)] by (auto simp: installed_def)
  moreover have "wi_files w2 original_startnet = Some easydeploymesh_startnet"
    using macos_result(2) [OF assms(2)] start assms(3) by (simp add: extracted_def)
  ultimately show ?thesis by simp
qed

text \<open>The bootstrap replaces its file and the collector, and nothing else, or the image is as the tool leaves it.\<close>

lemma bootstrap_tree_Ok:
  "bootstrap_tree j bootstrap t = Ok t' \<Longrightarrow> t' = t(bootstrap_json \<mapsto> bootstrap, collector_cmd \<mapsto> in_collector j)"
  by (auto simp: bootstrap_tree_def outcome_simps put_file_Ok)

lemma bootstrap_windows_result:
  assumes "inject_bootstrap_windows im j bootstrap w = (w', r)"
  shows "case r of
      Ok u \<Rightarrow> wi_files w' = (wi_files w)(bootstrap_json \<mapsto> bootstrap, collector_cmd \<mapsto> in_collector j)
    | _ \<Rightarrow> w' = w \<or> \<not> im_commit im"
proof (cases "boot_index_of w")
  case (Ok index)
  obtain h where m: "with_mount im j (bootstrap_tree j bootstrap) (idle w) = (r, h)" "w' = mt_image h"
    using assms Ok by (auto simp: inject_bootstrap_windows_def inject_bootstrap_mounted_def idle_def split: prod.splits)
  have start: "\<not> mt_mounted (idle w)" "\<not> mt_dir (idle w)" "mt_image (idle w) = w" by (simp_all add: idle_def)
  have p: "bootstrap_tree j bootstrap t \<noteq> Panic" for t
    by (auto simp: bootstrap_tree_def attempt_io_def put_file_def outcome_simps split: if_splits)
  from m(1) start(1,2) show ?thesis
    by (cases rule: with_mount_cases) (use m(2) start(3) p bootstrap_tree_Ok in auto)
qed (use assms in \<open>auto simp: inject_bootstrap_windows_def inject_bootstrap_mounted_def idle_def\<close>)

lemma bootstrap_macos_result:
  assumes "inject_bootstrap_macos il j bootstrap w = (Some w', Ok u)"
  shows "wi_files w' = (wi_files w)(bootstrap_json \<mapsto> bootstrap, collector_cmd \<mapsto> in_collector j)"
proof -
  obtain t where t: "bootstrap_tree j bootstrap Map.empty = Ok t" "wi_files w' = wi_files w ++ t"
    using mutate_done [OF assms [unfolded inject_bootstrap_macos_def]] by blast
  then have "t = [bootstrap_json \<mapsto> bootstrap, collector_cmd \<mapsto> in_collector j]"
    by (auto simp: bootstrap_tree_def outcome_simps put_file_Ok)
  with t(2) show ?thesis by (auto simp: fun_eq_iff map_add_def)
qed

section \<open>Injections that succeed\<close>

definition quiet :: "injection \<Rightarrow> bool" where
  "quiet j = (in_agent j \<noteq> None \<and> in_payload j = None \<and> in_refuses j = (\<lambda>a p. False))"

lemma quiet_install: "quiet j \<Longrightarrow> \<exists>t'. install_agent j agent t = Ok t' \<and> t' winpeshl_ini = t winpeshl_ini"
  using path_facts by (auto simp: quiet_def install_agent_def copy_winpe_media_payload_def put_file_def attempt_io_def)

lemma quiet_hook: "quiet j \<Longrightarrow> patch_winpeshl_for_agent ini = Ok p \<Longrightarrow> \<exists>t'. hook_winpeshl j ini t = Ok (True, t')"
  by (auto simp: quiet_def hook_winpeshl_def save_script_def put_file_def split: option.split)

lemma quiet_populate:
  assumes "quiet j" "t winpeshl_ini = Some ini" "patch_winpeshl_for_agent ini = Ok p"
  shows "\<exists>t'. populate_mount rt j agent t = Ok t'"
proof -
  obtain t1 where t1: "install_agent j agent t = Ok t1" "t1 winpeshl_ini = Some ini"
    using quiet_install [OF assms(1)] assms(2) by fastforce
  obtain t2 where t2: "hook_winpeshl j ini t1 = Ok (True, t2)" using quiet_hook [OF assms(1,3)] by blast
  have q: "in_refuses j = (\<lambda>a p. False)" using assms(1) by (simp add: quiet_def)
  have "hook_windows rt j t1 = Ok (True, t2)"
    using t1(2) t2 by (simp add: hook_windows_def attempt_io_def q should_patch_setup_cmdline_def)
  moreover have "\<exists>t3. keep_startnet j t = Ok t3" for t
    by (auto simp: keep_startnet_def attempt_io_def q split: option.split)
  ultimately show ?thesis
    using t1(1) by (auto simp: populate_mount_def enable_hook_def put_file_def q outcome_simps)
qed

lemma quiet_windows:
  assumes "quiet j" "wi_files w winpeshl_ini = Some ini" "patch_winpeshl_for_agent ini = Ok p"
    "boot_index_of w = Ok index" "im_mount im" "im_commit im" "im_committed_header im = (\<lambda>t h. h)"
  shows "\<exists>w'. inject_windows im rt j w = (w', Ok ()) \<and> wi_header w' = wi_header w \<and> wi_files w' winpeshl_ini = Some (pw_ini p)"
proof -
  obtain agent where a: "in_agent j = Some agent" using assms(1) by (auto simp: quiet_def)
  obtain t where t: "populate_mount rt j agent (wi_files w) = Ok t" using quiet_populate [of j "wi_files w", OF assms(1-3)] by blast
  then have "t winpeshl_ini = Some (pw_ini p)" using populate_mount_shell [OF t assms(2)] assms(3) by auto
  with a t assms show ?thesis
    by (simp add: inject_windows_def inject_mounted_def with_mount_def edit_mounted_def mount_image_def commit_image_def
        remove_mount_dir_def idle_def attempt_io_def quiet_def)
qed

lemma quiet_macos:
  assumes "quiet j" "boot_index_of w = Ok index" "il_added il = Some (wi_header w)" "il_moves_old il" "il_moves_new il"
    "\<not> il_extracts il winpeshl_ini" "\<not> il_extracts il system_hive"
  shows "\<exists>w'. inject_macos rg il j w = (Some w', Ok ()) \<and> wi_header w' = wi_header w"
proof -
  have q: "in_refuses j = (\<lambda>a p. False)" using assms(1) by (simp add: quiet_def)
  obtain agent where a: "in_agent j = Some agent" using assms(1) by (auto simp: quiet_def)
  obtain t1 where "install_agent j agent Map.empty = Ok t1" using quiet_install [OF assms(1)] by fastforce
  then have "\<exists>t. populate_tree rg il j agent (wi_files w) = Ok t"
    using assms(6,7) by (auto simp: populate_tree_def hook_tree_def extracted_def enable_hook_def put_file_def attempt_io_def q split: option.split)
  then obtain t where t: "populate_tree rg il j agent (wi_files w) = Ok t" ..
  have "wim_boot_index_from_header (wi_header w) = Some index"
    using assms(2) by (auto simp: boot_index_of_def outcome_simps split: if_splits)
  with a t assms(2-5) show ?thesis
    by (simp add: inject_macos_def mutate_wim_with_tree_def attempt_io_def q ensure_def)
qed

definition sample_wim :: wim_image where
  "sample_wim = \<lparr> wi_header = wim_magic @ [124, 0, 0, 0] @ replicate 28 0 @ [1, 0, 1, 0, 1, 0, 0, 0] @ replicate 72 0 @ [1, 0, 0, 0],
     wi_files = [winpeshl_ini \<mapsto> sample_winpeshl, startnet_cmd \<mapsto> ''wpeinit''] \<rparr>"

definition sample_injection :: "string \<Rightarrow> injection" where
  "sample_injection agent = \<lparr> in_agent = Some agent, in_collector = ''collect'', in_payload = None, in_refuses = (\<lambda>a p. False) \<rparr>"

definition sample_registry :: registry_tool where
  "sample_registry = \<lparr> rt_load = True, rt_query = None, rt_add = True, rt_unload = True, rt_set = id \<rparr>"

definition sample_dism :: "bool \<Rightarrow> imaging_tool" where
  "sample_dism commits = \<lparr> im_mount = True, im_half_mounted = True, im_commit = commits,
     im_committed_header = (\<lambda>t h. h), im_failed_commit = (\<lambda>t w. (w, True)), im_discard = True, im_cleanup = True \<rparr>"

definition sample_library :: imaging_library where
  "sample_library = \<lparr> il_extracts = (\<lambda>p. p = startnet_cmd), il_added = Some (wi_header sample_wim),
     il_moves_old = True, il_moves_new = True, il_restores = True \<rparr>"

lemma sample_quiet: "quiet (sample_injection agent)"
  by (simp add: quiet_def sample_injection_def)

lemma sample_index: "wi_header w = wi_header sample_wim \<Longrightarrow> boot_index_of w = Ok 1"
proof -
  assume w: "wi_header w = wi_header sample_wim"
  have s: "length wim_magic = 8" by (simp add: wim_magic_def text_bytes_def)
  then have "length (wi_header sample_wim) = 124" "wim_boot_index_from_header (wi_header sample_wim) = Some 1"
    by (simp_all add: sample_wim_def wim_boot_index_from_header_def wim_boot_index_offset_def wim_header_size_offset_def
        wim_part_number_offset_def wim_total_parts_offset_def wim_image_count_offset_def from_le_def drop_Cons')
  with w show ?thesis by (simp add: boot_index_of_def wim_boot_index_offset_def)
qed

theorem windows_injection_is_atomic_witness:
  "\<exists>h. inject_mounted (sample_dism False) sample_registry (sample_injection ''one'') (idle sample_wim) =
       (Err Tool_Failed, h) \<and> mt_image h = sample_wim \<and> \<not> mt_mounted h \<and> \<not> mt_dir h"
proof -
  let ?j = "sample_injection ''one''"
  obtain p where p: "patch_winpeshl_for_agent sample_winpeshl = Ok p" using sample_winpeshl_patches by blast
  have f: "wi_files sample_wim winpeshl_ini = Some sample_winpeshl" using path_facts by (simp add: sample_wim_def)
  obtain t where t: "populate_mount sample_registry ?j ''one'' (wi_files sample_wim) = Ok t"
    using quiet_populate [of ?j "wi_files sample_wim", OF sample_quiet f p] by blast
  obtain h where h: "inject_mounted (sample_dism False) sample_registry ?j (idle sample_wim) = (Err Tool_Failed, h)"
    using t sample_index [OF refl]
    by (simp add: inject_mounted_def with_mount_def edit_mounted_def mount_image_def commit_image_def idle_def
        sample_injection_def attempt_io_def sample_dism_def)
  from windows_injection_is_atomic [where im = "sample_dism False" and rt = sample_registry and j = ?j and
      w = sample_wim] h show ?thesis
    by (auto simp: sample_dism_def)
qed

theorem refresh_keeps_vendor_startup_witness:
  "\<exists>w1 w2. inject_windows (sample_dism True) sample_registry (sample_injection ''one'') sample_wim = (w1, Ok ()) \<and>
     inject_windows (sample_dism True) sample_registry (sample_injection ''two'') w1 = (w2, Ok ()) \<and>
     wi_files w2 original_startnet = wi_files w1 original_startnet \<and> wi_files w2 original_shell = wi_files w1 original_shell"
proof -
  obtain p where p: "patch_winpeshl_for_agent sample_winpeshl = Ok p"
    "patch_winpeshl_for_agent (pw_ini p) = Ok \<lparr> pw_ini = pw_ini p, pw_original_shell_script = None \<rparr>"
    using sample_winpeshl_patches by blast
  have f: "wi_files sample_wim winpeshl_ini = Some sample_winpeshl" "wi_files sample_wim startnet_cmd = Some ''wpeinit''"
    using path_facts by (simp_all add: sample_wim_def)
  let ?im = "sample_dism True"
  have im: "im_mount ?im" "im_commit ?im" "im_committed_header ?im = (\<lambda>t h. h)" by (simp_all add: sample_dism_def)
  obtain w1 where w1: "inject_windows ?im sample_registry (sample_injection ''one'') sample_wim = (w1, Ok ())"
    "wi_header w1 = wi_header sample_wim" "wi_files w1 winpeshl_ini = Some (pw_ini p)"
    using quiet_windows [OF sample_quiet f(1) p(1) sample_index im] by auto
  obtain w2 where w2: "inject_windows ?im sample_registry (sample_injection ''two'') w1 = (w2, Ok ())"
    using quiet_windows [OF sample_quiet w1(3) p(2) sample_index [OF w1(2)] im] by auto
  show ?thesis
    using refresh_keeps_vendor_startup [OF w1(1) w2 f] sample_winpeshl_complete w1(1) w2 by blast
qed

theorem macos_refresh_loses_vendor_startnet_witness:
  "\<exists>w1 w2. wi_files sample_wim startnet_cmd = Some ''wpeinit'' \<and>
     inject_macos sample_regf sample_library (sample_injection ''one'') sample_wim = (Some w1, Ok ()) \<and>
     inject_macos sample_regf sample_library (sample_injection ''two'') w1 = (Some w2, Ok ()) \<and>
     wi_files w2 original_startnet = Some easydeploymesh_startnet"
proof -
  have l: "il_added sample_library = Some (wi_header sample_wim)" "il_moves_old sample_library" "il_moves_new sample_library"
    "\<not> il_extracts sample_library winpeshl_ini" "\<not> il_extracts sample_library system_hive" "il_extracts sample_library startnet_cmd"
    using path_facts by (simp_all add: sample_library_def)
  obtain w1 where w1: "inject_macos sample_regf sample_library (sample_injection ''one'') sample_wim = (Some w1, Ok ())"
    "wi_header w1 = wi_header sample_wim"
    using quiet_macos [OF sample_quiet sample_index [OF refl] l(1-5)] by blast
  obtain w2 where w2: "inject_macos sample_regf sample_library (sample_injection ''two'') w1 = (Some w2, Ok ())"
    using quiet_macos [OF sample_quiet sample_index [OF w1(2)] l(1) [folded w1(2)] l(2-5)] by blast
  have "wi_files sample_wim startnet_cmd = Some ''wpeinit''" using path_facts by (simp add: sample_wim_def)
  with macos_refresh_loses_vendor_startnet [OF w1(1) w2 l(6)] w1(1) w2 show ?thesis by blast
qed

section \<open>Deciding a refresh\<close>

text \<open>
  \<open>ensure_agent_runtime_with_payload\<close>: beside the image lie the digests of the agent
  and of the runtime it was last injected with; \<open>sha\<close> is the digest in hexadecimal.
\<close>

definition layout_revision :: string where "layout_revision = ''easydeploymesh-winpe-runtime-layout-v3''"

definition runtime_manifest :: "(string \<Rightarrow> string) \<Rightarrow> string \<Rightarrow> string \<Rightarrow> string" where
  "runtime_manifest sha agent collector =
     ''revision='' @ layout_revision @ [newline] @ ''agent='' @ sha agent @ [newline] @
     ''startnet='' @ sha easydeploymesh_startnet @ [newline] @ ''collector='' @ sha collector @ [newline]"

definition winpe_runtime_sha256 :: "(string \<Rightarrow> string) \<Rightarrow> string \<Rightarrow> string \<Rightarrow> string" where
  "winpe_runtime_sha256 sha agent collector = sha (runtime_manifest sha agent collector)"

definition marker_matches :: "string option \<Rightarrow> string \<Rightarrow> bool" where
  "marker_matches marker expected = (case marker of None \<Rightarrow> False | Some d \<Rightarrow> eq_ignore_case (trim d) expected)"

record 'w package =
  pk_wim :: 'w
  pk_agent_marker :: "string option"
  pk_runtime_marker :: "string option"

definition ensure_agent_runtime ::
  "(string \<Rightarrow> string) \<Rightarrow> ('w \<Rightarrow> 'w option \<times> (inject_error, unit) outcome) \<Rightarrow> (nat \<Rightarrow> bool) \<Rightarrow> injection \<Rightarrow>
   'w option package \<Rightarrow> 'w option package \<times> (inject_error, bool) outcome" where
  "ensure_agent_runtime sha inject writes j s =
     (case (pk_wim s, in_agent j) of
        (Some wim, Some agent) \<Rightarrow>
          (let agent_digest = sha agent; runtime_digest = winpe_runtime_sha256 sha agent (in_collector j) in
           if in_payload j = None \<and> marker_matches (pk_agent_marker s) agent_digest \<and>
             marker_matches (pk_runtime_marker s) runtime_digest
           then (s, Ok False)
           else
             (case inject wim of
                (wim', Err e) \<Rightarrow> (s \<lparr> pk_wim := wim' \<rparr>, Err e)
              | (wim', Panic) \<Rightarrow> (s \<lparr> pk_wim := wim' \<rparr>, Panic)
              | (wim', Ok u) \<Rightarrow>
                  if \<not> writes 0 then (s \<lparr> pk_wim := wim' \<rparr>, Err Inject_Io)
                  else if \<not> writes 1
                  then (s \<lparr> pk_wim := wim', pk_agent_marker := Some agent_digest \<rparr>, Err Inject_Io)
                  else (s \<lparr> pk_wim := wim', pk_agent_marker := Some agent_digest, pk_runtime_marker := Some runtime_digest \<rparr>,
                    Ok True)))
      | other \<Rightarrow> (s, Err Missing_File))"

text \<open>A refresh that succeeded settles: asked again for the same agent, nothing is injected.\<close>

lemma trim_hex:
  assumes "list_all is_hex d" "d \<noteq> []"
  shows "trim d = d"
proof -
  have "visible c" if "c \<in> set d" for c
    using assms(1) that by (auto simp: list_all_iff is_hex_def is_digit_def visible_def)
  then show ?thesis using assms(2) by (intro trim_visible) auto
qed

lemma refresh_settles:
  assumes "\<And>x. list_all is_hex (sha x)" "\<And>x. sha x \<noteq> []" "in_payload j = None"
    "ensure_agent_runtime sha inject writes j s = (s', Ok r)" "pk_wim s' \<noteq> None"
  shows "ensure_agent_runtime sha inject' writes' j s' = (s', Ok False)"
proof -
  have m: "marker_matches (Some (sha x)) (sha x)" for x
    using trim_hex assms(1,2) by (simp add: marker_matches_def)
  have m': "marker_matches (Some (winpe_runtime_sha256 sha a c)) (winpe_runtime_sha256 sha a c)" for a c
    by (simp add: winpe_runtime_sha256_def m)
  from assms(3-5) m m' show ?thesis
    by (auto simp: ensure_agent_runtime_def Let_def split: option.splits prod.splits outcome.splits if_splits)
qed

end
