(* ===== verification/Boot_Package.thy ===== *)
theory Boot_Package
  imports Winpe_Image Pxe_Config
begin

text \<open>
  A managed boot package (\<open>BootPackage\<close> in \<open>crates/service/src/pxe.rs\<close>): which
  packages its owner recognises, the refresh of its loaders and boot store, the
  dispatcher through which the control plane chooses what a device boots, and the
  import that replaces a package.  A package is its regular files by their path
  below the root; what the host refuses is an argument.
\<close>

section \<open>Scripts and markers\<close>

type_synonym package_files = "string \<Rightarrow> string option"
type_synonym refusal = "file_action \<Rightarrow> string \<Rightarrow> bool"

datatype package_error =
    Legacy_Native_Iso
  | Ambiguous_Version
  | Bad_Endpoint
  | Missing_Boot_File string
  | Bad_Boot_Path pxe_service_error
  | Loader_Unknown
  | Boot_Store
  | Runtime inject_error
  | Package_Io

definition ipxe :: "string list \<Rightarrow> string" where "ipxe ls = unlines (''#!ipxe'' # ls)"

definition kernel_line :: string where "kernel_line = ''kernel boot/wimboot''"

definition legacy_managed_ipxe_script :: string where
  "legacy_managed_ipxe_script = ipxe [kernel_line, ''initrd boot/bootmgr bootmgr'', ''initrd boot/BCD BCD'',
     ''initrd boot/boot.sdi boot.sdi'', ''initrd boot/easydeploymesh-bootstrap.json easydeploymesh-bootstrap.json'',
     ''initrd boot/boot.wim boot.wim'', ''boot'']"

definition broken_named_managed_ipxe_script :: string where
  "broken_named_managed_ipxe_script = ipxe [kernel_line, ''initrd --name bootmgr boot/bootmgr'', ''initrd --name BCD boot/BCD'',
     ''initrd --name boot.sdi boot/boot.sdi'', ''initrd --name easydeploymesh-bootstrap.json boot/easydeploymesh-bootstrap.json'',
     ''initrd --name boot.wim boot/boot.wim'', ''boot'']"

definition named :: "string \<Rightarrow> string \<Rightarrow> string" where
  "named n f = ''initrd --name '' @ n @ '' boot/'' @ f @ '' '' @ n"

definition common_lines :: "string list" where
  "common_lines = [named ''boot.sdi'' ''boot.sdi'', named ''easydeploymesh-bootstrap.json'' ''easydeploymesh-bootstrap.json'',
     named ''boot.wim'' ''boot.wim'', ''boot'']"

definition v3_managed_ipxe_script :: string where
  "v3_managed_ipxe_script = ipxe ([kernel_line, named ''bootmgr'' ''bootmgr'', named ''BCD'' ''BCD''] @ common_lines)"

definition v4_managed_ipxe_script :: string where
  "v4_managed_ipxe_script = ipxe ([kernel_line, named ''bootmgr'' ''bootmgr'', named ''BCD'' ''easydeploymesh.bcd''] @ common_lines)"

definition v5_managed_ipxe_script :: string where
  "v5_managed_ipxe_script = ipxe ([kernel_line, named ''BCD'' ''easydeploymesh.bcd''] @ common_lines)"

definition usm_managed_ipxe_script :: string where
  "usm_managed_ipxe_script = ipxe ([kernel_line, named ''bootmgr'' ''bootmgr'', named ''BCD'' ''easydeploymesh.bcd'',
     named ''SC6'' ''easydeploymesh.bcd''] @ common_lines)"

definition managed_ipxe_script :: string where "managed_ipxe_script = v4_managed_ipxe_script"
definition edgeless_managed_ipxe_script :: string where "edgeless_managed_ipxe_script = v5_managed_ipxe_script"

definition native_iso_placeholder_script :: string where
  "native_iso_placeholder_script = ipxe [''sanboot http://${next-server}:0/boot/native.iso || shell'']"

definition legacy_managed_layout_marker :: string where "legacy_managed_layout_marker = ''.easydeploymesh-pxe-layout-v2''"
definition v3_managed_layout_marker :: string where "v3_managed_layout_marker = ''.easydeploymesh-pxe-layout-v3''"
definition v4_managed_layout_marker :: string where "v4_managed_layout_marker = ''.easydeploymesh-pxe-layout-v4''"
definition v5_managed_layout_marker :: string where "v5_managed_layout_marker = ''.easydeploymesh-pxe-layout-v5''"
definition managed_layout_marker :: string where "managed_layout_marker = ''.easydeploymesh-pxe-layout-v6''"
definition edgeless_managed_layout_marker :: string where "edgeless_managed_layout_marker = ''.easydeploymesh-edgeless-pxe''"
definition usm_managed_layout_marker :: string where "usm_managed_layout_marker = ''.easydeploymesh-usm-pxe''"
definition legacy_native_iso_layout_marker :: string where
  "legacy_native_iso_layout_marker = ''.easydeploymesh-native-iso-layout-v1''"
definition native_iso_layout_marker :: string where "native_iso_layout_marker = ''.easydeploymesh-native-iso-layout-v2''"
definition dynamic_boot_marker :: string where "dynamic_boot_marker = ''.easydeploymesh-dynamic-boot-v1''"
definition native_iso_path :: string where "native_iso_path = ''boot/native.iso''"
definition boot_script :: string where "boot_script = ''boot.ipxe''"
definition windows_fallback :: string where "windows_fallback = ''boot/easydeploymesh-winpe.ipxe''"
definition boot_store :: string where "boot_store = ''boot/easydeploymesh.bcd''"
definition undionly :: string where "undionly = ''undionly.kpxe''"
definition ipxe_efi :: string where "ipxe_efi = ''ipxe.efi''"
definition wimboot :: string where "wimboot = ''boot/wimboot''"
definition boot_wim :: string where "boot_wim = ''boot/boot.wim''"
definition boot_dir :: string where "boot_dir = ''boot''"

lemmas package_paths = legacy_managed_layout_marker_def v3_managed_layout_marker_def v4_managed_layout_marker_def
  v5_managed_layout_marker_def managed_layout_marker_def edgeless_managed_layout_marker_def usm_managed_layout_marker_def
  legacy_native_iso_layout_marker_def native_iso_layout_marker_def dynamic_boot_marker_def native_iso_path_def boot_script_def
  windows_fallback_def boot_store_def undionly_def ipxe_efi_def wimboot_def boot_wim_def

definition dispatcher_header :: string where
  "dispatcher_header = ipxe [''# EasyDeployMesh dynamic installer dispatcher v1'']"

definition is_managed_winpe_ipxe_script :: "string \<Rightarrow> bool" where
  "is_managed_winpe_ipxe_script script =
     (script \<in> {managed_ipxe_script, legacy_managed_ipxe_script, broken_named_managed_ipxe_script, v3_managed_ipxe_script,
        v4_managed_ipxe_script, v5_managed_ipxe_script, edgeless_managed_ipxe_script, usm_managed_ipxe_script})"

section \<open>The dispatcher\<close>

definition read_in :: "refusal \<Rightarrow> string \<Rightarrow> package_files \<Rightarrow> string option" where
  "read_in refuses p f = (if refuses Get p then None else f p)"

definition dispatches :: "refusal \<Rightarrow> package_files \<Rightarrow> bool" where
  "dispatches refuses f =
     (f dynamic_boot_marker \<noteq> None \<and> f windows_fallback \<noteq> None \<and>
      (case read_in refuses boot_script f of None \<Rightarrow> False | Some s \<Rightarrow> starts_with dispatcher_header s))"

fun write_each :: "refusal \<Rightarrow> (string \<times> string) list \<Rightarrow> package_files \<Rightarrow> package_files \<times> (package_error, unit) outcome" where
  "write_each refuses [] f = (f, Ok ())"
| "write_each refuses ((p, c) # ws) f =
     (if refuses Put p then (f, Err Package_Io) else write_each refuses ws (f(p \<mapsto> c)))"

definition dispatcher_script :: "string \<Rightarrow> string" where
  "dispatcher_script address =
     dispatcher_header @ ''chain http://'' @ address @
       ''/api/v1/install/boot.ipxe?mac=${net0/mac}&arch=${buildarch}&platform=${platform} || goto windows'' @ [newline] @
     unlines [''exit'', '':windows'', ''chain tftp://${next-server}/'' @ windows_fallback @ '' || shell'']"

text \<open>
  \<open>socket\<close> reads a socket address and prints it again (\<open>SocketAddr\<close> of the
  standard library, IPv4 or IPv6).
\<close>

definition fallback_script :: "refusal \<Rightarrow> package_files \<Rightarrow> string option" where
  "fallback_script refuses f =
     (let current = read_in refuses boot_script f in
      if (case current of None \<Rightarrow> False | Some s \<Rightarrow> starts_with dispatcher_header s) \<and> f dynamic_boot_marker \<noteq> None
      then read_in refuses windows_fallback f else current)"

definition configure_control_dispatcher ::
  "(string \<Rightarrow> string option) \<Rightarrow> refusal \<Rightarrow> string \<Rightarrow> package_files \<Rightarrow> package_files \<times> (package_error, bool) outcome" where
  "configure_control_dispatcher sock refuses endpoint f =
     (if f native_iso_layout_marker \<noteq> None then (f, Ok False)
      else case Option.bind (strip_prefix ''http://'' endpoint) sock of
          None \<Rightarrow> (f, Err Bad_Endpoint)
        | Some address \<Rightarrow>
            (case fallback_script refuses f of
               None \<Rightarrow> (f, Ok False)
             | Some fallback \<Rightarrow>
                 if \<not> is_managed_winpe_ipxe_script fallback then (f, Ok False)
                 else if refuses Make boot_dir then (f, Err Package_Io)
                 else
                   (case write_each refuses [(windows_fallback, fallback), (boot_script, dispatcher_script address),
                       (dynamic_boot_marker, ''1'' @ [newline])] f of
                      (f', r) \<Rightarrow> (f', map_ok (\<lambda>u. True) r))))"

section \<open>The refresh of a package\<close>

text \<open>
  The loaders built into the program, the detection of the image's loader and the
  creation of a boot store for it: each an argument.
\<close>

record package_tools =
  pt_undionly :: string
  pt_ipxe_efi :: string
  pt_wimboot :: string
  pt_loader :: "string \<Rightarrow> string option"
  pt_store :: "string \<Rightarrow> winpe_bcd_policy \<Rightarrow> string option"

fun remove_each :: "refusal \<Rightarrow> string list \<Rightarrow> package_files \<Rightarrow> package_files" where
  "remove_each refuses [] f = f"
| "remove_each refuses (p # ps) f = remove_each refuses ps (if refuses Drop p then f else f(p := None))"

definition rename_file :: "string \<Rightarrow> string \<Rightarrow> package_files \<Rightarrow> package_files" where
  "rename_file p q f = (f(p := None))(q := f p)"

text \<open>
  The boot store is written beside the old one, \<open>new\<close> and \<open>old\<close> being fresh
  names, and takes its place by two renames, of which the first is undone when the
  second fails.
\<close>

definition replace_boot_store ::
  "refusal \<Rightarrow> string \<Rightarrow> string \<Rightarrow> string option \<Rightarrow> package_files \<Rightarrow> package_files \<times> (package_error, unit) outcome" where
  "replace_boot_store refuses new old content f =
     (case content of
        None \<Rightarrow> (remove_each refuses [new] f, Err Boot_Store)
      | Some c \<Rightarrow>
          (let f1 = f(new \<mapsto> c); had = (f boot_store \<noteq> None) in
           if had \<and> refuses Move boot_store then (remove_each refuses [new] f1, Err Package_Io)
           else
             (let f2 = (if had then rename_file boot_store old f1 else f1) in
              if refuses Move new
              then (remove_each refuses [new] (if had \<and> \<not> refuses Move old then rename_file old boot_store f2 else f2), Err Package_Io)
              else
                (let f3 = rename_file new boot_store f2 in (if had then remove_each refuses [old] f3 else f3, Ok ())))))"

definition managed_script_of :: "refusal \<Rightarrow> package_files \<Rightarrow> string option" where
  "managed_script_of refuses f =
     (if dispatches refuses f then read_in refuses windows_fallback f else read_in refuses boot_script f)"

definition required_files :: "string list" where
  "required_files = [''boot/boot.sdi'', boot_wim, ''boot/bootmgr'', wimboot]"

definition refresh_package ::
  "package_tools \<Rightarrow> refusal \<Rightarrow> string \<Rightarrow> string \<Rightarrow> package_files \<Rightarrow> package_files \<times> (package_error, bool) outcome" where
  "refresh_package pt refuses new old f =
     (case Option.bind (f boot_wim) (pt_loader pt) of
        None \<Rightarrow> (f, Err Loader_Unknown)
      | Some loader \<Rightarrow>
          (let active = dispatches refuses f;
               policy = (if f usm_managed_layout_marker \<noteq> None then Usm_Legacy else Standard) in
           case replace_boot_store refuses new old (pt_store pt loader policy) f of
             (f1, Err e) \<Rightarrow> (f1, Err e)
           | (f1, Panic) \<Rightarrow> (f1, Panic)
           | (f1, Ok u) \<Rightarrow>
               (let script = (if f1 edgeless_managed_layout_marker \<noteq> None then edgeless_managed_ipxe_script
                    else if f1 usm_managed_layout_marker \<noteq> None then usm_managed_ipxe_script else managed_ipxe_script);
                    script_path = (if active then windows_fallback else boot_script) in
                case write_each refuses [(undionly, pt_undionly pt), (ipxe_efi, pt_ipxe_efi pt), (wimboot, pt_wimboot pt),
                    (script_path, script), (managed_layout_marker, ''6'' @ [newline])] f1 of
                  (f2, Err e) \<Rightarrow> (f2, Err e)
                | (f2, Panic) \<Rightarrow> (f2, Panic)
                | (f2, Ok u) \<Rightarrow>
                    (remove_each refuses [legacy_managed_layout_marker, v3_managed_layout_marker, v4_managed_layout_marker,
                       v5_managed_layout_marker] f2, Ok True))))"

definition ensure_managed_network_boot ::
  "package_tools \<Rightarrow> refusal \<Rightarrow> string \<Rightarrow> string \<Rightarrow> package_files \<Rightarrow> package_files \<times> (package_error, bool) outcome" where
  "ensure_managed_network_boot pt refuses new old f =
     (if f legacy_native_iso_layout_marker \<noteq> None \<and> f native_iso_layout_marker = None then (f, Err Legacy_Native_Iso)
      else if f native_iso_layout_marker \<noteq> None \<and> f native_iso_path \<noteq> None
      then (case write_each refuses [(undionly, pt_undionly pt), (ipxe_efi, pt_ipxe_efi pt),
              (boot_script, native_iso_placeholder_script)] f of (f1, r) \<Rightarrow> (f1, map_ok (\<lambda>u. True) r))
      else if f v5_managed_layout_marker \<noteq> None then (f, Err Ambiguous_Version)
      else if (case managed_script_of refuses f of None \<Rightarrow> True | Some s \<Rightarrow> \<not> is_managed_winpe_ipxe_script s) \<or>
        \<not> list_all (\<lambda>p. f p \<noteq> None) required_files
      then (f, Ok False)
      else refresh_package pt refuses new old f)"

section \<open>Importing a package\<close>

text \<open>A file of the source: a plain one, or one behind a symbolic link, with the bytes it leads to.\<close>

datatype source_file = Plain string | Linked "string option"

fun source_is_file :: "source_file option \<Rightarrow> bool" where
  "source_is_file (Some (Plain c)) = True"
| "source_is_file (Some (Linked (Some c))) = True"
| "source_is_file other = False"

text \<open>\<open>copy_tree\<close> passes links by.\<close>

definition copy_tree :: "(string \<Rightarrow> source_file option) \<Rightarrow> package_files" where
  "copy_tree source p = (case source p of Some (Plain c) \<Rightarrow> Some c | _ \<Rightarrow> None)"

record import_host =
  ih_parent :: bool
  ih_copies :: bool
  ih_refresh :: "package_files \<Rightarrow> (inject_error, package_files) outcome"
  ih_moves_old :: bool
  ih_moves_new :: bool
  ih_restores :: bool

record import_state =
  is_root :: "package_files option"
  is_leftovers :: "package_files list"

record boot_package =
  bp_root :: string
  bp_bios_boot_file :: string
  bp_uefi_x64_boot_file :: string

definition stage_package ::
  "platform \<Rightarrow> import_host \<Rightarrow> (string \<Rightarrow> source_file option) \<Rightarrow> string \<Rightarrow> string \<Rightarrow> bool \<Rightarrow> (package_error, package_files) outcome" where
  "stage_package plat h source bios uefi with_agent =
     and_then (map_err Bad_Boot_Path (validate_relative_path plat bios)) (\<lambda>_.
     and_then (map_err Bad_Boot_Path (validate_relative_path plat uefi)) (\<lambda>_.
     and_then (ensure (source_is_file (source bios)) (Missing_Boot_File bios)) (\<lambda>_.
     and_then (ensure (source_is_file (source uefi)) (Missing_Boot_File uefi)) (\<lambda>_.
     and_then (ensure (ih_parent h \<and> ih_copies h) Package_Io) (\<lambda>_.
     let temp = copy_tree source in
     if \<not> with_agent then Ok temp
     else if temp boot_wim = None then Err (Missing_Boot_File boot_wim)
     else map_err Runtime (ih_refresh h temp))))))"

definition import_inner ::
  "platform \<Rightarrow> import_host \<Rightarrow> string \<Rightarrow> (string \<Rightarrow> source_file option) \<Rightarrow> string \<Rightarrow> string \<Rightarrow> bool \<Rightarrow> import_state \<Rightarrow>
   import_state \<times> (package_error, boot_package) outcome" where
  "import_inner plat h managed_root source bios uefi with_agent s =
     (case stage_package plat h source bios uefi with_agent of
        Err e \<Rightarrow> (s, Err e)
      | Panic \<Rightarrow> (s, Panic)
      | Ok temp \<Rightarrow>
          (let done = (s \<lparr> is_root := Some temp \<rparr>, Ok \<lparr> bp_root = utf8_lossy managed_root, bp_bios_boot_file = bios, bp_uefi_x64_boot_file = uefi \<rparr>) in
           case is_root s of
             None \<Rightarrow> if ih_moves_new h then done else (s \<lparr> is_leftovers := temp # is_leftovers s \<rparr>, Err Package_Io)
           | Some before \<Rightarrow>
               if \<not> ih_moves_old h then (s \<lparr> is_leftovers := temp # is_leftovers s \<rparr>, Err Package_Io)
               else if ih_moves_new h then done
               else if ih_restores h then (s \<lparr> is_leftovers := temp # is_leftovers s \<rparr>, Err Package_Io)
               else (s \<lparr> is_root := None, is_leftovers := before # temp # is_leftovers s \<rparr>, Err Package_Io)))"

section \<open>Configuring the dispatcher\<close>

definition package_list :: "string list" where
  "package_list = [legacy_managed_layout_marker, v3_managed_layout_marker, v4_managed_layout_marker, v5_managed_layout_marker,
     managed_layout_marker, edgeless_managed_layout_marker, usm_managed_layout_marker, legacy_native_iso_layout_marker,
     native_iso_layout_marker, dynamic_boot_marker, native_iso_path, boot_script, windows_fallback, boot_store, undionly,
     ipxe_efi, wimboot, boot_wim]"

lemma package_distinct: "distinct package_list" "distinct (rev package_list)"
proof -
  show "distinct package_list" by (simp add: package_list_def package_paths)
  then show "distinct (rev package_list)" by simp
qed

lemmas package_facts = package_distinct(1) [unfolded package_list_def, simplified]
  package_distinct(2) [unfolded package_list_def rev.simps append.simps, simplified]

lemma dispatcher_script_header [simp]: "starts_with dispatcher_header (dispatcher_script a)"
  by (simp add: dispatcher_script_def starts_with_def)

lemma dispatcher_not_managed: "\<not> is_managed_winpe_ipxe_script (dispatcher_header @ s)"
  by (simp add: is_managed_winpe_ipxe_script_def dispatcher_header_def ipxe_def unlines_def managed_ipxe_script_def
      legacy_managed_ipxe_script_def broken_named_managed_ipxe_script_def v3_managed_ipxe_script_def v4_managed_ipxe_script_def
      v5_managed_ipxe_script_def edgeless_managed_ipxe_script_def usm_managed_ipxe_script_def kernel_line_def)

lemma managed_no_header: "is_managed_winpe_ipxe_script s \<Longrightarrow> \<not> starts_with dispatcher_header s"
  using dispatcher_not_managed by (auto simp: starts_with_iff)

lemma write_each_Ok:
  "write_each refuses ws f = (f', Ok u) \<longleftrightarrow> list_all (\<lambda>(p, c). \<not> refuses Put p) ws \<and> f' = f ++ map_of (rev ws)"
  by (induction ws arbitrary: f) (auto split: if_splits)

lemma configure_Ok:
  assumes "configure_control_dispatcher sock refuses endpoint f = (f', Ok True)"
  obtains address fb where "Option.bind (strip_prefix ''http://'' endpoint) sock = Some address" "f native_iso_layout_marker = None"
    "fallback_script refuses f = Some fb" "is_managed_winpe_ipxe_script fb"
    "f' = f(windows_fallback \<mapsto> fb, boot_script \<mapsto> dispatcher_script address, dynamic_boot_marker \<mapsto> ''1'' @ [newline])"
  using assms
  by (auto simp: configure_control_dispatcher_def outcome_simps split: if_splits option.splits)

definition nothing :: refusal where "nothing = (\<lambda>a p. False)"

lemma nothing_at [simp]: "\<not> nothing a p"
  by (simp add: nothing_def)

lemma write_each_nothing: "write_each nothing ws f = (f ++ map_of (rev ws), Ok ())"
  by (induction ws arbitrary: f) auto

lemma configure_again:
  assumes "f native_iso_layout_marker = None" "f dynamic_boot_marker = Some (''1'' @ [newline])" "f boot_script = Some s"
    "starts_with dispatcher_header s" "f windows_fallback = Some fb" "is_managed_winpe_ipxe_script fb"
    "Option.bind (strip_prefix ''http://'' endpoint) sock = Some address"
  shows "configure_control_dispatcher sock nothing endpoint f = (f(boot_script \<mapsto> dispatcher_script address), Ok True)"
proof -
  have "fallback_script nothing f = Some fb"
    using assms by (simp add: fallback_script_def read_in_def nothing_def)
  moreover have "f(windows_fallback \<mapsto> fb, boot_script \<mapsto> dispatcher_script address, dynamic_boot_marker \<mapsto> ''1'' @ [newline]) =
      f(boot_script \<mapsto> dispatcher_script address)"
    using assms(2,5) package_facts by (auto simp: fun_eq_iff)
  ultimately show ?thesis using assms by (simp add: configure_control_dispatcher_def nothing_def)
qed

text \<open>
  C23. Configuring the dispatcher keeps the Windows boot of the package: the script
  its devices booted before is the fallback the dispatcher chains to, whatever was
  configured earlier; the package is recognised as dispatching; and configuring it
  again, for any endpoint, changes the dispatcher and nothing else.
\<close>

theorem dispatcher_keeps_windows_fallback:
  assumes "configure_control_dispatcher sock refuses endpoint f = (f', Ok True)"
  shows "dispatches nothing f' \<and> f' windows_fallback = fallback_script refuses f \<and>
    {p. f' p \<noteq> f p} \<subseteq> {windows_fallback, boot_script, dynamic_boot_marker} \<and>
    (\<forall>endpoint' address'. Option.bind (strip_prefix ''http://'' endpoint') sock = Some address' \<longrightarrow>
       configure_control_dispatcher sock nothing endpoint' f' = (f'(boot_script \<mapsto> dispatcher_script address'), Ok True))"
proof -
  from assms obtain address fb where c: "f native_iso_layout_marker = None" "fallback_script refuses f = Some fb"
    "is_managed_winpe_ipxe_script fb"
    "f' = f(windows_fallback \<mapsto> fb, boot_script \<mapsto> dispatcher_script address, dynamic_boot_marker \<mapsto> ''1'' @ [newline])"
    by (rule configure_Ok)
  have at: "f' native_iso_layout_marker = None" "f' dynamic_boot_marker = Some (''1'' @ [newline])"
    "f' boot_script = Some (dispatcher_script address)" "f' windows_fallback = Some fb"
    using c(1) package_facts by (simp_all add: c(4))
  then have "dispatches nothing f'" by (simp add: dispatches_def read_in_def nothing_def)
  moreover have "{p. f' p \<noteq> f p} \<subseteq> {windows_fallback, boot_script, dynamic_boot_marker}" by (auto simp: c(4))
  ultimately show ?thesis using at c(2,3) configure_again [OF at(1-3) dispatcher_script_header at(4) c(3)] by auto
qed

text \<open>
  The marker is written last: where that one write fails, the package has its
  dispatcher and is never configured again.
\<close>

lemma interrupted_dispatcher_is_stuck:
  assumes "configure_control_dispatcher sock refuses endpoint f = (f', Err Package_Io)" "\<not> refuses Make boot_dir"
    and "\<not> refuses Put windows_fallback" "\<not> refuses Put boot_script" "f dynamic_boot_marker = None"
    and "Option.bind (strip_prefix ''http://'' endpoint') sock = Some address'"
  shows "f' dynamic_boot_marker = None \<and> configure_control_dispatcher sock nothing endpoint' f' = (f', Ok False)"
proof -
  from assms obtain address fb where c: "f native_iso_layout_marker = None"
    "f' = f(windows_fallback \<mapsto> fb, boot_script \<mapsto> dispatcher_script address)"
    by (auto simp: configure_control_dispatcher_def outcome_simps split: if_splits option.splits)
  have "f' native_iso_layout_marker = None" "f' dynamic_boot_marker = None" "f' boot_script = Some (dispatcher_script address)"
    using c assms(5) package_facts by (simp_all add: c(2))
  moreover have "\<not> is_managed_winpe_ipxe_script (dispatcher_script address)"
    using dispatcher_not_managed by (simp add: dispatcher_script_def)
  ultimately show ?thesis
    using assms(6) by (simp add: configure_control_dispatcher_def fallback_script_def read_in_def nothing_def)
qed

definition sample_package :: package_files where
  "sample_package = [boot_script \<mapsto> managed_ipxe_script, ''boot/boot.sdi'' \<mapsto> ''sdi'', boot_wim \<mapsto> ''wim'', ''boot/bootmgr'' \<mapsto> ''mgr'',
     wimboot \<mapsto> ''loader'', boot_store \<mapsto> ''bcd'']"

lemma sample_fallback: "fallback_script nothing sample_package = Some managed_ipxe_script"
  "is_managed_winpe_ipxe_script managed_ipxe_script" "sample_package native_iso_layout_marker = None"
proof -
  show m: "is_managed_winpe_ipxe_script managed_ipxe_script" by (simp add: is_managed_winpe_ipxe_script_def)
  have "sample_package boot_script = Some managed_ipxe_script" by (simp add: sample_package_def package_paths)
  then show "fallback_script nothing sample_package = Some managed_ipxe_script"
    using managed_no_header [OF m] by (simp add: fallback_script_def read_in_def nothing_def)
  show "sample_package native_iso_layout_marker = None" by (simp add: sample_package_def package_paths)
qed

lemma sample_configured:
  "configure_control_dispatcher Some nothing ''http://10.0.0.1:8080'' sample_package =
     (sample_package(windows_fallback \<mapsto> managed_ipxe_script, boot_script \<mapsto> dispatcher_script ''10.0.0.1:8080'',
        dynamic_boot_marker \<mapsto> ''1'' @ [newline]), Ok True)"
  using sample_fallback
  by (simp add: configure_control_dispatcher_def strip_prefix_def starts_with_def del: strip_prefix_Some)

theorem dispatcher_keeps_windows_fallback_witness:
  "\<exists>f'. configure_control_dispatcher Some nothing ''http://10.0.0.1:8080'' sample_package = (f', Ok True) \<and>
     dispatches nothing f' \<and> f' windows_fallback = Some managed_ipxe_script"
  using dispatcher_keeps_windows_fallback [OF sample_configured, unfolded sample_fallback(1)] sample_configured by blast

section \<open>Refreshing a package\<close>

lemma remove_each_at: "p \<notin> set ps \<Longrightarrow> remove_each refuses ps f p = f p"
  by (induction ps arbitrary: f) auto

lemma replace_store_Ok:
  assumes "replace_boot_store refuses new old content f = (f', Ok u)" "new \<notin> set package_list" "old \<notin> set package_list" "new \<noteq> old"
  shows "\<exists>c. content = Some c \<and> f' boot_store = Some c" "p \<notin> {new, old, boot_store} \<Longrightarrow> f' p = f p"
proof -
  have fresh: "new \<noteq> boot_store" "old \<noteq> boot_store" using assms(2,3) by (auto simp: package_list_def)
  from assms(1) fresh assms(4) show "\<exists>c. content = Some c \<and> f' boot_store = Some c" "p \<notin> {new, old, boot_store} \<Longrightarrow> f' p = f p"
    by (auto simp: replace_boot_store_def rename_file_def Let_def split: option.splits if_splits)
qed

text \<open>The old store is lost to no failure but that of both renames, and then its copy remains.\<close>

lemma boot_store_survives:
  assumes "replace_boot_store refuses new old content f = (f', Err e)" "new \<notin> set package_list" "old \<notin> set package_list" "new \<noteq> old"
  shows "f' boot_store = f boot_store \<or> refuses Move new \<and> refuses Move old \<and> f' old = f boot_store"
proof -
  have fresh: "new \<noteq> boot_store" "old \<noteq> boot_store" using assms(2,3) by (auto simp: package_list_def)
  from assms(1) fresh assms(4) show ?thesis
    by (auto simp: replace_boot_store_def rename_file_def Let_def split: option.splits if_splits)
qed

lemma refresh_package_Ok:
  assumes "refresh_package pt refuses new old f = (f', Ok r)" "new \<notin> set package_list" "old \<notin> set package_list" "new \<noteq> old"
  obtains loader c script where "Option.bind (f boot_wim) (pt_loader pt) = Some loader"
    "pt_store pt loader (if f usm_managed_layout_marker \<noteq> None then Usm_Legacy else Standard) = Some c"
    "is_managed_winpe_ipxe_script script" "f' boot_store = Some c"
    "f' (if dispatches refuses f then windows_fallback else boot_script) = Some script"
    "f' undionly = Some (pt_undionly pt)" "f' ipxe_efi = Some (pt_ipxe_efi pt)" "f' wimboot = Some (pt_wimboot pt)"
    "\<forall>p \<in> {dynamic_boot_marker, native_iso_layout_marker, if dispatches refuses f then boot_script else windows_fallback}. f' p = f p"
proof -
  let ?active = "dispatches refuses f"
  let ?path = "if ?active then windows_fallback else boot_script"
  let ?policy = "if f usm_managed_layout_marker \<noteq> None then Usm_Legacy else Standard"
  from assms(1) obtain loader where l: "Option.bind (f boot_wim) (pt_loader pt) = Some loader"
    by (auto simp: refresh_package_def split: option.splits)
  with assms(1) obtain f1 u where r: "replace_boot_store refuses new old (pt_store pt loader ?policy) f = (f1, Ok u)"
    by (auto simp: refresh_package_def Let_def split: prod.splits outcome.splits)
  define script where "script = (if f1 edgeless_managed_layout_marker \<noteq> None then edgeless_managed_ipxe_script
    else if f1 usm_managed_layout_marker \<noteq> None then usm_managed_ipxe_script else managed_ipxe_script)"
  let ?ws = "[(undionly, pt_undionly pt), (ipxe_efi, pt_ipxe_efi pt), (wimboot, pt_wimboot pt),
    (?path, script), (managed_layout_marker, ''6'' @ [newline])]"
  let ?old = "[legacy_managed_layout_marker, v3_managed_layout_marker, v4_managed_layout_marker, v5_managed_layout_marker]"
  from assms(1) l r obtain f2 v where w: "write_each refuses ?ws f1 = (f2, Ok v)" "f' = remove_each refuses ?old f2"
    unfolding refresh_package_def script_def by (auto simp: Let_def simp del: write_each.simps split: prod.splits outcome.splits)
  have f2: "f2 = f1 ++ map_of (rev ?ws)" using w(1) unfolding write_each_Ok by blast
  note s = replace_store_Ok [OF r assms(2-4)]
  have keep: "f' p = f2 p" if "p \<notin> set ?old" for p unfolding w(2) using that by (rule remove_each_at)
  obtain c where c: "pt_store pt loader ?policy = Some c" "f1 boot_store = Some c" using s(1) by blast
  have fresh: "p \<notin> {new, old}" if "p \<in> set package_list" for p using that assms(2,3) by auto
  show thesis
  proof (rule that [OF l c(1)])
    show "is_managed_winpe_ipxe_script script"
      by (simp add: script_def is_managed_winpe_ipxe_script_def)
    show "f' boot_store = Some c" using c(2) keep [of boot_store] by (simp add: f2 package_facts)
    show "f' ?path = Some script" using keep [of ?path] by (simp add: f2 package_facts)
    show "f' undionly = Some (pt_undionly pt)" "f' ipxe_efi = Some (pt_ipxe_efi pt)" "f' wimboot = Some (pt_wimboot pt)"
      using keep [of undionly] keep [of ipxe_efi] keep [of wimboot] by (simp_all add: f2 package_facts)
    show "\<forall>p \<in> {dynamic_boot_marker, native_iso_layout_marker, if ?active then boot_script else windows_fallback}. f' p = f p"
    proof
      fix p assume "p \<in> {dynamic_boot_marker, native_iso_layout_marker, if ?active then boot_script else windows_fallback}"
      then have p: "p = dynamic_boot_marker \<or> p = native_iso_layout_marker \<or> p = (if ?active then boot_script else windows_fallback)"
        by blast
      then have "p \<in> set package_list" by (elim disjE) (simp_all add: package_list_def)
      moreover have "p \<noteq> boot_store" using p by (elim disjE) (simp_all add: package_facts)
      ultimately have "f1 p = f p" using s(2) [of p] fresh [of p] by simp
      moreover have "f2 p = f1 p" using p by (elim disjE) (simp_all add: f2 package_facts)
      moreover have "p \<notin> set ?old" using p by (elim disjE) (simp_all add: package_facts)
      ultimately show "f' p = f p" using keep [of p] by simp
    qed
  qed
qed

text \<open>
  C24. A refresh of a WinPE package keeps who decides what its devices boot: it
  dispatches after it exactly when it did before, its Windows script is a managed
  one, and its loaders and its boot store are the current ones, the store made for
  the loader found in the image.
\<close>

theorem refresh_keeps_dispatcher:
  assumes "ensure_managed_network_boot pt refuses new old f = (f', Ok True)" "f native_iso_layout_marker = None"
    and "new \<notin> set package_list" "old \<notin> set package_list" "new \<noteq> old"
  shows "dispatches refuses f' = dispatches refuses f \<and>
    (\<exists>script. managed_script_of refuses f' = Some script \<and> is_managed_winpe_ipxe_script script) \<and>
    f' undionly = Some (pt_undionly pt) \<and> f' ipxe_efi = Some (pt_ipxe_efi pt) \<and> f' wimboot = Some (pt_wimboot pt) \<and>
    (\<exists>loader policy. Option.bind (f boot_wim) (pt_loader pt) = Some loader \<and> f' boot_store = pt_store pt loader policy)"
proof -
  from assms(1,2) have r: "refresh_package pt refuses new old f = (f', Ok True)" and
    m: "\<exists>s. managed_script_of refuses f = Some s \<and> is_managed_winpe_ipxe_script s"
    by (auto simp: ensure_managed_network_boot_def split: if_splits option.splits)
  from refresh_package_Ok [OF r assms(3-5)] obtain loader c script where a:
    "Option.bind (f boot_wim) (pt_loader pt) = Some loader"
    "pt_store pt loader (if f usm_managed_layout_marker \<noteq> None then Usm_Legacy else Standard) = Some c"
    "is_managed_winpe_ipxe_script script" "f' boot_store = Some c"
    "f' (if dispatches refuses f then windows_fallback else boot_script) = Some script"
    "f' undionly = Some (pt_undionly pt)" "f' ipxe_efi = Some (pt_ipxe_efi pt)" "f' wimboot = Some (pt_wimboot pt)"
    "\<forall>p \<in> {dynamic_boot_marker, native_iso_layout_marker, if dispatches refuses f then boot_script else windows_fallback}. f' p = f p" .
  have d: "dispatches refuses f' = dispatches refuses f"
    using a(3,5,9) managed_no_header [OF a(3)] by (auto simp: dispatches_def read_in_def split: if_splits option.splits)
  have "managed_script_of refuses f' = Some script"
    using m a(5) d by (auto simp: managed_script_of_def read_in_def split: if_splits)
  with a d show ?thesis by metis
qed

definition sample_tools :: package_tools where
  "sample_tools = \<lparr> pt_undionly = ''u'', pt_ipxe_efi = ''e'', pt_wimboot = ''w'',
     pt_loader = (\<lambda>wim. Some winpe_standard_loader_path), pt_store = (\<lambda>loader policy. Some ''store'') \<rparr>"

lemma refresh_succeeds:
  assumes "f boot_wim = Some wim" "pt_loader pt wim = Some loader" "\<And>policy. pt_store pt loader policy \<noteq> None"
  shows "\<exists>f'. refresh_package pt nothing new old f = (f', Ok True)"
proof -
  let ?policy = "if f usm_managed_layout_marker \<noteq> None then Usm_Legacy else Standard"
  obtain c where "pt_store pt loader ?policy = Some c" using assms(3) by blast
  then have "\<exists>f1. replace_boot_store nothing new old (pt_store pt loader ?policy) f = (f1, Ok ())"
    by (simp add: replace_boot_store_def Let_def)
  then show ?thesis using assms(1,2) by (auto simp: refresh_package_def Let_def write_each_nothing simp del: write_each.simps)
qed

lemma sample_refresh:
  "\<exists>f'. ensure_managed_network_boot sample_tools nothing ''boot/.BCD-1'' ''boot/.BCD-old-1'' sample_package = (f', Ok True)"
proof -
  have s: "sample_package legacy_native_iso_layout_marker = None" "sample_package v5_managed_layout_marker = None"
    "sample_package dynamic_boot_marker = None" "sample_package boot_script = Some managed_ipxe_script"
    "sample_package boot_wim = Some ''wim''" "list_all (\<lambda>p. sample_package p \<noteq> None) required_files"
    by (simp_all add: sample_package_def package_paths required_files_def)
  then have "managed_script_of nothing sample_package = Some managed_ipxe_script"
    by (simp add: managed_script_of_def dispatches_def read_in_def)
  moreover have "\<exists>f'. refresh_package sample_tools nothing ''boot/.BCD-1'' ''boot/.BCD-old-1'' sample_package = (f', Ok True)"
    using refresh_succeeds [of sample_package "''wim''" sample_tools winpe_standard_loader_path] s(5) by (simp add: sample_tools_def)
  ultimately show ?thesis
    using s sample_fallback(2,3) by (simp add: ensure_managed_network_boot_def)
qed

theorem refresh_keeps_dispatcher_witness:
  "\<exists>f'. ensure_managed_network_boot sample_tools nothing ''boot/.BCD-1'' ''boot/.BCD-old-1'' sample_package = (f', Ok True) \<and>
     \<not> dispatches nothing f' \<and> f' wimboot = Some ''w'' \<and> f' boot_store = Some ''store''"
proof -
  obtain f' where f': "ensure_managed_network_boot sample_tools nothing ''boot/.BCD-1'' ''boot/.BCD-old-1'' sample_package = (f', Ok True)"
    using sample_refresh by blast
  have "''boot/.BCD-1'' \<notin> set package_list" "''boot/.BCD-old-1'' \<notin> set package_list" "''boot/.BCD-1'' \<noteq> ''boot/.BCD-old-1''"
    by (simp_all add: package_list_def package_paths)
  from refresh_keeps_dispatcher [OF f' sample_fallback(3) this] have "dispatches nothing f' = dispatches nothing sample_package"
    "f' wimboot = Some ''w''" "f' boot_store = Some ''store''" by (auto simp: sample_tools_def)
  moreover have "sample_package dynamic_boot_marker = None" by (simp add: sample_package_def package_paths)
  ultimately show ?thesis using f' by (auto simp: dispatches_def)
qed

section \<open>Importing\<close>

text \<open>
  An import replaces the package by the staged one or leaves it; it is away only
  where both renames of the swap fail, and then it is kept beside.
\<close>

lemma import_replaces_or_keeps:
  "case import_inner plat h managed_root source bios uefi with_agent s of
     (s', Ok p) \<Rightarrow> (\<exists>t. is_root s' = Some t \<and> stage_package plat h source bios uefi with_agent = Ok t) \<and> is_leftovers s' = is_leftovers s
   | (s', failed) \<Rightarrow> is_root s' = is_root s \<or>
       (\<exists>before. is_root s = Some before \<and> is_root s' = None \<and> before \<in> set (is_leftovers s') \<and> \<not> ih_moves_new h \<and> \<not> ih_restores h)"
  by (auto simp: import_inner_def Let_def split: outcome.splits option.splits)

text \<open>A staged package stays behind where the swap fails.\<close>

lemma failed_swap_leaves_staging:
  assumes "stage_package plat h source bios uefi with_agent = Ok t" "is_root s = None" "\<not> ih_moves_new h"
  shows "import_inner plat h managed_root source bios uefi with_agent s = (s \<lparr> is_leftovers := t # is_leftovers s \<rparr>, Err Package_Io)"
  using assms by (simp add: import_inner_def)

text \<open>A boot file behind a link passes the check and is not in the imported package.\<close>

lemma linked_boot_file_is_lost:
  assumes "import_inner plat h managed_root source bios uefi False s = (s', Ok p)" "source bios = Some (Linked c)"
  shows "\<exists>t. is_root s' = Some t \<and> t bios = None"
proof -
  from assms(1) obtain t where t: "is_root s' = Some t" "stage_package plat h source bios uefi False = Ok t"
    by (auto simp: import_inner_def Let_def split: outcome.splits option.splits if_splits)
  then have "t = copy_tree source" by (auto simp: stage_package_def outcome_simps Let_def)
  with t(1) assms(2) show ?thesis by (simp add: copy_tree_def)
qed

end
