(* ===== verification/Device_Probe.thy ===== *)
theory Device_Probe
  imports Agent_Executor Device_Registry Unicode_Text Linux_Iso Text_Search
begin

text \<open>
  What the agent reads out of the answers of Windows about its hardware
  (\<open>crates/agent/src/windows_inventory.rs\<close>): the address of a network adapter, the
  numbers of the disks, their sizes and identities.  The answers themselves - the
  buffers the system calls fill and the output of the disk tool - are arguments.
\<close>

section \<open>Network adapters\<close>

record adapter =
  ap_address_length :: u32
  ap_address :: bytes
  ap_up :: bool

definition max_adapter_address_bytes :: u32 where "max_adapter_address_bytes = 1024 * 1024"

definition usable_mac_address :: "bytes \<Rightarrow> bool" where
  "usable_mac_address bs = (bs \<noteq> replicate 6 0 \<and> bs \<noteq> replicate 6 0xFF \<and> hd bs AND 1 = 0)"

definition format_mac_address :: "bytes \<Rightarrow> string" where
  "format_mac_address bs = join_colon (map hex_byte bs)"

text \<open>
  The walk along the chain of adapters: the first usable one that is up, else
  the first usable one.  The array of an address has eight bytes.
\<close>

fun choose_adapter :: "nat \<Rightarrow> string option \<Rightarrow> adapter list \<Rightarrow> string option" where
  "choose_adapter 0 fallback as = fallback"
| "choose_adapter (Suc n) fallback [] = fallback"
| "choose_adapter (Suc n) fallback (a # as) =
     (let bs = take 6 (ap_address a) in
      if ap_address_length a = 6 \<and> usable_mac_address bs then
        if ap_up a then Some (format_mac_address bs)
        else choose_adapter n (Some (case fallback of None \<Rightarrow> format_mac_address bs | Some f \<Rightarrow> f)) as
      else choose_adapter n fallback as)"

datatype probe_error =
    Sizing_Failed u32
  | Adapters_Failed u32
  | Invalid_Length
  | Invalid_Multi_Sz
  | Device_Failed
  | Zero_Capacity
  | Negative_Capacity
  | Truncated_Descriptor
  | Descriptor_Out_Of_Bounds
  | Invalid_System_Drive
  | Too_Many_Extents
  | Separator_Not_Found
  | No_Disk_Rows
  | No_Readable_Disk

definition collect_mac_address ::
  "u32 \<times> u32 \<Rightarrow> u32 \<Rightarrow> adapter list \<Rightarrow> (probe_error, string option) outcome" where
  "collect_mac_address sizing status adapters =
     (case sizing of (first, required) \<Rightarrow>
        if first \<noteq> 111 \<or> required = 0 \<or> required > max_adapter_address_bytes then Err (Sizing_Failed first)
        else if status \<noteq> 0 then Err (Adapters_Failed status)
        else Ok (choose_adapter 4096 None adapters))"

section \<open>Names of devices\<close>

fun split_units :: "u16 list \<Rightarrow> u16 list list" where
  "split_units [] = [[]]"
| "split_units (u # us) =
     (if u = 0 then [] # split_units us
      else case split_units us of [] \<Rightarrow> [[u]] | w # ws \<Rightarrow> (u # w) # ws)"

text \<open>\<open>String::from_utf16\<close>: the scalar values, and each in UTF-8.\<close>

fun utf16_scalars :: "u16 list \<Rightarrow> nat list option" where
  "utf16_scalars [] = Some []"
| "utf16_scalars (u # us) =
     (let n = unat u in
      if n < 0xD800 \<or> 0xE000 \<le> n then map_option (Cons n) (utf16_scalars us)
      else if 0xDC00 \<le> n then None
      else case us of
        [] \<Rightarrow> None
      | l # rest \<Rightarrow>
          if 0xDC00 \<le> unat l \<and> unat l < 0xE000
          then map_option (Cons (0x10000 + (n - 0xD800) * 1024 + (unat l - 0xDC00))) (utf16_scalars rest)
          else None)"

definition utf8_encode :: "nat \<Rightarrow> string" where
  "utf8_encode n =
     map char_of
       (if n < 0x80 then [n]
        else if n < 0x800 then [0xC0 + n div 64, 0x80 + n mod 64]
        else if n < 0x10000 then [0xE0 + n div 4096, 0x80 + n div 64 mod 64, 0x80 + n mod 64]
        else [0xF0 + n div 262144, 0x80 + n div 4096 mod 64, 0x80 + n div 64 mod 64, 0x80 + n mod 64])"

definition from_utf16 :: "u16 list \<Rightarrow> string option" where
  "from_utf16 us = map_option (\<lambda>ns. concat (map utf8_encode ns)) (utf16_scalars us)"

text \<open>A position where a text may be cut: its end or the start of a character.\<close>

definition char_boundary :: "nat \<Rightarrow> string \<Rightarrow> bool" where
  "char_boundary n s = (n = length s \<or> n < length s \<and> \<not> continues (s ! n))"

definition drive_name :: string where "drive_name = ''PhysicalDrive''"

definition drive_number :: "string \<Rightarrow> u32 option" where
  "drive_number name =
     (if \<not> char_boundary (length drive_name) name then None
      else
        let head = take (length drive_name) name; suffix = drop (length drive_name) name in
        if \<not> eq_ignore_case head drive_name \<or> suffix = [] \<or> \<not> list_all is_digit suffix then None
        else u32_of_digits suffix)"

text \<open>\<open>BTreeSet\<close>: in order, without duplicates.\<close>

definition ordered_set :: "u32 list \<Rightarrow> u32 list" where
  "ordered_set ns = sort (remdups ns)"

definition parse_dos_device_numbers :: "u16 list \<Rightarrow> u32 list" where
  "parse_dos_device_numbers names =
     ordered_set (List.map_filter drive_number (List.map_filter from_utf16 (split_units names)))"

definition max_dos_device_chars :: nat where "max_dos_device_chars = 1024 * 1024"

text \<open>
  The query with a growing buffer: a call is answered with the units it copied, or
  with an error and whether the buffer was too small.
\<close>

function query_dos_device_numbers ::
  "(nat \<Rightarrow> bool + u16 list) \<Rightarrow> nat \<Rightarrow> (probe_error, u32 list) outcome" where
  "query_dos_device_numbers answer capacity =
     (case answer capacity of
        Inr copied \<Rightarrow>
          if length copied > capacity \<or> copied = [] \<or> last copied \<noteq> 0 then Err Invalid_Multi_Sz
          else Ok (parse_dos_device_numbers copied)
      | Inl too_small \<Rightarrow>
          if \<not> too_small \<or> capacity = 0 \<or> capacity \<ge> max_dos_device_chars then Err Device_Failed
          else query_dos_device_numbers answer (min (capacity * 2) max_dos_device_chars))"
  by pat_completeness auto
termination by (relation "measure (\<lambda>(answer, capacity). max_dos_device_chars - capacity)") (auto simp: min_def)

declare query_dos_device_numbers.simps [simp del]

section \<open>Descriptors\<close>

text \<open>The prefix of a storage descriptor and the fields read from it, by their C layout.\<close>

definition storage_descriptor_prefix_len :: nat where "storage_descriptor_prefix_len = 36"
definition vendor_id_offset_field :: nat where "vendor_id_offset_field = 12"
definition product_id_offset_field :: nat where "product_id_offset_field = 16"
definition serial_number_offset_field :: nat where "serial_number_offset_field = 24"
definition max_storage_descriptor_bytes :: nat where "max_storage_descriptor_bytes = 64 * 1024"

definition read_u32 :: "bytes \<Rightarrow> nat \<Rightarrow> u32 option" where
  "read_u32 bs offset = map_option from_le (get_range offset (offset + 4) bs)"

definition descriptor_string :: "bytes \<Rightarrow> nat \<Rightarrow> string option" where
  "descriptor_string bs offset_field =
     Option.bind (read_u32 bs offset_field) (\<lambda>o32.
       let offset = unat o32 in
       if offset < storage_descriptor_prefix_len \<or> offset \<ge> length bs then None
       else if 0 \<notin> set (drop offset bs) then None
       else non_empty (trim (utf8_lossy (bytes_text (takeWhile (\<lambda>b. b \<noteq> 0) (drop offset bs))))))"

definition starts_with_word_ignore_ascii_case :: "string \<Rightarrow> string \<Rightarrow> bool" where
  "starts_with_word_ignore_ascii_case v prefix =
     (char_boundary (length prefix) v \<and> eq_ignore_case (take (length prefix) v) prefix \<and>
      (length prefix < length v \<longrightarrow> is_ascii_space (v ! length prefix)))"

record drive_identity =
  si_model :: "string option"
  si_serial :: "string option"

definition parse_storage_descriptor :: "bytes \<Rightarrow> (probe_error, drive_identity) outcome" where
  "parse_storage_descriptor bs =
     and_then (ensure (storage_descriptor_prefix_len \<le> length bs) Truncated_Descriptor) (\<lambda>_.
     and_then (ok_or (read_u32 bs 4) Truncated_Descriptor) (\<lambda>declared.
     and_then (ensure (storage_descriptor_prefix_len \<le> unat declared \<and> unat declared \<le> length bs)
       Descriptor_Out_Of_Bounds) (\<lambda>_.
     let bs = take (unat declared) bs in
     Ok \<lparr> si_model =
          (case (descriptor_string bs vendor_id_offset_field, descriptor_string bs product_id_offset_field) of
             (Some vendor, Some product) \<Rightarrow>
               Some (if starts_with_word_ignore_ascii_case product vendor then product
                     else vendor @ '' '' @ product)
           | (Some v, None) \<Rightarrow> Some v
           | (None, v) \<Rightarrow> v),
          si_serial = descriptor_string bs serial_number_offset_field \<rparr>)))"

definition identity_fields :: "drive_identity \<Rightarrow> u32 \<Rightarrow> string \<times> string option" where
  "identity_fields i n =
     (case si_model i of None \<Rightarrow> ''Physical Disk '' @ dec (unat n) | Some m \<Rightarrow> m, si_serial i)"

section \<open>One disk\<close>

text \<open>
  What a drive answers: whether it opens, the bytes and value of its length, the
  bytes of the descriptor's header and of the descriptor for a buffer of some
  size.  A buffer holds what was written into its zeros.
\<close>

record drive_answers =
  da_opens :: bool
  da_length :: "(nat \<times> 64 word) option"
  da_header :: "(nat \<times> bytes) option"
  da_descriptor :: "nat \<Rightarrow> (nat \<times> bytes) option"

definition buffer_of :: "nat \<Rightarrow> bytes \<Rightarrow> bytes" where
  "buffer_of n bs = take n (bs @ replicate n 0)"

definition disk_length :: "drive_answers \<Rightarrow> (probe_error, u64) outcome" where
  "disk_length d =
     and_then (ok_or (da_length d) Device_Failed) (\<lambda>(returned, len).
     and_then (ensure (returned = 8) Invalid_Length) (\<lambda>_.
     and_then (ensure (0 \<le> sint len) Negative_Capacity) (\<lambda>_. Ok len)))"

definition storage_identity :: "drive_answers \<Rightarrow> (probe_error, drive_identity) outcome" where
  "storage_identity d =
     and_then (ok_or (da_header d) Device_Failed) (\<lambda>(returned, header).
     and_then (ensure (returned = 8) Invalid_Length) (\<lambda>_.
     and_then (ok_or (read_u32 (buffer_of 8 header) 4) Truncated_Descriptor) (\<lambda>len.
     and_then (ensure (storage_descriptor_prefix_len \<le> unat len \<and> unat len \<le> max_storage_descriptor_bytes)
       Descriptor_Out_Of_Bounds) (\<lambda>_.
     and_then (ok_or (da_descriptor d (unat len)) Device_Failed) (\<lambda>(returned, descriptor).
     and_then (ensure (returned \<le> unat len) Invalid_Length) (\<lambda>_.
     parse_storage_descriptor (take returned (buffer_of (unat len) descriptor))))))))"

definition drive_path :: "u32 \<Rightarrow> string" where
  "drive_path n = [CHR 0x5C, CHR 0x5C, CHR ''.'', CHR 0x5C] @ drive_name @ dec (unat n)"

definition read_disk :: "drive_answers \<Rightarrow> u32 \<Rightarrow> bool \<Rightarrow> (probe_error, disk) outcome" where
  "read_disk d n is_system =
     and_then (ensure (da_opens d) Device_Failed) (\<lambda>_.
     and_then (disk_length d) (\<lambda>size_bytes.
     and_then (ensure (size_bytes \<noteq> 0) Zero_Capacity) (\<lambda>_.
     let (model, serial) = identity_fields
           (case storage_identity d of Ok i \<Rightarrow> i | _ \<Rightarrow> \<lparr> si_model = None, si_serial = None \<rparr>) n in
     Ok \<lparr> disk_id = drive_path n, disk_model = model, disk_serial = serial,
          disk_size_bytes = size_bytes, disk_is_system = is_system \<rparr>)))"

section \<open>The system volume\<close>

definition max_volume_extents :: nat where "max_volume_extents = 1024"
definition extent_offset :: nat where "extent_offset = 8"
definition extent_size :: nat where "extent_size = 24"

definition system_drive_letter :: "string \<Rightarrow> string option" where
  "system_drive_letter env =
     (let d = rev (dropWhile (\<lambda>c. c = CHR 0x5C \<or> c = CHR ''/'') (rev (trim env))) in
      if length d = 2 \<and> d ! 1 = CHR '':'' \<and> (is_upper (d ! 0) \<or> is_lower (d ! 0)) then Some d else None)"

text \<open>The disks a volume extends over, from the bytes the query returned.\<close>

definition system_disk_numbers ::
  "string option \<Rightarrow> (string \<Rightarrow> (nat \<times> bytes) option) \<Rightarrow> (probe_error, u32 list) outcome" where
  "system_disk_numbers env extents =
     and_then (ok_or (Option.bind env system_drive_letter) Invalid_System_Drive) (\<lambda>drive.
     let buffer_len = extent_offset + max_volume_extents * extent_size in
     and_then (ok_or (extents drive) Device_Failed) (\<lambda>(returned, answer).
     and_then (ensure (extent_offset \<le> returned \<and> returned \<le> buffer_len) Invalid_Length) (\<lambda>_.
     let buffer = take returned (buffer_of buffer_len answer) in
     and_then (ok_or (read_u32 buffer 0) Truncated_Descriptor) (\<lambda>count.
     and_then (ensure (unat count \<le> max_volume_extents) Too_Many_Extents) (\<lambda>_.
     and_then (ensure (extent_offset + unat count * extent_size \<le> returned) Truncated_Descriptor) (\<lambda>_.
     and_then (ok_or (those (map (\<lambda>i. read_u32 buffer (extent_offset + i * extent_size)) [0..<unat count]))
       Truncated_Descriptor) (\<lambda>numbers. Ok (ordered_set numbers))))))))"

section \<open>The table of the disk tool\<close>

text \<open>The output is bytes in the code page of the system, one \<open>char\<close> per byte.\<close>

text \<open>The first pair of blanks: \<open>windows(2).position\<close>.\<close>

fun blank_pair :: "string \<Rightarrow> nat option" where
  "blank_pair (a # b # s) =
     (if is_ascii_space a \<and> is_ascii_space b then Some 0 else map_option Suc (blank_pair (b # s)))"
| "blank_pair s = None"

definition size_units :: "string list" where
  "size_units = [''B'', ''KB'', ''MB'', ''GB'', ''TB'', ''PB'']"

definition contains_size_unit :: "string \<Rightarrow> bool" where
  "contains_size_unit s = list_ex (\<lambda>w. map to_upper w \<in> set size_units) (ascii_words s)"

definition parse_diskpart_row :: "string \<Rightarrow> u32 option" where
  "parse_diskpart_row line =
     Option.bind (blank_pair line) (\<lambda>cell_end.
     let first_cell = trim_ascii (take cell_end line) in
     Option.bind (position is_digit first_cell) (\<lambda>digit_start.
     if digit_start = 0 \<or> \<not> is_ascii_space (first_cell ! (digit_start - 1)) then None
     else
       let prefix = trim_ascii (take digit_start first_cell) in
       if prefix = [] \<or> list_ex is_digit prefix then None
       else
         let digit_end = (case position (\<lambda>c. \<not> is_digit c) (drop digit_start first_cell) of
               None \<Rightarrow> length first_cell | Some offset \<Rightarrow> digit_start + offset) in
         if trim_ascii (drop digit_end first_cell) \<noteq> [] then None
         else Option.bind (u32_of_digits (take (digit_end - digit_start) (drop digit_start first_cell))) (\<lambda>n.
           if contains_size_unit (drop cell_end line) then Some n else None)))"

definition is_diskpart_separator :: "string \<Rightarrow> bool" where
  "is_diskpart_separator line =
     (let line = trim_ascii line in
      list_all (\<lambda>c. is_ascii_space c \<or> c = CHR ''-'') line \<and>
      2 \<le> length (filter (\<lambda>g. list_all (\<lambda>c. c = CHR ''-'') g \<and> 3 \<le> length g) (ascii_words line)))"

text \<open>The header is the last line above the separator that is not blank.\<close>

definition header_above :: "string list \<Rightarrow> bool" where
  "header_above ls =
     (case find (\<lambda>l. l \<noteq> []) (map trim_ascii (rev ls)) of
        None \<Rightarrow> False | Some header \<Rightarrow> contains_text ''###'' header)"

definition table_separator :: "string list \<Rightarrow> nat option" where
  "table_separator ls =
     find (\<lambda>i. is_diskpart_separator (ls ! i) \<and> header_above (take i ls)) [0..<length ls]"

fun disk_rows :: "u32 list \<Rightarrow> string list \<Rightarrow> u32 list" where
  "disk_rows numbers [] = numbers"
| "disk_rows numbers (l # ls) =
     (let line = trim_ascii l in
      if line = [] then (if numbers \<noteq> [] then numbers else disk_rows numbers ls)
      else disk_rows (case parse_diskpart_row line of None \<Rightarrow> numbers | Some n \<Rightarrow> numbers @ [n]) ls)"

definition parse_diskpart_disk_numbers :: "string \<Rightarrow> (probe_error, u32 list) outcome" where
  "parse_diskpart_disk_numbers output =
     (let ls = split_on (\<lambda>c. c = newline) output in
      and_then (ok_or (table_separator ls) Separator_Not_Found) (\<lambda>i.
        let numbers = disk_rows [] (drop (Suc i) ls) in
        if numbers = [] then Err No_Disk_Rows else Ok (ordered_set numbers)))"

section \<open>The inventory\<close>

definition diskpart_disk_numbers :: "(bool \<times> string) option \<Rightarrow> (probe_error, u32 list) outcome" where
  "diskpart_disk_numbers run =
     and_then (ok_or run Device_Failed) (\<lambda>(success, output).
     and_then (ensure success Device_Failed) (\<lambda>_. parse_diskpart_disk_numbers output))"

definition enumerate_disk_numbers ::
  "(nat \<Rightarrow> bool + u16 list) \<Rightarrow> (bool \<times> string) option \<Rightarrow> (probe_error, u32 list) outcome" where
  "enumerate_disk_numbers answer run =
     (case query_dos_device_numbers answer (32 * 1024) of
        Ok numbers \<Rightarrow> if numbers \<noteq> [] then Ok numbers else diskpart_disk_numbers run
      | _ \<Rightarrow> diskpart_disk_numbers run)"

record probe_world =
  pw_dos_names :: "nat \<Rightarrow> bool + u16 list"
  pw_diskpart :: "(bool \<times> string) option"
  pw_system_drive :: "string option"
  pw_extents :: "string \<Rightarrow> (nat \<times> bytes) option"
  pw_drive :: "u32 \<Rightarrow> drive_answers"

text \<open>A disk that cannot be read is skipped; none at all is an error.\<close>

definition collect_disks :: "probe_world \<Rightarrow> (probe_error, disk list) outcome" where
  "collect_disks w =
     and_then (enumerate_disk_numbers (pw_dos_names w) (pw_diskpart w)) (\<lambda>numbers.
     let system_disks = (case system_disk_numbers (pw_system_drive w) (pw_extents w) of Ok ns \<Rightarrow> ns | _ \<Rightarrow> []);
         disks = List.map_filter (\<lambda>n. case read_disk (pw_drive w n) n (n \<in> set system_disks) of
           Ok d \<Rightarrow> Some d | _ \<Rightarrow> None) numbers in
     if disks = [] then Err No_Readable_Disk else Ok disks)"

section \<open>The address an adapter is registered with\<close>

lemma hex_digit_upper: "n < 16 \<Longrightarrow> upper_hex (upper_hex_digit n)"
  by (auto simp: upper_hex_def upper_hex_digit_def is_hex_def is_digit_def to_upper_def is_lower_def)

lemma hex_byte_upper: "list_all upper_hex (hex_byte b)" "length (hex_byte b) = 2"
proof -
  have "unat b < 256" using unsigned_less [of b, where 'a = nat] by simp
  then have "unat b div 16 < 16" "unat b mod 16 < 16" by (simp_all add: less_mult_imp_div_less)
  then show "list_all upper_hex (hex_byte b)" by (simp add: hex_byte_def hex_digit_upper)
qed (simp add: hex_byte_def)

lemma join_colon_pairs: "join_colon (map hex_byte bs) = colon_pairs (concat (map hex_byte bs))"
proof (induction bs rule: induct_list012)
  case (3 a b bs)
  then show ?case by (simp add: hex_byte_def)
qed (simp_all add: hex_byte_def)

lemma formatted_mac:
  assumes "length bs = 6"
  shows "normalize_mac_address (format_mac_address bs) = Ok (format_mac_address bs)"
proof -
  let ?h = "concat (map hex_byte bs)"
  have hex: "list_all upper_hex ?h" by (simp add: list_all_iff hex_byte_upper [unfolded list_all_iff])
  then have h: "list_all is_hex ?h" "map to_upper ?h = ?h"
    by (auto simp: list_all_iff upper_hex_def map_concat intro!: map_idI arg_cong [of _ _ concat])
  have "length ?h = 12" using assms by (simp add: length_concat comp_def hex_byte_upper sum_list_triv)
  with h show ?thesis
    by (simp add: normalize_mac_Ok format_mac_address_def join_colon_pairs filter_hex_colon_pairs)
qed

lemma choose_adapter_Some:
  "choose_adapter n fallback as = Some m \<Longrightarrow>
   fallback = Some m \<or> (\<exists>a \<in> set (take n as). ap_address_length a = 6 \<and>
     usable_mac_address (take 6 (ap_address a)) \<and> m = format_mac_address (take 6 (ap_address a)))"
  by (induction n fallback as rule: choose_adapter.induct)
    (auto simp: Let_def split: if_splits option.splits)

text \<open>
  The address the agent reads from an adapter is the one it is known
  by: it is the address of a usable adapter, and the registry takes it as it
  is, so the registration, every heartbeat and a DHCP request of that adapter
  name the same device.
\<close>

theorem probed_address_is_registered:
  assumes "collect_mac_address sizing status adapters = Ok (Some m)"
    and "\<forall>a \<in> set adapters. length (ap_address a) = 8"
  shows "normalize_mac_address m = Ok m \<and>
    (\<exists>a \<in> set adapters. ap_address_length a = 6 \<and> usable_mac_address (take 6 (ap_address a)) \<and>
       m = join_colon (map hex_byte (take 6 (ap_address a))))"
proof -
  have "choose_adapter 4096 None adapters = Some m"
    using assms(1) by (auto simp: collect_mac_address_def split: prod.splits if_splits)
  from choose_adapter_Some [OF this] obtain a where
    a: "a \<in> set adapters" "ap_address_length a = 6" "usable_mac_address (take 6 (ap_address a))"
      "m = format_mac_address (take 6 (ap_address a))"
    by (auto dest: in_set_takeD)
  have "normalize_mac_address m = Ok m"
    unfolding a(4) using assms(2) a(1) by (intro formatted_mac) auto
  with a show ?thesis by (auto simp: format_mac_address_def)
qed

section \<open>Disks and their numbers\<close>

lemma drive_path_number: "physical_drive_number (drive_path n) = Ok n"
proof -
  have "visible (last (dec (unat n)))"
    using bspec [OF dec_digits [of "unat n", unfolded list_all_iff] last_in_set [OF dec_not_Nil]]
    by (simp add: is_digit_def visible_def)
  then have trimmed: "trim (drive_path n) = drive_path n"
    by (intro trim_visible) (simp_all add: drive_path_def drive_name_def visible_def byte_def)
  have lower: "map to_lower (dec (unat n)) = dec (unat n)"
    using dec_digits [of "unat n"] by (auto simp: list_all_iff to_lower_def is_upper_def is_digit_def intro!: map_idI)
  have "map to_lower ([CHR 0x5C, CHR 0x5C, CHR ''.'', CHR 0x5C] @ drive_name) = physical_drive_prefix"
    by code_simp
  then have "map to_lower (drive_path n) = physical_drive_prefix @ dec (unat n)"
    using lower by (simp add: drive_path_def)
  moreover have "u32_from_str (dec (unat n)) = Some n"
  proof -
    have "unat n < 2 ^ 32" using unsigned_less [of n, where 'a = nat] by simp
    then have "u32_of_digits (dec (unat n)) = Some n" by (simp add: u32_of_digits_def dec_digits)
    moreover obtain c t where c: "dec (unat n) = c # t" by (cases "dec (unat n)") auto
    moreover have "c \<noteq> CHR ''+''" using dec_digits [of "unat n"] by (auto simp: c is_digit_def byte_def)
    ultimately show ?thesis by (simp add: u32_from_str_def)
  qed
  ultimately show ?thesis by (simp add: physical_drive_number_def trimmed strip_prefix_def starts_with_def)
qed

lemma ordered_set_facts [simp]: "set (ordered_set ns) = set ns" "sorted (ordered_set ns)" "distinct (ordered_set ns)"
  by (simp_all add: ordered_set_def)

lemma ordered_set_empty [simp]: "ordered_set ns = [] \<longleftrightarrow> ns = []"
  using ordered_set_facts(1) [of ns] by (metis set_empty)

lemma diskpart_ordered: "diskpart_disk_numbers run = Ok ns \<Longrightarrow> distinct ns \<and> sorted ns"
  by (auto simp: diskpart_disk_numbers_def parse_diskpart_disk_numbers_def outcome_simps Let_def split: if_splits)

lemma query_ordered: "query_dos_device_numbers answer c = Ok ns \<Longrightarrow> distinct ns \<and> sorted ns"
proof (induction answer c rule: query_dos_device_numbers.induct)
  case (1 answer capacity)
  then show ?case
    by (subst (asm) (2) query_dos_device_numbers.simps)
      (auto simp: parse_dos_device_numbers_def split: sum.splits if_splits)
qed

lemma enumerated_ordered: "enumerate_disk_numbers answer run = Ok ns \<Longrightarrow> distinct ns \<and> sorted ns"
  by (auto simp: enumerate_disk_numbers_def split: outcome.splits if_splits dest: diskpart_ordered query_ordered)

lemma read_disk_Ok:
  "read_disk d n is_system = Ok x \<Longrightarrow>
     disk_id x = drive_path n \<and> disk_is_system x = is_system \<and> disk_size_bytes x \<noteq> 0 \<and>
     disk_length d = Ok (disk_size_bytes x)"
  by (cases "identity_fields (case storage_identity d of Ok i \<Rightarrow> i | _ \<Rightarrow> \<lparr> si_model = None, si_serial = None \<rparr>) n")
    (auto simp: read_disk_def outcome_simps)

lemma distinct_map_filter_inj:
  assumes "distinct ns" "\<And>n x. f n = Some x \<Longrightarrow> g (h x) = n"
  shows "distinct (map h (List.map_filter f ns))"
  using assms(1)
proof (induction ns)
  case (Cons n ns)
  have "h x \<notin> h ` set (List.map_filter f ns)" if "f n = Some x" for x
    using Cons.prems assms(2) that by (auto simp: map_filter_def) (metis option.sel)
  with Cons show ?case by (simp add: map_filter_simps split: option.split)
qed (simp add: map_filter_simps)

text \<open>
  The disks of an inventory are those the agent can act on: the list
  is not empty, no two entries share an identifier, each has the size its drive
  answered, which is not zero, and the identifier reads back as the number of
  that drive, by which the layout of a deployment selects it.
\<close>

theorem inventory_addresses_its_disks:
  assumes "collect_disks w = Ok disks"
  shows "disks \<noteq> [] \<and> distinct (map disk_id disks) \<and>
    (\<forall>d \<in> set disks. \<exists>n. physical_drive_number (disk_id d) = Ok n \<and>
       disk_length (pw_drive w n) = Ok (disk_size_bytes d) \<and> disk_size_bytes d \<noteq> 0)"
proof -
  define sys where "sys = (case system_disk_numbers (pw_system_drive w) (pw_extents w) of Ok ns \<Rightarrow> ns | _ \<Rightarrow> [])"
  define f where "f = (\<lambda>n. case read_disk (pw_drive w n) n (n \<in> set sys) of Ok d \<Rightarrow> Some d | _ \<Rightarrow> None)"
  obtain ns where ns: "enumerate_disk_numbers (pw_dos_names w) (pw_diskpart w) = Ok ns"
    and disks: "disks = List.map_filter f ns" "disks \<noteq> []"
    using assms by (auto simp: collect_disks_def outcome_simps Let_def f_def sys_def split: if_splits)
  have f: "disk_id d = drive_path n \<and> disk_length (pw_drive w n) = Ok (disk_size_bytes d) \<and> disk_size_bytes d \<noteq> 0"
    if "f n = Some d" for n d
    using that by (auto simp: f_def split: outcome.splits dest: read_disk_Ok)
  have "(case physical_drive_number (disk_id d) of Ok k \<Rightarrow> k | _ \<Rightarrow> 0) = n" if "f n = Some d" for n d
    using f [OF that] drive_path_number [of n] by simp
  then have "distinct (map disk_id disks)"
    unfolding disks(1) using enumerated_ordered [OF ns]
    by (intro distinct_map_filter_inj [where g = "\<lambda>i. case physical_drive_number i of Ok k \<Rightarrow> k | _ \<Rightarrow> 0"]) simp_all
  moreover have "\<exists>n. physical_drive_number (disk_id d) = Ok n \<and>
      disk_length (pw_drive w n) = Ok (disk_size_bytes d) \<and> disk_size_bytes d \<noteq> 0" if "d \<in> set disks" for d
  proof -
    from that obtain n where "f n = Some d" unfolding disks(1) by (auto simp: map_filter_def)
    with f [OF this] drive_path_number [of n] show ?thesis by auto
  qed
  ultimately show ?thesis using disks(2) by blast
qed

section \<open>Reading a table\<close>

text \<open>A row as the tool prints it: indented, a name, the number, at least two blanks, the columns.\<close>

record table_row =
  tr_indent :: string
  tr_name :: string
  tr_number :: u32
  tr_columns :: string
  tr_end :: string

definition row_core :: "table_row \<Rightarrow> string" where
  "row_core r = tr_name r @ '' '' @ dec (unat (tr_number r)) @ ''  '' @ tr_columns r"

definition row_text :: "table_row \<Rightarrow> string" where
  "row_text r = tr_indent r @ row_core r @ tr_end r"

definition solid :: "string \<Rightarrow> bool" where
  "solid s = (s \<noteq> [] \<and> \<not> is_ascii_space (hd s) \<and> \<not> is_ascii_space (last s))"

definition row_printed :: "table_row \<Rightarrow> bool" where
  "row_printed r =
     (list_all is_ascii_space (tr_indent r) \<and> list_all is_ascii_space (tr_end r) \<and>
      solid (tr_name r) \<and> blank_pair (tr_name r) = None \<and> \<not> list_ex is_digit (tr_name r) \<and>
      solid (tr_columns r) \<and> contains_size_unit (''  '' @ tr_columns r))"

lemma space_char [simp]: "is_ascii_space (CHR '' '')"
  by (simp add: is_ascii_space_def byte_def)

lemma digit_no_space: "is_digit c \<Longrightarrow> \<not> is_ascii_space c"
  by (auto simp: is_digit_def is_ascii_space_def)

lemma trim_ascii_solid:
  assumes "list_all is_ascii_space p" "solid s" "list_all is_ascii_space q"
  shows "trim_ascii (p @ s @ q) = s"
proof -
  obtain a t where a: "s = a # t" "\<not> is_ascii_space a" using assms(2) by (cases s) (auto simp: solid_def)
  obtain u b where b: "s = u @ [b]" "\<not> is_ascii_space b"
    using assms(2) by (cases s rule: rev_cases) (auto simp: solid_def)
  have "dropWhile is_ascii_space (p @ s @ q) = s @ q"
    using assms(1) a by (subst dropWhile_append2) (auto simp: list_all_iff)
  moreover have "dropWhile is_ascii_space (rev q @ rev s) = rev s"
    using assms(3) b by (subst dropWhile_append2) (auto simp: list_all_iff)
  ultimately show ?thesis by (simp add: trim_ascii_def)
qed

lemma trim_solid [simp]: "solid s \<Longrightarrow> trim_ascii s = s"
  using trim_ascii_solid [of "[]" s "[]"] by simp

lemma blank_pair_append:
  "blank_pair xs = None \<Longrightarrow> xs = [] \<or> \<not> is_ascii_space (last xs) \<Longrightarrow>
   blank_pair (xs @ ys) = map_option (\<lambda>i. i + length xs) (blank_pair ys)"
proof (induction xs)
  case (Cons x xs)
  show ?case
  proof (cases xs)
    case Nil
    with Cons.prems show ?thesis by (cases ys) simp_all
  next
    case (Cons z zs)
    with Cons.IH Cons.prems show ?thesis
      by (auto simp: option.map_comp comp_def split: if_splits)
  qed
qed (simp add: option.map_ident)

lemma blank_pair_solid: "\<not> list_ex is_ascii_space xs \<Longrightarrow> blank_pair xs = None"
  by (induction xs rule: blank_pair.induct) auto

lemma u32_of_dec: "u32_of_digits (dec (unat n)) = Some n"
  using unsigned_less [of n, where 'a = nat] by (simp add: u32_of_digits_def dec_digits)

lemma row_parsed:
  assumes "row_printed r"
  shows "trim_ascii (row_text r) = row_core r" "row_core r \<noteq> []"
    and "parse_diskpart_row (row_core r) = Some (tr_number r)"
proof -
  let ?n = "dec (unat (tr_number r))"
  let ?cell = "tr_name r @ '' '' @ ?n"
  have digits: "list_all is_digit ?n" by (rule dec_digits)
  have no_space: "\<not> list_ex is_ascii_space ?n"
    using digits digit_no_space by (auto simp: list_all_iff list_ex_iff)
  have last_n: "\<not> is_ascii_space (last ?n)" "is_digit (last ?n)"
    using digits no_space last_in_set [OF dec_not_Nil [of "unat (tr_number r)"]]
    by (auto simp: list_all_iff list_ex_iff)
  have name: "solid (tr_name r)" "blank_pair (tr_name r) = None" "\<not> list_ex is_digit (tr_name r)"
    using assms by (simp_all add: row_printed_def)
  have core: "solid (row_core r)" "solid ?cell"
    using assms last_n by (auto simp: row_core_def row_printed_def solid_def)
  with assms show "trim_ascii (row_text r) = row_core r" "row_core r \<noteq> []"
    by (auto simp: row_text_def row_printed_def solid_def intro!: trim_ascii_solid)
  have tail: "blank_pair ('' '' @ ?n @ ys) = map_option Suc (blank_pair (?n @ ys))" for ys
    using no_space by (cases ?n) auto
  define k where "k = length ?cell"
  have "blank_pair ?cell = None"
    using name(1) blank_pair_append [OF name(2), of "'' '' @ ?n"] tail [of "[]"] blank_pair_solid [OF no_space]
    by (simp add: solid_def)
  then have pair: "blank_pair (row_core r) = Some k"
    using blank_pair_append [of ?cell "''  '' @ tr_columns r"] last_n(1) by (simp add: row_core_def k_def)
  have cell: "take k (row_core r) = ?cell" "drop k (row_core r) = ''  '' @ tr_columns r"
    by (simp_all add: row_core_def k_def)
  have start: "position is_digit ?cell = Some (Suc (length (tr_name r)))"
  proof -
    have "position is_digit ?n = Some 0" using digits by (cases ?n) auto
    moreover have "\<not> list_ex is_digit (tr_name r @ '' '')"
      using name(3) by (simp add: is_digit_def byte_def)
    ultimately show ?thesis using position_append [of is_digit "tr_name r @ '' ''" ?n] by simp
  qed
  define c where "c = ?cell"
  define m where "m = Suc (length (tr_name r))"
  have c: "take m c = tr_name r @ '' ''" "drop m c = ?n" "c ! (m - 1) = CHR '' ''" "drop (length c) c = []"
    by (simp_all add: c_def m_def nth_append)
  have parts: "trim_ascii (take k (row_core r)) = c" "position is_digit c = Some m"
    "drop k (row_core r) = ''  '' @ tr_columns r" "m \<noteq> 0" "length c - m = length ?n"
    using core(2) cell start by (simp_all add: c_def m_def)
  have "trim_ascii (tr_name r @ '' '') = tr_name r"
    using trim_ascii_solid [of "[]" "tr_name r" "'' ''"] name(1) by simp
  moreover have "position (\<lambda>c. \<not> is_digit c) ?n = None"
    using digits by (intro position_None) (simp add: list_ex_iff list_all_iff)
  moreover have "trim_ascii [] = []" by (simp add: trim_ascii_def)
  moreover have "tr_name r \<noteq> []" "contains_size_unit (''  '' @ tr_columns r)"
    using assms name(1) by (simp_all add: row_printed_def solid_def)
  ultimately show "parse_diskpart_row (row_core r) = Some (tr_number r)"
    unfolding parse_diskpart_row_def pair bind.bind_lunit Let_def parts(1,2,3) c(1,2,3)
    using name(3) parts(4,5) c(4) by (simp add: u32_of_dec)
qed

lemma rows_read:
  assumes "list_all row_printed rows" "acc \<noteq> [] \<or> rows \<noteq> []" "rest = [] \<or> trim_ascii (hd rest) = []"
  shows "disk_rows acc (map row_text rows @ rest) = acc @ map tr_number rows"
  using assms
proof (induction rows arbitrary: acc)
  case Nil
  then show ?case by (cases rest) simp_all
next
  case (Cons r rows)
  then show ?case using row_parsed [of r] by (simp add: Let_def)
qed

lemma find_least: "P i \<Longrightarrow> i < n \<Longrightarrow> \<forall>j < i. \<not> P j \<Longrightarrow> find P [0..<n] = Some i"
proof -
  assume "P i" "i < n" "\<forall>j < i. \<not> P j"
  moreover from this have "[0..<n] = [0..<i] @ i # [Suc i..<n]"
    by (metis le_add1 less_imp_le_nat plus_nat.add_0 upt_add_eq_append upt_conv_Cons le_Suc_ex)
  ultimately show ?thesis by (auto intro: find_hit)
qed

text \<open>
  When the native list of devices is not to be had, the disks are read
  from the table the disk tool prints, in whatever language: below a banner
  without a separator line, a header with the mark, a separator and rows of a
  name, a number and columns that name a size, up to a blank line, the numbers
  found are exactly those of the rows, in order and once each.
\<close>

theorem disk_table_is_read:
  assumes "split_on (\<lambda>c. c = newline) output =
      banner @ header # separator # map row_text rows @ rest"
    and "\<forall>l \<in> set (header # banner). \<not> is_diskpart_separator l"
    and "contains_text ''###'' (trim_ascii header)" "trim_ascii header \<noteq> []" "is_diskpart_separator separator"
    and "list_all row_printed rows" "rows \<noteq> []" "rest = [] \<or> trim_ascii (hd rest) = []"
  shows "parse_diskpart_disk_numbers output = Ok (ordered_set (map tr_number rows))"
proof -
  let ?ls = "banner @ header # separator # map row_text rows @ rest"
  have "table_separator ?ls = Some (Suc (length banner))"
    unfolding table_separator_def
  proof (rule find_least)
    show "is_diskpart_separator (?ls ! Suc (length banner)) \<and> header_above (take (Suc (length banner)) ?ls)"
      using assms(3-5) by (simp add: nth_append header_above_def)
    show "\<forall>j < Suc (length banner). \<not> (is_diskpart_separator (?ls ! j) \<and> header_above (take j ?ls))"
      using assms(2) by (auto simp: nth_append less_Suc_eq)
  qed simp
  moreover have "disk_rows [] (map row_text rows @ rest) = map tr_number rows"
    using rows_read [of rows "[]" rest] assms(6-8) by simp
  ultimately show ?thesis
    using assms(7) by (simp add: parse_diskpart_disk_numbers_def assms(1) Let_def)
qed

section \<open>Concrete answers\<close>

definition sample_adapter :: adapter where
  "sample_adapter = \<lparr> ap_address_length = 6, ap_address = [0, 0x0C, 0x29, 0xEE, 0x3E, 0x8D, 0, 0], ap_up = True \<rparr>"

theorem probed_address_is_registered_witness:
  "collect_mac_address (111, 500) 0 [sample_adapter] = Ok (Some ''00:0C:29:EE:3E:8D'') \<and>
   normalize_mac_address ''00:0C:29:EE:3E:8D'' = Ok ''00:0C:29:EE:3E:8D''"
proof -
  have chosen: "choose_adapter (Suc n) None [a] = Some (format_mac_address (take 6 (ap_address a)))"
    if "usable_mac_address (take 6 (ap_address a))" "ap_address_length a = 6" "ap_up a" for a n
    using that by simp
  have usable: "usable_mac_address (take 6 (ap_address sample_adapter))" "ap_address_length sample_adapter = 6"
    "ap_up sample_adapter"
    by code_simp+
  have printed: "format_mac_address (take 6 (ap_address sample_adapter)) = ''00:0C:29:EE:3E:8D''"
    by code_simp
  have "choose_adapter (Suc n) None [sample_adapter] = Some ''00:0C:29:EE:3E:8D''" for n
    unfolding chosen [OF usable] printed by (rule refl)
  from this [of 4095] have "choose_adapter 4096 None [sample_adapter] = Some ''00:0C:29:EE:3E:8D''" by simp
  then have run: "collect_mac_address (111, 500) 0 [sample_adapter] = Ok (Some ''00:0C:29:EE:3E:8D'')"
    by (simp add: collect_mac_address_def max_adapter_address_bytes_def)
  have "\<forall>a \<in> set [sample_adapter]. length (ap_address a) = 8" by (simp add: sample_adapter_def)
  from probed_address_is_registered [OF run this] run show ?thesis by blast
qed

definition sample_drive :: drive_answers where
  "sample_drive = \<lparr> da_opens = True, da_length = Some (8, 274877906944), da_header = None, da_descriptor = (\<lambda>n. None) \<rparr>"

definition sample_rows :: "table_row list" where
  "sample_rows =
     [\<lparr> tr_indent = ''  '', tr_name = ''Disk'', tr_number = 0, tr_columns = ''Online 256 GB'', tr_end = [return] \<rparr>]"

definition sample_table :: string where
  "sample_table = ''DiskPart'' @ [newline] @ '' Disk ###  Size'' @ [newline] @ '' --------  ---'' @ [newline] @
     ''  Disk 0  Online 256 GB'' @ [return, newline]"

lemma sample_columns:
  "dec 0 = ''0''" "row_printed (hd sample_rows)"
  by code_simp+

theorem disk_table_is_read_witness: "parse_diskpart_disk_numbers sample_table = Ok [0]"
proof -
  have rows: "map row_text sample_rows = [''  Disk 0  Online 256 GB'' @ [return]]"
    by (simp add: sample_rows_def row_text_def row_core_def sample_columns)
  have split: "split_on (\<lambda>c. c = newline) sample_table =
      [''DiskPart''] @ '' Disk ###  Size'' # '' --------  ---'' # map row_text sample_rows @ [[]]"
    unfolding rows by code_simp
  have marks: "\<not> is_diskpart_separator ''DiskPart''" "\<not> is_diskpart_separator '' Disk ###  Size''"
    "contains_text ''###'' (trim_ascii '' Disk ###  Size'')" "is_diskpart_separator '' --------  ---''"
    "trim_ascii [] = []" "trim_ascii '' Disk ###  Size'' \<noteq> []"
    by code_simp+
  from disk_table_is_read [OF split] marks sample_columns(2) show ?thesis
    by (simp add: sample_rows_def ordered_set_def)
qed

definition sample_names :: "u16 list" where
  "sample_names = map (\<lambda>c. word_of_nat (byte c)) ''PhysicalDrive0'' @ [0, 0]"

lemma ascii_from_utf16: "list_all is_ascii s \<Longrightarrow> from_utf16 (map (\<lambda>c. word_of_nat (byte c)) s) = Some s"
proof (induction s)
  case (Cons c s)
  have "unat (word_of_nat (byte c) :: u16) = byte c"
    using less_trans [OF byte_less [of c], of 65536] by (simp add: unat_of_nat)
  with Cons show ?case by (auto simp: from_utf16_def utf8_encode_def is_ascii_def byte_def)
qed (simp add: from_utf16_def)

lemma sample_names_read: "parse_dos_device_numbers sample_names = [0]"
proof -
  have "split_units sample_names = [map (\<lambda>c. word_of_nat (byte c)) ''PhysicalDrive0'', [], []]"
    by (simp add: sample_names_def byte_def)
  moreover have "from_utf16 (map (\<lambda>c. word_of_nat (byte c)) ''PhysicalDrive0'') = Some ''PhysicalDrive0''"
    "from_utf16 [] = Some []"
    by (rule ascii_from_utf16, simp add: is_ascii_def byte_def) (simp add: from_utf16_def)
  moreover have "drive_number ''PhysicalDrive0'' = Some 0" "drive_number [] = None"
    by (simp_all add: drive_number_def drive_name_def char_boundary_def continues_def u32_of_digits_def is_digit_def
        byte_def decimal_value_def digit_def)
  ultimately show ?thesis by (simp add: parse_dos_device_numbers_def List.map_filter_def ordered_set_def)
qed

lemma sample_names_terminated: "length sample_names = 16" "sample_names \<noteq> []" "last sample_names = 0"
  by (simp_all add: sample_names_def)

definition sample_probe :: probe_world where
  "sample_probe = \<lparr> pw_dos_names = (\<lambda>n. Inr sample_names), pw_diskpart = None, pw_system_drive = None,
     pw_extents = (\<lambda>s. None), pw_drive = (\<lambda>n. sample_drive) \<rparr>"

theorem inventory_addresses_its_disks_witness:
  "\<exists>d. collect_disks sample_probe = Ok [d] \<and> disk_size_bytes d = 274877906944 \<and>
     (\<exists>n. physical_drive_number (disk_id d) = Ok n)"
proof -
  have "collect_disks sample_probe = Ok [\<lparr> disk_id = drive_path 0, disk_model = ''Physical Disk 0'', disk_serial = None,
      disk_size_bytes = 274877906944, disk_is_system = False \<rparr>]"
    by (simp add: collect_disks_def sample_probe_def enumerate_disk_numbers_def query_dos_device_numbers.simps
        sample_names_read sample_names_terminated ensure_def read_disk_def disk_length_def sample_drive_def
        system_disk_numbers_def storage_identity_def identity_fields_def sample_columns List.map_filter_def)
  from inventory_addresses_its_disks [OF this] this show ?thesis by auto
qed

end
