(* ===== verification/Spec2Isabelle.thy ===== *)
theory Spec2Isabelle
  imports
    Installer_Safety
    Dhcp_Server
    Http_Ranges
    Gho_Image
    Agent_Client
    Activity_Repository
    Api_Safety
    Image_Preparation
    Tftp_Server
    Hive_Patch
    Desktop_Jobs
    Boot_Package
    Device_Probe
begin

text \<open>
  EasyDeployMesh: a service on a LAN that boots clients over PXE, registers the
  agents that run on them, and deploys Windows images, Ghost images and Ubuntu
  installations to their disks under an operator's jobs.  This library models
  the Rust code of the service (\<open>src/crates/service\<close>), of the agent
  (\<open>src/crates/agent\<close>), of the shared data model (\<open>src/crates/core\<close>), of the Ghost
  decoder (\<open>src/crates/gho\<close>), of the boot store (\<open>src/crates/bcd\<close>) and of the
  commands of the desktop application (\<open>src/apps/desktop\<close>).  A definition keeps the
  name of the function or type it translates; the manifest \<open>PROJECT.json\<close> names the
  lines.

  \<^bold>\<open>How the parts work together.\<close>  The PXE services (DHCP, TFTP, HTTP) give a
  client its boot files.  The WinPE agent registers with an enrolment token,
  sends heartbeats and claims jobs under a lease; it downloads the image,
  partitions the disk and applies the image, asking the control plane whether to
  go on.  A Linux job is offered to the booting client as a session instead,
  whose installer must show the target disk before it receives the real
  configuration, and which ends with a callback of the installed system.  Jobs,
  devices, images and activity events are vectors in memory with a JSON manifest
  on disk, replaced as a whole.  The desktop's commands create and remove jobs,
  images and devices beside the agents and installers that work on them.  What
  the clients boot comes from a package: boot media are extracted, the agent is
  put into the WinPE image, and a dispatcher asks the control plane what to boot.

  \<^bold>\<open>Conventions.\<close>  A fallible call is an \<open>outcome\<close>: \<open>Ok\<close>, \<open>Err\<close> with the code's
  error, or \<open>Panic\<close> for a failing index, unwrap or conversion.  A \<open>struct\<close> is a
  record, an \<open>enum\<close> a datatype, an integer a word of its width (\<open>u64\<close> is
  \<open>64 word\<close>), with saturating and checked operations as the code calls them.
  Strings are UTF-8 bytes, one \<open>char\<close> per byte.  State is passed and returned.
  Time, fresh identifiers, digests, the file's fate when a write fails, and
  whatever the operating system or another crate answers are arguments.
  An index or slice of the Ghost decoder is a checked access (\<open>byte_at\<close>,
  \<open>slice_from\<close>, \<open>table_at\<close>, \<open>block_room\<close>) that panics out of range.  A manifest is
  what it was written from, or other bytes; opening a repository reads its bytes
  through a \<open>codec\<close>, the JSON of the data, which a restored repository needs to
  parse what it renders (\<open>faithful_on\<close>), and each call of the opening may fail
  (\<open>file_access\<close>).  An instant is an \<open>int\<close> of nanoseconds: the code adds minutes
  to what the system clock shows, and the year 262142, where \<open>chrono\<close> would
  panic, is not modelled.  \<open>File_System\<close> is that of a Unix host, so the files the
  TFTP server and the image library open are looked up there; the checks of paths
  as text (\<open>validate_relative_path\<close>) are modelled for Windows as well, whose
  lookup ignores the case of names and is left out.  The empty path,
  which is the parent of a bare file name, is refused by the file system.

  \<^bold>\<open>The theories.\<close>
  \<^item> \<open>Edm_Prelude\<close>, \<open>Byte_Codec\<close>, \<open>Decimal\<close>, \<open>Text_Lines\<close>, \<open>Text_Search\<close>, \<open>Unicode_Text\<close>,
    \<open>Durable_Store\<close>, \<open>File_System\<close>, \<open>File_Tree\<close>: outcomes, word arithmetic, the
    string functions of the standard library, fixed-width codecs (locale
    \<open>fixed_codec\<close>), the vector with its manifest (locale interpreted by jobs,
    devices and events), a file system with links and refusals, and its trees.
  \<^item> \<open>Core_Models\<close>, \<open>Job_Lifecycle\<close>, \<open>Partition_Plan\<close>, \<open>Linux_Install\<close>,
    \<open>Deployment_Job\<close> (\<open>core/src/models.rs\<close>, \<open>core/src/job.rs\<close>): the data, the job states,
    plans with validation and capacity, the Linux options, jobs and messages.
    Validation is shown to decide a declarative well-formedness.
  \<^item> \<open>Job_Repository\<close> (\<open>job_repository.rs\<close>): every operation on jobs; the abstract
    steps they refine; histories keep ids distinct, one open job per device,
    leases exclusive; a refused call leaves no trace; reopening restores the jobs.
  \<^item> \<open>Device_Registry\<close> (\<open>device_registry.rs\<close>), \<open>Activity_Repository\<close>
    (\<open>activity_repository.rs\<close>): registration, heartbeats, credentials; the bounded log.
  \<^item> \<open>Installer_Sessions\<close>, \<open>Installer_Rendering\<close>, \<open>Installer_Safety\<close>
    (\<open>installer_deployment.rs\<close>): offers, the guard, events, first boot and the
    rendered configurations; a history of calls is a reachability relation, over
    which a Linux job starts only on its disk and ends only by its first boot.
  \<^item> \<open>Control_Plane\<close>, \<open>Api_Safety\<close> (\<open>control_plane.rs\<close>): every route with its
    authentication, effects and status.  \<open>call_of\<close> says, from the request and
    its credential alone, which call of the services a request stands for;
    a history of requests is exactly the history of its calls, and keeps all
    invariants.
  \<^item> \<open>Image_Data\<close>, \<open>Image_Spans\<close>, \<open>Linux_Iso\<close>, \<open>Image_Library\<close>,
    \<open>Image_Preparation\<close>, \<open>Image_Delivery\<close> (\<open>image_library.rs\<close>, \<open>linux_iso.rs\<close>): import,
    span discovery, inspection, hashing, revalidation and preparation of images;
    the chain from a stored Ghost image over the lease and the download to the
    agent's restore.
  \<^item> \<open>Gho_Fast_Lz\<close>, \<open>Gho_Reader\<close>, \<open>Gho_Image\<close> (\<open>gho/src/lib.rs\<close>): the span reader, record
    scan, container parser, decompressor and block loop, with round trips and
    bounds.
  \<^item> \<open>Agent_Layout\<close>, \<open>Agent_Executor\<close>, \<open>Agent_Client\<close> (\<open>agent/src/deployment.rs\<close>,
    \<open>agent/src/main.rs\<close>): the checks and disk scripts of a lease, the order of the
    destructive steps, supervision of programs, and the loop that registers,
    reports and claims.  A \<open>machine\<close> answers the steps; its answer to a
    verification is the agent's own hashing of the file it holds at that time.
  \<^item> \<open>Pxe_Config\<close>, \<open>Dhcp_Server\<close>, \<open>Tftp_Server\<close>, \<open>Http_Ranges\<close> (\<open>pxe.rs\<close>, and the ranges
    of \<open>control_plane.rs\<close>): the configuration's validation, leases and replies,
    transfers with retransmission, byte ranges.
  \<^item> \<open>Boot_Config\<close>, \<open>Hive_Patch\<close> (\<open>bcd/src/lib.rs\<close>): the boot store's values and its
    check; the change of a registry hive in place, with the cells of the hive
    as a heap.
  \<^item> \<open>Desktop_Jobs\<close> (\<open>apps/desktop/src-tauri/src/lib.rs\<close>): admission of jobs, removal
    and import of images, and the relation of all interleavings of these
    commands with agents, installers and the machine, over which jobs keep
    their images.
  \<^item> \<open>Device_Probe\<close> (\<open>agent/src/windows_inventory.rs\<close>): the readers of what Windows
    answers about adapters and disks.
  \<^item> \<open>Udf_Media\<close>, \<open>Boot_Media\<close> (\<open>pxe.rs\<close>): the extraction of boot media, the boot
    images of a catalogue, the partition of a disk image and the header of a
    WIM.  Extraction stays below its target, reading inside its partition.
  \<^item> \<open>Winpe_Patch\<close>, \<open>Winpe_Image\<close>, \<open>Boot_Package\<close> (\<open>pxe.rs\<close>): the shell configuration
    that starts the agent, the injection into an image on Windows and on macOS,
    the decision of a refresh, and packages with their refresh, dispatcher and
    import.  On Windows the image is mounted, edited, and committed or
    discarded by DISM: a \<open>mount_host\<close> holds the image file, whether it is mounted
    and the mount directory, and \<open>imaging_tool\<close> says which steps fail and what a
    failed commit leaves.  A failure leaves the image or package as it was, with
    the exceptions the lemmas name; a refresh keeps what was saved of the vendor's.

  \<^bold>\<open>Interfaces.\<close>  Locales state what a client relies on and are interpreted on the
  model: codecs of fixed width, the durable vector, ranges of a resource, the
  source a Ghost decoder reads from (interpreted for a file and for a set of
  spans, with the agreement of the two).  Properties rest on their facts.

  \<^bold>\<open>Recursion.\<close>  Loops over lists and bytes are recursive with a measure that
  shows them total: the record scan and the block loop consume their source, the
  decompressor its input, TFTP its file, the search for a free cell its bins.
  Loops that may run for ever - supervision of a program and the agent's main
  loop - take the answers of the outside as a list or a number of turns, and
  their liveness is stated for the turn at which the awaited answer comes.
  Retransmission makes four attempts, link resolution follows forty links, as
  the code and the host do.  The copy of an ISO 9660 volume, whose directories
  may refer to themselves, takes a depth; a volume whose directories have a
  rank below it is copied to its end.

  \<^bold>\<open>Not modelled.\<close>  Sockets, HTTP framing, TLS and the text of JSON (a codec is a
  parameter); locks (an operation under a lock is one step) beyond
  the orders the properties quantify over; Win32 calls, windows and pipes of the
  agent; external programs (\<open>diskpart\<close>, \<open>dism\<close>, \<open>reg\<close>, \<open>bcdedit\<close>, \<open>wimlib\<close>); SHA-256, zlib,
  the ISO9660, UDF, FAT and registry crates, whose answers are parameters;
  building a package from extracted media and remastering an ISO; the start of
  the PXE services; the desktop's windows, front end and start.  The manifest lists every part that is left
  out with its reason.
\<close>

end
